(* ===== verification/Prelude.thy ===== *)
theory Prelude
  imports Main "HOL-Library.Word"
begin

unbundle bit_operations_syntax

text \<open>
  Shared material of the development: the machine integer types of "sysdeps.h", the
  collections of simplification rules the component theories add to, byte splitting and
  joining of 16 and 32 bit words (all Mac data is big-endian), a separation predicate for
  address ranges, and a few facts on list updates and searches.
\<close>

section \<open>Machine integers\<close>

type_synonym u8 = "8 word"
type_synonym u16 = "16 word"
type_synonym u32 = "32 word"
type_synonym u64 = "64 word"

text \<open>Collections: memory access rules, and facts about component states.\<close>

named_theorems mac_mem
named_theorems drv_simps

section \<open>Big-endian splitting and joining\<close>

definition hi8 :: "u16 \<Rightarrow> u8" where
  "hi8 v = ucast (drop_bit 8 v)"

definition lo8 :: "u16 \<Rightarrow> u8" where
  "lo8 v = ucast v"

definition join16 :: "u8 \<Rightarrow> u8 \<Rightarrow> u16" where
  "join16 b0 b1 = push_bit 8 (ucast b0) OR ucast b1"

definition byte3 :: "u32 \<Rightarrow> u8" where
  "byte3 v = ucast (drop_bit 24 v)"

definition byte2 :: "u32 \<Rightarrow> u8" where
  "byte2 v = ucast (drop_bit 16 v)"

definition byte1 :: "u32 \<Rightarrow> u8" where
  "byte1 v = ucast (drop_bit 8 v)"

definition byte0 :: "u32 \<Rightarrow> u8" where
  "byte0 v = ucast v"

definition join32 :: "u8 \<Rightarrow> u8 \<Rightarrow> u8 \<Rightarrow> u8 \<Rightarrow> u32" where
  "join32 b0 b1 b2 b3 =
     push_bit 24 (ucast b0) OR push_bit 16 (ucast b1) OR push_bit 8 (ucast b2) OR ucast b3"

lemma bit_u8_less: "bit (w :: u8) n \<Longrightarrow> n < 8"
  using bit_imp_le_length [of w n] by simp

lemma join16_split [simp]: "join16 (hi8 v) (lo8 v) = v"
proof (rule bit_word_eqI)
  fix n assume "n < LENGTH(16)"
  then show "bit (join16 (hi8 v) (lo8 v)) n = bit v n"
    by (cases "n < 8") (auto simp: join16_def hi8_def lo8_def bit_simps dest: bit_imp_le_length)
qed

lemma split_join16 [simp]: "hi8 (join16 b0 b1) = b0" "lo8 (join16 b0 b1) = b1"
proof -
  show "hi8 (join16 b0 b1) = b0"
    by (rule bit_word_eqI) (auto simp: join16_def hi8_def bit_simps dest: bit_u8_less)
  show "lo8 (join16 b0 b1) = b1"
    by (rule bit_word_eqI) (auto simp: join16_def lo8_def bit_simps dest: bit_u8_less)
qed

lemma join32_split [simp]: "join32 (byte3 v) (byte2 v) (byte1 v) (byte0 v) = v"
proof (rule bit_word_eqI)
  fix n assume n: "n < LENGTH(32)"
  consider "n < 8" | "8 \<le> n" "n < 16" | "16 \<le> n" "n < 24" | "24 \<le> n"
    by linarith
  then show "bit (join32 (byte3 v) (byte2 v) (byte1 v) (byte0 v)) n = bit v n"
    using n
    by cases (auto simp: join32_def byte3_def byte2_def byte1_def byte0_def bit_simps)
qed

lemma byte3_join32 [simp]: "byte3 (join32 b0 b1 b2 b3) = b0"
  by (rule bit_word_eqI) (auto simp: join32_def byte3_def bit_simps dest: bit_u8_less)

lemma byte2_join32 [simp]: "byte2 (join32 b0 b1 b2 b3) = b1"
  by (rule bit_word_eqI) (auto simp: join32_def byte2_def bit_simps dest: bit_u8_less)

lemma byte1_join32 [simp]: "byte1 (join32 b0 b1 b2 b3) = b2"
  by (rule bit_word_eqI) (auto simp: join32_def byte1_def bit_simps dest: bit_u8_less)

lemma byte0_join32 [simp]: "byte0 (join32 b0 b1 b2 b3) = b3"
  by (rule bit_word_eqI) (auto simp: join32_def byte0_def bit_simps dest: bit_u8_less)

lemmas byte_join32 = byte3_join32 byte2_join32 byte1_join32 byte0_join32

lemma half_shift:
  fixes u :: int
  assumes "0 \<le> u" and "u < 4294967296"
  shows "(u + 2147483648) mod 4294967296 - 2147483648 = (if u < 2147483648 then u else u - 4294967296)"
proof (cases "u < 2147483648")
  case True
  then show ?thesis using assms by (simp add: mod_pos_pos_trivial)
next
  case False
  have "u + 2147483648 = u - 2147483648 + 4294967296" by simp
  then have "(u + 2147483648) mod 4294967296 = (u - 2147483648 + 4294967296) mod 4294967296" by (rule arg_cong)
  also have "\<dots> = (u - 2147483648) mod 4294967296" by (rule mod_add_self2)
  also have "\<dots> = u - 2147483648" using assms False by (intro mod_pos_pos_trivial) simp_all
  finally show ?thesis using False by simp
qed

text \<open>A 32-bit word read as a signed number.\<close>

lemma sint_u32_cases:
  "sint (x :: u32) = (if unat x < 2 ^ 31 then int (unat x) else int (unat x) - 2 ^ 32)"
proof -
  have "sint x = (uint x + 2147483648) mod 4294967296 - 2147483648"
    using int_word_sint [where 'a = 32, of "uint x"] by simp
  also have "\<dots> = (if uint x < 2147483648 then uint x else uint x - 4294967296)"
    using uint_bounded [of x] by (intro half_shift) simp_all
  finally have "sint x = (if uint x < 2147483648 then uint x else uint x - 4294967296)" .
  moreover have "int (unat x) = uint x" by simp
  moreover from this have "unat x < 2147483648 \<longleftrightarrow> uint x < 2147483648"
    by (intro iffI) linarith+
  ultimately show ?thesis by simp
qed

section \<open>Separated address ranges\<close>

text \<open>
  \<open>sep a n b m\<close>: the \<open>n\<close> bytes from \<open>a\<close> and the \<open>m\<close> bytes from \<open>b\<close> do not overlap.
  Addresses wrap at 32 bits, so the distance is taken in both directions.
\<close>

definition sep :: "u32 \<Rightarrow> nat \<Rightarrow> u32 \<Rightarrow> nat \<Rightarrow> bool" where
  "sep a n b m \<longleftrightarrow> n \<le> unat (b - a) \<and> m \<le> unat (a - b)"

lemma sep_sym: "sep a n b m = sep b m a n"
  by (auto simp: sep_def)

lemma sep_neq:
  assumes "sep a n b m" and "unat i < n" and "unat j < m"
  shows "a + i \<noteq> b + j"
proof
  assume eq: "a + i = b + j"
  then have d1: "b - a = i - j" and d2: "a - b = j - i"
    by (simp_all add: algebra_simps)
  show False
  proof (cases "j \<le> i")
    case True
    then have "unat (b - a) \<le> unat i"
      unfolding d1 by (simp add: unat_sub)
    with assms show False by (simp add: sep_def)
  next
    case False
    then have "unat (a - b) \<le> unat j"
      unfolding d2 by (simp add: unat_sub)
    with assms show False by (simp add: sep_def)
  qed
qed

lemma unat_word_of_nat: "n < 2 ^ 32 \<Longrightarrow> unat (word_of_nat n :: u32) = n"
  by (simp add: unsigned_of_nat take_bit_nat_eq_self)

lemma sepI:
  assumes "0 < n" and "0 < m" and "\<And>i j. unat i < n \<Longrightarrow> unat j < m \<Longrightarrow> a + i \<noteq> b + j"
  shows "sep a n b m"
proof -
  have "\<not> unat (b - a) < n" using assms(2) assms(3) [of "b - a" 0] by auto
  moreover have "\<not> unat (a - b) < m" using assms(1) assms(3) [of 0 "a - b"] by auto
  ultimately show ?thesis by (simp add: sep_def)
qed

lemma unat_add_le: "unat (x + y :: u32) \<le> unat x + unat y"
  by (simp add: unat_word_ariths)

text \<open>Parts of separated ranges are separated.\<close>

lemma sep_sub:
  assumes "sep a n b m" and "unat i + k \<le> n" and "unat j + l \<le> m" and "0 < k" and "0 < l"
  shows "sep (a + i) k (b + j) l"
proof (rule sepI)
  fix x y :: u32
  assume x: "unat x < k" and y: "unat y < l"
  have "a + (i + x) \<noteq> b + (j + y)"
    using assms x y unat_add_le [of i x] unat_add_le [of j y]
    by (intro sep_neq [OF assms(1)]) linarith+
  then show "a + i + x \<noteq> b + j + y" by (simp add: add.assoc)
qed (use assms in auto)

lemmas sep_sub_left = sep_sub [where j = 0, simplified]
lemmas sep_sub_right = sep_sub [where i = 0, simplified]

section \<open>Searching a list by index\<close>

text \<open>
  Many routines of the program scan a table or a vector from the start and stop at the
  first entry with a property. \<open>find_index\<close> is that scan; it returns the position.
\<close>

fun find_index :: "('a \<Rightarrow> bool) \<Rightarrow> 'a list \<Rightarrow> nat option" where
  "find_index P [] = None"
| "find_index P (x # xs) = (if P x then Some 0 else map_option Suc (find_index P xs))"

lemma find_index_None: "find_index P xs = None \<longleftrightarrow> (\<forall>x \<in> set xs. \<not> P x)"
  by (induction xs) auto

lemma find_index_SomeD:
  "find_index P xs = Some i \<Longrightarrow> i < length xs \<and> P (xs ! i) \<and> (\<forall>j < i. \<not> P (xs ! j))"
proof (induction xs arbitrary: i)
  case Nil
  then show ?case by simp
next
  case (Cons x xs)
  show ?case
  proof (cases "P x")
    case True
    with Cons.prems show ?thesis by simp
  next
    case False
    with Cons.prems obtain k where k: "find_index P xs = Some k" "i = Suc k" by auto
    with Cons.IH [OF k(1)] False show ?thesis by (auto simp: nth_Cons split: nat.splits)
  qed
qed

lemma find_index_SomeI:
  "i < length xs \<Longrightarrow> P (xs ! i) \<Longrightarrow> (\<And>j. j < i \<Longrightarrow> \<not> P (xs ! j)) \<Longrightarrow> find_index P xs = Some i"
proof (induction xs arbitrary: i)
  case Nil
  then show ?case by simp
next
  case (Cons x xs)
  show ?case
  proof (cases i)
    case 0
    with Cons.prems show ?thesis by simp
  next
    case (Suc k)
    have nx: "\<not> P x" using Cons.prems(3) [of 0] Suc by simp
    have "find_index P xs = Some k"
    proof (rule Cons.IH)
      fix j assume "j < k"
      then show "\<not> P (xs ! j)" using Cons.prems(3) [of "Suc j"] Suc by simp
    qed (use Cons.prems Suc in auto)
    with nx Suc show ?thesis by simp
  qed
qed

lemma find_index_Some_iff:
  "find_index P xs = Some i \<longleftrightarrow> i < length xs \<and> P (xs ! i) \<and> (\<forall>j < i. \<not> P (xs ! j))"
  using find_index_SomeD find_index_SomeI by metis

lemma find_index_bound: "find_index P xs = Some i \<Longrightarrow> i < length xs"
  by (simp add: find_index_Some_iff)

lemma find_index_cong:
  "length xs = length ys \<Longrightarrow> (\<And>i. i < length xs \<Longrightarrow> P (xs ! i) = Q (ys ! i)) \<Longrightarrow>
     find_index P xs = find_index Q ys"
  by (induction xs ys rule: list_induct2) (auto simp: nth_Cons split: nat.splits, force+)

end
