(* ===== verification/MacMemory.thy ===== *)
theory MacMemory
  imports Prelude
begin

text \<open>
  Mac memory as the emulator sees it: the accessors of "cpu_emulation.h" over a flat,
  byte-addressed, big-endian memory (the DIRECT_ADDRESSING configuration of "memory.h"),
  the register block handed to Execute68k() and Execute68kTrap(), and the state of the
  emulated machine that the drivers share. The 68k code that is run by those two calls is
  Mac code outside the program: it is the parameter \<open>env68k\<close>.
\<close>

section \<open>Byte stores\<close>

text \<open>
  The contract the drivers need from memory: a byte written is read back, and no other byte
  changes. Wider accesses are built from bytes, so their laws are proved once here.
\<close>

locale byte_store =
  fixes get :: "'s \<Rightarrow> u32 \<Rightarrow> u8"
    and put :: "u32 \<Rightarrow> u8 \<Rightarrow> 's \<Rightarrow> 's"
  assumes get_put_same: "get (put a v s) a = v"
    and get_put_other: "a \<noteq> b \<Longrightarrow> get (put b v s) a = get s a"
begin

lemma get_put: "get (put b v s) a = (if a = b then v else get s a)"
  by (simp add: get_put_same get_put_other)

lemma join16_put16:
  "join16 (get (put (a + 1) (lo8 v) (put a (hi8 v) s)) a)
          (get (put (a + 1) (lo8 v) (put a (hi8 v) s)) (a + 1)) = v"
  by (simp add: get_put)

lemma join32_put32:
  "let t = put (a + 3) (byte0 v) (put (a + 2) (byte1 v) (put (a + 1) (byte2 v) (put a (byte3 v) s)))
   in join32 (get t a) (get t (a + 1)) (get t (a + 2)) (get t (a + 3)) = v"
  by (simp add: get_put Let_def)

lemma get_fold_put:
  assumes "k + length bs \<le> 2 ^ 32"
  shows "get (fold (\<lambda>(i, b). put (a + word_of_nat i) b) (enumerate k bs) s) x =
     (if k \<le> unat (x - a) \<and> unat (x - a) < k + length bs then bs ! (unat (x - a) - k) else get s x)"
  using assms
proof (induction bs arbitrary: k s)
  case Nil
  then show ?case by auto
next
  case (Cons b bs)
  have k: "unat (word_of_nat k :: u32) = k"
    using Cons.prems by (simp add: unat_word_of_nat)
  have eq: "x = a + word_of_nat k \<longleftrightarrow> unat (x - a) = k"
  proof -
    have "x = a + word_of_nat k \<longleftrightarrow> x - a = word_of_nat k"
      by (auto simp: algebra_simps)
    then show ?thesis using k by (simp add: word_unat_eq_iff)
  qed
  have IH: "get (fold (\<lambda>(i, b). put (a + word_of_nat i) b) (enumerate (Suc k) bs) t) x =
     (if Suc k \<le> unat (x - a) \<and> unat (x - a) < Suc k + length bs
      then bs ! (unat (x - a) - Suc k) else get t x)" for t
    using Cons.prems by (intro Cons.IH) simp
  show ?case
    by (auto simp: IH get_put eq nth_Cons' simp del: enumerate_Suc_eq)
qed

end

section \<open>Flat Mac memory\<close>

type_synonym mem = "u32 \<Rightarrow> u8"

definition ReadMacInt8 :: "mem \<Rightarrow> u32 \<Rightarrow> u8" where
  "ReadMacInt8 m addr = m addr"

definition ReadMacInt16 :: "mem \<Rightarrow> u32 \<Rightarrow> u16" where
  "ReadMacInt16 m addr = join16 (m addr) (m (addr + 1))"

definition ReadMacInt32 :: "mem \<Rightarrow> u32 \<Rightarrow> u32" where
  "ReadMacInt32 m addr = join32 (m addr) (m (addr + 1)) (m (addr + 2)) (m (addr + 3))"

definition WriteMacInt8 :: "u32 \<Rightarrow> u8 \<Rightarrow> mem \<Rightarrow> mem" where
  "WriteMacInt8 addr b m = m(addr := b)"

definition WriteMacInt16 :: "u32 \<Rightarrow> u16 \<Rightarrow> mem \<Rightarrow> mem" where
  "WriteMacInt16 addr w m = m(addr := hi8 w, addr + 1 := lo8 w)"

definition WriteMacInt32 :: "u32 \<Rightarrow> u32 \<Rightarrow> mem \<Rightarrow> mem" where
  "WriteMacInt32 addr l m =
     m(addr := byte3 l, addr + 1 := byte2 l, addr + 2 := byte1 l, addr + 3 := byte0 l)"

lemmas mac_access = ReadMacInt8_def ReadMacInt16_def ReadMacInt32_def
  WriteMacInt8_def WriteMacInt16_def WriteMacInt32_def

interpretation flat: byte_store ReadMacInt8 WriteMacInt8
  by unfold_locales (auto simp: ReadMacInt8_def WriteMacInt8_def)

lemma write16_as_bytes:
  "WriteMacInt16 a v m = WriteMacInt8 (a + 1) (lo8 v) (WriteMacInt8 a (hi8 v) m)"
  by (simp add: WriteMacInt16_def WriteMacInt8_def)

lemma write32_as_bytes:
  "WriteMacInt32 a v m = WriteMacInt8 (a + 3) (byte0 v) (WriteMacInt8 (a + 2) (byte1 v)
     (WriteMacInt8 (a + 1) (byte2 v) (WriteMacInt8 a (byte3 v) m)))"
  by (simp add: WriteMacInt32_def WriteMacInt8_def)

lemma read16_as_bytes: "ReadMacInt16 m a = join16 (ReadMacInt8 m a) (ReadMacInt8 m (a + 1))"
  by (simp add: ReadMacInt16_def ReadMacInt8_def)

lemma read32_as_bytes:
  "ReadMacInt32 m a = join32 (ReadMacInt8 m a) (ReadMacInt8 m (a + 1))
     (ReadMacInt8 m (a + 2)) (ReadMacInt8 m (a + 3))"
  by (simp add: ReadMacInt32_def ReadMacInt8_def)

lemma read8_write8 [simp]: "ReadMacInt8 (WriteMacInt8 a v m) a = v"
  by (rule flat.get_put_same)

lemma read16_write16 [simp]: "ReadMacInt16 (WriteMacInt16 a v m) a = v"
  using flat.join16_put16 [of a v m] by (simp add: read16_as_bytes write16_as_bytes)

lemma read32_write32 [simp]: "ReadMacInt32 (WriteMacInt32 a v m) a = v"
  using flat.join32_put32 [of a v m] by (simp add: read32_as_bytes write32_as_bytes Let_def)

text \<open>Block transfers: memcpy and memset between host buffers and Mac memory.\<close>

definition mem_read :: "mem \<Rightarrow> u32 \<Rightarrow> nat \<Rightarrow> u8 list" where
  "mem_read m addr n = map (\<lambda>i. m (addr + word_of_nat i)) [0..<n]"

definition Host2Mac_memcpy :: "u32 \<Rightarrow> u8 list \<Rightarrow> mem \<Rightarrow> mem" where
  "Host2Mac_memcpy dest bs m =
     fold (\<lambda>(i, b). WriteMacInt8 (dest + word_of_nat i) b) (enumerate 0 bs) m"

definition Mac_memset :: "u32 \<Rightarrow> u8 \<Rightarrow> nat \<Rightarrow> mem \<Rightarrow> mem" where
  "Mac_memset addr c n m = Host2Mac_memcpy addr (replicate n c) m"

definition Mac2Mac_memcpy :: "u32 \<Rightarrow> u32 \<Rightarrow> nat \<Rightarrow> mem \<Rightarrow> mem" where
  "Mac2Mac_memcpy dest src n m = Host2Mac_memcpy dest (mem_read m src n) m"

lemma length_mem_read [simp]: "length (mem_read m a n) = n"
  by (simp add: mem_read_def)

lemma memcpy_byte:
  assumes "length bs \<le> 2 ^ 32"
  shows "Host2Mac_memcpy a bs m x =
    (if unat (x - a) < length bs then bs ! unat (x - a) else m x)"
  using flat.get_fold_put [of 0 bs a m x] assms
  by (simp add: Host2Mac_memcpy_def ReadMacInt8_def)

lemma mem_read_memcpy:
  assumes "length bs \<le> 2 ^ 32"
  shows "mem_read (Host2Mac_memcpy a bs m) a (length bs) = bs"
proof (rule nth_equalityI)
  fix i assume "i < length (mem_read (Host2Mac_memcpy a bs m) a (length bs))"
  then have i: "i < length bs" by simp
  then have "unat (word_of_nat i :: u32) = i"
    using assms by (simp add: unat_word_of_nat)
  then show "mem_read (Host2Mac_memcpy a bs m) a (length bs) ! i = bs ! i"
    using i assms by (simp add: mem_read_def memcpy_byte)
qed simp

lemma mem_read_memcpy_sep:
  assumes "sep a n b (length bs)" and "length bs \<le> 2 ^ 32" and "n \<le> 2 ^ 32"
  shows "mem_read (Host2Mac_memcpy b bs m) a n = mem_read m a n"
proof (rule nth_equalityI)
  fix i assume "i < length (mem_read (Host2Mac_memcpy b bs m) a n)"
  then have i: "i < n" by simp
  then have u: "unat (word_of_nat i :: u32) = i"
    using assms by (simp add: unat_word_of_nat)
  have "\<not> unat (a + word_of_nat i - b) < length bs"
  proof
    assume "unat (a + word_of_nat i - b) < length bs"
    moreover have "a + word_of_nat i = b + (a + word_of_nat i - b)" by simp
    ultimately show False using sep_neq [OF assms(1)] i u by metis
  qed
  then show "mem_read (Host2Mac_memcpy b bs m) a n ! i = mem_read m a n ! i"
    using i assms by (simp add: mem_read_def memcpy_byte)
qed simp

section \<open>The emulated machine\<close>

text \<open>
  The register block \<open>M68kRegisters\<close> of "main.h" (the status register is not used by the
  callers). A local variable of that type starts with whatever is on the host stack; that
  content is \<open>stack_junk\<close>.
\<close>

record m68k_regs =
  dreg :: "nat \<Rightarrow> u32"
  areg :: "nat \<Rightarrow> u32"

definition set_d :: "nat \<Rightarrow> u32 \<Rightarrow> m68k_regs \<Rightarrow> m68k_regs" where
  "set_d n v r = r\<lparr>dreg := (dreg r)(n := v)\<rparr>"

definition set_a :: "nat \<Rightarrow> u32 \<Rightarrow> m68k_regs \<Rightarrow> m68k_regs" where
  "set_a n v r = r\<lparr>areg := (areg r)(n := v)\<rparr>"

lemma reg_simps [simp]:
  "dreg (set_d n v r) = (dreg r)(n := v)" "areg (set_d n v r) = areg r"
  "areg (set_a n v r) = (areg r)(n := v)" "dreg (set_a n v r) = dreg r"
  by (simp_all add: set_d_def set_a_def)

text \<open>
  \<open>mac\<close> is the part of the machine every driver can touch: Mac memory, the host's files and
  devices (any type \<open>'h\<close>), and a history of the calls made into 68k code, newest last: the
  routine or trap, the registers passed and the memory it saw. No operation reads the history.
\<close>

datatype call68k =
    Routine (callee: u32) (passed: m68k_regs) (seen: mem)
  | Trap68k (trap_word: u16) (passed: m68k_regs) (seen: mem)

record 'h mac =
  mem :: mem
  host :: 'h
  calls :: "call68k list"

record 'h env68k =
  run_trap :: "u16 \<Rightarrow> m68k_regs \<Rightarrow> mem \<times> 'h \<Rightarrow> m68k_regs \<times> mem \<times> 'h"
  run_code :: "u32 \<Rightarrow> m68k_regs \<Rightarrow> mem \<times> 'h \<Rightarrow> m68k_regs \<times> mem \<times> 'h"
  stack_junk :: m68k_regs

definition Execute68kTrap ::
  "'h env68k \<Rightarrow> u16 \<Rightarrow> m68k_regs \<Rightarrow> 'h mac \<Rightarrow> m68k_regs \<times> 'h mac" where
  "Execute68kTrap E trap r s =
     (case run_trap E trap r (mem s, host s) of
        (r', m', h') \<Rightarrow> (r', s\<lparr>mem := m', host := h', calls := calls s @ [Trap68k trap r (mem s)]\<rparr>))"

definition Execute68k ::
  "'h env68k \<Rightarrow> u32 \<Rightarrow> m68k_regs \<Rightarrow> 'h mac \<Rightarrow> m68k_regs \<times> 'h mac" where
  "Execute68k E addr r s =
     (case run_code E addr r (mem s, host s) of
        (r', m', h') \<Rightarrow> (r', s\<lparr>mem := m', host := h', calls := calls s @ [Routine addr r (mem s)]\<rparr>))"

lemma calls_Execute68kTrap [simp]:
  "calls (snd (Execute68kTrap E t r s)) = calls s @ [Trap68k t r (mem s)]"
  by (simp add: Execute68kTrap_def split: prod.splits)

lemma calls_Execute68k [simp]:
  "calls (snd (Execute68k E a r s)) = calls s @ [Routine a r (mem s)]"
  by (simp add: Execute68k_def split: prod.splits)

text \<open>The calls without the memory: which code was called with which registers.\<close>

fun call_req :: "call68k \<Rightarrow> (u32 + u16) \<times> m68k_regs" where
  "call_req (Routine a r m) = (Inl a, r)"
| "call_req (Trap68k t r m) = (Inr t, r)"

definition requests :: "'h mac \<Rightarrow> ((u32 + u16) \<times> m68k_regs) list" where
  "requests s = map call_req (calls s)"

lemma requests_Execute [simp]:
  "requests (snd (Execute68kTrap E t r s)) = requests s @ [(Inr t, r)]"
  "requests (snd (Execute68k E a r s)) = requests s @ [(Inl a, r)]"
  by (simp_all add: requests_def)

text \<open>Memory accesses lifted to the machine.\<close>

definition get8 :: "'h mac \<Rightarrow> u32 \<Rightarrow> u8" where
  "get8 s a = ReadMacInt8 (mem s) a"

definition get16 :: "'h mac \<Rightarrow> u32 \<Rightarrow> u16" where
  "get16 s a = ReadMacInt16 (mem s) a"

definition get32 :: "'h mac \<Rightarrow> u32 \<Rightarrow> u32" where
  "get32 s a = ReadMacInt32 (mem s) a"

definition put8 :: "u32 \<Rightarrow> u8 \<Rightarrow> 'h mac \<Rightarrow> 'h mac" where
  "put8 a v s = s\<lparr>mem := WriteMacInt8 a v (mem s)\<rparr>"

definition put16 :: "u32 \<Rightarrow> u16 \<Rightarrow> 'h mac \<Rightarrow> 'h mac" where
  "put16 a v s = s\<lparr>mem := WriteMacInt16 a v (mem s)\<rparr>"

definition put32 :: "u32 \<Rightarrow> u32 \<Rightarrow> 'h mac \<Rightarrow> 'h mac" where
  "put32 a v s = s\<lparr>mem := WriteMacInt32 a v (mem s)\<rparr>"

lemmas mac_get_defs = get8_def get16_def get32_def
lemmas mac_put_defs = put8_def put16_def put32_def

lemma put_frame [simp]:
  "host (put8 a b s) = host s" "calls (put8 a b s) = calls s"
  "host (put16 a w s) = host s" "calls (put16 a w s) = calls s"
  "host (put32 a l s) = host s" "calls (put32 a l s) = calls s"
  "requests (put8 a b s) = requests s" "requests (put16 a w s) = requests s"
  "requests (put32 a l s) = requests s"
  by (simp_all add: mac_put_defs requests_def)

lemma put_mem [simp]:
  "mem (put8 a b s) = WriteMacInt8 a b (mem s)"
  "mem (put16 a w s) = WriteMacInt16 a w (mem s)"
  "mem (put32 a l s) = WriteMacInt32 a l (mem s)"
  by (simp_all add: mac_put_defs)

lemma get_put_same [simp]:
  "get8 (put8 a b s) a = b" "get16 (put16 a w s) a = w" "get32 (put32 a l s) a = l"
  by (simp_all add: mac_get_defs)

lemma get16_as_bytes: "get16 s a = join16 (get8 s a) (get8 s (a + 1))"
  by (simp add: mac_get_defs read16_as_bytes)

lemma get32_as_bytes:
  "get32 s a = join32 (get8 s a) (get8 s (a + 1)) (get8 s (a + 2)) (get8 s (a + 3))"
  by (simp add: mac_get_defs read32_as_bytes)

lemma get8_put_cases:
  "get8 (put8 a b s) x = (if x = a then b else get8 s x)"
  "get8 (put16 a w s) x = (if x = a + 1 then lo8 w else if x = a then hi8 w else get8 s x)"
  "get8 (put32 a l s) x = (if x = a + 3 then byte0 l else if x = a + 2 then byte1 l
     else if x = a + 1 then byte2 l else if x = a then byte3 l else get8 s x)"
  by (simp_all add: mac_get_defs mac_put_defs mac_access)

lemmas mac_bytes = get16_as_bytes get32_as_bytes get8_put_cases

text \<open>
  Reads in a range apart from the one written. The condition is decided by \<open>sep_def\<close> when
  the two addresses have the same base, and by \<open>sep_sub\<close> from a hypothesis otherwise.
\<close>

lemma get8_put8: "sep x 1 a 1 \<Longrightarrow> get8 (put8 a b s) x = get8 s x"
  using sep_neq [of x 1 a 1 0 0] by (simp add: get8_put_cases)

lemma get8_put16: "sep x 1 a 2 \<Longrightarrow> get8 (put16 a w s) x = get8 s x"
  using sep_neq [of x 1 a 2 0 0] sep_neq [of x 1 a 2 0 1] by (simp add: get8_put_cases)

lemma get8_put32: "sep x 1 a 4 \<Longrightarrow> get8 (put32 a l s) x = get8 s x"
  using sep_neq [of x 1 a 4 0 0] sep_neq [of x 1 a 4 0 1] sep_neq [of x 1 a 4 0 2]
    sep_neq [of x 1 a 4 0 3]
  by (simp add: get8_put_cases)

lemma get16_put_apart:
  "sep x 2 a 1 \<Longrightarrow> get16 (put8 a b s) x = get16 s x"
  "sep x 2 a 2 \<Longrightarrow> get16 (put16 a w s) x = get16 s x"
  "sep x 2 a 4 \<Longrightarrow> get16 (put32 a l s) x = get16 s x"
  using sep_sub_left [of x 2 a _ 0 1] sep_sub_left [of x 2 a _ 1 1]
  by (auto simp: get16_as_bytes get8_put8 get8_put16 get8_put32)

lemma get32_put_apart:
  "sep x 4 a 1 \<Longrightarrow> get32 (put8 a b s) x = get32 s x"
  "sep x 4 a 2 \<Longrightarrow> get32 (put16 a w s) x = get32 s x"
  "sep x 4 a 4 \<Longrightarrow> get32 (put32 a l s) x = get32 s x"
  using sep_sub_left [of x 4 a _ 0 1] sep_sub_left [of x 4 a _ 1 1]
    sep_sub_left [of x 4 a _ 2 1] sep_sub_left [of x 4 a _ 3 1]
  by (auto simp: get32_as_bytes get8_put8 get8_put16 get8_put32)

lemmas get_put_apart [mac_mem] =
  get8_put8 get8_put16 get8_put32 get16_put_apart get32_put_apart

text \<open>A block of bytes stored in Mac memory.\<close>

definition put_bytes :: "u32 \<Rightarrow> u8 list \<Rightarrow> 'h mac \<Rightarrow> 'h mac" where
  "put_bytes a bs s = s\<lparr>mem := Host2Mac_memcpy a bs (mem s)\<rparr>"

definition get_bytes :: "'h mac \<Rightarrow> u32 \<Rightarrow> nat \<Rightarrow> u8 list" where
  "get_bytes s a n = mem_read (mem s) a n"

lemma put_bytes_frame [simp]:
  "host (put_bytes a bs s) = host s" "calls (put_bytes a bs s) = calls s"
  "requests (put_bytes a bs s) = requests s"
  "mem (put_bytes a bs s) = Host2Mac_memcpy a bs (mem s)"
  by (simp_all add: put_bytes_def requests_def)

lemma length_get_bytes [simp]: "length (get_bytes s a n) = n"
  by (simp add: get_bytes_def)

lemma nth_get_bytes: "i < n \<Longrightarrow> get_bytes s a n ! i = get8 s (a + word_of_nat i)"
  by (simp add: get_bytes_def mem_read_def get8_def ReadMacInt8_def)

lemma get_bytes_0 [simp]: "get_bytes s a 0 = []"
  by (simp add: get_bytes_def mem_read_def)

lemma get_bytes_split:
  "get_bytes s a (m + n) = get_bytes s a m @ get_bytes s (a + word_of_nat m) n"
  unfolding get_bytes_def mem_read_def
  by (rule nth_equalityI) (auto simp: nth_append add.assoc simp flip: of_nat_add)

lemma get_put_bytes: "length bs \<le> 2 ^ 32 \<Longrightarrow> get_bytes (put_bytes a bs s) a (length bs) = bs"
  by (simp add: get_bytes_def mem_read_memcpy)

lemma get_put_bytes_apart:
  "sep a n b (length bs) \<Longrightarrow> length bs \<le> 2 ^ 32 \<Longrightarrow> n \<le> 2 ^ 32 \<Longrightarrow>
     get_bytes (put_bytes b bs s) a n = get_bytes s a n"
  by (simp add: get_bytes_def mem_read_memcpy_sep)

lemma get8_put_bytes:
  "length bs \<le> 2 ^ 32 \<Longrightarrow> get8 (put_bytes a bs s) x =
     (if unat (x - a) < length bs then bs ! unat (x - a) else get8 s x)"
  by (simp add: get8_def ReadMacInt8_def memcpy_byte)

lemma get8_put_bytes_apart:
  assumes "sep x 1 a (length bs)" and "length bs \<le> 2 ^ 32"
  shows "get8 (put_bytes a bs s) x = get8 s x"
proof -
  have "\<not> unat (x - a) < length bs"
    using assms sep_neq [of x 1 a "length bs" 0 "x - a"] by auto
  then show ?thesis using assms by (simp add: get8_put_bytes)
qed

lemma get_put_bytes_word:
  assumes "length bs \<le> 2 ^ 32"
  shows "sep x 2 a (length bs) \<Longrightarrow> bs \<noteq> [] \<Longrightarrow> get16 (put_bytes a bs s) x = get16 s x"
    and "sep x 4 a (length bs) \<Longrightarrow> bs \<noteq> [] \<Longrightarrow> get32 (put_bytes a bs s) x = get32 s x"
  using sep_sub_left [of x 2 a "length bs" 0 1] sep_sub_left [of x 2 a "length bs" 1 1]
    sep_sub_left [of x 4 a "length bs" 0 1] sep_sub_left [of x 4 a "length bs" 1 1]
    sep_sub_left [of x 4 a "length bs" 2 1] sep_sub_left [of x 4 a "length bs" 3 1]
  using assms by (auto simp: get16_as_bytes get32_as_bytes get8_put_bytes_apart)

text \<open>A block is stored byte by byte, so it can be stored in parts.\<close>

lemma memcpy_shift:
  "fold (\<lambda>(i, b). WriteMacInt8 (a + word_of_nat i) b) (enumerate (Suc k) bs) m =
   fold (\<lambda>(i, b). WriteMacInt8 (a + 1 + word_of_nat i) b) (enumerate k bs) m"
  by (induction bs arbitrary: k m) (simp_all del: enumerate_Suc_eq add: ac_simps)

lemma put_bytes_Nil [simp]: "put_bytes a [] s = s"
  by (simp add: put_bytes_def Host2Mac_memcpy_def)

lemma put_bytes_Cons: "put_bytes a (b # bs) s = put_bytes (a + 1) bs (put8 a b s)"
  using memcpy_shift [of a 0 bs] by (simp add: put_bytes_def Host2Mac_memcpy_def put8_def del: enumerate_Suc_eq)

lemma put_bytes_append:
  "put_bytes a (bs @ cs) s = put_bytes (a + word_of_nat (length bs)) cs (put_bytes a bs s)"
  by (induction bs arbitrary: a s) (simp_all add: put_bytes_Cons ac_simps)

lemma put16_bytes: "put16 a w s = put_bytes a [hi8 w, lo8 w] s"
  by (simp add: put_bytes_Cons put16_def put8_def write16_as_bytes)

lemma put32_bytes: "put32 a l s = put_bytes a [byte3 l, byte2 l, byte1 l, byte0 l] s"
  by (simp add: put_bytes_Cons put32_def put8_def write32_as_bytes add.commute)

lemma get_bytes_put32: "sep a n b 4 \<Longrightarrow> n \<le> 2 ^ 32 \<Longrightarrow> get_bytes (put32 b x s) a n = get_bytes s a n"
proof -
  assume n: "sep a n b 4" "n \<le> 2 ^ 32"
  let ?bs = "[byte3 x, byte2 x, byte1 x, byte0 x]"
  have four: "length ?bs = 4" by simp
  show ?thesis
    using get_put_bytes_apart [of a n b ?bs s] n unfolding four put32_bytes by simp
qed

text \<open>Two machines with the same bytes in a range read the same there.\<close>

definition same_range :: "u32 \<Rightarrow> nat \<Rightarrow> 'h mac \<Rightarrow> 'g mac \<Rightarrow> bool" where
  "same_range a n s t \<longleftrightarrow> (\<forall>i. unat i < n \<longrightarrow> get8 s (a + i) = get8 t (a + i))"

lemma same_range_refl [simp]: "same_range a n s s"
  by (simp add: same_range_def)

lemma same_range_host [simp]: "same_range a n (s\<lparr>host := h\<rparr>) s"
  by (simp add: same_range_def get8_def)

lemma same_range_trans: "same_range a n s t \<Longrightarrow> same_range a n t u \<Longrightarrow> same_range a n s u"
  by (simp add: same_range_def)

lemma same_range_puts:
  "sep a n b 1 \<Longrightarrow> same_range a n (put8 b v s) s"
  "sep a n b 2 \<Longrightarrow> same_range a n (put16 b w s) s"
  "sep a n b 4 \<Longrightarrow> same_range a n (put32 b x s) s"
  by (simp_all add: same_range_def get8_put8 get8_put16 get8_put32 sep_sub_left)

lemma same_range_put_bytes:
  assumes "sep a n b (length bs)" and "length bs \<le> 2 ^ 32"
  shows "same_range a n (put_bytes b bs s) s"
proof (cases "bs = []")
  case True
  then show ?thesis by (simp add: same_range_def put_bytes_def Host2Mac_memcpy_def get8_def)
next
  case False
  then show ?thesis
    using assms by (auto simp: same_range_def intro!: get8_put_bytes_apart sep_sub_left)
qed

lemma same_range_sub:
  assumes "same_range a n s t" and "unat i + m \<le> n"
  shows "same_range (a + i) m s t"
  unfolding same_range_def
proof (intro allI impI)
  fix j :: u32 assume "unat j < m"
  then have "unat (i + j) < n" using assms(2) unat_add_le [of i j] by linarith
  then show "get8 s (a + i + j) = get8 t (a + i + j)"
    using assms(1) by (simp add: same_range_def add.assoc)
qed

lemma same_range_byte: "same_range a n s t \<Longrightarrow> unat i < n \<Longrightarrow> get8 s (a + i) = get8 t (a + i)"
  by (simp add: same_range_def)

lemma same_range_get8: "same_range a n s t \<Longrightarrow> 1 \<le> n \<Longrightarrow> get8 s a = get8 t a"
  using same_range_byte [of a n s t 0] by simp

lemma same_range_get16: "same_range a n s t \<Longrightarrow> 2 \<le> n \<Longrightarrow> get16 s a = get16 t a"
  using same_range_byte [of a n s t 0] same_range_byte [of a n s t 1] by (simp add: get16_as_bytes)

lemma same_range_get32: "same_range a n s t \<Longrightarrow> 4 \<le> n \<Longrightarrow> get32 s a = get32 t a"
  using same_range_byte [of a n s t 0] same_range_byte [of a n s t 1]
    same_range_byte [of a n s t 2] same_range_byte [of a n s t 3]
  by (simp add: get32_as_bytes)

lemma same_range_bytes:
  assumes "same_range a n s t" and "n \<le> 2 ^ 32"
  shows "get_bytes s a n = get_bytes t a n"
proof -
  have "mem s (a + word_of_nat i) = mem t (a + word_of_nat i)" if "i < n" for i
  proof -
    have "unat (word_of_nat i :: u32) < n" using that assms(2) by (simp add: unat_word_of_nat)
    then show ?thesis using assms(1) by (simp add: same_range_def get8_def ReadMacInt8_def)
  qed
  then show ?thesis by (simp add: get_bytes_def mem_read_def)
qed

text \<open>A machine whose 68k code does nothing, for concrete runs.\<close>

definition demo_regs :: m68k_regs where
  "demo_regs = \<lparr>dreg = (\<lambda>_. 0), areg = (\<lambda>_. 0)\<rparr>"

definition demo_env :: "'h env68k" where
  "demo_env = \<lparr>run_trap = (\<lambda>t r x. (r, x)), run_code = (\<lambda>a r x. (r, x)), stack_junk = demo_regs\<rparr>"

lemma demo_env_junk [simp]: "stack_junk demo_env = demo_regs"
  by (simp add: demo_env_def)

end
