(* ===== verification/MacosUtil.thy ===== *)
theory MacosUtil
  imports MacMemory "HOL-Library.Signed_Division"
begin

text \<open>
  "macos_util.h" and "macos_util.cpp": the layout of the MacOS structures the drivers use,
  the error codes, the queue routine, the search for a free drive number, the layout of
  disk image files and the conversion of host time to MacOS time.
\<close>

section \<open>Structure offsets and error codes\<close>

abbreviation (input) qLink :: u32 where "qLink \<equiv> 0"
abbreviation (input) qType :: u32 where "qType \<equiv> 4"
abbreviation (input) qFlags :: u32 where "qFlags \<equiv> 0"
abbreviation (input) qHead :: u32 where "qHead \<equiv> 2"
abbreviation (input) qTail :: u32 where "qTail \<equiv> 6"
abbreviation (input) dtQType :: u16 where "dtQType \<equiv> 7"
abbreviation (input) dtAddr :: u32 where "dtAddr \<equiv> 8"
abbreviation (input) dtParam :: u32 where "dtParam \<equiv> 12"

text \<open>IOParam and CntrlParam parameter blocks\<close>

abbreviation (input) ioTrap :: u32 where "ioTrap \<equiv> 6"
abbreviation (input) ioVRefNum :: u32 where "ioVRefNum \<equiv> 22"
abbreviation (input) ioBuffer :: u32 where "ioBuffer \<equiv> 32"
abbreviation (input) ioReqCount :: u32 where "ioReqCount \<equiv> 36"
abbreviation (input) ioActCount :: u32 where "ioActCount \<equiv> 40"
abbreviation (input) ioPosMode :: u32 where "ioPosMode \<equiv> 44"
abbreviation (input) ioWPosOffset :: u32 where "ioWPosOffset \<equiv> 46"
abbreviation (input) csCode :: u32 where "csCode \<equiv> 26"
abbreviation (input) csParam :: u32 where "csParam \<equiv> 28"
abbreviation (input) aRdCmd :: u16 where "aRdCmd \<equiv> 2"

text \<open>Drive status records\<close>

abbreviation (input) dsWriteProt :: u32 where "dsWriteProt \<equiv> 2"
abbreviation (input) dsDiskInPlace :: u32 where "dsDiskInPlace \<equiv> 3"
abbreviation (input) dsInstalled :: u32 where "dsInstalled \<equiv> 4"
abbreviation (input) dsSides :: u32 where "dsSides \<equiv> 5"
abbreviation (input) dsQLink :: u32 where "dsQLink \<equiv> 6"
abbreviation (input) dsQType :: u32 where "dsQType \<equiv> 10"
abbreviation (input) dsQDrive :: u32 where "dsQDrive \<equiv> 12"
abbreviation (input) dsTwoSideFmt :: u32 where "dsTwoSideFmt \<equiv> 18"
abbreviation (input) dsNewIntf :: u32 where "dsNewIntf \<equiv> 19"
abbreviation (input) dsMFMDrive :: u32 where "dsMFMDrive \<equiv> 22"
abbreviation (input) dsMFMDisk :: u32 where "dsMFMDisk \<equiv> 23"
abbreviation (input) dsTwoMegFmt :: u32 where "dsTwoMegFmt \<equiv> 24"
abbreviation (input) dsDriveSize :: u32 where "dsDriveSize \<equiv> 18"
abbreviation (input) dsDriveS1 :: u32 where "dsDriveS1 \<equiv> 20"
abbreviation (input) SIZEOF_DrvSts :: u32 where "SIZEOF_DrvSts \<equiv> 30"

text \<open>Device control entries\<close>

abbreviation (input) dCtlFlags :: u32 where "dCtlFlags \<equiv> 4"
abbreviation (input) dCtlQHdr :: u32 where "dCtlQHdr \<equiv> 6"
abbreviation (input) dCtlPosition :: u32 where "dCtlPosition \<equiv> 16"
abbreviation (input) dCtlDelay :: u32 where "dCtlDelay \<equiv> 34"
abbreviation (input) dCtlSlot :: u32 where "dCtlSlot \<equiv> 40"
abbreviation (input) dCtlSlotId :: u32 where "dCtlSlotId \<equiv> 41"
abbreviation (input) dCtlDevBase :: u32 where "dCtlDevBase \<equiv> 42"

text \<open>Result codes, as the int16 the drivers return\<close>

abbreviation (input) noErr :: u16 where "noErr \<equiv> 0"
abbreviation (input) controlErr :: u16 where "controlErr \<equiv> -17"
abbreviation (input) statusErr :: u16 where "statusErr \<equiv> -18"
abbreviation (input) readErr :: u16 where "readErr \<equiv> -19"
abbreviation (input) writErr :: u16 where "writErr \<equiv> -20"
abbreviation (input) openErr :: u16 where "openErr \<equiv> -23"
abbreviation (input) notOpenErr :: u16 where "notOpenErr \<equiv> -28"
abbreviation (input) ioErr :: u16 where "ioErr \<equiv> -36"
abbreviation (input) wPrErr :: u16 where "wPrErr \<equiv> -44"
abbreviation (input) paramErr :: u16 where "paramErr \<equiv> -50"
abbreviation (input) nsDrvErr :: u16 where "nsDrvErr \<equiv> -56"
abbreviation (input) offLinErr :: u16 where "offLinErr \<equiv> -65"
abbreviation (input) memFullErr :: u16 where "memFullErr \<equiv> -108"

definition FOURCC :: "char \<Rightarrow> char \<Rightarrow> char \<Rightarrow> char \<Rightarrow> u32" where
  "FOURCC a b c d = join32 (of_char a) (of_char b) (of_char c) (of_char d)"

definition fourcc_string :: "string \<Rightarrow> u32" where
  "fourcc_string s = FOURCC (s ! 0) (s ! 1) (s ! 2) (s ! 3)"

definition EMULATOR_ID_4 :: u32 where
  "EMULATOR_ID_4 = 0x62617369"

definition HasMacStarted :: "'h mac \<Rightarrow> bool" where
  "HasMacStarted s = (get32 s 0xcfc = FOURCC CHR ''W'' CHR ''L'' CHR ''S'' CHR ''C'')"

section \<open>Queues\<close>

definition EnqueueMac :: "u32 \<Rightarrow> u32 \<Rightarrow> 'h mac \<Rightarrow> 'h mac" where
  "EnqueueMac elem lst s =
     (let s1 = put32 (elem + qLink) 0 s in
      if get32 s1 (lst + qTail) = 0 then
        put32 (lst + qTail) elem (put32 (lst + qHead) elem s1)
      else
        put32 (lst + qTail) elem (put32 (get32 s1 (lst + qTail) + qLink) elem s1))"

text \<open>
  The list a queue header stands for: the elements reached from \<open>qHead\<close> through \<open>qLink\<close>,
  with \<open>qTail\<close> pointing at the last one (0 when the queue is empty).
\<close>

fun chain :: "'h mac \<Rightarrow> u32 \<Rightarrow> u32 list \<Rightarrow> bool" where
  "chain s p [] = (p = 0)"
| "chain s p (x # xs) = (p = x \<and> x \<noteq> 0 \<and> chain s (get32 s (x + qLink)) xs)"

definition mac_queue :: "'h mac \<Rightarrow> u32 \<Rightarrow> u32 list \<Rightarrow> bool" where
  "mac_queue s q xs \<longleftrightarrow> chain s (get32 s (q + qHead)) xs
     \<and> get32 s (q + qTail) = (if xs = [] then 0 else last xs)"

text \<open>Every element's link word is apart from the header and from every other element's.\<close>

fun links_apart :: "u32 \<Rightarrow> u32 list \<Rightarrow> bool" where
  "links_apart q [] = True"
| "links_apart q (x # xs) = (sep x 4 q 10 \<and> list_all (\<lambda>y. sep x 4 y 4) xs \<and> links_apart q xs)"

lemma get32_put32_link:
  assumes "sep x 4 q 10"
  shows "get32 (put32 x v s) (q + qHead) = get32 s (q + qHead)"
    and "get32 (put32 x v s) (q + qTail) = get32 s (q + qTail)"
    and "get32 (put32 (q + qHead) v s) x = get32 s x"
    and "get32 (put32 (q + qTail) v s) x = get32 s x"
proof -
  have "sep x 4 (q + qHead) 4" "sep x 4 (q + qTail) 4"
    by (rule sep_sub_right [OF assms]; simp)+
  then show "get32 (put32 x v s) (q + qHead) = get32 s (q + qHead)"
    "get32 (put32 x v s) (q + qTail) = get32 s (q + qTail)"
    "get32 (put32 (q + qHead) v s) x = get32 s x"
    "get32 (put32 (q + qTail) v s) x = get32 s x"
    by (simp_all add: mac_mem sep_sym [of _ _ x])
qed

lemma get32_head_tail:
  "get32 (put32 (q + qTail) v s) (q + qHead) = get32 s (q + qHead)"
  "get32 (put32 (q + qHead) v s) (q + qTail) = get32 s (q + qTail)"
  by (simp_all add: mac_mem sep_def)

lemma chain_frame:
  "chain s p xs \<Longrightarrow> (\<And>x. x \<in> set xs \<Longrightarrow> get32 t (x + qLink) = get32 s (x + qLink)) \<Longrightarrow> chain t p xs"
  by (induction xs arbitrary: p) auto

lemma chain_put_apart:
  "chain s p xs \<Longrightarrow> list_all (\<lambda>y. sep e 4 y 4) xs \<Longrightarrow> chain (put32 e v s) p xs"
  by (erule chain_frame) (auto simp: list_all_iff get32_put_apart sep_sym)

lemma chain_put_header:
  assumes "chain s p xs" and "\<And>x. x \<in> set xs \<Longrightarrow> sep x 4 q 10"
  shows "chain (put32 (q + qHead) v s) p xs" "chain (put32 (q + qTail) v s) p xs"
  using assms by (auto intro!: chain_frame [OF assms(1)] simp: get32_put32_link)

lemma links_apart_header: "links_apart q xs \<Longrightarrow> x \<in> set xs \<Longrightarrow> sep x 4 q 10"
  by (induction xs) auto

lemma chain_append_last:
  assumes "chain s p (xs @ [y])" and "e \<noteq> 0" and "get32 s (e + qLink) = 0"
    and "links_apart q (e # xs @ [y])"
  shows "chain (put32 (y + qLink) e s) p (xs @ [y, e])"
  using assms
proof (induction xs arbitrary: p)
  case Nil
  then show ?case by (auto simp: get32_put_apart sep_sym)
next
  case (Cons x xs)
  have "get32 (put32 (y + qLink) e s) (x + qLink) = get32 s (x + qLink)"
    using Cons.prems(4) by (simp add: get32_put_apart)
  then show ?case using Cons by simp
qed

lemma EnqueueMac_appends:
  assumes q: "mac_queue s q xs" and e: "e \<noteq> 0" and ap: "links_apart q (e # xs)"
  shows "mac_queue (EnqueueMac e q s) q (xs @ [e])"
proof (cases xs rule: rev_cases)
  case Nil
  then show ?thesis
    using q e ap by (simp add: mac_queue_def EnqueueMac_def Let_def get32_put32_link get32_head_tail)
next
  case (snoc ys y)
  let ?s1 = "put32 (e + qLink) 0 s"
  have tail: "get32 ?s1 (q + qTail) = y" and y0: "y \<noteq> 0"
  proof -
    show "get32 ?s1 (q + qTail) = y"
      using q ap snoc by (simp add: mac_queue_def get32_put32_link)
    have "chain s p (zs @ [y]) \<Longrightarrow> y \<noteq> 0" for p zs
      by (induction zs arbitrary: p) auto
    then show "y \<noteq> 0" using q snoc by (auto simp: mac_queue_def)
  qed
  have c1: "chain ?s1 (get32 s (q + qHead)) (ys @ [y])"
    using q ap snoc by (simp add: mac_queue_def chain_put_apart)
  have c2: "chain (put32 (y + qLink) e ?s1) (get32 s (q + qHead)) (ys @ [y, e])"
    by (rule chain_append_last [OF c1 e _ ap [unfolded snoc]]) simp
  have c3: "chain (put32 (q + qTail) e (put32 (y + qLink) e ?s1)) (get32 s (q + qHead)) (ys @ [y, e])"
    by (rule chain_put_header(2) [OF c2]) (use ap snoc in \<open>auto dest: links_apart_header\<close>)
  have sy: "sep y 4 q 10" and se: "sep e 4 q 10"
    using ap snoc by (auto dest: links_apart_header)
  show ?thesis
    using c3 y0 sy se snoc tail
    by (simp add: mac_queue_def EnqueueMac_def Let_def get32_put32_link get32_head_tail)
qed

lemma links_apart_append:
  "links_apart q (xs @ ys) \<longleftrightarrow> links_apart q xs \<and> links_apart q ys \<and> (\<forall>x \<in> set xs. \<forall>y \<in> set ys. sep x 4 y 4)"
  by (induction xs) (auto simp: list_all_iff)

lemma EnqueueMac_list:
  assumes "mac_queue s q xs" and "0 \<notin> set es" and "links_apart q (xs @ es)"
  shows "mac_queue (fold (\<lambda>e. EnqueueMac e q) es s) q (xs @ es)"
  using assms
proof (induction es arbitrary: s xs)
  case (Cons e es)
  have "links_apart q (e # xs)" "e \<noteq> 0"
    using Cons.prems by (auto simp: links_apart_append list_all_iff sep_sym)
  then have "mac_queue (EnqueueMac e q s) q (xs @ [e])"
    using Cons.prems(1) by (intro EnqueueMac_appends)
  from Cons.IH [OF this] Cons.prems show ?case by simp
qed simp

lemma EnqueueMac_frame [simp]: "host (EnqueueMac e q s) = host s" "calls (EnqueueMac e q s) = calls s"
  by (simp_all add: EnqueueMac_def Let_def)

text \<open>EnqueueMac() appends: when a queue header in Mac memory stands for a list of elements
  (reached from qHead over the link fields, with qTail at the last one), then after enqueueing
  a further element the header stands for the old list with that element at the end, in the
  order of insertion, whether the queue was empty or not. The link fields of the elements and
  the header do not overlap.\<close>

theorem EnqueueMac_queue:
  assumes q: "mac_queue s q xs" and e: "e \<noteq> 0" and ap: "links_apart q (e # xs)"
  shows "mac_queue (EnqueueMac e q s) q (xs @ [e])"
  using assms by (rule EnqueueMac_appends)

definition one_queued :: "unit mac" where
  "one_queued = EnqueueMac 0x2000 0x1000 \<lparr>mem = (\<lambda>_. 0), host = (), calls = []\<rparr>"

theorem EnqueueMac_queue_witness:
  "mac_queue (EnqueueMac 0x3000 0x1000 one_queued) 0x1000 [0x2000, 0x3000]"
proof -
  have "mac_queue one_queued 0x1000 [0x2000]"
    by (simp add: one_queued_def mac_queue_def EnqueueMac_def Let_def mac_bytes) (simp add: mac_access get8_def join32_def)
  from EnqueueMac_queue [OF this, of "0x3000"] show ?thesis by (simp add: sep_def)
qed

section \<open>Drive numbers\<close>

text \<open>
  The drive queue header is at 0x308; its elements are the \<open>dsQLink\<close> fields of the drive
  status records. The list lives in Mac memory, so the walk may run in circles: both loops
  are partial functions.
\<close>

partial_function (option) drive_walk :: "'h mac \<Rightarrow> int \<Rightarrow> u32 \<Rightarrow> bool option" where
  "drive_walk s num e =
     (if e = 0 then Some True
      else if uint (get16 s (e - dsQLink + dsQDrive)) = num then Some False
      else drive_walk s num (get32 s (e + qLink)))"

definition is_drive_number_free :: "'h mac \<Rightarrow> int \<Rightarrow> bool option" where
  "is_drive_number_free s num = drive_walk s num (get32 s (0x308 + qHead))"

partial_function (option) FindFreeDriveNumber :: "'h mac \<Rightarrow> int \<Rightarrow> int option" where
  "FindFreeDriveNumber s num =
     Option.bind (is_drive_number_free s num)
       (\<lambda>free. if free then Some num else FindFreeDriveNumber s (num + 1))"

definition drive_numbers :: "'h mac \<Rightarrow> u32 list \<Rightarrow> int list" where
  "drive_numbers s xs = map (\<lambda>e. uint (get16 s (e - dsQLink + dsQDrive))) xs"

lemma drive_walk_chain:
  "chain s p xs \<Longrightarrow> drive_walk s num p = Some (num \<notin> set (drive_numbers s xs))"
  by (induction xs arbitrary: p) (auto simp: drive_walk.simps drive_numbers_def)

lemma FindFreeDriveNumber_search:
  assumes "chain s (get32 s (0x308 + qHead)) xs"
    and "n + int k \<notin> set (drive_numbers s xs)"
    and "\<And>j. j < k \<Longrightarrow> n + int j \<in> set (drive_numbers s xs)"
  shows "FindFreeDriveNumber s n = Some (n + int k)"
  using assms(2,3)
proof (induction k arbitrary: n)
  case 0
  then show ?case
    using drive_walk_chain [OF assms(1), of n]
    by (simp add: FindFreeDriveNumber.simps is_drive_number_free_def)
next
  case (Suc k)
  have taken: "n \<in> set (drive_numbers s xs)" using Suc.prems(2) [of 0] by simp
  have "FindFreeDriveNumber s (n + 1) = Some (n + 1 + int k)"
  proof (rule Suc.IH)
    show "n + 1 + int k \<notin> set (drive_numbers s xs)"
      using Suc.prems(1) by (simp add: algebra_simps)
    fix j assume "j < k"
    then show "n + 1 + int j \<in> set (drive_numbers s xs)"
      using Suc.prems(2) [of "Suc j"] by (simp add: algebra_simps)
  qed
  then show ?case
    by (subst FindFreeDriveNumber.simps)
       (use drive_walk_chain [OF assms(1), of n] in \<open>simp add: is_drive_number_free_def taken\<close>)
qed

lemma ex_first_unused: "\<exists>k. n + int k \<notin> set (ys :: int list) \<and> (\<forall>j < k. n + int j \<in> set ys)"
proof -
  have "\<exists>k. n + int k \<notin> set ys"
  proof (rule ccontr)
    assume "\<not> ?thesis"
    then have "range (\<lambda>k. n + int k) \<subseteq> set ys" by auto
    then have "finite (range (\<lambda>k. n + int k))" by (rule finite_subset) simp
    moreover have "inj (\<lambda>k. n + int k)" by (simp add: inj_on_def)
    ultimately have "finite (UNIV :: nat set)" by (simp add: finite_image_iff)
    then show False by simp
  qed
  from exists_least_iff [THEN iffD1, OF this] show ?thesis by auto
qed

text \<open>FindFreeDriveNumber() returns, and returns the least free number: for a drive queue that
  ends (whatever its length and its numbers), the search from n yields the smallest number
  from n on that no drive in the queue has, and all numbers before it are taken.\<close>

theorem FindFreeDriveNumber_total:
  assumes "chain s (get32 s (0x308 + qHead)) xs"
  shows "\<exists>k \<ge> n. FindFreeDriveNumber s n = Some k \<and> k \<notin> set (drive_numbers s xs)
           \<and> {n..<k} \<subseteq> set (drive_numbers s xs)"
proof -
  obtain k where k: "n + int k \<notin> set (drive_numbers s xs)"
      "\<forall>j < k. n + int j \<in> set (drive_numbers s xs)"
    using ex_first_unused by blast
  have "x \<in> set (drive_numbers s xs)" if "x \<in> {n..<n + int k}" for x
    using k(2) [rule_format, of "nat (x - n)"] that by auto
  with k FindFreeDriveNumber_search [OF assms] show ?thesis
    by (intro exI [of _ "n + int k"]) auto
qed

definition two_drives :: "unit mac" where
  "two_drives = put16 0x1006 1 (put32 0x1000 0x2000 (put16 0x2006 2 (put32 0x30a 0x1000
     \<lparr>mem = (\<lambda>_. 0), host = (), calls = []\<rparr>)))"

theorem FindFreeDriveNumber_total_witness: "FindFreeDriveNumber two_drives 1 = Some 3"
proof -
  have g: "get32 two_drives 0x30a = 0x1000" "get32 two_drives 0x1000 = 0x2000" "get16 two_drives 0x1006 = 1"
    "get16 two_drives 0x2006 = 2" "get32 two_drives 0x2000 = 0"
    by (simp_all add: two_drives_def mac_mem sep_def) (simp add: get32_def mac_access join32_def)
  then have "chain two_drives (get32 two_drives (0x308 + qHead)) [0x1000, 0x2000]" by simp
  moreover have "drive_numbers two_drives [0x1000, 0x2000] = [1, 2]" using g by (simp add: drive_numbers_def)
  ultimately obtain k where k: "1 \<le> k" "FindFreeDriveNumber two_drives 1 = Some k" "k \<notin> {1, 2}" "{1..<k} \<subseteq> {1, 2}"
    using FindFreeDriveNumber_total [of two_drives "[0x1000, 0x2000]" 1] by auto
  moreover have "k \<le> 3"
  proof (rule ccontr)
    assume "\<not> k \<le> 3"
    then have "3 \<in> {1..<k}" by simp
    from subsetD [OF k(4) this] show False by simp
  qed
  ultimately have "k = 3" by auto
  with k show ?thesis by simp
qed

section \<open>Disk image layout\<close>

text \<open>Returns \<open>(start_byte, real_size)\<close>; the data bytes are not looked at.\<close>

definition FileDiskLayout :: "int \<Rightarrow> u8 list \<Rightarrow> int \<times> int" where
  "FileDiskLayout sz data =
     (if sz = 419284 \<or> sz = 838484 then (84, (sz - 84) AND NOT 0x1ff)
      else (sz AND 0x1ff, sz - (sz AND 0x1ff)))"

lemma and_low9: "(x :: int) AND 511 = x mod 512"
  using take_bit_eq_mask [of 9 x] by (simp add: take_bit_eq_mod mask_eq_exp_minus_1)

text \<open>FileDiskLayout() describes a part of the file: for any file size, the data start within
  the first 511 bytes, consist of whole 512-byte blocks and end inside the file. They end
  exactly at its end, except for the two DiskCopy image sizes, where the header is the 84
  bytes of that format and less than a block is left over.\<close>

theorem FileDiskLayout_bounds:
  assumes "0 \<le> sz"
  shows "let (start, real) = FileDiskLayout sz data; diskcopy = (sz = 419284 \<or> sz = 838484)
     in 0 \<le> start \<and> start < 512 \<and> 0 \<le> real \<and> 512 dvd real \<and> start + real \<le> sz
        \<and> (if diskcopy then start = 84 \<and> sz < start + real + 512 else start + real = sz)"
proof -
  have low: "sz AND 511 = sz mod 512" by (rule and_low9)
  have "\<not> (sz = 419284 \<or> sz = 838484) \<Longrightarrow> ?thesis"
    using assms by (auto simp: FileDiskLayout_def Let_def low minus_mod_eq_mult_div)
  moreover have "FileDiskLayout 419284 data = (84, 418816)" "FileDiskLayout 838484 data = (84, 838144)"
    by (simp_all add: FileDiskLayout_def)
  ultimately show ?thesis by (cases "sz = 419284"; cases "sz = 838484") simp_all
qed

theorem FileDiskLayout_bounds_witness: "let (start, real) = FileDiskLayout 819284 [] in start < 512 \<and> 512 dvd real \<and> start + real = 819284"
  using FileDiskLayout_bounds [of 819284 "[]"] by (auto simp: Let_def)

section \<open>MacOS time\<close>

record tm =
  tm_sec :: int
  tm_min :: int
  tm_hour :: int
  tm_yday :: int
  tm_year :: int

definition c_not :: "int \<Rightarrow> int" where
  "c_not x = (if x = 0 then 1 else 0)"

definition TimeToMacTime :: "(int \<Rightarrow> tm) \<Rightarrow> int \<Rightarrow> u32" where
  "TimeToMacTime localtime t =
     (let local = localtime t;
          a4 = drop_bit 2 (tm_year local + 1900) - c_not (tm_year local AND 3);
          b4 = drop_bit 2 1904 - c_not (1904 AND 3);
          a100 = a4 sdiv 25 - (if a4 smod 25 < 0 then 1 else 0);
          b100 = b4 sdiv 25 - (if b4 smod 25 < 0 then 1 else 0);
          a400 = drop_bit 2 a100;
          b400 = drop_bit 2 b100;
          intervening_leap_days = (a4 - b4) - (a100 - b100) + (a400 - b400);
          days = word_of_int (tm_yday local + 365 * (tm_year local - 4) + intervening_leap_days) :: u32
      in word_of_int (tm_sec local) + 60 * (word_of_int (tm_min local)
           + 60 * (word_of_int (tm_hour local) + 24 * days)))"

text \<open>The Gregorian calendar, as the reference.\<close>

definition leap_year :: "int \<Rightarrow> bool" where
  "leap_year y \<longleftrightarrow> 4 dvd y \<and> (\<not> 100 dvd y \<or> 400 dvd y)"

fun days_since_1904 :: "nat \<Rightarrow> int" where
  "days_since_1904 0 = 0"
| "days_since_1904 (Suc n) =
     days_since_1904 n + (if leap_year (1904 + int n) then 366 else 365)"

lemma div_step: "0 < k \<Longrightarrow> (x + 1) div k = x div k + of_bool (k dvd x + 1)"
  for x k :: int
proof -
  assume k: "0 < k"
  define q r where "q = x div k" and "r = x mod k"
  have x: "x = k * q + r" and r: "0 \<le> r" "r < k"
    using k by (simp_all add: q_def r_def)
  show ?thesis
  proof (cases "r + 1 = k")
    case True
    then have "x + 1 = k * (q + 1)" by (simp add: x algebra_simps)
    then show ?thesis using k by (simp add: q_def)
  next
    case False
    then have "(x + 1) div k = q" and m: "(x + 1) mod k = r + 1"
      using r by (simp_all add: x add.assoc div_pos_pos_trivial)
    moreover have "\<not> k dvd x + 1" using m r by (simp add: dvd_eq_mod_eq_0)
    ultimately show ?thesis by (simp add: q_def)
  qed
qed

lemma leap_count:
  "of_bool (leap_year y) = of_bool (4 dvd y) - of_bool (100 dvd y) + (of_bool (400 dvd y) :: int)"
proof -
  have "100 dvd y \<longrightarrow> 4 dvd y" and "400 dvd y \<longrightarrow> 100 dvd y"
    using dvd_trans [of 4 100 y] dvd_trans [of 100 400 y] by simp_all
  then show ?thesis
    by (cases "4 dvd y"; cases "100 dvd y"; cases "400 dvd y") (simp_all add: leap_year_def)
qed

lemma days_since_1904_closed:
  "days_since_1904 n = 365 * int n
     + ((1903 + int n) div 4 - (1903 + int n) div 100 + (1903 + int n) div 400) - 460"
proof (induction n)
  case 0
  then show ?case by simp
next
  case (Suc n)
  let ?y = "1903 + int n"
  have y: "1903 + int (Suc n) = ?y + 1" "1904 + int n = ?y + 1" by simp_all
  have "days_since_1904 (Suc n) = days_since_1904 n + 365 + of_bool (leap_year (?y + 1))"
    unfolding y(2) [symmetric] by simp
  also have "\<dots> = 365 * int n + (?y div 4 - ?y div 100 + ?y div 400) - 460 + 365
      + (of_bool (4 dvd ?y + 1) - of_bool (100 dvd ?y + 1) + of_bool (400 dvd ?y + 1))"
    by (simp only: Suc leap_count)
  also have "\<dots> = 365 * int (Suc n) + ((?y + 1) div 4 - (?y + 1) div 100 + (?y + 1) div 400) - 460"
  proof -
    have "365 * N + (A - B + C) - 460 + 365 + (a - b + c) =
      365 * (1 + N) + (A + a - (B + b) + (C + c)) - 460" for N A B C a b c :: int by simp
    then show ?thesis by (simp only: div_step of_nat_Suc zero_less_numeral)
  qed
  finally show ?case by (simp only: y(1))
qed

lemma and_low2: "(x :: int) AND 3 = x mod 4"
  using take_bit_eq_mask [of 2 x] by (simp add: take_bit_eq_mod mask_eq_exp_minus_1)

lemma years_div4:
  "drop_bit 2 (yr + 1900) - c_not (yr AND 3) = (1899 + yr) div 4"
  using div_step [of 4 "1899 + yr"]
proof -
  have "4 dvd (1899 + yr) + 1 \<longleftrightarrow> yr mod 4 = 0" by presburger
  then show ?thesis
    using div_step [of 4 "1899 + yr"]
    by (simp add: drop_bit_eq_div and_low2 c_not_def add.commute)
qed

text \<open>TimeToMacTime() agrees with the Gregorian calendar: for a broken-down local time of
  year 1904 or later, its result is the number of seconds since 1 January 1904, counted
  over the actual lengths of the years in between, modulo 2^32.\<close>

theorem TimeToMacTime_calendar:
  assumes "tm_year (localtime t) = 4 + int n"
  shows "TimeToMacTime localtime t = word_of_int (tm_sec (localtime t)
     + 60 * (tm_min (localtime t) + 60 * (tm_hour (localtime t)
     + 24 * (tm_yday (localtime t) + days_since_1904 n))))"
proof -
  let ?y = "1903 + int n"
  have a4: "drop_bit 2 (tm_year (localtime t) + 1900) - c_not (tm_year (localtime t) AND 3) = ?y div 4"
    using years_div4 [of "4 + int n"] assms by simp
  have b4: "drop_bit 2 1904 - c_not (1904 AND 3) = (475 :: int)"
    by (simp add: c_not_def drop_bit_eq_div and_low2)
  have sd: "z sdiv 25 - (if z smod 25 < 0 then 1 else 0) = z div 25" if "0 \<le> z" for z :: int
    using that by (cases "z = 0") (simp_all add: signed_divide_int_def signed_modulo_int_def not_less)
  have dd: "x div 4 div 25 = x div 100" "drop_bit 2 (x div 100) = x div 400" for x :: int
    by (simp_all add: drop_bit_eq_div zdiv_zmult2_eq [symmetric])
  show ?thesis
    unfolding TimeToMacTime_def Let_def a4 b4
    by (simp add: sd dd assms days_since_1904_closed algebra_simps)
qed

definition epoch_1970 :: "int \<Rightarrow> tm" where
  "epoch_1970 t = \<lparr>tm_sec = 0, tm_min = 0, tm_hour = 0, tm_yday = 0, tm_year = 70\<rparr>"

lemma days_1904_1970: "days_since_1904 66 = 24107"
  by (simp add: days_since_1904_closed)

theorem TimeToMacTime_calendar_witness: "TimeToMacTime epoch_1970 0 = 2082844800"
  using TimeToMacTime_calendar [of epoch_1970 0 66]
  by (simp add: epoch_1970_def days_1904_1970)

end
