(* ===== verification/Timer.thy ===== *)
theory Timer
  imports MacosUtil
begin

text \<open>
  "timer.cpp": the Time Manager, with the host time arithmetic of "Unix/timer_unix.cpp" (the
  clock_gettime() configuration). The descriptor array is static data that a time task can
  change while it runs (it may call InsTime(), RmvTime() or PrimeTime() through its trap),
  so it lives beside the host state that Execute68k() may change: \<open>desc\<close> in the record
  \<open>tm_host\<close>. The reading of the host clock is the parameter \<open>clk\<close>. TM_QUEUE is 0, so
  enqueue_tm() and dequeue_tm() do nothing and are not modelled.
\<close>

section \<open>Host time\<close>

record timespec =
  tv_sec :: int
  tv_nsec :: int

definition timer_add_time :: "timespec \<Rightarrow> timespec \<Rightarrow> timespec" where
  "timer_add_time a b =
     (let s = tv_sec a + tv_sec b; n = tv_nsec a + tv_nsec b in
      if n \<ge> 1000000000 then \<lparr>tv_sec = s + 1, tv_nsec = n - 1000000000\<rparr>
      else \<lparr>tv_sec = s, tv_nsec = n\<rparr>)"

definition timer_sub_time :: "timespec \<Rightarrow> timespec \<Rightarrow> timespec" where
  "timer_sub_time a b =
     (let s = tv_sec a - tv_sec b; n = tv_nsec a - tv_nsec b in
      if n < 0 then \<lparr>tv_sec = s - 1, tv_nsec = n + 1000000000\<rparr>
      else \<lparr>tv_sec = s, tv_nsec = n\<rparr>)"

text \<open>The difference is converted from long to int.\<close>

definition c_int :: "int \<Rightarrow> int" where
  "c_int x = sint (word_of_int x :: u32)"

definition timer_cmp_time :: "timespec \<Rightarrow> timespec \<Rightarrow> int" where
  "timer_cmp_time a b =
     (if tv_sec a = tv_sec b then c_int (tv_nsec a - tv_nsec b)
      else c_int (tv_sec a - tv_sec b))"

text \<open>The argument is an int32, so \<open>-mactime\<close> is taken in 32 bits.\<close>

definition timer_mac2host_time :: "u32 \<Rightarrow> timespec" where
  "timer_mac2host_time mactime =
     (let t = sint mactime; u = sint (- mactime) in
      if t > 0 then \<lparr>tv_sec = t sdiv 1000, tv_nsec = (t smod 1000) * 1000000\<rparr>
      else \<lparr>tv_sec = u sdiv 1000000, tv_nsec = (u smod 1000000) * 1000\<rparr>)"

definition timer_host2mac_time :: "timespec \<Rightarrow> u32" where
  "timer_host2mac_time t =
     (if tv_sec t < 0 then 0
      else (let v = (word_of_int (tv_sec t) * 1000000 + word_of_int (tv_nsec t sdiv 1000) :: u64) in
            if v > 0x7fffffff then ucast (v div 1000) else ucast (- v)))"

text \<open>A time stamp in nanoseconds, and the normal form the routines keep.\<close>

definition nanos :: "timespec \<Rightarrow> int" where
  "nanos t = 1000000000 * tv_sec t + tv_nsec t"

definition ts_ok :: "timespec \<Rightarrow> bool" where
  "ts_ok t \<longleftrightarrow> 0 \<le> tv_nsec t \<and> tv_nsec t < 1000000000"

lemma timer_add_time_nanos:
  "nanos (timer_add_time a b) = nanos a + nanos b"
  by (simp add: nanos_def timer_add_time_def Let_def)

lemma timer_sub_time_nanos:
  "nanos (timer_sub_time a b) = nanos a - nanos b"
  by (simp add: nanos_def timer_sub_time_def Let_def)

lemma timer_add_time_ok: "ts_ok a \<Longrightarrow> ts_ok b \<Longrightarrow> ts_ok (timer_add_time a b)"
  by (auto simp: ts_ok_def timer_add_time_def Let_def)

lemma timer_sub_time_ok: "ts_ok a \<Longrightarrow> ts_ok b \<Longrightarrow> ts_ok (timer_sub_time a b)"
  by (auto simp: ts_ok_def timer_sub_time_def Let_def)

lemma c_int_id: "- (2 ^ 31) \<le> x \<Longrightarrow> x < 2 ^ 31 \<Longrightarrow> c_int x = x"
  by (simp add: c_int_def int_word_sint)

lemma timer_cmp_time_less:
  assumes "ts_ok a" and "ts_ok b" and "\<bar>tv_sec a - tv_sec b\<bar> < 2 ^ 31"
  shows "timer_cmp_time a b < 0 \<longleftrightarrow> nanos a < nanos b"
proof (cases "tv_sec a = tv_sec b")
  case True
  have "c_int (tv_nsec a - tv_nsec b) = tv_nsec a - tv_nsec b"
    using assms by (intro c_int_id) (auto simp: ts_ok_def)
  with True show ?thesis by (simp add: timer_cmp_time_def nanos_def)
next
  case False
  have "c_int (tv_sec a - tv_sec b) = tv_sec a - tv_sec b"
    using assms by (intro c_int_id) auto
  with False show ?thesis
    using assms by (auto simp: timer_cmp_time_def nanos_def ts_ok_def)
qed

section \<open>Descriptors\<close>

abbreviation (input) tmAddr :: u32 where "tmAddr \<equiv> 6"
abbreviation (input) tmCount :: u32 where "tmCount \<equiv> 10"
abbreviation (input) tmWakeUp :: u32 where "tmWakeUp \<equiv> 14"

record TMDesc =
  task :: u32
  wakeup :: timespec
  in_use :: bool

definition NUM_DESCS :: nat where
  "NUM_DESCS = 64"

text \<open>The index -1 the C functions return for "none" is \<open>None\<close>.\<close>

definition find_desc :: "u32 \<Rightarrow> TMDesc list \<Rightarrow> nat option" where
  "find_desc tm d = find_index (\<lambda>x. in_use x \<and> task x = tm) d"

definition alloc_desc :: "u32 \<Rightarrow> TMDesc list \<Rightarrow> nat option \<times> TMDesc list" where
  "alloc_desc tm d =
     (case find_index (\<lambda>x. \<not> in_use x) d of
        None \<Rightarrow> (None, d)
      | Some i \<Rightarrow> (Some i, d[i := (d ! i)\<lparr>task := tm, in_use := True\<rparr>]))"

definition free_desc :: "nat \<Rightarrow> TMDesc list \<Rightarrow> TMDesc list" where
  "free_desc i d = d[i := (d ! i)\<lparr>in_use := False\<rparr>]"

definition TimerInit :: "TMDesc list \<Rightarrow> TMDesc list" where
  "TimerInit d = fold free_desc [0..<NUM_DESCS] d"

definition TimerReset :: "TMDesc list \<Rightarrow> TMDesc list" where
  "TimerReset d = fold free_desc [0..<NUM_DESCS] d"

text \<open>The tasks a table holds, and the invariant: a fixed number of slots, no task twice.\<close>

definition tasks_of :: "TMDesc list \<Rightarrow> u32 set" where
  "tasks_of d = {task x | x. x \<in> set d \<and> in_use x}"

definition desc_ok :: "TMDesc list \<Rightarrow> bool" where
  "desc_ok d \<longleftrightarrow> length d = NUM_DESCS
     \<and> (\<forall>i < length d. \<forall>j < length d.
          in_use (d ! i) \<longrightarrow> in_use (d ! j) \<longrightarrow> task (d ! i) = task (d ! j) \<longrightarrow> i = j)"

text \<open>
  The contract of a table that allocates slots to keys: what the Time Manager needs from
  its descriptor array.
\<close>

locale slot_table =
  fixes ok :: "'t \<Rightarrow> bool"
    and keys :: "'t \<Rightarrow> 'k set"
    and find :: "'k \<Rightarrow> 't \<Rightarrow> nat option"
    and alloc :: "'k \<Rightarrow> 't \<Rightarrow> nat option \<times> 't"
    and free :: "nat \<Rightarrow> 't \<Rightarrow> 't"
  assumes find_iff: "ok t \<Longrightarrow> (find k t = None) = (k \<notin> keys t)"
    and alloc_some: "ok t \<Longrightarrow> k \<notin> keys t \<Longrightarrow> alloc k t = (Some i, t') \<Longrightarrow>
          ok t' \<and> keys t' = insert k (keys t) \<and> find k t' = Some i"
    and alloc_none: "alloc k t = (None, t') \<Longrightarrow> t' = t"
    and free_found: "ok t \<Longrightarrow> find k t = Some i \<Longrightarrow> ok (free i t) \<and> keys (free i t) = keys t - {k}"
begin

lemma ensure_ok:
  assumes "ok t"
  shows "ok (if find k t \<noteq> None then t else snd (alloc k t))"
proof (cases "find k t")
  case None
  obtain r t' where al: "alloc k t = (r, t')" by force
  with None show ?thesis
    using assms find_iff [of t k] alloc_some [of t k _ t'] alloc_none [of k t t']
    by (cases r) auto
qed (use assms in simp)

lemma ensure_keys:
  assumes "ok t"
  shows "keys (if find k t \<noteq> None then t else snd (alloc k t)) =
     (if find k t = None \<and> fst (alloc k t) = None then keys t else insert k (keys t))"
proof -
  obtain r t' where al: "alloc k t = (r, t')" by force
  show ?thesis
    using assms al find_iff [of t k] alloc_some [of t k _ t'] alloc_none [of k t t']
    by (cases r) auto
qed

lemma free_then_absent:
  "ok t \<Longrightarrow> find k t = Some i \<Longrightarrow> find k (free i t) = None"
  using free_found [of t k i] find_iff [of "free i t" k] by simp

end

lemma find_desc_iff: "(find_desc tm d = None) = (tm \<notin> tasks_of d)"
  by (auto simp: find_desc_def find_index_None tasks_of_def)

lemma find_desc_SomeD:
  "find_desc tm d = Some i \<Longrightarrow> i < length d \<and> in_use (d ! i) \<and> task (d ! i) = tm"
  by (auto simp: find_desc_def dest: find_index_SomeD)

lemma desc_okD:
  "desc_ok d \<Longrightarrow> i < length d \<Longrightarrow> j < length d \<Longrightarrow> in_use (d ! i) \<Longrightarrow> in_use (d ! j) \<Longrightarrow>
     task (d ! i) = task (d ! j) \<Longrightarrow> i = j"
  by (auto simp: desc_ok_def)

lemma find_desc_SomeI:
  assumes "desc_ok d" and "i < length d" and "in_use (d ! i)"
  shows "find_desc (task (d ! i)) d = Some i"
  unfolding find_desc_def
proof (rule find_index_SomeI)
  fix j assume "j < i"
  then show "\<not> (in_use (d ! j) \<and> task (d ! j) = task (d ! i))"
    using desc_okD [OF assms(1), of j i] assms by auto
qed (use assms in auto)

lemma tasks_of_nth: "tasks_of d = {task (d ! i) | i. i < length d \<and> in_use (d ! i)}"
  by (auto simp: tasks_of_def in_set_conv_nth)

lemma mem_tasks_of:
  "t \<in> tasks_of d \<longleftrightarrow> (\<exists>k < length d. in_use (d ! k) \<and> task (d ! k) = t)"
  by (auto simp: tasks_of_nth)

lemma alloc_desc_some:
  assumes ok: "desc_ok d" and new: "tm \<notin> tasks_of d" and al: "alloc_desc tm d = (Some i, d')"
  shows "desc_ok d' \<and> tasks_of d' = insert tm (tasks_of d) \<and> find_desc tm d' = Some i"
proof -
  from al have i: "i < length d" "\<not> in_use (d ! i)"
    and d': "d' = d[i := (d ! i)\<lparr>task := tm, in_use := True\<rparr>]"
    by (auto simp: alloc_desc_def dest: find_index_SomeD split: option.splits)
  have old: "task (d ! k) \<noteq> tm" if "k < length d" "in_use (d ! k)" for k
    using new that by (auto simp: tasks_of_nth)
  have "desc_ok d'"
    unfolding desc_ok_def
  proof (intro conjI allI impI)
    fix a b
    assume "a < length d'" "b < length d'" "in_use (d' ! a)" "in_use (d' ! b)"
      and "task (d' ! a) = task (d' ! b)"
    then show "a = b"
      using i old [of a] old [of b] desc_okD [OF ok, of a b]
      by (cases "a = i"; cases "b = i") (auto simp: d')
  qed (use ok in \<open>simp add: d' desc_ok_def\<close>)
  moreover have "tasks_of d' = insert tm (tasks_of d)"
    unfolding tasks_of_nth using i by (fastforce simp: d' nth_list_update)
  moreover have "task (d' ! i) = tm" "in_use (d' ! i)" "i < length d'"
    using i by (simp_all add: d')
  ultimately show ?thesis using find_desc_SomeI [of d' i] by simp
qed

lemma alloc_desc_none: "alloc_desc tm d = (None, d') \<Longrightarrow> d' = d"
  by (auto simp: alloc_desc_def split: option.splits)

lemma free_desc_found:
  assumes ok: "desc_ok d" and f: "find_desc tm d = Some i"
  shows "desc_ok (free_desc i d) \<and> tasks_of (free_desc i d) = tasks_of d - {tm}"
proof -
  from f have i: "i < length d" "in_use (d ! i)" "task (d ! i) = tm"
    by (auto dest: find_desc_SomeD)
  have "desc_ok (free_desc i d)"
    unfolding desc_ok_def
  proof (intro conjI allI impI)
    fix a b
    assume "a < length (free_desc i d)" "b < length (free_desc i d)"
      and "in_use (free_desc i d ! a)" "in_use (free_desc i d ! b)"
      and "task (free_desc i d ! a) = task (free_desc i d ! b)"
    then show "a = b"
      using i desc_okD [OF ok, of a b]
      by (cases "a = i"; cases "b = i") (auto simp: free_desc_def)
  qed (use ok in \<open>simp add: free_desc_def desc_ok_def\<close>)
  moreover have "tasks_of (free_desc i d) = tasks_of d - {tm}"
  proof -
    have "(\<exists>k < length d. in_use (free_desc i d ! k) \<and> task (free_desc i d ! k) = t) =
       (t \<noteq> tm \<and> (\<exists>k < length d. in_use (d ! k) \<and> task (d ! k) = t))" for t
    proof -
      have "(in_use (free_desc i d ! k) \<and> task (free_desc i d ! k) = t) =
         (t \<noteq> tm \<and> in_use (d ! k) \<and> task (d ! k) = t)" if "k < length d" for k
        using i that desc_okD [OF ok, of k i] by (cases "k = i") (auto simp: free_desc_def)
      then show ?thesis by blast
    qed
    moreover have "length (free_desc i d) = length d" by (simp add: free_desc_def)
    ultimately show ?thesis
      by (intro set_eqI) (simp add: mem_tasks_of conj_commute)
  qed
  ultimately show ?thesis by simp
qed

interpretation tmdesc: slot_table desc_ok tasks_of find_desc alloc_desc free_desc
proof unfold_locales
  fix k t i t'
  show "(find_desc k t = None) = (k \<notin> tasks_of t)" by (rule find_desc_iff)
  show "desc_ok t \<Longrightarrow> k \<notin> tasks_of t \<Longrightarrow> alloc_desc k t = (Some i, t') \<Longrightarrow>
      desc_ok t' \<and> tasks_of t' = insert k (tasks_of t) \<and> find_desc k t' = Some i"
    by (rule alloc_desc_some)
  show "alloc_desc k t = (None, t') \<Longrightarrow> t' = t" by (rule alloc_desc_none)
  show "desc_ok t \<Longrightarrow> find_desc k t = Some i \<Longrightarrow>
      desc_ok (free_desc i t) \<and> tasks_of (free_desc i t) = tasks_of t - {k}"
    by (rule free_desc_found)
qed

section \<open>Operations\<close>

record 'h tm_host =
  desc :: "TMDesc list"
  os :: 'h

type_synonym 'h tm_mac = "'h tm_host mac"

definition descs :: "'h tm_mac \<Rightarrow> TMDesc list" where
  "descs s = desc (host s)"

definition set_descs :: "TMDesc list \<Rightarrow> 'h tm_mac \<Rightarrow> 'h tm_mac" where
  "set_descs d s = s\<lparr>host := (host s)\<lparr>desc := d\<rparr>\<rparr>"

definition set_wakeup :: "nat \<Rightarrow> timespec \<Rightarrow> 'h tm_mac \<Rightarrow> 'h tm_mac" where
  "set_wakeup i t s = set_descs ((descs s)[i := (descs s ! i)\<lparr>wakeup := t\<rparr>]) s"

lemma descs_simps [simp]:
  "descs (set_descs d s) = d" "mem (set_descs d s) = mem s" "calls (set_descs d s) = calls s"
  "get16 (set_descs d s) a = get16 s a" "get32 (set_descs d s) a = get32 s a"
  "descs (put8 a b s) = descs s" "descs (put16 a w s) = descs s" "descs (put32 a l s) = descs s"
  by (simp_all add: descs_def set_descs_def mac_get_defs)

lemma set_wakeup_simps [simp]:
  "descs (set_wakeup i t s) = (descs s)[i := (descs s ! i)\<lparr>wakeup := t\<rparr>]"
  "get16 (set_wakeup i t s) a = get16 s a" "get32 (set_wakeup i t s) a = get32 s a"
  "mem (set_wakeup i t s) = mem s" "calls (set_wakeup i t s) = calls s"
  by (simp_all add: set_wakeup_def)

definition InsTime :: "u32 \<Rightarrow> u16 \<Rightarrow> 'h tm_mac \<Rightarrow> u16 \<times> 'h tm_mac" where
  "InsTime tm trap s =
     (let s1 = put16 (tm + qType)
                 (get16 s (tm + qType) AND 0x1fff OR push_bit 4 trap AND 0x6000) s in
      (0, if find_desc tm (descs s1) \<noteq> None then s1
          else set_descs (snd (alloc_desc tm (descs s1))) s1))"

definition RmvTime :: "('h \<Rightarrow> timespec) \<Rightarrow> u32 \<Rightarrow> 'h tm_mac \<Rightarrow> u16 \<times> 'h tm_mac" where
  "RmvTime clk tm s =
     (case find_desc tm (descs s) of
        None \<Rightarrow> (0, s)
      | Some i \<Rightarrow>
          (let s2 = (if get16 s (tm + qType) AND 0x8000 \<noteq> 0 then
                       (let s1 = put16 (tm + qType) (get16 s (tm + qType) AND 0x7fff) s;
                            remaining = timer_sub_time (wakeup (descs s1 ! i)) (clk (os (host s1)))
                        in put32 (tm + tmCount) (timer_host2mac_time remaining) s1)
                     else put32 (tm + tmCount) 0 s)
           in (0, set_descs (free_desc i (descs s2)) s2)))"

definition PrimeTime :: "('h \<Rightarrow> timespec) \<Rightarrow> u32 \<Rightarrow> u32 \<Rightarrow> 'h tm_mac \<Rightarrow> u16 \<times> 'h tm_mac" where
  "PrimeTime clk tm time s =
     (case find_desc tm (descs s) of
        None \<Rightarrow> (0, s)
      | Some i \<Rightarrow>
          (let delay = timer_mac2host_time time;
               now = clk (os (host s));
               s1 = (if get16 s (tm + qType) AND 0x4000 \<noteq> 0 then
                       put32 (tm + tmWakeUp) 0x12345678
                         (if get32 s (tm + tmWakeUp) \<noteq> 0 then
                            set_wakeup i (timer_add_time (wakeup (descs s ! i)) delay) s
                          else set_wakeup i (timer_add_time now delay) s)
                     else set_wakeup i (timer_add_time now delay) s)
           in (0, put16 (tm + qType) (get16 s1 (tm + qType) OR 0x8000) s1)))"

text \<open>One round of the loop of TimerInterrupt(), and the loop over the descriptor array.\<close>

definition expired :: "timespec \<Rightarrow> 'h tm_mac \<Rightarrow> nat \<Rightarrow> bool" where
  "expired now s i \<longleftrightarrow> in_use (descs s ! i)
     \<and> get16 s (task (descs s ! i) + qType) AND 0x8000 \<noteq> 0
     \<and> timer_cmp_time (wakeup (descs s ! i)) now < 0"

definition run_task :: "'h tm_host env68k \<Rightarrow> u32 \<Rightarrow> 'h tm_mac \<Rightarrow> 'h tm_mac" where
  "run_task E tm s =
     (let s1 = put16 (tm + qType) (get16 s (tm + qType) AND 0x7fff) s;
          addr = get32 s1 (tm + tmAddr)
      in if addr \<noteq> 0 then snd (Execute68k E addr (set_a 1 tm (set_a 0 addr (stack_junk E))) s1)
         else s1)"

definition tick_desc :: "'h tm_host env68k \<Rightarrow> timespec \<Rightarrow> nat \<Rightarrow> 'h tm_mac \<Rightarrow> 'h tm_mac" where
  "tick_desc E now i s = (if expired now s i then run_task E (task (descs s ! i)) s else s)"

definition TimerInterrupt :: "('h \<Rightarrow> timespec) \<Rightarrow> 'h tm_host env68k \<Rightarrow> 'h tm_mac \<Rightarrow> 'h tm_mac" where
  "TimerInterrupt clk E s = fold (tick_desc E (clk (os (host s)))) [0..<NUM_DESCS] s"

section \<open>Conversion of delays\<close>

text \<open>A Time Manager delay in nanoseconds: milliseconds when positive, microseconds when negative.\<close>

definition mac_delay :: "u32 \<Rightarrow> int" where
  "mac_delay t = (if 0 < sint t then sint t * 1000000 else - sint t * 1000)"

lemma sdiv_pos: "0 \<le> a \<Longrightarrow> 0 < b \<Longrightarrow> a sdiv b = a div b"
  and smod_pos: "0 \<le> a \<Longrightarrow> 0 < b \<Longrightarrow> a smod b = a mod b"
  for a b :: int
  by (cases "a = 0"; simp add: signed_divide_int_def signed_modulo_int_def)+

lemma sint_u32_range: "- (2 ^ 31) \<le> sint t" "sint t < 2 ^ 31" for t :: u32
  using sint_greater_eq [of t] sint_less [of t] by simp_all

lemma sint_uminus_u32:
  assumes "sint t \<noteq> - (2 ^ 31)"
  shows "sint (- t :: u32) = - sint t"
proof -
  have "- t = word_of_int (- sint t)" by simp
  moreover have "sint (word_of_int (- sint t) :: u32) = - sint t"
    using sint_u32_range [of t] assms by (subst int_word_sint) simp
  ultimately show ?thesis by simp
qed

lemma sint_neq_min: "(t :: u32) \<noteq> 0x80000000 \<Longrightarrow> sint t \<noteq> - (2 ^ 31)"
proof
  assume "t \<noteq> 0x80000000" and "sint t = - (2 ^ 31)"
  then have "word_of_int (sint t) = (word_of_int (- (2 ^ 31)) :: u32)" by simp
  then show False using \<open>t \<noteq> 0x80000000\<close> by simp
qed

lemma timer_mac2host_time_value:
  assumes "t \<noteq> 0x80000000"
  shows "nanos (timer_mac2host_time t) = mac_delay t" and "ts_ok (timer_mac2host_time t)"
proof -
  note m = sint_uminus_u32 [OF sint_neq_min [OF assms]]
  show "nanos (timer_mac2host_time t) = mac_delay t" "ts_ok (timer_mac2host_time t)"
  proof -
    have ms: "1000000000 * (a div 1000) + a mod 1000 * 1000000 = a * 1000000"
      and us: "1000000000 * (a div 1000000) + a mod 1000000 * 1000 = a * 1000" for a :: int
      using div_mult_mod_eq [of a 1000] div_mult_mod_eq [of a 1000000] by linarith+
    have rng: "0 \<le> a mod 1000 \<and> a mod 1000 < 1000" "0 \<le> a mod 1000000 \<and> a mod 1000000 < 1000000"
      for a :: int by simp_all
    have "sint t = - sint (- t)" using m by simp
    then obtain u where u: "sint (- t) = u" "sint t = - u" by blast
    have "nanos (timer_mac2host_time t) = mac_delay t \<and> ts_ok (timer_mac2host_time t)"
    proof (cases "0 < sint t")
      case True
      then show ?thesis
        using rng(1) [of "sint t"] ms [of "sint t"]
        by (simp add: timer_mac2host_time_def Let_def nanos_def mac_delay_def ts_ok_def sdiv_pos smod_pos)
    next
      case False
      then show ?thesis
        using rng(2) [of u] us [of u] unfolding timer_mac2host_time_def Let_def nanos_def mac_delay_def ts_ok_def u
        by (simp add: sdiv_pos smod_pos)
    qed
    then show "nanos (timer_mac2host_time t) = mac_delay t" "ts_ok (timer_mac2host_time t)" by simp_all
  qed
qed

lemma timer_mac2host_time_small:
  assumes "t \<noteq> 0x80000000"
  shows "0 \<le> tv_sec (timer_mac2host_time t) \<and> tv_sec (timer_mac2host_time t) < 2 ^ 22"
  using timer_mac2host_time_value [OF assms] sint_u32_range [of t]
  by (auto simp: nanos_def ts_ok_def mac_delay_def split: if_splits)

lemma u64_small:
  assumes "0 \<le> w" and "w < 2 ^ 62"
  shows "((word_of_int w :: u64) > 0x7fffffff) = (w > 0x7fffffff)"
    and "ucast ((word_of_int w :: u64) div 1000) = (word_of_int (w div 1000) :: u32)"
    and "ucast (- (word_of_int w :: u64)) = (- word_of_int w :: u32)"
proof -
  have u: "uint (word_of_int w :: u64) = w"
    using assms by (subst uint_word_of_int) simp
  show "((word_of_int w :: u64) > 0x7fffffff) = (w > 0x7fffffff)"
    unfolding word_less_def u by simp
  have d: "(word_of_int w :: u64) div 1000 = word_of_int (w div 1000)"
    by (simp only: word_div_def u) simp
  have c: "(ucast (word_of_int k :: u64) :: u32) = word_of_int k" for k
    by transfer simp
  show "ucast ((word_of_int w :: u64) div 1000) = (word_of_int (w div 1000) :: u32)"
    unfolding d c ..
  show "ucast (- (word_of_int w :: u64)) = (- word_of_int w :: u32)"
    using c [of "- w"] by simp
qed

lemma timer_host2mac_time_value:
  assumes "ts_ok x" and "0 \<le> tv_sec x" and "tv_sec x < 2 ^ 40"
  shows "timer_host2mac_time x =
     (let us = nanos x div 1000 in if us > 0x7fffffff then word_of_int (us div 1000) else - word_of_int us)"
proof -
  obtain w where w: "w = tv_sec x * 1000000 + tv_nsec x div 1000" by simp
  have us: "nanos x div 1000 = w" by (simp add: nanos_def w)
  have v: "(word_of_int (tv_sec x) * 1000000 + word_of_int (tv_nsec x sdiv 1000) :: u64) = word_of_int w"
    using assms by (simp add: ts_ok_def sdiv_pos w)
  have b: "0 \<le> w" "w < 2 ^ 62" using assms by (auto simp: ts_ok_def w)
  show ?thesis
    using assms(2) unfolding timer_host2mac_time_def us v Let_def u64_small [OF b] by simp
qed

text \<open>The Time Manager units survive the trip through host time: a delay that
  PrimeTime() converts to a host time and RmvTime() converts back is the same count of
  microseconds, or of milliseconds where the microseconds do not fit in 31 bits.\<close>

theorem timer_time_roundtrip:
  assumes "t \<noteq> 0x80000000"
  shows "timer_host2mac_time (timer_mac2host_time t) =
     (if sint t \<le> 0 then t else if sint t * 1000 > 0x7fffffff then t else - (t * 1000))"
proof -
  note v = timer_mac2host_time_value [OF assms]
  have s: "0 \<le> tv_sec (timer_mac2host_time t)" "tv_sec (timer_mac2host_time t) < 2 ^ 40"
    using timer_mac2host_time_small [OF assms] by auto
  have t: "word_of_int (sint t) = t" "word_of_int (sint t * 1000) = t * 1000"
    using word_of_int_1 by simp_all
  have "- sint t * 1000 div 1000 = - sint t" "sint t * 1000000 div 1000 = sint t * 1000"
    "sint t * 1000 div 1000 = sint t" by simp_all
  moreover have "- sint t \<le> 0x7fffffff"
    using sint_neq_min [OF assms] sint_u32_range [of t] by simp
  ultimately show ?thesis
    unfolding timer_host2mac_time_value [OF v(2) s] v(1) mac_delay_def Let_def
    by (simp add: t)
qed

theorem timer_time_roundtrip_witness:
  "timer_host2mac_time (timer_mac2host_time 20) = - 20000"
  using timer_time_roundtrip [of 20] by simp

section \<open>Insertion and removal\<close>

definition table_full :: "TMDesc list \<Rightarrow> bool" where
  "table_full d = list_all in_use d"

lemma alloc_desc_full: "(fst (alloc_desc tm d) = None) = table_full d"
  by (auto simp: alloc_desc_def table_full_def list_all_iff find_index_None split: option.splits)
     (auto simp: find_index_Some_iff)

lemma descs_InsTime:
  "descs (snd (InsTime tm trap s)) =
     (if find_desc tm (descs s) \<noteq> None then descs s else snd (alloc_desc tm (descs s)))"
  by (simp add: InsTime_def Let_def)

text \<open>C27. InsTime() enters the task in the descriptor table, keeps the table's invariant (64
  slots, no task in two of them) and inserts a task that is already there only once. When all
  64 descriptors are taken a new task is dropped, and noErr is returned all the same.\<close>

theorem InsTime_table:
  assumes "desc_ok (descs s)"
  shows "let (r, s') = InsTime tm trap s in
     r = noErr \<and> desc_ok (descs s')
     \<and> tasks_of (descs s') =
         (if tm \<notin> tasks_of (descs s) \<and> table_full (descs s) then tasks_of (descs s)
          else insert tm (tasks_of (descs s)))"
proof -
  have "fst (InsTime tm trap s) = noErr" by (simp add: InsTime_def Let_def)
  moreover have "desc_ok (descs (snd (InsTime tm trap s)))"
    unfolding descs_InsTime by (rule tmdesc.ensure_ok [OF assms])
  moreover have "tasks_of (descs (snd (InsTime tm trap s))) =
       (if tm \<notin> tasks_of (descs s) \<and> table_full (descs s) then tasks_of (descs s)
        else insert tm (tasks_of (descs s)))"
    using tmdesc.ensure_keys [OF assms, of tm] unfolding descs_InsTime
    by (simp add: alloc_desc_full find_desc_iff)
  ultimately show ?thesis by (auto simp: split_beta)
qed

lemma length_fold_free: "length (fold free_desc is d) = length d"
  by (induction "is" arbitrary: d) (simp_all add: free_desc_def)

lemma fold_free_unused:
  "i < length d \<Longrightarrow> (i \<in> set is \<or> \<not> in_use (d ! i)) \<Longrightarrow> \<not> in_use (fold free_desc is d ! i)"
proof (induction "is" arbitrary: d)
  case (Cons j js)
  show ?case
    using Cons.prems by (simp, intro Cons.IH) (cases "i = j"; auto simp: free_desc_def)+
qed simp

lemma TimerInit_empty:
  assumes "length d = NUM_DESCS"
  shows "desc_ok (TimerInit d) \<and> tasks_of (TimerInit d) = {}"
  using assms fold_free_unused [of _ d "[0..<NUM_DESCS]"]
  by (auto simp: TimerInit_def desc_ok_def tasks_of_nth length_fold_free)

definition empty_desc :: TMDesc where
  "empty_desc = \<lparr>task = 0, wakeup = \<lparr>tv_sec = 0, tv_nsec = 0\<rparr>, in_use = False\<rparr>"

definition demo_tm :: "unit tm_mac" where
  "demo_tm = \<lparr>mem = (\<lambda>_. 0), host = \<lparr>desc = replicate NUM_DESCS empty_desc, os = ()\<rparr>, calls = []\<rparr>"

lemma demo_descs: "descs demo_tm = empty_desc # replicate 63 empty_desc"
proof -
  have n: "NUM_DESCS = Suc 63" by (simp add: NUM_DESCS_def)
  have "replicate NUM_DESCS empty_desc = empty_desc # replicate 63 empty_desc"
    unfolding n by (rule replicate_Suc)
  then show ?thesis by (simp add: demo_tm_def descs_def)
qed

lemma demo_not_full: "\<not> table_full (descs demo_tm)"
  by (simp add: demo_descs table_full_def empty_desc_def)

lemma demo_tm_ok: "desc_ok (descs demo_tm)" "tasks_of (descs demo_tm) = {}"
  by (auto simp: desc_ok_def tasks_of_def demo_tm_def descs_def empty_desc_def)

theorem InsTime_table_witness:
  "tasks_of (descs (snd (InsTime 0x1000 0xa058 demo_tm))) = {0x1000}"
  using InsTime_table [of demo_tm "0x1000" "0xa058"]
  by (simp add: split_beta demo_tm_ok demo_not_full)

text \<open>RmvTime() takes the task out of the table and keeps the table's invariant. The task
  is left inactive, and its tmCount is the time it still had to wait if it was active and 0
  otherwise, as the Time Manager promises.\<close>

theorem RmvTime_removes:
  assumes ok: "desc_ok (descs s)" and f: "find_desc tm (descs s) = Some i"
  shows "let s' = snd (RmvTime clk tm s) in
     desc_ok (descs s') \<and> tasks_of (descs s') = tasks_of (descs s) - {tm}
     \<and> get16 s' (tm + qType) = get16 s (tm + qType) AND 0x7fff
     \<and> get32 s' (tm + tmCount) =
         (if get16 s (tm + qType) AND 0x8000 = 0 then 0
          else timer_host2mac_time (timer_sub_time (wakeup (descs s ! i)) (clk (os (host s)))))"
proof -
  have clear: "w AND 0x7fff = w" if "w AND 0x8000 = 0" for w :: u16
  proof -
    have "(0x7fff OR 0x8000 :: u16) = - 1" by simp
    then have "w = w AND (0x7fff OR 0x8000)" by (simp only: bit.conj_one_right)
    also have "\<dots> = (w AND 0x7fff) OR (w AND 0x8000)" by (rule bit.conj_disj_distrib)
    finally show ?thesis using that by simp
  qed
  show ?thesis
    using tmdesc.free_found [OF ok f] clear [of "get16 s (tm + qType)"]
    by (simp add: RmvTime_def f Let_def mac_mem sep_def)
qed

definition demo_tm2 :: "unit tm_mac" where
  "demo_tm2 = snd (InsTime 0x1000 0xa058 demo_tm)"

lemma demo_tm2_ok: "desc_ok (descs demo_tm2)" "find_desc 0x1000 (descs demo_tm2) = Some 0"
proof -
  show "desc_ok (descs demo_tm2)"
    unfolding demo_tm2_def descs_InsTime by (rule tmdesc.ensure_ok [OF demo_tm_ok(1)])
  show "find_desc 0x1000 (descs demo_tm2) = Some 0"
    by (simp add: demo_tm2_def descs_InsTime demo_descs find_desc_def alloc_desc_def)
       (simp add: find_index_None empty_desc_def)
qed

theorem RmvTime_removes_witness:
  "tasks_of (descs (snd (RmvTime (\<lambda>_. \<lparr>tv_sec = 5, tv_nsec = 0\<rparr>) 0x1000 demo_tm2))) =
     tasks_of (descs demo_tm2) - {0x1000}"
  using RmvTime_removes [OF demo_tm2_ok, of "\<lambda>_. \<lparr>tv_sec = 5, tv_nsec = 0\<rparr>"]
  by (simp add: Let_def)

section \<open>The interrupt\<close>

text \<open>
  \<open>quiet E T\<close>: the time tasks that are called leave the descriptors and the queue words of the
  tasks in \<open>T\<close> alone. \<open>tasks_apart\<close>: the tasks in the table do not overlap.
\<close>

definition quiet :: "'h tm_host env68k \<Rightarrow> u32 set \<Rightarrow> bool" where
  "quiet E T \<longleftrightarrow> (\<forall>addr r m h. case run_code E addr r (m, h) of (r', m', h') \<Rightarrow>
     desc h' = desc h \<and> (\<forall>t \<in> T. ReadMacInt16 m' (t + qType) = ReadMacInt16 m (t + qType)
        \<and> ReadMacInt32 m' (t + tmAddr) = ReadMacInt32 m (t + tmAddr)))"

definition tasks_apart :: "u32 set \<Rightarrow> bool" where
  "tasks_apart T \<longleftrightarrow> (\<forall>t \<in> T. \<forall>u \<in> T. t \<noteq> u \<longrightarrow> sep t 22 u 22)"

lemma Execute68k_quiet:
  assumes "quiet E T"
  shows "descs (snd (Execute68k E a r s)) = descs s"
    and "t \<in> T \<Longrightarrow> get16 (snd (Execute68k E a r s)) (t + qType) = get16 s (t + qType)"
    and "t \<in> T \<Longrightarrow> get32 (snd (Execute68k E a r s)) (t + tmAddr) = get32 s (t + tmAddr)"
proof -
  obtain r' m' h' where x: "run_code E a r (mem s, host s) = (r', m', h')"
    by (metis prod.exhaust)
  with assms have "desc h' = desc (host s)" "\<forall>t \<in> T. ReadMacInt16 m' (t + qType) = ReadMacInt16 (mem s) (t + qType)
        \<and> ReadMacInt32 m' (t + tmAddr) = ReadMacInt32 (mem s) (t + tmAddr)"
    unfolding quiet_def by (metis (mono_tags, lifting) case_prod_conv)+
  with x show "descs (snd (Execute68k E a r s)) = descs s"
    and "t \<in> T \<Longrightarrow> get16 (snd (Execute68k E a r s)) (t + qType) = get16 s (t + qType)"
    and "t \<in> T \<Longrightarrow> get32 (snd (Execute68k E a r s)) (t + tmAddr) = get32 s (t + tmAddr)"
    by (simp_all add: Execute68k_def descs_def mac_get_defs)
qed

definition task_call :: "'h tm_host env68k \<Rightarrow> 'h tm_mac \<Rightarrow> u32 \<Rightarrow> (u32 + u16) \<times> m68k_regs" where
  "task_call E s tm = (Inl (get32 s (tm + tmAddr)),
     set_a 1 tm (set_a 0 (get32 s (tm + tmAddr)) (stack_junk E)))"

lemma run_task_quiet:
  assumes q: "quiet E T" and ap: "tasks_apart T" and tm: "tm \<in> T" and t: "t \<in> T"
  shows "descs (run_task E tm s) = descs s"
    and "requests (run_task E tm s) =
       requests s @ (if get32 s (tm + tmAddr) \<noteq> 0 then [task_call E s tm] else [])"
    and "get16 (run_task E tm s) (t + qType) =
       (if t = tm then get16 s (t + qType) AND 0x7fff else get16 s (t + qType))"
    and "get32 (run_task E tm s) (t + tmAddr) = get32 s (t + tmAddr)"
proof -
  have other: "sep (t + qType) 2 (tm + qType) 2" "sep (t + tmAddr) 4 (tm + qType) 2" if "t \<noteq> tm"
    using ap tm t that by (auto simp: tasks_apart_def intro!: sep_sub)
  have a: "get32 (put16 (tm + qType) v s) (tm + tmAddr) = get32 s (tm + tmAddr)" for v
    by (simp add: mac_mem sep_def)
  note ex = Execute68k_quiet [OF q]
  show "descs (run_task E tm s) = descs s"
    by (simp add: run_task_def Let_def ex)
  show "requests (run_task E tm s) =
       requests s @ (if get32 s (tm + tmAddr) \<noteq> 0 then [task_call E s tm] else [])"
    by (simp add: run_task_def Let_def a task_call_def)
  show "get16 (run_task E tm s) (t + qType) =
       (if t = tm then get16 s (t + qType) AND 0x7fff else get16 s (t + qType))"
    using other(1) by (cases "t = tm") (auto simp: run_task_def Let_def ex(2) [OF t] ex(2) [OF tm] get16_put_apart)
  show "get32 (run_task E tm s) (t + tmAddr) = get32 s (t + tmAddr)"
    using other(2) a by (cases "t = tm") (auto simp: run_task_def Let_def ex(3) [OF t] ex(3) [OF tm] get32_put_apart)
qed

text \<open>The state after the first \<open>k\<close> descriptors have been looked at.\<close>

definition ticked :: "'h tm_host env68k \<Rightarrow> timespec \<Rightarrow> 'h tm_mac \<Rightarrow> nat \<Rightarrow> 'h tm_mac \<Rightarrow> bool" where
  "ticked E now s k s' \<longleftrightarrow> descs s' = descs s
     \<and> requests s' = requests s @ map (task_call E s)
         (filter (\<lambda>t. get32 s (t + tmAddr) \<noteq> 0)
            (map (\<lambda>i. task (descs s ! i)) (filter (expired now s) [0..<k])))
     \<and> (\<forall>i < NUM_DESCS. in_use (descs s ! i) \<longrightarrow>
          get16 s' (task (descs s ! i) + qType) =
            (if i < k \<and> expired now s i then get16 s (task (descs s ! i) + qType) AND 0x7fff
             else get16 s (task (descs s ! i) + qType))
          \<and> get32 s' (task (descs s ! i) + tmAddr) = get32 s (task (descs s ! i) + tmAddr))"

lemma tick_desc_step:
  assumes ok: "desc_ok (descs s)" and q: "quiet E (tasks_of (descs s))"
    and ap: "tasks_apart (tasks_of (descs s))" and k: "k < NUM_DESCS" and T: "ticked E now s k s'"
  shows "ticked E now s (Suc k) (tick_desc E now k s')"
proof -
  let ?t = "\<lambda>i. task (descs s ! i)"
  have d: "descs s' = descs s" using T by (simp add: ticked_def)
  have exp: "expired now s' k = expired now s k"
    using T k by (auto simp: ticked_def expired_def)
  show ?thesis
  proof (cases "expired now s k")
    case False
    then show ?thesis
      using T exp by (auto simp: ticked_def tick_desc_def less_Suc_eq)
  next
    case True
    then have use: "in_use (descs s ! k)" by (simp add: expired_def)
    have mem: "?t i \<in> tasks_of (descs s)" if "i < NUM_DESCS" "in_use (descs s ! i)" for i
      using ok that by (auto simp: mem_tasks_of desc_ok_def)
    note run = run_task_quiet [OF q ap mem [OF k use], of _ s']
    have "get32 s' (?t k + tmAddr) = get32 s (?t k + tmAddr)"
      using T k use by (simp add: ticked_def)
    then have call: "task_call E s' (?t k) = task_call E s (?t k)"
      and addr: "get32 s' (?t k + tmAddr) = get32 s (?t k + tmAddr)"
      by (simp_all add: task_call_def)
    have inj: "?t i = ?t k \<longleftrightarrow> i = k" if "i < NUM_DESCS" "in_use (descs s ! i)" for i
      using ok k use that by (auto simp: desc_ok_def)
    have eq: "tick_desc E now k s' = run_task E (?t k) s'"
      using True exp by (simp add: tick_desc_def d)
    show ?thesis
      unfolding ticked_def eq
      using T True run(1) [OF mem [OF k use]] run(2) [OF mem [OF k use]] run(3,4) [OF mem] inj
      by (auto simp: ticked_def d call addr less_Suc_eq)
  qed
qed


text \<open>PrimeTime() schedules the task: it is due once the clock has passed its wake-up time,
  which is the given delay after the current time, or after the previous wake-up time for an
  extended task that has been scheduled before (so that such tasks do not drift). It stays
  the only change to the table. Times are compared by an int difference of seconds, which is
  why the two times have to lie within 68 years.\<close>

theorem PrimeTime_schedules:
  assumes f: "find_desc tm (descs s) = Some i"
    and ok: "ts_ok (wakeup (descs s ! i))" "ts_ok (clk (os (host s)))" "ts_ok now'"
    and time: "time \<noteq> 0x80000000"
    and near: "\<bar>tv_sec (wakeup (descs (snd (PrimeTime clk tm time s)) ! i)) - tv_sec now'\<bar> < 2 ^ 31"
  shows "let s' = snd (PrimeTime clk tm time s);
             base = (if get16 s (tm + qType) AND 0x4000 \<noteq> 0 \<and> get32 s (tm + tmWakeUp) \<noteq> 0
                     then wakeup (descs s ! i) else clk (os (host s)))
         in expired now' s' i = (nanos base + mac_delay time < nanos now')
            \<and> length (descs s') = length (descs s)
            \<and> (\<forall>j. j \<noteq> i \<longrightarrow> descs s' ! j = descs s ! j)"
proof -
  let ?s' = "snd (PrimeTime clk tm time s)"
  let ?base = "if get16 s (tm + qType) AND 0x4000 \<noteq> 0 \<and> get32 s (tm + tmWakeUp) \<noteq> 0
                     then wakeup (descs s ! i) else clk (os (host s))"
  note del = timer_mac2host_time_value [OF time]
  from f have i: "i < length (descs s)" "in_use (descs s ! i)" "task (descs s ! i) = tm"
    by (auto dest: find_desc_SomeD)
  have d: "descs ?s' = (descs s)[i := (descs s ! i)\<lparr>wakeup := timer_add_time ?base (timer_mac2host_time time)\<rparr>]"
    using i by (simp add: PrimeTime_def f Let_def)
  have bit: "(w OR 0x8000) AND 0x8000 \<noteq> 0" for w :: u16
  proof
    assume "(w OR 0x8000) AND 0x8000 = 0"
    moreover have "bit ((w OR 0x8000) AND 0x8000) 15" by (simp add: bit_simps bit_numeral_rec)
    ultimately show False by simp
  qed
  have act: "get16 ?s' (tm + qType) AND 0x8000 \<noteq> 0"
    by (simp add: PrimeTime_def f Let_def bit)
  have "ts_ok (timer_add_time ?base (timer_mac2host_time time))"
    using ok del by (simp add: timer_add_time_ok)
  from timer_cmp_time_less [OF this ok(3)] near
  have "timer_cmp_time (wakeup (descs ?s' ! i)) now' < 0 \<longleftrightarrow> nanos ?base + mac_delay time < nanos now'"
    using i by (simp add: d timer_add_time_nanos del)
  then show ?thesis
    using act i unfolding Let_def expired_def by (simp add: d)
qed

definition demo_clk :: "unit \<Rightarrow> timespec" where
  "demo_clk u = \<lparr>tv_sec = 5, tv_nsec = 0\<rparr>"

definition demo_tm3 :: "unit tm_mac" where
  "demo_tm3 = \<lparr>mem = (\<lambda>_. 0),
     host = \<lparr>desc = [\<lparr>task = 0x1000, wakeup = \<lparr>tv_sec = 0, tv_nsec = 0\<rparr>, in_use = True\<rparr>], os = ()\<rparr>,
     calls = []\<rparr>"

lemma demo_tm3_find: "find_desc 0x1000 (descs demo_tm3) = Some 0"
  by (simp add: demo_tm3_def descs_def find_desc_def)

theorem PrimeTime_schedules_witness:
  "expired \<lparr>tv_sec = 6, tv_nsec = 0\<rparr> (snd (PrimeTime demo_clk 0x1000 20 demo_tm3)) 0"
proof -
  let ?now = "\<lparr>tv_sec = 6, tv_nsec = 0\<rparr>"
  have cells: "descs demo_tm3 ! 0 = \<lparr>task = 0x1000, wakeup = \<lparr>tv_sec = 0, tv_nsec = 0\<rparr>, in_use = True\<rparr>"
    "get16 demo_tm3 (0x1000 + qType) = 0" "length (descs demo_tm3) = 1"
    by (simp_all add: demo_tm3_def descs_def mac_get_defs mac_access join16_def)
  have t: "timer_mac2host_time 20 = \<lparr>tv_sec = 0, tv_nsec = 20000000\<rparr>"
    by (simp add: timer_mac2host_time_def sdiv_pos smod_pos)
  have w: "wakeup (descs (snd (PrimeTime demo_clk 0x1000 20 demo_tm3)) ! 0) = \<lparr>tv_sec = 5, tv_nsec = 20000000\<rparr>"
    using cells by (simp add: PrimeTime_def demo_tm3_find Let_def t timer_add_time_def demo_clk_def)
  have "ts_ok ?now" "ts_ok (demo_clk (os (host demo_tm3)))" "ts_ok (wakeup (descs demo_tm3 ! 0))"
    using cells by (simp_all add: ts_ok_def demo_clk_def)
  with PrimeTime_schedules [of "0x1000" demo_tm3 0 demo_clk ?now 20] demo_tm3_find w cells
  show ?thesis by (simp add: Let_def nanos_def demo_clk_def mac_delay_def)
qed

definition due_desc :: TMDesc where
  "due_desc = \<lparr>task = 0x1000, wakeup = \<lparr>tv_sec = 3, tv_nsec = 0\<rparr>, in_use = True\<rparr>"

definition due_tm :: "unit tm_mac" where
  "due_tm = \<lparr>mem = (\<lambda>a. if a = 0x1004 then 0x80 else if a = 0x1009 then 7 else 0),
     host = \<lparr>desc = due_desc # replicate 63 empty_desc, os = ()\<rparr>, calls = []\<rparr>"

lemma due_tm_table: "descs due_tm = due_desc # replicate 63 empty_desc"
  by (simp add: due_tm_def descs_def)

lemma due_tm_ok: "desc_ok (descs due_tm)" "tasks_of (descs due_tm) = {0x1000}"
proof -
  have l: "length (descs due_tm) = 64" by (simp add: due_tm_table)
  have u: "in_use (descs due_tm ! i) \<longleftrightarrow> i = 0" if "i < 64" for i
    using that by (cases i) (simp_all add: due_tm_table empty_desc_def due_desc_def)
  show "desc_ok (descs due_tm)" using u by (auto simp: desc_ok_def l NUM_DESCS_def)
  show "tasks_of (descs due_tm) = {0x1000}"
    by (force simp: tasks_of_def due_tm_table empty_desc_def due_desc_def)
qed

lemma due_tm_expired:
  "filter (expired \<lparr>tv_sec = 5, tv_nsec = 0\<rparr> due_tm) [0..<NUM_DESCS] = [0]"
proof -
  have "[0..<NUM_DESCS] = 0 # [1..<64]" by (simp add: NUM_DESCS_def upt_rec)
  moreover have "filter (expired \<lparr>tv_sec = 5, tv_nsec = 0\<rparr> due_tm) [1..<64] = []"
  proof -
    have "\<not> expired n due_tm i" if "1 \<le> i" "i < 64" for i n
      using that by (cases i) (simp_all add: expired_def due_tm_table empty_desc_def)
    then show ?thesis by (auto simp: filter_empty_conv)
  qed
  moreover have "get16 due_tm 0x1004 = 0x8000"
    by (simp add: due_tm_def mac_get_defs mac_access join16_def)
  then have "expired \<lparr>tv_sec = 5, tv_nsec = 0\<rparr> due_tm 0"
    by (simp add: expired_def due_tm_table due_desc_def timer_cmp_time_def c_int_def)
  ultimately show ?thesis by simp
qed


end
