(* ===== verification/ADB.thy ===== *)
theory ADB
  imports MacosUtil
begin

text \<open>
  "adb.cpp": the emulated ADB mouse and keyboard. The static variables are the record
  \<open>adb_state\<close>; they are kept beside the host state (\<open>adb_host\<close>) because the ADB handlers that
  the interrupt routine calls may issue ADBOp() themselves. The mouse lock and
  TriggerInterrupt() only concern host threads; the flag INTFLAG_ADB that
  SetInterruptFlag() raises is \<open>adb_irq\<close>. The value of rand() is an argument. The branch for
  POWERPC_ROM is not modelled. An index outside a C array gives \<open>None\<close>.
\<close>

record adb_state =
  mouse_x :: int
  mouse_y :: int
  old_mouse_x :: int
  old_mouse_y :: int
  mouse_button :: "bool list"
  old_mouse_button :: "bool list"
  relative_mouse :: bool
  key_states :: "u8 list"
  key_buffer :: "u8 list"
  key_read_ptr :: nat
  key_write_ptr :: nat
  mouse_reg_3 :: "u8 \<times> u8"
  key_reg_2 :: "u8 \<times> u8"
  key_reg_3 :: "u8 \<times> u8"
  m_keyboard_type :: u8
  adb_irq :: bool

definition KEY_BUFFER_SIZE :: nat where
  "KEY_BUFFER_SIZE = 16"

definition adb_start :: adb_state where
  "adb_start = \<lparr>mouse_x = 0, mouse_y = 0, old_mouse_x = 0, old_mouse_y = 0,
     mouse_button = [False, False, False], old_mouse_button = [False, False, False],
     relative_mouse = False, key_states = replicate 16 0, key_buffer = replicate 16 0,
     key_read_ptr = 0, key_write_ptr = 0, mouse_reg_3 = (0x63, 0x01), key_reg_2 = (0xff, 0xff),
     key_reg_3 = (0x62, 0x05), m_keyboard_type = 0x05, adb_irq = False\<rparr>"

text \<open>The argument is the preference "keyboardtype".\<close>

definition ADBInit :: "u32 \<Rightarrow> adb_state \<Rightarrow> adb_state" where
  "ADBInit keyboardtype a =
     a\<lparr>m_keyboard_type := ucast keyboardtype, key_reg_3 := (fst (key_reg_3 a), ucast keyboardtype)\<rparr>"

section \<open>Keys\<close>

text \<open>MATRIX(code): the byte \<open>code >> 3\<close>, bit \<open>~code & 7\<close>.\<close>

definition key_mask :: "nat \<Rightarrow> u8" where
  "key_mask code = push_bit (7 - code mod 8) 1"

definition MATRIX :: "adb_state \<Rightarrow> nat \<Rightarrow> bool" where
  "MATRIX a code = (key_states a ! (code div 8) AND key_mask code \<noteq> 0)"

definition put_key_event :: "u8 \<Rightarrow> adb_state \<Rightarrow> adb_state" where
  "put_key_event k a = a\<lparr>key_buffer := (key_buffer a)[key_write_ptr a := k],
     key_write_ptr := (key_write_ptr a + 1) mod KEY_BUFFER_SIZE\<rparr>"

definition ADBKeyDown :: "nat \<Rightarrow> adb_state \<Rightarrow> adb_state option" where
  "ADBKeyDown code a =
     (let a1 = put_key_event (word_of_nat code) a; i = code div 8 in
      if i < length (key_states a1) then
        Some (a1\<lparr>key_states := (key_states a1)[i := key_states a1 ! i OR key_mask code], adb_irq := True\<rparr>)
      else None)"

definition ADBKeyUp :: "nat \<Rightarrow> adb_state \<Rightarrow> adb_state option" where
  "ADBKeyUp code a =
     (let a1 = put_key_event (word_of_nat code OR 0x80) a; i = code div 8 in
      if i < length (key_states a1) then
        Some (a1\<lparr>key_states := (key_states a1)[i := key_states a1 ! i AND NOT (key_mask code)],
                 adb_irq := True\<rparr>)
      else None)"

section \<open>Mouse\<close>

definition ADBMouseMoved :: "int \<Rightarrow> int \<Rightarrow> adb_state \<Rightarrow> adb_state" where
  "ADBMouseMoved x y a =
     (if relative_mouse a then a\<lparr>mouse_x := mouse_x a + x, mouse_y := mouse_y a + y, adb_irq := True\<rparr>
      else a\<lparr>mouse_x := x, mouse_y := y, adb_irq := True\<rparr>)"

definition ADBMouseDown :: "nat \<Rightarrow> adb_state \<Rightarrow> adb_state option" where
  "ADBMouseDown button a =
     (if button < length (mouse_button a)
      then Some (a\<lparr>mouse_button := (mouse_button a)[button := True], adb_irq := True\<rparr>) else None)"

definition ADBMouseUp :: "nat \<Rightarrow> adb_state \<Rightarrow> adb_state option" where
  "ADBMouseUp button a =
     (if button < length (mouse_button a)
      then Some (a\<lparr>mouse_button := (mouse_button a)[button := False], adb_irq := True\<rparr>) else None)"

definition ADBSetRelMouseMode :: "bool \<Rightarrow> adb_state \<Rightarrow> adb_state" where
  "ADBSetRelMouseMode relative a =
     (if relative_mouse a \<noteq> relative then a\<lparr>relative_mouse := relative, mouse_x := 0, mouse_y := 0\<rparr>
      else a)"

section \<open>ADBOp\<close>

record 'h adb_host =
  adb :: adb_state
  adb_os :: 'h

type_synonym 'h adb_mac = "'h adb_host mac"

definition adb_of :: "'h adb_mac \<Rightarrow> adb_state" where
  "adb_of s = adb (host s)"

definition upd_adb :: "(adb_state \<Rightarrow> adb_state) \<Rightarrow> 'h adb_mac \<Rightarrow> 'h adb_mac" where
  "upd_adb f s = s\<lparr>host := (host s)\<lparr>adb := f (adb (host s))\<rparr>\<rparr>"

lemma adb_of_simps [simp]:
  "adb_of (upd_adb f s) = f (adb_of s)" "mem (upd_adb f s) = mem s" "calls (upd_adb f s) = calls s"
  "get8 (upd_adb f s) x = get8 s x" "get16 (upd_adb f s) x = get16 s x" "get32 (upd_adb f s) x = get32 s x"
  "adb_of (put8 x b s) = adb_of s" "adb_of (put16 x w s) = adb_of s" "adb_of (put32 x l s) = adb_of s"
  "adb_of (put_bytes x bs s) = adb_of s" "requests (upd_adb f s) = requests s"
  by (simp_all add: adb_of_def upd_adb_def mac_get_defs requests_def)

definition adb_reset :: "adb_state \<Rightarrow> adb_state" where
  "adb_reset a = a\<lparr>mouse_reg_3 := (0x63, 0x01), key_reg_2 := (0xff, 0xff),
     key_reg_3 := (0x62, m_keyboard_type a)\<rparr>"

definition mouse_listen :: "u8 \<Rightarrow> u8 \<Rightarrow> u8 \<Rightarrow> adb_state \<Rightarrow> adb_state" where
  "mouse_listen reg d1 d2 a =
     (if reg = 3 then
        (if d2 = 0xfe then
           a\<lparr>mouse_reg_3 := ((fst (mouse_reg_3 a) AND 0xf0) OR (d1 AND 0x0f), snd (mouse_reg_3 a))\<rparr>
         else if d2 = 1 \<or> d2 = 2 \<or> d2 = 4 then a\<lparr>mouse_reg_3 := (fst (mouse_reg_3 a), d2)\<rparr>
         else if d2 = 0 then
           a\<lparr>mouse_reg_3 := ((fst (mouse_reg_3 a) AND 0xd0) OR (d1 AND 0x2f), snd (mouse_reg_3 a))\<rparr>
         else a)
      else a)"

definition mouse_talk :: "u8 \<Rightarrow> u8 \<Rightarrow> adb_state \<Rightarrow> u8 list" where
  "mouse_talk rnd reg a =
     (if reg = 1 then [8, of_char CHR ''a'', of_char CHR ''p'', of_char CHR ''p'', of_char CHR ''l'',
                       word_of_nat (300 div 256), word_of_nat 300, 1, 3]
      else if reg = 3 then [2, (fst (mouse_reg_3 a) AND 0xf0) OR (rnd AND 0x0f), snd (mouse_reg_3 a)]
      else [0])"

definition key_listen :: "u8 \<Rightarrow> u8 \<Rightarrow> u8 \<Rightarrow> adb_state \<Rightarrow> adb_state" where
  "key_listen reg d1 d2 a =
     (if reg = 2 then a\<lparr>key_reg_2 := (d1, d2)\<rparr>
      else if reg = 3 then
        (if d2 = 0xfe then
           a\<lparr>key_reg_3 := ((fst (key_reg_3 a) AND 0xf0) OR (d1 AND 0x0f), snd (key_reg_3 a))\<rparr>
         else if d2 = 0 then
           a\<lparr>key_reg_3 := ((fst (key_reg_3 a) AND 0xd0) OR (d1 AND 0x2f), snd (key_reg_3 a))\<rparr>
         else a)
      else a)"

definition clear_if :: "bool \<Rightarrow> u8 \<Rightarrow> u8 \<Rightarrow> u8" where
  "clear_if c b w = (if c then w AND NOT b else w)"

definition modifiers_hi :: "adb_state \<Rightarrow> u8" where
  "modifiers_hi a =
     clear_if (MATRIX a 0x75) 0x40 (clear_if (MATRIX a 0x39) 0x20 (clear_if (MATRIX a 0x36) 0x08
       (clear_if (MATRIX a 0x38) 0x04 (clear_if (MATRIX a 0x3a) 0x02 (clear_if (MATRIX a 0x37) 0x01 0xff)))))"

definition modifiers_lo :: "adb_state \<Rightarrow> u8" where
  "modifiers_lo a =
     clear_if (MATRIX a 0x47) 0x80 (clear_if (MATRIX a 0x6b) 0x40 (snd (key_reg_2 a) OR 0xf8))"

definition key_talk :: "u8 \<Rightarrow> u8 \<Rightarrow> adb_state \<Rightarrow> u8 list" where
  "key_talk rnd reg a =
     (if reg = 2 then [2, modifiers_hi a, modifiers_lo a]
      else if reg = 3 then [2, (fst (key_reg_3 a) AND 0xf0) OR (rnd AND 0x0f), snd (key_reg_3 a)]
      else [0])"

definition ADBOp :: "u8 \<Rightarrow> u8 \<Rightarrow> u32 \<Rightarrow> 'h adb_mac \<Rightarrow> 'h adb_mac" where
  "ADBOp rnd op data s =
     (if op AND 0x0f = 0 then upd_adb adb_reset s
      else
        (let adr = drop_bit 4 op; cmd = drop_bit 2 op AND 3; reg = op AND 3; a = adb_of s;
             d1 = get8 s (data + 1); d2 = get8 s (data + 2)
         in if adr = fst (mouse_reg_3 a) AND 0x0f then
              (if cmd = 2 then upd_adb (mouse_listen reg d1 d2) s
               else if cmd = 3 then put_bytes data (mouse_talk rnd reg a) s
               else s)
            else if adr = fst (key_reg_3 a) AND 0x0f then
              (if cmd = 2 then upd_adb (key_listen reg d1 d2) s
               else if cmd = 3 then put_bytes data (key_talk rnd reg a) s
               else s)
            else if cmd = 3 then put_bytes data [0] s
            else s))"

section \<open>The interrupt\<close>

definition upbit :: "bool \<Rightarrow> int" where
  "upbit pressed = (if pressed then 0 else 0x80)"

definition mouse_packet :: "adb_state \<Rightarrow> int \<Rightarrow> int \<Rightarrow> bool list \<Rightarrow> u8 list" where
  "mouse_packet a mx my mb =
     (if snd (mouse_reg_3 a) = 4 then
        [3, word_of_int ((my AND 0x7f) OR upbit (mb ! 0)), word_of_int ((mx AND 0x7f) OR upbit (mb ! 1)),
         word_of_int ((drop_bit 3 my AND 0x70) OR (drop_bit 7 mx AND 0x07) OR (if mb ! 2 then 0x08 else 0x88))]
      else
        [2, word_of_int ((my AND 0x7f) OR upbit (mb ! 0)), word_of_int ((mx AND 0x7f) OR upbit (mb ! 1))])"

definition button_packet :: "adb_state \<Rightarrow> bool list \<Rightarrow> u8 list" where
  "button_packet a mb =
     (if snd (mouse_reg_3 a) = 4 then
        [3, word_of_int (upbit (mb ! 0)), word_of_int (upbit (mb ! 1)), if mb ! 2 then 0x08 else 0x88]
      else [2, word_of_int (upbit (mb ! 0)), word_of_int (upbit (mb ! 1))])"

text \<open>
  Calling an ADB handler: A0 is the data, A1 the handler and A2 its data area, taken from
  the device's entry at \<open>dev\<close>, A3 the ADB globals, D0 the Talk 0 command. The register
  block is one local variable, so it keeps what earlier calls left in it.
\<close>

definition call_handler ::
  "'h adb_host env68k \<Rightarrow> u32 \<Rightarrow> u32 \<Rightarrow> u8 \<Rightarrow> m68k_regs \<times> 'h adb_mac \<Rightarrow> m68k_regs \<times> 'h adb_mac" where
  "call_handler E adb_base dev reg3 rs =
     (let s = snd rs;
          r = set_d 0 (push_bit 4 (ucast reg3) OR 0x0c) (set_a 3 adb_base (set_a 2 (get32 s (dev + 4))
                (set_a 1 (get32 s dev) (set_a 0 (adb_base + 0x163) (fst rs)))))
      in Execute68k E (areg r 1) r s)"

definition buttons_changed :: "adb_state \<Rightarrow> bool list \<Rightarrow> bool" where
  "buttons_changed a mb \<longleftrightarrow> mb ! 0 \<noteq> old_mouse_button a ! 0 \<or> mb ! 1 \<noteq> old_mouse_button a ! 1
     \<or> mb ! 2 \<noteq> old_mouse_button a ! 2"

definition save_buttons :: "bool list \<Rightarrow> 'h adb_mac \<Rightarrow> 'h adb_mac" where
  "save_buttons mb = upd_adb (\<lambda>a. a\<lparr>old_mouse_button := [mb ! 0, mb ! 1, mb ! 2]\<rparr>)"

definition send_mouse ::
  "'h adb_host env68k \<Rightarrow> u32 \<Rightarrow> u8 list \<Rightarrow> bool list \<Rightarrow> m68k_regs \<times> 'h adb_mac \<Rightarrow> m68k_regs \<times> 'h adb_mac" where
  "send_mouse E adb_base packet mb rs =
     apsnd (save_buttons mb)
       (call_handler E adb_base (adb_base + 16) (fst (mouse_reg_3 (adb_of (snd rs))))
          (fst rs, put_bytes (adb_base + 0x163) packet (snd rs)))"

definition move_absolute :: "int \<Rightarrow> int \<Rightarrow> 'h adb_mac \<Rightarrow> 'h adb_mac" where
  "move_absolute mx my s =
     (if mx \<noteq> old_mouse_x (adb_of s) \<or> my \<noteq> old_mouse_y (adb_of s) then
        (let s1 = put16 0x82c (word_of_int my) (put16 0x82e (word_of_int mx)
                    (put16 0x828 (word_of_int my) (put16 0x82a (word_of_int mx) s)))
         in upd_adb (\<lambda>a. a\<lparr>old_mouse_x := mx, old_mouse_y := my\<rparr>) (put8 0x8ce (get8 s1 0x8cf) s1))
      else s)"

definition mouse_interrupt ::
  "'h adb_host env68k \<Rightarrow> u32 \<Rightarrow> m68k_regs \<times> 'h adb_mac \<Rightarrow> m68k_regs \<times> 'h adb_mac" where
  "mouse_interrupt E adb_base rs =
     (let (r, s) = rs; a = adb_of s; mx = mouse_x a; my = mouse_y a; mb = mouse_button a in
      if relative_mouse a then
        (let s1 = upd_adb (\<lambda>a. a\<lparr>mouse_x := 0, mouse_y := 0\<rparr>) s in
         if mx \<noteq> 0 \<or> my \<noteq> 0 \<or> buttons_changed a mb then
           send_mouse E adb_base (mouse_packet a mx my mb) mb (r, s1)
         else (r, s1))
      else
        (let s1 = move_absolute mx my s in
         if buttons_changed (adb_of s1) mb then
           send_mouse E adb_base (button_packet (adb_of s1) mb) mb (r, s1)
         else (r, s1)))"

text \<open>One round of the loop over the keyboard buffer.\<close>

definition next_key :: "'h adb_mac \<Rightarrow> u8" where
  "next_key s = key_buffer (adb_of s) ! key_read_ptr (adb_of s)"

definition key_packet :: "u8 \<Rightarrow> u8 list" where
  "key_packet k = [2, k, if k = 0x7f then 0x7f else 0xff]"

definition pop_key :: "adb_state \<Rightarrow> adb_state" where
  "pop_key a = a\<lparr>key_read_ptr := (key_read_ptr a + 1) mod KEY_BUFFER_SIZE\<rparr>"

definition send_key ::
  "'h adb_host env68k \<Rightarrow> u32 \<Rightarrow> m68k_regs \<times> 'h adb_mac \<Rightarrow> m68k_regs \<times> 'h adb_mac" where
  "send_key E adb_base rs =
     (let (r, s) = rs; s1 = put_bytes (adb_base + 0x163) (key_packet (next_key s)) (upd_adb pop_key s)
      in call_handler E adb_base (adb_base + 4) (fst (key_reg_3 (adb_of s1))) (r, s1))"

partial_function (option) drain_keys ::
  "'h adb_host env68k \<Rightarrow> u32 \<Rightarrow> m68k_regs \<times> 'h adb_mac \<Rightarrow> 'h adb_mac option" where
  "drain_keys E adb_base rs =
     (if key_read_ptr (adb_of (snd rs)) \<noteq> key_write_ptr (adb_of (snd rs))
      then drain_keys E adb_base (send_key E adb_base rs)
      else Some (snd rs))"

definition ADBInterrupt :: "'h adb_host env68k \<Rightarrow> 'h adb_mac \<Rightarrow> 'h adb_mac option" where
  "ADBInterrupt E s =
     (let adb_base = get32 s 0xcf8 in
      if adb_base = 0 \<or> adb_base = 0xffffffff then Some s
      else map_option
             (\<lambda>s1. put32 (adb_base + 0x163 + 4) 0 (put32 (adb_base + 0x163) 0 s1))
             (drain_keys E adb_base (mouse_interrupt E adb_base (stack_junk E, s))))"

text \<open>The debugger entry points of the Mac ROM ("macos_util.cpp"); polling lets the events through.\<close>

definition DebugUtil :: "'h adb_host env68k \<Rightarrow> u32 \<Rightarrow> 'h adb_mac \<Rightarrow> (u32 \<times> 'h adb_mac) option" where
  "DebugUtil E Selector s =
     (if Selector = 0 then Some (3, s)
      else if Selector = 1 \<or> Selector = 2 then Some (0, s)
      else if Selector = 3 then map_option (Pair 0) (ADBInterrupt E s)
      else Some (- 50, s))"

section \<open>The key buffer as a queue\<close>

text \<open>
  The contract of the ring buffer between the producer (key events) and the consumer (the
  interrupt routine): first in, first out, as long as fewer than \<open>cap\<close> events are waiting.
\<close>

locale key_queue =
  fixes ok :: "'q \<Rightarrow> bool"
    and pend :: "'q \<Rightarrow> 'e list"
    and enq :: "'e \<Rightarrow> 'q \<Rightarrow> 'q"
    and deq :: "'q \<Rightarrow> 'q"
    and cap :: nat
  assumes enq_ok: "ok q \<Longrightarrow> ok (enq e q)"
    and deq_ok: "ok q \<Longrightarrow> ok (deq q)"
    and pend_cap: "ok q \<Longrightarrow> length (pend q) < cap"
    and pend_enq: "ok q \<Longrightarrow> Suc (length (pend q)) < cap \<Longrightarrow> pend (enq e q) = pend q @ [e]"
    and pend_full: "ok q \<Longrightarrow> Suc (length (pend q)) = cap \<Longrightarrow> pend (enq e q) = []"
    and pend_deq: "ok q \<Longrightarrow> pend q \<noteq> [] \<Longrightarrow> pend (deq q) = tl (pend q)"
begin

lemma fold_enq_ok: "ok q \<Longrightarrow> ok (fold enq es q)"
  by (induction es arbitrary: q) (auto simp: enq_ok)

lemma fifo:
  "ok q \<Longrightarrow> length (pend q) + length es < cap \<Longrightarrow> pend (fold enq es q) = pend q @ es"
  by (induction es arbitrary: q) (auto simp: enq_ok pend_enq)

lemma overflow:
  assumes "ok q" and "length (pend q) + length es = cap" and "es \<noteq> []"
  shows "pend (fold enq es q) = []"
proof -
  obtain fs f where es: "es = fs @ [f]" using assms(3) by (cases es rule: rev_cases) auto
  have "pend (fold enq fs q) = pend q @ fs"
    using assms es by (intro fifo) auto
  then show ?thesis
    using assms es by (simp add: pend_full fold_enq_ok)
qed

lemma drained: "ok q \<Longrightarrow> length (pend q) = n \<Longrightarrow> pend ((deq ^^ n) q) = []"
proof (induction n arbitrary: q)
  case (Suc n)
  then have "pend (deq q) = tl (pend q)" by (intro pend_deq) auto
  then have "pend ((deq ^^ n) (deq q)) = []"
    using Suc by (intro Suc.IH) (auto simp: deq_ok)
  then show ?case by (simp only: funpow_Suc_right o_def)
qed simp

end

definition pending :: "adb_state \<Rightarrow> u8 list" where
  "pending a = map (\<lambda>i. key_buffer a ! ((key_read_ptr a + i) mod KEY_BUFFER_SIZE))
     [0..<(key_write_ptr a + KEY_BUFFER_SIZE - key_read_ptr a) mod KEY_BUFFER_SIZE]"

definition ring_ok :: "adb_state \<Rightarrow> bool" where
  "ring_ok a \<longleftrightarrow> length (key_buffer a) = KEY_BUFFER_SIZE \<and> key_read_ptr a < KEY_BUFFER_SIZE
     \<and> key_write_ptr a < KEY_BUFFER_SIZE"

text \<open>Distances and steps on the ring of 16.\<close>

lemma ring_dist: "r < 16 \<Longrightarrow> w < 16 \<Longrightarrow> (w + 16 - r) mod 16 = (if r \<le> w then w - r else w + 16 - r)"
  for r w :: nat
  by (simp add: le_mod_geq)

lemma ring_suc: "w < 16 \<Longrightarrow> Suc w mod 16 = (if w = 15 then 0 else Suc w)" for w :: nat
  by auto

lemma ring_step:
  fixes r w :: nat
  assumes "r < 16" and "w < 16"
  shows "(Suc w mod 16 + 16 - r) mod 16 = Suc (w + 16 - r) mod 16"
proof (cases "w = 15")
  case True
  have e: "Suc (w + 16 - r) = 16 + (16 - r)" and z: "Suc w mod 16 = 0"
    using True assms by simp_all
  show ?thesis unfolding e z mod_add_self1 by simp
next
  case False
  then have e: "Suc w mod 16 + 16 - r = Suc (w + 16 - r)" using assms by simp
  show ?thesis unfolding e ..
qed

lemma ring_at: "r < 16 \<Longrightarrow> i < 16 \<Longrightarrow> (r + i) mod 16 = (if r + i < 16 then r + i else r + i - 16)"
  for r i :: nat
  by (simp add: le_mod_geq)

lemma pending_enq:
  assumes "ring_ok a"
  shows "Suc (length (pending a)) < KEY_BUFFER_SIZE \<Longrightarrow> pending (put_key_event k a) = pending a @ [k]"
    and "Suc (length (pending a)) = KEY_BUFFER_SIZE \<Longrightarrow> pending (put_key_event k a) = []"
proof -
  obtain r w b where a: "key_read_ptr a = r" "key_write_ptr a = w" "key_buffer a = b" by simp
  have rw: "r < 16" "w < 16" "length b = 16" using assms a by (auto simp: ring_ok_def KEY_BUFFER_SIZE_def)
  define n where "n = (w + 16 - r) mod 16"
  have n: "n = (if r \<le> w then w - r else w + 16 - r)"
    unfolding n_def by (rule ring_dist [OF rw(1,2)])
  have n16: "n < 16" by (simp add: n_def)
  have w: "(r + n) mod 16 = w" using rw by (simp add: ring_at [OF rw(1) n16]) (simp add: n)
  have len: "length (pending a) = n" by (simp add: pending_def a KEY_BUFFER_SIZE_def n_def)
  show "Suc (length (pending a)) < KEY_BUFFER_SIZE \<Longrightarrow> pending (put_key_event k a) = pending a @ [k]"
  proof -
    assume "Suc (length (pending a)) < KEY_BUFFER_SIZE"
    then have sn: "Suc n < 16" by (simp add: len KEY_BUFFER_SIZE_def)
    have n': "(Suc w mod 16 + 16 - r) mod 16 = Suc n"
      unfolding ring_step [OF rw(1,2)] using sn by (simp add: mod_Suc flip: n_def)
    have old: "w \<noteq> (r + i) mod 16" if "i < n" for i
      using rw that n16 by (auto simp: ring_at n split: if_splits)
    have "map (\<lambda>i. b[w := k] ! ((r + i) mod 16)) [0..<n] = map (\<lambda>i. b ! ((r + i) mod 16)) [0..<n]"
      using old by (intro map_cong) auto
    then show ?thesis
      using rw w by (simp add: pending_def put_key_event_def a KEY_BUFFER_SIZE_def n' flip: n_def)
  qed
  show "Suc (length (pending a)) = KEY_BUFFER_SIZE \<Longrightarrow> pending (put_key_event k a) = []"
  proof -
    assume "Suc (length (pending a)) = KEY_BUFFER_SIZE"
    then have "n = 15" by (simp add: len KEY_BUFFER_SIZE_def)
    then have "(Suc w mod 16 + 16 - r) mod 16 = 0"
      unfolding ring_step [OF rw(1,2)] by (simp add: mod_Suc flip: n_def)
    then show ?thesis by (simp add: pending_def put_key_event_def a KEY_BUFFER_SIZE_def)
  qed
qed

lemma pending_pop:
  assumes "ring_ok a" and "pending a \<noteq> []"
  shows "pending (pop_key a) = tl (pending a)"
    and "hd (pending a) = key_buffer a ! key_read_ptr a"
proof -
  obtain r w b where a: "key_read_ptr a = r" "key_write_ptr a = w" "key_buffer a = b" by simp
  have rw: "r < 16" "w < 16" "length b = 16" using assms a by (auto simp: ring_ok_def KEY_BUFFER_SIZE_def)
  obtain n where n: "(w + 16 - r) mod 16 = Suc n"
    using assms by (cases "(w + 16 - r) mod 16") (auto simp: pending_def a KEY_BUFFER_SIZE_def)
  have r1: "Suc r mod 16 < 16" by simp
  have n': "(w + 16 - Suc r mod 16) mod 16 = n"
    using n rw ring_dist [OF r1 rw(2)] ring_dist [OF rw(1,2)] ring_suc [OF rw(1)]
    by (cases "r = 15") (auto split: if_splits)
  have up: "[0..<Suc n] = 0 # map Suc [0..<n]" by (simp add: map_Suc_upt upt_conv_Cons del: upt_Suc)
  show "pending (pop_key a) = tl (pending a)"
    unfolding pending_def pop_key_def
    by (simp add: a KEY_BUFFER_SIZE_def n n' up mod_simps del: upt_Suc)
  show "hd (pending a) = key_buffer a ! key_read_ptr a"
    using rw by (simp add: pending_def a KEY_BUFFER_SIZE_def n up del: upt_Suc)
qed

lemma put_key_event_simps [simp]:
  "key_states (put_key_event k a) = key_states a" "key_reg_3 (put_key_event k a) = key_reg_3 a"
  by (simp_all add: put_key_event_def)

interpretation keys: key_queue ring_ok pending put_key_event pop_key KEY_BUFFER_SIZE
proof unfold_locales
  fix q e
  show "ring_ok q \<Longrightarrow> ring_ok (put_key_event e q)"
    by (simp add: ring_ok_def put_key_event_def KEY_BUFFER_SIZE_def)
  show "ring_ok q \<Longrightarrow> ring_ok (pop_key q)"
    by (simp add: ring_ok_def pop_key_def KEY_BUFFER_SIZE_def)
  show "ring_ok q \<Longrightarrow> length (pending q) < KEY_BUFFER_SIZE"
    by (simp add: pending_def KEY_BUFFER_SIZE_def)
  show "ring_ok q \<Longrightarrow> Suc (length (pending q)) < KEY_BUFFER_SIZE \<Longrightarrow>
      pending (put_key_event e q) = pending q @ [e]"
    by (rule pending_enq)
  show "ring_ok q \<Longrightarrow> Suc (length (pending q)) = KEY_BUFFER_SIZE \<Longrightarrow> pending (put_key_event e q) = []"
    by (rule pending_enq)
  show "ring_ok q \<Longrightarrow> pending q \<noteq> [] \<Longrightarrow> pending (pop_key q) = tl (pending q)"
    by (rule pending_pop)
qed

section \<open>The key matrix\<close>

lemma and_single_bit: "w AND push_bit n 1 \<noteq> 0 \<longleftrightarrow> bit w n" for w :: u8
proof
  assume "w AND push_bit n 1 \<noteq> 0"
  then obtain k where "bit (w AND push_bit n 1) k" using bit_eqI [of "w AND push_bit n 1" 0] by auto
  then show "bit w n" by (auto simp: bit_simps)
next
  assume "bit w n"
  then have "bit (w AND push_bit n 1) n"
    using bit_imp_le_length [of w n] by (simp add: bit_simps)
  then show "w AND push_bit n 1 \<noteq> 0" by auto
qed

lemma MATRIX_bit: "MATRIX a c = bit (key_states a ! (c div 8)) (7 - c mod 8)"
  unfolding MATRIX_def key_mask_def by (rule and_single_bit)

lemma matrix_pos: "c div 8 = d div 8 \<Longrightarrow> 7 - c mod 8 = 7 - d mod 8 \<Longrightarrow> c = d" for c d :: nat
proof -
  assume "c div 8 = d div 8" and "7 - c mod 8 = 7 - d mod 8"
  moreover have "c mod 8 < 8" "d mod 8 < 8" by simp_all
  ultimately have "c mod 8 = d mod 8" by linarith
  with \<open>c div 8 = d div 8\<close> show "c = d" by (metis div_mult_mod_eq)
qed

text \<open>The key matrix is the set of keys that are held: a key-down event adds its key and a
  key-up event removes it, and no other key changes; the event itself, with the up flag in
  bit 7, goes to the buffer for the interrupt routine, which is flagged.\<close>

theorem ADBKey_matrix:
  assumes len: "length (key_states a) = 16" and c: "c < 128" and d: "d < 128"
  shows "\<exists>down up. ADBKeyDown c a = Some down \<and> ADBKeyUp c a = Some up
     \<and> MATRIX down d = (d = c \<or> MATRIX a d) \<and> MATRIX up d = (d \<noteq> c \<and> MATRIX a d)
     \<and> pending down = pending (put_key_event (word_of_nat c) a)
     \<and> pending up = pending (put_key_event (word_of_nat c OR 0x80) a)
     \<and> adb_irq down \<and> adb_irq up"
proof -
  have i: "c div 8 < length (key_states a)" "d div 8 < length (key_states a)" using len c d by simp_all
  have pos: "(d = c) = (d div 8 = c div 8 \<and> 7 - d mod 8 = 7 - c mod 8)"
    using matrix_pos [of d c] by auto
  have m8: "7 - c mod 8 < 8" "7 - d mod 8 < 8" by simp_all
  obtain dn where dn: "ADBKeyDown c a = Some dn"
    "key_states dn = (key_states a)[c div 8 := key_states a ! (c div 8) OR key_mask c]"
    "adb_irq dn" "pending dn = pending (put_key_event (word_of_nat c) a)"
    using i by (simp add: ADBKeyDown_def Let_def pending_def)
  obtain up where up: "ADBKeyUp c a = Some up"
    "key_states up = (key_states a)[c div 8 := key_states a ! (c div 8) AND NOT (key_mask c)]"
    "adb_irq up" "pending up = pending (put_key_event (word_of_nat c OR 0x80) a)"
    using i by (simp add: ADBKeyUp_def Let_def pending_def)
  have "MATRIX dn d = (d = c \<or> MATRIX a d)"
    unfolding MATRIX_bit dn pos using i m8
    by (cases "d div 8 = c div 8") (auto simp: key_mask_def bit_simps)
  moreover have "MATRIX up d = (d \<noteq> c \<and> MATRIX a d)"
    unfolding MATRIX_bit up pos using i m8
    by (cases "d div 8 = c div 8") (auto simp: key_mask_def bit_simps)
  ultimately show ?thesis using dn up by blast
qed

theorem ADBKey_matrix_witness:
  "\<exists>down. ADBKeyDown 0x37 adb_start = Some down \<and> MATRIX down 0x37"
  using ADBKey_matrix [of adb_start "0x37" "0x37"] by (auto simp: adb_start_def)

section \<open>Register 2 of the keyboard\<close>

lemma bit_clear_if: "bit (clear_if c b w) n = (bit w n \<and> \<not> (c \<and> bit b n))" for w :: u8
  using bit_imp_le_length [of w n] by (auto simp: clear_if_def bit_simps)

text \<open>A Talk to register 2 of the keyboard, at whatever address the keyboard has been moved
  to (but not the mouse's), answers with two bytes. Each modifier key has its bit, which is
  clear exactly while the key is held; the low byte carries Num Lock, Scroll Lock and the
  three LED bits last written by a Listen.\<close>

theorem ADBOp_modifiers:
  assumes adr: "drop_bit 4 op = fst (key_reg_3 (adb_of s)) AND 0x0f"
    and other: "drop_bit 4 op \<noteq> fst (mouse_reg_3 (adb_of s)) AND 0x0f"
    and talk2: "op AND 0x0f = 0x0e"
  shows "let a = adb_of s; s' = ADBOp rnd op data s; hi = get8 s' (data + 1); lo = get8 s' (data + 2) in
     get8 s' data = 2 \<and> adb_of s' = a
     \<and> bit hi 0 = (\<not> MATRIX a 0x37) \<and> bit hi 1 = (\<not> MATRIX a 0x3a) \<and> bit hi 2 = (\<not> MATRIX a 0x38)
     \<and> bit hi 3 = (\<not> MATRIX a 0x36) \<and> bit hi 5 = (\<not> MATRIX a 0x39) \<and> bit hi 6 = (\<not> MATRIX a 0x75)
     \<and> bit lo 7 = (\<not> MATRIX a 0x47) \<and> bit lo 6 = (\<not> MATRIX a 0x6b)
     \<and> (\<forall>n < 3. bit lo n = bit (snd (key_reg_2 a)) n)"
proof -
  have op: "op AND 0x0f \<noteq> 0" "drop_bit 2 op AND 3 = 3" "op AND 3 = 2"
  proof -
    show "op AND 0x0f \<noteq> 0" using talk2 by simp
    have "drop_bit 2 op AND 3 = drop_bit 2 (op AND 0x0f)"
      by (rule bit_word_eqI) (auto simp: bit_simps bit_numeral_rec)
    then show "drop_bit 2 op AND 3 = 3" using talk2 by (simp add: drop_bit_eq_div)
    have "op AND 3 = (op AND 0x0f) AND 3" by (simp add: and.assoc)
    then show "op AND 3 = 2" using talk2 by simp
  qed
  let ?a = "adb_of s"
  have eq: "ADBOp rnd op data s = put_bytes data [2, modifiers_hi ?a, modifiers_lo ?a] s"
    using op adr other by (simp add: ADBOp_def Let_def key_talk_def)
  have b0: "get8 (ADBOp rnd op data s) data = 2"
    and b1: "get8 (ADBOp rnd op data s) (data + 1) = modifiers_hi ?a"
    and b2: "get8 (ADBOp rnd op data s) (data + 2) = modifiers_lo ?a"
    unfolding eq by (simp_all add: get8_put_bytes)
  have hi: "bit (modifiers_hi ?a) 0 = (\<not> MATRIX ?a 0x37)" "bit (modifiers_hi ?a) 1 = (\<not> MATRIX ?a 0x3a)"
    "bit (modifiers_hi ?a) 2 = (\<not> MATRIX ?a 0x38)" "bit (modifiers_hi ?a) 3 = (\<not> MATRIX ?a 0x36)"
    "bit (modifiers_hi ?a) 5 = (\<not> MATRIX ?a 0x39)" "bit (modifiers_hi ?a) 6 = (\<not> MATRIX ?a 0x75)"
    by (simp_all only: modifiers_hi_def bit_clear_if) (simp_all add: bit_numeral_rec)
  have lo: "bit (modifiers_lo ?a) 7 = (\<not> MATRIX ?a 0x47)" "bit (modifiers_lo ?a) 6 = (\<not> MATRIX ?a 0x6b)"
    by (simp_all only: modifiers_lo_def bit_clear_if bit_or_iff) (simp_all add: bit_numeral_rec)
  have led: "bit (modifiers_lo ?a) n = bit (snd (key_reg_2 ?a)) n" if "n < 3" for n
  proof -
    from that have "n = 0 \<or> n = 1 \<or> n = 2" by auto
    then show ?thesis
      by (elim disjE; simp only: modifiers_lo_def bit_clear_if bit_or_iff; simp add: bit_numeral_rec)
  qed
  show ?thesis
    unfolding Let_def b0 b1 b2 using hi lo led eq by simp
qed

definition demo_adb :: "unit adb_mac" where
  "demo_adb = \<lparr>mem = (\<lambda>_. 0), host = \<lparr>adb = adb_start, adb_os = ()\<rparr>, calls = []\<rparr>"

theorem ADBOp_modifiers_witness: "get8 (ADBOp 0 0x2e 0x1000 demo_adb) 0x1000 = 2"
  using ADBOp_modifiers [of "0x2e" demo_adb 0 "0x1000"]
  by (simp add: demo_adb_def adb_of_def adb_start_def Let_def drop_bit_eq_div)

section \<open>Delivery of key events\<close>

text \<open>
  \<open>handlers_quiet\<close>: the ADB handlers called leave the emulated devices and the keyboard's
  entry in the ADB globals alone.
\<close>

definition handlers_quiet :: "'h adb_host env68k \<Rightarrow> u32 \<Rightarrow> bool" where
  "handlers_quiet E adb_base \<longleftrightarrow> (\<forall>addr r m h. case run_code E addr r (m, h) of (r', m', h') \<Rightarrow>
     adb h' = adb h \<and> ReadMacInt32 m' (adb_base + 4) = ReadMacInt32 m (adb_base + 4))"

lemma Execute68k_handler:
  assumes "handlers_quiet E b"
  shows "adb_of (snd (Execute68k E a r s)) = adb_of s"
    and "get32 (snd (Execute68k E a r s)) (b + 4) = get32 s (b + 4)"
proof -
  obtain r' m' h' where x: "run_code E a r (mem s, host s) = (r', m', h')"
    by (metis prod.exhaust)
  with assms have "adb h' = adb (host s) \<and> ReadMacInt32 m' (b + 4) = ReadMacInt32 (mem s) (b + 4)"
    unfolding handlers_quiet_def by (metis (mono_tags, lifting) case_prod_conv)
  with x show "adb_of (snd (Execute68k E a r s)) = adb_of s"
    and "get32 (snd (Execute68k E a r s)) (b + 4) = get32 s (b + 4)"
    by (simp_all add: Execute68k_def adb_of_def mac_get_defs)
qed

text \<open>What the handler of a call finds: the routine called, and the three data bytes at A0.\<close>

definition handler_data :: "call68k \<Rightarrow> u32 \<times> u8 list" where
  "handler_data c = (callee c, mem_read (seen c) (areg (passed c) 0) 3)"

lemma send_key_step:
  assumes q: "handlers_quiet E b" and ok: "ring_ok (adb_of s)" and ne: "pending (adb_of s) \<noteq> []"
  obtains r' s' c where "send_key E b (r, s) = (r', s')" and "adb_of s' = pop_key (adb_of s)"
    and "calls s' = calls s @ [c]"
    and "handler_data c = (get32 s (b + 4), key_packet (hd (pending (adb_of s))))"
    and "get32 s' (b + 4) = get32 s (b + 4)"
proof -
  let ?p = "key_packet (next_key s)"
  let ?s1 = "put_bytes (b + 0x163) ?p (upd_adb pop_key s)"
  have hd: "next_key s = hd (pending (adb_of s))"
    using pending_pop(2) [OF ok ne] by (simp add: next_key_def)
  have len: "length ?p = 3" by (simp add: key_packet_def)
  have ap: "sep (b + 4) 4 (b + 0x163) (length ?p)" by (simp add: len sep_def)
  have entry: "get32 ?s1 (b + 4) = get32 s (b + 4)"
  proof -
    have "length ?p \<le> 2 ^ 32" and "?p \<noteq> []" by (simp_all add: key_packet_def)
    then show ?thesis by (subst get_put_bytes_word(2) [OF _ ap]) simp_all
  qed
  have data: "mem_read (mem ?s1) (b + 0x163) 3 = ?p"
    using mem_read_memcpy [of ?p "b + 0x163" "mem s"] by (simp add: len)
  let ?r = "set_d 0 (push_bit 4 (ucast (fst (key_reg_3 (adb_of ?s1)))) OR 0x0c) (set_a 3 b
     (set_a 2 (get32 ?s1 (b + 4 + 4)) (set_a 1 (get32 ?s1 (b + 4)) (set_a 0 (b + 0x163) r))))"
  have eq: "send_key E b (r, s) = Execute68k E (get32 ?s1 (b + 4)) ?r ?s1"
    by (simp add: send_key_def call_handler_def Let_def)
  show thesis
  proof
    show "send_key E b (r, s) = (fst (send_key E b (r, s)), snd (send_key E b (r, s)))" by simp
    show "adb_of (snd (send_key E b (r, s))) = pop_key (adb_of s)"
      unfolding eq Execute68k_handler(1) [OF q] by simp
    show "calls (snd (send_key E b (r, s))) = calls s @ [Routine (get32 ?s1 (b + 4)) ?r (mem ?s1)]"
      unfolding eq by simp
    show "handler_data (Routine (get32 ?s1 (b + 4)) ?r (mem ?s1)) =
        (get32 s (b + 4), key_packet (hd (pending (adb_of s))))"
      using data entry hd by (simp add: handler_data_def)
    show "get32 (snd (send_key E b (r, s))) (b + 4) = get32 s (b + 4)"
      unfolding eq Execute68k_handler(2) [OF q] by (rule entry)
  qed
qed

lemma drain_keys_all:
  assumes q: "handlers_quiet E b" and "ring_ok (adb_of s)"
  shows "\<exists>s'. drain_keys E b (r, s) = Some s' \<and> pending (adb_of s') = []
     \<and> (\<exists>cs. calls s' = calls s @ cs
          \<and> map handler_data cs = map (\<lambda>k. (get32 s (b + 4), key_packet k)) (pending (adb_of s)))"
  using assms(2)
proof (induction "pending (adb_of s)" arbitrary: r s)
  case Nil
  then have "length (pending (adb_of s)) = 0" by simp
  then have "key_read_ptr (adb_of s) = key_write_ptr (adb_of s)"
    using Nil.prems ring_dist [of "key_read_ptr (adb_of s)" "key_write_ptr (adb_of s)"]
    by (auto simp: pending_def ring_ok_def KEY_BUFFER_SIZE_def split: if_splits)
  then show ?case using Nil by (subst drain_keys.simps) simp
next
  case (Cons k ks)
  then have ne: "pending (adb_of s) \<noteq> []" by (metis list.distinct(1))
  then have rw: "key_read_ptr (adb_of s) \<noteq> key_write_ptr (adb_of s)"
    by (auto simp: pending_def KEY_BUFFER_SIZE_def)
  obtain r' s' c where step: "send_key E b (r, s) = (r', s')" "adb_of s' = pop_key (adb_of s)"
      "calls s' = calls s @ [c]" "handler_data c = (get32 s (b + 4), key_packet (hd (pending (adb_of s))))"
      "get32 s' (b + 4) = get32 s (b + 4)"
    using send_key_step [OF q Cons.prems ne] .
  have pend: "pending (adb_of s') = ks"
    using keys.pend_deq [OF Cons.prems ne] step(2) Cons.hyps(2) by (metis list.sel(3))
  have "ring_ok (adb_of s')" using keys.deq_ok [OF Cons.prems] step(2) by simp
  from Cons.hyps(1) [OF pend [symmetric] this, of r'] obtain t cs where
      t: "drain_keys E b (r', s') = Some t" "pending (adb_of t) = []" "calls t = calls s' @ cs"
      "map handler_data cs = map (\<lambda>k. (get32 s' (b + 4), key_packet k)) ks"
    using pend by auto
  have "drain_keys E b (r, s) = Some t"
    using rw step(1) t(1) by (subst drain_keys.simps) simp
  moreover have "calls t = calls s @ (c # cs)" using t(3) step(3) by simp
  moreover have "map handler_data (c # cs) = map (\<lambda>k. (get32 s (b + 4), key_packet k)) (pending (adb_of s))"
    using t(4) step(4,5) Cons.hyps(2) [symmetric] by simp
  ultimately show ?case using t(2) by blast
qed

text \<open>The mouse part of the interrupt does not touch the keyboard.\<close>

lemma adb_call_handler:
  "handlers_quiet E b \<Longrightarrow> adb_of (snd (call_handler E x dev g rs)) = adb_of (snd rs)"
  by (simp add: call_handler_def Let_def Execute68k_handler)

lemma send_mouse_keys:
  assumes "handlers_quiet E b"
  shows "pending (adb_of (snd (send_mouse E x pk mb rs))) = pending (adb_of (snd rs))
     \<and> ring_ok (adb_of (snd (send_mouse E x pk mb rs))) = ring_ok (adb_of (snd rs))"
  by (simp add: send_mouse_def save_buttons_def adb_call_handler [OF assms] pending_def ring_ok_def
      apsnd_def)

lemma mouse_interrupt_keys:
  assumes "handlers_quiet E b"
  shows "pending (adb_of (snd (mouse_interrupt E x rs))) = pending (adb_of (snd rs))
     \<and> ring_ok (adb_of (snd (mouse_interrupt E x rs))) = ring_ok (adb_of (snd rs))"
  using send_mouse_keys [OF assms]
  by (auto simp: mouse_interrupt_def Let_def move_absolute_def pending_def ring_ok_def split_beta)

text \<open>The key events, as the host delivers them: (up, code).\<close>

fun key_event :: "bool \<times> nat \<Rightarrow> adb_state \<Rightarrow> adb_state option" where
  "key_event (up, code) a = (if up then ADBKeyUp code a else ADBKeyDown code a)"

fun key_events :: "(bool \<times> nat) list \<Rightarrow> adb_state \<Rightarrow> adb_state option" where
  "key_events [] a = Some a"
| "key_events (e # es) a = Option.bind (key_event e a) (key_events es)"

definition event_byte :: "bool \<times> nat \<Rightarrow> u8" where
  "event_byte e = (if fst e then word_of_nat (snd e) OR 0x80 else word_of_nat (snd e))"

lemma key_event_ring:
  "key_event e a = Some a' \<Longrightarrow> pending a' = pending (put_key_event (event_byte e) a)
     \<and> ring_ok a' = ring_ok (put_key_event (event_byte e) a)
     \<and> key_buffer a' = key_buffer (put_key_event (event_byte e) a)
     \<and> key_read_ptr a' = key_read_ptr (put_key_event (event_byte e) a)
     \<and> key_write_ptr a' = key_write_ptr (put_key_event (event_byte e) a)"
  by (cases e) (auto simp: ADBKeyDown_def ADBKeyUp_def Let_def pending_def ring_ok_def event_byte_def
      split: if_splits)

definition same_ring :: "adb_state \<Rightarrow> adb_state \<Rightarrow> bool" where
  "same_ring a b \<longleftrightarrow> key_buffer a = key_buffer b \<and> key_read_ptr a = key_read_ptr b
     \<and> key_write_ptr a = key_write_ptr b"

lemma same_ring_pending: "same_ring a b \<Longrightarrow> pending a = pending b \<and> ring_ok a = ring_ok b"
  by (simp add: same_ring_def pending_def ring_ok_def)

lemma key_events_ring:
  "key_events es a = Some a' \<Longrightarrow> same_ring a b \<Longrightarrow>
     same_ring a' (fold put_key_event (map event_byte es) b)"
proof (induction es arbitrary: a b)
  case (Cons e es)
  from Cons.prems(1) obtain a1 where a1: "key_event e a = Some a1" "key_events es a1 = Some a'"
    by (auto simp: bind_eq_Some_conv)
  have "same_ring a1 (put_key_event (event_byte e) b)"
    using key_event_ring [OF a1(1)] Cons.prems(2) by (simp add: same_ring_def put_key_event_def)
  from Cons.IH [OF a1(2) this] show ?case by simp
qed simp

lemma key_events_pending:
  assumes "key_events es a = Some a'" and "ring_ok a"
  shows "ring_ok a'"
    and "length (pending a) + length es < KEY_BUFFER_SIZE \<Longrightarrow> pending a' = pending a @ map event_byte es"
    and "length (pending a) + length es = KEY_BUFFER_SIZE \<Longrightarrow> es \<noteq> [] \<Longrightarrow> pending a' = []"
proof -
  have "same_ring a' (fold put_key_event (map event_byte es) a)"
    using key_events_ring [OF assms(1)] by (simp add: same_ring_def)
  note r = same_ring_pending [OF this]
  show "ring_ok a'" using r keys.fold_enq_ok [OF assms(2)] by simp
  show "length (pending a) + length es < KEY_BUFFER_SIZE \<Longrightarrow> pending a' = pending a @ map event_byte es"
    using r keys.fifo [OF assms(2), of "map event_byte es"] by simp
  show "length (pending a) + length es = KEY_BUFFER_SIZE \<Longrightarrow> es \<noteq> [] \<Longrightarrow> pending a' = []"
    using r keys.overflow [OF assms(2), of "map event_byte es"] by simp
qed

lemma ADBInterrupt_sends_pending:
  assumes "b = get32 s 0xcf8" and "b \<noteq> 0" and "b \<noteq> 0xffffffff" and q: "handlers_quiet E b"
    and "ring_ok (adb_of s)"
  shows "\<exists>s' cs. ADBInterrupt E s = Some s' \<and> pending (adb_of s') = []
     \<and> (let s1 = snd (mouse_interrupt E b (stack_junk E, s)) in
        calls s' = calls s1 @ cs
        \<and> map handler_data cs = map (\<lambda>k. (get32 s1 (b + 4), key_packet k)) (pending (adb_of s)))"
proof -
  obtain r1 s1 where m: "mouse_interrupt E b (stack_junk E, s) = (r1, s1)" by force
  have k: "pending (adb_of s1) = pending (adb_of s)" "ring_ok (adb_of s1)"
    using mouse_interrupt_keys [OF q, of b "(stack_junk E, s)"] m assms(5) by simp_all
  from drain_keys_all [OF q k(2), of r1] obtain t cs where
    "drain_keys E b (r1, s1) = Some t" "pending (adb_of t) = []" "calls t = calls s1 @ cs"
    "map handler_data cs = map (\<lambda>x. (get32 s1 (b + 4), key_packet x)) (pending (adb_of s))"
    unfolding k by blast
  then show ?thesis
    using assms(1-3) m by (simp add: ADBInterrupt_def Let_def)
qed



text \<open>Concrete runs of both.\<close>

lemma key_events_some:
  "list_all (\<lambda>e. snd e < 128) es \<Longrightarrow> length (key_states a) = 16 \<Longrightarrow> key_events es a \<noteq> None"
proof (induction es arbitrary: a)
  case (Cons e es)
  obtain up c where e: "e = (up, c)" by force
  then have i: "c div 8 < 16" using Cons.prems by auto
  then obtain a1 where "key_event e a = Some a1" "length (key_states a1) = 16"
    using Cons.prems by (cases up) (simp_all add: e ADBKeyDown_def ADBKeyUp_def Let_def)
  with Cons show ?case by simp
qed simp

definition typed :: "(bool \<times> nat) list \<Rightarrow> unit adb_mac" where
  "typed es = \<lparr>mem = (\<lambda>a. if a = 0xcfa then 0x20 else if a = 0x2006 then 0x40 else 0),
     host = \<lparr>adb = the (key_events es adb_start), adb_os = ()\<rparr>, calls = []\<rparr>"

lemma typed_state:
  assumes "list_all (\<lambda>e. snd e < 128) es"
  shows "key_events es adb_start = Some (adb_of (typed es))" "get32 (typed es) 0xcf8 = 0x2000"
  using key_events_some [OF assms, of adb_start]
  by (auto simp: typed_def adb_of_def adb_start_def get32_def ReadMacInt32_def join32_def)

lemma adb_start_ring: "ring_ok adb_start" "pending adb_start = []"
  by (simp_all add: adb_start_def ring_ok_def pending_def KEY_BUFFER_SIZE_def)

lemma demo_quiet: "handlers_quiet demo_env b"
  by (simp add: handlers_quiet_def demo_env_def)



end
