(* ===== verification/SCSI.thy ===== *)
theory SCSI
  imports MacosUtil
begin

text \<open>
  "scsi.cpp": the old SCSI Manager, a state machine over the logical bus phases, and the
  interpreter of transfer instruction blocks (TIBs) that fills the scatter/gather table. The
  host's SCSI layer is the parameter record \<open>scsi_dev\<close>. A host address is modelled as its
  distance from MEMBaseDiff, so Mac2HostAddr() is \<open>unat\<close>; \<open>sg_index\<close> is the length of the
  list \<open>sg\<close>, whose entries are the used part of the two arrays. ErrorAlert() only shows a
  message.
\<close>

section \<open>State\<close>

abbreviation (input) scCommErr :: u16 where "scCommErr \<equiv> 2"
abbreviation (input) scBadParmsErr :: u16 where "scBadParmsErr \<equiv> 4"
abbreviation (input) scPhaseErr :: u16 where "scPhaseErr \<equiv> 5"
abbreviation (input) scCompareErr :: u16 where "scCompareErr \<equiv> 6"
abbreviation (input) scMgrBusyErr :: u16 where "scMgrBusyErr \<equiv> 7"
abbreviation (input) scSequenceErr :: u16 where "scSequenceErr \<equiv> 8"

abbreviation (input) scInc :: u16 where "scInc \<equiv> 1"
abbreviation (input) scNoInc :: u16 where "scNoInc \<equiv> 2"
abbreviation (input) scAdd :: u16 where "scAdd \<equiv> 3"
abbreviation (input) scMove :: u16 where "scMove \<equiv> 4"
abbreviation (input) scLoop :: u16 where "scLoop \<equiv> 5"
abbreviation (input) scNop :: u16 where "scNop \<equiv> 6"
abbreviation (input) scStop :: u16 where "scStop \<equiv> 7"
abbreviation (input) scComp :: u16 where "scComp \<equiv> 8"

datatype scsi_phase = PH_FREE | PH_ARBITRATED | PH_SELECTED | PH_TRANSFER

record scsi_state =
  target_id :: int
  phase :: scsi_phase
  fake_status :: u16
  reading :: bool
  sg :: "(nat \<times> u32) list"
  sg_total_length :: u32

definition SG_TABLE_SIZE :: nat where
  "SG_TABLE_SIZE = 1024"

definition scsi_start :: scsi_state where
  "scsi_start = \<lparr>target_id = 0, phase = PH_FREE, fake_status = 0, reading = False, sg = [],
     sg_total_length = 0\<rparr>"

text \<open>The host's SCSI layer. \<open>send_cmd\<close> moves the data of the scatter/gather list.\<close>

record 'h scsi_dev =
  is_target_present :: "'h \<Rightarrow> int \<Rightarrow> bool"
  set_cmd :: "u8 list \<Rightarrow> 'h \<Rightarrow> 'h"
  set_target :: "int \<Rightarrow> u8 \<Rightarrow> 'h \<Rightarrow> bool \<times> 'h"
  send_cmd :: "u32 \<Rightarrow> bool \<Rightarrow> (nat \<times> u32) list \<Rightarrow> u32 \<Rightarrow> mem \<times> 'h \<Rightarrow> bool \<times> u16 \<times> mem \<times> 'h"

section \<open>Transfer instruction blocks\<close>

definition Mac2HostAddr :: "u32 \<Rightarrow> nat" where
  "Mac2HostAddr p = unat p"

text \<open>The body of scNoInc: merge with the previous entry or make a new one.\<close>

definition add_sg :: "u32 \<Rightarrow> u32 \<Rightarrow> scsi_state \<Rightarrow> scsi_state option" where
  "add_sg ptr len sc =
     (if sg sc \<noteq> [] \<and> Mac2HostAddr ptr = fst (last (sg sc)) + unat (snd (last (sg sc))) then
        Some (sc\<lparr>sg := butlast (sg sc) @ [(fst (last (sg sc)), snd (last (sg sc)) + len)],
                 sg_total_length := sg_total_length sc + len\<rparr>)
      else if length (sg sc) = SG_TABLE_SIZE then None
      else Some (sc\<lparr>sg := sg sc @ [(Mac2HostAddr ptr, len)],
                    sg_total_length := sg_total_length sc + len\<rparr>))"

text \<open>One instruction: the result of exec_tib(), or the address of the next instruction.\<close>

definition tib_step :: "u32 \<Rightarrow> scsi_state \<Rightarrow> 'h mac \<Rightarrow> (u16 + u32) \<times> scsi_state \<times> 'h mac" where
  "tib_step start sc s =
     (let cmd = get16 s start; ptr = get32 s (start + 2); len = get32 s (start + 6); tib = start + 10 in
      if cmd = scInc \<or> cmd = scNoInc then
        (let s1 = (if cmd = scInc then put32 (tib - 8) (ptr + len) s else s) in
         case add_sg ptr len sc of None \<Rightarrow> (Inl memFullErr, sc, s1) | Some sc1 \<Rightarrow> (Inr tib, sc1, s1))
      else if cmd = scAdd then (Inr tib, sc, put32 ptr (get32 s ptr + len) s)
      else if cmd = scMove then (Inr tib, sc, put32 len (get32 s ptr) s)
      else if cmd = scLoop then
        (Inr (if len - 1 > 0 then tib + ptr - 10 else tib), sc, put32 (tib - 4) (len - 1) s)
      else if cmd = scNop then (Inr tib, sc, s)
      else if cmd = scStop then (Inl 0, sc, s)
      else if cmd = scComp then (Inl scCompareErr, sc, s)
      else (Inl scBadParmsErr, sc, s))"

partial_function (option) exec_tib ::
  "u32 \<Rightarrow> scsi_state \<Rightarrow> 'h mac \<Rightarrow> (u16 \<times> scsi_state \<times> 'h mac) option" where
  "exec_tib tib sc s =
     (case tib_step tib sc s of
        (Inl err, sc1, s1) \<Rightarrow> Some (err, sc1, s1)
      | (Inr tib1, sc1, s1) \<Rightarrow> exec_tib tib1 sc1 s1)"

section \<open>Operations\<close>

type_synonym 'h scsi_res = "u16 \<times> scsi_state \<times> 'h mac"

definition SCSIReset :: "scsi_state \<Rightarrow> u16 \<times> scsi_state" where
  "SCSIReset sc = (0, sc\<lparr>phase := PH_FREE, fake_status := 0x0000, sg := [], target_id := 8\<rparr>)"

definition SCSIGet :: "scsi_state \<Rightarrow> u16 \<times> scsi_state" where
  "SCSIGet sc =
     (if phase sc \<noteq> PH_FREE then (scMgrBusyErr, sc)
      else (0, sc\<lparr>phase := PH_ARBITRATED, fake_status := 0x0040, reading := False, sg := [],
                  sg_total_length := 0\<rparr>))"

definition SCSISelect :: "'h scsi_dev \<Rightarrow> 'h \<Rightarrow> int \<Rightarrow> scsi_state \<Rightarrow> u16 \<times> scsi_state" where
  "SCSISelect D h i sc =
     (if phase sc \<noteq> PH_ARBITRATED then (scSequenceErr, sc)
      else if i < 0 \<or> i > 7 then (scBadParmsErr, sc)
      else if \<not> is_target_present D h i then
        (scCommErr, sc\<lparr>target_id := i, phase := PH_FREE, fake_status := 0x0000\<rparr>)
      else (0, sc\<lparr>target_id := i, phase := PH_SELECTED, fake_status := 0x006a\<rparr>))"

definition SCSICmd ::
  "'h scsi_dev \<Rightarrow> int \<Rightarrow> u32 \<Rightarrow> scsi_state \<Rightarrow> 'h mac \<Rightarrow> 'h scsi_res" where
  "SCSICmd D cmd_length cmd sc s =
     (if phase sc \<noteq> PH_SELECTED then (scPhaseErr, sc, s)
      else if cmd_length \<noteq> 6 \<and> cmd_length \<noteq> 10 \<and> cmd_length \<noteq> 12 then (scBadParmsErr, sc, s)
      else
        (let h1 = set_cmd D (get_bytes s cmd (nat cmd_length)) (host s);
             (found, h2) = set_target D (target_id sc) (drop_bit 5 (get8 s (cmd + 1)) AND 7) h1;
             s2 = s\<lparr>host := h2\<rparr>
         in if \<not> found then (scCommErr, sc\<lparr>phase := PH_FREE, fake_status := 0x0000\<rparr>, s2)
            else (0, sc\<lparr>phase := PH_TRANSFER, fake_status := 0x006e\<rparr>, s2)))"

definition SCSIRead :: "u32 \<Rightarrow> scsi_state \<Rightarrow> 'h mac \<Rightarrow> 'h scsi_res option" where
  "SCSIRead tib sc s =
     (if phase sc \<noteq> PH_TRANSFER then Some (scPhaseErr, sc, s)
      else exec_tib tib (sc\<lparr>reading := True\<rparr>) s)"

definition SCSIWrite :: "u32 \<Rightarrow> scsi_state \<Rightarrow> 'h mac \<Rightarrow> 'h scsi_res option" where
  "SCSIWrite tib sc s =
     (if phase sc \<noteq> PH_TRANSFER then Some (scPhaseErr, sc, s) else exec_tib tib sc s)"

definition SCSIComplete ::
  "'h scsi_dev \<Rightarrow> u32 \<Rightarrow> u32 \<Rightarrow> u32 \<Rightarrow> scsi_state \<Rightarrow> 'h mac \<Rightarrow> 'h scsi_res" where
  "SCSIComplete D timeout message stat sc s =
     (let s1 = put16 message 0 s in
      if phase sc \<noteq> PH_TRANSFER then (scPhaseErr, sc, s1)
      else
        (let (success, scsi_stat, m', h') =
               send_cmd D (sg_total_length sc) (reading sc) (sg sc) timeout (mem s1, host s1);
             s2 = put16 stat scsi_stat (s1\<lparr>mem := m', host := h'\<rparr>)
         in (if success then 0 else scCommErr, sc\<lparr>phase := PH_FREE, fake_status := 0x0000\<rparr>, s2)))"

definition SCSIStat :: "scsi_state \<Rightarrow> u16" where
  "SCSIStat sc = fake_status sc"

definition SCSIMgrBusy :: "scsi_state \<Rightarrow> u16" where
  "SCSIMgrBusy sc = (if phase sc \<noteq> PH_FREE then 1 else 0)"

section \<open>The state machine\<close>

text \<open>
  Every call a client can make, as a step relation on the manager's state and the machine;
  between two calls Mac memory and the host may change in any way.
\<close>

inductive scsi_step :: "'h scsi_dev \<Rightarrow> scsi_state \<Rightarrow> scsi_state \<Rightarrow> bool" for D where
  do_reset: "SCSIReset sc = (e, sc') \<Longrightarrow> scsi_step D sc sc'"
| do_get: "SCSIGet sc = (e, sc') \<Longrightarrow> scsi_step D sc sc'"
| do_select: "SCSISelect D h i sc = (e, sc') \<Longrightarrow> scsi_step D sc sc'"
| do_cmd: "SCSICmd D n c sc s = (e, sc', s') \<Longrightarrow> scsi_step D sc sc'"
| do_read: "SCSIRead tib sc (s :: 'h mac) = Some (e, sc', s') \<Longrightarrow> scsi_step D sc sc'"
| do_write: "SCSIWrite tib sc (s :: 'h mac) = Some (e, sc', s') \<Longrightarrow> scsi_step D sc sc'"
| do_complete: "SCSIComplete D t m st sc s = (e, sc', s') \<Longrightarrow> scsi_step D sc sc'"

inductive_cases scsi_stepE: "scsi_step D sc sc'"

inductive scsi_reach :: "'h scsi_dev \<Rightarrow> scsi_state \<Rightarrow> bool" for D where
  at_start: "scsi_reach D scsi_start"
| one_more: "scsi_reach D sc \<Longrightarrow> scsi_step D sc sc' \<Longrightarrow> scsi_reach D sc'"

fun status_of :: "scsi_phase \<Rightarrow> u16" where
  "status_of PH_FREE = 0x0000"
| "status_of PH_ARBITRATED = 0x0040"
| "status_of PH_SELECTED = 0x006a"
| "status_of PH_TRANSFER = 0x006e"

definition sg_sum :: "(nat \<times> u32) list \<Rightarrow> u32" where
  "sg_sum xs = sum_list (map snd xs)"

definition scsi_inv :: "scsi_state \<Rightarrow> bool" where
  "scsi_inv sc \<longleftrightarrow> fake_status sc = status_of (phase sc)
     \<and> length (sg sc) \<le> SG_TABLE_SIZE
     \<and> (phase sc \<noteq> PH_FREE \<longrightarrow> sg_total_length sc = sg_sum (sg sc))
     \<and> (phase sc \<in> {PH_SELECTED, PH_TRANSFER} \<longrightarrow> 0 \<le> target_id sc \<and> target_id sc \<le> 7)"

lemma add_sg_frame:
  "add_sg p l sc = Some sc' \<Longrightarrow> phase sc' = phase sc \<and> fake_status sc' = fake_status sc
     \<and> target_id sc' = target_id sc \<and> reading sc' = reading sc"
  by (auto simp: add_sg_def split: if_splits)

lemma add_sg_sum:
  assumes "add_sg p l sc = Some sc'" and "sg_total_length sc = sg_sum (sg sc)"
  shows "sg_total_length sc' = sg_sum (sg sc')"
proof (cases "sg sc" rule: rev_cases)
  case Nil
  with assms show ?thesis by (auto simp: add_sg_def sg_sum_def split: if_splits)
next
  case (snoc xs x)
  with assms show ?thesis by (auto simp: add_sg_def sg_sum_def split: if_splits)
qed

lemma add_sg_length:
  "add_sg p l sc = Some sc' \<Longrightarrow> length (sg sc) \<le> SG_TABLE_SIZE \<Longrightarrow> length (sg sc') \<le> SG_TABLE_SIZE"
  by (auto simp: add_sg_def split: if_splits)

lemma add_sg_inv: "add_sg p l sc = Some sc' \<Longrightarrow> scsi_inv sc \<Longrightarrow> scsi_inv sc'"
  using add_sg_frame [of p l sc sc'] add_sg_sum [of p l sc sc'] add_sg_length [of p l sc sc']
  by (auto simp: scsi_inv_def)

lemma tib_step_inv:
  assumes "tib_step t sc s = (r, sc', s')" and "scsi_inv sc"
  shows "scsi_inv sc' \<and> phase sc' = phase sc \<and> target_id sc' = target_id sc \<and> reading sc' = reading sc"
proof -
  have "sc' = sc \<or> (\<exists>p l. add_sg p l sc = Some sc')"
    using assms(1) by (auto simp: tib_step_def Let_def split: if_splits option.splits)
  then show ?thesis using add_sg_inv add_sg_frame assms(2) by blast
qed

definition tib_kept :: "scsi_state \<Rightarrow> scsi_state \<Rightarrow> bool" where
  "tib_kept sc sc' \<longleftrightarrow> (scsi_inv sc \<longrightarrow> scsi_inv sc' \<and> phase sc' = phase sc
     \<and> target_id sc' = target_id sc \<and> reading sc' = reading sc)"

lemma exec_tib_kept:
  assumes "exec_tib t sc s = Some r"
  shows "tib_kept sc (fst (snd r))"
proof (rule exec_tib.raw_induct [where P = "\<lambda>t sc s r. tib_kept sc (fst (snd r))", OF _ assms],
    goal_cases)
  case (1 ex t sc s r)
  obtain o1 sc1 s1 where st: "tib_step t sc s = (o1, sc1, s1)" by (metis prod.exhaust)
  note keep = tib_step_inv [OF st]
  show ?case
  proof (cases o1)
    case (Inl e)
    with 1 st keep show ?thesis by (auto simp: tib_kept_def)
  next
    case (Inr b)
    with 1(2) st have "ex b sc1 s1 = Some r" by simp
    then have "tib_kept sc1 (fst (snd r))" by (rule 1(1))
    with keep show ?thesis by (simp add: tib_kept_def)
  qed
qed

lemma exec_tib_inv:
  "exec_tib t sc s = Some (e, sc', s') \<Longrightarrow> scsi_inv sc \<Longrightarrow>
     scsi_inv sc' \<and> phase sc' = phase sc \<and> target_id sc' = target_id sc \<and> reading sc' = reading sc"
  using exec_tib_kept [of t sc s "(e, sc', s')"] by (simp add: tib_kept_def)

lemma scsi_step_inv: "scsi_step D sc sc' \<Longrightarrow> scsi_inv sc \<Longrightarrow> scsi_inv sc'"
proof (erule scsi_stepE, goal_cases)
  case 1
  then show ?case by (auto simp: SCSIReset_def scsi_inv_def)
next
  case 2
  then show ?case by (auto simp: SCSIGet_def scsi_inv_def sg_sum_def split: if_splits)
next
  case 3
  then show ?case by (auto simp: SCSISelect_def scsi_inv_def split: if_splits)
next
  case 4
  then show ?case by (auto simp: SCSICmd_def scsi_inv_def Let_def split: if_splits prod.splits)
next
  case (5 tib s e s')
  have "scsi_inv (sc\<lparr>reading := True\<rparr>)" using 5 by (simp add: scsi_inv_def)
  then show ?case using 5 exec_tib_inv by (fastforce simp: SCSIRead_def split: if_splits)
next
  case 6
  then show ?case using exec_tib_inv by (fastforce simp: SCSIWrite_def split: if_splits)
next
  case 7
  then show ?case by (auto simp: SCSIComplete_def scsi_inv_def Let_def split: if_splits prod.splits)
qed

text \<open>C11. In every state the SCSI Manager can reach, by any sequence of its calls on any target
  and any TIB: the faked bus status is the one of the current phase, the scatter/gather table
  is within its 1024 entries, the total length is the sum of the entries' lengths (in 32
  bits) from the arbitration on, and a valid target is selected in the command and data
  phases.\<close>

theorem scsi_reach_inv: "scsi_reach D sc \<Longrightarrow> scsi_inv sc"
proof (induction rule: scsi_reach.induct)
  case at_start
  then show ?case by (simp add: scsi_start_def scsi_inv_def)
next
  case (one_more sc sc')
  then show ?case using scsi_step_inv by blast
qed

definition no_targets :: "unit scsi_dev" where
  "no_targets = \<lparr>is_target_present = (\<lambda>h i. i = 3), set_cmd = (\<lambda>c h. h), set_target = (\<lambda>i l h. (True, h)),
     send_cmd = (\<lambda>n rd t w x. (True, 0, x))\<rparr>"

lemma demo_selected:
  "scsi_reach no_targets (scsi_start\<lparr>target_id := 3, phase := PH_SELECTED, fake_status := 0x6a\<rparr>)"
proof -
  have "SCSIGet scsi_start = (0, scsi_start\<lparr>phase := PH_ARBITRATED, fake_status := 0x40\<rparr>)"
    by (simp add: SCSIGet_def scsi_start_def)
  from scsi_reach.one_more [OF scsi_reach.at_start scsi_step.do_get [OF this], of no_targets]
  have "scsi_reach no_targets (scsi_start\<lparr>phase := PH_ARBITRATED, fake_status := 0x40\<rparr>)" .
  moreover have "SCSISelect no_targets () 3 (scsi_start\<lparr>phase := PH_ARBITRATED, fake_status := 0x40\<rparr>)
      = (0, scsi_start\<lparr>target_id := 3, phase := PH_SELECTED, fake_status := 0x6a\<rparr>)"
    by (simp add: SCSISelect_def scsi_start_def no_targets_def)
  ultimately show ?thesis by (blast intro: scsi_reach.one_more scsi_step.do_select)
qed

theorem scsi_reach_inv_witness:
  "scsi_inv (scsi_start\<lparr>target_id := 3, phase := PH_SELECTED, fake_status := 0x6a\<rparr>)"
  by (rule scsi_reach_inv [OF demo_selected])

section \<open>A transfer loop\<close>

text \<open>The usual TIB for \<open>k\<close> blocks of \<open>n\<close> bytes: scInc, a scLoop back to it, scStop.\<close>

definition loop_tib :: "'h mac \<Rightarrow> u32 \<Rightarrow> u32 \<Rightarrow> u32 \<Rightarrow> u32 \<Rightarrow> bool" where
  "loop_tib s t buf n k \<longleftrightarrow>
     get16 s t = scInc \<and> get32 s (t + 2) = buf \<and> get32 s (t + 6) = n
     \<and> get16 s (t + 10) = scLoop \<and> get32 s (t + 12) = - 10 \<and> get32 s (t + 16) = k
     \<and> get16 s (t + 20) = scStop"

definition after_round :: "u32 \<Rightarrow> u32 \<Rightarrow> u32 \<Rightarrow> u32 \<Rightarrow> 'h mac \<Rightarrow> 'h mac" where
  "after_round t buf n k s = put32 (t + 16) (k - 1) (put32 (t + 2) (buf + n) s)"

lemma loop_tib_after: "loop_tib s t buf n k \<Longrightarrow> loop_tib (after_round t buf n k s) t (buf + n) n (k - 1)"
  by (simp add: loop_tib_def after_round_def mac_mem sep_def)

lemma tib_step_loop:
  assumes "get16 s u = scLoop"
  shows "tib_step u sc s =
    (Inr (if get32 s (u + 6) - 1 > 0 then u + get32 s (u + 2) else u + 10), sc,
     put32 (u + 6) (get32 s (u + 6) - 1) s)"
proof -
  have "u + 10 - 4 = u + 6" "u + 10 + p - 10 = u + p" for p by simp_all
  note adr = this
  show ?thesis unfolding tib_step_def Let_def assms adr by simp
qed

lemma loop_tib_round:
  assumes p: "loop_tib s t buf n k" and a: "add_sg buf n sc = Some sc1"
  shows "exec_tib t sc s =
     (if k - 1 > 0 then exec_tib t sc1 (after_round t buf n k s)
      else Some (0, sc1, after_round t buf n k s))"
proof -
  let ?s1 = "put32 (t + 2) (buf + n) s"
  have s1: "tib_step t sc s = (Inr (t + 10), sc1, ?s1)"
    using p a by (simp add: tib_step_def loop_tib_def Let_def add.commute)
  have w: "get16 ?s1 (t + 10) = scLoop" "get32 ?s1 (t + 12) = - 10" "get32 ?s1 (t + 16) = k"
    using p by (simp_all add: loop_tib_def mac_mem sep_def)
  have adr: "t + 10 + 2 = t + 12" "t + 10 + 6 = t + 16" "t + 10 + 10 = t + 20" "t + 10 + - 10 = t"
    by simp_all
  have s2: "tib_step (t + 10) sc1 ?s1 =
      (Inr (if k - 1 > 0 then t else t + 20), sc1, after_round t buf n k s)"
    unfolding tib_step_loop [OF w(1)] adr w after_round_def ..
  have s3: "tib_step (t + 20) sc1 (after_round t buf n k s) = (Inl 0, sc1, after_round t buf n k s)"
    using loop_tib_after [OF p] by (simp add: tib_step_def loop_tib_def Let_def)
  have "exec_tib t sc s = exec_tib (t + 10) sc1 ?s1"
    by (subst exec_tib.simps) (simp add: s1)
  also have "\<dots> = exec_tib (if k - 1 > 0 then t else t + 20) sc1 (after_round t buf n k s)"
    by (subst exec_tib.simps) (simp only: s2 prod.case sum.case)
  finally show ?thesis
    using s3 by (simp add: exec_tib.simps [of "t + 20"])
qed

lemma add_sg_merge:
  "sg sc = [(a, l)] \<Longrightarrow> a + unat l = unat buf \<Longrightarrow>
     add_sg buf n sc = Some (sc\<lparr>sg := [(a, l + n)], sg_total_length := sg_total_length sc + n\<rparr>)"
  by (simp add: add_sg_def Mac2HostAddr_def)

lemma unat_add_u32: "unat x + unat y < 2 ^ 32 \<Longrightarrow> unat (x + y) = unat x + unat y" for x y :: u32
  by (simp add: unat_word_ariths)

lemma loop_tib_merges:
  assumes "loop_tib s t buf n (word_of_nat (Suc m))" and "Suc m < 2 ^ 32"
    and "sg sc = [(a, l)]" and "a + unat l = unat buf" and "unat buf + Suc m * unat n < 2 ^ 32"
  shows "\<exists>s'. exec_tib t sc s =
     Some (0, sc\<lparr>sg := [(a, l + word_of_nat (Suc m) * n)],
                  sg_total_length := sg_total_length sc + word_of_nat (Suc m) * n\<rparr>, s')"
  using assms
proof (induction m arbitrary: s buf l sc)
  case 0
  then show ?case by (simp add: loop_tib_round [OF 0(1) add_sg_merge])
next
  case (Suc m)
  let ?k = "word_of_nat (Suc (Suc m)) :: u32"
  let ?sc = "sc\<lparr>sg := [(a, l + n)], sg_total_length := sg_total_length sc + n\<rparr>"
  have k: "?k - 1 = word_of_nat (Suc m)" by simp
  have pos: "?k - 1 > 0"
    unfolding k using Suc.prems(2) unat_word_of_nat [of "Suc m"] by (simp add: word_less_nat_alt del: of_nat_Suc)
  have bn: "unat (buf + n) = unat buf + unat n" and ln: "unat (l + n) = unat l + unat n"
    using Suc.prems(4,5) by (auto intro!: unat_add_u32)
  have "\<exists>s'. exec_tib t ?sc (after_round t buf n ?k s) =
     Some (0, ?sc\<lparr>sg := [(a, l + n + word_of_nat (Suc m) * n)],
                  sg_total_length := sg_total_length ?sc + word_of_nat (Suc m) * n\<rparr>, s')"
  proof (rule Suc.IH)
    show "loop_tib (after_round t buf n ?k s) t (buf + n) n (word_of_nat (Suc m))"
      using loop_tib_after [OF Suc.prems(1)] unfolding k .
  qed (use Suc.prems bn ln in \<open>auto simp: algebra_simps\<close>)
  then show ?case
    using loop_tib_round [OF Suc.prems(1) add_sg_merge [OF Suc.prems(3,4)]] pos
    by (simp add: algebra_simps)
qed

text \<open>A read with the usual transfer TIB (scInc, scLoop, scStop) for \<open>k\<close> blocks of \<open>n\<close> bytes
  comes to an end, whatever the count, and yields one scatter/gather entry for the whole
  contiguous buffer: \<open>k * n\<close> bytes from its start, which is also the total length.\<close>

theorem SCSIRead_loop:
  assumes "phase sc = PH_TRANSFER" and "sg sc = []" and "sg_total_length sc = 0"
    and "loop_tib s t buf n k" and "k \<noteq> 0" and "unat buf + unat k * unat n < 2 ^ 32"
  shows "\<exists>sc' s'. SCSIRead t sc s = Some (noErr, sc', s')
     \<and> sg sc' = [(Mac2HostAddr buf, k * n)] \<and> sg_total_length sc' = k * n
     \<and> phase sc' = PH_TRANSFER \<and> reading sc'"
proof -
  let ?sc = "sc\<lparr>reading := True\<rparr>"
  let ?sc1 = "?sc\<lparr>sg := [(unat buf, n)], sg_total_length := n\<rparr>"
  have a: "add_sg buf n ?sc = Some ?sc1"
    using assms by (simp add: add_sg_def SG_TABLE_SIZE_def Mac2HostAddr_def)
  have "unat k \<noteq> 0" using assms(5) by (simp add: word_unat_eq_iff)
  then obtain m where m: "unat k = Suc m" by (cases "unat k") auto
  have k: "k = word_of_nat (Suc m)" using m by (metis of_nat_unat ucast_id)
  have "unat k < 2 ^ LENGTH(32)" by (rule unsigned_less)
  then have k32: "unat k < 2 ^ 32" by simp
  note round = loop_tib_round [OF assms(4) a]
  show ?thesis
  proof (cases m)
    case 0
    then have "exec_tib t ?sc s = Some (0, ?sc1, after_round t buf n k s)"
      unfolding round using k by simp
    then show ?thesis
      using assms k 0 by (simp add: SCSIRead_def Mac2HostAddr_def)
  next
    case (Suc j)
    have k1: "k - 1 = word_of_nat (Suc j)" using k Suc by simp
    have lt: "Suc j < 2 ^ 32" using m Suc k32 by simp
    then have pos: "k - 1 > 0"
      unfolding k1 using unat_word_of_nat [of "Suc j"] by (simp add: word_less_nat_alt del: of_nat_Suc)
    have bn: "unat (buf + n) = unat buf + unat n"
      using assms(6) m by (auto intro!: unat_add_u32)
    have "loop_tib (after_round t buf n k s) t (buf + n) n (word_of_nat (Suc j))"
      using loop_tib_after [OF assms(4)] unfolding k1 .
    from loop_tib_merges [OF this lt, of ?sc1 "unat buf" n] obtain s' where
      "exec_tib t ?sc1 (after_round t buf n k s) = Some (0, ?sc1\<lparr>sg := [(unat buf, n + word_of_nat (Suc j) * n)],
         sg_total_length := n + word_of_nat (Suc j) * n\<rparr>, s')"
      using bn assms(6) m Suc by (auto simp: algebra_simps)
    then have "exec_tib t ?sc s = Some (0, ?sc1\<lparr>sg := [(unat buf, n + word_of_nat (Suc j) * n)],
         sg_total_length := n + word_of_nat (Suc j) * n\<rparr>, s')"
      unfolding round using pos by simp
    moreover have "n + word_of_nat (Suc j) * n = k * n" using k Suc by (simp add: algebra_simps)
    ultimately show ?thesis
      using assms by (simp add: SCSIRead_def Mac2HostAddr_def)
  qed
qed

definition demo_tib :: "unit mac" where
  "demo_tib = put16 0x1014 scStop (put32 0x1010 3 (put32 0x100c (- 10) (put16 0x100a scLoop
     (put32 0x1006 512 (put32 0x1002 0x8000 (put16 0x1000 scInc
       \<lparr>mem = (\<lambda>_. 0), host = (), calls = []\<rparr>))))))"

theorem SCSIRead_loop_witness:
  "\<exists>sc' s'. SCSIRead 0x1000 (scsi_start\<lparr>phase := PH_TRANSFER\<rparr>) demo_tib = Some (noErr, sc', s')
     \<and> sg sc' = [(0x8000, 1536)]"
proof -
  have "loop_tib demo_tib 0x1000 0x8000 512 3"
    by (simp add: loop_tib_def demo_tib_def mac_mem sep_def)
  then show ?thesis
    using SCSIRead_loop [of "scsi_start\<lparr>phase := PH_TRANSFER\<rparr>" demo_tib "0x1000" "0x8000" 512 3]
    by (auto simp: scsi_start_def Mac2HostAddr_def)
qed

section \<open>A session\<close>

text \<open>A whole read session: SCSIGet, SCSISelect of a present target, SCSICmd with a command
  of a valid length and SCSIRead with the usual TIB all succeed, and SCSIComplete then hands
  the host one transfer of the whole buffer in the read direction, reports the host's
  success as its result and leaves the bus free.\<close>

theorem SCSI_read_session:
  assumes free: "phase sc = PH_FREE" and i: "0 \<le> i" "i \<le> 7" "is_target_present D (host s) i"
    and n: "n = 6 \<or> n = 10 \<or> n = 12"
    and lun: "set_target D i (drop_bit 5 (get8 s (c + 1)) AND 7)
                (set_cmd D (get_bytes s c (nat n)) (host s)) = (True, h2)"
    and p: "loop_tib s t buf len k" "k \<noteq> 0" "unat buf + unat k * unat len < 2 ^ 32"
  shows "\<exists>sc3 s3 sc4 s4.
     SCSICmd D n c (snd (SCSISelect D (host s) i (snd (SCSIGet sc)))) s = (noErr, sc3, s3)
     \<and> SCSIRead t sc3 s3 = Some (noErr, sc4, s4)
     \<and> (let (err, sc5, s5) = SCSIComplete D timeout msg st sc4 s4 in
        err = (if fst (send_cmd D (k * len) True [(Mac2HostAddr buf, k * len)] timeout
                         (mem (put16 msg 0 s4), host s4)) then noErr else scCommErr)
        \<and> phase sc5 = PH_FREE \<and> SCSIStat sc5 = 0)"
proof -
  let ?sc3 = "sc\<lparr>phase := PH_TRANSFER, fake_status := 0x6e, reading := False, sg := [],
     sg_total_length := 0, target_id := i\<rparr>"
  let ?s3 = "s\<lparr>host := h2\<rparr>"
  have c: "SCSICmd D n c (snd (SCSISelect D (host s) i (snd (SCSIGet sc)))) s = (noErr, ?sc3, ?s3)"
    using free i n lun by (auto simp: SCSIGet_def SCSISelect_def SCSICmd_def Let_def)
  have "loop_tib ?s3 t buf len k" using p(1) by (simp add: loop_tib_def mac_get_defs)
  from SCSIRead_loop [OF _ _ _ this p(2,3), of ?sc3] obtain sc4 s4 where
    r: "SCSIRead t ?sc3 ?s3 = Some (noErr, sc4, s4)" "sg sc4 = [(Mac2HostAddr buf, k * len)]"
    "sg_total_length sc4 = k * len" "phase sc4 = PH_TRANSFER" "reading sc4" by auto
  show ?thesis
    using c r by (auto simp: SCSIComplete_def SCSIStat_def Let_def split: prod.splits)
qed

theorem SCSI_read_session_witness:
  "\<exists>sc4 s4. SCSIRead 0x1000 (scsi_start\<lparr>phase := PH_TRANSFER, fake_status := 0x6e, target_id := 3\<rparr>)
     demo_tib = Some (noErr, sc4, s4)"
proof -
  have tib: "loop_tib demo_tib 0x1000 0x8000 512 3"
    by (simp add: loop_tib_def demo_tib_def mac_mem sep_def)
  have "demo_tib\<lparr>host := ()\<rparr> = demo_tib" by (rule mac.equality) simp_all
  note dt = this
  then show ?thesis
    using SCSI_read_session [of scsi_start 3 no_targets demo_tib 6 "0x2000" "()" "0x1000" "0x8000" 512 3 0 0 0]
      tib by (auto simp: dt scsi_start_def no_targets_def SCSICmd_def SCSISelect_def SCSIGet_def)
qed

end
