(* ===== verification/Prefs.thy ===== *)
theory Prefs
  imports Prelude
begin

text \<open>
  "prefs.cpp" and "prefs_items.cpp": the preferences. The linked list \<open>the_prefs\<close> is a list of
  nodes, a position in it stands for a node pointer; C strings are HOL strings. A text
  stream is the string of its characters. The descriptors and defaults of the platform and
  the file that LoadPrefs() opens are arguments. Memory allocation does not fail; messages to
  the terminal are not modelled.
\<close>

section \<open>Descriptors and nodes\<close>

datatype prefs_type = TYPE_STRING | TYPE_BOOLEAN | TYPE_INT32 | TYPE_ANY

datatype prefs_data = StringData string | BoolData bool | Int32Data u32

record prefs_node =
  pname :: string
  pdata :: prefs_data

record prefs_desc =
  dname :: string
  dtype :: prefs_type
  multiple :: bool

type_synonym prefs = "prefs_node list"

fun type_of_data :: "prefs_data \<Rightarrow> prefs_type" where
  "type_of_data (StringData s) = TYPE_STRING"
| "type_of_data (BoolData b) = TYPE_BOOLEAN"
| "type_of_data (Int32Data i) = TYPE_INT32"

definition desc_item :: "string \<Rightarrow> prefs_type \<Rightarrow> bool \<Rightarrow> prefs_desc" where
  "desc_item n t m = \<lparr>dname = n, dtype = t, multiple = m\<rparr>"

definition common_prefs_items :: "prefs_desc list" where
  "common_prefs_items = [
     desc_item ''disk'' TYPE_STRING True, desc_item ''floppy'' TYPE_STRING True,
     desc_item ''cdrom'' TYPE_STRING True, desc_item ''extfs'' TYPE_STRING False,
     desc_item ''scsi0'' TYPE_STRING False, desc_item ''scsi1'' TYPE_STRING False,
     desc_item ''scsi2'' TYPE_STRING False, desc_item ''scsi3'' TYPE_STRING False,
     desc_item ''scsi4'' TYPE_STRING False, desc_item ''scsi5'' TYPE_STRING False,
     desc_item ''scsi6'' TYPE_STRING False, desc_item ''screen'' TYPE_STRING False,
     desc_item ''seriala'' TYPE_STRING False, desc_item ''serialb'' TYPE_STRING False,
     desc_item ''ether'' TYPE_STRING False, desc_item ''etherconfig'' TYPE_STRING False,
     desc_item ''udptunnel'' TYPE_BOOLEAN False, desc_item ''udpport'' TYPE_INT32 False,
     desc_item ''redir'' TYPE_STRING True, desc_item ''rom'' TYPE_STRING False,
     desc_item ''bootdrive'' TYPE_INT32 False, desc_item ''bootdriver'' TYPE_INT32 False,
     desc_item ''ramsize'' TYPE_INT32 False, desc_item ''frameskip'' TYPE_INT32 False,
     desc_item ''modelid'' TYPE_INT32 False, desc_item ''cpu'' TYPE_INT32 False,
     desc_item ''fpu'' TYPE_BOOLEAN False, desc_item ''nocdrom'' TYPE_BOOLEAN False,
     desc_item ''nosound'' TYPE_BOOLEAN False, desc_item ''noclipconversion'' TYPE_BOOLEAN False,
     desc_item ''nogui'' TYPE_BOOLEAN False, desc_item ''jit'' TYPE_BOOLEAN False,
     desc_item ''jitfpu'' TYPE_BOOLEAN False, desc_item ''jitdebug'' TYPE_BOOLEAN False,
     desc_item ''jitcachesize'' TYPE_INT32 False, desc_item ''jitlazyflush'' TYPE_BOOLEAN False,
     desc_item ''jitinline'' TYPE_BOOLEAN False, desc_item ''jitblacklist'' TYPE_STRING False,
     desc_item ''keyboardtype'' TYPE_INT32 False]"

text \<open>A descriptor list ends at the first TYPE_ANY (TYPE_END) entry or at its last element.\<close>

fun find_prefs_desc :: "string \<Rightarrow> prefs_desc list \<Rightarrow> prefs_desc option" where
  "find_prefs_desc n [] = None"
| "find_prefs_desc n (d # ds) =
     (if dtype d = TYPE_ANY then None else if dname d = n then Some d else find_prefs_desc n ds)"

definition find_prefs_desc2 :: "prefs_desc list \<Rightarrow> string \<Rightarrow> prefs_desc option" where
  "find_prefs_desc2 platform n =
     (case find_prefs_desc n common_prefs_items of
        None \<Rightarrow> find_prefs_desc n platform | Some d \<Rightarrow> Some d)"

section \<open>The list of items\<close>

definition add_data :: "string \<Rightarrow> prefs_data \<Rightarrow> prefs \<Rightarrow> prefs" where
  "add_data n d p = p @ [\<lparr>pname = n, pdata = d\<rparr>]"

definition PrefsAddString :: "string \<Rightarrow> string \<Rightarrow> prefs \<Rightarrow> prefs" where
  "PrefsAddString n s p = add_data n (StringData s) p"

definition PrefsAddBool :: "string \<Rightarrow> bool \<Rightarrow> prefs \<Rightarrow> prefs" where
  "PrefsAddBool n b p = add_data n (BoolData b) p"

definition PrefsAddInt32 :: "string \<Rightarrow> u32 \<Rightarrow> prefs \<Rightarrow> prefs" where
  "PrefsAddInt32 n i p = add_data n (Int32Data i) p"

definition node_matches :: "string \<Rightarrow> prefs_type \<Rightarrow> prefs_node \<Rightarrow> bool" where
  "node_matches n t x \<longleftrightarrow> (t = TYPE_ANY \<or> type_of_data (pdata x) = t) \<and> pname x = n"

text \<open>The loop of find_node() with its counter \<open>i\<close>.\<close>

fun find_node_from :: "nat \<Rightarrow> string \<Rightarrow> prefs_type \<Rightarrow> nat \<Rightarrow> prefs \<Rightarrow> nat option" where
  "find_node_from i n t index [] = None"
| "find_node_from i n t index (x # xs) =
     (if node_matches n t x then
        if i = index then Some 0 else map_option Suc (find_node_from (Suc i) n t index xs)
      else map_option Suc (find_node_from i n t index xs))"

definition find_node :: "string \<Rightarrow> prefs_type \<Rightarrow> nat \<Rightarrow> prefs \<Rightarrow> nat option" where
  "find_node n t index p = find_node_from 0 n t index p"

definition replace_data :: "string \<Rightarrow> nat \<Rightarrow> prefs_data \<Rightarrow> prefs \<Rightarrow> prefs" where
  "replace_data n index d p =
     (case find_node n (type_of_data d) index p of
        Some k \<Rightarrow> p[k := (p ! k)\<lparr>pdata := d\<rparr>]
      | None \<Rightarrow> add_data n d p)"

definition PrefsReplaceString :: "string \<Rightarrow> string \<Rightarrow> nat \<Rightarrow> prefs \<Rightarrow> prefs" where
  "PrefsReplaceString n s index p = replace_data n index (StringData s) p"

definition PrefsReplaceBool :: "string \<Rightarrow> bool \<Rightarrow> prefs \<Rightarrow> prefs" where
  "PrefsReplaceBool n b p = replace_data n 0 (BoolData b) p"

definition PrefsReplaceInt32 :: "string \<Rightarrow> u32 \<Rightarrow> prefs \<Rightarrow> prefs" where
  "PrefsReplaceInt32 n i p = replace_data n 0 (Int32Data i) p"

definition PrefsFindString :: "string \<Rightarrow> nat \<Rightarrow> prefs \<Rightarrow> string option" where
  "PrefsFindString n index p =
     (case find_node n TYPE_STRING index p of
        Some k \<Rightarrow> (case pdata (p ! k) of StringData s \<Rightarrow> Some s | _ \<Rightarrow> None)
      | None \<Rightarrow> None)"

definition PrefsFindBool :: "string \<Rightarrow> prefs \<Rightarrow> bool" where
  "PrefsFindBool n p =
     (case find_node n TYPE_BOOLEAN 0 p of
        Some k \<Rightarrow> (case pdata (p ! k) of BoolData b \<Rightarrow> b | _ \<Rightarrow> False)
      | None \<Rightarrow> False)"

definition PrefsFindInt32 :: "string \<Rightarrow> prefs \<Rightarrow> u32" where
  "PrefsFindInt32 n p =
     (case find_node n TYPE_INT32 0 p of
        Some k \<Rightarrow> (case pdata (p ! k) of Int32Data i \<Rightarrow> i | _ \<Rightarrow> 0)
      | None \<Rightarrow> 0)"

definition PrefsRemoveItem :: "string \<Rightarrow> nat \<Rightarrow> prefs \<Rightarrow> prefs" where
  "PrefsRemoveItem n index p =
     (case find_node n TYPE_ANY index p of
        None \<Rightarrow> p
      | Some k \<Rightarrow> if k = 0 then [] else take k p @ drop (Suc k) p)"

definition AddPrefsDefaults :: "(prefs \<Rightarrow> prefs) \<Rightarrow> bool \<Rightarrow> prefs \<Rightarrow> prefs" where
  "AddPrefsDefaults SysAddSerialPrefs use_jit p0 =
     (let p1 = fold (\<lambda>f. f)
           [SysAddSerialPrefs, PrefsAddBool ''udptunnel'' False, PrefsAddInt32 ''udpport'' 6066,
            PrefsAddInt32 ''bootdriver'' 0, PrefsAddInt32 ''bootdrive'' 0,
            PrefsAddInt32 ''ramsize'' (8 * 1024 * 1024), PrefsAddInt32 ''frameskip'' 6,
            PrefsAddInt32 ''modelid'' 5, PrefsAddInt32 ''cpu'' 3, PrefsAddBool ''fpu'' False,
            PrefsAddBool ''nocdrom'' False, PrefsAddBool ''nosound'' False,
            PrefsAddBool ''noclipconversion'' False, PrefsAddBool ''nogui'' False] p0;
          p2 = fold (\<lambda>f. f)
           (if use_jit then
              [PrefsAddBool ''jit'' True, PrefsAddBool ''jitfpu'' True, PrefsAddBool ''jitdebug'' False,
               PrefsAddInt32 ''jitcachesize'' 8192, PrefsAddBool ''jitlazyflush'' True,
               PrefsAddBool ''jitinline'' True]
            else [PrefsAddBool ''jit'' False]) p1
      in PrefsAddInt32 ''keyboardtype'' 5 p2)"

section \<open>Items by name and type\<close>

text \<open>
  The contract of the item list: for every key, a list of values; adding appends, replacing
  changes the value at an index or appends when there is none, and no other key changes.
\<close>

locale item_store =
  fixes vals :: "'p \<Rightarrow> 'k \<Rightarrow> 'v list"
    and key :: "'k \<Rightarrow> bool"
    and fits :: "'k \<Rightarrow> 'v \<Rightarrow> bool"
    and add :: "'k \<Rightarrow> 'v \<Rightarrow> 'p \<Rightarrow> 'p"
    and repl :: "'k \<Rightarrow> nat \<Rightarrow> 'v \<Rightarrow> 'p \<Rightarrow> 'p"
  assumes vals_add: "fits k v \<Longrightarrow> key j \<Longrightarrow>
          vals (add k v p) j = (if j = k then vals p k @ [v] else vals p j)"
    and vals_repl: "fits k v \<Longrightarrow> key j \<Longrightarrow> vals (repl k i v p) j =
          (if j = k then if i < length (vals p k) then (vals p k)[i := v] else vals p k @ [v]
           else vals p j)"
begin

lemma vals_adds:
  assumes "list_all (fits k) vs" and "key j"
  shows "vals (fold (add k) vs p) j = (if j = k then vals p k @ vs else vals p j)"
  using assms by (induction vs arbitrary: p) (auto simp: vals_add)

lemma repl_first:
  assumes "fits k v" and "key j"
  shows "vals (repl k 0 v p) j = (if j = k then v # tl (vals p k) else vals p j)"
  using vals_repl [OF assms] by (cases "vals p k") auto

lemma vals_repls:
  assumes "list_all (fits k) vs" and "key j" and "vals p k = []"
  shows "vals (fold (repl k 0) vs p) j =
     (if j = k then if vs = [] then [] else [last vs] else vals p j)"
proof (cases "key k")
  case True
  show ?thesis
    using assms
  proof (induction vs rule: rev_induct)
    case (snoc v vs)
    then show ?case using True by (auto simp: repl_first)
  qed (use assms in auto)
next
  case False
  have "vals (fold (repl k 0) vs q) j = vals q j" if "j \<noteq> k" for q
    using assms(1) that by (induction vs arbitrary: q) (auto simp: repl_first assms(2))
  with False assms show ?thesis by auto
qed

end

definition values_of :: "prefs \<Rightarrow> string \<times> prefs_type \<Rightarrow> prefs_data list" where
  "values_of p k = map pdata (filter (node_matches (fst k) (snd k)) p)"

lemma find_node_from_Some:
  "find_node_from i n t index p = Some k \<Longrightarrow> i \<le> index \<Longrightarrow>
     \<exists>ys x zs. p = ys @ x # zs \<and> k = length ys \<and> node_matches n t x
       \<and> i + length (filter (node_matches n t) ys) = index"
proof (induction i n t index p arbitrary: k rule: find_node_from.induct)
  case (2 i n t index x xs)
  show ?case
  proof (cases "node_matches n t x \<and> i = index")
    case True
    with 2 show ?thesis by (intro exI [of _ "[]"]) auto
  next
    case False
    define j where "j = (if node_matches n t x then Suc i else i)"
    obtain k' where k': "k = Suc k'" "find_node_from j n t index xs = Some k'"
      using 2(3) False by (auto simp: j_def split: if_splits)
    have "j \<le> index" using 2(4) False by (auto simp: j_def)
    then obtain ys y zs where "xs = ys @ y # zs" "k' = length ys" "node_matches n t y"
        "j + length (filter (node_matches n t) ys) = index"
      using 2(1) [of k'] 2(2) [of k'] k' False by (auto simp: j_def split: if_splits)
    then show ?thesis
      using k' by (intro exI [of _ "x # ys"] exI [of _ y] exI [of _ zs]) (auto simp: j_def)
  qed
qed simp

lemma find_node_from_None:
  "find_node_from i n t index p = None \<Longrightarrow> i \<le> index \<Longrightarrow>
     i + length (filter (node_matches n t) p) \<le> index"
  by (induction i n t index p rule: find_node_from.induct) (auto split: if_splits)

lemma find_node_Some:
  assumes "find_node n t index p = Some k"
  obtains ys x zs where "p = ys @ x # zs" "k = length ys" "node_matches n t x"
    "length (filter (node_matches n t) ys) = index"
  using find_node_from_Some [of 0 n t index p k] assms by (auto simp: find_node_def)

lemma find_node_None:
  "find_node n t index p = None \<longleftrightarrow> length (filter (node_matches n t) p) \<le> index"
proof (cases "find_node n t index p")
  case None
  then show ?thesis using find_node_from_None [of 0 n t index p] by (simp add: find_node_def)
next
  case (Some k)
  obtain ys x zs where "p = ys @ x # zs" "node_matches n t x"
      "length (filter (node_matches n t) ys) = index"
    using find_node_Some [OF Some] by metis
  then show ?thesis using Some by auto
qed

lemma find_node_value:
  "find_node n t index p = Some k \<Longrightarrow> pdata (p ! k) = values_of p (n, t) ! index
     \<and> index < length (values_of p (n, t))"
  by (erule find_node_Some) (auto simp: values_of_def nth_append)

definition fits_type :: "string \<times> prefs_type \<Rightarrow> prefs_data \<Rightarrow> bool" where
  "fits_type k v \<longleftrightarrow> type_of_data v = snd k"

definition add_item :: "string \<times> prefs_type \<Rightarrow> prefs_data \<Rightarrow> prefs \<Rightarrow> prefs" where
  "add_item k v p = add_data (fst k) v p"

definition repl_item :: "string \<times> prefs_type \<Rightarrow> nat \<Rightarrow> prefs_data \<Rightarrow> prefs \<Rightarrow> prefs" where
  "repl_item k i v p = replace_data (fst k) i v p"

lemma type_of_data_any [simp]: "type_of_data v \<noteq> TYPE_ANY"
  by (cases v) auto

lemma node_matches_new:
  "type_of_data v = t \<Longrightarrow> node_matches m u \<lparr>pname = n, pdata = v\<rparr> = ((u = TYPE_ANY \<or> t = u) \<and> n = m)"
  by (auto simp: node_matches_def)

lemma values_add_item:
  "fits_type k v \<Longrightarrow> snd j \<noteq> TYPE_ANY \<Longrightarrow>
     values_of (add_item k v p) j = (if j = k then values_of p k @ [v] else values_of p j)"
  by (cases k; cases j)
     (auto simp: values_of_def add_item_def add_data_def fits_type_def node_matches_def)

lemma values_repl_item:
  assumes f: "fits_type k v" and j: "snd j \<noteq> TYPE_ANY"
  shows "values_of (repl_item k i v p) j =
     (if j = k then if i < length (values_of p k) then (values_of p k)[i := v] else values_of p k @ [v]
      else values_of p j)"
proof -
  obtain n t where k: "k = (n, t)" by force
  have t: "type_of_data v = t" using f by (simp add: fits_type_def k)
  show ?thesis
  proof (cases "find_node n t i p")
    case None
    then have "repl_item k i v p = add_item k v p"
      by (simp add: repl_item_def replace_data_def add_item_def k t)
    moreover have "\<not> i < length (values_of p k)"
      using None by (simp add: find_node_None values_of_def k)
    ultimately show ?thesis using values_add_item [OF f j] by simp
  next
    case (Some q)
    obtain ys x zs where p: "p = ys @ x # zs" "q = length ys" "node_matches n t x"
        "length (filter (node_matches n t) ys) = i"
      using find_node_Some [OF Some] .
    have eq: "repl_item k i v p = ys @ x\<lparr>pdata := v\<rparr> # zs"
      using Some by (simp add: repl_item_def replace_data_def k t p)
    have x: "pname x = n" "type_of_data (pdata x) = t"
      using p(3) t by (auto simp: node_matches_def)
    show ?thesis
      unfolding eq using p(4) x t j
      by (cases j) (auto simp: p(1) k values_of_def node_matches_def list_update_append)
  qed
qed

interpretation prefs: item_store values_of "\<lambda>k. snd k \<noteq> TYPE_ANY" fits_type add_item repl_item
  by unfold_locales (rule values_add_item values_repl_item; assumption)+

text \<open>The access functions in terms of the values of a key.\<close>

fun data_string :: "prefs_data \<Rightarrow> string" where
  "data_string (StringData s) = s"
| "data_string v = []"

lemma values_typed: "t \<noteq> TYPE_ANY \<Longrightarrow> v \<in> set (values_of p (n, t)) \<Longrightarrow> type_of_data v = t"
  by (auto simp: values_of_def node_matches_def)

lemma values_string:
  "v \<in> set (values_of p (n, TYPE_STRING)) \<Longrightarrow> v = StringData (data_string v)"
  using values_typed [of TYPE_STRING v p n] by (cases v) auto

lemma PrefsFindString_values:
  "PrefsFindString n i p =
     (if i < length (values_of p (n, TYPE_STRING))
      then Some (data_string (values_of p (n, TYPE_STRING) ! i)) else None)"
proof (cases "find_node n TYPE_STRING i p")
  case None
  then show ?thesis by (simp add: PrefsFindString_def) (simp add: find_node_None values_of_def)
next
  case (Some k)
  note v = find_node_value [OF this]
  then obtain s where "values_of p (n, TYPE_STRING) ! i = StringData s"
    using values_string [of "values_of p (n, TYPE_STRING) ! i" p n] by auto
  with v Some show ?thesis by (simp add: PrefsFindString_def)
qed

lemma PrefsFindBool_values:
  "PrefsFindBool n p = (case values_of p (n, TYPE_BOOLEAN) of BoolData b # _ \<Rightarrow> b | _ \<Rightarrow> False)"
proof (cases "find_node n TYPE_BOOLEAN 0 p")
  case None
  then have "values_of p (n, TYPE_BOOLEAN) = []" by (simp add: find_node_None values_of_def)
  with None show ?thesis by (simp add: PrefsFindBool_def)
next
  case (Some k)
  with find_node_value [OF this] show ?thesis
    by (cases "values_of p (n, TYPE_BOOLEAN)") (auto simp: PrefsFindBool_def)
qed

lemma PrefsFindInt32_values:
  "PrefsFindInt32 n p = (case values_of p (n, TYPE_INT32) of Int32Data i # _ \<Rightarrow> i | _ \<Rightarrow> 0)"
proof (cases "find_node n TYPE_INT32 0 p")
  case None
  then have "values_of p (n, TYPE_INT32) = []" by (simp add: find_node_None values_of_def)
  with None show ?thesis by (simp add: PrefsFindInt32_def)
next
  case (Some k)
  with find_node_value [OF this] show ?thesis
    by (cases "values_of p (n, TYPE_INT32)") (auto simp: PrefsFindInt32_def)
qed

lemma Prefs_update_items:
  "PrefsAddString n s = add_item (n, TYPE_STRING) (StringData s)"
  "PrefsReplaceString n s i = repl_item (n, TYPE_STRING) i (StringData s)"
  "PrefsReplaceBool n b = repl_item (n, TYPE_BOOLEAN) 0 (BoolData b)"
  "PrefsReplaceInt32 n x = repl_item (n, TYPE_INT32) 0 (Int32Data x)"
  by (rule ext, simp add: PrefsAddString_def PrefsReplaceString_def PrefsReplaceBool_def
      PrefsReplaceInt32_def add_item_def repl_item_def)+

lemma fits_simps [simp]:
  "fits_type (n, TYPE_STRING) (StringData s)" "fits_type (n, TYPE_BOOLEAN) (BoolData b)"
  "fits_type (n, TYPE_INT32) (Int32Data i)"
  by (simp_all add: fits_type_def)

text \<open>Setting a preference takes effect and touches no other: after PrefsReplaceString,
  PrefsReplaceBool and PrefsReplaceInt32 the item reads back the new value, the items of every
  other name or type read back what they did before, and replacing a string at an index leaves
  the other strings of that name alone.\<close>

theorem PrefsReplace_find:
  shows "(i \<le> length (values_of p (n, TYPE_STRING)) \<longrightarrow>
            PrefsFindString n i (PrefsReplaceString n s i p) = Some s)
     \<and> (\<forall>m j. (m \<noteq> n \<or> j \<noteq> i) \<longrightarrow> i < length (values_of p (n, TYPE_STRING)) \<longrightarrow>
            PrefsFindString m j (PrefsReplaceString n s i p) = PrefsFindString m j p)
     \<and> PrefsFindBool n (PrefsReplaceBool n b p) = b
     \<and> PrefsFindInt32 n (PrefsReplaceInt32 n x p) = x
     \<and> (\<forall>m. m \<noteq> n \<longrightarrow> PrefsFindBool m (PrefsReplaceBool n b p) = PrefsFindBool m p
            \<and> PrefsFindInt32 m (PrefsReplaceInt32 n x p) = PrefsFindInt32 m p)
     \<and> (\<forall>m j. PrefsFindString m j (PrefsReplaceBool n b p) = PrefsFindString m j p
            \<and> PrefsFindString m j (PrefsReplaceInt32 n x p) = PrefsFindString m j p)"
  unfolding Prefs_update_items PrefsFindString_values PrefsFindBool_values PrefsFindInt32_values
  by (intro conjI; simp add: prefs.repl_first; simp add: prefs.vals_repl nth_append nth_list_update)

theorem PrefsReplace_find_witness:
  "PrefsFindString ''disk'' 1 (PrefsReplaceString ''disk'' ''b'' 1 (PrefsAddString ''disk'' ''a'' [])) = Some ''b''"
  using PrefsReplace_find [of 1 "PrefsAddString ''disk'' ''a'' []" "''disk''" "''b''"]
  by (simp add: PrefsAddString_def add_data_def values_of_def node_matches_def)

lemma matches_any: "node_matches n TYPE_ANY = (\<lambda>x. pname x = n)"
  by (rule ext) (simp add: node_matches_def)

lemma find_node_from_split:
  "node_matches n t x \<Longrightarrow> i + length (filter (node_matches n t) ys) = index \<Longrightarrow>
     find_node_from i n t index (ys @ x # zs) = Some (length ys)"
  by (induction ys arbitrary: i) (auto split: if_splits)

text \<open>C28. PrefsRemoveItem removes one item, the one of that name at the given index, and keeps
  all others in order, except when that item is the first of the whole list: then every
  preference is dropped. With no such item nothing changes.\<close>

theorem PrefsRemoveItem_effect:
  "(length (filter (\<lambda>x. pname x = n) p) \<le> i \<longrightarrow> PrefsRemoveItem n i p = p)
   \<and> (\<forall>ys x zs. p = ys @ x # zs \<longrightarrow> pname x = n \<longrightarrow> length (filter (\<lambda>x. pname x = n) ys) = i \<longrightarrow>
        PrefsRemoveItem n i p = (if ys = [] then [] else ys @ zs))"
proof (intro conjI impI allI)
  assume "length (filter (\<lambda>x. pname x = n) p) \<le> i"
  then have "find_node n TYPE_ANY i p = None" by (simp add: find_node_None matches_any)
  then show "PrefsRemoveItem n i p = p" by (simp add: PrefsRemoveItem_def)
next
  fix ys x zs
  assume "p = ys @ x # zs" "pname x = n" "length (filter (\<lambda>x. pname x = n) ys) = i"
  then have "find_node n TYPE_ANY i p = Some (length ys)"
    by (simp add: find_node_def find_node_from_split matches_any)
  then show "PrefsRemoveItem n i p = (if ys = [] then [] else ys @ zs)"
    using \<open>p = ys @ x # zs\<close> by (simp add: PrefsRemoveItem_def)
qed

theorem PrefsRemoveItem_effect_witness:
  "PrefsRemoveItem ''rom'' 0 [\<lparr>pname = ''rom'', pdata = StringData ''a''\<rparr>, \<lparr>pname = ''fpu'', pdata = BoolData True\<rparr>] = []"
  using PrefsRemoveItem_effect [of "''rom''" "[\<lparr>pname = ''rom'', pdata = StringData ''a''\<rparr>,
    \<lparr>pname = ''fpu'', pdata = BoolData True\<rparr>]" 0, THEN conjunct2, rule_format, of "[]"] by simp

section \<open>Loading and saving\<close>

definition c_str :: "string \<Rightarrow> string" where
  "c_str s = takeWhile (\<lambda>c. c \<noteq> CHR 0x00) s"

definition c_space :: "char \<Rightarrow> bool" where
  "c_space c \<longleftrightarrow> c \<in> {CHR '' '', CHR 0x09, CHR 0x0A, CHR 0x0B, CHR 0x0C, CHR 0x0D}"

text \<open>fgets() with a 256 byte buffer: up to 255 characters, through the first newline.\<close>

definition fgets_len :: "string \<Rightarrow> nat" where
  "fgets_len s = (let n = length (takeWhile (\<lambda>c. c \<noteq> CHR 0x0A) (take 255 s)) in
     if n < length (take 255 s) then Suc n else n)"

lemma fgets_len_pos: "s \<noteq> [] \<Longrightarrow> 0 < fgets_len s"
  by (cases s) (auto simp: fgets_len_def Let_def take_Cons')

function fgets_lines :: "string \<Rightarrow> string list" where
  "fgets_lines s = (if s = [] then [] else take (fgets_len s) s # fgets_lines (drop (fgets_len s) s))"
  by pat_completeness auto
termination
  by (relation "measure length") (auto simp: fgets_len_pos)

declare fgets_lines.simps [simp del]

text \<open>atol() and atoi(), for values in range.\<close>

definition c_digit :: "char \<Rightarrow> bool" where
  "c_digit c \<longleftrightarrow> 48 \<le> (of_char c :: nat) \<and> (of_char c :: nat) \<le> 57"

fun digits_value :: "int \<Rightarrow> string \<Rightarrow> int" where
  "digits_value acc [] = acc"
| "digits_value acc (c # cs) =
     (if c_digit c then digits_value (10 * acc + (int (of_char c) - 48)) cs else acc)"

definition c_atol :: "string \<Rightarrow> int" where
  "c_atol s =
     (case dropWhile c_space s of
        [] \<Rightarrow> 0
      | c # cs \<Rightarrow> if c = CHR ''-'' then - digits_value 0 cs
                  else if c = CHR ''+'' then digits_value 0 cs
                  else digits_value 0 (c # cs))"

text \<open>The format %d.\<close>

fun show_nat :: "nat \<Rightarrow> string" where
  "show_nat n = (if n < 10 then [char_of (48 + n)] else show_nat (n div 10) @ [char_of (48 + n mod 10)])"

declare show_nat.simps [simp del]

definition show_int :: "int \<Rightarrow> string" where
  "show_int i = (if i < 0 then CHR ''-'' # show_nat (nat (- i)) else show_nat (nat i))"

text \<open>One line of the file: the newline is removed, empty lines and comments are skipped.\<close>

definition strip_newline :: "string \<Rightarrow> string" where
  "strip_newline s = (if s \<noteq> [] \<and> last s = CHR 0x0A then butlast s else s)"

definition parse_line :: "string \<Rightarrow> (string \<times> string) option" where
  "parse_line line =
     (let s = strip_newline (c_str line) in
      if s = [] then None
      else if hd s = CHR ''#'' \<or> hd s = CHR '';'' then None
      else Some (takeWhile (\<lambda>c. \<not> c_space c) s,
                 dropWhile c_space (drop 1 (dropWhile (\<lambda>c. \<not> c_space c) s))))"

definition load_item :: "prefs_desc \<Rightarrow> string \<Rightarrow> string \<Rightarrow> prefs \<Rightarrow> prefs" where
  "load_item d keyword val p =
     (case dtype d of
        TYPE_STRING \<Rightarrow> if multiple d then PrefsAddString keyword val p
                        else PrefsReplaceString keyword val 0 p
      | TYPE_BOOLEAN \<Rightarrow> PrefsReplaceBool keyword (val = ''true'') p
      | TYPE_INT32 \<Rightarrow> PrefsReplaceInt32 keyword (word_of_int (c_atol val)) p
      | TYPE_ANY \<Rightarrow> p)"

definition load_line :: "prefs_desc list \<Rightarrow> string \<Rightarrow> prefs \<Rightarrow> prefs" where
  "load_line platform line p =
     (case parse_line line of
        None \<Rightarrow> p
      | Some (keyword, val) \<Rightarrow>
          (case find_prefs_desc2 platform keyword of None \<Rightarrow> p | Some d \<Rightarrow> load_item d keyword val p))"

definition LoadPrefsFromStream :: "prefs_desc list \<Rightarrow> string \<Rightarrow> prefs \<Rightarrow> prefs" where
  "LoadPrefsFromStream platform f p = fold (load_line platform) (fgets_lines f) p"

text \<open>The loop over PrefsFindString() with a growing index ends at the first NULL.\<close>

function write_strings :: "string \<Rightarrow> nat \<Rightarrow> prefs \<Rightarrow> string" where
  "write_strings n index p =
     (case PrefsFindString n index p of
        None \<Rightarrow> []
      | Some s \<Rightarrow> n @ '' '' @ s @ [CHR 0x0A] @ write_strings n (Suc index) p)"
  by pat_completeness auto
termination
  by (relation "measure (\<lambda>(n, i, p). length (values_of p (n, TYPE_STRING)) - i)")
     (auto simp: PrefsFindString_values split: if_splits)

declare write_strings.simps [simp del]

definition write_item :: "prefs_desc \<Rightarrow> prefs \<Rightarrow> string" where
  "write_item d p =
     (case dtype d of
        TYPE_STRING \<Rightarrow> write_strings (dname d) 0 p
      | TYPE_BOOLEAN \<Rightarrow> dname d @ '' '' @ (if PrefsFindBool (dname d) p then ''true'' else ''false'') @ [CHR 0x0A]
      | TYPE_INT32 \<Rightarrow> dname d @ '' '' @ show_int (sint (PrefsFindInt32 (dname d) p)) @ [CHR 0x0A]
      | TYPE_ANY \<Rightarrow> [])"

fun write_prefs :: "prefs_desc list \<Rightarrow> prefs \<Rightarrow> string" where
  "write_prefs [] p = []"
| "write_prefs (d # ds) p = (if dtype d = TYPE_ANY then [] else write_item d p @ write_prefs ds p)"

definition SavePrefsToStream :: "prefs_desc list \<Rightarrow> prefs \<Rightarrow> string" where
  "SavePrefsToStream platform p = write_prefs common_prefs_items p @ write_prefs platform p"

section \<open>Numbers in text\<close>

lemma of_char_digit: "k < 10 \<Longrightarrow> (of_char (char_of (48 + k) :: char) :: nat) = 48 + k" for k :: nat
  by simp

lemma digits_value_snoc:
  "list_all c_digit xs \<Longrightarrow> c_digit c \<Longrightarrow>
     digits_value acc (xs @ [c]) = 10 * digits_value acc xs + (int (of_char c) - 48)"
  by (induction xs arbitrary: acc) auto

lemma digit_char: "k < 10 \<Longrightarrow> c_digit (char_of (48 + k))" for k :: nat
  by (simp add: c_digit_def)

lemma show_nat_digits: "list_all c_digit (show_nat n)"
proof (induction n rule: show_nat.induct)
  case (1 n)
  show ?case
    using 1 digit_char [of "n mod 10"] digit_char [of n] by (subst show_nat.simps) simp
qed

lemma digits_show_nat: "digits_value 0 (show_nat n) = int n"
proof (induction n rule: show_nat.induct)
  case (1 n)
  show ?case
  proof (cases "n < 10")
    case True
    then show ?thesis using digit_char [of n] by (subst show_nat.simps) simp
  next
    case False
    have "digits_value 0 (show_nat n) = 10 * int (n div 10) + int (n mod 10)"
      using False 1 digits_value_snoc [OF show_nat_digits, of "char_of (48 + n mod 10)" 0 "n div 10"]
        digit_char [of "n mod 10"]
      by (subst show_nat.simps) simp
    also have "\<dots> = int n" by presburger
    finally show ?thesis .
  qed
qed

lemma show_nat_length: "n < 10 ^ k \<Longrightarrow> 0 < k \<Longrightarrow> length (show_nat n) \<le> k"
proof (induction k arbitrary: n)
  case (Suc k)
  show ?case
  proof (cases "n < 10")
    case False
    then have "0 < k" using Suc.prems by (cases k) auto
    moreover have "n div 10 < 10 ^ k" using Suc.prems(1) by (simp add: less_mult_imp_div_less)
    ultimately show ?thesis using Suc.IH [of "n div 10"] False by (subst show_nat.simps) simp
  qed (subst show_nat.simps, simp)
qed simp

lemma show_nat_ne: "show_nat n \<noteq> []"
  by (subst show_nat.simps) simp

text \<open>A digit is not a space, and no character of a number ends a line.\<close>

definition plain :: "char \<Rightarrow> bool" where
  "plain c \<longleftrightarrow> c \<noteq> CHR 0x00 \<and> c \<noteq> CHR 0x0A"

lemma digit_plain: "c_digit c \<Longrightarrow> plain c \<and> \<not> c_space c \<and> c \<noteq> CHR ''-'' \<and> c \<noteq> CHR ''+''"
  by (auto simp: c_digit_def plain_def c_space_def)

lemma atol_show_int: "c_atol (show_int i) = i"
proof -
  obtain c cs where n: "show_nat (nat i) = c # cs" using show_nat_ne by (cases "show_nat (nat i)") auto
  then have "c_digit c" using show_nat_digits [of "nat i"] by simp
  note c = digit_plain [OF this]
  show ?thesis
    using n c digits_show_nat [of "nat i"] digits_show_nat [of "nat (- i)"]
    by (auto simp: c_atol_def show_int_def c_space_def)
qed

lemma show_int_plain: "list_all plain (show_int i) \<and> show_int i \<noteq> [] \<and> \<not> c_space (hd (show_int i))"
proof -
  have d: "list_all plain (show_nat n)" "\<not> c_space (hd (show_nat n))" for n
  proof -
    have "\<forall>c \<in> set (show_nat n). c_digit c" using show_nat_digits [of n] by (simp add: list_all_iff)
    with show_nat_ne [of n] digit_plain show "list_all plain (show_nat n)" "\<not> c_space (hd (show_nat n))"
      by (auto simp: list_all_iff)
  qed
  then show ?thesis using show_nat_ne by (auto simp: show_int_def plain_def c_space_def)
qed

lemma show_int_length: "- (2 ^ 31) \<le> i \<Longrightarrow> i < 2 ^ 31 \<Longrightarrow> length (show_int i) \<le> 11"
proof -
  assume i: "- (2 ^ 31) \<le> i" "i < 2 ^ 31"
  have "nat i < 10 ^ 10" "nat (- i) < 10 ^ 10"
    using i by (simp_all add: nat_less_iff)
  from this [THEN show_nat_length] show ?thesis by (simp add: show_int_def)
qed

section \<open>The round trip\<close>

definition line_ok :: "string \<Rightarrow> bool" where
  "line_ok l \<longleftrightarrow> list_all plain l \<and> length l \<le> 254"

lemma fgets_len_line:
  assumes "line_ok l"
  shows "fgets_len (l @ CHR 0x0A # rest) = Suc (length l)"
proof -
  have l: "length l < 255" "\<forall>c \<in> set l. c \<noteq> CHR 0x0A"
    using assms by (auto simp: line_ok_def list_all_iff plain_def)
  then have t: "take 255 (l @ CHR 0x0A # rest) = l @ CHR 0x0A # take (254 - length l) rest"
    by (simp add: take_Cons')
  have "takeWhile (\<lambda>c. c \<noteq> CHR 0x0A) (l @ CHR 0x0A # take (254 - length l) rest) = l"
    using l(2) by (simp add: takeWhile_append2)
  note tw = this
  show ?thesis unfolding fgets_len_def Let_def t tw by simp
qed

lemma fgets_lines_append:
  assumes "list_all line_ok ls"
  shows "fgets_lines (concat (map (\<lambda>l. l @ [CHR 0x0A]) ls)) = map (\<lambda>l. l @ [CHR 0x0A]) ls"
  using assms
proof (induction ls)
  case Nil
  then show ?case by (simp add: fgets_lines.simps)
next
  case (Cons l ls)
  then show ?case by (subst fgets_lines.simps) (simp add: fgets_len_line)
qed

definition name_ok :: "string \<Rightarrow> bool" where
  "name_ok n \<longleftrightarrow> n \<noteq> [] \<and> list_all (\<lambda>c. plain c \<and> \<not> c_space c) n \<and> hd n \<noteq> CHR ''#'' \<and> hd n \<noteq> CHR '';''
     \<and> length n \<le> 100"

definition value_ok :: "string \<Rightarrow> bool" where
  "value_ok v \<longleftrightarrow> list_all plain v \<and> (v \<noteq> [] \<longrightarrow> \<not> c_space (hd v)) \<and> length v \<le> 153"

lemma entry_line_ok: "name_ok n \<Longrightarrow> value_ok v \<Longrightarrow> line_ok (n @ '' '' @ v)"
  by (auto simp: name_ok_def value_ok_def line_ok_def list_all_iff plain_def)

lemma parse_entry:
  assumes n: "name_ok n" and v: "value_ok v"
  shows "parse_line ((n @ '' '' @ v) @ [CHR 0x0A]) = Some (n, v)"
proof -
  let ?l = "n @ '' '' @ v"
  have "\<forall>c \<in> set (?l @ [CHR 0x0A]). c \<noteq> CHR 0x00"
    using n v by (auto simp: name_ok_def value_ok_def list_all_iff plain_def)
  then have c: "c_str (?l @ [CHR 0x0A]) = ?l @ [CHR 0x0A]"
    by (simp only: c_str_def takeWhile_eq_all_conv)
  have k: "takeWhile (\<lambda>c. \<not> c_space c) ?l = n" "dropWhile (\<lambda>c. \<not> c_space c) ?l = '' '' @ v"
    using n by (auto simp: name_ok_def list_all_iff c_space_def takeWhile_append2 dropWhile_append2)
  have d: "dropWhile c_space v = v"
    using v by (cases v) (auto simp: value_ok_def)
  have h: "?l \<noteq> []" "hd ?l \<noteq> CHR ''#''" "hd ?l \<noteq> CHR '';''"
    using n by (auto simp: name_ok_def)
  have s: "strip_newline (?l @ [CHR 0x0A]) = ?l" by (simp add: strip_newline_def del: append_assoc)
  show ?thesis
    unfolding parse_line_def c s Let_def k using h d by simp
qed

text \<open>The lines that are written for a descriptor, and what reading them does.\<close>

definition item_values :: "prefs_desc \<Rightarrow> prefs \<Rightarrow> string list" where
  "item_values d p =
     (case dtype d of
        TYPE_STRING \<Rightarrow> map data_string (values_of p (dname d, TYPE_STRING))
      | TYPE_BOOLEAN \<Rightarrow> [if PrefsFindBool (dname d) p then ''true'' else ''false'']
      | TYPE_INT32 \<Rightarrow> [show_int (sint (PrefsFindInt32 (dname d) p))]
      | TYPE_ANY \<Rightarrow> [])"

definition entry_lines :: "prefs_desc \<Rightarrow> prefs \<Rightarrow> string list" where
  "entry_lines d p = map (\<lambda>v. dname d @ '' '' @ v) (item_values d p)"

lemma write_strings_eq:
  "write_strings n i p = concat (map (\<lambda>v. (n @ '' '' @ v) @ [CHR 0x0A])
     (map data_string (drop i (values_of p (n, TYPE_STRING)))))"
proof (induction n i p rule: write_strings.induct)
  case (1 n i p)
  let ?vs = "values_of p (n, TYPE_STRING)"
  show ?case
  proof (cases "i < length ?vs")
    case True
    then have f: "PrefsFindString n i p = Some (data_string (?vs ! i))"
      by (simp add: PrefsFindString_values)
    have d: "drop i ?vs = ?vs ! i # drop (Suc i) ?vs" using True by (simp add: Cons_nth_drop_Suc)
    show ?thesis unfolding d using f 1 [OF f] by (subst write_strings.simps) simp
  next
    case False
    then show ?thesis by (subst write_strings.simps) (simp add: PrefsFindString_values)
  qed
qed

lemma write_item_lines: "write_item d p = concat (map (\<lambda>l. l @ [CHR 0x0A]) (entry_lines d p))"
  by (cases "dtype d") (simp_all add: write_item_def entry_lines_def item_values_def write_strings_eq
      comp_def)

lemma write_prefs_lines:
  "list_all (\<lambda>d. dtype d \<noteq> TYPE_ANY) ds \<Longrightarrow>
     write_prefs ds p = concat (map (\<lambda>l. l @ [CHR 0x0A]) (concat (map (\<lambda>d. entry_lines d p) ds)))"
  by (induction ds) (simp_all add: write_item_lines)

definition key_of :: "prefs_desc \<Rightarrow> string \<times> prefs_type" where
  "key_of d = (dname d, dtype d)"

text \<open>
  Preferences that can be saved: at most one string for an item that may occur once, and no
  string that the text format cannot hold.
\<close>

definition savable :: "prefs_desc \<Rightarrow> prefs \<Rightarrow> bool" where
  "savable d p \<longleftrightarrow> name_ok (dname d) \<and>
     (dtype d = TYPE_STRING \<longrightarrow>
        list_all (\<lambda>v. value_ok (data_string v)) (values_of p (key_of d))
        \<and> (multiple d \<or> length (values_of p (key_of d)) \<le> 1))"

lemma item_values_ok: "savable d p \<Longrightarrow> list_all value_ok (item_values d p)"
proof (cases "dtype d")
  case TYPE_INT32
  have "- (2 ^ 31) \<le> sint (PrefsFindInt32 (dname d) p)" "sint (PrefsFindInt32 (dname d) p) < 2 ^ 31"
    using sint_greater_eq [of "PrefsFindInt32 (dname d) p"] sint_less [of "PrefsFindInt32 (dname d) p"]
    by simp_all
  note len = show_int_length [OF this]
  assume "savable d p"
  show ?thesis
    using TYPE_INT32 show_int_plain [of "sint (PrefsFindInt32 (dname d) p)"] len
    by (simp add: item_values_def value_ok_def)
qed (auto simp: item_values_def savable_def key_of_def list_all_iff value_ok_def plain_def c_space_def)

text \<open>The values of every key after the lines of one descriptor have been read.\<close>

definition after_load :: "prefs_desc \<Rightarrow> prefs \<Rightarrow> prefs \<Rightarrow> prefs_data list" where
  "after_load d p q =
     (case dtype d of
        TYPE_STRING \<Rightarrow> values_of p (key_of d)
      | TYPE_BOOLEAN \<Rightarrow> BoolData (PrefsFindBool (dname d) p) # tl (values_of q (key_of d))
      | TYPE_INT32 \<Rightarrow> Int32Data (PrefsFindInt32 (dname d) p) # tl (values_of q (key_of d))
      | TYPE_ANY \<Rightarrow> [])"

lemma load_items_values:
  assumes s: "savable d p" and d: "dtype d \<noteq> TYPE_ANY" and j: "snd j \<noteq> TYPE_ANY"
    and q: "dtype d = TYPE_STRING \<longrightarrow> values_of q (key_of d) = []"
  shows "values_of (fold (load_item d (dname d)) (item_values d p) q) j =
     (if j = key_of d then after_load d p q else values_of q j)"
proof (cases "dtype d")
  case TYPE_STRING
  let ?k = "(dname d, TYPE_STRING)"
  let ?vs = "values_of p ?k"
  have k: "key_of d = ?k" by (simp add: key_of_def TYPE_STRING)
  have strs: "map (\<lambda>v. StringData (data_string v)) ?vs = ?vs"
    using values_string by (intro map_idI) (metis)
  have fits: "list_all (fits_type ?k) ?vs"
    using values_typed [of TYPE_STRING _ p "dname d"] by (auto simp: list_all_iff fits_type_def)
  show ?thesis
  proof (cases "multiple d")
    case True
    then have "fold (load_item d (dname d)) (map data_string ?vs) q = fold (add_item ?k) ?vs q"
      unfolding fold_map using strs
      by (subst (2) strs [symmetric], unfold fold_map)
         (intro fold_cong refl, simp add: load_item_def TYPE_STRING Prefs_update_items fun_eq_iff)
    then show ?thesis
      using prefs.vals_adds [OF fits j, of q] q
      by (simp add: item_values_def TYPE_STRING after_load_def k)
  next
    case False
    then have "fold (load_item d (dname d)) (map data_string ?vs) q = fold (repl_item ?k 0) ?vs q"
      unfolding fold_map using strs
      by (subst (2) strs [symmetric], unfold fold_map)
         (intro fold_cong refl, simp add: load_item_def TYPE_STRING Prefs_update_items fun_eq_iff)
    moreover have "length ?vs \<le> 1" using s False by (simp add: savable_def TYPE_STRING k)
    then have "(if ?vs = [] then [] else [last ?vs]) = ?vs" by (cases ?vs) auto
    ultimately show ?thesis
      using prefs.vals_repls [OF fits j, of q] q
      by (simp add: item_values_def TYPE_STRING after_load_def k)
  qed
next
  case TYPE_BOOLEAN
  then show ?thesis
    using j by (simp add: item_values_def load_item_def Prefs_update_items prefs.repl_first
        after_load_def key_of_def)
next
  case TYPE_INT32
  then show ?thesis
    using j by (simp add: item_values_def load_item_def Prefs_update_items prefs.repl_first
        after_load_def key_of_def atol_show_int)
qed (use d in simp)

lemma entry_lines_ok: "savable d p \<Longrightarrow> list_all line_ok (entry_lines d p)"
proof -
  assume s: "savable d p"
  then have "name_ok (dname d)" by (simp add: savable_def)
  with item_values_ok [OF s] show ?thesis
    by (auto simp: list_all_iff entry_lines_def simp flip: append_Cons intro!: entry_line_ok [simplified])
qed

lemma find_prefs_desc_mem:
  "list_all (\<lambda>d. dtype d \<noteq> TYPE_ANY) ds \<Longrightarrow> distinct (map dname ds) \<Longrightarrow> d \<in> set ds \<Longrightarrow>
     find_prefs_desc (dname d) ds = Some d"
  by (induction ds) force+

lemma find_prefs_desc_append:
  "list_all (\<lambda>d. dtype d \<noteq> TYPE_ANY) ds \<Longrightarrow>
     find_prefs_desc n (ds @ es) =
       (case find_prefs_desc n ds of None \<Rightarrow> find_prefs_desc n es | Some d \<Rightarrow> Some d)"
  by (induction ds) (auto split: option.splits)

definition all_items :: "prefs_desc list \<Rightarrow> prefs_desc list" where
  "all_items platform = common_prefs_items @ platform"

lemma common_typed: "list_all (\<lambda>d. dtype d \<noteq> TYPE_ANY) common_prefs_items"
  by (simp add: common_prefs_items_def desc_item_def)

lemma find_desc2_mem:
  assumes "list_all (\<lambda>d. dtype d \<noteq> TYPE_ANY) platform" and "distinct (map dname (all_items platform))"
    and "d \<in> set (all_items platform)"
  shows "find_prefs_desc2 platform (dname d) = Some d"
  using find_prefs_desc_mem [of "all_items platform" d] assms common_typed
    find_prefs_desc_append [OF common_typed, of "dname d" platform]
  by (simp add: all_items_def find_prefs_desc2_def)

lemma load_entry_lines:
  assumes "find_prefs_desc2 platform (dname d) = Some d" and "name_ok (dname d)"
    and "list_all value_ok vs"
  shows "fold (load_line platform) (map (\<lambda>v. (dname d @ '' '' @ v) @ [CHR 0x0A]) vs) q =
     fold (load_item d (dname d)) vs q"
  using assms(3)
proof (induction vs arbitrary: q)
  case (Cons v vs)
  then show ?case using assms(1,2) parse_entry [of "dname d" v] by (simp add: load_line_def)
qed simp

lemma load_all_values:
  assumes all: "list_all (\<lambda>d. find_prefs_desc2 platform (dname d) = Some d \<and> savable d p
       \<and> dtype d \<noteq> TYPE_ANY) ds"
    and dist: "distinct (map dname ds)" and j: "snd j \<noteq> TYPE_ANY"
    and q: "list_all (\<lambda>d. dtype d = TYPE_STRING \<longrightarrow> values_of q (key_of d) = []) ds"
  shows "values_of (fold (load_line platform)
       (map (\<lambda>l. l @ [CHR 0x0A]) (concat (map (\<lambda>d. entry_lines d p) ds))) q) j =
     (case find (\<lambda>d. key_of d = j) ds of Some d \<Rightarrow> after_load d p q | None \<Rightarrow> values_of q j)"
  using assms
proof (induction ds arbitrary: q)
  case (Cons d ds)
  let ?q = "fold (load_item d (dname d)) (item_values d p) q"
  have d: "find_prefs_desc2 platform (dname d) = Some d" "savable d p" "dtype d \<noteq> TYPE_ANY"
    "dtype d = TYPE_STRING \<longrightarrow> values_of q (key_of d) = []"
    using Cons.prems by simp_all
  have "fold (load_line platform) (map (\<lambda>l. l @ [CHR 0x0A]) (entry_lines d p)) q = ?q"
    using load_entry_lines [OF d(1) _ item_values_ok [OF d(2)]] d(2)
    by (simp add: entry_lines_def savable_def comp_def)
  note head = this
  have other: "values_of ?q k = values_of q k" if "snd k \<noteq> TYPE_ANY" "k \<noteq> key_of d" for k
    using load_items_values [OF d(2,3) that(1) d(4)] that(2) by simp
  have fresh: "key_of e \<noteq> key_of d" "snd (key_of e) \<noteq> TYPE_ANY" if "e \<in> set ds" for e
  proof -
    have "dname d \<notin> dname ` set ds" using Cons.prems(2) by simp
    with that have "dname e \<noteq> dname d" by (metis imageI)
    then show "key_of e \<noteq> key_of d" by (simp add: key_of_def)
    have "dtype e \<noteq> TYPE_ANY" using Cons.prems(1) that by (simp add: list_all_iff)
    then show "snd (key_of e) \<noteq> TYPE_ANY" by (simp add: key_of_def)
  qed
  have "list_all (\<lambda>e. dtype e = TYPE_STRING \<longrightarrow> values_of ?q (key_of e) = []) ds"
    using Cons.prems(4) other fresh by (simp add: list_all_iff)
  then have IH: "values_of (fold (load_line platform)
       (map (\<lambda>l. l @ [CHR 0x0A]) (concat (map (\<lambda>d. entry_lines d p) ds))) ?q) j =
     (case find (\<lambda>d. key_of d = j) ds of Some d \<Rightarrow> after_load d p ?q | None \<Rightarrow> values_of ?q j)"
    using Cons.prems(1-3) by (intro Cons.IH) simp_all
  show ?case
  proof (cases "find (\<lambda>d. key_of d = j) ds")
    case None
    then show ?thesis
      using IH head load_items_values [OF d(2,3) j d(4)] by simp
  next
    case (Some e)
    then have e: "e \<in> set ds" "key_of e = j" by (auto simp: find_Some_iff)
    then have "after_load e p ?q = after_load e p q"
      using other [of j] j fresh [of e] by (simp add: after_load_def split: prefs_type.splits)
    then show ?thesis
      using IH head Some e fresh [of e] by auto
  qed
qed simp

text \<open>C12. Saving the preferences and loading the file into an empty (or default) set of
  preferences gives every item back: each string of each item, in order, and each flag and
  number reads the same as before. Required: distinct keywords, strings without line breaks or
  leading blanks that fit a line, at most one string where only one is allowed; and the set
  loaded into holds no strings of these items yet.\<close>

theorem SavePrefs_LoadPrefs:
  assumes typed: "list_all (\<lambda>d. dtype d \<noteq> TYPE_ANY) platform"
    and dist: "distinct (map dname (all_items platform))"
    and sv: "list_all (\<lambda>d. savable d p) (all_items platform)"
    and q: "list_all (\<lambda>d. dtype d = TYPE_STRING \<longrightarrow> values_of q (key_of d) = []) (all_items platform)"
    and d: "d \<in> set (all_items platform)"
  shows "let q' = LoadPrefsFromStream platform (SavePrefsToStream platform p) q in
     (dtype d = TYPE_STRING \<longrightarrow> (\<forall>i. PrefsFindString (dname d) i q' = PrefsFindString (dname d) i p))
     \<and> (dtype d = TYPE_BOOLEAN \<longrightarrow> PrefsFindBool (dname d) q' = PrefsFindBool (dname d) p)
     \<and> (dtype d = TYPE_INT32 \<longrightarrow> PrefsFindInt32 (dname d) q' = PrefsFindInt32 (dname d) p)"
proof -
  let ?ds = "all_items platform"
  let ?ls = "concat (map (\<lambda>d. entry_lines d p) ?ds)"
  have ty: "list_all (\<lambda>d. dtype d \<noteq> TYPE_ANY) ?ds" using typed common_typed by (simp add: all_items_def)
  have "SavePrefsToStream platform p = concat (map (\<lambda>l. l @ [CHR 0x0A]) ?ls)"
    using write_prefs_lines [OF typed] write_prefs_lines [OF common_typed]
    by (simp add: SavePrefsToStream_def all_items_def)
  moreover have "list_all line_ok ?ls"
    using sv entry_lines_ok by (auto simp: list_all_iff)
  ultimately have f: "fgets_lines (SavePrefsToStream platform p) = map (\<lambda>l. l @ [CHR 0x0A]) ?ls"
    by (simp add: fgets_lines_append)
  have all: "list_all (\<lambda>d. find_prefs_desc2 platform (dname d) = Some d \<and> savable d p
       \<and> dtype d \<noteq> TYPE_ANY) ?ds"
    using find_desc2_mem [OF typed dist] sv ty by (auto simp: list_all_iff)
  have k: "snd (key_of d) \<noteq> TYPE_ANY" using ty d by (auto simp: list_all_iff key_of_def)
  have "find (\<lambda>e. key_of e = key_of d) ?ds = Some d"
  proof -
    obtain e where e: "find (\<lambda>e. key_of e = key_of d) ?ds = Some e"
      using d by (cases "find (\<lambda>e. key_of e = key_of d) ?ds") (auto simp: find_None_iff)
    then have "e \<in> set ?ds" "dname e = dname d" by (auto simp: find_Some_iff key_of_def)
    with d dist have "e = d" by (meson distinct_map inj_onD)
    with e show ?thesis by simp
  qed
  then have "values_of (LoadPrefsFromStream platform (SavePrefsToStream platform p) q) (key_of d) = after_load d p q"
    using load_all_values [OF all dist k q] by (simp add: LoadPrefsFromStream_def f)
  then show ?thesis
    by (cases "dtype d") (simp_all add: Let_def PrefsFindString_values PrefsFindBool_values
        PrefsFindInt32_values key_of_def after_load_def)
qed

definition demo_prefs :: prefs where
  "demo_prefs = [\<lparr>pname = ''disk'', pdata = StringData ''a''\<rparr>, \<lparr>pname = ''fpu'', pdata = BoolData True\<rparr>,
     \<lparr>pname = ''disk'', pdata = StringData ''b c''\<rparr>]"

lemma demo_prefs_savable: "list_all (\<lambda>d. savable d demo_prefs) (all_items [])"
proof -
  have "list_all (\<lambda>d. name_ok (dname d)) common_prefs_items"
    by (simp add: common_prefs_items_def desc_item_def name_ok_def plain_def c_space_def)
  moreover have "dtype d = TYPE_STRING \<longrightarrow> list_all (\<lambda>v. value_ok (data_string v)) (values_of demo_prefs (key_of d))" for d
    by (simp add: demo_prefs_def values_of_def key_of_def node_matches_def value_ok_def plain_def c_space_def)
  moreover have "list_all (\<lambda>d. dtype d = TYPE_STRING \<longrightarrow> multiple d \<or> dname d \<noteq> ''disk'') common_prefs_items"
    by (simp add: common_prefs_items_def desc_item_def)
  moreover have "dname d \<noteq> ''disk'' \<Longrightarrow> dtype d = TYPE_STRING \<Longrightarrow> values_of demo_prefs (key_of d) = []" for d
    by (simp add: demo_prefs_def values_of_def key_of_def node_matches_def)
  ultimately show ?thesis
    by (auto simp: all_items_def list_all_iff savable_def)
qed

lemma common_distinct: "distinct (map dname common_prefs_items)"
  by (simp add: common_prefs_items_def desc_item_def)

theorem SavePrefs_LoadPrefs_witness:
  "PrefsFindString ''disk'' 1 (LoadPrefsFromStream [] (SavePrefsToStream [] demo_prefs) []) = Some ''b c''"
proof -
  let ?d = "desc_item ''disk'' TYPE_STRING True"
  have d: "?d \<in> set (all_items [])" by (simp add: all_items_def common_prefs_items_def)
  have "list_all (\<lambda>d. dtype d = TYPE_STRING \<longrightarrow> values_of [] (key_of d) = []) (all_items [])"
    by (simp add: list_all_iff values_of_def)
  from SavePrefs_LoadPrefs [OF _ _ demo_prefs_savable this d] common_distinct
  have "PrefsFindString (dname ?d) 1 (LoadPrefsFromStream [] (SavePrefsToStream [] demo_prefs) []) =
     PrefsFindString (dname ?d) 1 demo_prefs"
    by (simp add: Let_def all_items_def desc_item_def)
  also have "\<dots> = Some ''b c''"
    by (simp add: PrefsFindString_values desc_item_def demo_prefs_def values_of_def node_matches_def)
  finally show ?thesis by (simp add: desc_item_def)
qed

section \<open>The command line\<close>

definition is_option :: "string \<Rightarrow> bool" where
  "is_option a \<longleftrightarrow> 3 \<le> length a \<and> a ! 0 = CHR ''-'' \<and> a ! 1 = CHR ''-''"

definition option_item :: "prefs_desc \<Rightarrow> string \<Rightarrow> string \<Rightarrow> prefs \<Rightarrow> prefs" where
  "option_item d keyword val p =
     (case dtype d of
        TYPE_STRING \<Rightarrow> if multiple d then PrefsAddString keyword val p
                        else PrefsReplaceString keyword val 0 p
      | TYPE_BOOLEAN \<Rightarrow> if val = ''true'' \<or> val = ''on'' \<or> val = ''yes'' then PrefsReplaceBool keyword True p
                         else if val = ''false'' \<or> val = ''off'' \<or> val = ''no'' then PrefsReplaceBool keyword False p
                         else p
      | TYPE_INT32 \<Rightarrow> PrefsReplaceInt32 keyword (word_of_int (c_atol val)) p
      | TYPE_ANY \<Rightarrow> p)"

text \<open>The first loop of PrefsInit(): processed arguments become \<open>None\<close> (NULL).\<close>

fun command_line :: "prefs_desc list \<Rightarrow> string list \<Rightarrow> prefs \<Rightarrow> string option list \<times> prefs" where
  "command_line platform [] p = ([], p)"
| "command_line platform [a] p =
     ([if is_option a \<and> find_prefs_desc2 platform (drop 2 a) \<noteq> None then None else Some a], p)"
| "command_line platform (a # v # as) p =
     (case (if is_option a then find_prefs_desc2 platform (drop 2 a) else None) of
        None \<Rightarrow> (case command_line platform (v # as) p of (r, q) \<Rightarrow> (Some a # r, q))
      | Some d \<Rightarrow> (case command_line platform as (option_item d (drop 2 a) v p) of
                     (r, q) \<Rightarrow> (None # None # r, q)))"

text \<open>The second loop, which closes the gaps; \<open>argc\<close> is the length of the list.\<close>

function squeeze :: "nat \<Rightarrow> 'a option list \<Rightarrow> 'a option list" where
  "squeeze i argv =
     (if i < length argv then
        (let k = i + length (takeWhile (\<lambda>x. x = None) (drop i argv)) in
         squeeze (i + 1) (if k > i then take i argv @ drop k argv else argv))
      else argv)"
  by pat_completeness auto
termination
  by (relation "measure (\<lambda>(i, a). length a - i)") (auto simp: Let_def)

declare squeeze.simps [simp del]

definition PrefsInit ::
  "(prefs \<Rightarrow> prefs) \<Rightarrow> bool \<Rightarrow> (prefs \<Rightarrow> prefs) \<Rightarrow> (prefs \<Rightarrow> prefs) \<Rightarrow> prefs_desc list \<Rightarrow>
     string list \<Rightarrow> prefs \<Rightarrow> string option list \<times> prefs" where
  "PrefsInit SysAddSerialPrefs use_jit AddPlatformPrefsDefaults LoadPrefs platform argv p =
     (let p1 = LoadPrefs (AddPlatformPrefsDefaults (AddPrefsDefaults SysAddSerialPrefs use_jit p)) in
      case argv of
        [] \<Rightarrow> ([], p1)
      | prog # args \<Rightarrow>
          (case command_line platform args p1 of (r, q) \<Rightarrow> (squeeze 1 (Some prog # r), q)))"

lemma squeeze_filter:
  "i \<le> length argv \<Longrightarrow> squeeze i argv = take i argv @ filter (\<lambda>x. x \<noteq> None) (drop i argv)"
proof (induction i argv rule: squeeze.induct)
  case (1 i argv)
  let ?none = "takeWhile (\<lambda>x. x = None) (drop i argv)"
  let ?rest = "dropWhile (\<lambda>x. x = None) (drop i argv)"
  let ?k = "i + length ?none"
  let ?a = "if ?k > i then take i argv @ drop ?k argv else argv"
  show ?case
  proof (cases "i < length argv")
    case False
    then show ?thesis using 1(2) by (subst squeeze.simps) simp
  next
    case True
    have dr: "drop ?k argv = ?rest"
      by (metis add.commute append_eq_conv_conj drop_drop takeWhile_dropWhile_id)
    have f: "filter (\<lambda>x. x \<noteq> None) (drop i argv) = filter (\<lambda>x. x \<noteq> None) ?rest"
    proof -
      have "filter (\<lambda>x. x \<noteq> None) ?none = []" by (auto simp: filter_empty_conv dest: set_takeWhileD)
      then show ?thesis by (metis append_Nil filter_append takeWhile_dropWhile_id)
    qed
    have a: "?a = take i argv @ ?rest"
    proof (cases "?none = []")
      case True
      then have "?rest = drop i argv" by (metis append_Nil takeWhile_dropWhile_id)
      with True show ?thesis by simp
    next
      case False
      then have "?k > i" by simp
      then show ?thesis unfolding dr by simp
    qed
    have "squeeze i argv = squeeze (i + 1) ?a"
      using True by (subst squeeze.simps) (simp add: Let_def)
    also have "\<dots> = take i argv @ filter (\<lambda>x. x \<noteq> None) ?rest"
    proof (cases ?rest)
      case Nil
      then show ?thesis using True unfolding a Nil by (subst squeeze.simps) simp
    next
      case (Cons x xs)
      then have "x \<noteq> None" by (simp add: dropWhile_eq_Cons_conv)
      then show ?thesis
        using 1(1) [OF True refl] True unfolding a Cons by simp
    qed
    finally show ?thesis using f by simp
  qed
qed

text \<open>The in-place loop with which PrefsInit() removes the processed arguments does what it
  is for: the argument vector it leaves is the program name followed by exactly the arguments
  the option loop left unprocessed, in their order, however many gaps there are and wherever
  they lie.\<close>

theorem PrefsInit_arguments:
  "fst (PrefsInit ser jit plat load platform (prog # args) p) =
     Some prog # filter (\<lambda>x. x \<noteq> None)
       (fst (command_line platform args (load (plat (AddPrefsDefaults ser jit p)))))"
  by (simp add: PrefsInit_def Let_def split_beta squeeze_filter)

end
