(* ===== verification/SysHost.thy ===== *)
theory SysHost
  imports MacosUtil "HOL-Library.Signed_Division"
begin

text \<open>
  The host side of the disk drivers: the functions of "sys.h" as a record of functions over a
  host state, which is how the program's drivers see files and devices. File handles are
  numbers, with 0 for NULL; a file offset is the 64-bit pattern of an loff_t. Sys_read()
  yields the bytes it has put in the buffer.
\<close>

record 'h sys =
  Sys_open :: "string \<Rightarrow> bool \<Rightarrow> 'h \<Rightarrow> nat \<times> 'h"
  Sys_close :: "nat \<Rightarrow> 'h \<Rightarrow> 'h"
  Sys_read :: "nat \<Rightarrow> u64 \<Rightarrow> nat \<Rightarrow> 'h \<Rightarrow> u8 list \<times> 'h"
  Sys_write :: "nat \<Rightarrow> u64 \<Rightarrow> u8 list \<Rightarrow> 'h \<Rightarrow> nat \<times> 'h"
  SysGetFileSize :: "nat \<Rightarrow> 'h \<Rightarrow> u64"
  SysEject :: "nat \<Rightarrow> 'h \<Rightarrow> 'h"
  SysFormat :: "nat \<Rightarrow> 'h \<Rightarrow> bool \<times> 'h"
  SysIsReadOnly :: "nat \<Rightarrow> 'h \<Rightarrow> bool"
  SysIsFixedDisk :: "nat \<Rightarrow> 'h \<Rightarrow> bool"
  SysIsDiskInserted :: "nat \<Rightarrow> 'h \<Rightarrow> bool"

text \<open>The size of a file in blocks of 512 bytes, as it is reported to the Mac.\<close>

definition size_blocks :: "'h sys \<Rightarrow> nat \<Rightarrow> 'h \<Rightarrow> u32" where
  "size_blocks S f h = word_of_int (sint (SysGetFileSize S f h) sdiv 512)"

text \<open>
  Documented behaviour of the two transfer functions that properties rely on: a read yields at
  most as many bytes as asked for, a complete write is what a later read of the same range
  yields, and a read changes nothing that can be read.
\<close>

definition sys_reads_back :: "'h sys \<Rightarrow> bool" where
  "sys_reads_back S \<longleftrightarrow>
     (\<forall>fh off n h. length (fst (Sys_read S fh off n h)) \<le> n)
     \<and> (\<forall>fh off bs h h'. Sys_write S fh off bs h = (length bs, h') \<longrightarrow>
          fst (Sys_read S fh off (length bs) h') = bs)"

text \<open>A host that keeps one file in memory, for concrete runs.\<close>

definition ram_disk :: "(u64 \<Rightarrow> u8) sys" where
  "ram_disk = \<lparr>Sys_open = (\<lambda>n ro h. (1, h)), Sys_close = (\<lambda>fh h. h),
     Sys_read = (\<lambda>fh off n h. (map (\<lambda>i. h (off + word_of_nat i)) [0..<n], h)),
     Sys_write = (\<lambda>fh off bs h. if length bs < 2 ^ 32
        then (length bs, \<lambda>x. if unat (x - off) < length bs then bs ! unat (x - off) else h x) else (0, h)),
     SysGetFileSize = (\<lambda>fh h. 0x100000), SysEject = (\<lambda>fh h. h), SysFormat = (\<lambda>fh h. (True, h)),
     SysIsReadOnly = (\<lambda>fh h. False), SysIsFixedDisk = (\<lambda>fh h. True), SysIsDiskInserted = (\<lambda>fh h. True)\<rparr>"

lemma ram_disk_reads_back: "sys_reads_back ram_disk"
proof -
  have "map (\<lambda>i. (if unat (off + word_of_nat i - off :: u64) < length bs
      then bs ! unat (off + word_of_nat i - off) else h (off + word_of_nat i))) [0..<length bs] = bs"
    if "length bs < 2 ^ 32" for off bs and h :: "u64 \<Rightarrow> u8"
  proof (rule nth_equalityI)
    fix i assume "i < length (map (\<lambda>i. (if unat (off + word_of_nat i - off :: u64) < length bs
      then bs ! unat (off + word_of_nat i - off) else h (off + word_of_nat i))) [0..<length bs])"
    then have i: "i < length bs" by simp
    then have "unat (word_of_nat i :: u64) = i"
      using that by (simp add: unsigned_of_nat take_bit_nat_eq_self)
    then show "map (\<lambda>i. (if unat (off + word_of_nat i - off :: u64) < length bs
      then bs ! unat (off + word_of_nat i - off) else h (off + word_of_nat i))) [0..<length bs] ! i = bs ! i"
      using i by simp
  qed simp
  then show ?thesis
    by (auto simp: sys_reads_back_def ram_disk_def split: if_splits)
qed

section \<open>Apple partition maps\<close>

text \<open>
  One block of a partition map: \<open>None\<close> when it does not describe an HFS partition, otherwise
  its start in bytes and its length in blocks. The start is put together as an int and then
  widened to loff_t, so its sign is extended.
\<close>

definition c_name :: "u8 list \<Rightarrow> u8 list" where
  "c_name bs = takeWhile (\<lambda>b. b \<noteq> 0) bs"

definition apple_hfs :: "u8 list" where
  "apple_hfs = map of_char ''Apple_HFS''"

definition hfs_entry :: "u8 list \<Rightarrow> (u64 \<times> u32) option" where
  "hfs_entry bl =
     (if join16 (bl ! 0) (bl ! 1) = 0x504d \<and> c_name (drop 48 bl) = apple_hfs then
        Some (push_bit 9 (scast (join32 (bl ! 8) (bl ! 9) (bl ! 10) (bl ! 11))),
              join32 (bl ! 12) (bl ! 13) (bl ! 14) (bl ! 15))
      else None)"

text \<open>The loop over the first 64 blocks: \<open>n\<close> blocks are left, \<open>i\<close> is the block number.\<close>

fun scan_partitions :: "'h sys \<Rightarrow> nat \<Rightarrow> nat \<Rightarrow> nat \<Rightarrow> 'h \<Rightarrow> (u64 \<times> u32) \<times> 'h" where
  "scan_partitions S fh 0 i h = ((0, 0), h)"
| "scan_partitions S fh (Suc n) i h =
     (case Sys_read S fh (word_of_nat (i * 512)) 512 h of
        (bl, h1) \<Rightarrow>
          if length bl \<noteq> 512 then ((0, 0), h1)
          else (case hfs_entry bl of
                  Some e \<Rightarrow> (e, h1)
                | None \<Rightarrow> scan_partitions S fh n (Suc i) h1))"

text \<open>What the loop finds when reading does not change what is read.\<close>

lemma scan_partitions_found:
  assumes rd: "\<And>j. j \<le> k \<Longrightarrow> Sys_read S fh (word_of_nat ((i + j) * 512)) 512 h = (blk j, h)"
    and len: "\<And>j. j \<le> k \<Longrightarrow> length (blk j) = 512"
    and no: "\<And>j. j < k \<Longrightarrow> hfs_entry (blk j) = None" and yes: "hfs_entry (blk k) = Some e" and "k < n"
  shows "scan_partitions S fh n i h = (e, h)"
  using assms
proof (induction k arbitrary: n i blk)
  case 0
  then obtain m where "n = Suc m" by (cases n) auto
  then show ?case using 0(1) [of 0] 0(2) [of 0] 0(4) by simp
next
  case (Suc k)
  then obtain m where n: "n = Suc m" by (cases n) auto
  have "scan_partitions S fh m (Suc i) h = (e, h)"
  proof (rule Suc.IH [of "Suc i" "\<lambda>j. blk (Suc j)"])
    fix j assume "j \<le> k"
    then show "Sys_read S fh (word_of_nat ((Suc i + j) * 512)) 512 h = (blk (Suc j), h)"
      using Suc.prems(1) [of "Suc j"] by simp
  qed (use Suc.prems n in auto)
  then show ?case
    using Suc.prems(1) [of 0] Suc.prems(2) [of 0] Suc.prems(3) [of 0] n by simp
qed

section \<open>Transfer requests\<close>

text \<open>
  The parameters of a Prime call: buffer, length and direction from the parameter block, the
  position from the control entry or, with 64-bit positioning, from the block itself; and the
  update both get when a transfer has succeeded.
\<close>

definition io_position :: "u32 \<Rightarrow> u32 \<Rightarrow> 'h mac \<Rightarrow> u64" where
  "io_position pb dce s =
     (if get16 s (pb + ioPosMode) AND 0x100 \<noteq> 0 then
        push_bit 32 (ucast (get32 s (pb + ioWPosOffset))) OR ucast (get32 s (pb + ioWPosOffset + 4))
      else ucast (get32 s (dce + dCtlPosition)))"

definition finish_io :: "u32 \<Rightarrow> u32 \<Rightarrow> nat \<Rightarrow> 'h mac \<Rightarrow> 'h mac" where
  "finish_io pb dce actual s =
     (let s1 = put32 (pb + ioActCount) (word_of_nat actual) s
      in put32 (dce + dCtlPosition) (get32 s1 (dce + dCtlPosition) + word_of_nat actual) s1)"

definition io_buffer :: "u32 \<Rightarrow> 'h mac \<Rightarrow> u32" where
  "io_buffer pb s = get32 s (pb + ioBuffer)"

definition io_length :: "u32 \<Rightarrow> 'h mac \<Rightarrow> nat" where
  "io_length pb s = unat (get32 s (pb + ioReqCount))"

definition is_read :: "u32 \<Rightarrow> 'h mac \<Rightarrow> bool" where
  "is_read pb s \<longleftrightarrow> get16 s (pb + ioTrap) AND 0xff = aRdCmd"

lemma unat_u32_bound: "unat (x :: u32) \<le> 2 ^ 32" "unat (x :: u32) < 2 ^ 32"
  using unsigned_less [of x, where 'a = nat] by simp_all

lemma field_apart [mac_mem]:
  assumes "sep pb 54 dce 52"
  shows "get32 (put32 (pb + ioActCount) v s) (dce + dCtlPosition) = get32 s (dce + dCtlPosition)"
    and "get32 (put32 (dce + dCtlPosition) v s) (pb + ioActCount) = get32 s (pb + ioActCount)"
proof -
  have "sep (pb + ioActCount) 4 (dce + dCtlPosition) 4" by (rule sep_sub [OF assms]) simp_all
  then show "get32 (put32 (pb + ioActCount) v s) (dce + dCtlPosition) = get32 s (dce + dCtlPosition)"
    and "get32 (put32 (dce + dCtlPosition) v s) (pb + ioActCount) = get32 s (pb + ioActCount)"
    by (simp_all add: get32_put_apart sep_sym)
qed

lemma finish_io_counts:
  assumes "sep pb 54 dce 52"
  shows "get32 (finish_io pb dce n s) (pb + ioActCount) = word_of_nat n"
    and "get32 (finish_io pb dce n s) (dce + dCtlPosition) = get32 s (dce + dCtlPosition) + word_of_nat n"
    and "host (finish_io pb dce n s) = host s"
  by (simp_all add: finish_io_def Let_def field_apart [OF assms])

text \<open>
  The data buffer, the parameter block, the control entry and the drive status record of a
  request do not overlap.
\<close>

definition io_apart :: "u32 \<Rightarrow> u32 \<Rightarrow> u32 \<Rightarrow> 'h mac \<Rightarrow> bool" where
  "io_apart st pb dce s \<longleftrightarrow> sep pb 54 dce 52 \<and> sep st 30 pb 54
     \<and> sep (io_buffer pb s) (io_length pb s) pb 54 \<and> sep (io_buffer pb s) (io_length pb s) dce 52"

lemma io_length_bound: "io_length pb s \<le> 2 ^ 32"
  using unat_u32_bound(1) by (simp add: io_length_def)

lemma io_buffer_kept:
  assumes "io_apart st pb dce s"
  shows "get_bytes (finish_io pb dce k t) (io_buffer pb s) (io_length pb s)
           = get_bytes t (io_buffer pb s) (io_length pb s)"
    and "get_bytes (put32 (pb + ioActCount) v t) (io_buffer pb s) (io_length pb s)
           = get_bytes t (io_buffer pb s) (io_length pb s)"
proof -
  let ?a = "io_buffer pb s" and ?n = "io_length pb s"
  have s0: "sep ?a ?n pb 54" "sep ?a ?n dce 52" using assms by (simp_all add: io_apart_def)
  show "get_bytes (put32 (pb + ioActCount) v t) ?a ?n = get_bytes t ?a ?n" for v t
  proof (cases "?n = 0")
    case False
    have "sep ?a ?n (pb + ioActCount) 4" by (rule sep_sub_right [OF s0(1)]) (use False in simp_all)
    then show ?thesis by (rule get_bytes_put32 [OF _ io_length_bound])
  qed (simp add: get_bytes_def mem_read_def)
  note act = this
  show "get_bytes (finish_io pb dce k t) ?a ?n = get_bytes t ?a ?n"
  proof (cases "?n = 0")
    case False
    have "sep ?a ?n (dce + dCtlPosition) 4" by (rule sep_sub_right [OF s0(2)]) (use False in simp_all)
    then show ?thesis
      by (simp add: finish_io_def Let_def get_bytes_put32 [OF _ io_length_bound] act)
  qed (simp add: get_bytes_def mem_read_def)
qed

text \<open>Clearing ioActCount first does not change the parameters of a request.\<close>

lemma io_params_kept:
  assumes "io_apart st pb dce s"
  shows "get16 (put32 (pb + ioActCount) 0 s) (pb + ioVRefNum) = get16 s (pb + ioVRefNum)"
    "io_buffer pb (put32 (pb + ioActCount) 0 s) = io_buffer pb s"
    "io_length pb (put32 (pb + ioActCount) 0 s) = io_length pb s"
    "get32 (put32 (pb + ioActCount) 0 s) (pb + ioReqCount) = get32 s (pb + ioReqCount)"
    "is_read pb (put32 (pb + ioActCount) 0 s) = is_read pb s"
    "io_position pb dce (put32 (pb + ioActCount) 0 s) = io_position pb dce s"
    "get8 (put32 (pb + ioActCount) 0 s) (st + dsDiskInPlace) = get8 s (st + dsDiskInPlace)"
    "get32 (put32 (pb + ioActCount) 0 s) (dce + dCtlPosition) = get32 s (dce + dCtlPosition)"
proof -
  have sp: "sep pb 54 dce 52" using assms by (simp add: io_apart_def)
  have st: "sep (st + dsDiskInPlace) 1 (pb + ioActCount) 4"
    using assms by (intro sep_sub [of _ 30 pb 54]) (simp_all add: io_apart_def)
  show "get16 (put32 (pb + ioActCount) 0 s) (pb + ioVRefNum) = get16 s (pb + ioVRefNum)"
    "io_buffer pb (put32 (pb + ioActCount) 0 s) = io_buffer pb s"
    "io_length pb (put32 (pb + ioActCount) 0 s) = io_length pb s"
    "get32 (put32 (pb + ioActCount) 0 s) (pb + ioReqCount) = get32 s (pb + ioReqCount)"
    "is_read pb (put32 (pb + ioActCount) 0 s) = is_read pb s"
    by (simp_all add: io_buffer_def io_length_def is_read_def mac_mem sep_def)
  show "io_position pb dce (put32 (pb + ioActCount) 0 s) = io_position pb dce s"
    unfolding io_position_def by (simp add: field_apart [OF sp]) (simp add: mac_mem sep_def)
  show "get8 (put32 (pb + ioActCount) 0 s) (st + dsDiskInPlace) = get8 s (st + dsDiskInPlace)"
    by (rule get8_put32 [OF st])
  show "get32 (put32 (pb + ioActCount) 0 s) (dce + dCtlPosition) = get32 s (dce + dCtlPosition)"
    by (rule field_apart(1) [OF sp])
qed

text \<open>Data stored in the buffer does not reach the control entry.\<close>

lemma io_position_kept:
  assumes "io_apart st pb dce s" and len: "length bs \<le> io_length pb s"
  shows "get32 (put_bytes (io_buffer pb s) bs t) (dce + dCtlPosition) = get32 t (dce + dCtlPosition)"
proof (cases "bs = []")
  case True
  then show ?thesis by (simp add: put_bytes_def Host2Mac_memcpy_def get32_def)
next
  case False
  have "sep (io_buffer pb s) (length bs) dce 52" using assms by (auto simp: io_apart_def sep_def)
  from sep_sub_right [OF this, of "length bs" dCtlPosition 4] False
  have "sep (dce + dCtlPosition) 4 (io_buffer pb s) (length bs)" by (simp add: sep_sym)
  then show ?thesis
    by (rule get_put_bytes_word(2) [OF _ _ False, rotated]) (use len io_length_bound [of pb s] in simp)
qed

text \<open>A concrete request: 512 bytes at position 0, drive 1, status record at 0x100.\<close>

definition demo_io :: "u16 \<Rightarrow> (u64 \<Rightarrow> u8) mac" where
  "demo_io trap = put8 0x103 8 (put16 0x1006 trap (put32 0x1024 512 (put32 0x1020 0x8000 (put16 0x1016 1
     \<lparr>mem = (\<lambda>a. if a = 0x8000 then 0x41 else 0), host = (\<lambda>_. 0), calls = []\<rparr>))))"

lemma demo_io_fields:
  "get16 (demo_io trap) 0x1016 = 1" "get32 (demo_io trap) 0x1020 = 0x8000"
  "get32 (demo_io trap) 0x1024 = 512" "get8 (demo_io trap) 0x103 = 8" "get16 (demo_io trap) 0x1006 = trap"
  by (simp_all add: demo_io_def mac_mem sep_def)

lemma demo_io_position: "io_position 0x1000 0x2000 (demo_io trap) = 0"
proof -
  have "get16 (demo_io trap) 0x102c = 0" "get32 (demo_io trap) 0x2010 = 0"
    by (simp_all add: demo_io_def mac_mem sep_def) (simp_all add: mac_get_defs mac_access join16_def join32_def)
  then show ?thesis by (simp add: io_position_def)
qed

section \<open>Block drivers\<close>

text \<open>
  The contract of a driver that serves transfer requests from the host's files: a read request
  that is ready fills the buffer with what the host reads at the request's offset, a write
  request hands the buffer to the host, and both report the count and advance the position.
\<close>

locale block_driver =
  fixes S :: "'h sys"
    and prime :: "u32 \<Rightarrow> u32 \<Rightarrow> 'd \<Rightarrow> 'h mac \<Rightarrow> u16 \<times> 'h mac"
    and ready :: "'d \<Rightarrow> nat \<Rightarrow> u32 \<Rightarrow> u32 \<Rightarrow> 'h mac \<Rightarrow> bool"
    and handle :: "'d \<Rightarrow> nat \<Rightarrow> nat"
    and writable :: "'d \<Rightarrow> nat \<Rightarrow> bool"
    and offset :: "'d \<Rightarrow> nat \<Rightarrow> u32 \<Rightarrow> u32 \<Rightarrow> 'h mac \<Rightarrow> u64"
  assumes prime_read: "ready D i pb dce s \<Longrightarrow> is_read pb s \<Longrightarrow>
      Sys_read S (handle D i) (offset D i pb dce s) (io_length pb s) (host s) = (bs, h') \<Longrightarrow>
      length bs = io_length pb s \<Longrightarrow>
      \<exists>s'. prime pb dce D s = (noErr, s') \<and> host s' = h'
        \<and> get_bytes s' (io_buffer pb s) (io_length pb s) = bs
        \<and> get32 s' (pb + ioActCount) = get32 s (pb + ioReqCount)
        \<and> get32 s' (dce + dCtlPosition) = get32 s (dce + dCtlPosition) + get32 s (pb + ioReqCount)"
    and prime_write: "ready D i pb dce s \<Longrightarrow> \<not> is_read pb s \<Longrightarrow> writable D i \<Longrightarrow>
      Sys_write S (handle D i) (offset D i pb dce s)
        (get_bytes s (io_buffer pb s) (io_length pb s)) (host s) = (io_length pb s, h') \<Longrightarrow>
      \<exists>s'. prime pb dce D s = (noErr, s') \<and> host s' = h'
        \<and> get32 s' (pb + ioActCount) = get32 s (pb + ioReqCount)
        \<and> get32 s' (dce + dCtlPosition) = get32 s (dce + dCtlPosition) + get32 s (pb + ioReqCount)"
begin

lemma write_read:
  assumes S: "sys_reads_back S"
    and w: "ready D i pb dce s" "\<not> is_read pb s" "writable D i"
    and full: "Sys_write S (handle D i) (offset D i pb dce s)
        (get_bytes s (io_buffer pb s) (io_length pb s)) (host s) = (io_length pb s, h')"
    and r: "ready D i pb' dce' t" "is_read pb' t" "host t = host (snd (prime pb dce D s))"
    and same: "offset D i pb' dce' t = offset D i pb dce s" "io_length pb' t = io_length pb s"
  shows "\<exists>t'. prime pb' dce' D t = (noErr, t')
     \<and> get_bytes t' (io_buffer pb' t) (io_length pb s) = get_bytes s (io_buffer pb s) (io_length pb s)
     \<and> get32 t' (pb' + ioActCount) = get32 t (pb' + ioReqCount)
     \<and> get32 t' (dce' + dCtlPosition) = get32 t (dce' + dCtlPosition) + get32 t (pb' + ioReqCount)"
proof -
  let ?bs = "get_bytes s (io_buffer pb s) (io_length pb s)"
  have len: "length ?bs = io_length pb s" by (simp add: get_bytes_def)
  have h: "host t = h'" using prime_write [OF w full] r(3) by auto
  have "fst (Sys_read S (handle D i) (offset D i pb dce s) (io_length pb s) h') = ?bs"
    using S full len unfolding sys_reads_back_def by metis
  then obtain h2 where "Sys_read S (handle D i) (offset D i pb' dce' t) (io_length pb' t) (host t) = (?bs, h2)"
    unfolding same h by (metis prod.collapse)
  from prime_read [OF r(1,2) this] len same(2) show ?thesis by auto
qed

end

end
