(* ===== verification/Disk.thy ===== *)
theory Disk
  imports SysHost
begin

text \<open>
  "disk.cpp": the generic disk driver. An iterator into the vector \<open>drives\<close> is an index. The
  driver's calls to Execute68kTrap() do not reach the vector. Members the constructor leaves
  unset are those of the argument \<open>junk\<close>. The preference items "disk" are an argument of
  DiskInit(), after SysAddDiskPrefs() has been applied where there were none.
\<close>

record disk_drive_info =
  num :: int
  fh :: nat
  start_byte :: u64
  num_blocks :: u32
  to_be_mounted :: bool
  read_only :: bool
  status :: u32

record disk_state =
  drives :: "disk_drive_info list"
  DiskIconAddr :: u32
  acc_run_called :: bool

abbreviation (input) DiskRefNum :: int where "DiskRefNum \<equiv> - 63"
abbreviation (input) hard20 :: u16 where "hard20 \<equiv> 1"

definition get_drive_info :: "int \<Rightarrow> disk_drive_info list \<Rightarrow> nat option" where
  "get_drive_info n ds = find_index (\<lambda>d. num d = n) ds"

definition upd_drive :: "nat \<Rightarrow> (disk_drive_info \<Rightarrow> disk_drive_info) \<Rightarrow> disk_state \<Rightarrow> disk_state" where
  "upd_drive i f D = D\<lparr>drives := (drives D)[i := f (drives D ! i)]\<rparr>"

text \<open>\<open>find_hfs_partition\<close> and the size of a disk without one.\<close>

definition find_hfs_partition ::
  "'h sys \<Rightarrow> disk_drive_info \<Rightarrow> 'h mac \<Rightarrow> disk_drive_info \<times> 'h mac" where
  "find_hfs_partition S d s =
     (case scan_partitions S (fh d) 64 0 (host s) of
        ((start, blocks), h1) \<Rightarrow> (d\<lparr>start_byte := start, num_blocks := blocks\<rparr>, s\<lparr>host := h1\<rparr>))"

definition probe_disk ::
  "'h sys \<Rightarrow> disk_drive_info \<Rightarrow> 'h mac \<Rightarrow> disk_drive_info \<times> 'h mac" where
  "probe_disk S d s =
     (case find_hfs_partition S d s of
        (d1, s1) \<Rightarrow> (if start_byte d1 = 0 then d1\<lparr>num_blocks := size_blocks S (fh d1) (host s1)\<rparr> else d1, s1))"

definition put_drive_size :: "disk_drive_info \<Rightarrow> 'h mac \<Rightarrow> 'h mac" where
  "put_drive_size d s =
     put16 (status d + dsDriveS1) (ucast (drop_bit 16 (num_blocks d)))
       (put16 (status d + dsDriveSize) (ucast (num_blocks d AND 0xffff)) s)"

section \<open>Initialisation\<close>

definition open_disk ::
  "'h sys \<Rightarrow> disk_drive_info \<Rightarrow> string \<Rightarrow> disk_drive_info list \<times> 'h \<Rightarrow> disk_drive_info list \<times> 'h" where
  "open_disk S junk str dh =
     (let (ds, h) = dh; ro = (str \<noteq> [] \<and> hd str = CHR ''*''); nm = (if ro then tl str else str);
          (f, h1) = Sys_open S nm ro h
      in if f \<noteq> 0 then
           (ds @ [junk\<lparr>num := 0, fh := f, read_only := SysIsReadOnly S f h1, status := 0\<rparr>], h1)
         else (ds, h1))"

definition DiskInit ::
  "'h sys \<Rightarrow> disk_drive_info \<Rightarrow> string list \<Rightarrow> disk_state \<Rightarrow> 'h \<Rightarrow> disk_state \<times> 'h" where
  "DiskInit S junk names D h =
     (case fold (open_disk S junk) names (drives D, h) of (ds, h1) \<Rightarrow> (D\<lparr>drives := ds\<rparr>, h1))"

definition DiskExit :: "'h sys \<Rightarrow> disk_state \<Rightarrow> 'h \<Rightarrow> disk_state \<times> 'h" where
  "DiskExit S D h = (D\<lparr>drives := []\<rparr>, fold (\<lambda>d. Sys_close S (fh d)) (drives D) h)"

section \<open>Insertion and mounting\<close>

definition DiskMountVolume ::
  "'h sys \<Rightarrow> nat \<Rightarrow> disk_state \<Rightarrow> 'h mac \<Rightarrow> bool \<times> disk_state \<times> 'h mac" where
  "DiskMountVolume S f D s =
     (case find_index (\<lambda>d. fh d = f) (drives D) of
        None \<Rightarrow> (False, D, s)
      | Some i \<Rightarrow>
          if SysIsDiskInserted S (fh (drives D ! i)) (host s) then
            (let d1 = (drives D ! i)\<lparr>read_only := SysIsReadOnly S (fh (drives D ! i)) (host s)\<rparr>;
                 s1 = put8 (status d1 + dsWriteProt) (if read_only d1 then 0xff else 0)
                        (put8 (status d1 + dsDiskInPlace) 1 s);
                 (d2, s2) = probe_disk S d1 s1;
                 s3 = put_drive_size d2 s2
             in (True, upd_drive i (\<lambda>_. d2\<lparr>to_be_mounted := True\<rparr>) D, s3))
          else (True, D, s))"

definition post_disk_event :: "'h env68k \<Rightarrow> int \<Rightarrow> 'h mac \<Rightarrow> 'h mac" where
  "post_disk_event E n s = snd (Execute68kTrap E 0xa02f (set_a 0 7 (set_d 0 (word_of_int n) (stack_junk E))) s)"

definition mount_drive :: "'h sys \<Rightarrow> 'h env68k \<Rightarrow> nat \<Rightarrow> disk_state \<times> 'h mac \<Rightarrow> disk_state \<times> 'h mac" where
  "mount_drive S E i Ds =
     (let (D, s) = Ds;
          (D1, s1) = (if get8 s (status (drives D ! i) + dsDiskInPlace) = 0 then
                        if SysIsDiskInserted S (fh (drives D ! i)) (host s) then
                          snd (DiskMountVolume S (fh (drives D ! i)) D s)
                        else (D, s)
                      else (D, s))
      in if to_be_mounted (drives D1 ! i) then
           (upd_drive i (\<lambda>d. d\<lparr>to_be_mounted := False\<rparr>) D1, post_disk_event E (num (drives D1 ! i)) s1)
         else (D1, s1))"

definition mount_mountable_volumes ::
  "'h sys \<Rightarrow> 'h env68k \<Rightarrow> disk_state \<Rightarrow> 'h mac \<Rightarrow> disk_state \<times> 'h mac" where
  "mount_mountable_volumes S E D s = fold (mount_drive S E) [0..<length (drives D)] (D, s)"

section \<open>Open\<close>

text \<open>
  The search for a free drive number walks a list in Mac memory, so it may not return; the
  loop over the drives stops there.
\<close>

definition open_drive ::
  "'h sys \<Rightarrow> 'h env68k \<Rightarrow> nat \<Rightarrow> disk_state \<times> 'h mac \<Rightarrow> (disk_state \<times> 'h mac) option" where
  "open_drive S E i Ds =
     (let (D, s) = Ds in
      case FindFreeDriveNumber s 1 of
        None \<Rightarrow> None
      | Some n \<Rightarrow>
          let d = (drives D ! i)\<lparr>num := n, to_be_mounted := False\<rparr>; D1 = upd_drive i (\<lambda>_. d) D in
          if fh d \<noteq> 0 then
            let (r, s1) = Execute68kTrap E 0xa71e (set_d 0 SIZEOF_DrvSts (stack_junk E)) s in
            if areg r 0 = 0 then Some (D1, s1)
            else
              let d2 = d\<lparr>status := areg r 0\<rparr>;
                  s2 = put8 (status d2 + dsInstalled) 1 (put16 (status d2 + dsQType) hard20 s1);
                  fixed = SysIsFixedDisk S (fh d2) (host s2);
                  in_place = (fixed \<or> SysIsDiskInserted S (fh d2) (host s2));
                  s3 = (if fixed then put8 (status d2 + dsDiskInPlace) 8 s2
                        else if in_place then put8 (status d2 + dsDiskInPlace) 1 s2 else s2);
                  (d3, s4) = (if in_place then
                                apfst (\<lambda>x. x\<lparr>to_be_mounted := True\<rparr>)
                                  (probe_disk S d2 (put8 (status d2 + dsWriteProt) (if read_only d2 then 0x80 else 0) s3))
                              else (d2, s3));
                  s5 = put_drive_size d3 s4;
                  r2 = set_a 0 (status d3 + dsQLink)
                         (set_d 0 (push_bit 16 (word_of_int (num d3)) OR (word_of_int DiskRefNum AND 0xffff)) r);
                  s6 = snd (Execute68kTrap E 0xa04e r2 s5)
              in Some (upd_drive i (\<lambda>_. d3) D1, s6)
          else Some (D1, s))"

fun open_drives ::
  "'h sys \<Rightarrow> 'h env68k \<Rightarrow> nat list \<Rightarrow> disk_state \<times> 'h mac \<Rightarrow> (disk_state \<times> 'h mac) option" where
  "open_drives S E [] Ds = Some Ds"
| "open_drives S E (i # is) Ds = Option.bind (open_drive S E i Ds) (open_drives S E is)"

definition DiskOpen ::
  "'h sys \<Rightarrow> 'h env68k \<Rightarrow> u32 \<Rightarrow> u32 \<Rightarrow> disk_state \<Rightarrow> 'h mac \<Rightarrow> (u16 \<times> disk_state \<times> 'h mac) option" where
  "DiskOpen S E pb dce D s =
     map_option (\<lambda>Ds. (noErr, Ds))
       (open_drives S E [0..<length (drives D)]
          (D\<lparr>acc_run_called := False\<rparr>, put32 (dce + dCtlPosition) 0 s))"

section \<open>Prime\<close>

definition DiskPrime :: "'h sys \<Rightarrow> u32 \<Rightarrow> u32 \<Rightarrow> disk_state \<Rightarrow> 'h mac \<Rightarrow> u16 \<times> 'h mac" where
  "DiskPrime S pb dce D s0 =
     (let s = put32 (pb + ioActCount) 0 s0 in
      case get_drive_info (uint (get16 s (pb + ioVRefNum))) (drives D) of
        None \<Rightarrow> (nsDrvErr, s)
      | Some i \<Rightarrow>
          let info = drives D ! i; buffer = get32 s (pb + ioBuffer);
              len = unat (get32 s (pb + ioReqCount)); position = io_position pb dce s in
          if get8 s (status info + dsDiskInPlace) = 0 then (offLinErr, s)
          else if get32 s (pb + ioReqCount) AND 0x1ff \<noteq> 0 \<or> position AND 0x1ff \<noteq> 0 then (paramErr, s)
          else if get16 s (pb + ioTrap) AND 0xff = aRdCmd then
            let (bs, h1) = Sys_read S (fh info) (position + start_byte info) len (host s);
                s1 = put_bytes buffer bs (s\<lparr>host := h1\<rparr>) in
            if length bs \<noteq> len then (readErr, s1) else (noErr, finish_io pb dce (length bs) s1)
          else if read_only info then (wPrErr, s)
          else
            let (actual, h1) = Sys_write S (fh info) (position + start_byte info) (get_bytes s buffer len) (host s);
                s1 = s\<lparr>host := h1\<rparr> in
            if actual \<noteq> len then (writErr, s1) else (noErr, finish_io pb dce actual s1))"

section \<open>Control and Status\<close>

definition disk_in_place :: "'h mac \<Rightarrow> disk_drive_info \<Rightarrow> u8" where
  "disk_in_place s d = get8 s (status d + dsDiskInPlace)"

definition DiskControl ::
  "'h sys \<Rightarrow> 'h env68k \<Rightarrow> u32 \<Rightarrow> u32 \<Rightarrow> disk_state \<Rightarrow> 'h mac \<Rightarrow> u16 \<times> disk_state \<times> 'h mac" where
  "DiskControl S E pb dce D s =
     (let code = uint (get16 s (pb + csCode)) in
      if code = 1 then (noErr, D, s)
      else if code = 65 then
        (let (D1, s1) = mount_mountable_volumes S E D s;
             s2 = put16 (dce + dCtlFlags) (get16 s1 (dce + dCtlFlags) AND NOT 0x2000) s1
         in (noErr, D1\<lparr>acc_run_called := True\<rparr>, s2))
      else
        (case get_drive_info (uint (get16 s (pb + ioVRefNum))) (drives D) of
           None \<Rightarrow> (nsDrvErr, D, s)
         | Some i \<Rightarrow>
             let info = drives D ! i; place = disk_in_place s info in
             if code = 5 then (if place > 0 then noErr else offLinErr, D, s)
             else if code = 6 then
               (if read_only info then wPrErr else if place > 0 then noErr else offLinErr, D, s)
             else if code = 7 then
               (if place = 8 then (noErr, D, post_disk_event E (num info) s)
                else if place > 0 then
                  (noErr, D, put8 (status info + dsDiskInPlace) 0 (s\<lparr>host := SysEject S (fh info) (host s)\<rparr>))
                else (noErr, D, s))
             else if code = 21 \<or> code = 22 then (noErr, D, put32 (pb + csParam) (DiskIconAddr D) s)
             else if code = 23 then
               (noErr, D, put32 (pb + csParam) (if place = 8 then 0x0601 else 0x0201) s)
             else if code = 24 then
               (if place > 0 then (noErr, D, put32 (pb + csParam) (num_blocks info) s)
                else (offLinErr, D, s))
             else (controlErr, D, s)))"

text \<open>The driver gestalt; the drive is optional. \<open>None\<close> is the default case.\<close>

definition disk_gestalt :: "u32 \<Rightarrow> disk_drive_info option \<Rightarrow> 'h mac \<Rightarrow> 'h mac option" where
  "disk_gestalt pb info s =
     (let sel = get32 s (pb + csParam); out = pb + csParam + 4 in
      if sel = fourcc_string ''vers'' then Some (put32 out 0x01008000 s)
      else if sel = fourcc_string ''devt'' then
        Some (put32 out (case info of
            Some d \<Rightarrow> if disk_in_place s d = 8 then fourcc_string ''disk'' else fourcc_string ''rdsk''
          | None \<Rightarrow> fourcc_string ''disk'') s)
      else if sel = fourcc_string ''intf'' then Some (put32 out EMULATOR_ID_4 s)
      else if sel = fourcc_string ''sync'' then Some (put32 out 0x01000000 s)
      else if sel = fourcc_string ''boot'' then
        Some (put16 (pb + csParam + 6) (word_of_int DiskRefNum)
               (put16 out (case info of Some d \<Rightarrow> word_of_int (num d) | None \<Rightarrow> 0) s))
      else if sel = fourcc_string ''wide'' then Some (put16 out 0x0100 s)
      else if sel = fourcc_string ''purg'' then Some (put32 out 0 s)
      else if sel = fourcc_string ''ejec'' then Some (put32 out 0x00030003 s)
      else if sel = fourcc_string ''flus'' then Some (put16 out 0 s)
      else if sel = fourcc_string ''vmop'' then Some (put32 out 0 s)
      else None)"

definition DiskStatus :: "u32 \<Rightarrow> u32 \<Rightarrow> disk_state \<Rightarrow> 'h mac \<Rightarrow> u16 \<times> 'h mac" where
  "DiskStatus pb dce D s =
     (let info = get_drive_info (uint (get16 s (pb + ioVRefNum))) (drives D);
          code = uint (get16 s (pb + csCode)) in
      if code = 43 then
        (case disk_gestalt pb (map_option (\<lambda>i. drives D ! i) info) s of
           None \<Rightarrow> (statusErr, s) | Some s1 \<Rightarrow> (noErr, s1))
      else
        (case info of
           None \<Rightarrow> (nsDrvErr, s)
         | Some i \<Rightarrow>
             if code = 8 then
               (noErr, s\<lparr>mem := Mac2Mac_memcpy (pb + csParam) (status (drives D ! i)) 22 (mem s)\<rparr>)
             else (statusErr, s)))"

definition DiskInterrupt ::
  "'h sys \<Rightarrow> 'h env68k \<Rightarrow> disk_state \<Rightarrow> 'h mac \<Rightarrow> disk_state \<times> 'h mac" where
  "DiskInterrupt S E D s = (if acc_run_called D then mount_mountable_volumes S E D s else (D, s))"

section \<open>Reading and writing\<close>

lemma get_drive_info_Some:
  "get_drive_info n ds = Some i \<Longrightarrow> i < length ds \<and> num (ds ! i) = n"
  by (auto simp: get_drive_info_def dest: find_index_SomeD)

text \<open>A request a driver can serve: an existing drive with a disk, aligned, and with the buffer,
  the parameter block, the control entry and the status record apart from each other.\<close>

definition io_ready :: "disk_state \<Rightarrow> nat \<Rightarrow> u32 \<Rightarrow> u32 \<Rightarrow> 'h mac \<Rightarrow> bool" where
  "io_ready D i pb dce s \<longleftrightarrow>
     get_drive_info (uint (get16 s (pb + ioVRefNum))) (drives D) = Some i
     \<and> disk_in_place s (drives D ! i) \<noteq> 0
     \<and> get32 s (pb + ioReqCount) AND 0x1ff = 0 \<and> io_position pb dce s AND 0x1ff = 0
     \<and> io_apart (status (drives D ! i)) pb dce s"

definition disk_offset :: "disk_state \<Rightarrow> nat \<Rightarrow> u32 \<Rightarrow> u32 \<Rightarrow> 'h mac \<Rightarrow> u64" where
  "disk_offset D i pb dce s = io_position pb dce s + start_byte (drives D ! i)"

lemma DiskPrime_ready:
  assumes r: "io_ready D i pb dce s"
  shows "DiskPrime S pb dce D s =
     (let t = put32 (pb + ioActCount) 0 s; info = drives D ! i in
      if is_read pb s then
        let (bs, h1) = Sys_read S (fh info) (disk_offset D i pb dce s) (io_length pb s) (host s);
            s1 = put_bytes (io_buffer pb s) bs (t\<lparr>host := h1\<rparr>) in
        if length bs \<noteq> io_length pb s then (readErr, s1) else (noErr, finish_io pb dce (length bs) s1)
      else if read_only info then (wPrErr, t)
      else
        let (actual, h1) = Sys_write S (fh info) (disk_offset D i pb dce s)
              (get_bytes s (io_buffer pb s) (io_length pb s)) (host s);
            s1 = t\<lparr>host := h1\<rparr> in
        if actual \<noteq> io_length pb s then (writErr, s1) else (noErr, finish_io pb dce actual s1))"
proof -
  have ap: "io_apart (status (drives D ! i)) pb dce s" using r by (simp add: io_ready_def)
  note par = io_params_kept [OF ap]
  have eq: "is_read pb t = (get16 t (pb + ioTrap) AND 0xff = aRdCmd)"
    "io_buffer pb t = get32 t (pb + ioBuffer)" "io_length pb t = unat (get32 t (pb + ioReqCount))" for t :: "'a mac"
    by (simp_all add: is_read_def io_buffer_def io_length_def)
  show ?thesis
    unfolding DiskPrime_def Let_def eq [symmetric] par
    using r by (simp add: par io_ready_def disk_in_place_def disk_offset_def io_buffer_kept(2) [OF ap])
qed

lemma DiskPrime_read:
  assumes r: "io_ready D i pb dce s" and rd: "is_read pb s"
    and sys: "Sys_read S (fh (drives D ! i)) (disk_offset D i pb dce s) (io_length pb s) (host s) = (bs, h')"
    and len: "length bs = io_length pb s"
  shows "\<exists>s'. DiskPrime S pb dce D s = (noErr, s') \<and> host s' = h'
     \<and> get_bytes s' (io_buffer pb s) (io_length pb s) = bs
     \<and> get32 s' (pb + ioActCount) = get32 s (pb + ioReqCount)
     \<and> get32 s' (dce + dCtlPosition) = get32 s (dce + dCtlPosition) + get32 s (pb + ioReqCount)"
proof -
  have ap: "io_apart (status (drives D ! i)) pb dce s" using r by (simp add: io_ready_def)
  then have sp: "sep pb 54 dce 52" by (simp add: io_apart_def)
  let ?s1 = "put_bytes (io_buffer pb s) bs ((put32 (pb + ioActCount) 0 s)\<lparr>host := h'\<rparr>)"
  have eq: "DiskPrime S pb dce D s = (noErr, finish_io pb dce (io_length pb s) ?s1)"
    using rd sys len by (simp add: DiskPrime_ready [OF r] Let_def)
  have "get32 ?s1 (dce + dCtlPosition) = get32 s (dce + dCtlPosition)"
    using io_params_kept(8) [OF ap] by (simp add: io_position_kept [OF ap eq_imp_le [OF len]]) (simp add: get32_def)
  moreover have "get_bytes ?s1 (io_buffer pb s) (io_length pb s) = bs"
    using get_put_bytes [of bs "io_buffer pb s"] len io_length_bound [of pb s] by simp
  moreover have "word_of_nat (io_length pb s) = get32 s (pb + ioReqCount)" by (simp add: io_length_def)
  ultimately show ?thesis
    unfolding eq by (simp add: finish_io_counts [OF sp] io_buffer_kept(1) [OF ap])
qed

lemma DiskPrime_write:
  assumes r: "io_ready D i pb dce s" and wr: "\<not> is_read pb s" and ro: "\<not> read_only (drives D ! i)"
    and sys: "Sys_write S (fh (drives D ! i)) (disk_offset D i pb dce s)
        (get_bytes s (io_buffer pb s) (io_length pb s)) (host s) = (io_length pb s, h')"
  shows "\<exists>s'. DiskPrime S pb dce D s = (noErr, s') \<and> host s' = h'
     \<and> get32 s' (pb + ioActCount) = get32 s (pb + ioReqCount)
     \<and> get32 s' (dce + dCtlPosition) = get32 s (dce + dCtlPosition) + get32 s (pb + ioReqCount)"
proof -
  have ap: "io_apart (status (drives D ! i)) pb dce s" using r by (simp add: io_ready_def)
  then have sp: "sep pb 54 dce 52" by (simp add: io_apart_def)
  let ?s1 = "(put32 (pb + ioActCount) 0 s)\<lparr>host := h'\<rparr>"
  have eq: "DiskPrime S pb dce D s = (noErr, finish_io pb dce (io_length pb s) ?s1)"
    using wr ro sys by (simp add: DiskPrime_ready [OF r] Let_def)
  have "get32 ?s1 (dce + dCtlPosition) = get32 s (dce + dCtlPosition)"
    using io_params_kept(8) [OF ap] by (simp add: get32_def)
  moreover have "word_of_nat (io_length pb s) = get32 s (pb + ioReqCount)" by (simp add: io_length_def)
  ultimately show ?thesis
    unfolding eq by (simp add: finish_io_counts [OF sp])
qed

interpretation disk: block_driver S "DiskPrime S" io_ready "\<lambda>D i. fh (drives D ! i)"
    "\<lambda>D i. \<not> read_only (drives D ! i)" disk_offset for S :: "'h sys"
  by unfold_locales (rule DiskPrime_read DiskPrime_write; assumption)+

text \<open>C1. What the disk driver writes, it reads back: when a write request to a writable drive
  goes through, a later read request for the same drive, position and length, into any
  buffer, returns noErr and fills the buffer with exactly the bytes that were written, reports
  the full count and advances the driver's position by it. The host's file behaves like a
  file: it returns what was written last.\<close>

theorem DiskPrime_write_read:
  assumes S: "sys_reads_back S"
    and w: "io_ready D i pb dce s" "\<not> is_read pb s" "\<not> read_only (drives D ! i)"
    and full: "Sys_write S (fh (drives D ! i)) (disk_offset D i pb dce s)
        (get_bytes s (io_buffer pb s) (io_length pb s)) (host s) = (io_length pb s, h')"
    and r: "io_ready D i pb' dce' t" "is_read pb' t" "host t = host (snd (DiskPrime S pb dce D s))"
    and same: "disk_offset D i pb' dce' t = disk_offset D i pb dce s" "io_length pb' t = io_length pb s"
  shows "\<exists>t'. DiskPrime S pb' dce' D t = (noErr, t')
     \<and> get_bytes t' (io_buffer pb' t) (io_length pb s) = get_bytes s (io_buffer pb s) (io_length pb s)
     \<and> get32 t' (pb' + ioActCount) = get32 t (pb' + ioReqCount)
     \<and> get32 t' (dce' + dCtlPosition) = get32 t (dce' + dCtlPosition) + get32 t (pb' + ioReqCount)"
  using assms by (rule disk.write_read)

text \<open>A request the driver refuses does not touch the medium: for an unknown drive, a drive
  without a disk, an unaligned length or position, or a write to a protected disk, DiskPrime()
  returns the error for it, leaves the host's files alone, stores nothing in Mac memory but a
  zero ioActCount, and calls no 68k code.\<close>

theorem DiskPrime_refused:
  assumes "io_apart (status (drives D ! i)) pb dce s"
    and "case get_drive_info (uint (get16 s (pb + ioVRefNum))) (drives D) of
           None \<Rightarrow> err = nsDrvErr
         | Some j \<Rightarrow> j = i \<and>
             (if disk_in_place s (drives D ! i) = 0 then err = offLinErr
              else if get32 s (pb + ioReqCount) AND 0x1ff \<noteq> 0 \<or> io_position pb dce s AND 0x1ff \<noteq> 0
                   then err = paramErr
              else \<not> is_read pb s \<and> read_only (drives D ! i) \<and> err = wPrErr)"
  shows "DiskPrime S pb dce D s = (err, put32 (pb + ioActCount) 0 s)"
proof -
  note par = io_params_kept [OF assms(1)]
  have eq: "is_read pb t = (get16 t (pb + ioTrap) AND 0xff = aRdCmd)" for t :: "'a mac"
    by (simp add: is_read_def)
  show ?thesis
    using assms(2) unfolding DiskPrime_def Let_def eq [symmetric]
    by (auto simp: par disk_in_place_def split: option.splits if_splits)
qed

text \<open>A concrete drive and concrete requests.\<close>

definition demo_drive :: disk_drive_info where
  "demo_drive = \<lparr>num = 1, fh = 1, start_byte = 0, num_blocks = 2048, to_be_mounted = False,
     read_only = False, status = 0x100\<rparr>"

definition demo_disk :: disk_state where
  "demo_disk = \<lparr>drives = [demo_drive], DiskIconAddr = 0, acc_run_called = True\<rparr>"

lemma demo_io_ready: "io_ready demo_disk 0 0x1000 0x2000 (demo_io trap)"
  by (simp add: io_ready_def demo_disk_def demo_drive_def get_drive_info_def disk_in_place_def
      io_apart_def io_buffer_def io_length_def sep_def demo_io_fields demo_io_position)

theorem DiskPrime_write_read_witness:
  "\<exists>t'. DiskPrime ram_disk 0x1000 0x2000 demo_disk
       ((demo_io 2)\<lparr>host := host (snd (DiskPrime ram_disk 0x1000 0x2000 demo_disk (demo_io 3)))\<rparr>) = (noErr, t')
     \<and> get_bytes t' 0x8000 512 = get_bytes (demo_io 3) 0x8000 512"
proof -
  let ?s = "demo_io 3"
  let ?t = "(demo_io 2)\<lparr>host := host (snd (DiskPrime ram_disk 0x1000 0x2000 demo_disk ?s))\<rparr>"
  have g: "get8 ?t x = get8 (demo_io 2) x" "get16 ?t x = get16 (demo_io 2) x" "get32 ?t x = get32 (demo_io 2) x" for x
    by (simp_all add: mac_get_defs)
  have pos: "io_position 0x1000 0x2000 ?t = 0"
    using demo_io_position [of 2] by (simp only: io_position_def g)
  have r: "io_ready demo_disk 0 0x1000 0x2000 ?t"
    using demo_io_ready [of 2] demo_io_position [of 2]
    unfolding io_ready_def g pos io_apart_def io_buffer_def io_length_def disk_in_place_def by simp
  have len: "io_length 0x1000 ?s = 512" "io_length 0x1000 ?t = 512" "io_buffer 0x1000 ?s = 0x8000"
      "io_buffer 0x1000 ?t = 0x8000"
    unfolding io_length_def io_buffer_def g by (simp_all add: demo_io_fields)
  have rd: "\<not> is_read 0x1000 ?s" "is_read 0x1000 ?t"
    unfolding is_read_def g by (simp_all add: demo_io_fields)
  have off: "disk_offset demo_disk 0 0x1000 0x2000 ?t = disk_offset demo_disk 0 0x1000 0x2000 ?s"
    by (simp add: disk_offset_def pos demo_io_position)
  obtain h' where "Sys_write ram_disk (fh (drives demo_disk ! 0)) (disk_offset demo_disk 0 0x1000 0x2000 ?s)
        (get_bytes ?s (io_buffer 0x1000 ?s) (io_length 0x1000 ?s)) (host ?s) = (io_length 0x1000 ?s, h')"
    by (simp add: ram_disk_def get_bytes_def len)
  from DiskPrime_write_read [OF ram_disk_reads_back demo_io_ready rd(1) _ this r rd(2) _ off] len
  show ?thesis by (auto simp: demo_disk_def demo_drive_def)
qed

theorem DiskPrime_refused_witness:
  "DiskPrime ram_disk 0x1000 0x2000 (demo_disk\<lparr>drives := [demo_drive\<lparr>read_only := True\<rparr>]\<rparr>) (demo_io 3)
     = (wPrErr, put32 0x1028 0 (demo_io 3))"
  using DiskPrime_refused [of "demo_disk\<lparr>drives := [demo_drive\<lparr>read_only := True\<rparr>]\<rparr>" 0 "0x1000" "0x2000" "demo_io 3" wPrErr ram_disk]
  by (simp add: demo_drive_def get_drive_info_def disk_in_place_def io_apart_def io_buffer_def io_length_def
      sep_def demo_io_fields demo_io_position is_read_def)

section \<open>Insertion, ejection and partitions\<close>

text \<open>C29. On a medium with an Apple partition map the driver serves the first HFS partition
  among the first 64 blocks, from the map entry's start block times 512 and with its block
  count, provided the start is below 2^31 blocks. For a start of 2^31 blocks (1 TB) or more the
  start offset comes out negative, 2^41 bytes too low, so such a partition is not served. The
  host's file yields the same blocks whenever they are read.\<close>

theorem find_hfs_partition_first:
  assumes rd: "\<And>j. j \<le> k \<Longrightarrow> Sys_read S (fh d) (word_of_nat (j * 512)) 512 (host s) = (blk j, host s)"
    and len: "\<And>j. j \<le> k \<Longrightarrow> length (blk j) = 512"
    and no: "\<And>j. j < k \<Longrightarrow> hfs_entry (blk j) = None" and yes: "hfs_entry (blk k) \<noteq> None" and k: "k < 64"
  shows "let start = join32 (blk k ! 8) (blk k ! 9) (blk k ! 10) (blk k ! 11);
             d' = fst (find_hfs_partition S d s)
         in sint (start_byte d') = (if unat start < 2 ^ 31 then 512 * int (unat start)
                                    else 512 * int (unat start) - 2 ^ 41)
            \<and> num_blocks d' = join32 (blk k ! 12) (blk k ! 13) (blk k ! 14) (blk k ! 15)"
proof -
  define start where "start = join32 (blk k ! 8) (blk k ! 9) (blk k ! 10) (blk k ! 11)"
  define n where "n = join32 (blk k ! 12) (blk k ! 13) (blk k ! 14) (blk k ! 15)"
  have e: "hfs_entry (blk k) = Some (push_bit 9 (scast start), n)"
    using yes by (simp add: hfs_entry_def start_def n_def split: if_splits)
  have "Sys_read S (fh d) (word_of_nat ((0 + j) * 512)) 512 (host s) = (blk j, host s)" if "j \<le> k" for j
    unfolding add_0 using that by (rule rd)
  from scan_partitions_found [where blk = blk and k = k, OF this len no e k]
  have "scan_partitions S (fh d) 64 0 (host s) = ((push_bit 9 (scast start), n), host s)" .
  then have d': "fst (find_hfs_partition S d s) = d\<lparr>start_byte := push_bit 9 (scast start), num_blocks := n\<rparr>"
    by (simp add: find_hfs_partition_def)
  have rng: "- (2 ^ 31) \<le> sint start" "sint start < 2 ^ 31"
    using sint_greater_eq [of start] sint_less [of start] by simp_all
  have "push_bit 9 (scast start :: u64) = word_of_int (sint start * 512)"
    unfolding push_bit_eq_mult scast_eq by simp
  moreover have "sint (word_of_int (sint start * 512) :: u64) = sint start * 512"
    using rng by (subst int_word_sint) simp
  ultimately have "sint (push_bit 9 (scast start :: u64)) = sint start * 512" by (simp only:)
  then show ?thesis
    unfolding d' start_def [symmetric] n_def [symmetric] Let_def sint_u32_cases by simp
qed

definition pm_block :: "u8 list" where
  "pm_block = [0x50, 0x4d, 0, 0, 0, 0, 0, 0, 0, 0, 0, 2, 0, 0, 8, 0] @ replicate 32 0 @ apple_hfs @ replicate 455 0"

definition pm_disk :: "(u64 \<Rightarrow> u8) sys" where
  "pm_disk = ram_disk\<lparr>Sys_read := (\<lambda>f off n h. (pm_block, h))\<rparr>"

theorem find_hfs_partition_first_witness:
  "sint (start_byte (fst (find_hfs_partition pm_disk demo_drive (demo_io 2)))) = 1024"
proof -
  have e: "hfs_entry pm_block \<noteq> None"
    by (simp add: hfs_entry_def pm_block_def c_name_def apple_hfs_def join16_def takeWhile_append2)
  have b: "join32 (pm_block ! 8) (pm_block ! 9) (pm_block ! 10) (pm_block ! 11) = 2"
    by (simp add: pm_block_def join32_def)
  have l: "length pm_block = 512" by (simp add: pm_block_def apple_hfs_def)
  have "\<And>j. Sys_read pm_disk (fh demo_drive) (word_of_nat (j * 512)) 512 (host (demo_io 2)) = (pm_block, host (demo_io 2))"
    by (simp add: pm_disk_def)
  from find_hfs_partition_first [where k = 0 and blk = "\<lambda>_. pm_block", OF this] e l b
  show ?thesis by (simp add: Let_def)
qed



end
