(* ===== verification/Sony.thy ===== *)
theory Sony
  imports SysHost
begin

text \<open>
  "sony.cpp": the floppy driver. Names that "disk.cpp" also uses carry the prefix \<open>sony_\<close> or
  \<open>sd_\<close>. DISK_INSERT_CHECK and PatchAfterStartup() are arguments, as are the "floppy"
  preference items; a member the constructor leaves unset comes from \<open>junk\<close>.
\<close>

record sony_drive_info =
  sd_num :: int
  sd_fh :: nat
  sd_to_be_mounted :: bool
  sd_read_only :: bool
  sd_status :: u32

record sony_state =
  sony_drives :: "sony_drive_info list"
  SonyDiskIconAddr :: u32
  SonyDriveIconAddr :: u32
  sony_acc_run_called :: bool

abbreviation (input) SonyRefNum :: int where "SonyRefNum \<equiv> - 5"
abbreviation (input) DskErr :: u32 where "DskErr \<equiv> 0x142"

definition sony_get_drive_info :: "int \<Rightarrow> sony_drive_info list \<Rightarrow> nat option" where
  "sony_get_drive_info n ds = find_index (\<lambda>d. sd_num d = n) ds"

definition sony_upd :: "nat \<Rightarrow> (sony_drive_info \<Rightarrow> sony_drive_info) \<Rightarrow> sony_state \<Rightarrow> sony_state" where
  "sony_upd i f D = D\<lparr>sony_drives := (sony_drives D)[i := f (sony_drives D ! i)]\<rparr>"

section \<open>Initialisation\<close>

definition sony_open_item ::
  "'h sys \<Rightarrow> sony_drive_info \<Rightarrow> string \<Rightarrow> sony_drive_info list \<times> 'h \<Rightarrow> sony_drive_info list \<times> 'h" where
  "sony_open_item S junk str dh =
     (let (ds, h) = dh; ro = (str \<noteq> [] \<and> hd str = CHR ''*''); nm = (if ro then tl str else str);
          (f, h1) = Sys_open S nm ro h
      in if f \<noteq> 0 then
           (ds @ [junk\<lparr>sd_num := 0, sd_fh := f, sd_read_only := SysIsReadOnly S f h1, sd_status := 0\<rparr>], h1)
         else (ds, h1))"

definition SonyInit ::
  "'h sys \<Rightarrow> sony_drive_info \<Rightarrow> string list \<Rightarrow> sony_state \<Rightarrow> 'h \<Rightarrow> sony_state \<times> 'h" where
  "SonyInit S junk names D h =
     (case fold (sony_open_item S junk) names (sony_drives D, h) of (ds, h1) \<Rightarrow> (D\<lparr>sony_drives := ds\<rparr>, h1))"

definition SonyExit :: "'h sys \<Rightarrow> sony_state \<Rightarrow> 'h \<Rightarrow> sony_state \<times> 'h" where
  "SonyExit S D h = (D\<lparr>sony_drives := []\<rparr>, fold (\<lambda>d. Sys_close S (sd_fh d)) (sony_drives D) h)"

section \<open>Insertion and mounting\<close>

definition SonyMountVolume ::
  "'h sys \<Rightarrow> nat \<Rightarrow> sony_state \<Rightarrow> 'h mac \<Rightarrow> bool \<times> sony_state \<times> 'h mac" where
  "SonyMountVolume S f D s =
     (case find_index (\<lambda>d. sd_fh d = f) (sony_drives D) of
        None \<Rightarrow> (False, D, s)
      | Some i \<Rightarrow>
          if SysIsDiskInserted S (sd_fh (sony_drives D ! i)) (host s) then
            (let d = (sony_drives D ! i)\<lparr>sd_read_only := SysIsReadOnly S (sd_fh (sony_drives D ! i)) (host s)\<rparr>;
                 s1 = put8 (sd_status d + dsWriteProt) (if sd_read_only d then 0xff else 0)
                        (put8 (sd_status d + dsDiskInPlace) 1 s)
             in (True, sony_upd i (\<lambda>_. d\<lparr>sd_to_be_mounted := True\<rparr>) D, s1))
          else (True, D, s))"

definition sony_mount_drive ::
  "bool \<Rightarrow> 'h sys \<Rightarrow> 'h env68k \<Rightarrow> nat \<Rightarrow> sony_state \<times> 'h mac \<Rightarrow> sony_state \<times> 'h mac" where
  "sony_mount_drive check S E i Ds =
     (let (D, s) = Ds;
          (D1, s1) = (if check \<and> get8 s (sd_status (sony_drives D ! i) + dsDiskInPlace) = 0
                         \<and> SysIsDiskInserted S (sd_fh (sony_drives D ! i)) (host s) then
                        snd (SonyMountVolume S (sd_fh (sony_drives D ! i)) D s)
                      else (D, s))
      in if sd_to_be_mounted (sony_drives D1 ! i) then
           (sony_upd i (\<lambda>d. d\<lparr>sd_to_be_mounted := False\<rparr>) D1,
            snd (Execute68kTrap E 0xa02f
                   (set_a 0 7 (set_d 0 (word_of_int (sd_num (sony_drives D1 ! i))) (stack_junk E))) s1))
         else (D1, s1))"

definition sony_mount_mountable_volumes ::
  "bool \<Rightarrow> 'h sys \<Rightarrow> 'h env68k \<Rightarrow> sony_state \<Rightarrow> 'h mac \<Rightarrow> sony_state \<times> 'h mac" where
  "sony_mount_mountable_volumes check S E D s =
     fold (sony_mount_drive check S E) [0..<length (sony_drives D)] (D, s)"

section \<open>Open\<close>

definition set_dsk_err :: "u16 \<Rightarrow> 'h mac \<Rightarrow> u16 \<times> 'h mac" where
  "set_dsk_err err s = (err, put16 DskErr err s)"

definition sony_open_drive ::
  "'h sys \<Rightarrow> 'h env68k \<Rightarrow> nat \<Rightarrow> sony_state \<times> 'h mac \<Rightarrow> (sony_state \<times> 'h mac) option" where
  "sony_open_drive S E i Ds =
     (let (D, s) = Ds in
      case FindFreeDriveNumber s 1 of
        None \<Rightarrow> None
      | Some n \<Rightarrow>
          let d = (sony_drives D ! i)\<lparr>sd_num := n, sd_to_be_mounted := False\<rparr>;
              D1 = sony_upd i (\<lambda>_. d) D in
          if sd_fh d \<noteq> 0 then
            let (r, s1) = Execute68kTrap E 0xa71e (set_d 0 SIZEOF_DrvSts (stack_junk E)) s in
            if areg r 0 = 0 then Some (D1, s1)
            else
              let st = areg r 0;
                  s2 = fold (\<lambda>off. put8 (st + off) 0xff)
                         [dsSides, dsTwoSideFmt, dsNewIntf, dsMFMDrive, dsMFMDisk, dsTwoMegFmt]
                         (put8 (st + dsInstalled) 1 (put16 (st + dsQType) 0 s1));
                  ins = SysIsDiskInserted S (sd_fh d) (host s2);
                  s3 = (if ins then put8 (st + dsWriteProt) (if sd_read_only d then 0xff else 0)
                                      (put8 (st + dsDiskInPlace) 1 s2)
                        else s2);
                  d2 = d\<lparr>sd_status := st, sd_to_be_mounted := ins\<rparr>;
                  r2 = set_a 0 (st + dsQLink)
                         (set_d 0 (push_bit 16 (word_of_int n) OR (word_of_int SonyRefNum AND 0xffff)) r);
                  s4 = snd (Execute68kTrap E 0xa04e r2 s3)
              in Some (sony_upd i (\<lambda>_. d2) D1, s4)
          else Some (D1, s))"

fun sony_open_drives ::
  "'h sys \<Rightarrow> 'h env68k \<Rightarrow> nat list \<Rightarrow> sony_state \<times> 'h mac \<Rightarrow> (sony_state \<times> 'h mac) option" where
  "sony_open_drives S E [] Ds = Some Ds"
| "sony_open_drives S E (i # is) Ds = Option.bind (sony_open_drive S E i Ds) (sony_open_drives S E is)"

definition SonyOpen ::
  "'h sys \<Rightarrow> 'h env68k \<Rightarrow> u32 \<Rightarrow> u32 \<Rightarrow> sony_state \<Rightarrow> 'h mac \<Rightarrow> (u16 \<times> sony_state \<times> 'h mac) option" where
  "SonyOpen S E pb dce D s =
     (let s1 = put32 (dce + dCtlPosition) 0 s;
          s2 = put16 (dce + dCtlQHdr + qFlags) (get16 s1 (dce + dCtlQHdr + qFlags) AND 0xff00 OR 3) s1;
          utab = get32 s2 0x11c;
          s3 = put32 (utab + 4) (get32 s2 (utab + 16)) s2;
          s4 = snd (set_dsk_err 0 (put32 0x134 0xdeadbeef s3))
      in map_option (\<lambda>Ds. (noErr, Ds))
           (sony_open_drives S E [0..<length (sony_drives D)] (D\<lparr>sony_acc_run_called := False\<rparr>, s4)))"

section \<open>Prime\<close>

definition SonyPrime :: "'h sys \<Rightarrow> u32 \<Rightarrow> u32 \<Rightarrow> sony_state \<Rightarrow> 'h mac \<Rightarrow> u16 \<times> 'h mac" where
  "SonyPrime S pb dce D s0 =
     (let s = put32 (pb + ioActCount) 0 s0 in
      case sony_get_drive_info (uint (get16 s (pb + ioVRefNum))) (sony_drives D) of
        None \<Rightarrow> set_dsk_err nsDrvErr s
      | Some i \<Rightarrow>
          let info = sony_drives D ! i in
          if get8 s (sd_status info + dsDiskInPlace) = 0 then set_dsk_err offLinErr s
          else
            let s1 = put8 (sd_status info + dsDiskInPlace) 2 s;
                len = io_length pb s1; position = get32 s1 (dce + dCtlPosition) in
            if get32 s1 (pb + ioReqCount) AND 0x1ff \<noteq> 0 \<or> position AND 0x1ff \<noteq> 0 then set_dsk_err paramErr s1
            else if is_read pb s1 then
              let (bs, h1) = Sys_read S (sd_fh info) (ucast position) len (host s1);
                  s2 = put_bytes (io_buffer pb s1) bs (s1\<lparr>host := h1\<rparr>) in
              if length bs \<noteq> len then set_dsk_err readErr s2
              else set_dsk_err noErr (finish_io pb dce (length bs)
                     (put32 0x304 0 (put32 0x300 0 (put32 0x2fc 0 s2))))
            else if sd_read_only info then set_dsk_err wPrErr s1
            else
              let (actual, h1) = Sys_write S (sd_fh info) (ucast position)
                                   (get_bytes s1 (io_buffer pb s1) len) (host s1);
                  s2 = s1\<lparr>host := h1\<rparr> in
              if actual \<noteq> len then set_dsk_err writErr s2
              else set_dsk_err noErr (finish_io pb dce actual s2))"

section \<open>Control and Status\<close>

definition sony_place :: "'h mac \<Rightarrow> sony_drive_info \<Rightarrow> u8" where
  "sony_place s d = get8 s (sd_status d + dsDiskInPlace)"

text \<open>The drive-specific control codes: the error and the new machine state.\<close>

definition sony_drive_control ::
  "'h sys \<Rightarrow> u32 \<Rightarrow> int \<Rightarrow> sony_drive_info \<Rightarrow> sony_state \<Rightarrow> 'h mac \<Rightarrow> u16 \<times> 'h mac" where
  "sony_drive_control S pb code info D s =
     (let place = sony_place s info in
      if code = 5 then (if place = 0 then offLinErr else noErr, s)
      else if code = 6 then
        (if sd_read_only info then (wPrErr, s)
         else if place > 0 then
           (case SysFormat S (sd_fh info) (host s) of
              (ok, h1) \<Rightarrow> (if ok then noErr else writErr, s\<lparr>host := h1\<rparr>))
         else (offLinErr, s))
      else if code = 7 then
        (if place > 0 then
           (noErr, put8 (sd_status info + dsDiskInPlace) 0 (s\<lparr>host := SysEject S (sd_fh info) (host s)\<rparr>))
         else (noErr, s))
      else if code = 8 then (noErr, s)
      else if code = 21 then (noErr, put32 (pb + csParam) (SonyDriveIconAddr D) s)
      else if code = 22 then (noErr, put32 (pb + csParam) (SonyDiskIconAddr D) s)
      else if code = 23 then
        (noErr, put32 (pb + csParam) (if sd_num info = 1 then 0x0004 else 0x0104) s)
      else if code = 0x5343 then
        (if place = 0 then (offLinErr, s)
         else if sd_read_only info then (wPrErr, s)
         else
           (case Sys_write S (sd_fh info) 0 (get_bytes s (get32 s (pb + csParam + 2)) (2880 * 512)) (host s) of
              (actual, h1) \<Rightarrow> (if actual \<noteq> 2880 * 512 then writErr else noErr, s\<lparr>host := h1\<rparr>)))
      else (controlErr, s))"

definition SonyControl ::
  "bool \<Rightarrow> 'h sys \<Rightarrow> 'h env68k \<Rightarrow> ('h mac \<Rightarrow> 'h mac) \<Rightarrow> u32 \<Rightarrow> u32 \<Rightarrow> sony_state \<Rightarrow> 'h mac \<Rightarrow>
     u16 \<times> sony_state \<times> 'h mac" where
  "SonyControl check S E PatchAfterStartup pb dce D s =
     (let code = uint (get16 s (pb + csCode)) in
      if code = 1 then (case set_dsk_err (- 1) s of (e, s1) \<Rightarrow> (e, D, s1))
      else if code = 9 then (case set_dsk_err noErr s of (e, s1) \<Rightarrow> (e, D, s1))
      else if code = 65 then
        (let (D1, s1) = sony_mount_mountable_volumes check S E D s;
             s2 = PatchAfterStartup s1;
             s3 = put16 (dce + dCtlFlags) (get16 s2 (dce + dCtlFlags) AND NOT 0x2000) s2
         in (noErr, D1\<lparr>sony_acc_run_called := True\<rparr>, s3))
      else
        (case sony_get_drive_info (uint (get16 s (pb + ioVRefNum))) (sony_drives D) of
           None \<Rightarrow> (case set_dsk_err nsDrvErr s of (e, s1) \<Rightarrow> (e, D, s1))
         | Some i \<Rightarrow>
             (case sony_drive_control S pb code (sony_drives D ! i) D s of
                (err, s1) \<Rightarrow> (case set_dsk_err err s1 of (e, s2) \<Rightarrow> (e, D, s2)))))"

definition SonyStatus :: "u32 \<Rightarrow> u32 \<Rightarrow> sony_state \<Rightarrow> 'h mac \<Rightarrow> u16 \<times> 'h mac" where
  "SonyStatus pb dce D s =
     (let code = uint (get16 s (pb + csCode)) in
      case sony_get_drive_info (uint (get16 s (pb + ioVRefNum))) (sony_drives D) of
        None \<Rightarrow> set_dsk_err nsDrvErr s
      | Some i \<Rightarrow>
          let st = sd_status (sony_drives D ! i) in
          if code = 6 then
            (if get16 s (pb + csParam) > 0 then
               (let adr = get32 s (pb + csParam + 2)
                in set_dsk_err noErr (put32 (adr + 4) 0xd2120050 (put32 adr 2880 (put16 (pb + csParam) 1 s))))
             else set_dsk_err paramErr s)
          else if code = 8 then
            set_dsk_err noErr (s\<lparr>mem := Mac2Mac_memcpy (pb + csParam) st 22 (mem s)\<rparr>)
          else if code = 10 then
            set_dsk_err noErr (put32 (pb + csParam) (get32 s (st + dsMFMDrive) AND 0xffffff00 OR 0xfe) s)
          else if code = 0x4456 then set_dsk_err noErr (put16 (pb + csParam) 0x0410 s)
          else if code = 0x5343 then set_dsk_err noErr (put8 (pb + csParam) 0x02 s)
          else set_dsk_err statusErr s)"

definition SonyInterrupt ::
  "bool \<Rightarrow> 'h sys \<Rightarrow> 'h env68k \<Rightarrow> sony_state \<Rightarrow> 'h mac \<Rightarrow> sony_state \<times> 'h mac" where
  "SonyInterrupt check S E D s =
     (if sony_acc_run_called D then sony_mount_mountable_volumes check S E D s else (D, s))"

section \<open>Error reporting\<close>

definition reports :: "u16 \<times> 'h mac \<Rightarrow> bool" where
  "reports r \<longleftrightarrow> get16 (snd r) DskErr = fst r"

lemma reports_set: "reports (set_dsk_err e s)"
  by (simp add: reports_def set_dsk_err_def)

lemma reports_if: "reports a \<Longrightarrow> reports b \<Longrightarrow> reports (if c then a else b)"
  by simp

lemma reports_Let: "(\<And>x. reports (f x)) \<Longrightarrow> reports (Let v f)"
  by simp

lemma reports_prod: "(\<And>x y. reports (f x y)) \<Longrightarrow> reports (case p of (x, y) \<Rightarrow> f x y)"
  by (cases p) simp

lemma reports_option: "reports a \<Longrightarrow> (\<And>x. reports (f x)) \<Longrightarrow> reports (case m of None \<Rightarrow> a | Some x \<Rightarrow> f x)"
  by (cases m) simp_all

lemmas reports_intros = reports_set reports_if reports_Let reports_prod reports_option

text \<open>Whatever the floppy driver answers is also in the low-memory global DskErr: after every
  Prime and Status call, and after every Control call but the periodic action, DskErr holds
  the result that was returned, on success and on every error path.\<close>

theorem Sony_DskErr:
  "get16 (snd (SonyPrime S pb dce D s)) DskErr = fst (SonyPrime S pb dce D s)
   \<and> get16 (snd (SonyStatus pb dce D s)) DskErr = fst (SonyStatus pb dce D s)
   \<and> (get16 s (pb + csCode) \<noteq> 65 \<longrightarrow>
        get16 (snd (snd (SonyControl check S E patch pb dce D s))) DskErr =
          fst (SonyControl check S E patch pb dce D s))"
proof (intro conjI impI)
  have "reports (SonyPrime S pb dce D s)" "reports (SonyStatus pb dce D s)"
    unfolding SonyPrime_def SonyStatus_def by (intro reports_intros)+
  then show "get16 (snd (SonyPrime S pb dce D s)) DskErr = fst (SonyPrime S pb dce D s)"
    "get16 (snd (SonyStatus pb dce D s)) DskErr = fst (SonyStatus pb dce D s)"
    by (simp_all add: reports_def)
  assume "get16 s (pb + csCode) \<noteq> 65"
  then have "uint (get16 s (pb + csCode)) \<noteq> 65" by (simp add: word_uint_eq_iff)
  then show "get16 (snd (snd (SonyControl check S E patch pb dce D s))) DskErr =
          fst (SonyControl check S E patch pb dce D s)"
    by (simp add: SonyControl_def Let_def set_dsk_err_def split: option.splits prod.splits)
qed

section \<open>Transfers\<close>

text \<open>A request the driver can serve; DskErr and the tag buffer are apart from everything.\<close>

definition sony_ready :: "sony_state \<Rightarrow> nat \<Rightarrow> u32 \<Rightarrow> u32 \<Rightarrow> 'h mac \<Rightarrow> bool" where
  "sony_ready D i pb dce s \<longleftrightarrow>
     (let st = sd_status (sony_drives D ! i); buf = io_buffer pb s; n = io_length pb s in
      sony_get_drive_info (uint (get16 s (pb + ioVRefNum))) (sony_drives D) = Some i
      \<and> sony_place s (sony_drives D ! i) \<noteq> 0
      \<and> get32 s (pb + ioReqCount) AND 0x1ff = 0 \<and> get32 s (dce + dCtlPosition) AND 0x1ff = 0
      \<and> io_apart st pb dce s \<and> sep st 30 dce 52 \<and> sep buf n st 30
      \<and> sep pb 54 DskErr 0x200 \<and> sep dce 52 DskErr 0x200 \<and> sep buf n DskErr 0x200)"

definition sony_offset :: "sony_state \<Rightarrow> nat \<Rightarrow> u32 \<Rightarrow> u32 \<Rightarrow> 'h mac \<Rightarrow> u64" where
  "sony_offset D i pb dce s = ucast (get32 s (dce + dCtlPosition))"

text \<open>The machine after ioActCount has been cleared and the disk marked as accessed.\<close>

definition sony_accessed :: "sony_state \<Rightarrow> nat \<Rightarrow> u32 \<Rightarrow> 'h mac \<Rightarrow> 'h mac" where
  "sony_accessed D i pb s = put8 (sd_status (sony_drives D ! i) + dsDiskInPlace) 2 (put32 (pb + ioActCount) 0 s)"

lemma sony_accessed_params:
  assumes r: "sony_ready D i pb dce s"
  shows "io_buffer pb (sony_accessed D i pb s) = io_buffer pb s"
    "io_length pb (sony_accessed D i pb s) = io_length pb s"
    "get32 (sony_accessed D i pb s) (pb + ioReqCount) = get32 s (pb + ioReqCount)"
    "is_read pb (sony_accessed D i pb s) = is_read pb s"
    "get32 (sony_accessed D i pb s) (dce + dCtlPosition) = get32 s (dce + dCtlPosition)"
    "get_bytes (sony_accessed D i pb s) (io_buffer pb s) (io_length pb s) = get_bytes s (io_buffer pb s) (io_length pb s)"
proof -
  let ?st = "sd_status (sony_drives D ! i)" and ?t = "put32 (pb + ioActCount) 0 s"
  let ?u = "sony_accessed D i pb s"
  have ap: "io_apart ?st pb dce s" "sep ?st 30 dce 52" "sep (io_buffer pb s) (io_length pb s) ?st 30"
    "sep ?st 30 pb 54"
    using r by (simp_all add: sony_ready_def Let_def io_apart_def)
  note par = io_params_kept [OF ap(1)]
  have "sep pb 54 (?st + dsDiskInPlace) 1"
    by (rule sep_sub_right [of pb 54 ?st 30]) (use ap(4) in \<open>simp_all add: sep_sym\<close>)
  then have p: "same_range pb 54 ?u ?t" by (simp add: sony_accessed_def same_range_puts)
  have "sep dce 52 (?st + dsDiskInPlace) 1"
    by (rule sep_sub_right [of dce 52 ?st 30]) (use ap(2) in \<open>simp_all add: sep_sym\<close>)
  then have d: "same_range dce 52 ?u ?t" by (simp add: sony_accessed_def same_range_puts)
  have f32: "get32 ?u (pb + k) = get32 ?t (pb + k)" if "unat k \<le> 50" for k
    by (rule same_range_get32 [OF same_range_sub [OF p, of k 4]]) (use that in simp_all)
  have f16: "get16 ?u (pb + k) = get16 ?t (pb + k)" if "unat k \<le> 50" for k
    by (rule same_range_get16 [OF same_range_sub [OF p, of k 2]]) (use that in simp_all)
  show "io_buffer pb ?u = io_buffer pb s" "io_length pb ?u = io_length pb s"
    "get32 ?u (pb + ioReqCount) = get32 s (pb + ioReqCount)" "is_read pb ?u = is_read pb s"
    using par by (simp_all add: io_buffer_def io_length_def is_read_def f32 f16)
  have "get32 ?u (dce + dCtlPosition) = get32 ?t (dce + dCtlPosition)"
    by (rule same_range_get32 [OF same_range_sub [OF d, of dCtlPosition 4]]) simp_all
  then show "get32 ?u (dce + dCtlPosition) = get32 s (dce + dCtlPosition)" using par by simp
  show "get_bytes ?u (io_buffer pb s) (io_length pb s) = get_bytes s (io_buffer pb s) (io_length pb s)"
  proof (cases "io_length pb s = 0")
    case False
    have "sep (io_buffer pb s) (io_length pb s) (?st + dsDiskInPlace) 1"
      by (rule sep_sub_right [OF ap(3)]) (use False in simp_all)
    then have "get_bytes ?u (io_buffer pb s) (io_length pb s) = get_bytes ?t (io_buffer pb s) (io_length pb s)"
      by (simp add: sony_accessed_def same_range_bytes [OF same_range_puts(1) io_length_bound])
    then show ?thesis by (simp add: io_buffer_kept(2) [OF ap(1)])
  qed (simp add: get_bytes_def mem_read_def)
qed

definition sony_done :: "u32 \<Rightarrow> u32 \<Rightarrow> nat \<Rightarrow> 'h mac \<Rightarrow> 'h mac" where
  "sony_done pb dce n s = snd (set_dsk_err noErr (finish_io pb dce n s))"

definition clear_tags :: "'h mac \<Rightarrow> 'h mac" where
  "clear_tags s = put32 0x304 0 (put32 0x300 0 (put32 0x2fc 0 s))"

lemma SonyPrime_ready:
  assumes r: "sony_ready D i pb dce s"
  shows "SonyPrime S pb dce D s =
     (let u = sony_accessed D i pb s; info = sony_drives D ! i; n = io_length pb s in
      if is_read pb s then
        let (bs, h1) = Sys_read S (sd_fh info) (sony_offset D i pb dce s) n (host s);
            s2 = put_bytes (io_buffer pb s) bs (u\<lparr>host := h1\<rparr>) in
        if length bs \<noteq> n then set_dsk_err readErr s2 else (noErr, sony_done pb dce (length bs) (clear_tags s2))
      else if sd_read_only info then set_dsk_err wPrErr u
      else
        let (actual, h1) = Sys_write S (sd_fh info) (sony_offset D i pb dce s)
              (get_bytes s (io_buffer pb s) n) (host s);
            s2 = u\<lparr>host := h1\<rparr> in
        if actual \<noteq> n then set_dsk_err writErr s2 else (noErr, sony_done pb dce actual s2))"
proof -
  have ap: "io_apart (sd_status (sony_drives D ! i)) pb dce s"
    using r by (simp add: sony_ready_def Let_def)
  note par = io_params_kept [OF ap] and acc = sony_accessed_params [OF r, unfolded sony_accessed_def]
  have h: "host (put8 a v (put32 b w s)) = host s" for a v b w by simp
  show ?thesis
    using r unfolding SonyPrime_def Let_def sony_accessed_def
    by (simp add: par acc sony_ready_def Let_def sony_place_def sony_offset_def sony_done_def
        clear_tags_def set_dsk_err_def split_beta)
qed

lemma low_memory_apart:
  assumes "sep a n DskErr 0x200" and "0 < n"
  shows "sep a n DskErr 2" "sep a n 0x2fc 4" "sep a n 0x300 4" "sep a n 0x304 4"
  using sep_sub_right [OF assms(1), of n 0 2] sep_sub_right [OF assms(1), of n "0x1ba" 4]
    sep_sub_right [OF assms(1), of n "0x1be" 4] sep_sub_right [OF assms(1), of n "0x1c2" 4] assms(2)
  by simp_all

lemma clear_tags_range:
  assumes "sep a n DskErr 0x200" and "0 < n"
  shows "same_range a n (clear_tags s) s"
  unfolding clear_tags_def using low_memory_apart [OF assms]
  by (blast intro: same_range_trans same_range_puts(3))

lemma sony_done_counts:
  assumes r: "sony_ready D i pb dce s"
  shows "get32 (sony_done pb dce n t) (pb + ioActCount) = word_of_nat n"
    and "get32 (sony_done pb dce n t) (dce + dCtlPosition) = get32 t (dce + dCtlPosition) + word_of_nat n"
    and "host (sony_done pb dce n t) = host t"
    and "get_bytes (sony_done pb dce n t) (io_buffer pb s) (io_length pb s)
           = get_bytes t (io_buffer pb s) (io_length pb s)"
proof -
  have ap: "io_apart (sd_status (sony_drives D ! i)) pb dce s"
    and low: "sep pb 54 DskErr 0x200" "sep dce 52 DskErr 0x200" "sep (io_buffer pb s) (io_length pb s) DskErr 0x200"
    using r by (simp_all add: sony_ready_def Let_def)
  then have sp: "sep pb 54 dce 52" by (simp add: io_apart_def)
  let ?f = "finish_io pb dce n t"
  have p: "same_range pb 54 (sony_done pb dce n t) ?f" and d: "same_range dce 52 (sony_done pb dce n t) ?f"
    using low_memory_apart(1) [OF low(1)] low_memory_apart(1) [OF low(2)]
    by (simp_all add: sony_done_def set_dsk_err_def same_range_puts)
  show "get32 (sony_done pb dce n t) (pb + ioActCount) = word_of_nat n"
    using same_range_get32 [OF same_range_sub [OF p, of ioActCount 4]] finish_io_counts(1) [OF sp] by simp
  show "get32 (sony_done pb dce n t) (dce + dCtlPosition) = get32 t (dce + dCtlPosition) + word_of_nat n"
    using same_range_get32 [OF same_range_sub [OF d, of dCtlPosition 4]] finish_io_counts(2) [OF sp] by simp
  show "host (sony_done pb dce n t) = host t"
    by (simp add: sony_done_def set_dsk_err_def finish_io_def Let_def)
  show "get_bytes (sony_done pb dce n t) (io_buffer pb s) (io_length pb s)
           = get_bytes t (io_buffer pb s) (io_length pb s)"
  proof (cases "io_length pb s = 0")
    case False
    then have "same_range (io_buffer pb s) (io_length pb s) (sony_done pb dce n t) ?f"
      using low_memory_apart(1) [OF low(3)] by (simp add: sony_done_def set_dsk_err_def same_range_puts)
    from same_range_bytes [OF this io_length_bound] io_buffer_kept(1) [OF ap, of n t]
    show ?thesis by simp
  qed (simp add: get_bytes_def mem_read_def)
qed

lemma SonyPrime_read:
  assumes r: "sony_ready D i pb dce s" and rd: "is_read pb s"
    and sys: "Sys_read S (sd_fh (sony_drives D ! i)) (sony_offset D i pb dce s) (io_length pb s) (host s) = (bs, h')"
    and len: "length bs = io_length pb s"
  shows "\<exists>s'. SonyPrime S pb dce D s = (noErr, s') \<and> host s' = h'
     \<and> get_bytes s' (io_buffer pb s) (io_length pb s) = bs
     \<and> get32 s' (pb + ioActCount) = get32 s (pb + ioReqCount)
     \<and> get32 s' (dce + dCtlPosition) = get32 s (dce + dCtlPosition) + get32 s (pb + ioReqCount)"
proof -
  let ?u = "sony_accessed D i pb s"
  let ?t = "put_bytes (io_buffer pb s) bs (?u\<lparr>host := h'\<rparr>)"
  have ap: "io_apart (sd_status (sony_drives D ! i)) pb dce s"
    and low: "sep dce 52 DskErr 0x200" "sep (io_buffer pb s) (io_length pb s) DskErr 0x200"
    using r by (simp_all add: sony_ready_def Let_def)
  have eq: "SonyPrime S pb dce D s = (noErr, sony_done pb dce (io_length pb s) (clear_tags ?t))"
    using rd sys len by (simp add: SonyPrime_ready [OF r] Let_def)
  have w: "word_of_nat (io_length pb s) = get32 s (pb + ioReqCount)" by (simp add: io_length_def)
  have "get32 ?t (dce + dCtlPosition) = get32 ?u (dce + dCtlPosition)"
    by (simp add: io_position_kept [OF ap eq_imp_le [OF len]]) (simp add: get32_def)
  then have pos: "get32 (clear_tags ?t) (dce + dCtlPosition) = get32 s (dce + dCtlPosition)"
    using same_range_get32 [OF same_range_sub [OF clear_tags_range [OF low(1)], of dCtlPosition 4 ?t]]
      sony_accessed_params(5) [OF r] by simp
  have data: "get_bytes (clear_tags ?t) (io_buffer pb s) (io_length pb s) = bs"
  proof (cases "io_length pb s = 0")
    case True
    then show ?thesis using len by (simp add: get_bytes_def mem_read_def)
  next
    case False
    have "get_bytes ?t (io_buffer pb s) (io_length pb s) = bs"
      using get_put_bytes [of bs "io_buffer pb s"] len io_length_bound [of pb s] by simp
    moreover have "same_range (io_buffer pb s) (io_length pb s) (clear_tags ?t) ?t"
      by (rule clear_tags_range [OF low(2)]) (use False in simp)
    from same_range_bytes [OF this io_length_bound]
    have "get_bytes (clear_tags ?t) (io_buffer pb s) (io_length pb s) = get_bytes ?t (io_buffer pb s) (io_length pb s)" .
    ultimately show ?thesis by simp
  qed
  show ?thesis
    unfolding eq by (simp add: sony_done_counts [OF r] pos data w)
      (simp add: clear_tags_def)
qed

lemma SonyPrime_write:
  assumes r: "sony_ready D i pb dce s" and wr: "\<not> is_read pb s" and ro: "\<not> sd_read_only (sony_drives D ! i)"
    and sys: "Sys_write S (sd_fh (sony_drives D ! i)) (sony_offset D i pb dce s)
        (get_bytes s (io_buffer pb s) (io_length pb s)) (host s) = (io_length pb s, h')"
  shows "\<exists>s'. SonyPrime S pb dce D s = (noErr, s') \<and> host s' = h'
     \<and> get32 s' (pb + ioActCount) = get32 s (pb + ioReqCount)
     \<and> get32 s' (dce + dCtlPosition) = get32 s (dce + dCtlPosition) + get32 s (pb + ioReqCount)"
proof -
  let ?t = "(sony_accessed D i pb s)\<lparr>host := h'\<rparr>"
  have eq: "SonyPrime S pb dce D s = (noErr, sony_done pb dce (io_length pb s) ?t)"
    using wr ro sys by (simp add: SonyPrime_ready [OF r] Let_def)
  have "get32 ?t (dce + dCtlPosition) = get32 s (dce + dCtlPosition)"
    using sony_accessed_params(5) [OF r] by (simp add: get32_def)
  moreover have "word_of_nat (io_length pb s) = get32 s (pb + ioReqCount)" by (simp add: io_length_def)
  ultimately show ?thesis
    unfolding eq by (simp add: sony_done_counts [OF r])
qed

interpretation floppy: block_driver S "SonyPrime S" sony_ready "\<lambda>D i. sd_fh (sony_drives D ! i)"
    "\<lambda>D i. \<not> sd_read_only (sony_drives D ! i)" sony_offset for S :: "'h sys"
  by unfold_locales (rule SonyPrime_read SonyPrime_write; assumption)+

text \<open>What the floppy driver writes, it reads back: a read of the same drive, position and
  length after a write that went through fills its buffer with the bytes that were written,
  with the full count and the position advanced, for every placement of the blocks that
  keeps them apart from each other and from the low-memory globals the driver updates.\<close>

theorem SonyPrime_write_read:
  assumes "sys_reads_back S"
    and "sony_ready D i pb dce s" "\<not> is_read pb s" "\<not> sd_read_only (sony_drives D ! i)"
    and "Sys_write S (sd_fh (sony_drives D ! i)) (sony_offset D i pb dce s)
        (get_bytes s (io_buffer pb s) (io_length pb s)) (host s) = (io_length pb s, h')"
    and "sony_ready D i pb' dce' t" "is_read pb' t" "host t = host (snd (SonyPrime S pb dce D s))"
    and "sony_offset D i pb' dce' t = sony_offset D i pb dce s" "io_length pb' t = io_length pb s"
  shows "\<exists>t'. SonyPrime S pb' dce' D t = (noErr, t')
     \<and> get_bytes t' (io_buffer pb' t) (io_length pb s) = get_bytes s (io_buffer pb s) (io_length pb s)
     \<and> get32 t' (pb' + ioActCount) = get32 t (pb' + ioReqCount)
     \<and> get32 t' (dce' + dCtlPosition) = get32 t (dce' + dCtlPosition) + get32 t (pb' + ioReqCount)"
  using assms by (rule floppy.write_read)

definition demo_floppy :: sony_state where
  "demo_floppy = \<lparr>sony_drives = [\<lparr>sd_num = 1, sd_fh = 1, sd_to_be_mounted = False, sd_read_only = False,
     sd_status = 0x100\<rparr>], SonyDiskIconAddr = 0, SonyDriveIconAddr = 0, sony_acc_run_called = True\<rparr>"

lemma demo_floppy_pos: "get32 (demo_io trap) 0x2010 = 0"
  by (simp add: demo_io_def mac_mem sep_def) (simp add: mac_get_defs mac_access join32_def)

lemma demo_floppy_ready: "sony_ready demo_floppy 0 0x1000 0x2000 (demo_io trap)"
  by (simp add: sony_ready_def demo_floppy_def sony_get_drive_info_def sony_place_def Let_def
      io_apart_def io_buffer_def io_length_def sep_def demo_io_fields demo_floppy_pos)

theorem SonyPrime_write_read_witness:
  "\<exists>t'. SonyPrime ram_disk 0x1000 0x2000 demo_floppy
       ((demo_io 2)\<lparr>host := host (snd (SonyPrime ram_disk 0x1000 0x2000 demo_floppy (demo_io 3)))\<rparr>) = (noErr, t')
     \<and> get_bytes t' 0x8000 512 = get_bytes (demo_io 3) 0x8000 512"
proof -
  let ?s = "demo_io 3"
  let ?t = "(demo_io 2)\<lparr>host := host (snd (SonyPrime ram_disk 0x1000 0x2000 demo_floppy ?s))\<rparr>"
  have g: "get8 ?t x = get8 (demo_io 2) x" "get16 ?t x = get16 (demo_io 2) x" "get32 ?t x = get32 (demo_io 2) x" for x
    by (simp_all add: mac_get_defs)
  have r: "sony_ready demo_floppy 0 0x1000 0x2000 ?t"
    using demo_floppy_ready [of 2]
    unfolding sony_ready_def g io_apart_def io_buffer_def io_length_def sony_place_def .
  have len: "io_length 0x1000 ?s = 512" "io_length 0x1000 ?t = 512" "io_buffer 0x1000 ?s = 0x8000"
      "io_buffer 0x1000 ?t = 0x8000"
    unfolding io_length_def io_buffer_def g by (simp_all add: demo_io_fields)
  have rd: "\<not> is_read 0x1000 ?s" "is_read 0x1000 ?t"
    unfolding is_read_def g by (simp_all add: demo_io_fields)
  have off: "sony_offset demo_floppy 0 0x1000 0x2000 ?t = sony_offset demo_floppy 0 0x1000 0x2000 ?s"
    unfolding sony_offset_def g by (simp add: demo_floppy_pos)
  obtain h' where "Sys_write ram_disk (sd_fh (sony_drives demo_floppy ! 0)) (sony_offset demo_floppy 0 0x1000 0x2000 ?s)
        (get_bytes ?s (io_buffer 0x1000 ?s) (io_length 0x1000 ?s)) (host ?s) = (io_length 0x1000 ?s, h')"
    by (simp add: ram_disk_def get_bytes_def len)
  from SonyPrime_write_read [OF ram_disk_reads_back demo_floppy_ready rd(1) _ this r rd(2) _ off] len
  show ?thesis by (auto simp: demo_floppy_def)
qed

theorem Sony_DskErr_witness:
  "get16 (snd (snd (SonyControl False ram_disk demo_env (\<lambda>s. s) 0x1000 0x2000 demo_floppy (demo_io 2)))) DskErr =
     fst (SonyControl False ram_disk demo_env (\<lambda>s. s) 0x1000 0x2000 demo_floppy (demo_io 2))"
proof -
  have "get16 (demo_io 2) (0x1000 + csCode) \<noteq> 65"
    by (simp add: demo_io_def mac_mem sep_def) (simp add: mac_get_defs mac_access join16_def)
  then show ?thesis using Sony_DskErr [of ram_disk "0x1000" "0x2000" demo_floppy "demo_io 2" False demo_env "\<lambda>s. s"] by simp
qed

end
