(* ===== verification/CDROM.thy ===== *)
theory CDROM
  imports SysHost
begin

text \<open>
  "cdrom.cpp": the CD-ROM driver. Names that "disk.cpp" also uses carry the prefix \<open>cdrom_\<close>
  or \<open>cd_\<close>. The CD functions of "sys.h" are the parameter record \<open>cdsys\<close>; SysCDReadTOC()
  yields the contents of the TOC buffer after the call. An access outside the TOC buffer gives
  \<open>None\<close>. The "cdrom" preference items are an argument of CDROMInit(), and \<open>junk\<close> gives the
  members the constructor leaves unset.
\<close>

section \<open>BCD tables\<close>

definition bin2bcd :: "u8 list" where
  "bin2bcd = [
     0x00, 0x01, 0x02, 0x03, 0x04, 0x05, 0x06, 0x07, 0x08, 0x09, 0x10, 0x11, 0x12, 0x13, 0x14, 0x15,
     0x16, 0x17, 0x18, 0x19, 0x20, 0x21, 0x22, 0x23, 0x24, 0x25, 0x26, 0x27, 0x28, 0x29, 0x30, 0x31,
     0x32, 0x33, 0x34, 0x35, 0x36, 0x37, 0x38, 0x39, 0x40, 0x41, 0x42, 0x43, 0x44, 0x45, 0x46, 0x47,
     0x48, 0x49, 0x50, 0x51, 0x52, 0x53, 0x54, 0x55, 0x56, 0x57, 0x58, 0x59, 0x60, 0x61, 0x62, 0x63,
     0x64, 0x65, 0x66, 0x67, 0x68, 0x69, 0x70, 0x71, 0x72, 0x73, 0x74, 0x75, 0x76, 0x77, 0x78, 0x79,
     0x80, 0x81, 0x82, 0x83, 0x84, 0x85, 0x86, 0x87, 0x88, 0x89, 0x90, 0x91, 0x92, 0x93, 0x94, 0x95,
     0x96, 0x97, 0x98, 0x99, 0xff, 0xff, 0xff, 0xff, 0xff, 0xff, 0xff, 0xff, 0xff, 0xff, 0xff, 0xff,
     0xff, 0xff, 0xff, 0xff, 0xff, 0xff, 0xff, 0xff, 0xff, 0xff, 0xff, 0xff, 0xff, 0xff, 0xff, 0xff,
     0xff, 0xff, 0xff, 0xff, 0xff, 0xff, 0xff, 0xff, 0xff, 0xff, 0xff, 0xff, 0xff, 0xff, 0xff, 0xff,
     0xff, 0xff, 0xff, 0xff, 0xff, 0xff, 0xff, 0xff, 0xff, 0xff, 0xff, 0xff, 0xff, 0xff, 0xff, 0xff,
     0xff, 0xff, 0xff, 0xff, 0xff, 0xff, 0xff, 0xff, 0xff, 0xff, 0xff, 0xff, 0xff, 0xff, 0xff, 0xff,
     0xff, 0xff, 0xff, 0xff, 0xff, 0xff, 0xff, 0xff, 0xff, 0xff, 0xff, 0xff, 0xff, 0xff, 0xff, 0xff,
     0xff, 0xff, 0xff, 0xff, 0xff, 0xff, 0xff, 0xff, 0xff, 0xff, 0xff, 0xff, 0xff, 0xff, 0xff, 0xff,
     0xff, 0xff, 0xff, 0xff, 0xff, 0xff, 0xff, 0xff, 0xff, 0xff, 0xff, 0xff, 0xff, 0xff, 0xff, 0xff,
     0xff, 0xff, 0xff, 0xff, 0xff, 0xff, 0xff, 0xff, 0xff, 0xff, 0xff, 0xff, 0xff, 0xff, 0xff, 0xff,
     0xff, 0xff, 0xff, 0xff, 0xff, 0xff, 0xff, 0xff, 0xff, 0xff, 0xff, 0xff, 0xff, 0xff, 0xff, 0xff]"

definition bcd2bin :: "u8 list" where
  "bcd2bin = [
     0, 1, 2, 3, 4, 5, 6, 7, 8, 9, 0xff, 0xff, 0xff, 0xff, 0xff, 0xff,
     10, 11, 12, 13, 14, 15, 16, 17, 18, 19, 0xff, 0xff, 0xff, 0xff, 0xff, 0xff,
     20, 21, 22, 23, 24, 25, 26, 27, 28, 29, 0xff, 0xff, 0xff, 0xff, 0xff, 0xff,
     30, 31, 32, 33, 34, 35, 36, 37, 38, 39, 0xff, 0xff, 0xff, 0xff, 0xff, 0xff,
     40, 41, 42, 43, 44, 45, 46, 47, 48, 49, 0xff, 0xff, 0xff, 0xff, 0xff, 0xff,
     50, 51, 52, 53, 54, 55, 56, 57, 58, 59, 0xff, 0xff, 0xff, 0xff, 0xff, 0xff,
     60, 61, 62, 63, 64, 65, 66, 67, 68, 69, 0xff, 0xff, 0xff, 0xff, 0xff, 0xff,
     70, 71, 72, 73, 74, 75, 76, 77, 78, 79, 0xff, 0xff, 0xff, 0xff, 0xff, 0xff,
     80, 81, 82, 83, 84, 85, 86, 87, 88, 89, 0xff, 0xff, 0xff, 0xff, 0xff, 0xff,
     90, 91, 92, 93, 94, 95, 96, 97, 98, 99, 0xff, 0xff, 0xff, 0xff, 0xff, 0xff,
     0xff, 0xff, 0xff, 0xff, 0xff, 0xff, 0xff, 0xff, 0xff, 0xff, 0xff, 0xff, 0xff, 0xff, 0xff, 0xff,
     0xff, 0xff, 0xff, 0xff, 0xff, 0xff, 0xff, 0xff, 0xff, 0xff, 0xff, 0xff, 0xff, 0xff, 0xff, 0xff,
     0xff, 0xff, 0xff, 0xff, 0xff, 0xff, 0xff, 0xff, 0xff, 0xff, 0xff, 0xff, 0xff, 0xff, 0xff, 0xff,
     0xff, 0xff, 0xff, 0xff, 0xff, 0xff, 0xff, 0xff, 0xff, 0xff, 0xff, 0xff, 0xff, 0xff, 0xff, 0xff,
     0xff, 0xff, 0xff, 0xff, 0xff, 0xff, 0xff, 0xff, 0xff, 0xff, 0xff, 0xff, 0xff, 0xff, 0xff, 0xff,
     0xff, 0xff, 0xff, 0xff, 0xff, 0xff, 0xff, 0xff, 0xff, 0xff, 0xff, 0xff, 0xff, 0xff, 0xff, 0xff]"

definition to_bcd :: "u8 \<Rightarrow> u8" where
  "to_bcd b = bin2bcd ! unat b"

definition from_bcd :: "u8 \<Rightarrow> u8" where
  "from_bcd b = bcd2bin ! unat b"

section \<open>Drives\<close>

record cdrom_drive_info =
  cd_num :: int
  cd_fh :: nat
  block_size :: int
  twok_offset :: int
  cd_start_byte :: u64
  cd_to_be_mounted :: bool
  mount_non_hfs :: bool
  toc :: "u8 list"
  lead_out :: "u8 \<times> u8 \<times> u8"
  stop_at :: "u8 \<times> u8 \<times> u8"
  play_mode :: u8
  power_mode :: u8
  cd_status :: u32

record cdrom_state =
  cdrom_drives :: "cdrom_drive_info list"
  CDROMIconAddr :: u32
  cdrom_acc_run_called :: bool

record 'h cdsys =
  SysPreventRemoval :: "nat \<Rightarrow> 'h \<Rightarrow> 'h"
  SysAllowRemoval :: "nat \<Rightarrow> 'h \<Rightarrow> 'h"
  SysCDReadTOC :: "nat \<Rightarrow> u8 list \<Rightarrow> 'h \<Rightarrow> u8 list \<times> 'h"
  SysCDGetPosition :: "nat \<Rightarrow> 'h \<Rightarrow> u8 list option \<times> 'h"
  SysCDPlay :: "nat \<Rightarrow> u8 \<times> u8 \<times> u8 \<Rightarrow> u8 \<times> u8 \<times> u8 \<Rightarrow> 'h \<Rightarrow> bool \<times> 'h"
  SysCDPause :: "nat \<Rightarrow> 'h \<Rightarrow> bool \<times> 'h"
  SysCDResume :: "nat \<Rightarrow> 'h \<Rightarrow> bool \<times> 'h"
  SysCDStop :: "nat \<Rightarrow> u8 \<times> u8 \<times> u8 \<Rightarrow> 'h \<Rightarrow> bool \<times> 'h"
  SysCDScan :: "nat \<Rightarrow> u8 \<times> u8 \<times> u8 \<Rightarrow> bool \<Rightarrow> 'h \<Rightarrow> bool \<times> 'h"
  SysCDSetVolume :: "nat \<Rightarrow> u8 \<Rightarrow> u8 \<Rightarrow> 'h \<Rightarrow> 'h"
  SysCDGetVolume :: "nat \<Rightarrow> 'h \<Rightarrow> (u8 \<times> u8) \<times> 'h"

abbreviation (input) CDROMRefNum :: int where "CDROMRefNum \<equiv> - 62"

definition cdrom_get_drive_info :: "int \<Rightarrow> cdrom_drive_info list \<Rightarrow> nat option" where
  "cdrom_get_drive_info n ds = find_index (\<lambda>d. cd_num d = n) ds"

definition cdrom_find_hfs_partition ::
  "'h sys \<Rightarrow> cdrom_drive_info \<times> 'h mac \<Rightarrow> cdrom_drive_info \<times> 'h mac" where
  "cdrom_find_hfs_partition S ds =
     (case scan_partitions S (cd_fh (fst ds)) 64 0 (host (snd ds)) of
        ((start, blocks), h1) \<Rightarrow> ((fst ds)\<lparr>cd_start_byte := start\<rparr>, (snd ds)\<lparr>host := h1\<rparr>))"

section \<open>The table of contents\<close>

text \<open>The entry at offset \<open>i\<close>: track number, control byte and MSF address.\<close>

definition toc_track :: "u8 list \<Rightarrow> nat \<Rightarrow> u8" where
  "toc_track t i = t ! (i + 2)"

definition toc_msf :: "u8 list \<Rightarrow> nat \<Rightarrow> u8 \<times> u8 \<times> u8" where
  "toc_msf t i = (t ! (i + 5), t ! (i + 6), t ! (i + 7))"

text \<open>The loop over the entries at 4, 12, ..., 796.\<close>

definition toc_offsets :: "nat list" where
  "toc_offsets = map (\<lambda>k. 4 + 8 * k) [0..<100]"

definition find_toc :: "(u8 \<Rightarrow> bool) \<Rightarrow> u8 list \<Rightarrow> nat option" where
  "find_toc P t = find (\<lambda>i. P (toc_track t i)) toc_offsets"

definition read_toc ::
  "'h cdsys \<Rightarrow> cdrom_drive_info \<times> 'h mac \<Rightarrow> cdrom_drive_info \<times> 'h mac" where
  "read_toc C ds =
     (let (d, s) = ds; (t, h1) = SysCDReadTOC C (cd_fh d) (replicate 804 0) (host s);
          d1 = d\<lparr>toc := t, lead_out := (0, 0, 0)\<rparr>
      in (case find_toc (\<lambda>n. n = 0xaa) t of
            None \<Rightarrow> d1
          | Some i \<Rightarrow> d1\<lparr>stop_at := toc_msf t i, lead_out := toc_msf t i\<rparr>, s\<lparr>host := h1\<rparr>))"

definition position2msf ::
  "cdrom_drive_info \<Rightarrow> u16 \<Rightarrow> u32 \<Rightarrow> bool \<Rightarrow> (u8 \<times> u8 \<times> u8) option" where
  "position2msf info postype pos stopping =
     (if postype = 0 then
        Some (ucast (pos div (60 * 75)), ucast ((pos div 75) mod 60), ucast (pos mod 75))
      else if postype = 1 then
        Some (from_bcd (ucast (drop_bit 16 pos)), from_bcd (ucast (drop_bit 8 pos)), from_bcd (ucast pos))
      else if postype = 2 then
        (let track = from_bcd (ucast pos) + (if stopping then 1 else 0)
         in map_option (toc_msf (toc info)) (find_toc (\<lambda>n. n = track \<or> n = 0xaa) (toc info)))
      else None)"

section \<open>Initialisation\<close>

definition cdrom_open_item ::
  "'h sys \<Rightarrow> cdrom_drive_info \<Rightarrow> string \<Rightarrow> cdrom_drive_info list \<times> 'h \<Rightarrow> cdrom_drive_info list \<times> 'h" where
  "cdrom_open_item S junk str dh =
     (let (ds, h) = dh; (f, h1) = Sys_open S str True h
      in if f \<noteq> 0 then (ds @ [junk\<lparr>cd_num := 0, cd_fh := f, cd_start_byte := 0, cd_status := 0\<rparr>], h1)
         else (ds, h1))"

definition CDROMInit ::
  "'h sys \<Rightarrow> cdrom_drive_info \<Rightarrow> string list \<Rightarrow> cdrom_state \<Rightarrow> 'h \<Rightarrow> cdrom_state \<times> 'h" where
  "CDROMInit S junk names D h =
     (case fold (cdrom_open_item S junk) names (cdrom_drives D, h) of
        (ds, h1) \<Rightarrow> (D\<lparr>cdrom_drives := ds\<rparr>, h1))"

definition CDROMExit :: "'h sys \<Rightarrow> 'h cdsys \<Rightarrow> cdrom_state \<Rightarrow> 'h \<Rightarrow> cdrom_state \<times> 'h" where
  "CDROMExit S C D h =
     (D\<lparr>cdrom_drives := []\<rparr>,
      fold (\<lambda>d h. Sys_close S (cd_fh d) (SysAllowRemoval C (cd_fh d) h)) (cdrom_drives D) h)"

section \<open>Insertion and mounting\<close>

definition cdrom_upd :: "nat \<Rightarrow> (cdrom_drive_info \<Rightarrow> cdrom_drive_info) \<Rightarrow> cdrom_state \<Rightarrow> cdrom_state" where
  "cdrom_upd i f D = D\<lparr>cdrom_drives := (cdrom_drives D)[i := f (cdrom_drives D ! i)]\<rparr>"

definition cdrom_insert ::
  "'h sys \<Rightarrow> 'h cdsys \<Rightarrow> cdrom_drive_info \<Rightarrow> 'h mac \<Rightarrow> cdrom_drive_info \<times> 'h mac" where
  "cdrom_insert S C d s =
     cdrom_find_hfs_partition S (read_toc C
       (d, put8 (cd_status d + dsDiskInPlace) 1 (s\<lparr>host := SysPreventRemoval C (cd_fh d) (host s)\<rparr>)))"

definition CDROMMountVolume ::
  "'h sys \<Rightarrow> 'h cdsys \<Rightarrow> nat \<Rightarrow> cdrom_state \<Rightarrow> 'h mac \<Rightarrow> bool \<times> cdrom_state \<times> 'h mac" where
  "CDROMMountVolume S C f D s =
     (case find_index (\<lambda>d. cd_fh d = f) (cdrom_drives D) of
        None \<Rightarrow> (False, D, s)
      | Some i \<Rightarrow>
          if SysIsDiskInserted S (cd_fh (cdrom_drives D ! i)) (host s) then
            (let (d1, s1) = cdrom_insert S C (cdrom_drives D ! i) s;
                 d2 = (if cd_start_byte d1 \<noteq> 0 \<or> mount_non_hfs d1 then d1\<lparr>cd_to_be_mounted := True\<rparr> else d1)
             in (True, cdrom_upd i (\<lambda>_. d2) D, s1))
          else (True, D, s))"

definition cdrom_mount_drive ::
  "'h sys \<Rightarrow> 'h cdsys \<Rightarrow> 'h env68k \<Rightarrow> nat \<Rightarrow> cdrom_state \<times> 'h mac \<Rightarrow> cdrom_state \<times> 'h mac" where
  "cdrom_mount_drive S C E i Ds =
     (let (D, s) = Ds;
          (D1, s1) = (if get8 s (cd_status (cdrom_drives D ! i) + dsDiskInPlace) = 0
                         \<and> SysIsDiskInserted S (cd_fh (cdrom_drives D ! i)) (host s) then
                        snd (CDROMMountVolume S C (cd_fh (cdrom_drives D ! i)) D s)
                      else (D, s))
      in if cd_to_be_mounted (cdrom_drives D1 ! i) then
           (cdrom_upd i (\<lambda>d. d\<lparr>cd_to_be_mounted := False\<rparr>) D1,
            snd (Execute68kTrap E 0xa02f
                   (set_a 0 7 (set_d 0 (word_of_int (cd_num (cdrom_drives D1 ! i))) (stack_junk E))) s1))
         else (D1, s1))"

definition cdrom_mount_mountable_volumes ::
  "'h sys \<Rightarrow> 'h cdsys \<Rightarrow> 'h env68k \<Rightarrow> cdrom_state \<Rightarrow> 'h mac \<Rightarrow> cdrom_state \<times> 'h mac" where
  "cdrom_mount_mountable_volumes S C E D s =
     fold (cdrom_mount_drive S C E) [0..<length (cdrom_drives D)] (D, s)"

section \<open>Open\<close>

definition cdrom_open_drive ::
  "'h sys \<Rightarrow> 'h cdsys \<Rightarrow> 'h env68k \<Rightarrow> nat \<Rightarrow> cdrom_state \<times> 'h mac \<Rightarrow> (cdrom_state \<times> 'h mac) option" where
  "cdrom_open_drive S C E i Ds =
     (let (D, s) = Ds in
      case FindFreeDriveNumber s 1 of
        None \<Rightarrow> None
      | Some n \<Rightarrow>
          let d = (cdrom_drives D ! i)\<lparr>cd_num := n, cd_to_be_mounted := False\<rparr> in
          if cd_fh d \<noteq> 0 then
            let d1 = d\<lparr>mount_non_hfs := True, block_size := 512, twok_offset := - 1, play_mode := 0x09,
                       power_mode := 0\<rparr>;
                (r, s1) = Execute68kTrap E 0xa71e (set_d 0 SIZEOF_DrvSts (stack_junk E)) s in
            if areg r 0 = 0 then Some (cdrom_upd i (\<lambda>_. d1) D, s1)
            else
              let d2 = d1\<lparr>cd_status := areg r 0\<rparr>;
                  s2 = put8 (cd_status d2 + dsSides) 1 (put8 (cd_status d2 + dsInstalled) 1
                         (put8 (cd_status d2 + dsWriteProt) 0x80 s1));
                  (d3, s3) = (if SysIsDiskInserted S (cd_fh d2) (host s2) then
                                apfst (\<lambda>x. x\<lparr>cd_to_be_mounted := True\<rparr>) (cdrom_insert S C d2 s2)
                              else (d2, s2));
                  r2 = set_a 0 (cd_status d3 + dsQLink)
                         (set_d 0 (push_bit 16 (word_of_int n) OR (word_of_int CDROMRefNum AND 0xffff)) r);
                  s4 = snd (Execute68kTrap E 0xa04e r2 s3)
              in Some (cdrom_upd i (\<lambda>_. d3) D, s4)
          else Some (cdrom_upd i (\<lambda>_. d) D, s))"

fun cdrom_open_drives ::
  "'h sys \<Rightarrow> 'h cdsys \<Rightarrow> 'h env68k \<Rightarrow> nat list \<Rightarrow> cdrom_state \<times> 'h mac \<Rightarrow> (cdrom_state \<times> 'h mac) option" where
  "cdrom_open_drives S C E [] Ds = Some Ds"
| "cdrom_open_drives S C E (i # is) Ds =
     Option.bind (cdrom_open_drive S C E i Ds) (cdrom_open_drives S C E is)"

definition CDROMOpen ::
  "'h sys \<Rightarrow> 'h cdsys \<Rightarrow> 'h env68k \<Rightarrow> u32 \<Rightarrow> u32 \<Rightarrow> cdrom_state \<Rightarrow> 'h mac \<Rightarrow>
     (u16 \<times> cdrom_state \<times> 'h mac) option" where
  "CDROMOpen S C E pb dce D s =
     map_option (\<lambda>Ds. (noErr, Ds))
       (cdrom_open_drives S C E [0..<length (cdrom_drives D)]
          (D\<lparr>cdrom_acc_run_called := False\<rparr>, put32 (dce + dCtlPosition) 0 s))"

section \<open>Prime\<close>

definition CDROMPrime :: "'h sys \<Rightarrow> u32 \<Rightarrow> u32 \<Rightarrow> cdrom_state \<Rightarrow> 'h mac \<Rightarrow> u16 \<times> cdrom_state \<times> 'h mac" where
  "CDROMPrime S pb dce D s0 =
     (let s = put32 (pb + ioActCount) 0 s0 in
      case cdrom_get_drive_info (uint (get16 s (pb + ioVRefNum))) (cdrom_drives D) of
        None \<Rightarrow> (nsDrvErr, D, s)
      | Some i \<Rightarrow>
          let info = cdrom_drives D ! i; len = io_length pb s;
              position = get32 s (dce + dCtlPosition); start = ucast position + cd_start_byte info;
              mask = block_size info - 1 in
          if get8 s (cd_status info + dsDiskInPlace) = 0 then (offLinErr, D, s)
          else if int len AND mask \<noteq> 0 \<or> uint position AND mask \<noteq> 0 then (paramErr, D, s)
          else
            let D1 = cdrom_upd i (\<lambda>d. d\<lparr>twok_offset := uint (start AND 0x7ff)\<rparr>) D in
            if is_read pb s then
              let (bs, h1) = Sys_read S (cd_fh info) start len (host s);
                  s1 = put_bytes (io_buffer pb s) bs (s\<lparr>host := h1\<rparr>) in
              if length bs = len then (noErr, D1, finish_io pb dce len s1)
              else if len = 0x200 \<and> position = 0x400 then
                (noErr, D1, finish_io pb dce 0x200 (s1\<lparr>mem := Mac_memset (io_buffer pb s) 0 0x200 (mem s1)\<rparr>))
              else (readErr, D1, s1)
            else (wPrErr, D1, s))"

section \<open>Control\<close>

definition cd_in_place :: "'h mac \<Rightarrow> cdrom_drive_info \<Rightarrow> u8" where
  "cd_in_place s d = get8 s (cd_status d + dsDiskInPlace)"

text \<open>Code 100: the table of contents. The loop of action 3 starts at the entry of the track and
  stops after the lead-out entry or when the 16-bit size of the buffer has been counted to 0.\<close>

definition put_toc_entry :: "u8 list \<Rightarrow> nat \<Rightarrow> u32 \<Rightarrow> 'h mac \<Rightarrow> 'h mac" where
  "put_toc_entry t i buf s =
     put8 (buf + 3) (to_bcd (t ! (i + 7))) (put8 (buf + 2) (to_bcd (t ! (i + 6)))
       (put8 (buf + 1) (to_bcd (t ! (i + 5))) (put8 buf (t ! (i + 1) AND 0x0f) s)))"

function fill_toc :: "u8 list \<Rightarrow> nat \<Rightarrow> u32 \<Rightarrow> u16 \<Rightarrow> 'h mac \<Rightarrow> 'h mac option" where
  "fill_toc t i buf buf_size s =
     (if buf_size = 0 then Some s
      else if length t \<le> i + 7 then None
      else if t ! (i + 2) = 0xaa then Some (put_toc_entry t i buf s)
      else fill_toc t (i + 8) (buf + 4) (buf_size - 4) (put_toc_entry t i buf s))"
  by pat_completeness auto

termination
  by (relation "measure (\<lambda>(t, i, buf, buf_size, s). length t - i)") auto

declare fill_toc.simps [simp del]

definition cdrom_read_toc :: "cdrom_drive_info \<Rightarrow> u32 \<Rightarrow> 'h mac \<Rightarrow> (u16 \<times> 'h mac) option" where
  "cdrom_read_toc info pb s =
     (let p = pb + csParam; action = uint (get16 s p); t = toc info; (lm, ls, lf) = lead_out info in
      if cd_in_place s info = 0 then Some (offLinErr, s)
      else if action = 1 then
        Some (noErr, put16 (p + 2) 0 (put8 (p + 1) (to_bcd (t ! 3)) (put8 p (to_bcd (t ! 2)) s)))
      else if action = 2 then
        Some (noErr, put8 (p + 3) 0 (put8 (p + 2) (to_bcd lf) (put8 (p + 1) (to_bcd ls) (put8 p (to_bcd lm) s))))
      else if action = 3 then
        (let buf = get32 s (p + 2); buf_size = get16 s (p + 6); track = from_bcd (get8 s (p + 8)) in
         case find_toc (\<lambda>n. n = track) t of
           None \<Rightarrow> Some (noErr, s)
         | Some i \<Rightarrow> map_option (Pair noErr) (fill_toc t i buf buf_size s))
      else if action = 5 then
        Some (noErr, put8 (p + 9) (to_bcd (t ! 11)) (put8 (p + 8) (to_bcd (t ! 10)) (put8 (p + 7) (to_bcd (t ! 9))
          (put8 (p + 6) (t ! 5 AND 0x0f) (put16 (p + 4) (ucast (to_bcd (t ! 2)))
            (put16 (p + 2) 1 (put16 p 1 s)))))))
      else Some (paramErr, s))"

text \<open>Code 101: the Q subcode at the current position.\<close>

definition read_q_subcode :: "'h cdsys \<Rightarrow> cdrom_drive_info \<Rightarrow> u32 \<Rightarrow> 'h mac \<Rightarrow> u16 \<times> 'h mac" where
  "read_q_subcode C info pb s =
     (let p = pb + csParam in
      if cd_in_place s info = 0 then (offLinErr, s\<lparr>mem := Mac_memset p 0 10 (mem s)\<rparr>)
      else case SysCDGetPosition C (cd_fh info) (host s) of
        (None, h1) \<Rightarrow> (ioErr, s\<lparr>host := h1\<rparr>)
      | (Some pos, h1) \<Rightarrow>
          (noErr,
           put8 (p + 9) 0 (put8 (p + 8) (to_bcd (pos ! 11)) (put8 (p + 7) (to_bcd (pos ! 10))
            (put8 (p + 6) (to_bcd (pos ! 9)) (put8 (p + 5) (to_bcd (pos ! 15)) (put8 (p + 4) (to_bcd (pos ! 14))
             (put8 (p + 3) (to_bcd (pos ! 13)) (put8 (p + 2) (to_bcd (pos ! 7)) (put8 (p + 1) (to_bcd (pos ! 6))
              (put8 p (pos ! 5 AND 0x0f) (s\<lparr>host := h1\<rparr>))))))))))))"

text \<open>Codes 103 to 108: the audio player. \<open>sys_try\<close> is a call of a CD function that can fail.\<close>

definition sys_try :: "('h \<Rightarrow> bool \<times> 'h) \<Rightarrow> 'h mac \<Rightarrow> bool \<times> 'h mac" where
  "sys_try f s = (case f (host s) of (ok, h1) \<Rightarrow> (ok, s\<lparr>host := h1\<rparr>))"

definition audio_track_search ::
  "'h cdsys \<Rightarrow> cdrom_drive_info \<Rightarrow> u32 \<Rightarrow> 'h mac \<Rightarrow> u16 \<times> cdrom_drive_info \<times> 'h mac" where
  "audio_track_search C info pb s =
     (let p = pb + csParam in
      if cd_in_place s info = 0 then (offLinErr, info, s)
      else case position2msf info (get16 s p) (get32 s (p + 2)) False of
        None \<Rightarrow> (paramErr, info, s)
      | Some start \<Rightarrow>
          let info1 = info\<lparr>play_mode := get8 s (p + 9) AND 0x0f\<rparr>;
              (ok, s1) = sys_try (SysCDPlay C (cd_fh info1) start (stop_at info1)) s in
          if \<not> ok then (paramErr, info1, s1)
          else if get16 s1 (p + 6) = 0 then (noErr, info1, snd (sys_try (SysCDPause C (cd_fh info1)) s1))
          else (noErr, info1, s1))"

definition audio_play ::
  "'h cdsys \<Rightarrow> cdrom_drive_info \<Rightarrow> u32 \<Rightarrow> 'h mac \<Rightarrow> u16 \<times> cdrom_drive_info \<times> 'h mac" where
  "audio_play C info pb s =
     (let p = pb + csParam in
      if cd_in_place s info = 0 then (offLinErr, info, s)
      else if get16 s (p + 6) \<noteq> 0 then
        (case position2msf info (get16 s p) (get32 s (p + 2)) True of
           None \<Rightarrow> (paramErr, info, s)
         | Some stop \<Rightarrow> (noErr, info\<lparr>stop_at := stop\<rparr>, s))
      else
        (case position2msf info (get16 s p) (get32 s (p + 2)) False of
           None \<Rightarrow> (paramErr, info, s)
         | Some start \<Rightarrow>
             let info1 = info\<lparr>play_mode := get8 s (p + 9) AND 0x0f\<rparr>;
                 (ok, s1) = sys_try (SysCDPlay C (cd_fh info1) start (stop_at info1)) s in
             (if ok then noErr else paramErr, info1, s1)))"

definition audio_pause :: "'h cdsys \<Rightarrow> cdrom_drive_info \<Rightarrow> u32 \<Rightarrow> 'h mac \<Rightarrow> u16 \<times> 'h mac" where
  "audio_pause C info pb s =
     (if cd_in_place s info = 0 then (offLinErr, s)
      else if get32 s (pb + csParam) = 0 then
        apfst (\<lambda>ok. if ok then noErr else paramErr) (sys_try (SysCDResume C (cd_fh info)) s)
      else if get32 s (pb + csParam) = 1 then
        apfst (\<lambda>ok. if ok then noErr else paramErr) (sys_try (SysCDPause C (cd_fh info)) s)
      else (paramErr, s))"

definition audio_stop ::
  "'h cdsys \<Rightarrow> cdrom_drive_info \<Rightarrow> u32 \<Rightarrow> 'h mac \<Rightarrow> u16 \<times> cdrom_drive_info \<times> 'h mac" where
  "audio_stop C info pb s =
     (let p = pb + csParam in
      if cd_in_place s info = 0 then (offLinErr, info, s)
      else if get16 s p = 0 \<and> get32 s (p + 2) = 0 then
        (let (ok, s1) = sys_try (SysCDStop C (cd_fh info) (lead_out info)) s
         in (if ok then noErr else paramErr, info, s1))
      else
        (case position2msf info (get16 s p) (get32 s (p + 2)) True of
           None \<Rightarrow> (paramErr, info, s)
         | Some stop \<Rightarrow> (noErr, info\<lparr>stop_at := stop\<rparr>, s)))"

definition audio_state_code :: "u8 \<Rightarrow> u8" where
  "audio_state_code c =
     (if c = 0x11 then 0 else if c = 0x12 then 1 else if c = 0x13 then 3 else if c = 0x14 then 4 else 5)"

definition audio_status :: "'h cdsys \<Rightarrow> cdrom_drive_info \<Rightarrow> u32 \<Rightarrow> 'h mac \<Rightarrow> u16 \<times> 'h mac" where
  "audio_status C info pb s =
     (let p = pb + csParam in
      if cd_in_place s info = 0 then (offLinErr, s)
      else case SysCDGetPosition C (cd_fh info) (host s) of
        (None, h1) \<Rightarrow> (paramErr, s\<lparr>host := h1\<rparr>)
      | (Some pos, h1) \<Rightarrow>
          (noErr, put8 (p + 5) (to_bcd (pos ! 11)) (put8 (p + 4) (to_bcd (pos ! 10))
            (put8 (p + 3) (to_bcd (pos ! 9)) (put8 (p + 2) (pos ! 5 AND 0x0f)
              (put8 (p + 1) (play_mode info) (put8 p (audio_state_code (pos ! 1)) (s\<lparr>host := h1\<rparr>))))))))"

definition audio_scan :: "'h cdsys \<Rightarrow> cdrom_drive_info \<Rightarrow> u32 \<Rightarrow> 'h mac \<Rightarrow> u16 \<times> 'h mac" where
  "audio_scan C info pb s =
     (let p = pb + csParam in
      if cd_in_place s info = 0 then (offLinErr, s)
      else case position2msf info (get16 s p) (get32 s (p + 2)) False of
        None \<Rightarrow> (paramErr, s)
      | Some start \<Rightarrow>
          apfst (\<lambda>ok. if ok then noErr else paramErr)
            (sys_try (SysCDScan C (cd_fh info) start (get16 s (p + 6) \<noteq> 0)) s))"

text \<open>The codes from 109 on.\<close>

definition cdrom_other_control ::
  "'h cdsys \<Rightarrow> int \<Rightarrow> cdrom_drive_info \<Rightarrow> u32 \<Rightarrow> 'h mac \<Rightarrow> u16 \<times> 'h mac" where
  "cdrom_other_control C code info pb s =
     (let p = pb + csParam in
      if code = 109 then
        (noErr, s\<lparr>host := SysCDSetVolume C (cd_fh info) (get8 s p) (get8 s (p + 1)) (host s)\<rparr>)
      else if code = 112 then
        (case SysCDGetVolume C (cd_fh info) (host s) of
           ((left, right), h1) \<Rightarrow> (noErr, put8 (p + 1) right (put8 p left (s\<lparr>host := h1\<rparr>))))
      else if code = 113 then (noErr, put16 p 0xff s)
      else if code = 114 then (noErr, s)
      else if code = 126 then (noErr, put16 p 0 s)
      else (controlErr, s))"

text \<open>The codes for a drive. They leave the driver's other drives alone.\<close>

definition cdrom_drive_control ::
  "'h sys \<Rightarrow> 'h cdsys \<Rightarrow> cdrom_state \<Rightarrow> int \<Rightarrow> cdrom_drive_info \<Rightarrow> u32 \<Rightarrow> 'h mac \<Rightarrow>
     (u16 \<times> cdrom_drive_info \<times> 'h mac) option" where
  "cdrom_drive_control S C D code info pb s =
     (let p = pb + csParam; place = cd_in_place s info; same = map_option (\<lambda>(err, t). (err, info, t)) in
      if code = 5 then Some (if place > 0 then noErr else offLinErr, info, s)
      else if code = 6 then Some (writErr, info, s)
      else if code = 7 then
        (if place > 0 then
           Some (noErr, info\<lparr>twok_offset := - 1\<rparr>,
             put8 (cd_status info + dsDiskInPlace) 0
               (s\<lparr>host := SysEject S (cd_fh info) (SysAllowRemoval C (cd_fh info) (host s))\<rparr>))
         else Some (noErr, info, s))
      else if code = 21 \<or> code = 22 then Some (noErr, info, put32 p (CDROMIconAddr D) s)
      else if code = 23 then Some (noErr, info, put32 p 0x00000b01 s)
      else if code = 70 then
        (if get8 s p > 3 then Some (paramErr, info, s)
         else Some (noErr, info\<lparr>power_mode := get8 s p\<rparr>, s))
      else if code = 76 then Some (noErr, info\<lparr>mount_non_hfs := (get16 s p \<noteq> 0)\<rparr>, s)
      else if code = 79 then
        (if get16 s p \<noteq> 512 \<and> get16 s p \<noteq> 2048 then Some (paramErr, info, s)
         else Some (noErr, info\<lparr>block_size := uint (get16 s p)\<rparr>, s))
      else if code = 80 then
        (if place > 0 then
           Some (noErr, info,
             s\<lparr>host := (if get16 s p = 1 then SysAllowRemoval C else SysPreventRemoval C) (cd_fh info) (host s)\<rparr>)
         else Some (offLinErr, info, s))
      else if code = 100 then same (cdrom_read_toc info pb s)
      else if code = 101 then same (Some (read_q_subcode C info pb s))
      else if code = 103 then Some (audio_track_search C info pb s)
      else if code = 104 then Some (audio_play C info pb s)
      else if code = 105 then same (Some (audio_pause C info pb s))
      else if code = 106 then Some (audio_stop C info pb s)
      else if code = 107 then same (Some (audio_status C info pb s))
      else if code = 108 then same (Some (audio_scan C info pb s))
      else same (Some (cdrom_other_control C code info pb s)))"

text \<open>An unknown drive number selects the first drive.\<close>

definition cdrom_select :: "u32 \<Rightarrow> cdrom_state \<Rightarrow> 'h mac \<Rightarrow> nat option" where
  "cdrom_select pb D s =
     (case cdrom_get_drive_info (uint (get16 s (pb + ioVRefNum))) (cdrom_drives D) of
        Some i \<Rightarrow> Some i | None \<Rightarrow> if cdrom_drives D = [] then None else Some 0)"

definition CDROMControl ::
  "'h sys \<Rightarrow> 'h cdsys \<Rightarrow> 'h env68k \<Rightarrow> u32 \<Rightarrow> u32 \<Rightarrow> cdrom_state \<Rightarrow> 'h mac \<Rightarrow>
     (u16 \<times> cdrom_state \<times> 'h mac) option" where
  "CDROMControl S C E pb dce D s =
     (let code = uint (get16 s (pb + csCode)) in
      if code = 1 then Some (noErr, D, s)
      else if code = 65 then
        (let (D1, s1) = cdrom_mount_mountable_volumes S C E D s;
             s2 = put16 (dce + dCtlFlags) (get16 s1 (dce + dCtlFlags) AND NOT 0x2000) s1
         in Some (noErr, D1\<lparr>cdrom_acc_run_called := True\<rparr>, s2))
      else if code = 81 then Some (noErr, D, put16 (dce + dCtlDelay) (get16 s (pb + csParam)) s)
      else
        (case cdrom_select pb D s of
           None \<Rightarrow> Some (nsDrvErr, D, s)
         | Some i \<Rightarrow>
             map_option (\<lambda>(err, d, t). (err, cdrom_upd i (\<lambda>_. d) D, t))
               (cdrom_drive_control S C D code (cdrom_drives D ! i) pb s)))"

section \<open>Status\<close>

definition cdrom_gestalt :: "u32 \<Rightarrow> cdrom_drive_info option \<Rightarrow> 'h mac \<Rightarrow> 'h mac option" where
  "cdrom_gestalt pb info s =
     (let sel = get32 s (pb + csParam); out = pb + csParam + 4 in
      if sel = fourcc_string ''vers'' then Some (put32 out 0x05208000 s)
      else if sel = fourcc_string ''devt'' then Some (put32 out (fourcc_string ''cdrm'') s)
      else if sel = fourcc_string ''intf'' then Some (put32 out EMULATOR_ID_4 s)
      else if sel = fourcc_string ''sync'' then Some (put32 out 0x01000000 s)
      else if sel = fourcc_string ''boot'' then
        Some (put16 (pb + csParam + 6) (word_of_int CDROMRefNum)
               (put16 out (case info of Some d \<Rightarrow> word_of_int (cd_num d) | None \<Rightarrow> 0) s))
      else if sel = fourcc_string ''wide'' then Some (put16 out 0 s)
      else if sel = fourcc_string ''purg'' then Some (put32 out 0 s)
      else if sel = fourcc_string ''ejec'' then Some (put32 out 0x00030003 s)
      else if sel = fourcc_string ''flus'' then Some (put16 out 0 s)
      else if sel = fourcc_string ''vmop'' then Some (put32 out 0 s)
      else None)"

definition drives_present :: "cdrom_drive_info list \<Rightarrow> u8" where
  "drives_present ds =
     fold (\<lambda>d b. if cd_num d \<le> 6 then b OR push_bit (nat (cd_num d)) 1 else b) ds 0"

definition cdrom_drive_status :: "'h sys \<Rightarrow> int \<Rightarrow> cdrom_drive_info \<Rightarrow> u32 \<Rightarrow> 'h mac \<Rightarrow> u16 \<times> 'h mac" where
  "cdrom_drive_status S code info pb s =
     (let p = pb + csParam in
      if code = 6 then
        (if get16 s p > 0 then
           (let adr = get32 s (p + 2) in
            (noErr, put32 (adr + 4) 0 (put32 adr (size_blocks S (cd_fh info) (host s)) (put16 p 1 s))))
         else (paramErr, s))
      else if code = 8 then (noErr, s\<lparr>mem := Mac2Mac_memcpy p (cd_status info) 22 (mem s)\<rparr>)
      else if code = 70 then (noErr, put16 p (push_bit 8 (ucast (power_mode info))) s)
      else if code = 95 then
        (if twok_offset info > 0 then (noErr, put16 p (word_of_int (twok_offset info)) s) else (statusErr, s))
      else if code = 96 then (noErr, put16 p 3 s)
      else if code = 98 then (noErr, put16 p (word_of_int (block_size info)) s)
      else if code = 120 then (noErr, put32 p 0 s)
      else if code = 121 then (noErr, put16 (p + 2) 0x0c00 (put16 p 0x0200 s))
      else (statusErr, s))"

definition CDROMStatus :: "'h sys \<Rightarrow> u32 \<Rightarrow> u32 \<Rightarrow> cdrom_state \<Rightarrow> 'h mac \<Rightarrow> u16 \<times> 'h mac" where
  "CDROMStatus S pb dce D s =
     (let info = cdrom_get_drive_info (uint (get16 s (pb + ioVRefNum))) (cdrom_drives D);
          code = uint (get16 s (pb + csCode)) in
      if code = 43 then
        (case cdrom_gestalt pb (map_option (\<lambda>i. cdrom_drives D ! i) info) s of
           None \<Rightarrow> (statusErr, s) | Some s1 \<Rightarrow> (noErr, s1))
      else if code = 97 then (noErr, put8 (pb + csParam + 1) (drives_present (cdrom_drives D)) s)
      else
        (case cdrom_select pb D s of
           None \<Rightarrow> (nsDrvErr, s)
         | Some i \<Rightarrow> cdrom_drive_status S code (cdrom_drives D ! i) pb s))"

definition CDROMInterrupt ::
  "'h sys \<Rightarrow> 'h cdsys \<Rightarrow> 'h env68k \<Rightarrow> cdrom_state \<Rightarrow> 'h mac \<Rightarrow> cdrom_state \<times> 'h mac" where
  "CDROMInterrupt S C E D s =
     (if cdrom_acc_run_called D then cdrom_mount_mountable_volumes S C E D s else (D, s))"

section \<open>BCD and positions\<close>

lemma to_bcd_table: "\<forall>n \<in> set [0..<256].
    bin2bcd ! n = (if n < 100 then word_of_nat (16 * (n div 10) + n mod 10) else 0xff)"
  by code_simp

lemma from_bcd_table: "\<forall>n \<in> set [0..<256]. bcd2bin ! n =
    (if n div 16 < 10 \<and> n mod 16 < 10 then word_of_nat (10 * (n div 16) + n mod 16) else 0xff)"
  by code_simp

lemma unat_u8_bound: "unat (x :: u8) < 256"
  using unsigned_less [of x, where 'a = nat] by simp

lemma unat_of_nat8: "n < 256 \<Longrightarrow> unat (word_of_nat n :: u8) = n"
  by (simp add: unsigned_of_nat take_bit_nat_eq_self)

lemma to_bcd: "to_bcd b = (if unat b < 100 then word_of_nat (16 * (unat b div 10) + unat b mod 10) else 0xff)"
  using to_bcd_table unat_u8_bound [of b] unfolding to_bcd_def by (simp add: Ball_def)

lemma from_bcd: "from_bcd b = (if unat b div 16 < 10 \<and> unat b mod 16 < 10
    then word_of_nat (10 * (unat b div 16) + unat b mod 16) else 0xff)"
  using from_bcd_table unat_u8_bound [of b] unfolding from_bcd_def by (simp add: Ball_def)

lemma from_to_bcd: "unat b < 100 \<Longrightarrow> from_bcd (to_bcd b) = b"
proof -
  assume b: "unat b < 100"
  define n where "n = unat b"
  have n: "n < 100" using b by (simp add: n_def)
  then have "16 * (n div 10) + n mod 10 < 256" by linarith
  from unat_of_nat8 [OF this] have u: "unat (to_bcd b) = 16 * (n div 10) + n mod 10"
    using n by (simp only: to_bcd n_def if_True)
  have "(16 * (n div 10) + n mod 10) div 16 = n div 10" "(16 * (n div 10) + n mod 10) mod 16 = n mod 10"
    using n by simp_all
  moreover have "n div 10 < 10" "n mod 10 < 10" using n by linarith+
  ultimately have "from_bcd (to_bcd b) = word_of_nat (10 * (n div 10) + n mod 10)"
    unfolding from_bcd u by simp
  also have "10 * (n div 10) + n mod 10 = n" by simp
  finally show ?thesis by (simp add: n_def)
qed

section \<open>Playing tracks\<close>

text \<open>A table of contents with the tracks 1 to \<open>m\<close> in order and the lead-out after them.\<close>

definition toc_tracks :: "u8 list \<Rightarrow> nat \<Rightarrow> bool" where
  "toc_tracks t m \<longleftrightarrow> m \<le> 99 \<and> (\<forall>k < m. toc_track t (4 + 8 * k) = word_of_nat (Suc k))
     \<and> toc_track t (4 + 8 * m) = 0xaa"

lemma find_toc_Some:
  assumes "k < 100" and "P (toc_track t (4 + 8 * k))" and "\<And>j. j < k \<Longrightarrow> \<not> P (toc_track t (4 + 8 * j))"
  shows "find_toc P t = Some (4 + 8 * k)"
  unfolding find_toc_def find_Some_iff toc_offsets_def using assms by (intro exI [of _ k]) auto

lemma track_position:
  assumes t: "toc_tracks t m" and "n \<le> m"
  shows "find_toc (\<lambda>x. x = word_of_nat (Suc n) \<or> x = 0xaa) t = Some (4 + 8 * n)"
proof (rule find_toc_Some)
  have m: "m \<le> 99" using t by (simp add: toc_tracks_def)
  show "n < 100" using assms m by simp
  show "toc_track t (4 + 8 * n) = word_of_nat (Suc n) \<or> toc_track t (4 + 8 * n) = 0xaa"
    using assms by (cases "n = m") (auto simp: toc_tracks_def)
  fix j assume j: "j < n"
  then have "toc_track t (4 + 8 * j) = word_of_nat (Suc j)" using assms by (simp add: toc_tracks_def)
  moreover have u: "unat (word_of_nat (Suc j) :: u8) = Suc j" "unat (word_of_nat (Suc n) :: u8) = Suc n"
    using j assms(2) m by (simp_all only: unat_of_nat8)
  moreover have "(word_of_nat (Suc j) :: u8) \<noteq> word_of_nat (Suc n)" using u j by (metis Suc_inject less_irrefl)
  moreover have "(word_of_nat (Suc j) :: u8) \<noteq> 0xaa"
  proof
    assume "(word_of_nat (Suc j) :: u8) = 0xaa"
    then have "Suc j = 170" using u(1) by simp
    then show False using j assms(2) m by simp
  qed
  ultimately show "\<not> (toc_track t (4 + 8 * j) = word_of_nat (Suc n) \<or> toc_track t (4 + 8 * j) = 0xaa)"
    by simp
qed

lemma position2msf_track:
  assumes t: "toc_tracks (toc info) m" and n: "1 \<le> n" "n \<le> m" and pos: "ucast pos = to_bcd (word_of_nat n)"
  shows "position2msf info 2 pos False = Some (toc_msf (toc info) (4 + 8 * (n - 1)))"
    and "position2msf info 2 pos True = Some (toc_msf (toc info) (4 + 8 * n))"
proof -
  have "n \<le> 99" using assms by (simp add: toc_tracks_def)
  then have "from_bcd (ucast pos) = word_of_nat n" unfolding pos by (intro from_to_bcd) (simp add: unat_of_nat8)
  then show "position2msf info 2 pos False = Some (toc_msf (toc info) (4 + 8 * (n - 1)))"
    and "position2msf info 2 pos True = Some (toc_msf (toc info) (4 + 8 * n))"
    using track_position [OF t, of "n - 1"] track_position [OF t n(2)] n
    by (simp_all add: position2msf_def Let_def add.commute)
qed

text \<open>C16. Playing one track of an audio CD: on a disc whose table of contents lists the tracks
  1 to m in order, the two AudioPlay calls a Mac application makes for track n, first with the
  stop flag and then without it (both in the BCD track addressing mode), start the host's
  player at the address of track n and let it run up to the start of track n + 1, or up to the
  lead-out for the last track. The first call alone plays nothing.\<close>

theorem audio_play_one_track:
  assumes t: "toc_tracks (toc info) m" and n: "1 \<le> n" "n \<le> m"
    and disc: "cd_in_place s info \<noteq> 0" "cd_in_place s' info \<noteq> 0"
    and stop: "get16 s (pb + csParam) = 2" "get16 s (pb + csParam + 6) \<noteq> 0"
      "ucast (get32 s (pb + csParam + 2)) = to_bcd (word_of_nat n)"
    and play: "get16 s' (pb + csParam) = 2" "get16 s' (pb + csParam + 6) = 0"
      "ucast (get32 s' (pb + csParam + 2)) = to_bcd (word_of_nat n)"
  shows "let (err1, info1, s1) = audio_play C info pb s; (err2, info2, s2) = audio_play C info1 pb s';
             (ok, h) = SysCDPlay C (cd_fh info) (toc_msf (toc info) (4 + 8 * (n - 1)))
                         (toc_msf (toc info) (4 + 8 * n)) (host s')
         in err1 = noErr \<and> s1 = s \<and> err2 = (if ok then noErr else paramErr) \<and> host s2 = h \<and> mem s2 = mem s'"
proof -
  have one: "audio_play C info pb s = (noErr, info\<lparr>stop_at := toc_msf (toc info) (4 + 8 * n)\<rparr>, s)"
    using disc(1) stop position2msf_track(2) [OF t n stop(3)] by (simp add: audio_play_def Let_def)
  have t': "toc_tracks (toc (info\<lparr>stop_at := x\<rparr>)) m" for x using t by simp
  have place: "cd_in_place s' (info\<lparr>stop_at := x\<rparr>) \<noteq> 0" for x using disc(2) by (simp add: cd_in_place_def)
  show ?thesis
    unfolding one
    using place play position2msf_track(1) [OF t' n play(3)]
    by (simp add: audio_play_def Let_def sys_try_def split: prod.splits)
qed

section \<open>Reading the table of contents\<close>

definition toc_entry :: "u8 list \<Rightarrow> nat \<Rightarrow> u8 list" where
  "toc_entry t i = [t ! (i + 1) AND 0x0f, to_bcd (t ! (i + 5)), to_bcd (t ! (i + 6)), to_bcd (t ! (i + 7))]"

lemma put_toc_entry_bytes: "put_toc_entry t i buf s = put_bytes buf (toc_entry t i) s"
  by (simp add: put_toc_entry_def toc_entry_def put_bytes_Cons add.assoc)

lemma length_toc_entry [simp]: "length (toc_entry t i) = 4"
  by (simp add: toc_entry_def)

text \<open>How many entries fit: the size counts down by 4 and only a size of 0 ends the loop.\<close>

definition toc_count :: "u16 \<Rightarrow> nat \<Rightarrow> nat" where
  "toc_count sz n = (if 4 dvd unat sz then min (unat sz div 4) (Suc n) else Suc n)"

lemma toc_count_Suc:
  assumes "sz \<noteq> 0"
  shows "toc_count sz (Suc n) = Suc (toc_count (sz - 4) n)"
proof (cases "unat sz < 4")
  case True
  then have "\<not> 4 dvd unat sz" using assms by (auto simp: dvd_imp_le unat_eq_0 dest: dvd_imp_le)
  moreover have "unat (sz - 4) = 65536 + unat sz - 4"
    using True unat_sub_if' [of sz 4] by simp
  moreover have "(4::nat) dvd 65536 + unat sz - 4 \<longleftrightarrow> 4 dvd unat sz"
  proof -
    have "65536 + unat sz - 4 = unat sz + 4 * 16383" by simp
    then show ?thesis by (metis dvd_add_left_iff dvd_triv_left)
  qed
  ultimately show ?thesis by (simp add: toc_count_def)
next
  case False
  then have u: "unat (sz - 4) = unat sz - 4" using unat_sub_if' [of sz 4] by simp
  have eq: "unat sz = unat sz - 4 + 4 * 1" using False by simp
  have "4 dvd unat sz - 4 \<longleftrightarrow> 4 dvd unat sz"
    by (subst (2) eq) (metis dvd_add_left_iff dvd_triv_left)
  moreover have "unat sz div 4 = Suc ((unat sz - 4) div 4)"
    using False by (simp add: le_div_geq)
  ultimately show ?thesis by (simp add: toc_count_def u)
qed

lemma fill_toc_entries:
  fixes s :: "'h mac"
  assumes "t ! (i + 8 * n + 2) = 0xaa" and "\<And>k. k < n \<Longrightarrow> t ! (i + 8 * k + 2) \<noteq> 0xaa"
    and "i + 8 * n + 7 < length t"
  shows "fill_toc t i buf sz s =
     Some (put_bytes buf (concat (map (\<lambda>k. toc_entry t (i + 8 * k)) [0..<toc_count sz n])) s)"
  using assms
proof (induction n arbitrary: i buf sz s)
  case 0
  then show ?case
  proof (cases "sz = 0")
    case False
    then have "0 < unat sz" by (simp add: unat_gt_0)
    then have "toc_count sz 0 = Suc 0"
      by (auto simp: toc_count_def min_def dest: dvd_imp_le)
    then show ?thesis using 0 False by (simp add: fill_toc.simps put_toc_entry_bytes)
  qed (simp add: fill_toc.simps toc_count_def)
next
  case (Suc n)
  show ?case
  proof (cases "sz = 0")
    case False
    have IH: "fill_toc t (i + 8) (buf + 4) (sz - 4) s' = Some (put_bytes (buf + 4)
        (concat (map (\<lambda>k. toc_entry t (i + 8 + 8 * k)) [0..<toc_count (sz - 4) n])) s')" for s' :: "'h mac"
    proof (rule Suc.IH)
      fix k assume "k < n"
      then show "t ! (i + 8 + 8 * k + 2) \<noteq> 0xaa" using Suc.prems(2) [of "Suc k"] by (simp add: algebra_simps)
    qed (use Suc.prems(1,3) in \<open>simp_all add: algebra_simps\<close>)
    have "map (\<lambda>k. toc_entry t (i + 8 * k)) [0..<toc_count sz (Suc n)] =
        toc_entry t i # map (\<lambda>k. toc_entry t (i + 8 + 8 * k)) [0..<toc_count (sz - 4) n]"
      unfolding toc_count_Suc [OF False] upt_conv_Cons [OF zero_less_Suc] map_Suc_upt [symmetric]
      by (simp add: algebra_simps)
    moreover have "t ! (i + 2) \<noteq> 0xaa" using Suc.prems(2) [of 0] by simp
    moreover have "i + 7 < length t" using Suc.prems(3) by simp
    ultimately show ?thesis
      using False IH by (simp add: fill_toc.simps [of t i] put_toc_entry_bytes put_bytes_append)
  qed (simp add: fill_toc.simps toc_count_def)
qed

text \<open>C15. Reading the table of contents (ReadTOC, action 3) from a track of a disc with a lead-out
  entry: the Mac's buffer receives, entry by entry, the control nibble and the BCD address of
  the entries from that track on, up to the lead-out or until the buffer is full. The buffer
  size is only respected when it is a multiple of 4: for any other size the 16-bit count never
  reaches 0, and all entries up to the lead-out are stored, past the end of the buffer.\<close>

theorem ReadTOC_tracks:
  assumes "cd_in_place s info \<noteq> 0" and "get16 s (pb + csParam) = 3"
    and "find_toc (\<lambda>n. n = from_bcd (get8 s (pb + csParam + 8))) (toc info) = Some i"
    and "toc_track (toc info) (i + 8 * n) = 0xaa" and "\<And>k. k < n \<Longrightarrow> toc_track (toc info) (i + 8 * k) \<noteq> 0xaa"
    and "i + 8 * n + 7 < length (toc info)"
  shows "cdrom_read_toc info pb s =
    (let sz = get16 s (pb + csParam + 6);
         entries = (if 4 dvd unat sz then min (unat sz div 4) (Suc n) else Suc n)
     in Some (noErr, put_bytes (get32 s (pb + csParam + 2))
          (concat (map (\<lambda>k. toc_entry (toc info) (i + 8 * k)) [0..<entries])) s))"
proof -
  have "fill_toc (toc info) i buf sz s = Some (put_bytes buf
      (concat (map (\<lambda>k. toc_entry (toc info) (i + 8 * k)) [0..<toc_count sz n])) s)" for buf sz
    using assms(4-6) by (intro fill_toc_entries) (auto simp: toc_track_def)
  then have "cdrom_read_toc info pb s = Some (noErr, put_bytes (get32 s (pb + csParam + 2))
      (concat (map (\<lambda>k. toc_entry (toc info) (i + 8 * k)) [0..<toc_count (get16 s (pb + csParam + 6)) n])) s)"
    using assms(1-3) by (simp add: cdrom_read_toc_def Let_def split_beta)
  then show ?thesis by (simp only: toc_count_def Let_def)
qed

section \<open>Transfers\<close>

lemma cdrom_get_drive_info_Some:
  "cdrom_get_drive_info n ds = Some i \<Longrightarrow> i < length ds \<and> cd_num (ds ! i) = n"
  by (auto simp: cdrom_get_drive_info_def dest: find_index_SomeD)

definition cd_ready :: "cdrom_state \<Rightarrow> nat \<Rightarrow> u32 \<Rightarrow> u32 \<Rightarrow> 'h mac \<Rightarrow> bool" where
  "cd_ready D i pb dce s \<longleftrightarrow>
     cdrom_get_drive_info (uint (get16 s (pb + ioVRefNum))) (cdrom_drives D) = Some i
     \<and> cd_in_place s (cdrom_drives D ! i) \<noteq> 0
     \<and> int (io_length pb s) AND (block_size (cdrom_drives D ! i) - 1) = 0
     \<and> uint (get32 s (dce + dCtlPosition)) AND (block_size (cdrom_drives D ! i) - 1) = 0
     \<and> io_apart (cd_status (cdrom_drives D ! i)) pb dce s"

definition cd_offset :: "cdrom_state \<Rightarrow> nat \<Rightarrow> u32 \<Rightarrow> u32 \<Rightarrow> 'h mac \<Rightarrow> u64" where
  "cd_offset D i pb dce s = ucast (get32 s (dce + dCtlPosition)) + cd_start_byte (cdrom_drives D ! i)"

text \<open>A ready request: what the driver returns and leaves in memory, on every branch.\<close>

lemma CDROMPrime_ready:
  assumes r: "cd_ready D i pb dce s"
  shows "CDROMPrime S pb dce D s =
     (let t = put32 (pb + ioActCount) 0 s; info = cdrom_drives D ! i; len = io_length pb s;
          D1 = cdrom_upd i (\<lambda>d. d\<lparr>twok_offset := uint (cd_offset D i pb dce s AND 0x7ff)\<rparr>) D in
      if is_read pb s then
        let (bs, h1) = Sys_read S (cd_fh info) (cd_offset D i pb dce s) len (host s);
            s1 = put_bytes (io_buffer pb s) bs (t\<lparr>host := h1\<rparr>) in
        if length bs = len then (noErr, D1, finish_io pb dce len s1)
        else if len = 0x200 \<and> get32 s (dce + dCtlPosition) = 0x400 then
          (noErr, D1, finish_io pb dce 0x200 (put_bytes (io_buffer pb s) (replicate 0x200 0) s1))
        else (readErr, D1, s1)
      else (wPrErr, D1, t))"
proof -
  have ap: "io_apart (cd_status (cdrom_drives D ! i)) pb dce s" using r by (simp add: cd_ready_def)
  note par = io_params_kept [OF ap]
  have ms: "s1\<lparr>mem := Mac_memset a c n (mem s1)\<rparr> = put_bytes a (replicate n c) s1" for a c n and s1 :: "'a mac"
    by (simp add: put_bytes_def Mac_memset_def)
  show ?thesis
    unfolding CDROMPrime_def Let_def par ms
    using r by (auto simp: par cd_ready_def cd_in_place_def cd_offset_def split: prod.splits)
qed

definition cd_prime :: "'h sys \<Rightarrow> u32 \<Rightarrow> u32 \<Rightarrow> cdrom_state \<Rightarrow> 'h mac \<Rightarrow> u16 \<times> 'h mac" where
  "cd_prime S pb dce D s = (case CDROMPrime S pb dce D s of (err, D1, s1) \<Rightarrow> (err, s1))"

lemma cd_prime_read:
  assumes r: "cd_ready D i pb dce s" and rd: "is_read pb s"
    and sys: "Sys_read S (cd_fh (cdrom_drives D ! i)) (cd_offset D i pb dce s) (io_length pb s) (host s) = (bs, h')"
    and len: "length bs = io_length pb s"
  shows "\<exists>s'. cd_prime S pb dce D s = (noErr, s') \<and> host s' = h'
     \<and> get_bytes s' (io_buffer pb s) (io_length pb s) = bs
     \<and> get32 s' (pb + ioActCount) = get32 s (pb + ioReqCount)
     \<and> get32 s' (dce + dCtlPosition) = get32 s (dce + dCtlPosition) + get32 s (pb + ioReqCount)"
proof -
  have ap: "io_apart (cd_status (cdrom_drives D ! i)) pb dce s" using r by (simp add: cd_ready_def)
  then have sp: "sep pb 54 dce 52" by (simp add: io_apart_def)
  let ?s1 = "put_bytes (io_buffer pb s) bs ((put32 (pb + ioActCount) 0 s)\<lparr>host := h'\<rparr>)"
  have eq: "cd_prime S pb dce D s = (noErr, finish_io pb dce (io_length pb s) ?s1)"
    using rd sys len by (simp add: cd_prime_def CDROMPrime_ready [OF r] Let_def)
  have "get32 ?s1 (dce + dCtlPosition) = get32 s (dce + dCtlPosition)"
    using io_params_kept(8) [OF ap] by (simp add: io_position_kept [OF ap eq_imp_le [OF len]]) (simp add: get32_def)
  moreover have "get_bytes ?s1 (io_buffer pb s) (io_length pb s) = bs"
    using get_put_bytes [of bs "io_buffer pb s"] len io_length_bound [of pb s] by simp
  moreover have "word_of_nat (io_length pb s) = get32 s (pb + ioReqCount)" by (simp add: io_length_def)
  ultimately show ?thesis
    unfolding eq by (simp add: finish_io_counts [OF sp] io_buffer_kept(1) [OF ap])
qed

interpretation cd: block_driver S "cd_prime S" cd_ready "\<lambda>D i. cd_fh (cdrom_drives D ! i)"
    "\<lambda>D i. False" cd_offset for S :: "'h sys"
proof unfold_locales
  show "\<exists>s'. cd_prime S pb dce D s = (noErr, s') \<and> host s' = h'
     \<and> get_bytes s' (io_buffer pb s) (io_length pb s) = bs
     \<and> get32 s' (pb + ioActCount) = get32 s (pb + ioReqCount)
     \<and> get32 s' (dce + dCtlPosition) = get32 s (dce + dCtlPosition) + get32 s (pb + ioReqCount)"
    if "cd_ready D i pb dce s" "is_read pb s"
      "Sys_read S (cd_fh (cdrom_drives D ! i)) (cd_offset D i pb dce s) (io_length pb s) (host s) = (bs, h')"
      "length bs = io_length pb s" for D i pb dce s bs h'
    using that by (rule cd_prime_read)
qed simp


text \<open>A concrete drive, disc and host.\<close>

definition demo_cd_drive :: cdrom_drive_info where
  "demo_cd_drive = \<lparr>cd_num = 1, cd_fh = 1, block_size = 512, twok_offset = - 1, cd_start_byte = 0,
     cd_to_be_mounted = False, mount_non_hfs = True,
     toc = [0, 0, 1, 2] @ [0, 0x10, 1, 0, 0, 0, 2, 0] @ [0, 0x10, 2, 0, 0, 3, 10, 20] @ [0, 0x10, 0xaa, 0, 0, 5, 0, 0]
       @ replicate 776 0,
     lead_out = (5, 0, 0), stop_at = (5, 0, 0), play_mode = 9, power_mode = 0, cd_status = 0x100\<rparr>"

definition demo_cdrom :: cdrom_state where
  "demo_cdrom = \<lparr>cdrom_drives = [demo_cd_drive], CDROMIconAddr = 0, cdrom_acc_run_called = True\<rparr>"

definition demo_cdsys :: "'h cdsys" where
  "demo_cdsys = \<lparr>SysPreventRemoval = (\<lambda>f h. h), SysAllowRemoval = (\<lambda>f h. h), SysCDReadTOC = (\<lambda>f t h. (t, h)),
     SysCDGetPosition = (\<lambda>f h. (None, h)), SysCDPlay = (\<lambda>f a b h. (True, h)), SysCDPause = (\<lambda>f h. (True, h)),
     SysCDResume = (\<lambda>f h. (True, h)), SysCDStop = (\<lambda>f a h. (True, h)), SysCDScan = (\<lambda>f a r h. (True, h)),
     SysCDSetVolume = (\<lambda>f l r h. h), SysCDGetVolume = (\<lambda>f h. ((0, 0), h))\<rparr>"

text \<open>A call with selector \<open>w\<close>, a BCD track number, and a 16-bit argument after them.\<close>

definition demo_cd_call :: "u16 \<Rightarrow> u32 \<Rightarrow> u16 \<Rightarrow> (u64 \<Rightarrow> u8) mac" where
  "demo_cd_call w track hold =
     put8 0x103 1 (put8 0x1024 2 (put16 0x1022 hold (put32 0x101e track (put16 0x101c w
       \<lparr>mem = (\<lambda>_. 0), host = (\<lambda>_. 0), calls = []\<rparr>))))"

lemma demo_cd_call_fields:
  "get16 (demo_cd_call w tr hold) 0x101c = w" "get32 (demo_cd_call w tr hold) 0x101e = tr"
  "get16 (demo_cd_call w tr hold) 0x1022 = hold" "get8 (demo_cd_call w tr hold) 0x103 = 1"
  "get8 (demo_cd_call w tr hold) 0x1024 = 2"
  by (simp_all add: demo_cd_call_def mac_mem sep_def)

lemma demo_toc: "toc_tracks (toc demo_cd_drive) 2"
  by (simp add: toc_tracks_def demo_cd_drive_def toc_track_def less_Suc_eq numeral_2_eq_2 nth_append)

theorem audio_play_one_track_witness:
  "let (err1, info1, s1) = audio_play demo_cdsys demo_cd_drive 0x1000 (demo_cd_call 2 1 1);
       (err2, info2, s2) = audio_play demo_cdsys info1 0x1000 (demo_cd_call 2 1 0)
   in err1 = noErr \<and> err2 = noErr"
  using audio_play_one_track [OF demo_toc, of 1 "demo_cd_call 2 1 1" "demo_cd_call 2 1 0" "0x1000" demo_cdsys]
  by (simp add: cd_in_place_def demo_cd_call_fields demo_cd_drive_def to_bcd_def bin2bcd_def demo_cdsys_def
      Let_def split_beta)

theorem ReadTOC_tracks_witness:
  "cdrom_read_toc demo_cd_drive 0x1000 (demo_cd_call 3 0x8000 8) =
     Some (noErr, put_bytes 0x8000 [0, 3, 0x10, 0x20, 0, 5, 0, 0] (demo_cd_call 3 0x8000 8))"
proof -
  let ?s = "demo_cd_call 3 0x8000 8"
  have "find_toc (\<lambda>n. n = from_bcd (get8 ?s (0x1000 + csParam + 8))) (toc demo_cd_drive) = Some (4 + 8 * 1)"
    by (rule find_toc_Some)
      (simp_all add: demo_cd_call_fields from_bcd_def bcd2bin_def toc_track_def demo_cd_drive_def)
  note call = ReadTOC_tracks [OF _ _ this, where n = 1]
  have t: "toc_track (toc demo_cd_drive) 12 = 2" "toc_track (toc demo_cd_drive) 20 = 0xaa"
    "length (toc demo_cd_drive) = 804" "cd_in_place ?s demo_cd_drive \<noteq> 0"
    by (simp_all add: toc_track_def demo_cd_drive_def cd_in_place_def demo_cd_call_fields)
  have e: "toc_entry (toc demo_cd_drive) 12 = [0, 3, 0x10, 0x20]" "toc_entry (toc demo_cd_drive) 20 = [0, 5, 0, 0]"
    by (simp_all add: toc_entry_def demo_cd_drive_def to_bcd_def bin2bcd_def)
  have k: "get16 ?s (0x1000 + csParam + 6) = 8" "get16 ?s (0x1000 + csParam) = 3"
      "get32 ?s (0x1000 + csParam + 2) = 0x8000"
    by (simp_all add: demo_cd_call_fields)
  have "cdrom_read_toc demo_cd_drive 0x1000 ?s = Some (noErr, put_bytes 0x8000 (concat
      (map (\<lambda>k. toc_entry (toc demo_cd_drive) (4 + 8 * 1 + 8 * k)) [0..<if 4 dvd unat (8 :: u16)
        then min (unat (8 :: u16) div 4) (Suc 1) else Suc 1])) ?s)"
    by (rule call [unfolded Let_def k]) (use t k in \<open>simp_all add: less_Suc_eq\<close>)
  moreover have "(if 4 dvd unat (8 :: u16) then min (unat (8 :: u16) div 4) (Suc 1) else Suc 1) = 2" by simp
  moreover have "concat (map (\<lambda>k. toc_entry (toc demo_cd_drive) (4 + 8 * 1 + 8 * k)) [0..<2])
      = [0, 3, 0x10, 0x20, 0, 5, 0, 0]"
    using e by (simp add: upt_conv_Cons numeral_2_eq_2)
  ultimately show ?thesis by (simp only:)
qed


end
