(* ===== verification/Volumes.thy ===== *)
theory Volumes
  imports Disk Sony CDROM
begin

text \<open>
  MountVolume() of "macos_util.cpp": the three block drivers are offered a host file in turn. What
  they have in common is the locale \<open>volume_driver\<close>: the list of the host files of a driver's
  drives, the routine that mounts a volume, and whether the drive of a file has its disk in place.
\<close>

definition first_place :: "('d \<Rightarrow> nat) \<Rightarrow> ('d \<Rightarrow> u32) \<Rightarrow> 'd list \<Rightarrow> nat \<Rightarrow> 'h mac \<Rightarrow> u8" where
  "first_place handle sts ds f s =
     (case find_index (\<lambda>d. handle d = f) ds of
        None \<Rightarrow> 0 | Some i \<Rightarrow> get8 s (sts (ds ! i) + dsDiskInPlace))"

locale volume_driver =
  fixes S :: "'h sys"
    and mount :: "nat \<Rightarrow> 'd \<Rightarrow> 'h mac \<Rightarrow> bool \<times> 'd \<times> 'h mac"
    and handles :: "'d \<Rightarrow> nat list"
    and place :: "'d \<Rightarrow> nat \<Rightarrow> 'h mac \<Rightarrow> u8"
  assumes not_mine: "f \<notin> set (handles D) \<Longrightarrow> mount f D s = (False, D, s)"
    and no_disk: "f \<in> set (handles D) \<Longrightarrow> \<not> SysIsDiskInserted S f (host s) \<Longrightarrow> mount f D s = (True, D, s)"
    and inserted: "f \<in> set (handles D) \<Longrightarrow> SysIsDiskInserted S f (host s) \<Longrightarrow> mount f D s = (b, D', s') \<Longrightarrow>
      b \<and> handles D' = handles D \<and> place D' f s' = 1"
begin

lemma claims: "fst (mount f D s) \<longleftrightarrow> f \<in> set (handles D)"
  using not_mine no_disk inserted by (cases "mount f D s") (metis fst_conv)

lemma keeps_handles: "handles (fst (snd (mount f D s))) = handles D"
proof -
  obtain b D' s' where m: "mount f D s = (b, D', s')" by (rule prod_cases3)
  show ?thesis
    using m not_mine [of f D s] no_disk [of f D s] inserted [of f D s b D' s']
    by (cases "f \<in> set (handles D)"; cases "SysIsDiskInserted S f (host s)") auto
qed

lemma unclaimed: "\<not> fst (mount f D s) \<Longrightarrow> snd (mount f D s) = (D, s)"
  using not_mine claims by (metis snd_conv)

lemma disk_in_place: "fst (mount f D s) \<Longrightarrow> SysIsDiskInserted S f (host s) \<Longrightarrow>
    place (fst (snd (mount f D s))) f (snd (snd (mount f D s))) = 1"
  using inserted claims by (metis prod.collapse)

lemma nothing_inserted: "fst (mount f D s) \<Longrightarrow> \<not> SysIsDiskInserted S f (host s) \<Longrightarrow> snd (mount f D s) = (D, s)"
  using no_disk claims by (metis snd_conv)

end

section \<open>The three drivers\<close>

lemma find_handle_None: "find_index (\<lambda>d. h d = f) ds = None \<longleftrightarrow> f \<notin> h ` set ds"
  by (auto simp: find_index_None)

lemma find_handle_miss: "f \<notin> h ` set ds \<Longrightarrow> find_index (\<lambda>d. h d = f) ds = None"
  by (simp add: find_handle_None)

lemma find_handle_upd:
  assumes "find_index (\<lambda>d. h d = f) ds = Some i" and "h d' = f"
  shows "find_index (\<lambda>d. h d = f) (ds[i := d']) = Some i" "map h (ds[i := d']) = map h ds"
proof -
  note f = find_index_SomeD [OF assms(1)]
  show "find_index (\<lambda>d. h d = f) (ds[i := d']) = Some i"
    using f assms(2) by (intro find_index_SomeI) auto
  show "map h (ds[i := d']) = map h ds"
    using f assms(2) by (simp add: map_update list_update_same_conv)
qed

interpretation dv: volume_driver S "DiskMountVolume S" "\<lambda>D. map fh (drives D)" "\<lambda>D. first_place fh status (drives D)"
proof
  fix f and D D' :: disk_state and s s' :: "'a mac" and b
  show "f \<notin> set (map fh (drives D)) \<Longrightarrow> DiskMountVolume S f D s = (False, D, s)"
    by (simp add: DiskMountVolume_def find_handle_miss)
  assume "f \<in> set (map fh (drives D))"
  then obtain i where i: "find_index (\<lambda>d. fh d = f) (drives D) = Some i"
    using find_handle_None [of fh f "drives D"] by auto
  note fi = find_index_SomeD [OF i]
  show "\<not> SysIsDiskInserted S f (host s) \<Longrightarrow> DiskMountVolume S f D s = (True, D, s)"
    using fi by (simp add: DiskMountVolume_def i)
  assume ins: "SysIsDiskInserted S f (host s)" and m: "DiskMountVolume S f D s = (b, D', s')"
  let ?d = "(drives D ! i)\<lparr>read_only := SysIsReadOnly S f (host s)\<rparr>"
  let ?s1 = "put8 (status ?d + dsWriteProt) (if read_only ?d then 0xff else 0) (put8 (status ?d + dsDiskInPlace) 1 s)"
  obtain d2 s2 where pr: "probe_disk S ?d ?s1 = (d2, s2)" by force
  have d2: "fh d2 = f" "status d2 = status (drives D ! i)" "mem s2 = mem ?s1"
    using pr fi by (auto simp: probe_disk_def find_hfs_partition_def split: prod.splits if_splits)
  have e: "b" "D' = upd_drive i (\<lambda>_. d2\<lparr>to_be_mounted := True\<rparr>) D" "s' = put_drive_size d2 s2"
    using m ins fi pr by (auto simp: DiskMountVolume_def i Let_def split: prod.splits)
  have "get8 s2 (status d2 + dsDiskInPlace) = 1"
    unfolding get8_def d2 by (simp add: ReadMacInt8_def WriteMacInt8_def)
  moreover have "get8 s' (status d2 + dsDiskInPlace) = get8 s2 (status d2 + dsDiskInPlace)"
    by (simp add: e(3) put_drive_size_def mac_mem sep_def)
  ultimately show "b \<and> map fh (drives D') = map fh (drives D) \<and> first_place fh status (drives D') f s' = 1"
    using e(1) d2(1) fi find_handle_upd [OF i, of "d2\<lparr>to_be_mounted := True\<rparr>"]
    by (simp add: e(2) upd_drive_def first_place_def)
qed

interpretation sv: volume_driver S "SonyMountVolume S" "\<lambda>D. map sd_fh (sony_drives D)"
  "\<lambda>D. first_place sd_fh sd_status (sony_drives D)"
proof
  fix f and D D' :: sony_state and s s' :: "'a mac" and b
  show "f \<notin> set (map sd_fh (sony_drives D)) \<Longrightarrow> SonyMountVolume S f D s = (False, D, s)"
    by (simp add: SonyMountVolume_def find_handle_miss)
  assume "f \<in> set (map sd_fh (sony_drives D))"
  then obtain i where i: "find_index (\<lambda>d. sd_fh d = f) (sony_drives D) = Some i"
    using find_handle_None [of sd_fh f "sony_drives D"] by auto
  note fi = find_index_SomeD [OF i]
  show "\<not> SysIsDiskInserted S f (host s) \<Longrightarrow> SonyMountVolume S f D s = (True, D, s)"
    using fi by (simp add: SonyMountVolume_def i)
  assume ins: "SysIsDiskInserted S f (host s)" and m: "SonyMountVolume S f D s = (b, D', s')"
  let ?d = "(sony_drives D ! i)\<lparr>sd_read_only := SysIsReadOnly S f (host s), sd_to_be_mounted := True\<rparr>"
  have e: "b" "D' = sony_upd i (\<lambda>_. ?d) D" "get8 s' (sd_status ?d + dsDiskInPlace) = 1"
    using m ins fi by (auto simp: SonyMountVolume_def i Let_def get8_put_cases)
  then show "b \<and> map sd_fh (sony_drives D') = map sd_fh (sony_drives D)
      \<and> first_place sd_fh sd_status (sony_drives D') f s' = 1"
    using fi find_handle_upd [OF i, of ?d] by (simp add: e(2) sony_upd_def first_place_def)
qed

interpretation cv: volume_driver S "CDROMMountVolume S C" "\<lambda>D. map cd_fh (cdrom_drives D)"
  "\<lambda>D. first_place cd_fh cd_status (cdrom_drives D)"
proof
  fix f and D D' :: cdrom_state and s s' :: "'a mac" and b
  show "f \<notin> set (map cd_fh (cdrom_drives D)) \<Longrightarrow> CDROMMountVolume S C f D s = (False, D, s)"
    by (simp add: CDROMMountVolume_def find_handle_miss)
  assume "f \<in> set (map cd_fh (cdrom_drives D))"
  then obtain i where i: "find_index (\<lambda>d. cd_fh d = f) (cdrom_drives D) = Some i"
    using find_handle_None [of cd_fh f "cdrom_drives D"] by auto
  note fi = find_index_SomeD [OF i]
  show "\<not> SysIsDiskInserted S f (host s) \<Longrightarrow> CDROMMountVolume S C f D s = (True, D, s)"
    using fi by (simp add: CDROMMountVolume_def i)
  assume ins: "SysIsDiskInserted S f (host s)" and m: "CDROMMountVolume S C f D s = (b, D', s')"
  obtain d1 s1 where c: "cdrom_insert S C (cdrom_drives D ! i) s = (d1, s1)" by force
  have d1: "cd_fh d1 = f" "cd_status d1 = cd_status (cdrom_drives D ! i)"
      "mem s1 = mem (put8 (cd_status (cdrom_drives D ! i) + dsDiskInPlace) 1 s)"
    using c fi by (auto simp: cdrom_insert_def cdrom_find_hfs_partition_def read_toc_def Let_def
        split: prod.splits option.splits)
  define d2 where "d2 = (if cd_start_byte d1 \<noteq> 0 \<or> mount_non_hfs d1 then d1\<lparr>cd_to_be_mounted := True\<rparr> else d1)"
  have d2: "cd_fh d2 = f" "cd_status d2 = cd_status d1" by (simp_all add: d2_def d1)
  have e: "b" "D' = cdrom_upd i (\<lambda>_. d2) D" "s' = s1"
    using m ins fi c by (auto simp: CDROMMountVolume_def i Let_def d2_def split: if_splits)
  have "get8 s' (cd_status d2 + dsDiskInPlace) = 1"
    by (simp add: e(3) get8_def d1 d2 ReadMacInt8_def WriteMacInt8_def)
  then show "b \<and> map cd_fh (cdrom_drives D') = map cd_fh (cdrom_drives D)
      \<and> first_place cd_fh cd_status (cdrom_drives D') f s' = 1"
    using e(1) d2(1) fi find_handle_upd [OF i, of d2] by (simp add: e(2) cdrom_upd_def first_place_def)
qed

section \<open>Mounting a volume\<close>

text \<open>The disjunction is evaluated from the left and stops at the first driver that says yes.\<close>

definition MountVolume ::
  "'h sys \<Rightarrow> 'h cdsys \<Rightarrow> nat \<Rightarrow> (sony_state \<times> disk_state \<times> cdrom_state) \<times> 'h mac
    \<Rightarrow> (sony_state \<times> disk_state \<times> cdrom_state) \<times> 'h mac" where
  "MountVolume S C f st =
     (let ((so, di, cd), s) = st; (b1, so1, s1) = SonyMountVolume S f so s in
      if b1 then ((so1, di, cd), s1)
      else
        (let (b2, di1, s2) = DiskMountVolume S f di s1 in
         if b2 then ((so1, di1, cd), s2)
         else (let (b3, cd1, s3) = CDROMMountVolume S C f cd s2 in ((so1, di1, cd1), s3))))"

text \<open>C36. A host file is mounted by one driver. MountVolume() gives the file to the first of the floppy,
  disk and CD-ROM drivers that has a drive for it; the drives of the other two drivers, and the
  host files of all drivers, stay as they are. If there is a disk in the drive, that drive has
  its disk in place in Mac memory afterwards; if there is none, or if no driver has a drive for
  the file, nothing changes at all.\<close>

theorem MountVolume_one_driver:
  assumes m: "MountVolume S C f ((so, di, cd), s) = ((so', di', cd'), s')"
  shows "let in_so = f \<in> sd_fh ` set (sony_drives so); in_di = f \<in> fh ` set (drives di);
             in_cd = f \<in> cd_fh ` set (cdrom_drives cd); ins = SysIsDiskInserted S f (host s) in
     map sd_fh (sony_drives so') = map sd_fh (sony_drives so) \<and> map fh (drives di') = map fh (drives di)
     \<and> map cd_fh (cdrom_drives cd') = map cd_fh (cdrom_drives cd)
     \<and> (if in_so then di' = di \<and> cd' = cd \<and> (ins \<longrightarrow> first_place sd_fh sd_status (sony_drives so') f s' = 1)
        else if in_di then so' = so \<and> cd' = cd \<and> (ins \<longrightarrow> first_place fh status (drives di') f s' = 1)
        else so' = so \<and> di' = di \<and> (in_cd \<and> ins \<longrightarrow> first_place cd_fh cd_status (cdrom_drives cd') f s' = 1))
     \<and> (\<not> ins \<or> \<not> (in_so \<or> in_di \<or> in_cd) \<longrightarrow> so' = so \<and> di' = di \<and> cd' = cd \<and> s' = s)"
proof -
  obtain b1 so1 s1 where 1: "SonyMountVolume S f so s = (b1, so1, s1)" by (rule prod_cases3)
  obtain b2 di1 s2 where 2: "DiskMountVolume S f di s = (b2, di1, s2)" by (rule prod_cases3)
  obtain b3 cd1 s3 where 3: "CDROMMountVolume S C f cd s = (b3, cd1, s3)" by (rule prod_cases3)
  note so = sv.claims [of S f so s] sv.keeps_handles [of S f so s] sv.unclaimed [of S f so s]
    sv.disk_in_place [of S f so s] sv.nothing_inserted [of S f so s]
  note di = dv.claims [of S f di s] dv.keeps_handles [of S f di s] dv.unclaimed [of S f di s]
    dv.disk_in_place [of S f di s] dv.nothing_inserted [of S f di s]
  note cd = cv.claims [of S C f cd s] cv.keeps_handles [of S C f cd s] cv.unclaimed [of S C f cd s]
    cv.disk_in_place [of S C f cd s] cv.nothing_inserted [of S C f cd s]
  have eq: "MountVolume S C f ((so, di, cd), s) =
     (if b1 then ((so1, di, cd), s1) else if b2 then ((so, di1, cd), s2) else ((so, di, cd1), s3))"
    using so(1,3) di(1,3) by (simp add: MountVolume_def Let_def 1 2 3)
  show ?thesis
    using m so di cd unfolding eq 1 2 3 Let_def by (auto split: if_splits)
qed

theorem MountVolume_one_driver_witness:
  "\<exists>so' di' s'. MountVolume ram_disk demo_cdsys 1 ((demo_floppy\<lparr>sony_drives := []\<rparr>, demo_disk, demo_cdrom), demo_io 2)
       = ((so', di', demo_cdrom), s') \<and> first_place fh status (drives di') 1 s' = 1"
proof -
  obtain so' di' cd' s' where m: "MountVolume ram_disk demo_cdsys 1
      ((demo_floppy\<lparr>sony_drives := []\<rparr>, demo_disk, demo_cdrom), demo_io 2) = ((so', di', cd'), s')"
    by (metis prod.collapse)
  have "(1::nat) \<in> fh ` set (drives demo_disk)" by (simp add: demo_disk_def demo_drive_def)
  moreover have "SysIsDiskInserted ram_disk 1 (host (demo_io 2))" by (simp add: ram_disk_def)
  ultimately show ?thesis
    using MountVolume_one_driver [OF m] m by (simp add: Let_def)
qed

end
