(* ===== verification/VideoModes.thy ===== *)
theory VideoModes
  imports MacMemory "HOL-Library.Monad_Syntax"
begin

text \<open>
  The data of "video.h" and the mode tables of "video.cpp": colour depths, video modes, and one
  monitor. The iterator \<open>current_mode\<close> is an index into \<open>modes\<close>, with the number of modes for
  end(); using that iterator gives \<open>None\<close>. The members the constructor leaves unset come from
  the argument \<open>junk\<close>.
\<close>

section \<open>Depths and modes\<close>

datatype video_depth = VDEPTH_1BIT | VDEPTH_2BIT | VDEPTH_4BIT | VDEPTH_8BIT | VDEPTH_16BIT | VDEPTH_32BIT

fun depth_code :: "video_depth \<Rightarrow> nat" where
  "depth_code VDEPTH_1BIT = 0"
| "depth_code VDEPTH_2BIT = 1"
| "depth_code VDEPTH_4BIT = 2"
| "depth_code VDEPTH_8BIT = 3"
| "depth_code VDEPTH_16BIT = 4"
| "depth_code VDEPTH_32BIT = 5"

text \<open>The order of the enumeration.\<close>

instantiation video_depth :: linorder
begin

definition less_eq_video_depth :: "video_depth \<Rightarrow> video_depth \<Rightarrow> bool" where
  "less_eq_video_depth a b \<longleftrightarrow> depth_code a \<le> depth_code b"

definition less_video_depth :: "video_depth \<Rightarrow> video_depth \<Rightarrow> bool" where
  "less_video_depth a b \<longleftrightarrow> depth_code a < depth_code b"

instance
proof
  fix a b :: video_depth
  show "a \<le> b \<Longrightarrow> b \<le> a \<Longrightarrow> a = b"
    by (cases a; cases b; simp add: less_eq_video_depth_def)
qed (auto simp: less_eq_video_depth_def less_video_depth_def)

end

definition all_depths :: "video_depth list" where
  "all_depths = [VDEPTH_1BIT, VDEPTH_2BIT, VDEPTH_4BIT, VDEPTH_8BIT, VDEPTH_16BIT, VDEPTH_32BIT]"

definition IsDirectMode :: "video_depth \<Rightarrow> bool" where
  "IsDirectMode d \<longleftrightarrow> d = VDEPTH_16BIT \<or> d = VDEPTH_32BIT"

fun TrivialBytesPerRow :: "u32 \<Rightarrow> video_depth \<Rightarrow> u32" where
  "TrivialBytesPerRow width VDEPTH_1BIT = width div 8"
| "TrivialBytesPerRow width VDEPTH_2BIT = width div 4"
| "TrivialBytesPerRow width VDEPTH_4BIT = width div 2"
| "TrivialBytesPerRow width VDEPTH_8BIT = width"
| "TrivialBytesPerRow width VDEPTH_16BIT = width * 2"
| "TrivialBytesPerRow width VDEPTH_32BIT = width * 4"

fun palette_size :: "video_depth \<Rightarrow> nat" where
  "palette_size VDEPTH_1BIT = 2"
| "palette_size VDEPTH_2BIT = 4"
| "palette_size VDEPTH_4BIT = 16"
| "palette_size VDEPTH_8BIT = 256"
| "palette_size VDEPTH_16BIT = 32"
| "palette_size VDEPTH_32BIT = 256"

record video_mode =
  mode_x :: u32
  mode_y :: u32
  resolution_id :: u32
  depth :: video_depth
  bytes_per_row :: u32

section \<open>Monitors\<close>

record monitor_desc =
  modes :: "video_mode list"
  current_mode :: nat
  mac_frame_base :: u32
  slot_id :: u8
  palette :: "u8 list"
  luminance_mapping :: bool
  interrupts_enabled :: bool
  dm_present :: bool
  gamma_table :: u32
  alloc_gamma_table_size :: int
  current_apple_mode :: u16
  current_id :: u32
  preferred_apple_mode :: u16
  preferred_id :: u32
  slot_param :: u32
  apple_mode_for_depth :: "u16 list"

definition get_current_mode :: "monitor_desc \<Rightarrow> video_mode option" where
  "get_current_mode m = (if current_mode m < length (modes m) then Some (modes m ! current_mode m) else None)"

definition depth_to_apple_mode :: "monitor_desc \<Rightarrow> video_depth \<Rightarrow> u16" where
  "depth_to_apple_mode m d = apple_mode_for_depth m ! depth_code d"

definition has_depth :: "monitor_desc \<Rightarrow> video_depth \<Rightarrow> bool" where
  "has_depth m d = list_ex (\<lambda>i. depth i = d) (modes m)"

definition has_resolution :: "monitor_desc \<Rightarrow> u32 \<Rightarrow> bool" where
  "has_resolution m n = list_ex (\<lambda>i. resolution_id i = n) (modes m)"

text \<open>invalid_mode() is \<open>None\<close>.\<close>

definition find_mode :: "monitor_desc \<Rightarrow> u16 \<Rightarrow> u32 \<Rightarrow> nat option" where
  "find_mode m apple_mode n =
     find_index (\<lambda>i. resolution_id i = n \<and> depth_to_apple_mode m (depth i) = apple_mode) (modes m)"

definition max_depth_of_resolution :: "monitor_desc \<Rightarrow> u32 \<Rightarrow> video_depth" where
  "max_depth_of_resolution m n = fold (\<lambda>i d. if depth i > d then depth i else d) (modes m) VDEPTH_1BIT"

definition get_size_of_resolution :: "monitor_desc \<Rightarrow> u32 \<Rightarrow> u32 \<times> u32" where
  "get_size_of_resolution m n =
     (case find (\<lambda>i. resolution_id i = n) (modes m) of None \<Rightarrow> (0, 0) | Some i \<Rightarrow> (mode_x i, mode_y i))"

definition get_bytes_per_row :: "monitor_desc \<Rightarrow> video_depth \<Rightarrow> u32 \<Rightarrow> u32" where
  "get_bytes_per_row m d n =
     (case find (\<lambda>i. depth i = d \<and> resolution_id i = n) (modes m) of
        Some i \<Rightarrow> bytes_per_row i
      | None \<Rightarrow> TrivialBytesPerRow (fst (get_size_of_resolution m n)) d)"

text \<open>The constructor. The Apple modes are numbered from 0x80 over the depths that exist.\<close>

fun assign_modes :: "(video_depth \<Rightarrow> bool) \<Rightarrow> u16 \<Rightarrow> video_depth list \<Rightarrow> u16 list" where
  "assign_modes has mode [] = []"
| "assign_modes has mode (d # ds) =
     (if has d then mode # assign_modes has (mode + 1) ds else 0 # assign_modes has mode ds)"

definition new_monitor ::
  "monitor_desc \<Rightarrow> video_mode list \<Rightarrow> video_depth \<Rightarrow> u32 \<Rightarrow> u8 \<Rightarrow> monitor_desc \<times> u8" where
  "new_monitor junk available_modes default_depth default_id next_slot_id =
     (let m = junk\<lparr>modes := available_modes, slot_id := next_slot_id\<rparr>;
          m1 = m\<lparr>apple_mode_for_depth := assign_modes (has_depth m) 0x80 all_depths\<rparr>
      in (m1\<lparr>current_mode := (case find_mode m1 (depth_to_apple_mode m1 default_depth) default_id of
             Some i \<Rightarrow> i | None \<Rightarrow> length available_modes)\<rparr>,
          next_slot_id + 1))"

definition find_monitor :: "u8 \<Rightarrow> monitor_desc list \<Rightarrow> nat option" where
  "find_monitor n ms = find_index (\<lambda>m. slot_id m = n) ms"

section \<open>The Apple modes of a monitor\<close>

definition depths_of :: "video_mode list \<Rightarrow> video_depth list" where
  "depths_of vs = filter (\<lambda>d. list_ex (\<lambda>i. depth i = d) vs) all_depths"

lemma all_depths_code: "d \<in> set all_depths" "all_depths ! depth_code d = d" "depth_code d < length all_depths"
  by (cases d; simp add: all_depths_def)+

text \<open>The mode numbers a monitor gets: the k-th depth it has is mode 0x80 + k.\<close>

lemma assign_modes_nth:
  assumes "distinct ds" and "i < length ds"
  shows "assign_modes has mode ds ! i =
     (if has (ds ! i) then mode + word_of_nat (length (filter has (take i ds))) else 0)"
  using assms
proof (induction ds arbitrary: mode i)
  case (Cons d ds)
  then show ?case
  proof (cases i)
    case (Suc j)
    then show ?thesis using Cons by (auto simp: algebra_simps)
  qed simp
qed simp

definition depth_rank :: "monitor_desc \<Rightarrow> video_depth \<Rightarrow> nat" where
  "depth_rank m d = length (filter (has_depth m) (take (depth_code d) all_depths))"

definition mode_table_ok :: "monitor_desc \<Rightarrow> bool" where
  "mode_table_ok m \<longleftrightarrow> length (apple_mode_for_depth m) = 6
     \<and> (\<forall>d. depth_to_apple_mode m d = (if has_depth m d then 0x80 + word_of_nat (depth_rank m d) else 0))"

lemma new_monitor_table: "mode_table_ok (fst (new_monitor junk vs dd n sl))"
proof -
  have len: "length (assign_modes h k ds) = length ds" for h k ds by (induction ds arbitrary: k) auto
  have dist: "distinct all_depths" by (simp add: all_depths_def)
  let ?m = "junk\<lparr>modes := vs, slot_id := sl\<rparr>"
  have hd: "has_depth (fst (new_monitor junk vs dd n sl)) = has_depth ?m"
    by (simp add: new_monitor_def Let_def has_depth_def fun_eq_iff)
  show ?thesis
    unfolding mode_table_ok_def depth_rank_def hd
    using assign_modes_nth [OF dist all_depths_code(3), of "has_depth ?m" "0x80"]
    by (simp add: new_monitor_def Let_def depth_to_apple_mode_def len all_depths_code) (simp add: all_depths_def)
qed

lemma depth_rank_less: "depth_rank m d < 6"
proof -
  have "depth_rank m d \<le> length (take (depth_code d) all_depths)"
    unfolding depth_rank_def by (rule length_filter_le)
  also have "\<dots> < 6" by (cases d) (simp_all add: all_depths_def)
  finally show ?thesis .
qed

lemma depth_rank_mono:
  assumes "has_depth m d" and "d < e"
  shows "depth_rank m d < depth_rank m e"
proof -
  have lt: "depth_code d < depth_code e" using assms(2) by (simp add: less_video_depth_def)
  then obtain k where k: "depth_code e = depth_code d + Suc k" using less_imp_Suc_add by auto
  have "take (depth_code e) all_depths = take (depth_code d) all_depths @ take (Suc k) (drop (depth_code d) all_depths)"
    unfolding k by (rule take_add)
  moreover have "drop (depth_code d) all_depths = d # drop (Suc (depth_code d)) all_depths"
    using Cons_nth_drop_Suc [OF all_depths_code(3) [of d]] by (simp add: all_depths_code)
  ultimately show ?thesis using assms(1) by (simp add: depth_rank_def)
qed

lemma depth_rank_inj:
  assumes "has_depth m d" and "has_depth m e" and "depth_rank m d = depth_rank m e"
  shows "d = e"
  using depth_rank_mono [OF assms(1), of e] depth_rank_mono [OF assms(2), of d] assms(3)
  by (cases d e rule: linorder_cases) auto

lemma apple_mode_inj:
  assumes "mode_table_ok m" and "has_depth m d" and "depth_to_apple_mode m e = depth_to_apple_mode m d"
  shows "e = d"
proof -
  have small: "(0x80 :: u16) + word_of_nat j \<noteq> 0"
    and inj: "(0x80 :: u16) + word_of_nat j = 0x80 + word_of_nat k \<Longrightarrow> j = k" if "j < 6" "k < 6" for j k
  proof -
    have u: "unat (word_of_nat i :: u16) = i" if "i < 6" for i
      using that by (simp add: unsigned_of_nat take_bit_nat_eq_self)
    have "unat ((0x80 :: u16) + word_of_nat j) = 0x80 + j"
      using that(1) u [OF that(1)] by (simp add: unat_word_ariths)
    then show "(0x80 :: u16) + word_of_nat j \<noteq> 0" by auto
    show "(0x80 :: u16) + word_of_nat j = 0x80 + word_of_nat k \<Longrightarrow> j = k"
      using u that by (metis add_left_cancel)
  qed
  have "has_depth m e"
    using assms small [OF depth_rank_less depth_rank_less, of m d] by (auto simp: mode_table_ok_def split: if_splits)
  then show ?thesis
    using assms inj [OF depth_rank_less depth_rank_less] depth_rank_inj by (fastforce simp: mode_table_ok_def)
qed

lemma map_filter_rank:
  assumes "\<And>i. i < length xs \<Longrightarrow> P (xs ! i) \<Longrightarrow> f (xs ! i) = g (length (filter P (take i xs)))"
  shows "map f (filter P xs) = map g [0..<length (filter P xs)]"
  using assms
proof (induction xs rule: rev_induct)
  case (snoc x xs)
  have "map f (filter P xs) = map g [0..<length (filter P xs)]"
  proof (rule snoc.IH)
    fix i assume "i < length xs" "P (xs ! i)"
    then show "f (xs ! i) = g (length (filter P (take i xs)))"
      using snoc.prems [of i] by (simp add: nth_append)
  qed
  then show ?case using snoc.prems [of "length xs"] by simp
qed simp

text \<open>The Apple mode numbers of a monitor are what the old Mac OS needs: whatever modes the
  platform offers, the depths that occur among them are numbered 0x80, 0x81, ... without gaps
  in the order of depth, and a depth that does not occur has mode 0. Finding a mode by its
  number and a resolution is exact: for a mode that the list contains, find_mode() yields a mode
  of that depth and resolution, and for a combination that does not occur it fails.\<close>

theorem monitor_modes:
  assumes m: "m = fst (new_monitor junk vs default_depth default_id sl)"
  shows "map (depth_to_apple_mode m) (depths_of vs) = map (\<lambda>k. 0x80 + word_of_nat k) [0..<length (depths_of vs)]
     \<and> (\<forall>d. (depth_to_apple_mode m d = 0) = (d \<notin> depth ` set vs))
     \<and> (\<forall>v \<in> set vs. \<exists>i < length vs. find_mode m (depth_to_apple_mode m (depth v)) (resolution_id v) = Some i
          \<and> depth (vs ! i) = depth v \<and> resolution_id (vs ! i) = resolution_id v)
     \<and> (\<forall>am n. (\<nexists>v. v \<in> set vs \<and> resolution_id v = n \<and> depth_to_apple_mode m (depth v) = am)
          \<longrightarrow> find_mode m am n = None)"
proof (intro conjI allI ballI impI)
  have ok: "mode_table_ok m" unfolding m by (rule new_monitor_table)
  have vs: "modes m = vs" by (simp add: m new_monitor_def Let_def)
  have hd: "has_depth m = (\<lambda>d. list_ex (\<lambda>i. depth i = d) vs)" by (simp add: has_depth_def vs fun_eq_iff)
  have num: "depth_to_apple_mode m d = 0x80 + word_of_nat (depth_rank m d)" if "has_depth m d" for d
    using ok that by (simp add: mode_table_ok_def)
  show "map (depth_to_apple_mode m) (depths_of vs) = map (\<lambda>k. 0x80 + word_of_nat k) [0..<length (depths_of vs)]"
    unfolding depths_of_def hd [symmetric]
  proof (rule map_filter_rank)
    fix i assume i: "i < length all_depths" "has_depth m (all_depths ! i)"
    have "depth_code (all_depths ! i) = i"
      using i(1) by (auto simp: all_depths_def nth_Cons split: nat.splits)
    then show "depth_to_apple_mode m (all_depths ! i) =
        0x80 + word_of_nat (length (filter (has_depth m) (take i all_depths)))"
      using num [OF i(2)] by (simp add: depth_rank_def)
  qed
  have nz: "depth_to_apple_mode m d \<noteq> 0" if d: "has_depth m d" for d
  proof
    assume z: "depth_to_apple_mode m d = 0"
    have "unat (word_of_nat (depth_rank m d) :: u16) = depth_rank m d"
      using depth_rank_less [of m d] by (simp add: unsigned_of_nat take_bit_nat_eq_self)
    then have "unat (depth_to_apple_mode m d) = 0x80 + depth_rank m d"
      using depth_rank_less [of m d] by (simp add: num [OF d] unat_word_ariths)
    with z show False by simp
  qed
  show "(depth_to_apple_mode m d = 0) = (d \<notin> depth ` set vs)" for d
  proof -
    have "has_depth m d = (d \<in> depth ` set vs)" by (auto simp: hd list_ex_iff)
    then show ?thesis using nz [of d] ok by (auto simp: mode_table_ok_def)
  qed
  show "\<exists>i < length vs. find_mode m (depth_to_apple_mode m (depth v)) (resolution_id v) = Some i
          \<and> depth (vs ! i) = depth v \<and> resolution_id (vs ! i) = resolution_id v" if v: "v \<in> set vs" for v
  proof -
    have "find_mode m (depth_to_apple_mode m (depth v)) (resolution_id v) \<noteq> None"
      using v by (auto simp: find_mode_def find_index_None vs)
    then obtain i where i: "find_mode m (depth_to_apple_mode m (depth v)) (resolution_id v) = Some i" by blast
    then have p: "i < length vs" "resolution_id (vs ! i) = resolution_id v"
        "depth_to_apple_mode m (depth (vs ! i)) = depth_to_apple_mode m (depth v)"
      unfolding find_mode_def by (auto dest!: find_index_SomeD simp: vs)
    have "has_depth m (depth v)" using v by (auto simp: hd list_ex_iff)
    from apple_mode_inj [OF ok this p(3)] i p show ?thesis by blast
  qed
  show "find_mode m am n = None"
    if "\<nexists>v. v \<in> set vs \<and> resolution_id v = n \<and> depth_to_apple_mode m (depth v) = am" for am n
    using that by (auto simp: find_mode_def find_index_None vs)
qed

definition demo_modes :: "video_mode list" where
  "demo_modes =
     [\<lparr>mode_x = 640, mode_y = 480, resolution_id = 0x81, depth = VDEPTH_8BIT, bytes_per_row = 640\<rparr>,
      \<lparr>mode_x = 640, mode_y = 480, resolution_id = 0x81, depth = VDEPTH_32BIT, bytes_per_row = 2560\<rparr>,
      \<lparr>mode_x = 800, mode_y = 600, resolution_id = 0x82, depth = VDEPTH_8BIT, bytes_per_row = 800\<rparr>]"

definition blank_monitor :: monitor_desc where
  "blank_monitor = \<lparr>modes = [], current_mode = 0, mac_frame_base = 0xa0000000, slot_id = 0, palette = replicate 768 0,
     luminance_mapping = False, interrupts_enabled = False, dm_present = False, gamma_table = 0,
     alloc_gamma_table_size = 0, current_apple_mode = 0, current_id = 0, preferred_apple_mode = 0, preferred_id = 0,
     slot_param = 0, apple_mode_for_depth = []\<rparr>"

definition demo_monitor :: monitor_desc where
  "demo_monitor = fst (new_monitor blank_monitor demo_modes VDEPTH_8BIT 0x81 0x80)"

theorem monitor_modes_witness:
  "map (depth_to_apple_mode demo_monitor) [VDEPTH_8BIT, VDEPTH_32BIT] = [0x80, 0x81]"
proof -
  have "depths_of demo_modes = [VDEPTH_8BIT, VDEPTH_32BIT]"
    by (simp add: depths_of_def all_depths_def demo_modes_def)
  then show ?thesis using monitor_modes [OF demo_monitor_def, THEN conjunct1] by (simp add: upt_rec)
qed

end
