(* ===== verification/SlotROM.thy ===== *)
theory SlotROM
  imports VideoModes
begin

text \<open>
  "slot_rom.cpp": the NuBus declaration ROM. The buffer \<open>srom\<close> with its index \<open>p\<close> is the list of
  the bytes written so far, so \<open>p\<close> is the length; a ROM of more than 4096 bytes overruns the
  buffer and gives \<open>None\<close>. A label is the value of \<open>p\<close> at that point. The build date is an
  argument, as are the version numbers of "version.h". The Mac ROM is part of the flat memory.
\<close>

type_synonym srom = "u8 list"

section \<open>Emitting\<close>

definition pos :: "srom \<Rightarrow> u32" where
  "pos s = word_of_nat (length s)"

definition Offs :: "u8 \<Rightarrow> u32 \<Rightarrow> srom \<Rightarrow> srom" where
  "Offs ty ptr s = (let offs = ptr - pos s in s @ [ty, byte2 offs, byte1 offs, byte0 offs])"

definition Rsrc :: "u8 \<Rightarrow> u32 \<Rightarrow> srom \<Rightarrow> srom" where
  "Rsrc ty data s = s @ [ty, byte2 data, byte1 data, byte0 data]"

definition EndOfList :: "srom \<Rightarrow> srom" where
  "EndOfList s = s @ [0xff, 0, 0, 0]"

definition Long :: "u32 \<Rightarrow> srom \<Rightarrow> srom" where
  "Long data s = s @ [byte3 data, byte2 data, byte1 data, byte0 data]"

definition Word :: "u16 \<Rightarrow> srom \<Rightarrow> srom" where
  "Word data s = s @ [hi8 data, lo8 data]"

definition even_pad :: "srom \<Rightarrow> srom" where
  "even_pad s = (if odd (length s) then s @ [0] else s)"

definition String :: "string \<Rightarrow> srom \<Rightarrow> srom" where
  "String str s = even_pad (s @ map of_char str @ [0])"

definition PString :: "string \<Rightarrow> srom \<Rightarrow> srom" where
  "PString str s = even_pad (s @ word_of_nat (length str) # map of_char str)"

text \<open>Several words or long words in a row.\<close>

definition Words :: "u16 list \<Rightarrow> srom \<Rightarrow> srom" where
  "Words = fold Word"

definition Longs :: "u32 list \<Rightarrow> srom \<Rightarrow> srom" where
  "Longs = fold Long"

section \<open>Video modes and monitors\<close>

text \<open>Pixel type, pixel size, number and size of components.\<close>

fun pixel_format :: "video_depth \<Rightarrow> u16 list" where
  "pixel_format VDEPTH_1BIT = [0, 1, 1, 1]"
| "pixel_format VDEPTH_2BIT = [0, 2, 1, 2]"
| "pixel_format VDEPTH_4BIT = [0, 4, 1, 4]"
| "pixel_format VDEPTH_8BIT = [0, 8, 1, 8]"
| "pixel_format VDEPTH_16BIT = [16, 16, 3, 5]"
| "pixel_format VDEPTH_32BIT = [16, 32, 3, 8]"

definition VModeParms :: "monitor_desc \<Rightarrow> video_mode \<Rightarrow> video_depth \<Rightarrow> srom \<Rightarrow> srom" where
  "VModeParms m mode d s =
     (let s1 = Long 0 (Long 50 s);
          s2 = Words [ucast (get_bytes_per_row m d (resolution_id mode)), 0, 0, ucast (mode_y mode),
                      ucast (mode_x mode), 0, 0] s1;
          s3 = Longs [0, 0x00480000, 0x00480000] s2;
          s4 = Words (pixel_format d) s3
      in Longs [0, 0] s4)"

definition VModeDesc :: "u32 \<Rightarrow> bool \<Rightarrow> srom \<Rightarrow> srom" where
  "VModeDesc params direct s =
     EndOfList (Rsrc 0x04 (if direct then 2 else 0) (Rsrc 0x03 1 (Offs 0x01 params s)))"

text \<open>The parameter blocks and the descriptors of all depths, with the label of each.\<close>

definition vmode_parms ::
  "monitor_desc \<Rightarrow> video_mode \<Rightarrow> video_depth list \<Rightarrow> u32 list \<times> srom \<Rightarrow> u32 list \<times> srom" where
  "vmode_parms m mode = fold (\<lambda>d (ls, s). (ls @ [pos s], VModeParms m mode d s))"

definition vmode_descs :: "(video_depth \<times> u32) list \<Rightarrow> u32 list \<times> srom \<Rightarrow> u32 list \<times> srom" where
  "vmode_descs = fold (\<lambda>(d, parms) (ls, s). (ls @ [pos s], VModeDesc parms (IsDirectMode d) s))"

definition VMonitor ::
  "monitor_desc \<Rightarrow> video_mode \<Rightarrow> u32 \<Rightarrow> u32 \<Rightarrow> u32 \<Rightarrow> u32 \<Rightarrow> srom \<Rightarrow> u32 \<times> srom" where
  "VMonitor m mode videoType videoName vidDrvrDir gammaDir s =
     (let minorBase = pos s; s1 = Long (mac_frame_base m) s;
          minorLength = pos s1; s2 = Long 0 s1;
          (parms, s3) = vmode_parms m mode all_depths ([], s2);
          (descs, s4) = vmode_descs (zip all_depths parms) ([], s3);
          ret = pos s4;
          s5 = Offs 0x04 vidDrvrDir (Offs 0x02 videoName (Offs 0x01 videoType s4));
          s6 = Offs 0x0b minorLength (Offs 0x0a minorBase (Rsrc 0x08 0x4232 s5));
          s7 = Rsrc 0x7d 6 (Offs 0x40 gammaDir s6);
          s8 = fold (\<lambda>(d, label) t. if has_depth m d then Offs (ucast (depth_to_apple_mode m d)) label t else t)
                 (zip all_depths descs) s7
      in (ret, EndOfList s8))"

section \<open>The fixed parts\<close>

abbreviation (input) M68K_EMUL_OP_VIDEO_OPEN :: u16 where "M68K_EMUL_OP_VIDEO_OPEN \<equiv> 0x7118"
abbreviation (input) M68K_EMUL_OP_VIDEO_CONTROL :: u16 where "M68K_EMUL_OP_VIDEO_CONTROL \<equiv> 0x7119"
abbreviation (input) M68K_EMUL_OP_VIDEO_STATUS :: u16 where "M68K_EMUL_OP_VIDEO_STATUS \<equiv> 0x711a"
abbreviation (input) M68K_EMUL_OP_ETHER_OPEN :: u16 where "M68K_EMUL_OP_ETHER_OPEN \<equiv> 0x7120"
abbreviation (input) M68K_EMUL_OP_ETHER_CONTROL :: u16 where "M68K_EMUL_OP_ETHER_CONTROL \<equiv> 0x7121"

text \<open>The board sResource. The result is its label.\<close>

definition board_rsrc :: "string \<Rightarrow> string \<Rightarrow> srom \<Rightarrow> u32 \<times> srom" where
  "board_rsrc version build_date s =
     (let boardType = pos s; s1 = Words [1, 0, 0, 0] s;
          boardName = pos s1; s2 = String ''Basilisk II Slot ROM'' s1;
          vendorID = pos s2; s3 = String ''Christian Bauer'' s2;
          revLevel = pos s3; s4 = String version s3;
          partNum = pos s4; s5 = String ''BasiliskII'' s4;
          date = pos s5; s6 = String build_date s5;
          vendorInfo = pos s6;
          s7 = EndOfList (Offs 0x05 date (Offs 0x04 partNum (Offs 0x03 revLevel (Offs 0x01 vendorID s6))));
          sRsrcBoard = pos s7;
          s8 = EndOfList (Offs 0x24 vendorInfo (Rsrc 0x20 0x4232 (Offs 0x02 boardName (Offs 0x01 boardType s7))))
      in (sRsrcBoard, s8))"

definition video_driver :: "srom \<Rightarrow> srom" where
  "video_driver s =
     Words [1, M68K_EMUL_OP_VIDEO_OPEN, 0x4e75, 0x70ff, 0x600e, M68K_EMUL_OP_VIDEO_CONTROL,
            0x0c68, 0x0001, 0x001a, 0x6604, 0x4e75, M68K_EMUL_OP_VIDEO_STATUS,
            0x3228, 0x0006, 0x0801, 0x0009, 0x670c, 0x4a40, 0x6f02, 0x4240, 0x3140, 0x0010, 0x4e75,
            0x4a40, 0x6f04, 0x4240, 0x4e75, 0x2f38, 0x08fc, 0x4e75, 0x70e8, 0x4e75]
       (PString ''.Display_Video_Apple_Basilisk''
         (Words [0x4c00, 0, 0, 0, 0x32, 0x36, 0x3a, 0x46, 0x6c] (Long 0x72 s)))"

definition gamma_ramp :: "u32 list" where
  "gamma_ramp = [
     0x0005090B, 0x0E101315, 0x17191B1D, 0x1E202224, 0x2527282A, 0x2C2D2F30, 0x31333436, 0x37383A3B,
     0x3C3E3F40, 0x42434445, 0x4748494A, 0x4B4D4E4F, 0x50515254, 0x55565758, 0x595A5B5C, 0x5E5F6061,
     0x62636465, 0x66676869, 0x6A6B6C6D, 0x6E6F7071, 0x72737475, 0x76777879, 0x7A7B7C7D, 0x7E7F8081,
     0x81828384, 0x85868788, 0x898A8B8C, 0x8C8D8E8F, 0x90919293, 0x94959596, 0x9798999A, 0x9B9B9C9D,
     0x9E9FA0A1, 0xA1A2A3A4, 0xA5A6A6A7, 0xA8A9AAAB, 0xABACADAE, 0xAFB0B0B1, 0xB2B3B4B4, 0xB5B6B7B8,
     0xB8B9BABB, 0xBCBCBDBE, 0xBFC0C0C1, 0xC2C3C3C4, 0xC5C6C7C7, 0xC8C9CACA, 0xCBCCCDCD, 0xCECFD0D0,
     0xD1D2D3D3, 0xD4D5D6D6, 0xD7D8D9D9, 0xDADBDCDC, 0xDDDEDFDF, 0xE0E1E1E2, 0xE3E4E4E5, 0xE6E7E7E8,
     0xE9E9EAEB, 0xECECEDEE, 0xEEEFF0F1, 0xF1F2F3F3, 0xF4F5F5F6, 0xF7F8F8F9, 0xFAFAFBFC, 0xFCFDFEFF]"

definition default_gamma :: "srom \<Rightarrow> srom" where
  "default_gamma s =
     Longs gamma_ramp (Words [0, 0, 0, 1, 0x0100, 8]
       (String ''Mac HiRes Std Gamma'' (Word 0x2000 (Long (38 + 0x100) s))))"

definition ether_driver :: "srom \<Rightarrow> srom" where
  "ether_driver s =
     Words [M68K_EMUL_OP_ETHER_OPEN, 0x4e75, 0x70ef, 0x600c, M68K_EMUL_OP_ETHER_CONTROL,
            0x0c68, 0x0001, 0x001a, 0x6602, 0x4e75, 0x3228, 0x0006, 0x0801, 0x0009, 0x670c, 0x4a40, 0x6f02,
            0x4240, 0x3140, 0x0010, 0x4e75, 0x4a40, 0x6f04, 0x4240, 0x4e75, 0x2f38, 0x08fc, 0x4e75, 0x70e8, 0x4e75]
       (PString ''Basilisk II Ethernet Network Driver'' (PString ''1.1.1  ''
         (Words [0x0111, 0x8000, 0] (PString ''.ENET''
           (Words [0x4400, 0, 0, 0, 0x4a, 0x4e, 0x52, 0x4e, 0x82] (Long 0x88 s))))))"

text \<open>Display type, name, driver directory and gamma directory, in that order.\<close>

definition video_common :: "srom \<Rightarrow> (u32 \<times> u32 \<times> u32 \<times> u32) \<times> srom" where
  "video_common s =
     (let videoType = pos s; s1 = Words [3, 1, 1, 0x4232] s;
          videoName = pos s1; s2 = String ''Display_Video_Apple_Basilisk'' s1;
          videoDrvr = pos s2; s3 = video_driver s2;
          vidDrvrDir = pos s3; s4 = EndOfList (Offs 0x02 videoDrvr s3);
          defaultGamma = pos s4; s5 = default_gamma s4;
          gammaDir = pos s5; s6 = EndOfList (Offs 0x80 defaultGamma s5)
      in ((videoType, videoName, vidDrvrDir, gammaDir), s6))"

definition cpu_rsrc :: "srom \<Rightarrow> u32 \<times> srom" where
  "cpu_rsrc s =
     (let cpuType = pos s; s1 = Words [10, 3, 0, 24] s;
          cpuName = pos s1; s2 = String ''CPU_68020'' s1;
          cpuMajor = pos s2; s3 = Longs [0, 0x7fffffff] s2;
          cpuMinor = pos s3; s4 = Longs [0xf0800000, 0xf0ffffff] s3;
          sRsrcCPU = pos s4;
          s5 = EndOfList (Offs 0x82 cpuMinor (Offs 0x81 cpuMajor (Offs 0x02 cpuName (Offs 0x01 cpuType s4))))
      in (sRsrcCPU, s5))"

definition ether_rsrc :: "srom \<Rightarrow> u32 \<times> srom" where
  "ether_rsrc s =
     (let etherType = pos s; s1 = Words [4, 1, 1, 0x4232] s;
          etherName = pos s1; s2 = String ''Network_Ethernet_Apple_BasiliskII'' s1;
          etherDrvr = pos s2; s3 = ether_driver s2;
          etherDrvrDir = pos s3; s4 = EndOfList (Offs 0x02 etherDrvr s3);
          sRsrcEther = pos s4;
          s5 = EndOfList (Rsrc 0x08 0x4232 (Rsrc 0x07 2
                 (Offs 0x04 etherDrvrDir (Offs 0x02 etherName (Offs 0x01 etherType s4)))))
      in (sRsrcEther, s5))"

section \<open>The whole ROM\<close>

text \<open>One sResource per monitor; a monitor without a current mode gives \<open>None\<close>.\<close>

fun monitor_rsrcs ::
  "u32 \<times> u32 \<times> u32 \<times> u32 \<Rightarrow> monitor_desc list \<Rightarrow> srom \<Rightarrow> (u32 list \<times> srom) option" where
  "monitor_rsrcs labels [] s = Some ([], s)"
| "monitor_rsrcs labels (m # ms) s =
     (case get_current_mode m of
        None \<Rightarrow> None
      | Some mode \<Rightarrow>
          (let (videoType, videoName, vidDrvrDir, gammaDir) = labels;
               (label, s1) = VMonitor m mode videoType videoName vidDrvrDir gammaDir s
           in map_option (apfst (Cons label)) (monitor_rsrcs labels ms s1)))"

definition put_dir :: "(u8 \<times> u32) list \<Rightarrow> srom \<Rightarrow> srom" where
  "put_dir es s = EndOfList (fold (\<lambda>(ty, label). Offs ty label) es s)"

definition format_block :: "u32 \<Rightarrow> srom \<Rightarrow> srom" where
  "format_block sRsrcDir s =
     (let s1 = Offs 0 sRsrcDir s; s2 = Long (pos s1 + 16) s1; s3 = Long 0 s2
      in Word 0x000f (Long 0x5a932bc7 (Word 0x0101 s3)))"

definition build_slot_rom :: "string \<Rightarrow> string \<Rightarrow> monitor_desc list \<Rightarrow> srom option" where
  "build_slot_rom version build_date ms =
     (let (sRsrcBoard, s1) = board_rsrc version build_date [];
          (labels, s2) = video_common s1
      in case monitor_rsrcs labels ms s2 of
           None \<Rightarrow> None
         | Some (sRsrcVideo, s3) \<Rightarrow>
             (let (sRsrcCPU, s4) = cpu_rsrc s3;
                  (sRsrcEther, s5) = ether_rsrc s4;
                  s6 = put_dir ((0x01, sRsrcBoard) # zip (map slot_id ms) sRsrcVideo
                         @ [(0xf0, sRsrcCPU), (0xf1, sRsrcEther)]) s5;
                  rom = format_block (pos s5) s6
              in if length rom \<le> 4096 then Some rom else None))"

text \<open>The checksum: four bytes, computed with zeros in their place.\<close>

definition crc_step :: "u8 \<Rightarrow> u32 \<Rightarrow> u32" where
  "crc_step b crc = (push_bit 1 crc OR drop_bit 31 crc) + ucast b"

definition put_crc :: "u32 \<Rightarrow> srom \<Rightarrow> srom" where
  "put_crc crc p =
     (let n = length p in
      p[n - 12 := byte3 crc, n - 11 := byte2 crc, n - 10 := byte1 crc, n - 9 := byte0 crc])"

definition checksum :: "srom \<Rightarrow> srom" where
  "checksum p = (let p0 = put_crc 0 p in put_crc (fold crc_step p0 0) p0)"

text \<open>Where the Mac ROM lies, and the length of the slot ROM at its end.\<close>

record rom_info =
  ROMBaseMac :: u32
  ROMSize :: u32
  slot_rom_size :: nat

definition slot_rom_addr :: "rom_info \<Rightarrow> u32" where
  "slot_rom_addr R = ROMBaseMac R + ROMSize R - word_of_nat (slot_rom_size R)"

definition ChecksumSlotROM :: "rom_info \<Rightarrow> 'h mac \<Rightarrow> 'h mac" where
  "ChecksumSlotROM R s =
     put_bytes (slot_rom_addr R) (checksum (get_bytes s (slot_rom_addr R) (slot_rom_size R))) s"

definition InstallSlotROM ::
  "string \<Rightarrow> string \<Rightarrow> monitor_desc list \<Rightarrow> rom_info \<Rightarrow> 'h mac \<Rightarrow> (bool \<times> rom_info \<times> 'h mac) option" where
  "InstallSlotROM version build_date ms R s =
     (case build_slot_rom version build_date ms of
        None \<Rightarrow> None
      | Some rom \<Rightarrow>
          (let R1 = R\<lparr>slot_rom_size := length rom\<rparr>
           in Some (True, R1, ChecksumSlotROM R1 (put_bytes (slot_rom_addr R1) rom s))))"

section \<open>Reading the ROM\<close>

lemma length_emit [simp]:
  "length (Offs ty ptr s) = length s + 4" "length (Rsrc ty data s) = length s + 4"
  "length (EndOfList s) = length s + 4" "length (Long x s) = length s + 4" "length (Word w s) = length s + 2"
  "length (Words ws s) = length s + 2 * length ws" "length (Longs xs s) = length s + 4 * length xs"
proof -
  show "length (Words ws s) = length s + 2 * length ws"
    by (induction ws arbitrary: s) (simp_all add: Words_def Word_def)
  show "length (Longs xs s) = length s + 4 * length xs"
    by (induction xs arbitrary: s) (simp_all add: Longs_def Long_def)
qed (simp_all add: Offs_def Rsrc_def EndOfList_def Long_def Word_def Let_def)

text \<open>The three bytes of an entry, with their sign extended, are relative to the entry.\<close>

definition offs_target :: "srom \<Rightarrow> nat \<Rightarrow> u32" where
  "offs_target rom a = word_of_nat a
     + signed_take_bit 23 (join32 0 (rom ! (a + 1)) (rom ! (a + 2)) (rom ! (a + 3)))"

lemma low24_bytes: "join32 0 (byte2 v) (byte1 v) (byte0 v) = take_bit 24 v"
proof (rule bit_word_eqI)
  fix n assume n: "n < LENGTH(32)"
  consider "n < 8" | "8 \<le> n" "n < 16" | "16 \<le> n" "n < 24" | "24 \<le> n" by linarith
  then show "bit (join32 0 (byte2 v) (byte1 v) (byte0 v)) n = bit (take_bit 24 v) n"
    using n by cases (auto simp: join32_def byte2_def byte1_def byte0_def bit_simps)
qed

lemma signed_take_bit_small:
  assumes "- (2 ^ 23) \<le> sint (v :: u32)" and "sint v < 2 ^ 23"
  shows "signed_take_bit 23 v = v"
proof -
  have "signed_take_bit 23 (sint v) = sint v"
    using assms by (intro signed_take_bit_int_eq_self) simp_all
  moreover have "signed_take_bit 23 v = word_of_int (signed_take_bit 23 (sint v))"
    by (rule bit_word_eqI) (auto simp: bit_signed_take_bit_iff bit_word_of_int_iff bit_sint_iff min_def)
  ultimately show ?thesis by simp
qed

lemma small_difference:
  assumes "i < 2 ^ 23" and "j < 2 ^ 23"
  shows "- (2 ^ 23) \<le> sint (word_of_nat i - word_of_nat j :: u32)"
    and "sint (word_of_nat i - word_of_nat j :: u32) < 2 ^ 23"
proof -
  have "word_of_nat i - word_of_nat j = (word_of_int (int i - int j) :: u32)" by simp
  moreover have "sint (word_of_int (int i - int j) :: u32) = int i - int j"
    using assms by (subst int_word_sint) simp
  ultimately have "sint (word_of_nat i - word_of_nat j :: u32) = int i - int j" by (simp only:)
  then show "- (2 ^ 23) \<le> sint (word_of_nat i - word_of_nat j :: u32)"
    "sint (word_of_nat i - word_of_nat j :: u32) < 2 ^ 23"
    using assms by simp_all
qed

text \<open>What Offs() wrote is read back, wherever in the ROM the entry and its target are.\<close>

lemma offs_target_Offs:
  assumes "length s < 2 ^ 23" and "k < 2 ^ 23"
  shows "offs_target (Offs ty (word_of_nat k) s @ rest) (length s) = word_of_nat k"
proof -
  let ?v = "word_of_nat k - word_of_nat (length s) :: u32"
  have "offs_target (Offs ty (word_of_nat k) s @ rest) (length s)
      = word_of_nat (length s) + signed_take_bit 23 (take_bit 24 ?v)"
    by (simp add: offs_target_def Offs_def Let_def nth_append pos_def low24_bytes)
  also have "signed_take_bit 23 (take_bit 24 ?v) = signed_take_bit 23 ?v"
    by (simp add: signed_take_bit_take_bit)
  also have "\<dots> = ?v" using small_difference [OF assms(2,1)] by (rule signed_take_bit_small)
  finally show ?thesis by simp
qed

text \<open>The entries of an sResource list, up to the end mark: their types and positions.\<close>

function rsrc_list :: "srom \<Rightarrow> nat \<Rightarrow> (u8 \<times> nat) list" where
  "rsrc_list rom a =
     (if length rom \<le> a \<or> rom ! a = 0xff then [] else (rom ! a, a) # rsrc_list rom (a + 4))"
  by pat_completeness auto

termination
  by (relation "measure (\<lambda>(rom, a). length rom - a)") auto

declare rsrc_list.simps [simp del]

definition directory :: "srom \<Rightarrow> nat \<Rightarrow> (u8 \<times> u32) list" where
  "directory rom a = map (\<lambda>(ty, k). (ty, offs_target rom k)) (rsrc_list rom a)"

lemma directory_put_dir:
  assumes "\<And>ty k. (ty, k) \<in> set es \<Longrightarrow> ty \<noteq> 0xff \<and> unat k < 2 ^ 23" and "length s + 4 * length es < 2 ^ 23"
  shows "directory (put_dir es s @ rest) (length s) = es"
  using assms
proof (induction es arbitrary: s)
  case Nil
  then show ?case by (simp add: put_dir_def directory_def rsrc_list.simps EndOfList_def nth_append)
next
  case (Cons e es)
  obtain ty k where e: "e = (ty, k)" by force
  have split: "put_dir (e # es) s = put_dir es (Offs ty k s)" by (simp add: put_dir_def e)
  have IH: "directory (put_dir es (Offs ty k s) @ rest) (length s + 4) = es"
    by (rule Cons.IH [of "Offs ty k s", unfolded length_emit]) (use Cons.prems in auto)
  have pre: "\<exists>x. put_dir es t = t @ x" for t
  proof (induction es arbitrary: t)
    case (Cons a es)
    obtain x where "put_dir es (Offs (fst a) (snd a) t) = Offs (fst a) (snd a) t @ x" using Cons by blast
    then show ?case by (auto simp: put_dir_def Offs_def Let_def split_beta)
  qed (simp add: put_dir_def EndOfList_def)
  then obtain x where x: "put_dir es (Offs ty k s) = Offs ty k s @ x" by blast
  have ty: "ty \<noteq> 0xff" "unat k < 2 ^ 23" using Cons.prems(1) [of ty k] e by auto
  have "offs_target (Offs ty k s @ x @ rest) (length s) = k"
    using offs_target_Offs [of s "unat k" ty "x @ rest"] Cons.prems(2) ty(2) by simp
  moreover have "(Offs ty k s @ x @ rest) ! length s = ty" by (simp add: Offs_def Let_def nth_append)
  ultimately show ?case
    using IH ty(1) unfolding directory_def split x append_assoc
    by (subst rsrc_list.simps) (simp add: e)
qed

text \<open>The parts of the ROM only append, and labels are positions in what has been written.\<close>

definition grows :: "srom \<Rightarrow> srom \<Rightarrow> bool" where
  "grows s t \<longleftrightarrow> (\<exists>x. t = s @ x)"

lemma grows_refl [intro]: "grows s s"
  by (simp add: grows_def)

lemma grows_trans: "grows s t \<Longrightarrow> grows t u \<Longrightarrow> grows s u"
  by (auto simp: grows_def)

lemma grows_length: "grows s t \<Longrightarrow> length s \<le> length t"
  by (auto simp: grows_def)

lemma grows_emit:
  "grows s t \<Longrightarrow> grows s (Offs ty ptr t)" "grows s t \<Longrightarrow> grows s (Rsrc ty data t)"
  "grows s t \<Longrightarrow> grows s (EndOfList t)" "grows s t \<Longrightarrow> grows s (Long x t)" "grows s t \<Longrightarrow> grows s (Word w t)"
  "grows s t \<Longrightarrow> grows s (String str t)" "grows s t \<Longrightarrow> grows s (PString str t)"
  by (auto simp: grows_def Offs_def Rsrc_def EndOfList_def Long_def Word_def String_def PString_def even_pad_def
      Let_def)

lemma grows_fold:
  "grows s t \<Longrightarrow> (\<And>x u. grows s u \<Longrightarrow> grows s (f x u)) \<Longrightarrow> grows s (fold f xs t)"
  by (induction xs arbitrary: t) auto

lemma grows_words: "grows s t \<Longrightarrow> grows s (Words ws t)" "grows s t \<Longrightarrow> grows s (Longs xs t)"
  unfolding Words_def Longs_def by (auto intro!: grows_fold grows_emit)

lemma grows_mode_blocks:
  "grows s t \<Longrightarrow> grows s (VModeParms m mode d t)" "grows s t \<Longrightarrow> grows s (VModeDesc parms direct t)"
  by (auto simp: VModeParms_def VModeDesc_def Let_def intro!: grows_emit grows_words)

lemma grows_vmode:
  "grows s (snd lt) \<Longrightarrow> grows s (snd (vmode_parms m mode ds lt))"
  "grows s (snd lt) \<Longrightarrow> grows s (snd (vmode_descs dls lt))"
proof -
  show "grows s (snd lt) \<Longrightarrow> grows s (snd (vmode_parms m mode ds lt))"
    unfolding vmode_parms_def
    by (induction ds arbitrary: lt) (simp_all add: split_beta grows_mode_blocks)
  show "grows s (snd lt) \<Longrightarrow> grows s (snd (vmode_descs dls lt))"
    unfolding vmode_descs_def
    by (induction dls arbitrary: lt) (simp_all add: split_beta grows_mode_blocks)
qed

text \<open>
  A part that starts at \<open>s\<close> and ends with \<open>t\<close>; its label lies between and is the position of a
  list whose first entry is the type of the sResource.
\<close>

definition label_in :: "srom \<Rightarrow> u32 \<Rightarrow> srom \<Rightarrow> bool" where
  "label_in s label t \<longleftrightarrow> (\<exists>u x. label = pos u \<and> grows s u \<and> t = u @ 1 # x)"

lemma label_in_I: "grows s u \<Longrightarrow> grows (Offs 1 ptr u) t \<Longrightarrow> label_in s (pos u) t"
  by (auto simp: label_in_def grows_def Offs_def Let_def)

lemma label_in_grows: "label_in s label t \<Longrightarrow> grows s t"
  by (auto simp: label_in_def grows_def)

lemma label_in_later: "label_in s label t \<Longrightarrow> grows t u \<Longrightarrow> label_in s label u"
  by (auto simp: label_in_def grows_def)

lemma label_in_earlier: "label_in s label t \<Longrightarrow> grows r s \<Longrightarrow> label_in r label t"
  by (auto simp: label_in_def intro: grows_trans)

lemma label_in_position:
  assumes "label_in s label t" and "length t < 2 ^ 32"
  shows "unat label < length t \<and> t ! unat label = 1"
  using assms by (auto simp: label_in_def pos_def unat_word_of_nat nth_append)

lemma VMonitor_label: "VMonitor m mode a b c d s = (label, t) \<Longrightarrow> label_in s label t"
proof -
  assume v: "VMonitor m mode a b c d s = (label, t)"
  let ?s2 = "Long 0 (Long (mac_frame_base m) s)"
  obtain parms s3 where p: "vmode_parms m mode all_depths ([], ?s2) = (parms, s3)" by force
  obtain descs s4 where q: "vmode_descs (zip all_depths parms) ([], s3) = (descs, s4)" by force
  have g3: "grows s s3"
    using grows_vmode(1) [of s "([], ?s2)" m mode all_depths] p by (auto intro!: grows_emit)
  have g4: "grows s s4"
    using grows_vmode(2) [of s "([], s3)" "zip all_depths parms"] q g3 by auto
  have lab: "label = pos s4" using v p q by (simp add: VMonitor_def Let_def)
  have t: "grows (Offs 1 a s4) t"
  proof -
    have f: "grows r (EndOfList (fold (\<lambda>(d, label) t. if has_depth m d
        then Offs (ucast (depth_to_apple_mode m d)) label t else t) zs u))" if "grows r u" for r u zs
      by (rule grows_emit(3), rule grows_fold [OF that]) (auto intro: grows_emit(1))
    show ?thesis
      using v p q by (clarsimp simp: VMonitor_def Let_def) (rule f, (rule grows_refl grows_emit)+)
  qed
  show ?thesis unfolding lab by (rule label_in_I [OF g4 t])
qed

lemma monitor_rsrcs_labels:
  "monitor_rsrcs labels ms s = Some (ls, t) \<Longrightarrow>
     grows s t \<and> length ls = length ms \<and> (\<forall>l \<in> set ls. label_in s l t)"
proof (induction ms arbitrary: s ls t)
  case (Cons m ms)
  obtain a b c d where lb: "labels = (a, b, c, d)" by (cases labels)
  obtain mode where mode: "get_current_mode m = Some mode"
    using Cons.prems by (cases "get_current_mode m") auto
  obtain l s1 where v: "VMonitor m mode a b c d s = (l, s1)" by force
  obtain ls' where r: "monitor_rsrcs labels ms s1 = Some (ls', t)" "ls = l # ls'"
    using Cons.prems mode v by (auto simp: lb)
  note l = VMonitor_label [OF v]
  from Cons.IH [OF r(1)] l show ?case
    using r(2) label_in_grows [OF l] by (auto intro: grows_trans label_in_later label_in_earlier)
qed auto

lemma rsrc_labels:
  "board_rsrc v d s = (label, t) \<Longrightarrow> label_in s label t"
  "cpu_rsrc s = (label, t) \<Longrightarrow> label_in s label t"
  "ether_rsrc s = (label, t) \<Longrightarrow> label_in s label t"
  "video_common s = (labels, t) \<Longrightarrow> grows s t"
proof -
  show "board_rsrc v d s = (label, t) \<Longrightarrow> label_in s label t"
    by (clarsimp simp: board_rsrc_def Let_def, rule label_in_I, (rule grows_refl grows_emit grows_words)+)
  show "cpu_rsrc s = (label, t) \<Longrightarrow> label_in s label t"
    by (clarsimp simp: cpu_rsrc_def Let_def, rule label_in_I, (rule grows_refl grows_emit grows_words)+)
  show "ether_rsrc s = (label, t) \<Longrightarrow> label_in s label t"
    by (clarsimp simp: ether_rsrc_def ether_driver_def Let_def, rule label_in_I, (rule grows_refl grows_emit grows_words)+)
  show "video_common s = (labels, t) \<Longrightarrow> grows s t"
    by (clarsimp simp: video_common_def video_driver_def default_gamma_def Let_def,
        (rule grows_refl grows_emit grows_words)+)
qed

definition rd16 :: "srom \<Rightarrow> nat \<Rightarrow> u16" where
  "rd16 rom a = join16 (rom ! a) (rom ! (a + 1))"

definition rd32 :: "srom \<Rightarrow> nat \<Rightarrow> u32" where
  "rd32 rom a = join32 (rom ! a) (rom ! (a + 1)) (rom ! (a + 2)) (rom ! (a + 3))"

lemma format_block_append: "\<exists>x. format_block d s = s @ x" and length_format_block: "length (format_block d s) = length s + 20"
  by (simp_all add: format_block_def Let_def Offs_def Long_def Word_def)

lemma format_block_fields:
  assumes "length s < 2 ^ 22" and "k < 2 ^ 23"
  shows "rd16 (format_block (word_of_nat k) s) (length s + 18) = 0x000f"
    "rd32 (format_block (word_of_nat k) s) (length s + 14) = 0x5a932bc7"
    "rd16 (format_block (word_of_nat k) s) (length s + 12) = 0x0101"
    "rd32 (format_block (word_of_nat k) s) (length s + 8) = 0"
    "rd32 (format_block (word_of_nat k) s) (length s + 4) = word_of_nat (length s + 20)"
    "offs_target (format_block (word_of_nat k) s) (length s) = word_of_nat k"
proof -
  let ?s1 = "Offs 0 (word_of_nat k) s"
  have eq: "format_block (word_of_nat k) s =
      ?s1 @ [byte3 (pos ?s1 + 16), byte2 (pos ?s1 + 16), byte1 (pos ?s1 + 16), byte0 (pos ?s1 + 16),
        byte3 0, byte2 0, byte1 0, byte0 0, hi8 0x0101, lo8 0x0101,
        byte3 0x5a932bc7, byte2 0x5a932bc7, byte1 0x5a932bc7, byte0 0x5a932bc7, hi8 0x000f, lo8 0x000f]"
    by (simp add: format_block_def Let_def Long_def Word_def)
  have l: "length ?s1 = length s + 4" by simp
  show "offs_target (format_block (word_of_nat k) s) (length s) = word_of_nat k"
    unfolding eq by (rule offs_target_Offs) (use assms in simp_all)
  show "rd16 (format_block (word_of_nat k) s) (length s + 18) = 0x000f"
    "rd32 (format_block (word_of_nat k) s) (length s + 14) = 0x5a932bc7"
    "rd16 (format_block (word_of_nat k) s) (length s + 12) = 0x0101"
    "rd32 (format_block (word_of_nat k) s) (length s + 8) = 0"
    "rd32 (format_block (word_of_nat k) s) (length s + 4) = word_of_nat (length s + 20)"
    by (simp_all only: eq rd16_def rd32_def nth_append l) (simp_all add: pos_def)
qed

text \<open>The Slot Manager finds its way through the declaration ROM: read from its end, the ROM
  that InstallSlotROM() builds, for any version text, build date and list of monitors, has the
  byte lanes, the test pattern, the format and the true length of the ROM at the places where
  the format block has them; the directory offset leads to the list of sResources, which are the
  board, one sResource per monitor under that monitor's slot ID, the CPU and the Ethernet board,
  in this order; and every one of these offsets leads to a list inside the ROM that begins with
  the sResource's type entry. No slot ID is the end mark.\<close>

theorem slot_rom_directory:
  assumes b: "build_slot_rom version build_date ms = Some rom" and ids: "\<And>m. m \<in> set ms \<Longrightarrow> slot_id m \<noteq> 0xff"
  shows "let n = length rom in
     n \<le> 4096 \<and> rd16 rom (n - 2) = 0x000f \<and> rd32 rom (n - 6) = 0x5a932bc7 \<and> rd16 rom (n - 8) = 0x0101
     \<and> rd32 rom (n - 12) = 0 \<and> rd32 rom (n - 16) = word_of_nat n
     \<and> (\<exists>board video cpu ether.
          directory rom (unat (offs_target rom (n - 20))) =
            (0x01, board) # zip (map slot_id ms) video @ [(0xf0, cpu), (0xf1, ether)]
          \<and> length video = length ms
          \<and> (\<forall>label \<in> {board, cpu, ether} \<union> set video. unat label < n \<and> rom ! unat label = 1))"
proof -
  obtain board s1 where s1: "board_rsrc version build_date [] = (board, s1)" by force
  obtain labels s2 where s2: "video_common s1 = (labels, s2)" by (rule prod.exhaust)
  obtain video s3 where s3: "monitor_rsrcs labels ms s2 = Some (video, s3)"
    using b s1 s2 by (auto simp: build_slot_rom_def Let_def split: option.splits)
  obtain cpu s4 where s4: "cpu_rsrc s3 = (cpu, s4)" by force
  obtain ether s5 where s5: "ether_rsrc s4 = (ether, s5)" by force
  define es where "es = (0x01, board) # zip (map slot_id ms) video @ [(0xf0, cpu), (0xf1, ether)]"
  define s6 where "s6 = put_dir es s5"
  have rom: "rom = format_block (pos s5) s6" and n: "length rom \<le> 4096"
    using b s1 s2 s3 s4 s5 by (auto simp: build_slot_rom_def Let_def es_def s6_def split: if_splits)
  have len: "length rom = length s6 + 20" unfolding rom by (rule length_format_block)
  note mon = monitor_rsrcs_labels [OF s3]
  have g: "grows s1 s2" "grows s2 s3" "grows s3 s4" "grows s4 s5"
    using rsrc_labels(4) [OF s2] mon rsrc_labels(2) [OF s4] rsrc_labels(3) [OF s5]
    by (auto intro: label_in_grows)
  have g56: "grows s5 s6"
    unfolding s6_def put_dir_def by (rule grows_emit(3), rule grows_fold) (auto intro: grows_emit(1))
  obtain x where x: "rom = s6 @ x" unfolding rom using format_block_append by blast
  then have g6: "grows s6 rom" by (auto simp: grows_def)
  have lab: "label_in [] l rom" if "l \<in> {board, cpu, ether} \<union> set video" for l
  proof -
    have "label_in [] board s1" using rsrc_labels(1) [OF s1] .
    moreover have "label_in s3 cpu s4" "label_in s4 ether s5"
      using rsrc_labels(2) [OF s4] rsrc_labels(3) [OF s5] by auto
    moreover have "grows [] t" for t by (simp add: grows_def)
    ultimately show ?thesis
      using that mon g g56 g6 by (auto 4 3 intro: label_in_earlier label_in_later grows_trans)
  qed
  have at: "unat l < length rom \<and> rom ! unat l = 1" if "l \<in> {board, cpu, ether} \<union> set video" for l
    using label_in_position [OF lab [OF that]] n by simp
  have es: "ty \<noteq> 0xff \<and> unat k < 2 ^ 23" if "(ty, k) \<in> set es" for ty k
  proof -
    have "ty \<noteq> 0xff" using that ids by (auto simp: es_def dest!: set_zip_leftD)
    moreover have "k \<in> {board, cpu, ether} \<union> set video"
      using that by (auto simp: es_def dest: set_zip_rightD)
    ultimately show ?thesis using at [of k] n by auto
  qed
  have l6: "length s6 = length s5 + 4 * length es + 4"
  proof -
    have "length (fold (\<lambda>(ty, label). Offs ty label) zs t) = length t + 4 * length zs" for zs t
      by (induction zs arbitrary: t) (auto simp: split_beta)
    then show ?thesis by (simp add: s6_def put_dir_def)
  qed
  have "directory rom (length s5) = es"
    unfolding x s6_def by (rule directory_put_dir [OF es]) (use l6 len n in simp_all)
  moreover have s5n: "length s5 < 2 ^ 23" "length s6 < 2 ^ 22" using l6 len n by simp_all
  have rom': "rom = format_block (word_of_nat (length s5)) s6" using rom by (simp only: pos_def)
  note f = format_block_fields [OF s5n(2,1), folded rom']
  have idx: "length rom - 2 = length s6 + 18" "length rom - 6 = length s6 + 14" "length rom - 8 = length s6 + 12"
    "length rom - 12 = length s6 + 8" "length rom - 16 = length s6 + 4" "length rom - 20 = length s6"
    by (simp_all add: len)
  have "unat (offs_target rom (length s6)) = length s5"
    using f(6) s5n by (simp add: pos_def unat_word_of_nat)
  ultimately show ?thesis
    using f at n mon unfolding Let_def idx es_def len [symmetric]
    by (intro conjI exI [of _ board] exI [of _ video] exI [of _ cpu] exI [of _ ether]) (simp_all add: len)
qed

lemma rd32_shift: "rd32 (s @ x) (length s) = rd32 x 0"
  by (simp add: rd32_def nth_append numeral_2_eq_2)

lemma Longs_append: "Longs xs (s @ t) = s @ Longs xs t"
  by (induction xs arbitrary: t) (simp_all add: Longs_def Long_def)

text \<open>The blocks declare their lengths. The parameter block of a video mode and the default
  gamma table are exactly as long as their length fields say. The two driver blocks are two bytes longer than declared (0x72 and 0x88): the last instruction
  word, the return of Close(), is outside the declared block. The entry points in the driver
  headers, counted from after the length field, lead to the right instruction words. The gamma table and the drivers
  start at even positions, as everything in the ROM does.\<close>

theorem slot_rom_blocks:
  "(\<exists>x. VModeParms m mode d s = s @ x \<and> length x = 50 \<and> rd32 (s @ x) (length s) = 50)
   \<and> (even (length s) \<longrightarrow>
       (\<exists>x. default_gamma s = s @ x \<and> rd32 (s @ x) (length s) = word_of_nat (length x))
     \<and> (\<exists>x. video_driver s = s @ x \<and> int (length x) = uint (rd32 (s @ x) (length s)) + 2
          \<and> map (\<lambda>k. rd16 x (4 + unat (rd16 x k))) [12, 14, 16, 18, 20] =
              [M68K_EMUL_OP_VIDEO_OPEN, 0x70ff, M68K_EMUL_OP_VIDEO_CONTROL, M68K_EMUL_OP_VIDEO_STATUS, 0x70e8])
     \<and> (\<exists>x. ether_driver s = s @ x \<and> int (length x) = uint (rd32 (s @ x) (length s)) + 2
          \<and> map (\<lambda>k. rd16 x (4 + unat (rd16 x k))) [12, 14, 16, 18, 20] =
              [M68K_EMUL_OP_ETHER_OPEN, 0x70ef, M68K_EMUL_OP_ETHER_CONTROL, 0x70ef, 0x70e8]))"
proof (intro conjI impI)
  show "\<exists>x. VModeParms m mode d s = s @ x \<and> length x = 50 \<and> rd32 (s @ x) (length s) = 50"
    by (cases d) (simp_all add: VModeParms_def Let_def Words_def Longs_def Word_def Long_def rd32_shift,
        simp_all add: rd32_def)
  assume ev: "even (length s)"
  have g: "default_gamma s = s @ default_gamma []"
    using ev by (simp add: default_gamma_def Longs_append Words_def Word_def Long_def String_def even_pad_def)
  have "rd32 (default_gamma []) 0 = word_of_nat (length (default_gamma []))" by code_simp
  then show "\<exists>x. default_gamma s = s @ x \<and> rd32 (s @ x) (length s) = word_of_nat (length x)"
    using g by (intro exI [of _ "default_gamma []"]) (simp add: rd32_shift)
  have v: "video_driver s = s @ video_driver []"
    using ev by (simp add: video_driver_def Words_def Word_def Long_def PString_def even_pad_def)
  have e: "ether_driver s = s @ ether_driver []"
    using ev by (simp add: ether_driver_def Words_def Word_def Long_def PString_def even_pad_def)
  have "int (length (video_driver [])) = uint (rd32 (video_driver []) 0) + 2
          \<and> map (\<lambda>k. rd16 (video_driver []) (4 + unat (rd16 (video_driver []) k))) [12, 14, 16, 18, 20] =
              [M68K_EMUL_OP_VIDEO_OPEN, 0x70ff, M68K_EMUL_OP_VIDEO_CONTROL, M68K_EMUL_OP_VIDEO_STATUS, 0x70e8]"
    by code_simp
  then show "\<exists>x. video_driver s = s @ x \<and> int (length x) = uint (rd32 (s @ x) (length s)) + 2
          \<and> map (\<lambda>k. rd16 x (4 + unat (rd16 x k))) [12, 14, 16, 18, 20] =
              [M68K_EMUL_OP_VIDEO_OPEN, 0x70ff, M68K_EMUL_OP_VIDEO_CONTROL, M68K_EMUL_OP_VIDEO_STATUS, 0x70e8]"
    using v by (intro exI [of _ "video_driver []"]) (simp add: rd32_shift)
  have "int (length (ether_driver [])) = uint (rd32 (ether_driver []) 0) + 2
          \<and> map (\<lambda>k. rd16 (ether_driver []) (4 + unat (rd16 (ether_driver []) k))) [12, 14, 16, 18, 20] =
              [M68K_EMUL_OP_ETHER_OPEN, 0x70ef, M68K_EMUL_OP_ETHER_CONTROL, 0x70ef, 0x70e8]"
    by code_simp
  then show "\<exists>x. ether_driver s = s @ x \<and> int (length x) = uint (rd32 (s @ x) (length s)) + 2
          \<and> map (\<lambda>k. rd16 x (4 + unat (rd16 x k))) [12, 14, 16, 18, 20] =
              [M68K_EMUL_OP_ETHER_OPEN, 0x70ef, M68K_EMUL_OP_ETHER_CONTROL, 0x70ef, 0x70e8]"
    using e by (intro exI [of _ "ether_driver []"]) (simp add: rd32_shift)
qed

section \<open>The checksum\<close>

text \<open>The check of the Slot Manager: the sum over the ROM with the checksum taken as 0.\<close>

definition crc_ok :: "srom \<Rightarrow> bool" where
  "crc_ok p \<longleftrightarrow> rd32 p (length p - 12) = fold crc_step (put_crc 0 p) 0"

lemma length_put_crc [simp]: "length (put_crc c p) = length p"
  by (simp add: put_crc_def Let_def)

lemma put_crc_twice: "put_crc a (put_crc b p) = put_crc a p"
  by (rule nth_equalityI) (simp_all add: put_crc_def Let_def nth_list_update)

lemma rd32_put_crc: "12 \<le> length p \<Longrightarrow> rd32 (put_crc c p) (length p - 12) = c"
proof -
  assume "12 \<le> length p"
  then obtain k where k: "length p = k + 12" by (metis add.commute le_Suc_ex)
  then show ?thesis by (simp add: rd32_def put_crc_def Let_def add.commute [of k 3])
qed

lemma checksum_ok: "12 \<le> length p \<Longrightarrow> crc_ok (checksum p)" and length_checksum [simp]: "length (checksum p) = length p"
  by (simp_all add: crc_ok_def checksum_def Let_def put_crc_twice rd32_put_crc)

lemma put_crc_format: "put_crc 0 (format_block d s) = format_block d s"
proof -
  have z: "byte3 0 = 0" "byte2 0 = 0" "byte1 0 = 0" "byte0 0 = 0"
    by (simp_all add: byte3_def byte2_def byte1_def byte0_def)
  show ?thesis
    by (simp add: format_block_def Let_def Offs_def Long_def Word_def put_crc_def list_update_append z)
qed

text \<open>The declaration ROM passes the Slot Manager's check. After InstallSlotROM(), for any
  monitors and wherever the Mac ROM lies, the end of the Mac ROM holds the bytes that were
  built, with a checksum in its place that equals the rotating sum over them. ChecksumSlotROM()
  restores this property after any patch of the ROM's bytes and touches nothing else there.\<close>

theorem slot_rom_checksum:
  fixes s t :: "'h mac"
  assumes i: "InstallSlotROM version build_date ms R s = Some (ok, R1, s1)"
  shows "(let p = get_bytes s1 (slot_rom_addr R1) (slot_rom_size R1) in
            ok \<and> crc_ok p \<and> build_slot_rom version build_date ms = Some (put_crc 0 p))
     \<and> (let t1 = ChecksumSlotROM R1 t; p = get_bytes t (slot_rom_addr R1) (slot_rom_size R1);
             q = get_bytes t1 (slot_rom_addr R1) (slot_rom_size R1)
        in crc_ok q \<and> put_crc 0 q = put_crc 0 p \<and> host t1 = host t)"
proof -
  obtain rom where b: "build_slot_rom version build_date ms = Some rom"
      and R1: "R1 = R\<lparr>slot_rom_size := length rom\<rparr>" "ok"
      and s1: "s1 = ChecksumSlotROM R1 (put_bytes (slot_rom_addr R1) rom s)"
    using i by (auto simp: InstallSlotROM_def Let_def split: option.splits)
  obtain s5 s6 es d where rom: "rom = format_block d s6" "s6 = put_dir es s5" and n: "length rom \<le> 4096"
    using b by (auto simp: build_slot_rom_def Let_def split_beta split: option.splits if_splits)
  have l: "12 \<le> length rom" by (simp add: rom(1) length_format_block)
  have crc0: "put_crc 0 rom = rom" unfolding rom(1) by (rule put_crc_format)
  have sz: "slot_rom_size R1 = length rom" by (simp add: R1)
  have host: "host (ChecksumSlotROM R1 u) = host u" for u :: "'h mac" by (simp add: ChecksumSlotROM_def)
  have chk: "get_bytes (ChecksumSlotROM R1 u) (slot_rom_addr R1) (length rom)
      = checksum (get_bytes u (slot_rom_addr R1) (length rom))" for u :: "'h mac"
  proof -
    have "length (checksum (get_bytes u (slot_rom_addr R1) (length rom))) = length rom" by (simp add: get_bytes_def)
    then show ?thesis
      using get_put_bytes [of "checksum (get_bytes u (slot_rom_addr R1) (length rom))" "slot_rom_addr R1" u] n
      by (simp add: ChecksumSlotROM_def sz)
  qed
  have zero: "put_crc 0 (checksum p) = put_crc 0 p" for p by (simp add: checksum_def Let_def put_crc_twice)
  have len: "length (get_bytes u a k) = k" for u :: "'h mac" and a k by (simp add: get_bytes_def)
  have "get_bytes (put_bytes (slot_rom_addr R1) rom s) (slot_rom_addr R1) (length rom) = rom"
    using n by (intro get_put_bytes) simp
  then show ?thesis
    using R1(2) l b crc0 by (simp add: s1 sz chk zero host Let_def checksum_ok len)
qed

section \<open>The size of the ROM\<close>

lemma len_emit:
  "length s \<le> n \<Longrightarrow> length (Offs ty ptr s) \<le> n + 4" "length s \<le> n \<Longrightarrow> length (Rsrc ty data s) \<le> n + 4"
  "length s \<le> n \<Longrightarrow> length (EndOfList s) \<le> n + 4" "length s \<le> n \<Longrightarrow> length (Long x s) \<le> n + 4"
  "length s \<le> n \<Longrightarrow> length (Word w s) \<le> n + 2" "length s \<le> n \<Longrightarrow> length (Words ws s) \<le> n + 2 * length ws"
  "length s \<le> n \<Longrightarrow> length (Longs xs s) \<le> n + 4 * length xs"
  "length s \<le> n \<Longrightarrow> length (String str s) \<le> n + length str + 2"
  "length s \<le> n \<Longrightarrow> length (PString str s) \<le> n + length str + 2"
  by (simp_all add: String_def PString_def even_pad_def)

lemma len_board: "length (snd (board_rsrc v d s)) \<le> length s + length v + length d + 150"
  unfolding board_rsrc_def Let_def snd_conv
  by (rule order_trans, (rule len_emit)+, rule order_refl, simp)

lemma len_video: "length (snd (video_common s)) \<le> length s + 500"
  unfolding video_common_def video_driver_def default_gamma_def Let_def snd_conv
  by (rule order_trans, (rule len_emit)+, rule order_refl, simp add: gamma_ramp_def)

lemma len_cpu: "length (snd (cpu_rsrc s)) \<le> length s + 60"
  unfolding cpu_rsrc_def Let_def snd_conv
  by (rule order_trans, (rule len_emit)+, rule order_refl, simp)

lemma len_ether: "length (snd (ether_rsrc s)) \<le> length s + 240"
  unfolding ether_rsrc_def ether_driver_def Let_def snd_conv
  by (rule order_trans, (rule len_emit)+, rule order_refl, simp)

lemma len_vmode:
  "length (snd (vmode_parms m mode ds lt)) = length (snd lt) + 50 * length ds"
  "length (fst (vmode_parms m mode ds lt)) = length (fst lt) + length ds"
  "length (snd (vmode_descs dls lt)) = length (snd lt) + 16 * length dls"
  "length (fst (vmode_descs dls lt)) = length (fst lt) + length dls"
proof -
  have p: "length (VModeParms m mode d s) = length s + 50" for d s
    by (cases d) (simp_all add: VModeParms_def Let_def)
  have q: "length (VModeDesc a b s) = length s + 16" for a b s by (simp add: VModeDesc_def)
  show "length (snd (vmode_parms m mode ds lt)) = length (snd lt) + 50 * length ds"
    "length (fst (vmode_parms m mode ds lt)) = length (fst lt) + length ds"
    unfolding vmode_parms_def by (induction ds arbitrary: lt) (simp_all add: split_beta p)
  show "length (snd (vmode_descs dls lt)) = length (snd lt) + 16 * length dls"
    "length (fst (vmode_descs dls lt)) = length (fst lt) + length dls"
    unfolding vmode_descs_def by (induction dls arbitrary: lt) (simp_all add: split_beta q)
qed

lemma len_monitor: "length (snd (VMonitor m mode a b c d s)) \<le> length s + 464"
proof -
  have f: "length (fold (\<lambda>(d, label) t. if has_depth m d
      then Offs (ucast (depth_to_apple_mode m d)) label t else t) zs t) \<le> length t + 4 * length zs" for zs t
  proof (induction zs arbitrary: t)
    case (Cons z zs)
    show ?case
      using Cons [of "if has_depth m (fst z) then Offs (ucast (depth_to_apple_mode m (fst z))) (snd z) t else t"]
      by (simp add: split_beta split: if_splits)
  qed simp
  have six: "length all_depths = 6" by (simp add: all_depths_def)
  show ?thesis
    unfolding VMonitor_def Let_def
    by (simp add: split_beta) (rule order_trans [OF f], simp add: len_vmode six)
qed

lemma len_monitors:
  "(\<And>m. m \<in> set ms \<Longrightarrow> get_current_mode m \<noteq> None) \<Longrightarrow>
     \<exists>ls t. monitor_rsrcs labels ms s = Some (ls, t) \<and> length t \<le> length s + 464 * length ms"
proof (induction ms arbitrary: s)
  case (Cons m ms)
  obtain a b c d where lb: "labels = (a, b, c, d)" by (cases labels)
  obtain mode where m: "get_current_mode m = Some mode" using Cons.prems [of m] by auto
  obtain l s1 where v: "VMonitor m mode a b c d s = (l, s1)" by force
  have "length s1 \<le> length s + 464" using len_monitor [of m mode a b c d s] v by simp
  moreover obtain ls t where "monitor_rsrcs labels ms s1 = Some (ls, t)" "length t \<le> length s1 + 464 * length ms"
    using Cons.IH [of s1] Cons.prems by auto
  ultimately show ?case using m v by (auto simp: lb)
qed simp

lemma build_fits:
  assumes ms: "\<And>m. m \<in> set ms \<Longrightarrow> get_current_mode m \<noteq> None" "length ms \<le> 6"
    and small: "length version + length build_date \<le> 100"
  shows "\<exists>rom. build_slot_rom version build_date ms = Some rom \<and> length rom \<le> 4096"
proof -
  obtain board s1 where s1: "board_rsrc version build_date [] = (board, s1)" by force
  obtain labels s2 where s2: "video_common s1 = (labels, s2)" by (rule prod.exhaust)
  obtain video s3 where s3: "monitor_rsrcs labels ms s2 = Some (video, s3)" "length s3 \<le> length s2 + 464 * length ms"
    using len_monitors [OF ms(1)] by blast
  obtain cpu s4 where s4: "cpu_rsrc s3 = (cpu, s4)" by force
  obtain ether s5 where s5: "ether_rsrc s4 = (ether, s5)" by force
  have "length s1 \<le> length version + length build_date + 150" "length s2 \<le> length s1 + 500"
    "length s4 \<le> length s3 + 60" "length s5 \<le> length s4 + 240"
    using len_board [of version build_date "[]"] len_video [of s1] len_cpu [of s3] len_ether [of s4] s1 s2 s4 s5
    by simp_all
  then have l5: "length s5 \<le> 3834" using s3(2) ms(2) small by linarith
  have dir: "length (put_dir es s) = length s + 4 * length es + 4" for es s
  proof -
    have "length (fold (\<lambda>(ty, label). Offs ty label) zs t) = length t + 4 * length zs" for zs t
      by (induction zs arbitrary: t) (auto simp: split_beta)
    then show ?thesis by (simp add: put_dir_def)
  qed
  have "build_slot_rom version build_date ms \<noteq> None"
    using l5 ms(2) by (simp add: build_slot_rom_def s1 s2 s3 s4 s5 Let_def length_format_block dir)
  then obtain rom where b: "build_slot_rom version build_date ms = Some rom" by auto
  moreover from b have "length rom \<le> 4096"
    by (auto simp: build_slot_rom_def Let_def split_beta split: option.splits if_splits)
  ultimately show ?thesis by blast
qed

text \<open>The declaration ROM fits into its 4096 byte buffer: with at most six monitors, each of
  which has a current mode, and a version text and build date of together up to 100 characters,
  InstallSlotROM() stays inside the buffer, returns true, and leaves the host alone.\<close>

theorem slot_rom_fits:
  assumes ms: "\<And>m. m \<in> set ms \<Longrightarrow> get_current_mode m \<noteq> None" "length ms \<le> 6"
    and small: "length version + length build_date \<le> 100"
  shows "\<exists>R1 s1. InstallSlotROM version build_date ms R s = Some (True, R1, s1)
     \<and> slot_rom_size R1 \<le> 4096 \<and> host s1 = host s"
  using build_fits [OF assms] by (auto simp: InstallSlotROM_def Let_def ChecksumSlotROM_def)

definition demo_rom :: rom_info where
  "demo_rom = \<lparr>ROMBaseMac = 0x408000, ROMSize = 0x80000, slot_rom_size = 0\<rparr>"

lemma demo_current_mode: "get_current_mode demo_monitor \<noteq> None" "slot_id demo_monitor = 0x80"
  by code_simp+

lemma demo_build: "\<exists>rom. build_slot_rom ''V1.0'' ''Jan  1 2000'' [demo_monitor] = Some rom"
  using build_fits [of "[demo_monitor]" "''V1.0''" "''Jan  1 2000''"] demo_current_mode by auto

theorem slot_rom_fits_witness:
  "\<exists>R1 s1. InstallSlotROM ''V1.0'' ''Jan  1 2000'' [demo_monitor] demo_rom \<lparr>mem = (\<lambda>_. 0), host = (), calls = []\<rparr>
      = Some (True, R1, s1) \<and> slot_rom_size R1 \<le> 4096"
  using slot_rom_fits [of "[demo_monitor]" "''V1.0''" "''Jan  1 2000''" demo_rom
      "\<lparr>mem = (\<lambda>_. 0), host = (), calls = []\<rparr> :: unit mac"] demo_current_mode by auto

theorem slot_rom_directory_witness:
  "\<exists>rom. build_slot_rom ''V1.0'' ''Jan  1 2000'' [demo_monitor] = Some rom \<and> rd32 rom (length rom - 6) = 0x5a932bc7"
proof -
  obtain rom where b: "build_slot_rom ''V1.0'' ''Jan  1 2000'' [demo_monitor] = Some rom" using demo_build by blast
  from slot_rom_directory [OF b] show ?thesis using b demo_current_mode by (auto simp: Let_def)
qed

theorem slot_rom_blocks_witness: "\<exists>x. default_gamma [] = x \<and> rd32 x 0 = word_of_nat (length x)"
  using slot_rom_blocks [of demo_monitor "modes demo_monitor ! 0" VDEPTH_8BIT "[]"] by auto

theorem slot_rom_checksum_witness:
  "\<exists>R1 s1. InstallSlotROM ''V1.0'' ''Jan  1 2000'' [demo_monitor] demo_rom \<lparr>mem = (\<lambda>_. 0), host = (), calls = []\<rparr>
      = Some (True, R1, s1) \<and> crc_ok (get_bytes s1 (slot_rom_addr R1) (slot_rom_size R1))"
proof -
  let ?s = "\<lparr>mem = (\<lambda>_. 0), host = (), calls = []\<rparr> :: unit mac"
  obtain R1 s1 where i: "InstallSlotROM ''V1.0'' ''Jan  1 2000'' [demo_monitor] demo_rom ?s = Some (True, R1, s1)"
    using demo_build by (auto simp: InstallSlotROM_def Let_def)
  from slot_rom_checksum [OF i, of ?s] i show ?thesis by (auto simp: Let_def)
qed

end
