(* ===== verification/Video.thy ===== *)
theory Video
  imports SlotROM MacosUtil
begin

text \<open>
  "video.cpp": the driver of a monitor. The two virtual functions a platform implements are the
  record \<open>video_sys\<close>: switch_to_current_mode() yields the new frame buffer base, set_palette()
  gets the palette and the number of its entries. The Slot Manager and Memory Manager traps do
  not call back into the driver. A table pointer into Mac memory is a Mac address, and a byte of
  the Mac ROM is addressed in Mac memory. Shifting by a negative amount, using the iterator
  end() and a loop that does not end give \<open>None\<close>.
\<close>

abbreviation (input) csMode :: u32 where "csMode \<equiv> 0"
abbreviation (input) csData :: u32 where "csData \<equiv> 2"
abbreviation (input) csPage :: u32 where "csPage \<equiv> 6"
abbreviation (input) csBaseAddr :: u32 where "csBaseAddr \<equiv> 8"
abbreviation (input) csTable :: u32 where "csTable \<equiv> 0"
abbreviation (input) csStart :: u32 where "csStart \<equiv> 4"
abbreviation (input) csCount :: u32 where "csCount \<equiv> 6"
abbreviation (input) csGTable :: u32 where "csGTable \<equiv> 0"

abbreviation (input) spPointer :: u32 where "spPointer \<equiv> 4"
abbreviation (input) spSlot :: u32 where "spSlot \<equiv> 49"
abbreviation (input) spID :: u32 where "spID \<equiv> 50"
abbreviation (input) spExtDev :: u32 where "spExtDev \<equiv> 51"
abbreviation (input) SIZEOF_SPBlock :: u32 where "SIZEOF_SPBlock \<equiv> 56"

abbreviation (input) gVersion :: u32 where "gVersion \<equiv> 0"
abbreviation (input) gType :: u32 where "gType \<equiv> 2"
abbreviation (input) gFormulaSize :: u32 where "gFormulaSize \<equiv> 4"
abbreviation (input) gChanCnt :: u32 where "gChanCnt \<equiv> 6"
abbreviation (input) gDataCnt :: u32 where "gDataCnt \<equiv> 8"
abbreviation (input) gDataWidth :: u32 where "gDataWidth \<equiv> 10"
abbreviation (input) gFormulaData :: u32 where "gFormulaData \<equiv> 12"
abbreviation (input) SIZEOF_GammaTbl :: int where "SIZEOF_GammaTbl \<equiv> 12"

record 'h video_sys =
  switch_to_current_mode :: "monitor_desc \<Rightarrow> 'h \<Rightarrow> u32 \<times> 'h"
  set_palette :: "u8 list \<Rightarrow> nat \<Rightarrow> 'h \<Rightarrow> 'h"

type_synonym 'h vid = "monitor_desc \<times> 'h mac"

section \<open>Palettes and gamma tables\<close>

definition put_rgb :: "nat \<Rightarrow> u8 \<times> u8 \<times> u8 \<Rightarrow> u8 list \<Rightarrow> u8 list" where
  "put_rgb i rgb pal = (case rgb of (r, g, b) \<Rightarrow> pal[3 * i := r, 3 * i + 1 := g, 3 * i + 2 := b])"

definition call_set_palette :: "'h video_sys \<Rightarrow> nat \<Rightarrow> 'h vid \<Rightarrow> 'h vid" where
  "call_set_palette V num ms = (fst ms, (snd ms)\<lparr>host := set_palette V (palette (fst ms)) num (host (snd ms))\<rparr>)"

definition set_gray_palette :: "'h video_sys \<Rightarrow> 'h vid \<Rightarrow> 'h vid" where
  "set_gray_palette V ms =
     call_set_palette V 256
       ((fst ms)\<lparr>palette := fold (\<lambda>i. put_rgb i (127, 127, 127)) [0..<256] (palette (fst ms))\<rparr>, snd ms)"

text \<open>The addresses of the red, green and blue tables, and the data width, if there is a table.\<close>

definition gamma_tables :: "monitor_desc \<Rightarrow> 'h mac \<Rightarrow> (u32 \<times> u32 \<times> u32 \<times> nat) option" where
  "gamma_tables m s =
     (let table = gamma_table m in
      if table \<noteq> 0 then
        (let red = table + gFormulaData + ucast (get16 s (table + gFormulaSize));
             ofs = ucast (get16 s (table + gDataCnt));
             width = unat (get16 s (table + gDataWidth))
         in if get16 s (table + gChanCnt) = 1 then Some (red, red, red, width)
            else Some (red, red + ofs, red + ofs + ofs, width))
      else None)"

definition gamma_byte :: "'h mac \<Rightarrow> u32 \<Rightarrow> nat \<Rightarrow> u8 \<Rightarrow> u8" where
  "gamma_byte s table data_width c = get8 s (table + ucast (drop_bit (8 - data_width) c))"

definition correct_rgb ::
  "(u32 \<times> u32 \<times> u32 \<times> nat) option \<Rightarrow> 'h mac \<Rightarrow> u8 \<times> u8 \<times> u8 \<Rightarrow> u8 \<times> u8 \<times> u8" where
  "correct_rgb gamma s rgb =
     (case gamma of
        None \<Rightarrow> rgb
      | Some (red, green, blue, w) \<Rightarrow>
          (case rgb of (r, g, b) \<Rightarrow> (gamma_byte s red w r, gamma_byte s green w g, gamma_byte s blue w b)))"

definition gamma_shift_ok :: "(u32 \<times> u32 \<times> u32 \<times> nat) option \<Rightarrow> bool" where
  "gamma_shift_ok gamma = (case gamma of None \<Rightarrow> True | Some (_, _, _, w) \<Rightarrow> w \<le> 8)"

definition load_ramp_palette :: "'h video_sys \<Rightarrow> 'h vid \<Rightarrow> 'h vid option" where
  "load_ramp_palette V ms =
     do {
       mode \<leftarrow> get_current_mode (fst ms);
       let gamma = gamma_tables (fst ms) (snd ms);
       if gamma_shift_ok gamma then
         (let num = (if depth mode = VDEPTH_16BIT then 32 else 256);
              pal = fold (\<lambda>i. put_rgb i (correct_rgb gamma (snd ms)
                      (word_of_nat (i * 256 div num), word_of_nat (i * 256 div num), word_of_nat (i * 256 div num))))
                    [0..<num] (palette (fst ms))
          in Some (call_set_palette V num ((fst ms)\<lparr>palette := pal\<rparr>, snd ms)))
       else None
     }"

definition allocate_gamma_table :: "'h env68k \<Rightarrow> int \<Rightarrow> 'h vid \<Rightarrow> bool \<times> 'h vid" where
  "allocate_gamma_table E sz ms =
     (let (m, s) = ms in
      if sz > alloc_gamma_table_size m then
        (let (r, m1, s1) =
               (if gamma_table m \<noteq> 0 then
                  (let (r1, t) = Execute68kTrap E 0xa01f (set_a 0 (gamma_table m) (stack_junk E)) s
                   in (r1, m\<lparr>gamma_table := 0, alloc_gamma_table_size := 0\<rparr>, t))
                else (stack_junk E, m, s));
             (r2, s2) = Execute68kTrap E 0xa71e (set_d 0 (word_of_int sz) r) s1
         in if areg r2 0 = 0 then (False, m1, s2)
            else (True, m1\<lparr>gamma_table := areg r2 0, alloc_gamma_table_size := sz\<rparr>, s2))
      else (True, m, s))"

text \<open>An error code that is returned from a function of type bool.\<close>

definition as_bool :: "u16 \<Rightarrow> bool" where
  "as_bool err \<longleftrightarrow> err \<noteq> 0"

definition linear_ramp :: "u32 \<Rightarrow> 'h mac \<Rightarrow> 'h mac" where
  "linear_ramp table s =
     fold (\<lambda>i. put8 (table + gFormulaData + word_of_nat i) (word_of_nat i)) [0..<256]
       (put16 (table + gDataWidth) 8 (put16 (table + gDataCnt) 256 (put16 (table + gChanCnt) 1
         (put16 (table + gFormulaSize) 0 (put16 (table + gType) 0 (put16 (table + gVersion) 0 s))))))"

definition finish_gamma :: "'h video_sys \<Rightarrow> 'h vid \<Rightarrow> (bool \<times> 'h vid) option" where
  "finish_gamma V ms =
     do {
       mode \<leftarrow> get_current_mode (fst ms);
       if IsDirectMode (depth mode) then map_option (Pair True) (load_ramp_palette V ms) else Some (True, ms)
     }"

definition set_gamma_table :: "'h env68k \<Rightarrow> 'h video_sys \<Rightarrow> u32 \<Rightarrow> 'h vid \<Rightarrow> (bool \<times> 'h vid) option" where
  "set_gamma_table E V user_table ms =
     (let s = snd ms in
      if user_table = 0 then
        (let (ok, m1, s1) = allocate_gamma_table E (SIZEOF_GammaTbl + 256) ms
         in if \<not> ok then Some (as_bool memFullErr, m1, s1)
            else finish_gamma V (m1, linear_ramp (gamma_table m1) s1))
      else if get16 s (user_table + gVersion) \<noteq> 0 then Some (as_bool paramErr, ms)
      else if get16 s (user_table + gType) \<noteq> 0 then Some (as_bool paramErr, ms)
      else
        (let chan_cnt = uint (get16 s (user_table + gChanCnt));
             data_width = unat (get16 s (user_table + gDataWidth));
             data_cnt = uint (get16 s (user_table + gDataCnt))
         in if chan_cnt \<noteq> 1 \<and> chan_cnt \<noteq> 3 then Some (as_bool paramErr, ms)
            else if data_width > 8 then Some (as_bool paramErr, ms)
            else if data_cnt \<noteq> 2 ^ data_width then Some (as_bool paramErr, ms)
            else
              (let sz = SIZEOF_GammaTbl + uint (get16 s (user_table + gFormulaSize)) + chan_cnt * data_cnt;
                   (ok, m1, s1) = allocate_gamma_table E sz ms
               in if \<not> ok then Some (as_bool memFullErr, m1, s1)
                  else finish_gamma V
                         (m1, s1\<lparr>mem := Mac2Mac_memcpy (gamma_table m1) user_table (nat sz) (mem s1)\<rparr>))))"

section \<open>Switching modes\<close>

text \<open>A call of the Slot Manager with the parameter block in A0.\<close>

definition slot_manager :: "'h env68k \<Rightarrow> u32 \<Rightarrow> m68k_regs \<times> 'h mac \<Rightarrow> m68k_regs \<times> 'h mac" where
  "slot_manager E selector rs = Execute68kTrap E 0xa06e (set_d 0 selector (fst rs)) (snd rs)"

definition patch_device_base :: "u32 \<Rightarrow> 'h mac \<Rightarrow> 'h mac" where
  "patch_device_base base s =
     (let s1 = put32 0x898 base (put32 0x824 base s); gdev = get32 s1 0x8a4 in
      if gdev \<noteq> 0 \<and> gdev \<noteq> 0xffffffff then
        put32 (get32 s1 (get32 s1 (get32 s1 gdev + 0x16))) base s1
      else s1)"

text \<open>The screen goes gray and shows the new mode. The platform sets the frame buffer base.\<close>

definition show_mode :: "'h video_sys \<Rightarrow> nat \<Rightarrow> 'h vid \<Rightarrow> 'h vid" where
  "show_mode V it ms =
     (let (m, s) = set_gray_palette V ms; mode = modes m ! it;
          m1 = m\<lparr>current_mode := it\<rparr>;
          (base, h) = switch_to_current_mode V m1 (host s)
      in (m1\<lparr>mac_frame_base := base, current_apple_mode := depth_to_apple_mode m1 (depth mode),
             current_id := resolution_id mode\<rparr>, s\<lparr>host := h\<rparr>))"

text \<open>The slot resources of the display are patched to the current mode.\<close>

definition patch_mode_params :: "u32 \<Rightarrow> video_mode \<Rightarrow> 'h mac \<Rightarrow> 'h mac" where
  "patch_mode_params p mode s =
     put_bytes (p + 14) [byte1 (mode_y mode), byte0 (mode_y mode), byte1 (mode_x mode), byte0 (mode_x mode)]
       (put_bytes (p + 8) [byte1 (bytes_per_row mode), byte0 (bytes_per_row mode)] s)"

definition update_resources ::
  "'h env68k \<Rightarrow> rom_info \<Rightarrow> video_mode \<Rightarrow> u32 \<Rightarrow> monitor_desc \<Rightarrow> 'h mac \<Rightarrow> 'h mac" where
  "update_resources E R mode dce m s =
     (let sp = slot_param m; base = mac_frame_base m;
          s0 = put8 (sp + spSlot) (get8 s (dce + dCtlSlot)) s;
          s1 = put8 (sp + spExtDev) 0 (put8 (sp + spID) (get8 s0 (dce + dCtlSlotId)) s0);
          (r1, s2) = slot_manager E 0x0016 (set_a 0 sp (stack_junk E), s1);
          rsrc = get32 s2 (sp + spPointer);
          (r2, s3) = slot_manager E 0x0006 (r1, put8 (sp + spID) 0x0a s2);
          minor_base = get32 s3 (sp + spPointer) - ROMBaseMac R;
          s4 = put_bytes (ROMBaseMac R + minor_base) [byte3 base, byte2 base, byte1 base, byte0 base] s3;
          s5 = put8 (sp + spID) (ucast (depth_to_apple_mode m (depth mode))) (put32 (sp + spPointer) rsrc s4);
          (r3, s6) = slot_manager E 0x0006 (r2, s5);
          (r4, s7) = slot_manager E 0x0006 (r3, put8 (sp + spID) 0x01 s6);
          p = get32 s7 (sp + spPointer) - ROMBaseMac R;
          s8 = ChecksumSlotROM R (patch_mode_params (ROMBaseMac R + p) mode s7)
      in snd (slot_manager E 0x002b (r4, put8 (sp + spID) (get8 s8 (dce + dCtlSlotId)) s8)))"

definition switch_mode ::
  "'h env68k \<Rightarrow> 'h video_sys \<Rightarrow> rom_info \<Rightarrow> nat \<Rightarrow> u32 \<Rightarrow> u32 \<Rightarrow> 'h vid \<Rightarrow> 'h vid" where
  "switch_mode E V R it param dce ms =
     (let (m, s) = show_mode V it ms; base = mac_frame_base m;
          s1 = update_resources E R (modes m ! it) dce m s;
          s2 = put32 (param + csBaseAddr) base (put32 (dce + dCtlDevBase) base s1)
      in (m, if \<not> dm_present m then patch_device_base base s2 else s2))"

section \<open>Open\<close>

definition driver_open :: "'h env68k \<Rightarrow> 'h video_sys \<Rightarrow> 'h vid \<Rightarrow> (u16 \<times> 'h vid) option" where
  "driver_open E V ms =
     do {
       mode \<leftarrow> get_current_mode (fst ms);
       let am = depth_to_apple_mode (fst ms) (depth mode);
       let m = (fst ms)\<lparr>luminance_mapping := False, interrupts_enabled := False, current_apple_mode := am,
                        preferred_apple_mode := am, current_id := resolution_id mode,
                        preferred_id := resolution_id mode, dm_present := False\<rparr>;
       let (r, s) = Execute68kTrap E 0xa71e (set_d 0 SIZEOF_SPBlock (stack_junk E)) (snd ms);
       if areg r 0 = 0 then Some (memFullErr, m, s)
       else
         map_option (\<lambda>(ok, ms1). (noErr, set_gray_palette V ms1))
           (set_gamma_table E V 0 (m\<lparr>slot_param := areg r 0, gamma_table := 0, alloc_gamma_table_size := 0\<rparr>, s))
     }"

text \<open>The driver routines find the monitor of the slot ID in the device control entry. Every monitor
  has its own platform functions.\<close>

type_synonym 'h vids = "monitor_desc list \<times> 'h mac"

definition on_monitor ::
  "u32 \<Rightarrow> (nat \<Rightarrow> 'h vid \<Rightarrow> (u16 \<times> 'h vid) option) \<Rightarrow> 'h vids \<Rightarrow> (u16 \<times> 'h vids) option" where
  "on_monitor dce f st =
     (case find_monitor (get8 (snd st) (dce + dCtlSlotId)) (fst st) of
        None \<Rightarrow> Some (nsDrvErr, st)
      | Some i \<Rightarrow> map_option (\<lambda>(r, m, s). (r, (fst st)[i := m], s)) (f i (fst st ! i, snd st)))"

definition VideoDriverOpen ::
  "'h env68k \<Rightarrow> (nat \<Rightarrow> 'h video_sys) \<Rightarrow> u32 \<Rightarrow> u32 \<Rightarrow> 'h vids \<Rightarrow> (u16 \<times> 'h vids) option" where
  "VideoDriverOpen E V pb dce = on_monitor dce (\<lambda>i. driver_open E (V i))"

section \<open>Control\<close>

abbreviation (input) cscSetMode :: u16 where "cscSetMode \<equiv> 2"
abbreviation (input) cscSetEntries :: u16 where "cscSetEntries \<equiv> 3"
abbreviation (input) cscSetGamma :: u16 where "cscSetGamma \<equiv> 4"
abbreviation (input) cscGrayPage :: u16 where "cscGrayPage \<equiv> 5"
abbreviation (input) cscSetGray :: u16 where "cscSetGray \<equiv> 6"
abbreviation (input) cscSetInterrupt :: u16 where "cscSetInterrupt \<equiv> 7"
abbreviation (input) cscDirectSetEntries :: u16 where "cscDirectSetEntries \<equiv> 8"
abbreviation (input) cscSetDefaultMode :: u16 where "cscSetDefaultMode \<equiv> 9"
abbreviation (input) cscSwitchMode :: u16 where "cscSwitchMode \<equiv> 10"
abbreviation (input) cscSavePreferredConfiguration :: u16 where "cscSavePreferredConfiguration \<equiv> 16"

text \<open>SetMode and SwitchMode: the mode asked for and the resolution it is looked for in.\<close>

definition change_mode ::
  "'h env68k \<Rightarrow> 'h video_sys \<Rightarrow> rom_info \<Rightarrow> bool \<Rightarrow> u16 \<Rightarrow> u32 \<Rightarrow> u32 \<Rightarrow> u32 \<Rightarrow> 'h vid \<Rightarrow> u16 \<times> 'h vid" where
  "change_mode E V R same mode n param dce ms =
     (let (m, s0) = ms; s = put32 (param + csBaseAddr) (mac_frame_base m) s0 in
      if get16 s (param + csPage) \<noteq> 0 then (paramErr, m, s)
      else if same then (noErr, m, s)
      else case find_mode m mode n of
             None \<Rightarrow> (paramErr, m, s)
           | Some i \<Rightarrow> (noErr, switch_mode E V R i param dce (m, s)))"

definition set_mode ::
  "'h env68k \<Rightarrow> 'h video_sys \<Rightarrow> rom_info \<Rightarrow> u32 \<Rightarrow> u32 \<Rightarrow> 'h vid \<Rightarrow> u16 \<times> 'h vid" where
  "set_mode E V R param dce ms =
     (let mode = get16 (snd ms) (param + csMode) in
      change_mode E V R (mode = current_apple_mode (fst ms)) mode (current_id (fst ms)) param dce ms)"

definition switch_mode_call ::
  "'h env68k \<Rightarrow> 'h video_sys \<Rightarrow> rom_info \<Rightarrow> u32 \<Rightarrow> u32 \<Rightarrow> 'h vid \<Rightarrow> u16 \<times> 'h vid" where
  "switch_mode_call E V R param dce ms =
     (let mode = get16 (snd ms) (param + csMode); n = get32 (snd ms) (param + csData) in
      change_mode E V R (mode = current_apple_mode (fst ms) \<and> n = current_id (fst ms)) mode n param dce ms)"

text \<open>One entry of a colour table: the high bytes of its components, mapped to luminance if that is
  on and gamma corrected if there is a gamma table.\<close>

definition luminance :: "u8 \<times> u8 \<times> u8 \<Rightarrow> u8 \<times> u8 \<times> u8" where
  "luminance rgb =
     (case rgb of (r, g, b) \<Rightarrow>
        (let y = ucast (drop_bit 16 (ucast r * 0x4ccc + ucast g * 0x970a + ucast b * 0x1c29 :: u32)) in (y, y, y)))"

definition table_entry :: "u32 \<Rightarrow> 'h mac \<Rightarrow> u8 \<times> u8 \<times> u8" where
  "table_entry s_pal s = (hi8 (get16 s (s_pal + 2)), hi8 (get16 s (s_pal + 4)), hi8 (get16 s (s_pal + 6)))"

definition convert_entry ::
  "bool \<Rightarrow> (u32 \<times> u32 \<times> u32 \<times> nat) option \<Rightarrow> 'h mac \<Rightarrow> u8 \<times> u8 \<times> u8 \<Rightarrow> u8 \<times> u8 \<times> u8" where
  "convert_entry lum gamma s rgb = correct_rgb gamma s (if lum then luminance rgb else rgb)"

text \<open>The position in the palette of entry i of the table: its own index, or one after the other.\<close>

definition entry_index :: "u16 \<Rightarrow> u32 \<Rightarrow> nat \<Rightarrow> 'h mac \<Rightarrow> nat" where
  "entry_index start table i s =
     (if start = 0xffff then unat (get16 s (table + word_of_nat (8 * i)) AND 0xff) else unat start + i)"

definition set_entries :: "'h video_sys \<Rightarrow> u16 \<Rightarrow> u32 \<Rightarrow> 'h vid \<Rightarrow> (u16 \<times> 'h vid) option" where
  "set_entries V code param ms =
     do {
       let (m, s) = ms;
       mode \<leftarrow> get_current_mode m;
       let is_direct = IsDirectMode (depth mode);
       let s_pal = get32 s (param + csTable);
       let start = get16 s (param + csStart);
       let count = get16 s (param + csCount);
       if (code = cscSetEntries \<and> is_direct) \<or> (code = cscDirectSetEntries \<and> \<not> is_direct) then
         Some (controlErr, ms)
       else if s_pal = 0 \<or> count > 255 then Some (paramErr, ms)
       else if start \<noteq> 0xffff \<and> unat start + unat count > 255 then Some (paramErr, ms)
       else
         (let gamma = gamma_tables m s in
          if \<not> gamma_shift_ok gamma then None
          else
            (let pal = fold (\<lambda>i. put_rgb (entry_index start s_pal i s)
                         (convert_entry (luminance_mapping m \<and> \<not> is_direct) gamma s
                            (table_entry (s_pal + word_of_nat (8 * i)) s)))
                       [0..<Suc (unat count)] (palette m)
             in Some (noErr, call_set_palette V (palette_size (depth mode)) (m\<lparr>palette := pal\<rparr>, s))))
     }"

text \<open>GrayPage: rows of long words; the pattern is inverted from row to row, and in a 32-bit mode
  from pixel to pixel.\<close>

fun gray_pattern :: "video_depth \<Rightarrow> u32" where
  "gray_pattern VDEPTH_1BIT = 0xaaaaaaaa"
| "gray_pattern VDEPTH_2BIT = 0xcccccccc"
| "gray_pattern VDEPTH_4BIT = 0xf0f0f0f0"
| "gray_pattern VDEPTH_8BIT = 0xff00ff00"
| "gray_pattern VDEPTH_16BIT = 0xffff0000"
| "gray_pattern VDEPTH_32BIT = 0xffffffff"

definition gray_row :: "bool \<Rightarrow> u32 \<Rightarrow> u32 \<Rightarrow> u32 \<times> 'h mac \<Rightarrow> u32 \<times> 'h mac" where
  "gray_row invert len p =
     fold (\<lambda>i (pat, s). (if invert then NOT pat else pat, put32 (p + word_of_nat (4 * i)) pat s))
       [0..<(unat len + 3) div 4]"

definition gray_page :: "'h video_sys \<Rightarrow> u32 \<Rightarrow> 'h vid \<Rightarrow> (u16 \<times> 'h vid) option" where
  "gray_page V param ms =
     (let (m, s) = ms in
      if get16 s (param + csPage) \<noteq> 0 then Some (paramErr, ms)
      else do {
        mode \<leftarrow> get_current_mode m;
        if mode_y mode \<noteq> 0 \<and> bytes_per_row mode > 0xfffffffc then None
        else
          (let s1 = snd (fold (\<lambda>y ps. apfst (\<lambda>pat. NOT pat)
                      (gray_row (depth mode = VDEPTH_32BIT) (bytes_per_row mode)
                         (mac_frame_base m + word_of_nat y * bytes_per_row mode) ps))
                    [0..<unat (mode_y mode)] (gray_pattern (depth mode), s))
           in if IsDirectMode (depth mode) then map_option (Pair noErr) (load_ramp_palette V (m, s1))
              else Some (noErr, m, s1))
      })"

definition driver_control ::
  "'h env68k \<Rightarrow> 'h video_sys \<Rightarrow> rom_info \<Rightarrow> u16 \<Rightarrow> u32 \<Rightarrow> u32 \<Rightarrow> 'h vid \<Rightarrow> (u16 \<times> 'h vid) option" where
  "driver_control E V R code param dce ms =
     (let (m, s) = ms in
      if code = cscSetMode then Some (set_mode E V R param dce ms)
      else if code = cscSetEntries \<or> code = cscDirectSetEntries then set_entries V code param ms
      else if code = cscSetGamma then
        map_option (\<lambda>(ok, ms1). (if ok then noErr else memFullErr, ms1))
          (set_gamma_table E V (get32 s (param + csGTable)) ms)
      else if code = cscGrayPage then gray_page V param ms
      else if code = cscSetGray then Some (noErr, m\<lparr>luminance_mapping := get8 s (param + csMode) \<noteq> 0\<rparr>, s)
      else if code = cscSetInterrupt then Some (noErr, m\<lparr>interrupts_enabled := get8 s (param + csMode) = 0\<rparr>, s)
      else if code = cscSetDefaultMode then
        Some (noErr, m\<lparr>preferred_apple_mode := ucast (get8 s (param + csMode))\<rparr>, s)
      else if code = cscSwitchMode then Some (switch_mode_call E V R param dce ms)
      else if code = cscSavePreferredConfiguration then
        Some (noErr, m\<lparr>preferred_apple_mode := get16 s (param + csMode),
                       preferred_id := get32 s (param + csData)\<rparr>, s)
      else Some (controlErr, ms))"

definition VideoDriverControl ::
  "'h env68k \<Rightarrow> (nat \<Rightarrow> 'h video_sys) \<Rightarrow> rom_info \<Rightarrow> u32 \<Rightarrow> u32 \<Rightarrow> 'h vids \<Rightarrow> (u16 \<times> 'h vids) option" where
  "VideoDriverControl E V R pb dce st =
     on_monitor dce (\<lambda>i. driver_control E (V i) R (get16 (snd st) (pb + csCode)) (get32 (snd st) (pb + csParam)) dce) st"

section \<open>Status\<close>

abbreviation (input) cscGetMode :: u16 where "cscGetMode \<equiv> 2"
abbreviation (input) cscGetEntries :: u16 where "cscGetEntries \<equiv> 3"
abbreviation (input) cscGetPages :: u16 where "cscGetPages \<equiv> 4"
abbreviation (input) cscGetBaseAddress :: u16 where "cscGetBaseAddress \<equiv> 5"
abbreviation (input) cscGetGray :: u16 where "cscGetGray \<equiv> 6"
abbreviation (input) cscGetInterrupt :: u16 where "cscGetInterrupt \<equiv> 7"
abbreviation (input) cscGetGamma :: u16 where "cscGetGamma \<equiv> 8"
abbreviation (input) cscGetDefaultMode :: u16 where "cscGetDefaultMode \<equiv> 9"
abbreviation (input) cscGetCurrentMode :: u16 where "cscGetCurrentMode \<equiv> 10"
abbreviation (input) cscGetConnection :: u16 where "cscGetConnection \<equiv> 12"
abbreviation (input) cscGetModeTiming :: u16 where "cscGetModeTiming \<equiv> 13"
abbreviation (input) cscGetModeBaseAddress :: u16 where "cscGetModeBaseAddress \<equiv> 14"
abbreviation (input) cscGetPreferredConfiguration :: u16 where "cscGetPreferredConfiguration \<equiv> 16"
abbreviation (input) cscGetNextResolution :: u16 where "cscGetNextResolution \<equiv> 17"
abbreviation (input) cscGetVideoParameters :: u16 where "cscGetVideoParameters \<equiv> 18"
abbreviation (input) cscGetMultiConnect :: u16 where "cscGetMultiConnect \<equiv> 28"

abbreviation (input) csTimingMode :: u32 where "csTimingMode \<equiv> 0"
abbreviation (input) csTimingFormat :: u32 where "csTimingFormat \<equiv> 8"
abbreviation (input) csTimingData :: u32 where "csTimingData \<equiv> 12"
abbreviation (input) csTimingFlags :: u32 where "csTimingFlags \<equiv> 16"
abbreviation (input) csPreviousDisplayModeID :: u32 where "csPreviousDisplayModeID \<equiv> 0"
abbreviation (input) csRIDisplayModeID :: u32 where "csRIDisplayModeID \<equiv> 4"
abbreviation (input) csHorizontalPixels :: u32 where "csHorizontalPixels \<equiv> 8"
abbreviation (input) csVerticalLines :: u32 where "csVerticalLines \<equiv> 12"
abbreviation (input) csRefreshRate :: u32 where "csRefreshRate \<equiv> 16"
abbreviation (input) csMaxDepthMode :: u32 where "csMaxDepthMode \<equiv> 20"
abbreviation (input) csResolutionFlags :: u32 where "csResolutionFlags \<equiv> 22"
abbreviation (input) csDisplayModeID :: u32 where "csDisplayModeID \<equiv> 0"
abbreviation (input) csDepthMode :: u32 where "csDepthMode \<equiv> 4"
abbreviation (input) csVPBlockPtr :: u32 where "csVPBlockPtr \<equiv> 6"
abbreviation (input) csPageCount :: u32 where "csPageCount \<equiv> 10"
abbreviation (input) csDeviceType :: u32 where "csDeviceType \<equiv> 14"
abbreviation (input) csDisplayCountOrNumber :: u32 where "csDisplayCountOrNumber \<equiv> 0"
abbreviation (input) csConnectInfo :: u32 where "csConnectInfo \<equiv> 4"

definition put_entry :: "u32 \<Rightarrow> u8 list \<Rightarrow> nat \<Rightarrow> 'h mac \<Rightarrow> 'h mac" where
  "put_entry d_pal pal k s =
     put16 (d_pal + 6) (ucast (pal ! (3 * k + 2)) * 0x0101)
       (put16 (d_pal + 4) (ucast (pal ! (3 * k + 1)) * 0x0101)
         (put16 (d_pal + 2) (ucast (pal ! (3 * k)) * 0x0101) s))"

definition get_entries :: "u32 \<Rightarrow> 'h vid \<Rightarrow> u16 \<times> 'h vid" where
  "get_entries param ms =
     (let (m, s) = ms; d_pal = get32 s (param + csTable); start = get16 s (param + csStart);
          count = get16 s (param + csCount)
      in if d_pal = 0 \<or> count > 255 then (paramErr, ms)
         else if start \<noteq> 0xffff \<and> unat start + unat count > 255 then (paramErr, ms)
         else (noErr, m, fold (\<lambda>i t. put_entry (d_pal + word_of_nat (8 * i)) (palette m) (entry_index start d_pal i t) t)
                           [0..<Suc (unat count)] s))"

definition connect_info :: "u32 \<Rightarrow> 'h mac \<Rightarrow> 'h mac" where
  "connect_info p s = put32 (p + 8) 0 (put32 (p + 4) 0x43 (put8 (p + 3) 0 (put8 (p + 2) 0 (put16 p 8 s))))"

definition get_mode_timing :: "u32 \<Rightarrow> 'h vid \<Rightarrow> u16 \<times> 'h vid" where
  "get_mode_timing param ms =
     (let (m, s) = ms; n = get32 s (param + csTimingMode) in
      if \<not> has_resolution m n then (paramErr, ms)
      else (noErr, m, put32 (param + csTimingFlags) (if n = preferred_id m then 0xb OR 4 else 0xb)
              (put32 (param + csTimingData) 0 (put32 (param + csTimingFormat) (fourcc_string ''decl'') s))))"

text \<open>The scan for the first resolution has no upper bound: it does not end for a monitor without
  modes.\<close>

partial_function (option) first_resolution :: "monitor_desc \<Rightarrow> u32 \<Rightarrow> u32 option" where
  "first_resolution m n = (if has_resolution m n then Some n else first_resolution m (n + 1))"

function next_resolution :: "monitor_desc \<Rightarrow> u32 \<Rightarrow> u32" where
  "next_resolution m n = (if \<not> has_resolution m n \<and> n < 0x100 then next_resolution m (n + 1) else n)"
  by auto
termination
proof (relation "measure (\<lambda>(m, n). 0x100 - unat n)")
  fix m :: monitor_desc and n :: u32
  assume "\<not> has_resolution m n \<and> n < 0x100"
  then have n: "unat n < 0x100" by (simp add: word_less_nat_alt)
  then have "unat (n + 1) = Suc (unat n)" by (simp add: unat_word_ariths)
  then show "((m, n + 1), m, n) \<in> measure (\<lambda>(m, n). 0x100 - unat n)" using n by simp
qed simp

declare next_resolution.simps [simp del]

definition resolution_info :: "u32 \<Rightarrow> u32 \<Rightarrow> 'h vid \<Rightarrow> u16 \<times> 'h vid" where
  "resolution_info param n ms =
     (let (m, s) = ms; (w, h) = get_size_of_resolution m n in
      (noErr, m, put32 (param + csResolutionFlags) 0
         (put16 (param + csMaxDepthMode) (depth_to_apple_mode m (max_depth_of_resolution m n))
           (put32 (param + csRefreshRate) (push_bit 16 75)
             (put32 (param + csVerticalLines) h (put32 (param + csHorizontalPixels) w
               (put32 (param + csRIDisplayModeID) n s)))))))"

definition get_next_resolution :: "u32 \<Rightarrow> 'h vid \<Rightarrow> (u16 \<times> 'h vid) option" where
  "get_next_resolution param ms =
     (let (m, s) = ms; n = get32 s (param + csPreviousDisplayModeID) in
      if n = 0 then Some (resolution_info param (current_id m) ms)
      else if n = 0xfffffffe then map_option (\<lambda>k. resolution_info param k ms) (first_resolution m 0x80)
      else if \<not> has_resolution m n then Some (paramErr, ms)
      else
        (let k = next_resolution m (n + 1) in
         if k = 0x100 then Some (noErr, m, put32 (param + csRIDisplayModeID) 0xfffffffd s)
         else Some (resolution_info param k ms)))"

text \<open>GetVideoParameters: pixel type and size, number and size of components, device type.\<close>

definition pixel_info :: "video_depth \<Rightarrow> u16 \<times> u16 \<times> u16 \<times> u16 \<times> u32" where
  "pixel_info d =
     (if d = VDEPTH_16BIT then (0x10, 16, 3, 5, 2)
      else if d = VDEPTH_32BIT then (0x10, 32, 3, 8, 2)
      else (0, push_bit (depth_code d) 1, 1, push_bit (depth_code d) 1, 0))"

definition put_vpblock :: "u32 \<Rightarrow> video_mode \<Rightarrow> 'h mac \<Rightarrow> 'h mac" where
  "put_vpblock vp v s =
     (let (pix_type, pix_size, cmp_count, cmp_size, dev_type) = pixel_info (depth v);
          s1 = put16 (vp + 8) 0 (put16 (vp + 6) 0 (put16 (vp + 4) (ucast (bytes_per_row v)) (put32 vp 0 s)));
          s2 = put16 (vp + 12) (ucast (mode_x v)) (put16 (vp + 10) (ucast (mode_y v)) s1);
          s3 = put32 (vp + 18) 0 (put16 (vp + 16) 0 (put16 (vp + 14) 0 s2));
          s4 = put32 (vp + 26) 0x00480000 (put32 (vp + 22) 0x00480000 s3)
      in put16 (vp + 36) cmp_size (put16 (vp + 34) cmp_count (put16 (vp + 32) pix_size (put16 (vp + 30) pix_type s4))))"

definition get_video_parameters :: "u32 \<Rightarrow> 'h vid \<Rightarrow> u16 \<times> 'h vid" where
  "get_video_parameters param ms =
     (let s = snd ms; n = get32 s (param + csDisplayModeID); mode = get16 s (param + csDepthMode);
          m = (fst ms)\<lparr>dm_present := True\<rparr>
      in case find (\<lambda>v. depth_to_apple_mode m (depth v) = mode \<and> resolution_id v = n) (modes m) of
           None \<Rightarrow> (paramErr, m, s)
         | Some v \<Rightarrow>
             (let (_, _, _, _, dev_type) = pixel_info (depth v)
              in (noErr, m, put32 (param + csDeviceType) dev_type (put32 (param + csPageCount) 1
                    (put_vpblock (get32 s (param + csVPBlockPtr)) v s)))))"

definition get_multi_connect :: "u32 \<Rightarrow> 'h vid \<Rightarrow> u16 \<times> 'h vid" where
  "get_multi_connect param ms =
     (let (m, s) = ms; conn = get32 s (param + csDisplayCountOrNumber) in
      if conn = 0xffffffff then (noErr, m, put32 (param + csDisplayCountOrNumber) 1 s)
      else if conn = 1 then (noErr, m, connect_info (param + csConnectInfo) s)
      else (paramErr, ms))"

text \<open>The calls that report the mode, the page and the settings.\<close>

definition get_setting :: "u16 \<Rightarrow> u32 \<Rightarrow> monitor_desc \<Rightarrow> 'h mac \<Rightarrow> u16 \<times> 'h mac" where
  "get_setting code param m s =
     (if code = cscGetMode then
        (noErr, put32 (param + csBaseAddr) (mac_frame_base m) (put16 (param + csPage) 0
                  (put16 (param + csMode) (current_apple_mode m) s)))
      else if code = cscGetPages then (noErr, put16 (param + csPage) 1 s)
      else if code = cscGetBaseAddress then
        (let s1 = put32 (param + csBaseAddr) (mac_frame_base m) s
         in (if get16 s1 (param + csPage) \<noteq> 0 then paramErr else noErr, s1))
      else if code = cscGetGray then (noErr, put8 param (if luminance_mapping m then 1 else 0) s)
      else if code = cscGetInterrupt then (noErr, put8 param (if interrupts_enabled m then 0 else 1) s)
      else if code = cscGetGamma then (noErr, put32 (param + csGTable) (gamma_table m) s)
      else if code = cscGetDefaultMode then (noErr, put8 (param + csMode) (ucast (preferred_apple_mode m)) s)
      else if code = cscGetCurrentMode then
        (noErr, put32 (param + csBaseAddr) (mac_frame_base m) (put16 (param + csPage) 0
                  (put32 (param + csData) (current_id m) (put16 (param + csMode) (current_apple_mode m) s))))
      else if code = cscGetConnection then (noErr, connect_info param s)
      else if code = cscGetModeBaseAddress then (noErr, put32 (param + csBaseAddr) (mac_frame_base m) s)
      else if code = cscGetPreferredConfiguration then
        (noErr, put32 (param + csData) (preferred_id m) (put16 (param + csMode) (preferred_apple_mode m) s))
      else (statusErr, s))"

definition driver_status :: "u16 \<Rightarrow> u32 \<Rightarrow> 'h vid \<Rightarrow> (u16 \<times> 'h vid) option" where
  "driver_status code param ms =
     (if code = cscGetEntries then Some (get_entries param ms)
      else if code = cscGetModeTiming then Some (get_mode_timing param ms)
      else if code = cscGetNextResolution then get_next_resolution param ms
      else if code = cscGetVideoParameters then Some (get_video_parameters param ms)
      else if code = cscGetMultiConnect then Some (get_multi_connect param ms)
      else (let (r, s) = get_setting code param (fst ms) (snd ms) in Some (r, fst ms, s)))"

definition VideoDriverStatus :: "u32 \<Rightarrow> u32 \<Rightarrow> 'h vids \<Rightarrow> (u16 \<times> 'h vids) option" where
  "VideoDriverStatus pb dce st =
     on_monitor dce (\<lambda>_. driver_status (get16 (snd st) (pb + csCode)) (get32 (snd st) (pb + csParam))) st"


section \<open>The state of a monitor\<close>

text \<open>The current mode exists, the numbers the driver reports for it are its numbers, and the palette
  has its 256 entries.\<close>

definition monitor_ok :: "monitor_desc \<Rightarrow> bool" where
  "monitor_ok m \<longleftrightarrow> mode_table_ok m \<and> length (palette m) = 768
     \<and> (case get_current_mode m of
          None \<Rightarrow> False
        | Some v \<Rightarrow> current_apple_mode m = depth_to_apple_mode m (depth v) \<and> current_id m = resolution_id v)"

definition same_modes :: "monitor_desc \<Rightarrow> monitor_desc \<Rightarrow> bool" where
  "same_modes m m' \<longleftrightarrow> modes m' = modes m \<and> apple_mode_for_depth m' = apple_mode_for_depth m
     \<and> length (palette m') = length (palette m)"

definition same_shown :: "monitor_desc \<Rightarrow> monitor_desc \<Rightarrow> bool" where
  "same_shown m m' \<longleftrightarrow> same_modes m m' \<and> current_mode m' = current_mode m
     \<and> current_apple_mode m' = current_apple_mode m \<and> current_id m' = current_id m
     \<and> mac_frame_base m' = mac_frame_base m"

lemma same_shown_refl [simp]: "same_shown m m" by (simp add: same_shown_def same_modes_def)

lemma same_shown_trans: "same_shown a b \<Longrightarrow> same_shown b c \<Longrightarrow> same_shown a c"
  by (simp add: same_shown_def same_modes_def)

lemma get_current_mode_cong:
  "modes m' = modes m \<Longrightarrow> current_mode m' = current_mode m \<Longrightarrow> get_current_mode m' = get_current_mode m"
  by (simp add: get_current_mode_def)

lemma get_current_mode_updates [simp]:
  "get_current_mode (m\<lparr>luminance_mapping := x0\<rparr>) = get_current_mode m"
  "get_current_mode (m\<lparr>interrupts_enabled := x1\<rparr>) = get_current_mode m"
  "get_current_mode (m\<lparr>dm_present := x2\<rparr>) = get_current_mode m"
  "get_current_mode (m\<lparr>gamma_table := x3\<rparr>) = get_current_mode m"
  "get_current_mode (m\<lparr>alloc_gamma_table_size := x4\<rparr>) = get_current_mode m"
  "get_current_mode (m\<lparr>current_apple_mode := x5\<rparr>) = get_current_mode m"
  "get_current_mode (m\<lparr>current_id := x6\<rparr>) = get_current_mode m"
  "get_current_mode (m\<lparr>preferred_apple_mode := x7\<rparr>) = get_current_mode m"
  "get_current_mode (m\<lparr>preferred_id := x8\<rparr>) = get_current_mode m"
  "get_current_mode (m\<lparr>slot_param := x9\<rparr>) = get_current_mode m"
  "get_current_mode (m\<lparr>palette := x10\<rparr>) = get_current_mode m"
  "get_current_mode (m\<lparr>mac_frame_base := x11\<rparr>) = get_current_mode m"
  by (simp_all add: get_current_mode_def)

lemma has_depth_cong: "modes m' = modes m \<Longrightarrow> has_depth m' = has_depth m"
  by (simp add: has_depth_def fun_eq_iff)

lemma depth_mode_cong: "apple_mode_for_depth m' = apple_mode_for_depth m \<Longrightarrow> depth_to_apple_mode m' = depth_to_apple_mode m"
  by (simp add: depth_to_apple_mode_def fun_eq_iff)

lemma mode_table_cong: "same_modes m m' \<Longrightarrow> mode_table_ok m' = mode_table_ok m"
  using has_depth_cong [of m' m] depth_mode_cong [of m' m] unfolding mode_table_ok_def depth_rank_def same_modes_def by simp

lemma monitor_ok_shown: "monitor_ok m \<Longrightarrow> same_shown m m' \<Longrightarrow> monitor_ok m'"
  using get_current_mode_cong [of m' m] depth_mode_cong [of m' m] mode_table_cong [of m m']
  by (auto simp: monitor_ok_def same_shown_def same_modes_def split: option.splits)

lemma length_put_rgb [simp]: "length (put_rgb i c pal) = length pal"
  by (simp add: put_rgb_def split: prod.splits)

lemma length_fold_put_rgb [simp]: "length (fold (\<lambda>i. put_rgb (f i) (g i)) is pal) = length pal"
  by (induction "is" arbitrary: pal) simp_all

lemma set_gray_shown: "same_shown (fst ms) (fst (set_gray_palette V ms))"
  by (simp add: set_gray_palette_def call_set_palette_def same_shown_def same_modes_def)

lemma load_ramp_shown: "load_ramp_palette V ms = Some ms' \<Longrightarrow> same_shown (fst ms) (fst ms')"
  by (auto simp: load_ramp_palette_def call_set_palette_def same_shown_def same_modes_def Let_def
      split: option.splits if_splits bind_splits)

lemma allocate_shown: "allocate_gamma_table E n ms = (ok, ms') \<Longrightarrow> same_shown (fst ms) (fst ms')"
  by (auto simp: allocate_gamma_table_def same_shown_def same_modes_def Let_def split: prod.splits if_splits)

lemma finish_gamma_shown: "finish_gamma V ms = Some (ok, ms') \<Longrightarrow> same_shown (fst ms) (fst ms')"
  by (auto simp: finish_gamma_def split: if_splits bind_splits intro: load_ramp_shown)


lemma set_gamma_shown: "set_gamma_table E V t ms = Some (ok, ms') \<Longrightarrow> same_shown (fst ms) (fst ms')"
  by (auto simp: set_gamma_table_def Let_def split: if_splits prod.splits
      dest!: allocate_shown finish_gamma_shown intro: same_shown_trans)

lemma set_entries_shown: "set_entries V code param ms = Some (r, ms') \<Longrightarrow> same_shown (fst ms) (fst ms')"
  by (auto simp: set_entries_def call_set_palette_def same_shown_def same_modes_def Let_def
      split: if_splits bind_splits prod.splits)

lemma gray_page_shown: "gray_page V param ms = Some (r, ms') \<Longrightarrow> same_shown (fst ms) (fst ms')"
  by (auto simp: gray_page_def Let_def split: if_splits bind_splits prod.splits dest!: load_ramp_shown)

lemma show_mode_monitor:
  assumes "show_mode V it ms = (m', s')"
  shows "same_modes (fst ms) m'" "current_mode m' = it"
    "current_apple_mode m' = depth_to_apple_mode (fst ms) (depth (modes (fst ms) ! it))"
    "current_id m' = resolution_id (modes (fst ms) ! it)" "dm_present m' = dm_present (fst ms)"
  using assms set_gray_shown [of ms V]
  by (auto simp: show_mode_def same_modes_def same_shown_def depth_to_apple_mode_def Let_def set_gray_palette_def
      call_set_palette_def split: prod.splits)

lemma switch_mode_monitor: "fst (switch_mode E V R it param dce ms) = fst (show_mode V it ms)"
  by (simp add: switch_mode_def Let_def split: prod.splits)

lemma monitor_ok_switch:
  assumes "monitor_ok (fst ms)" and "it < length (modes (fst ms))"
  shows "monitor_ok (fst (switch_mode E V R it param dce ms))"
proof -
  obtain m' s' where m': "show_mode V it ms = (m', s')" by force
  note f = show_mode_monitor [OF m']
  have "modes m' = modes (fst ms)" using f(1) by (simp add: same_modes_def)
  then have "get_current_mode m' = Some (modes (fst ms) ! it)" using f(2) assms(2) by (simp add: get_current_mode_def)
  moreover have "depth_to_apple_mode m' = depth_to_apple_mode (fst ms)"
    using f(1) by (intro depth_mode_cong) (simp add: same_modes_def)
  ultimately show ?thesis
    using f assms(1) mode_table_cong [OF f(1)] by (simp add: switch_mode_monitor m' monitor_ok_def same_modes_def)
qed

lemma show_mode_same: "same_modes (fst ms) (fst (show_mode V it ms))"
  using show_mode_monitor(1) [of V it ms] by (metis prod.collapse)

lemma change_mode_ok:
  assumes "monitor_ok (fst ms)" and "change_mode E V R same mode n param dce ms = (r, ms')"
  shows "monitor_ok (fst ms') \<and> same_modes (fst ms) (fst ms')"
proof -
  obtain m s where ms: "ms = (m, s)" by force
  let ?s = "put32 (param + csBaseAddr) (mac_frame_base m) s"
  consider "fst ms' = m" | i where "find_mode m mode n = Some i" "ms' = switch_mode E V R i param dce (m, ?s)"
    using assms(2) by (auto simp: ms change_mode_def Let_def split: option.splits if_splits)
  then show ?thesis
  proof cases
    case 1
    then show ?thesis using assms(1) by (simp add: ms same_modes_def)
  next
    case (2 i)
    then have "i < length (modes m)" unfolding find_mode_def by (blast intro: find_index_bound)
    then show ?thesis
      using assms(1) monitor_ok_switch [of "(m, ?s)" i] show_mode_same [of "(m, ?s)" V i]
      by (simp add: ms 2(2) switch_mode_monitor)
  qed
qed

lemma driver_control_ok:
  assumes "monitor_ok (fst ms)" and "driver_control E V R code param dce ms = Some (r, ms')"
  shows "monitor_ok (fst ms') \<and> same_modes (fst ms) (fst ms')"
proof -
  have *: "same_shown (fst ms) (fst ms') \<Longrightarrow> monitor_ok (fst ms') \<and> same_modes (fst ms) (fst ms')"
    using monitor_ok_shown [OF assms(1)] by (simp add: same_shown_def)
  have upd: "same_shown m (m\<lparr>luminance_mapping := a\<rparr>)" "same_shown m (m\<lparr>interrupts_enabled := a\<rparr>)"
      "same_shown m (m\<lparr>preferred_apple_mode := b\<rparr>)" "same_shown m (m\<lparr>preferred_apple_mode := b, preferred_id := c\<rparr>)"
    for m a b c by (simp_all add: same_shown_def same_modes_def)
  show ?thesis
  proof (cases "code = cscSetMode \<or> code = cscSwitchMode")
    case True
    then show ?thesis
      using assms
      by (auto simp: driver_control_def set_mode_def switch_mode_call_def Let_def split: prod.splits
          dest!: change_mode_ok [rotated])
  next
    case False
    then show ?thesis
      using assms(2) upd
      by (intro *) (auto simp: driver_control_def Let_def split: prod.splits if_splits
          dest!: set_entries_shown set_gamma_shown gray_page_shown)
  qed
qed

lemma resolution_info_shown [simp]: "fst (snd (resolution_info param n ms)) = fst ms"
  by (simp add: resolution_info_def Let_def split: prod.splits)

lemma driver_status_shown:
  assumes "driver_status code param ms = Some (r, ms')"
  shows "same_shown (fst ms) (fst ms')"
proof -
  have dm: "same_shown m (m\<lparr>dm_present := True\<rparr>)" for m by (simp add: same_shown_def same_modes_def)
  have res: "resolution_info param n ms = (r, ms') \<Longrightarrow> fst ms' = fst ms" for n
    using resolution_info_shown [of param n ms] by simp
  show ?thesis
    using assms res dm
    by (auto simp: driver_status_def get_entries_def get_mode_timing_def get_next_resolution_def
        get_video_parameters_def get_multi_connect_def Let_def split: prod.splits if_splits option.splits)
qed

definition monitor_built :: "monitor_desc \<Rightarrow> bool" where
  "monitor_built m \<longleftrightarrow> mode_table_ok m \<and> length (palette m) = 768 \<and> get_current_mode m \<noteq> None"

lemma new_monitor_built:
  assumes "length (palette junk) = 768" and v: "v \<in> set vs" "depth v = default_depth" "resolution_id v = default_id"
  shows "monitor_built (fst (new_monitor junk vs default_depth default_id sl))"
proof -
  let ?m1 = "junk\<lparr>modes := vs, slot_id := sl,
                  apple_mode_for_depth := assign_modes (has_depth (junk\<lparr>modes := vs, slot_id := sl\<rparr>)) 0x80 all_depths\<rparr>"
  have "find_mode ?m1 (depth_to_apple_mode ?m1 default_depth) default_id \<noteq> None"
    using v by (auto simp: find_mode_def find_index_None)
  then obtain i where i: "find_mode ?m1 (depth_to_apple_mode ?m1 default_depth) default_id = Some i" by blast
  then have "i < length vs" unfolding find_mode_def using find_index_bound by force
  then show ?thesis
    using assms(1) new_monitor_table [of junk vs default_depth default_id sl] i
    by (simp add: monitor_built_def get_current_mode_def new_monitor_def Let_def)
qed

lemma driver_open_ok:
  assumes "monitor_built (fst ms)" and "driver_open E V ms = Some (r, ms')"
  shows "monitor_ok (fst ms') \<and> modes (fst ms') = modes (fst ms)"
proof -
  obtain v where v: "get_current_mode (fst ms) = Some v" using assms(1) by (auto simp: monitor_built_def)
  define m where "m = (fst ms)\<lparr>luminance_mapping := False, interrupts_enabled := False,
     current_apple_mode := depth_to_apple_mode (fst ms) (depth v),
     preferred_apple_mode := depth_to_apple_mode (fst ms) (depth v), current_id := resolution_id v,
     preferred_id := resolution_id v, dm_present := False\<rparr>"
  have same: "same_modes (fst ms) m" by (simp add: same_modes_def m_def)
  have ok: "monitor_ok m"
    using assms(1) v mode_table_cong [OF same] get_current_mode_cong [of m "fst ms"] depth_mode_cong [of m "fst ms"]
    by (simp add: monitor_ok_def monitor_built_def m_def)
  have s0: "same_shown m (m\<lparr>slot_param := a, gamma_table := 0, alloc_gamma_table_size := 0\<rparr>)" for a
    by (simp add: same_shown_def same_modes_def)
  have "same_shown m (fst ms')"
  proof (cases "r = memFullErr")
    case True
    then show ?thesis using assms(2) by (auto simp: driver_open_def v Let_def m_def [symmetric] split: prod.splits if_splits)
  next
    case False
    then obtain a t ok ms1 where
        g: "set_gamma_table E V 0 (m\<lparr>slot_param := a, gamma_table := 0, alloc_gamma_table_size := 0\<rparr>, t) = Some (ok, ms1)"
        and e: "ms' = set_gray_palette V ms1"
      using assms(2) by (auto simp: driver_open_def v Let_def m_def [symmetric] split: prod.splits if_splits)
    have "same_shown m (fst ms1)" using s0 set_gamma_shown [OF g] same_shown_trans by fastforce
    then show ?thesis unfolding e using set_gray_shown same_shown_trans by blast
  qed
  with ok same show ?thesis using monitor_ok_shown by (auto simp: same_shown_def same_modes_def)
qed

text \<open>The life of a monitor: open, driver calls in any order, and Mac code that changes memory.\<close>

inductive video_reach ::
  "'h env68k \<Rightarrow> 'h video_sys \<Rightarrow> rom_info \<Rightarrow> monitor_desc \<Rightarrow> monitor_desc \<times> 'h mac \<Rightarrow> bool"
  for E V R m0 where
  opened: "driver_open E V (m0, s) = Some (r, ms) \<Longrightarrow> video_reach E V R m0 ms"
| control: "video_reach E V R m0 ms \<Longrightarrow> driver_control E V R code param dce ms = Some (r, ms') \<Longrightarrow>
    video_reach E V R m0 ms'"
| status: "video_reach E V R m0 ms \<Longrightarrow> driver_status code param ms = Some (r, ms') \<Longrightarrow> video_reach E V R m0 ms'"
| mac_code: "video_reach E V R m0 (m, s) \<Longrightarrow> video_reach E V R m0 (m, s')"

lemma video_reach_ok:
  assumes "monitor_built m0" and "video_reach E V R m0 ms"
  shows "monitor_ok (fst ms) \<and> modes (fst ms) = modes m0"
  using assms(2)
proof induction
  case (opened s r ms)
  then show ?case using driver_open_ok [of "(m0, s)"] assms(1) by fastforce
next
  case (control ms code param dce r ms')
  then show ?case using driver_control_ok [of ms E V R code param dce r ms'] by (auto simp: same_modes_def)
next
  case (status ms code param r ms')
  then have "same_shown (fst ms) (fst ms')" by (intro driver_status_shown)
  then show ?case using status.IH monitor_ok_shown [of "fst ms" "fst ms'"] by (simp add: same_shown_def same_modes_def)
qed simp


definition demo_video :: "unit video_sys" where
  "demo_video = \<lparr>switch_to_current_mode = (\<lambda>m h. (0xa0000000, h)), set_palette = (\<lambda>pal n h. h)\<rparr>"

text \<open>The Memory Manager of the witnesses has one block to give.\<close>

definition demo_video_env :: "unit env68k" where
  "demo_video_env = demo_env\<lparr>run_trap := (\<lambda>t r x. (set_a 0 0x1000 r, x))\<rparr>"

definition demo_video_mac :: "unit mac" where
  "demo_video_mac = \<lparr>mem = (\<lambda>_. 0), host = (), calls = []\<rparr>"

lemma demo_monitor_mode: "get_current_mode demo_monitor = Some (demo_modes ! 0)"
  by (simp add: demo_monitor_def new_monitor_def demo_modes_def blank_monitor_def get_current_mode_def find_mode_def
      all_depths_def has_depth_def depth_to_apple_mode_def Let_def)


section \<open>Switching modes\<close>

lemma find_mode_iff:
  "find_mode m am n \<noteq> None \<longleftrightarrow> (\<exists>v \<in> set (modes m). depth_to_apple_mode m (depth v) = am \<and> resolution_id v = n)"
  by (auto simp: find_mode_def find_index_None)

lemma find_mode_Some:
  "find_mode m am n = Some i \<Longrightarrow>
     i < length (modes m) \<and> depth_to_apple_mode m (depth (modes m ! i)) = am \<and> resolution_id (modes m ! i) = n"
  unfolding find_mode_def by (auto dest: find_index_SomeD)

lemma switch_mode_numbers:
  assumes "find_mode (fst ms) am n = Some i"
  shows "get_current_mode (fst (switch_mode E V R i param dce ms)) = Some (modes (fst ms) ! i)
     \<and> current_apple_mode (fst (switch_mode E V R i param dce ms)) = am
     \<and> current_id (fst (switch_mode E V R i param dce ms)) = n"
proof -
  obtain m' s' where m': "show_mode V i ms = (m', s')" by force
  note f = show_mode_monitor [OF m'] and g = find_mode_Some [OF assms]
  have "modes m' = modes (fst ms)" using f(1) by (simp add: same_modes_def)
  then show ?thesis using f g by (simp add: switch_mode_monitor m' get_current_mode_def)
qed

lemma switch_mode_base:
  assumes "dm_present (fst ms)"
  shows "get32 (snd (switch_mode E V R i param dce ms)) (param + csBaseAddr)
     = mac_frame_base (fst (switch_mode E V R i param dce ms))"
proof -
  obtain m' s' where m': "show_mode V i ms = (m', s')" by force
  then show ?thesis using assms show_mode_monitor(5) [OF m'] by (simp add: switch_mode_def Let_def)
qed

text \<open>SwitchMode does what it reports. For a monitor in a consistent state with the Display
  Manager present, and page 0: if some mode has the Apple mode and the resolution ID asked for,
  the call succeeds, and such a mode is on the screen afterwards and those numbers are current;
  if none has, it returns paramErr and the monitor stays exactly as it was. Either way the caller
  finds the address of the frame buffer that is in use then in the parameter block.\<close>

theorem SwitchMode_outcomes:
  assumes ok: "monitor_ok m" and dm: "dm_present m" and page: "get16 s (param + csPage) = 0"
  shows "\<exists>r m' s'. driver_control E V R cscSwitchMode param dce (m, s) = Some (r, m', s')
     \<and> get32 s' (param + csBaseAddr) = mac_frame_base m'
     \<and> (let am = get16 s (param + csMode); n = get32 s (param + csData) in
        if \<exists>v \<in> set (modes m). depth_to_apple_mode m (depth v) = am \<and> resolution_id v = n then
          r = noErr \<and> current_apple_mode m' = am \<and> current_id m' = n
          \<and> (\<exists>v \<in> set (modes m). get_current_mode m' = Some v \<and> depth_to_apple_mode m (depth v) = am
                \<and> resolution_id v = n)
        else r = paramErr \<and> m' = m)"
proof -
  define am n where "am = get16 s (param + csMode)" and "n = get32 s (param + csData)"
  let ?s = "put32 (param + csBaseAddr) (mac_frame_base m) s"
  have p: "get16 ?s (param + csPage) = 0" using page by (simp add: get_put_apart sep_def)
  have call: "driver_control E V R cscSwitchMode param dce (m, s) =
      Some (change_mode E V R (am = current_apple_mode m \<and> n = current_id m) am n param dce (m, s))"
    by (simp add: driver_control_def switch_mode_call_def am_def n_def Let_def)
  obtain v where v: "get_current_mode m = Some v" "current_apple_mode m = depth_to_apple_mode m (depth v)"
      "current_id m = resolution_id v" "v \<in> set (modes m)"
    using ok by (auto simp: monitor_ok_def get_current_mode_def split: if_splits)
  consider (same) "am = current_apple_mode m \<and> n = current_id m"
    | (none) "\<not> (am = current_apple_mode m \<and> n = current_id m)" "find_mode m am n = None"
    | (found) i where "\<not> (am = current_apple_mode m \<and> n = current_id m)" "find_mode m am n = Some i" by blast
  then show ?thesis
  proof cases
    case same
    then show ?thesis using p v
      unfolding call am_def [symmetric] n_def [symmetric] Let_def by (auto simp: change_mode_def)
  next
    case none
    then show ?thesis using p find_mode_iff [of m am n]
      unfolding call am_def [symmetric] n_def [symmetric] Let_def by (auto simp: change_mode_def)
  next
    case (found i)
    obtain m' s' where ms': "switch_mode E V R i param dce (m, ?s) = (m', s')" by force
    have c: "driver_control E V R cscSwitchMode param dce (m, s) = Some (noErr, m', s')"
      using found p ms' by (auto simp: call change_mode_def Let_def)
    have "get32 s' (param + csBaseAddr) = mac_frame_base m'"
      using switch_mode_base [of "(m, ?s)" E V R i param dce] dm by (simp add: ms')
    moreover have "get_current_mode m' = Some (modes m ! i) \<and> current_apple_mode m' = am \<and> current_id m' = n"
      using switch_mode_numbers [of "(m, ?s)" am n i E V R param dce] found by (simp add: ms')
    moreover have "modes m ! i \<in> set (modes m)" "depth_to_apple_mode m (depth (modes m ! i)) = am"
        "resolution_id (modes m ! i) = n"
      using find_mode_Some [OF found(2)] by simp_all
    ultimately show ?thesis
      unfolding c am_def [symmetric] n_def [symmetric] Let_def by auto
  qed
qed

section \<open>Resolutions\<close>

lemma next_resolution_least:
  assumes "n \<le> 0x100"
  shows "n \<le> next_resolution m n \<and> next_resolution m n \<le> 0x100
     \<and> (next_resolution m n < 0x100 \<longrightarrow> has_resolution m (next_resolution m n))
     \<and> (\<forall>k. n \<le> k \<and> k < next_resolution m n \<longrightarrow> \<not> has_resolution m k)"
  using assms
proof (induction m n rule: next_resolution.induct)
  case (1 m n)
  show ?case
  proof (cases "\<not> has_resolution m n \<and> n < 0x100")
    case True
    have u: "n + 1 \<le> 0x100" and le: "n < n + 1"
      using True by (simp_all add: word_le_nat_alt word_less_nat_alt unat_word_ariths)
    have step: "next_resolution m n = next_resolution m (n + 1)" using True by (simp add: next_resolution.simps [of m n])
    have split: "k = n \<or> n + 1 \<le> k" if "n \<le> k" for k
      using that le by (auto simp: word_le_nat_alt word_less_nat_alt unat_word_ariths word_unat_eq_iff)
    note ih = 1(1) [OF True u, folded step]
    show ?thesis
    proof (intro conjI allI impI)
      show "n \<le> next_resolution m n" using ih le by (auto intro: less_imp_le order_trans)
      show "\<not> has_resolution m k" if "n \<le> k \<and> k < next_resolution m n" for k
        using split [of k] that ih True by (cases "k = n") simp_all
    qed (use ih in simp_all)
  next
    case False
    then have "next_resolution m n = n" by (subst next_resolution.simps) auto
    then show ?thesis using False 1(2) by (auto simp: order.order_iff_strict)
  qed
qed


lemma first_resolution_least:
  assumes "n \<le> k" and "has_resolution m k" and "\<And>j. n \<le> j \<Longrightarrow> j < k \<Longrightarrow> \<not> has_resolution m j"
  shows "first_resolution m n = Some k"
  using assms
proof (induction "unat k - unat n" arbitrary: n)
  case 0
  then have "n = k" by (simp add: word_le_nat_alt word_unat_eq_iff)
  then show ?case using 0 by (subst first_resolution.simps) simp
next
  case (Suc d)
  then have lt: "n < k" by (auto simp: word_le_nat_alt word_less_nat_alt)
  have "unat k < 2 ^ LENGTH(32)" by (rule unsigned_less)
  then have "unat (n + 1) = Suc (unat n)"
    using lt by (simp add: unat_word_ariths word_less_nat_alt)
  moreover have "n + 1 \<le> j \<Longrightarrow> n \<le> j" for j using calculation by (simp add: word_le_nat_alt)
  ultimately have "first_resolution m (n + 1) = Some k"
    using Suc.hyps(2) Suc.prems lt by (intro Suc.hyps(1)) (auto simp: word_le_nat_alt word_less_nat_alt)
  then show ?case using Suc.prems(3) [of n] lt by (subst first_resolution.simps) simp
qed

definition resolutions :: "monitor_desc \<Rightarrow> u32 list" where
  "resolutions m = sorted_list_of_set (resolution_id ` set (modes m))"

lemma resolutions_set: "n \<in> set (resolutions m) \<longleftrightarrow> has_resolution m n"
  by (auto simp: resolutions_def has_resolution_def list_ex_iff)

lemma resolutions_less_iff:
  assumes "i < length (resolutions m)" and "j < length (resolutions m)"
  shows "resolutions m ! i < resolutions m ! j \<longleftrightarrow> i < j"
proof -
  have s: "sorted (resolutions m)" "distinct (resolutions m)" by (simp_all add: resolutions_def)
  have "i \<le> j \<Longrightarrow> resolutions m ! i \<le> resolutions m ! j" "j \<le> i \<Longrightarrow> resolutions m ! j \<le> resolutions m ! i"
    using s assms by (auto intro: sorted_nth_mono)
  moreover have "resolutions m ! i = resolutions m ! j \<longleftrightarrow> i = j"
    using s assms by (simp add: nth_eq_iff_index_eq)
  ultimately show ?thesis by (cases i j rule: linorder_cases) (auto simp: order.order_iff_strict)
qed

lemma resolution_index:
  assumes "has_resolution m n"
  obtains i where "i < length (resolutions m)" and "resolutions m ! i = n"
  using assms resolutions_set by (metis in_set_conv_nth)

lemma next_resolution_step:
  assumes ids: "\<And>n. has_resolution m n \<Longrightarrow> n < 0x100" and i: "i < length (resolutions m)"
  shows "next_resolution m (resolutions m ! i + 1) =
     (if Suc i < length (resolutions m) then resolutions m ! Suc i else 0x100)"
proof -
  let ?r = "resolutions m" and ?n = "resolutions m ! i + 1"
  have res: "has_resolution m (?r ! j)" if "j < length ?r" for j using that resolutions_set nth_mem by metis
  have lt: "?r ! i < 0x100" using ids res [OF i] .
  then have n: "?n \<le> 0x100" and above: "?n \<le> k \<longleftrightarrow> ?r ! i < k" for k
    by (auto simp: word_le_nat_alt word_less_nat_alt unat_word_ariths)
  define N where "N = next_resolution m ?n"
  have N: "?r ! i < N" "N \<le> 0x100" "N < 0x100 \<longrightarrow> has_resolution m N"
      "\<And>k. ?r ! i < k \<Longrightarrow> k < N \<Longrightarrow> \<not> has_resolution m k"
    using next_resolution_least [OF n, of m] above by (auto simp: N_def)
  show ?thesis
  proof (cases "Suc i < length ?r")
    case True
    have k: "?r ! i < ?r ! Suc i" using True i by (simp add: resolutions_less_iff)
    then have "N \<le> ?r ! Suc i" using N(4) res [OF True] by (meson not_le)
    moreover have "?r ! Suc i < 0x100" using ids res [OF True] .
    ultimately have "has_resolution m N" using N(3) by (simp add: order.strict_trans1)
    then obtain j where j: "j < length ?r" "?r ! j = N" by (rule resolution_index)
    have "i < j" using N(1) j i resolutions_less_iff by metis
    moreover have "\<not> Suc i < j" using \<open>N \<le> ?r ! Suc i\<close> j True resolutions_less_iff [of "Suc i" m j] by auto
    ultimately have "j = Suc i" by simp
    then show ?thesis using j True by (simp add: N_def)
  next
    case False
    have "\<not> N < 0x100"
    proof
      assume "N < 0x100"
      then obtain j where j: "j < length ?r" "?r ! j = N" using N(3) resolution_index by metis
      then have "i < j" using N(1) i resolutions_less_iff by metis
      then show False using False j by simp
    qed
    then show ?thesis using N(2) False by (simp add: N_def)
  qed
qed

lemma first_resolution_hd:
  assumes ids: "\<And>n. has_resolution m n \<Longrightarrow> 0x80 \<le> n" and ne: "resolutions m \<noteq> []"
  shows "first_resolution m 0x80 = Some (resolutions m ! 0)"
proof (rule first_resolution_least)
  have l: "0 < length (resolutions m)" using ne by simp
  then show "has_resolution m (resolutions m ! 0)" using resolutions_set nth_mem by metis
  then show "0x80 \<le> resolutions m ! 0" by (rule ids)
  show "\<not> has_resolution m j" if "j < resolutions m ! 0" for j
  proof
    assume "has_resolution m j"
    then obtain i where "i < length (resolutions m)" "resolutions m ! i = j" by (rule resolution_index)
    then show False using that resolutions_less_iff [of i m 0] l by simp
  qed
qed


text \<open>The reply to GetNextResolution in a state: the ID and, unless it is the end mark, the size of a
  mode with that ID.\<close>

definition reports_resolution :: "monitor_desc \<Rightarrow> u32 \<Rightarrow> 'h mac \<Rightarrow> u32 \<Rightarrow> bool" where
  "reports_resolution m param s k \<longleftrightarrow>
     (\<exists>s'. driver_status cscGetNextResolution param (m, s) = Some (noErr, m, s')
        \<and> get32 s' (param + csRIDisplayModeID) = k
        \<and> (k \<noteq> 0xfffffffd \<longrightarrow> (\<exists>v \<in> set (modes m). resolution_id v = k
             \<and> get32 s' (param + csHorizontalPixels) = mode_x v \<and> get32 s' (param + csVerticalLines) = mode_y v)))"

text \<open>C32. GetNextResolution enumerates the resolutions. If all resolution IDs of the monitor are
  from 0x80 to 0xff, as "video.h" wants them, and there is at least one, a caller that starts
  with 0xfffffffe and passes every ID it gets back in again receives each resolution ID exactly
  once, in ascending order, then 0xfffffffd; every reply but the last carries the size of a mode
  with that ID. Zero stands for the current resolution, and any other number that is not a
  resolution ID is refused with paramErr and nothing changes. The scan always ends.\<close>

theorem GetNextResolution_enumerates:
  fixes s :: "'h mac"
  assumes ne: "modes m \<noteq> []" and ids: "\<And>v. v \<in> set (modes m) \<Longrightarrow> resolution_id v \<in> {0x80..<0x100}"
    and prev: "get32 s param = n"
  shows "let rs = resolutions m; reply = driver_status cscGetNextResolution param (m, s) in
     set rs = resolution_id ` set (modes m) \<and> sorted rs \<and> distinct rs
     \<and> (n = 0 \<and> current_id m \<in> set rs \<longrightarrow> reports_resolution m param s (current_id m))
     \<and> (\<forall>i \<le> length rs. n = (0xfffffffe # rs) ! i \<longrightarrow> reports_resolution m param s ((rs @ [0xfffffffd]) ! i))
     \<and> (n \<notin> set rs \<union> {0, 0xfffffffe} \<longrightarrow> reply = Some (paramErr, m, s))"
proof -
  let ?rs = "resolutions m"
  have has: "has_resolution m k \<Longrightarrow> k \<in> {0x80..<0x100}" for k using ids by (auto simp: has_resolution_def list_ex_iff)
  have lo: "has_resolution m k \<Longrightarrow> 0x80 \<le> k" and hi: "has_resolution m k \<Longrightarrow> k < 0x100" for k using has by auto
  have rsne: "?rs \<noteq> []" using ne by (simp add: resolutions_def)
  have set_rs: "set ?rs = resolution_id ` set (modes m)" "sorted ?rs" "distinct ?rs" by (simp_all add: resolutions_def)
  let ?good = "reports_resolution m param s"
  have info: "?good k" if r: "has_resolution m k"
      and d: "get_next_resolution param (m, s) = Some (resolution_info param k (m, s))" for k
  proof -
    obtain v where v: "find (\<lambda>i. resolution_id i = k) (modes m) = Some v"
      using r by (cases "find (\<lambda>i. resolution_id i = k) (modes m)")
        (auto simp: has_resolution_def list_ex_iff find_None_iff)
    then have "v \<in> set (modes m)" "resolution_id v = k" by (auto simp: find_Some_iff)
    then show ?thesis unfolding reports_resolution_def driver_status_def
      using v by (auto simp: d resolution_info_def get_size_of_resolution_def get_put_apart sep_def)
  qed
  have zero: "?good (current_id m)" if "n = 0" "current_id m \<in> set ?rs"
    using that prev by (intro info) (auto simp: resolutions_set get_next_resolution_def Let_def)
  have first: "?good (?rs ! 0)" if "n = 0xfffffffe"
    using that prev first_resolution_hd [OF lo rsne] rsne
    by (intro info) (auto simp: resolutions_set [symmetric] get_next_resolution_def Let_def)
  have step: "?good ((?rs @ [0xfffffffd]) ! Suc i)" if n: "n = ?rs ! i" and i: "i < length ?rs" for i
  proof -
    have r: "has_resolution m n" using n i resolutions_set nth_mem by metis
    then have nz: "n \<noteq> 0" "n \<noteq> 0xfffffffe" using lo [OF r] hi [OF r] by (auto simp: word_le_nat_alt word_less_nat_alt)
    note nx = next_resolution_step [OF hi i, folded n]
    show ?thesis
    proof (cases "Suc i < length ?rs")
      case True
      have r': "has_resolution m (?rs ! Suc i)" using True resolutions_set nth_mem by metis
      have "?good (?rs ! Suc i)"
        using True prev nz r nx hi [OF r'] by (intro info r') (auto simp: get_next_resolution_def Let_def)
      then show ?thesis using True by (simp add: nth_append)
    next
      case False
      then have "Suc i = length ?rs" using i by simp
      then show ?thesis using prev nz r nx
        by (simp add: reports_resolution_def driver_status_def get_next_resolution_def Let_def)
    qed
  qed
  have bad: "driver_status cscGetNextResolution param (m, s) = Some (paramErr, m, s)"
    if "n \<notin> set ?rs \<union> {0, 0xfffffffe}"
    using that prev by (simp add: driver_status_def get_next_resolution_def Let_def resolutions_set)
  have walk: "?good ((?rs @ [0xfffffffd]) ! i)" if "i \<le> length ?rs" "n = (0xfffffffe # ?rs) ! i" for i
    using that first step rsne by (cases i) (auto simp: nth_append)
  show ?thesis
    using set_rs bad walk zero unfolding Let_def by blast
qed

theorem GetNextResolution_enumerates_witness:
  "reports_resolution demo_monitor 0x2000 (put32 0x2000 0x81 demo_video_mac) 0x82"
proof -
  have m: "modes demo_monitor = demo_modes" by (simp add: demo_monitor_def new_monitor_def Let_def)
  have rs: "resolutions demo_monitor = [0x81, 0x82]"
    by (simp add: resolutions_def m demo_modes_def)
  have ids: "\<And>v. v \<in> set (modes demo_monitor) \<Longrightarrow> resolution_id v \<in> {0x80..<0x100}"
    by (auto simp: m demo_modes_def)
  have ne: "modes demo_monitor \<noteq> []" by (simp add: m demo_modes_def)
  have "\<forall>i \<le> length (resolutions demo_monitor). 0x81 = (0xfffffffe # resolutions demo_monitor) ! i \<longrightarrow>
      reports_resolution demo_monitor 0x2000 (put32 0x2000 0x81 demo_video_mac)
        ((resolutions demo_monitor @ [0xfffffffd]) ! i)"
    using GetNextResolution_enumerates [OF ne ids get_put_same(3) [of "0x2000" "0x81" demo_video_mac]]
    unfolding Let_def by blast
  from spec [OF this, of 1] show ?thesis by (simp add: rs)
qed

theorem SwitchMode_outcomes_witness:
  "\<exists>r m' s'. driver_control demo_env demo_video demo_rom cscSwitchMode 0x2000 0x3000
      (demo_monitor\<lparr>dm_present := True, current_apple_mode := 0x80, current_id := 0x81\<rparr>,
       put32 0x2002 0x82 (put16 0x2000 0x80 demo_video_mac)) = Some (r, m', s') \<and> r = noErr \<and> current_id m' = 0x82"
proof -
  let ?m = "demo_monitor\<lparr>dm_present := True, current_apple_mode := 0x80, current_id := 0x81\<rparr>"
  let ?s = "put32 0x2002 0x82 (put16 0x2000 0x80 demo_video_mac)"
  have m: "modes demo_monitor = demo_modes" by (simp add: demo_monitor_def new_monitor_def Let_def)
  have d: "depth (demo_modes ! 0) = VDEPTH_8BIT" "resolution_id (demo_modes ! 0) = 0x81"
      "demo_modes ! 2 \<in> set demo_modes" "depth (demo_modes ! 2) = VDEPTH_8BIT" "resolution_id (demo_modes ! 2) = 0x82"
    by (simp_all add: demo_modes_def)
  have a: "depth_to_apple_mode ?m VDEPTH_8BIT = 0x80"
    by (simp add: demo_monitor_def new_monitor_def Let_def depth_to_apple_mode_def all_depths_def has_depth_def demo_modes_def)
  have "same_modes demo_monitor ?m" by (simp add: same_modes_def)
  then have "mode_table_ok ?m" using new_monitor_table mode_table_cong unfolding demo_monitor_def by blast
  then have ok: "monitor_ok ?m"
    using a by (simp add: monitor_ok_def demo_monitor_mode d) (simp add: demo_monitor_def new_monitor_def Let_def blank_monitor_def)
  have g: "get16 ?s (0x2000 + csMode) = 0x80" "get32 ?s (0x2000 + csData) = 0x82" "get16 ?s (0x2000 + csPage) = 0"
    by (simp_all add: get_put_apart sep_def) (simp add: demo_video_mac_def mac_get_defs mac_access join16_def)
  have e: "\<exists>v \<in> set (modes ?m). depth_to_apple_mode ?m (depth v) = 0x80 \<and> resolution_id v = 0x82"
    using d(3-5) a by (intro bexI [of _ "demo_modes ! 2"]) (simp_all add: m)
  show ?thesis
    using SwitchMode_outcomes [OF ok _ g(3), of demo_env demo_video demo_rom "0x3000"] e unfolding Let_def g by auto
qed

section \<open>Palettes\<close>

text \<open>A gamma table without effect: none, or one channel of 256 entries that map to themselves.\<close>

definition linear_gamma :: "monitor_desc \<Rightarrow> 'h mac \<Rightarrow> bool" where
  "linear_gamma m s \<longleftrightarrow> gamma_table m = 0
     \<or> (\<exists>t. gamma_tables m s = Some (t, t, t, 8) \<and> (\<forall>c. get8 s (t + ucast c) = c))"

lemma linear_gamma_cases:
  assumes "linear_gamma m s"
  obtains "gamma_tables m s = None" | t where "gamma_tables m s = Some (t, t, t, 8)" "\<And>c. get8 s (t + ucast c) = c"
  using assms by (auto simp: linear_gamma_def gamma_tables_def [of m s] Let_def)

lemma linear_gamma_ok: "linear_gamma m s \<Longrightarrow> gamma_shift_ok (gamma_tables m s)"
  by (erule linear_gamma_cases) (simp_all add: gamma_shift_ok_def)

lemma linear_gamma_correct: "linear_gamma m s \<Longrightarrow> correct_rgb (gamma_tables m s) s rgb = rgb"
  by (erule linear_gamma_cases) (simp_all add: correct_rgb_def gamma_byte_def split: prod.splits)

lemma put_rgb_nth:
  assumes "3 * i + 2 < length pal" and "j < 3"
  shows "put_rgb i (r, g, b) pal ! (3 * k + j) = (if k = i then [r, g, b] ! j else pal ! (3 * k + j))"
proof -
  have eq: "(3 * i + x = 3 * k + j) = (i = k \<and> x = j)" if "x < 3" for x
    using that assms(2) by presburger
  have "put_rgb i (r, g, b) pal ! (3 * k + j) =
     (if 3 * i + 2 = 3 * k + j then b else if 3 * i + 1 = 3 * k + j then g
      else if 3 * i + 0 = 3 * k + j then r else pal ! (3 * k + j))"
    using assms(1) by (simp only: put_rgb_def prod.case nth_list_update length_list_update) simp
  also have "\<dots> = (if i = k \<and> 2 = j then b else if i = k \<and> 1 = j then g else if i = k \<and> 0 = j then r
      else pal ! (3 * k + j))"
    by (subst (1 2 3) eq) simp_all
  also have "\<dots> = (if k = i then [r, g, b] ! j else pal ! (3 * k + j))"
    using assms(2) by (auto simp: less_Suc_eq numeral_3_eq_3 numeral_2_eq_2)
  finally show ?thesis .
qed

lemma fold_put_rgb_nth:
  assumes "3 * (start + n) \<le> length pal" and "j < 3" and "i < n"
  shows "fold (\<lambda>i. put_rgb (start + i) (f i)) [0..<n] pal ! (3 * (start + i) + j) =
     (case f i of (r, g, b) \<Rightarrow> [r, g, b] ! j)"
  using assms
proof (induction n)
  case (Suc n)
  obtain r g b where f: "f n = (r, g, b)" by (rule prod_cases3)
  have "put_rgb (start + n) (r, g, b) (fold (\<lambda>i. put_rgb (start + i) (f i)) [0..<n] pal) ! (3 * (start + i) + j) =
     (if start + i = start + n then [r, g, b] ! j
      else fold (\<lambda>i. put_rgb (start + i) (f i)) [0..<n] pal ! (3 * (start + i) + j))"
    using Suc.prems by (intro put_rgb_nth) simp_all
  then show ?case using Suc f by (auto simp: less_Suc_eq)
qed simp

text \<open>GetEntries: the eight bytes of an entry, and the entries before it.\<close>

lemma sep_entries:
  assumes "i < n" and "n \<le> 256"
  shows "sep (d + word_of_nat (8 * i)) 8 (d + word_of_nat (8 * n)) 8"
proof (rule sepI)
  fix x y :: u32
  assume xy: "unat x < 8" "unat y < 8"
  show "d + word_of_nat (8 * i) + x \<noteq> d + word_of_nat (8 * n) + y"
  proof
    assume "d + word_of_nat (8 * i) + x = d + word_of_nat (8 * n) + y"
    then have "unat (word_of_nat (8 * i) + x) = unat (word_of_nat (8 * n) + y)" by (simp add: add.assoc)
    moreover have "unat (word_of_nat (8 * i) + x) = 8 * i + unat x" "unat (word_of_nat (8 * n) + y) = 8 * n + unat y"
      using xy assms by (simp_all add: unat_word_ariths(1) unat_word_of_nat del: of_nat_mult)
    ultimately show False using xy assms(1) by simp
  qed
qed simp_all

lemma put_entry_apart: "sep x 8 d 8 \<Longrightarrow> same_range x 8 (put_entry d pal k s) s"
  unfolding put_entry_def
  by (intro same_range_trans [OF same_range_puts(2)] same_range_puts(2)) (auto intro!: sep_sub_right)

lemma put_entries_read:
  assumes "i < n" and "n \<le> 256"
  shows "same_range (d + word_of_nat (8 * i)) 8 (fold (\<lambda>i. put_entry (d + word_of_nat (8 * i)) pal (f i)) [0..<n] s)
     (put_entry (d + word_of_nat (8 * i)) pal (f i) (fold (\<lambda>i. put_entry (d + word_of_nat (8 * i)) pal (f i)) [0..<i] s))"
  using assms
proof (induction n)
  case (Suc n)
  show ?case
  proof (cases "i = n")
    case False
    then have i: "i < n" using Suc.prems by simp
    then have "same_range (d + word_of_nat (8 * i)) 8
        (fold (\<lambda>i. put_entry (d + word_of_nat (8 * i)) pal (f i)) [0..<Suc n] s)
        (fold (\<lambda>i. put_entry (d + word_of_nat (8 * i)) pal (f i)) [0..<n] s)"
      using Suc.prems by (simp add: put_entry_apart sep_entries del: of_nat_mult)
    then show ?thesis using Suc.IH [OF i] Suc.prems by (auto intro: same_range_trans)
  qed simp
qed simp

lemma put_entry_read:
  "get16 (put_entry d pal k s) (d + 2) = ucast (pal ! (3 * k)) * 0x0101"
  "get16 (put_entry d pal k s) (d + 4) = ucast (pal ! (3 * k + 1)) * 0x0101"
  "get16 (put_entry d pal k s) (d + 6) = ucast (pal ! (3 * k + 2)) * 0x0101"
  by (simp_all add: put_entry_def get_put_apart sep_def)

lemma put_entries_words:
  fixes d :: u32 and pal :: "u8 list" and f :: "nat \<Rightarrow> nat" and s :: "'h mac"
  assumes "i < n" and "n \<le> 256"
  defines "t \<equiv> fold (\<lambda>i. put_entry (d + word_of_nat (8 * i)) pal (f i)) [0..<n] s"
  shows "get16 t (d + word_of_nat (8 * i) + 2) = ucast (pal ! (3 * f i)) * 0x0101"
    and "get16 t (d + word_of_nat (8 * i) + 4) = ucast (pal ! (3 * f i + 1)) * 0x0101"
    and "get16 t (d + word_of_nat (8 * i) + 6) = ucast (pal ! (3 * f i + 2)) * 0x0101"
proof -
  note r = put_entries_read [OF assms(1,2), of d pal f s, folded t_def]
  have g: "get16 t (d + word_of_nat (8 * i) + z) = get16 (put_entry (d + word_of_nat (8 * i)) pal (f i)
      (fold (\<lambda>i. put_entry (d + word_of_nat (8 * i)) pal (f i)) [0..<i] s)) (d + word_of_nat (8 * i) + z)"
    if "unat z + 2 \<le> 8" for z
    using same_range_get16 [OF same_range_sub [OF r that]] by simp
  show "get16 t (d + word_of_nat (8 * i) + 2) = ucast (pal ! (3 * f i)) * 0x0101"
    "get16 t (d + word_of_nat (8 * i) + 4) = ucast (pal ! (3 * f i + 1)) * 0x0101"
    "get16 t (d + word_of_nat (8 * i) + 6) = ucast (pal ! (3 * f i + 2)) * 0x0101"
    using g [of 2] g [of 4] g [of 6] by (simp_all add: put_entry_read)
qed

text \<open>Colours come back. Let the screen be in an indexed mode, luminance mapping off, and the
  gamma table none or linear. If SetEntries has accepted a range of colours, a later GetEntries
  for the same range, whatever Mac memory looks like by then, writes for each of them and for
  each component the value whose two bytes are both the high byte of the component that was set;
  so a component whose bytes agree comes back unchanged. Every entry written lies in the palette.\<close>

theorem SetEntries_GetEntries:
  fixes s t :: "'h mac" and param param' :: u32
  defines "start \<equiv> get16 s (param + csStart)" and "count \<equiv> get16 s (param + csCount)"
    and "src \<equiv> get32 s (param + csTable)" and "dst \<equiv> get32 t (param' + csTable)"
  assumes set: "driver_control E V R cscSetEntries param dce (m, s) = Some (noErr, m', s')"
    and seq: "start \<noteq> 0xffff" and ok: "length (palette m) = 768"
    and lum: "\<not> luminance_mapping m" and gamma: "linear_gamma m s"
    and same: "get16 t (param' + csStart) = start" "get16 t (param' + csCount) = count" and dst: "dst \<noteq> 0"
  shows "\<exists>t'. driver_status cscGetEntries param' (m', t) = Some (noErr, m', t')
     \<and> unat start + unat count < 256
     \<and> (\<forall>i \<le> unat count. \<forall>k \<in> {2, 4, 6}.
          get16 t' (dst + word_of_nat (8 * i) + k) = ucast (hi8 (get16 s (src + word_of_nat (8 * i) + k))) * 0x0101)"
proof -
  let ?n = "Suc (unat count)"
  let ?f = "\<lambda>i. table_entry (src + word_of_nat (8 * i)) s"
  have src: "src = get32 s param" and dst': "dst = get32 t param'" by (simp_all add: src_def dst_def)
  obtain mode where mode: "get_current_mode m = Some mode"
    using set by (cases "get_current_mode m") (auto simp: driver_control_def set_entries_def)
  have idx: "entry_index start q i u = unat start + i" for q i and u :: "'h mac"
    using seq by (simp add: entry_index_def)
  have c: "\<not> count > 255" "\<not> unat start + unat count > 255"
    and m': "palette m' = fold (\<lambda>i. put_rgb (unat start + i) (?f i)) [0..<?n] (palette m)"
    using set seq lum
    by (auto simp: driver_control_def set_entries_def mode Let_def start_def [symmetric] count_def [symmetric]
        src idx call_set_palette_def convert_entry_def linear_gamma_correct [OF gamma]
        simp del: upt_Suc split: if_splits)
  define t' where "t' = fold (\<lambda>i. put_entry (dst + word_of_nat (8 * i)) (palette m') (unat start + i)) [0..<?n] t"
  have status: "driver_status cscGetEntries param' (m', t) = Some (noErr, m', t')"
    using c dst [unfolded dst'] same
    by (simp add: driver_status_def get_entries_def Let_def dst' idx t'_def del: upt_Suc)
  have n: "?n \<le> 256" "3 * (unat start + ?n) \<le> length (palette m)" using c ok by auto
  have pal: "palette m' ! (3 * (unat start + i) + j) = (case ?f i of (r, g, b) \<Rightarrow> [r, g, b] ! j)"
    if "i \<le> unat count" "j < 3" for i j
    unfolding m' using n(2) that by (intro fold_put_rgb_nth) auto
  have "get16 t' (dst + word_of_nat (8 * i) + k) = ucast (hi8 (get16 s (src + word_of_nat (8 * i) + k))) * 0x0101"
    if i: "i \<le> unat count" and k: "k \<in> {2, 4, 6}" for i k
  proof -
    have "i < ?n" using i by simp
    note w = put_entries_words [OF this n(1), of dst "palette m'" "\<lambda>i. unat start + i" t, folded t'_def]
    show ?thesis
      using k w pal [OF i, of 0] pal [OF i, of 1] pal [OF i, of 2] by (auto simp: table_entry_def)
  qed
  then show ?thesis using status c by auto
qed

definition demo_palette_mac :: "unit mac" where
  "demo_palette_mac = put16 0x4004 0xaaaa (put16 0x4002 0x1234 (put16 0x2006 0 (put16 0x2004 5
     (put32 0x2000 0x4000 demo_video_mac))))"

theorem SetEntries_GetEntries_witness:
  "\<exists>m' s' t'. driver_control demo_env demo_video demo_rom cscSetEntries 0x2000 0x3000
       (demo_monitor, demo_palette_mac) = Some (noErr, m', s')
     \<and> driver_status cscGetEntries 0x2000 (m', demo_palette_mac) = Some (noErr, m', t')
     \<and> get16 t' 0x4002 = 0x1212 \<and> get16 t' 0x4004 = 0xaaaa"
proof -
  let ?s = demo_palette_mac
  have g: "get32 ?s (0x2000 + csTable) = 0x4000" "get16 ?s (0x2000 + csStart) = 5" "get16 ?s (0x2000 + csCount) = 0"
      "get16 ?s 0x4002 = 0x1234" "get16 ?s 0x4004 = 0xaaaa"
    by (simp_all add: demo_palette_mac_def get_put_apart sep_def)
  have d: "depth (demo_modes ! 0) = VDEPTH_8BIT" by (simp add: demo_modes_def)
  have m: "gamma_table demo_monitor = 0" "\<not> luminance_mapping demo_monitor" "length (palette demo_monitor) = 768"
    by (simp_all add: demo_monitor_def new_monitor_def Let_def blank_monitor_def)
  have lin: "linear_gamma demo_monitor ?s" by (simp add: linear_gamma_def m)
  have "\<exists>m' s'. driver_control demo_env demo_video demo_rom cscSetEntries 0x2000 0x3000 (demo_monitor, ?s) =
      Some (noErr, m', s')"
    using linear_gamma_ok [OF lin] g(1) g(2,3) [simplified]
    by (simp add: driver_control_def set_entries_def demo_monitor_mode d IsDirectMode_def Let_def call_set_palette_def)
  then obtain m' s' where c: "driver_control demo_env demo_video demo_rom cscSetEntries 0x2000 0x3000 (demo_monitor, ?s) =
      Some (noErr, m', s')" by blast
  have h: "hi8 0x1234 = 0x12" "hi8 0xaaaa = 0xaa" by (simp_all add: hi8_def)
  obtain t' where t': "driver_status cscGetEntries 0x2000 (m', ?s) = Some (noErr, m', t')"
    "\<forall>i \<le> unat (get16 ?s (0x2000 + csCount)). \<forall>k \<in> {2, 4, 6}.
       get16 t' (get32 ?s (0x2000 + csTable) + word_of_nat (8 * i) + k)
         = ucast (hi8 (get16 ?s (get32 ?s (0x2000 + csTable) + word_of_nat (8 * i) + k))) * 0x0101"
    using SetEntries_GetEntries [OF c _ m(3,2) lin refl refl] g(1,2) by auto
  have "get16 t' 0x4002 = 0x1212" "get16 t' 0x4004 = 0xaaaa"
    using t'(2) [rule_format, of 0 2] t'(2) [rule_format, of 0 4] unfolding g by (simp_all add: g h)
  with c t'(1) show ?thesis by blast
qed

section \<open>Gamma tables\<close>

lemma fold_put8_read:
  assumes "n \<le> 2 ^ 32"
  shows "get8 (fold (\<lambda>i. put8 (a + word_of_nat i) (f i)) [0..<n] s) x =
     (if unat (x - a) < n then f (unat (x - a)) else get8 s x)"
  using assms
proof (induction n)
  case (Suc n)
  have "x = a + word_of_nat n \<longleftrightarrow> unat (x - a) = n"
  proof -
    have "x = a + word_of_nat n \<longleftrightarrow> x - a = word_of_nat n" by (auto simp: algebra_simps)
    also have "\<dots> \<longleftrightarrow> unat (x - a) = n" using Suc.prems by (auto simp: unat_word_of_nat word_unat_eq_iff)
    finally show ?thesis .
  qed
  then show ?case using Suc by (auto simp: get8_put_cases)
qed simp

lemma linear_ramp_byte: "get8 (linear_ramp t s) (t + 12 + ucast c) = c"
proof -
  have "unat c < 2 ^ LENGTH(8)" by (rule unsigned_less)
  then have "unat (ucast c :: u32) < 256" by (simp add: unsigned_ucast_eq take_bit_nat_eq_self)
  moreover have "ucast (ucast c :: u32) = c" by (rule bit_word_eqI) (simp add: bit_ucast_iff)
  ultimately show ?thesis by (simp add: linear_ramp_def fold_put8_read)
qed

lemma linear_ramp_tables:
  assumes "gamma_table m \<noteq> 0" and s': "mem s' = mem (linear_ramp (gamma_table m) s)"
  shows "linear_gamma m s'"
proof -
  let ?t = "gamma_table m"
  define u where "u = put16 (?t + gDataWidth) 8 (put16 (?t + gDataCnt) 256 (put16 (?t + gChanCnt) 1
    (put16 (?t + gFormulaSize) 0 (put16 (?t + gType) 0 (put16 (?t + gVersion) 0 s)))))"
  have "sep ?t 12 (?t + 12) 256" by (simp add: sep_def)
  then have "\<not> unat (?t + i - (?t + 12)) < 256" if "unat i < 12" for i
    using sep_neq [of ?t 12 "?t + 12" 256 i "?t + i - (?t + 12)"] that by auto
  then have r: "same_range ?t 12 (linear_ramp ?t s) u"
    by (simp add: same_range_def linear_ramp_def u_def fold_put8_read)
  have h: "get16 (linear_ramp ?t s) (?t + 4) = 0" "get16 (linear_ramp ?t s) (?t + 6) = 1"
      "get16 (linear_ramp ?t s) (?t + 10) = 8"
    using same_range_get16 [OF same_range_sub [OF r, of 4 2]] same_range_get16 [OF same_range_sub [OF r, of 6 2]]
      same_range_get16 [OF same_range_sub [OF r, of 10 2]]
    by (simp_all add: u_def get_put_apart sep_def)
  have g: "get16 s' = get16 (linear_ramp ?t s)" "get8 s' = get8 (linear_ramp ?t s)"
    by (simp_all add: get16_def get8_def s' fun_eq_iff)
  show ?thesis
    using assms(1) by (simp add: linear_gamma_def gamma_tables_def Let_def g h linear_ramp_byte)
qed

lemma finish_gamma_frame:
  assumes "finish_gamma V (m, s) = Some (ok, m', s')"
  shows "gamma_table m' = gamma_table m" and "mem s' = mem s"
  using assms by (auto simp: finish_gamma_def load_ramp_palette_def call_set_palette_def Let_def
      split: if_splits bind_splits)

lemma finish_gamma_linear:
  assumes "linear_gamma m s" and "get_current_mode m \<noteq> None"
  shows "\<exists>m' s'. finish_gamma V (m, s) = Some (True, m', s')"
  using assms linear_gamma_ok [OF assms(1)]
  by (auto simp: finish_gamma_def load_ramp_palette_def Let_def)

text \<open>C34. SetGamma. With no table given and memory for one, the call succeeds and the gamma table
  is linear afterwards: gamma correction is the identity. A table of the wrong version or type,
  with other than one or three channels, wider than 8 bits, or of a length that does not fit the
  width, changes nothing at all. But the result is noErr whatever happens: the routine that
  finds the error returns it where a boolean is expected, and every error code is true.\<close>

theorem SetGamma_outcomes:
  fixes s :: "'h mac" and E :: "'h env68k" and V :: "'h video_sys"
  assumes mode: "get_current_mode m \<noteq> None" and t: "t = get32 s (param + csGTable)"
  shows "(t = 0 \<and> allocate_gamma_table E (SIZEOF_GammaTbl + 256) (m, s) = (True, m1, s1) \<and> gamma_table m1 \<noteq> 0 \<longrightarrow>
          (\<exists>m' s'. driver_control E V R cscSetGamma param dce (m, s) = Some (noErr, m', s') \<and> linear_gamma m' s'))
     \<and> (t \<noteq> 0 \<and> (get16 s (t + gVersion) \<noteq> 0 \<or> get16 s (t + gType) \<noteq> 0
           \<or> get16 s (t + gChanCnt) \<notin> {1, 3} \<or> get16 s (t + gDataWidth) > 8
           \<or> unat (get16 s (t + gDataCnt)) \<noteq> 2 ^ unat (get16 s (t + gDataWidth))) \<longrightarrow>
          driver_control E V R cscSetGamma param dce (m, s) = Some (noErr, m, s))
     \<and> (\<forall>r ms'. driver_control E V R cscSetGamma param dce (m, s) = Some (r, ms') \<longrightarrow> r = noErr)"
proof (intro conjI impI allI)
  have call: "driver_control E V R cscSetGamma param dce (m, s) =
      map_option (\<lambda>(ok, ms1). (if ok then noErr else memFullErr, ms1)) (set_gamma_table E V t (m, s))"
    by (simp add: driver_control_def t)
  have always: "ok" if "set_gamma_table E V u ms = Some (ok, ms')" for u ms ok ms'
    using that by (auto simp: set_gamma_table_def finish_gamma_def as_bool_def Let_def
        split: prod.splits if_splits bind_splits)
  show "r = noErr" if "driver_control E V R cscSetGamma param dce (m, s) = Some (r, ms')" for r ms'
    using that always unfolding call by (auto split: if_splits)
  show "driver_control E V R cscSetGamma param dce (m, s) = Some (noErr, m, s)"
    if b: "t \<noteq> 0 \<and> (get16 s (t + gVersion) \<noteq> 0 \<or> get16 s (t + gType) \<noteq> 0
           \<or> get16 s (t + gChanCnt) \<notin> {1, 3} \<or> get16 s (t + gDataWidth) > 8
           \<or> unat (get16 s (t + gDataCnt)) \<noteq> 2 ^ unat (get16 s (t + gDataWidth)))"
  proof -
    have i: "uint w = 1 \<longleftrightarrow> w = 1" "uint w = 3 \<longleftrightarrow> w = 3" "8 < unat w \<longleftrightarrow> 8 < w" for w :: u16
      by (simp_all add: word_uint_eq_iff word_less_nat_alt)
    have c: "uint w = 2 ^ k \<longleftrightarrow> unat w = 2 ^ k" for w :: u16 and k :: nat
      unfolding uint_nat by (metis of_nat_eq_iff of_nat_numeral of_nat_power)
    consider "t \<noteq> 0" "get16 s (t + gVersion) \<noteq> 0"
      | "t \<noteq> 0" "get16 s (t + gVersion) = 0" "get16 s (t + gType) \<noteq> 0"
      | "t \<noteq> 0" "get16 s (t + gVersion) = 0" "get16 s (t + gType) = 0" "get16 s (t + gChanCnt) \<notin> {1, 3}"
      | "t \<noteq> 0" "get16 s (t + gVersion) = 0" "get16 s (t + gType) = 0" "get16 s (t + gChanCnt) \<in> {1, 3}"
          "get16 s (t + gDataWidth) > 8"
      | "t \<noteq> 0" "get16 s (t + gVersion) = 0" "get16 s (t + gType) = 0" "get16 s (t + gChanCnt) \<in> {1, 3}"
          "\<not> get16 s (t + gDataWidth) > 8" "unat (get16 s (t + gDataCnt)) \<noteq> 2 ^ unat (get16 s (t + gDataWidth))"
      using b by blast
    then have "set_gamma_table E V t (m, s) = Some (True, m, s)"
      by cases (auto simp: set_gamma_table_def Let_def as_bool_def i c split del: if_split cong: if_weak_cong)
    then show ?thesis by (simp add: call)
  qed
  show "\<exists>m' s'. driver_control E V R cscSetGamma param dce (m, s) = Some (noErr, m', s') \<and> linear_gamma m' s'"
    if a: "t = 0 \<and> allocate_gamma_table E (SIZEOF_GammaTbl + 256) (m, s) = (True, m1, s1) \<and> gamma_table m1 \<noteq> 0"
  proof -
    have "same_shown m m1" using allocate_shown [of E 268 "(m, s)" True "(m1, s1)"] a by simp
    then have "get_current_mode m1 = get_current_mode m"
      by (intro get_current_mode_cong) (simp_all add: same_shown_def same_modes_def)
    then have "\<exists>m' s'. finish_gamma V (m1, linear_ramp (gamma_table m1) s1) = Some (True, m', s')"
      using finish_gamma_linear linear_ramp_tables a mode by metis
    then obtain m' s' where f: "finish_gamma V (m1, linear_ramp (gamma_table m1) s1) = Some (True, m', s')" by blast
    have "linear_gamma m' s'"
      using linear_ramp_tables [of m' s' s1] finish_gamma_frame [OF f] a by simp
    moreover have "set_gamma_table E V t (m, s) = Some (True, m', s')"
      using a f by (simp add: set_gamma_table_def Let_def)
    ultimately show ?thesis by (simp add: call)
  qed
qed

theorem SetGamma_outcomes_witness:
  "driver_control demo_env demo_video demo_rom cscSetGamma 0x2000 0x3000
     (demo_monitor, put16 0x4000 1 (put32 0x2000 0x4000 demo_video_mac))
   = Some (noErr, demo_monitor, put16 0x4000 1 (put32 0x2000 0x4000 demo_video_mac))"
proof -
  have g: "get32 (put16 0x4000 1 (put32 0x2000 0x4000 demo_video_mac)) (0x2000 + csGTable) = 0x4000"
      "get16 (put16 0x4000 1 (put32 0x2000 0x4000 demo_video_mac)) (0x4000 + gVersion) = 1"
    by (simp_all add: get_put_apart sep_def)
  show ?thesis
    using SetGamma_outcomes [THEN conjunct2, THEN conjunct1, of demo_monitor _ _ "0x2000" demo_env demo_video demo_rom "0x3000",
        OF _ g(1) [symmetric]] g(2)
    by (simp add: demo_monitor_mode)
qed

end
