(* ===== verification/Serial.thy ===== *)
theory Serial
  imports MacosUtil
begin

text \<open>
  "serial.cpp": the four serial drivers .AIn, .AOut, .BIn and .BOut over two ports. The virtual
  functions of a port are the record \<open>serd_sys\<close>; they may change the port's variables, Mac memory
  and the host. "dummy/serial_dummy.cpp" is the platform without serial ports. A driver number
  other than 0 to 3 has no port and gives \<open>None\<close>.
\<close>

abbreviation (input) serdtCode :: u32 where "serdtCode \<equiv> 20"
abbreviation (input) serdtResult :: u32 where "serdtResult \<equiv> 30"
abbreviation (input) SIZEOF_serdt :: u32 where "SIZEOF_serdt \<equiv> 38"
abbreviation (input) kSERDSetPollWrite :: u16 where "kSERDSetPollWrite \<equiv> 0x6a66"
abbreviation (input) kSERDVersion :: u16 where "kSERDVersion \<equiv> 9"

record serd_port =
  is_open :: bool
  cum_errors :: u8
  read_pending :: bool
  read_done :: bool
  input_dt :: u32
  write_pending :: bool
  write_done :: bool
  output_dt :: u32

type_synonym 'h serd = "serd_port \<times> 'h mac"
type_synonym 'h serds = "serd_port list \<times> 'h mac"

record 'h serd_sys =
  dev_open :: "u16 \<Rightarrow> 'h serd \<Rightarrow> u16 \<times> 'h serd"
  dev_prime_in :: "u32 \<Rightarrow> u32 \<Rightarrow> 'h serd \<Rightarrow> u16 \<times> 'h serd"
  dev_prime_out :: "u32 \<Rightarrow> u32 \<Rightarrow> 'h serd \<Rightarrow> u16 \<times> 'h serd"
  dev_control :: "u32 \<Rightarrow> u32 \<Rightarrow> u16 \<Rightarrow> 'h serd \<Rightarrow> u16 \<times> 'h serd"
  dev_status :: "u32 \<Rightarrow> u32 \<Rightarrow> u16 \<Rightarrow> 'h serd \<Rightarrow> u16 \<times> 'h serd"
  dev_close :: "'h serd \<Rightarrow> u16 \<times> 'h serd"

definition dummy_serd :: "'h serd_sys" where
  "dummy_serd =
     \<lparr>dev_open = (\<lambda>config ps. (openErr, ps)),
      dev_prime_in = (\<lambda>pb dce ps. (readErr, ps)),
      dev_prime_out = (\<lambda>pb dce ps. (writErr, ps)),
      dev_control = (\<lambda>pb dce code ps. (controlErr, ps)),
      dev_status = (\<lambda>pb dce code ps. (statusErr, ps)),
      dev_close = (\<lambda>ps. (noErr, ps))\<rparr>"

text \<open>The constructor; the other members are not set.\<close>

definition new_serd_port :: "serd_port \<Rightarrow> serd_port" where
  "new_serd_port junk = junk\<lparr>is_open := False, input_dt := 0, output_dt := 0\<rparr>"

section \<open>Driver routines\<close>

text \<open>The port of a driver.\<close>

definition on_port ::
  "nat \<Rightarrow> (nat \<Rightarrow> 'h serd \<Rightarrow> u16 \<times> 'h serd) \<Rightarrow> 'h serds \<Rightarrow> (u16 \<times> 'h serds) option" where
  "on_port port f st =
     (let i = port div 2 in
      if i < length (fst st) then
        (case f i (fst st ! i, snd st) of (r, p, s) \<Rightarrow> Some (r, (fst st)[i := p], s))
      else None)"

text \<open>A deferred task: its header and its 68k code.\<close>

definition init_dt :: "u32 \<Rightarrow> 'h mac \<Rightarrow> 'h mac" where
  "init_dt dt s =
     put16 (dt + serdtCode + 8) 0x4ed0 (put32 (dt + serdtCode + 4) 0x207808fc
       (put16 (dt + serdtCode + 2) 0x2251 (put16 (dt + serdtCode) 0x2019
         (put32 (dt + dtParam) (dt + serdtResult) (put32 (dt + dtAddr) (dt + serdtCode)
           (put16 (dt + qType) dtQType s))))))"

definition open_port :: "'h env68k \<Rightarrow> 'h serd_sys \<Rightarrow> nat \<Rightarrow> 'h serd \<Rightarrow> u16 \<times> 'h serd" where
  "open_port E V port ps =
     (let (p, s) = ps in
      if is_open p then (noErr, ps)
      else
        (let p1 = p\<lparr>read_pending := False, write_pending := False, read_done := False, write_done := False,
                    cum_errors := 0\<rparr>;
             (res, p2, s2) = dev_open V (get16 s (0x1fc + (if odd (port div 2) then 2 else 0))) (p1, s)
         in if res \<noteq> 0 then (res, p2, s2)
            else
              (let (r, s3) = Execute68kTrap E 0xa71e (set_d 0 (SIZEOF_serdt * 2) (stack_junk E)) s2 in
               if areg r 0 = 0 then (openErr, snd (dev_close V (p2, s3)))
               else
                 (let in_dt = areg r 0; out_dt = areg r 0 + SIZEOF_serdt in
                  (noErr, p2\<lparr>input_dt := in_dt, output_dt := out_dt, is_open := True\<rparr>,
                   init_dt out_dt (init_dt in_dt s3))))))"

definition SerialOpen ::
  "'h env68k \<Rightarrow> (nat \<Rightarrow> 'h serd_sys) \<Rightarrow> u32 \<Rightarrow> u32 \<Rightarrow> nat \<Rightarrow> 'h serds \<Rightarrow> (u16 \<times> 'h serds) option" where
  "SerialOpen E V pb dce port st =
     (if port = 0 \<or> port = 2 then Some (noErr, st) else on_port port (\<lambda>i. open_port E (V i) port) st)"

definition SerialPrime ::
  "(nat \<Rightarrow> 'h serd_sys) \<Rightarrow> u32 \<Rightarrow> u32 \<Rightarrow> nat \<Rightarrow> 'h serds \<Rightarrow> (u16 \<times> 'h serds) option" where
  "SerialPrime V pb dce port =
     on_port port (\<lambda>i ps.
       if \<not> is_open (fst ps) then (notOpenErr, ps)
       else if port = 0 \<or> port = 2 then
         (if read_pending (fst ps) then (readErr, ps) else dev_prime_in (V i) pb dce ps)
       else (if write_pending (fst ps) then (readErr, ps) else dev_prime_out (V i) pb dce ps))"

definition SerialControl ::
  "(nat \<Rightarrow> 'h serd_sys) \<Rightarrow> u32 \<Rightarrow> u32 \<Rightarrow> nat \<Rightarrow> 'h serds \<Rightarrow> (u16 \<times> 'h serds) option" where
  "SerialControl V pb dce port =
     on_port port (\<lambda>i ps.
       let code = get16 (snd ps) (pb + csCode) in
       if \<not> is_open (fst ps) then (notOpenErr, ps)
       else if code = kSERDSetPollWrite then (noErr, ps)
       else dev_control (V i) pb dce code ps)"

definition SerialStatus ::
  "(nat \<Rightarrow> 'h serd_sys) \<Rightarrow> u32 \<Rightarrow> u32 \<Rightarrow> nat \<Rightarrow> 'h serds \<Rightarrow> (u16 \<times> 'h serds) option" where
  "SerialStatus V pb dce port =
     on_port port (\<lambda>i ps.
       let (p, s) = ps; code = get16 s (pb + csCode) in
       if \<not> is_open p then (notOpenErr, ps)
       else if code = kSERDVersion then (noErr, p, put8 (pb + csParam) 9 s)
       else if code = 0x8000 then
         (noErr, p, put16 (pb + csParam + 6) 0x0616 (put16 (pb + csParam + 4) 0x1997 (put8 (pb + csParam) 9 s)))
       else dev_status (V i) pb dce code ps)"

definition close_port :: "'h env68k \<Rightarrow> 'h serd_sys \<Rightarrow> 'h serd \<Rightarrow> u16 \<times> 'h serd" where
  "close_port E V ps =
     (if is_open (fst ps) then
        (let (res, p1, s1) = dev_close V ps;
             (r, s2) = Execute68kTrap E 0xa01f (set_a 0 (input_dt p1) (stack_junk E)) s1
         in (res, p1\<lparr>is_open := False\<rparr>, s2))
      else (noErr, ps))"

definition SerialClose ::
  "'h env68k \<Rightarrow> (nat \<Rightarrow> 'h serd_sys) \<Rightarrow> u32 \<Rightarrow> u32 \<Rightarrow> nat \<Rightarrow> 'h serds \<Rightarrow> (u16 \<times> 'h serds) option" where
  "SerialClose E V pb dce port st =
     (if port = 0 \<or> port = 2 then Some (noErr, st) else on_port port (\<lambda>i. close_port E (V i)) st)"

section \<open>Interrupts\<close>

abbreviation (input) dt_queue :: u32 where "dt_queue \<equiv> 0xd92"

definition serial_irq :: "'h serd \<Rightarrow> 'h serd" where
  "serial_irq ps =
     (if is_open (fst ps) then
        (let (p, s) = ps;
             (p1, s1) = (if read_pending p \<and> read_done p
                         then (p\<lparr>read_pending := False, read_done := False\<rparr>, EnqueueMac (input_dt p) dt_queue s)
                         else (p, s))
         in if write_pending p1 \<and> write_done p1
            then (p1\<lparr>write_pending := False, write_done := False\<rparr>, EnqueueMac (output_dt p1) dt_queue s1)
            else (p1, s1))
      else ps)"

fun SerialInterrupt :: "'h serds \<Rightarrow> 'h serds" where
  "SerialInterrupt ([], s) = ([], s)"
| "SerialInterrupt (p # ps, s) =
     (let (p1, s1) = serial_irq (p, s); (ps2, s2) = SerialInterrupt (ps, s1) in (p1 # ps2, s2))"

text \<open>The deferred tasks an interrupt has to queue, in order.\<close>

definition due_dts :: "serd_port \<Rightarrow> u32 list" where
  "due_dts p =
     (if is_open p then (if read_pending p \<and> read_done p then [input_dt p] else [])
        @ (if write_pending p \<and> write_done p then [output_dt p] else []) else [])"

text \<open>The two transfers of a port after the interrupt.\<close>

definition settle :: "serd_port \<Rightarrow> serd_port" where
  "settle p =
     (if is_open p then
        p\<lparr>read_pending := read_pending p \<and> \<not> read_done p, read_done := read_done p \<and> \<not> read_pending p,
          write_pending := write_pending p \<and> \<not> write_done p, write_done := write_done p \<and> \<not> write_pending p\<rparr>
      else p)"

lemma serial_irq_settles:
  "serial_irq (p, s) = (settle p, fold (\<lambda>e. EnqueueMac e dt_queue) (due_dts p) s)"
  by (cases p) (auto simp: serial_irq_def settle_def due_dts_def Let_def)

lemma SerialInterrupt_settles:
  "SerialInterrupt (ps, s) = (map settle ps, fold (\<lambda>e. EnqueueMac e dt_queue) (concat (map due_dts ps)) s)"
  by (induction ps arbitrary: s) (simp_all add: serial_irq_settles)

lemma due_settle [simp]: "due_dts (settle p) = []"
  by (auto simp: due_dts_def settle_def)

lemma settle_idem [simp]: "settle (settle p) = settle p"
  by (cases p) (auto simp: settle_def)

text \<open>A completed transfer is signalled exactly once. When the Deferred Task queue of the Mac
  stands for a list of tasks, then after the serial interrupt it stands for that list followed by
  the tasks of the transfers that were both pending and done on open ports, port A before port B
  and reading before writing; those transfers are neither pending nor done any more, the others
  are as before, and a second interrupt changes nothing.\<close>

theorem SerialInterrupt_signals_once:
  assumes q: "mac_queue s 0xd92 tasks" and nz: "0 \<notin> set (concat (map due_dts ps))"
    and ap: "links_apart 0xd92 (tasks @ concat (map due_dts ps))"
  shows "\<exists>ps' s'. SerialInterrupt (ps, s) = (ps', s')
     \<and> mac_queue s' 0xd92 (tasks @ concat (map due_dts ps)) \<and> host s' = host s \<and> calls s' = calls s
     \<and> length ps' = length ps
     \<and> (\<forall>i < length ps. is_open (ps' ! i) = is_open (ps ! i)
          \<and> (read_pending (ps' ! i), read_done (ps' ! i)) =
               (if is_open (ps ! i) \<and> read_pending (ps ! i) \<and> read_done (ps ! i) then (False, False)
                else (read_pending (ps ! i), read_done (ps ! i)))
          \<and> (write_pending (ps' ! i), write_done (ps' ! i)) =
               (if is_open (ps ! i) \<and> write_pending (ps ! i) \<and> write_done (ps ! i) then (False, False)
                else (write_pending (ps ! i), write_done (ps ! i))))
     \<and> SerialInterrupt (ps', s') = (ps', s')"
proof -
  have frame: "host (fold (\<lambda>e. EnqueueMac e q) es t) = host t" "calls (fold (\<lambda>e. EnqueueMac e q) es t) = calls t"
    for q es and t :: "'a mac" by (induction es arbitrary: t) simp_all
  have nil: "concat (map due_dts (map settle qs)) = []" for qs by (induction qs) simp_all
  then have twice: "SerialInterrupt (map settle ps, t) = (map settle ps, t)" for t :: "'a mac"
    using nil [of ps] by (simp only: SerialInterrupt_settles fold_simps id_apply) (simp add: comp_def)
  show ?thesis
    using EnqueueMac_list [OF q nz ap] twice frame
    by (auto simp: SerialInterrupt_settles settle_def)
qed

section \<open>The life of a port\<close>

text \<open>What the driver may expect of the functions of a port: they leave alone the members that only
  the driver sets.\<close>

definition same_port :: "serd_port \<Rightarrow> serd_port \<Rightarrow> bool" where
  "same_port p p' \<longleftrightarrow> is_open p' = is_open p \<and> input_dt p' = input_dt p \<and> output_dt p' = output_dt p"

lemma same_port_refl [simp]: "same_port p p" by (simp add: same_port_def)

definition port_ok :: "serd_port \<Rightarrow> bool" where
  "port_ok p \<longleftrightarrow> (is_open p \<longrightarrow> input_dt p \<noteq> 0 \<and> output_dt p = input_dt p + SIZEOF_serdt)"

lemma port_ok_same: "same_port p p' \<Longrightarrow> port_ok p' = port_ok p"
  by (simp add: same_port_def port_ok_def)

locale serial_device =
  fixes V :: "'h serd_sys"
  assumes open_same: "dev_open V config (p, s) = (r, p', s') \<Longrightarrow> same_port p p'"
    and prime_same: "dev_prime_in V pb dce (p, s) = (r, p', s') \<Longrightarrow> same_port p p'"
      "dev_prime_out V pb dce (p, s) = (r, p', s') \<Longrightarrow> same_port p p'"
    and control_same: "dev_control V pb dce code (p, s) = (r, p', s') \<Longrightarrow> same_port p p'"
      "dev_status V pb dce code (p, s) = (r, p', s') \<Longrightarrow> same_port p p'"
    and close_same: "dev_close V (p, s) = (r, p', s') \<Longrightarrow> same_port p p'"
begin

lemma open_port_ok:
  assumes "port_ok p" and "open_port E V port (p, s) = (r, p', s')"
  shows "port_ok p'" and "is_open p' \<longleftrightarrow> r = noErr"
proof -
  define p1 where "p1 = p\<lparr>read_pending := False, write_pending := False, read_done := False, write_done := False,
                          cum_errors := 0\<rparr>"
  obtain res p2 s2 where o: "dev_open V (get16 s (0x1fc + (if odd (port div 2) then 2 else 0))) (p1, s) = (res, p2, s2)"
    by (rule prod_cases3)
  obtain rg s3 where e: "Execute68kTrap E 0xa71e (set_d 0 76 (stack_junk E)) s2 = (rg, s3)" by force
  obtain c p3 s4 where cl: "dev_close V (p2, s3) = (c, p3, s4)" by (rule prod_cases3)
  have p1: "same_port p p1" by (simp add: same_port_def p1_def)
  note f = open_same [OF o] close_same [OF cl]
  have eq: "open_port E V port (p, s) =
     (if is_open p then (noErr, p, s) else if res \<noteq> 0 then (res, p2, s2)
      else if areg rg 0 = 0 then (openErr, p3, s4)
      else (noErr, p2\<lparr>input_dt := areg rg 0, output_dt := areg rg 0 + SIZEOF_serdt, is_open := True\<rparr>,
            init_dt (areg rg 0 + SIZEOF_serdt) (init_dt (areg rg 0) s3)))"
    unfolding open_port_def Let_def prod.case p1_def [symmetric] o e [simplified] cl by (simp add: e cl Let_def)
  have "port_ok p' \<and> (is_open p' \<longleftrightarrow> r = noErr)"
    using assms(2) f assms(1) p1 unfolding eq by (auto simp: same_port_def port_ok_def split: if_splits)
  then show "port_ok p'" "is_open p' \<longleftrightarrow> r = noErr" by simp_all
qed

lemma close_port_ok:
  assumes "port_ok p" and "close_port E V (p, s) = (r, p', s')"
  shows "port_ok p' \<and> \<not> is_open p'"
  using assms by (auto simp: close_port_def Let_def port_ok_def split: prod.splits if_splits)

end

interpretation dummy_port: serial_device "dummy_serd :: 'h serd_sys"
  by unfold_locales (auto simp: dummy_serd_def)

text \<open>All histories of the ports: driver calls and interrupts in any order, with the platform's threads
  and Mac code at work in between. The members that only the driver sets stay.\<close>

inductive serial_reach ::
  "'h env68k \<Rightarrow> (nat \<Rightarrow> 'h serd_sys) \<Rightarrow> serd_port list \<times> 'h mac \<Rightarrow> bool" for E V where
  constructed: "serial_reach E V (map new_serd_port junk, s)"
| opened: "serial_reach E V st \<Longrightarrow> SerialOpen E V pb dce port st = Some (r, st') \<Longrightarrow> serial_reach E V st'"
| primed: "serial_reach E V st \<Longrightarrow> SerialPrime V pb dce port st = Some (r, st') \<Longrightarrow> serial_reach E V st'"
| controlled: "serial_reach E V st \<Longrightarrow> SerialControl V pb dce port st = Some (r, st') \<Longrightarrow> serial_reach E V st'"
| queried: "serial_reach E V st \<Longrightarrow> SerialStatus V pb dce port st = Some (r, st') \<Longrightarrow> serial_reach E V st'"
| closed: "serial_reach E V st \<Longrightarrow> SerialClose E V pb dce port st = Some (r, st') \<Longrightarrow> serial_reach E V st'"
| interrupted: "serial_reach E V st \<Longrightarrow> serial_reach E V (SerialInterrupt st)"
| others: "serial_reach E V (ps, s) \<Longrightarrow> list_all2 same_port ps ps' \<Longrightarrow> serial_reach E V (ps', s')"

text \<open>A routine on one port keeps a property of all ports if it keeps it on that one.\<close>

lemma on_port_all:
  assumes "on_port port f st = Some (r, st')" and "\<forall>p \<in> set (fst st). P p"
    and "\<And>i p s r p' s'. P p \<Longrightarrow> f i (p, s) = (r, p', s') \<Longrightarrow> P p'"
  shows "\<forall>p \<in> set (fst st'). P p"
proof -
  let ?i = "port div 2"
  have i: "?i < length (fst st)" using assms(1) by (auto simp: on_port_def Let_def split: if_splits)
  obtain r1 p1 s1 where f: "f ?i (fst st ! ?i, snd st) = (r1, p1, s1)" by (rule prod_cases3)
  have "P p1" using assms(3) [OF _ f] assms(2) i by simp
  then show ?thesis
    using assms(1,2) i f by (auto simp: on_port_def Let_def dest!: subsetD [OF set_update_subset_insert])
qed

lemma port_ok_settle [simp]: "port_ok (settle p) = port_ok p"
  by (simp add: port_ok_def settle_def)

lemma serial_reach_ok:
  assumes dev: "\<And>i. serial_device (V i)" and "serial_reach E V st"
  shows "\<forall>p \<in> set (fst st). port_ok p"
  using assms(2)
proof induction
  case (constructed junk s)
  then show ?case by (auto simp: new_serd_port_def port_ok_def)
next
  case (opened st pb dce port r st')
  show ?case
  proof (cases "port = 0 \<or> port = 2")
    case False
    then have c: "on_port port (\<lambda>i. open_port E (V i) port) st = Some (r, st')"
      using opened.hyps(2) by (simp add: SerialOpen_def)
    show ?thesis by (rule on_port_all [OF c opened.IH]) (rule serial_device.open_port_ok(1) [OF dev])
  qed (use opened in \<open>auto simp: SerialOpen_def\<close>)
next
  case (primed st pb dce port r st')
  then show ?case unfolding SerialPrime_def
    by (rule_tac on_port_all) (auto split: if_splits
        dest!: serial_device.prime_same [OF dev] simp: port_ok_same)
next
  case (controlled st pb dce port r st')
  then show ?case unfolding SerialControl_def
    by (rule_tac on_port_all) (auto simp: Let_def port_ok_same split: if_splits
        dest!: serial_device.control_same [OF dev])
next
  case (queried st pb dce port r st')
  then show ?case unfolding SerialStatus_def
    by (rule_tac on_port_all) (auto simp: Let_def port_ok_same split: if_splits
        dest!: serial_device.control_same [OF dev])
next
  case (closed st pb dce port r st')
  show ?case
  proof (cases "port = 0 \<or> port = 2")
    case False
    then have c: "on_port port (\<lambda>i. close_port E (V i)) st = Some (r, st')"
      using closed.hyps(2) by (simp add: SerialClose_def)
    show ?thesis
      by (rule on_port_all [OF c closed.IH]) (rule serial_device.close_port_ok [OF dev, THEN conjunct1])
  qed (use closed in \<open>auto simp: SerialClose_def\<close>)
next
  case (interrupted st)
  then show ?case by (cases st) (simp add: SerialInterrupt_settles)
next
  case (others ps s ps' s')
  then show ?case using port_ok_same by (fastforce simp: list_all2_conv_all_nth in_set_conv_nth)
qed

text \<open>A deferred task is ready to be queued: its type, its code and the parameter of the code.\<close>

definition dt_ready :: "u32 \<Rightarrow> 'h mac \<Rightarrow> bool" where
  "dt_ready dt s \<longleftrightarrow> get16 s (dt + qType) = dtQType \<and> get32 s (dt + dtAddr) = dt + serdtCode
     \<and> get32 s (dt + dtParam) = dt + serdtResult
     \<and> get16 s (dt + serdtCode) = 0x2019 \<and> get16 s (dt + serdtCode + 2) = 0x2251
     \<and> get32 s (dt + serdtCode + 4) = 0x207808fc \<and> get16 s (dt + serdtCode + 8) = 0x4ed0"

lemma init_dt_ready: "dt_ready dt (init_dt dt s)"
  by (simp add: dt_ready_def init_dt_def get_put_apart sep_def)

lemma init_dts_ready: "dt_ready dt (init_dt (dt + SIZEOF_serdt) (init_dt dt s))"
  by (simp add: dt_ready_def init_dt_def get_put_apart sep_def add.assoc)

lemma open_port_ready:
  assumes "open_port E V port (p, s) = (noErr, p', s')" and "\<not> is_open p"
  shows "dt_ready (input_dt p') s' \<and> dt_ready (output_dt p') s'"
  using assms init_dts_ready init_dt_ready
  by (auto simp: open_port_def Let_def split: prod.splits if_splits)

text \<open>C35. The life of a serial port. Let the platform's functions leave alone what only the driver
  sets. Then after any history of calls and interrupts, with other code at work in between: an
  open port has two deferred tasks, the second right behind the first, at a nonzero address. Open
  on the output side leaves the port open exactly if it returns noErr, and a port it has newly
  opened has both tasks set up in Mac memory; when there is no memory for them the port stays
  closed. While a port is closed, Prime, Control and Status on either side return notOpenErr and
  change nothing. After Close on the output side the port is closed.\<close>

theorem serial_port_life:
  fixes E :: "'h env68k" and s :: "'h mac"
  assumes dev: "\<And>i. serial_device (V i)" and reach: "serial_reach E V (ps, s)"
    and port: "port \<in> {1, 3}" "i = port div 2" "i < length ps"
  shows "(is_open (ps ! i) \<longrightarrow> input_dt (ps ! i) \<noteq> 0 \<and> output_dt (ps ! i) = input_dt (ps ! i) + SIZEOF_serdt)
     \<and> (\<exists>r p' s'. SerialOpen E V pb dce port (ps, s) = Some (r, ps[i := p'], s') \<and> (is_open p' \<longleftrightarrow> r = noErr)
          \<and> (r = noErr \<and> \<not> is_open (ps ! i) \<longrightarrow> dt_ready (input_dt p') s' \<and> dt_ready (output_dt p') s'
               \<and> input_dt p' \<noteq> 0 \<and> output_dt p' = input_dt p' + SIZEOF_serdt))
     \<and> (\<not> is_open (ps ! i) \<longrightarrow> (\<forall>side. side div 2 = i \<longrightarrow>
          SerialPrime V pb dce side (ps, s) = Some (notOpenErr, ps, s)
          \<and> SerialControl V pb dce side (ps, s) = Some (notOpenErr, ps, s)
          \<and> SerialStatus V pb dce side (ps, s) = Some (notOpenErr, ps, s)))
     \<and> (\<exists>r p' s'. SerialClose E V pb dce port (ps, s) = Some (r, ps[i := p'], s') \<and> \<not> is_open p')"
proof -
  have ok: "port_ok (ps ! i)" using serial_reach_ok [OF dev reach] port(3) by simp
  obtain r p' s' where o: "open_port E (V i) port (ps ! i, s) = (r, p', s')" by (rule prod_cases3)
  obtain r2 p2 s2 where c: "close_port E (V i) (ps ! i, s) = (r2, p2, s2)" by (rule prod_cases3)
  have o': "SerialOpen E V pb dce port (ps, s) = Some (r, ps[i := p'], s')"
    and c': "SerialClose E V pb dce port (ps, s) = Some (r2, ps[i := p2], s2)"
    using port o c by (auto simp: SerialOpen_def SerialClose_def on_port_def Let_def)
  note op = serial_device.open_port_ok [OF dev ok o]
  have ready: "dt_ready (input_dt p') s' \<and> dt_ready (output_dt p') s'" if "r = noErr \<and> \<not> is_open (ps ! i)"
    using open_port_ready [OF o [unfolded conjunct1 [OF that]]] that by blast
  have "\<forall>side. side div 2 = i \<longrightarrow>
          SerialPrime V pb dce side (ps, s) = Some (notOpenErr, ps, s)
          \<and> SerialControl V pb dce side (ps, s) = Some (notOpenErr, ps, s)
          \<and> SerialStatus V pb dce side (ps, s) = Some (notOpenErr, ps, s)" if "\<not> is_open (ps ! i)"
    using that port(3) by (auto simp: SerialPrime_def SerialControl_def SerialStatus_def on_port_def Let_def)
  moreover have "\<not> is_open p2" using serial_device.close_port_ok [OF dev ok c] by simp
  ultimately show ?thesis
    using ok o' c' op ready unfolding port_ok_def by blast
qed

definition demo_serd :: serd_port where
  "demo_serd = \<lparr>is_open = True, cum_errors = 0, read_pending = True, read_done = True, input_dt = 0x2000,
     write_pending = True, write_done = False, output_dt = 0x2026\<rparr>"

definition demo_serial_mac :: "unit mac" where
  "demo_serial_mac = \<lparr>mem = (\<lambda>_. 0), host = (), calls = []\<rparr>"

theorem serial_port_life_witness:
  "SerialPrime (\<lambda>_. dummy_serd) 0x1000 0x1100 2
     (map new_serd_port [demo_serd, demo_serd], demo_serial_mac)
   = Some (notOpenErr, map new_serd_port [demo_serd, demo_serd], demo_serial_mac)"
proof -
  have dev: "serial_device (dummy_serd :: unit serd_sys)" by (rule dummy_port.serial_device_axioms)
  have r: "serial_reach demo_env (\<lambda>_. dummy_serd) (map new_serd_port [demo_serd, demo_serd], demo_serial_mac)"
    by (rule constructed)
  show ?thesis
    using serial_port_life [OF dev r, of 3 1 "0x1000" "0x1100"] by (simp add: new_serd_port_def)
qed

theorem SerialInterrupt_signals_once_witness:
  "\<exists>ps' s'. SerialInterrupt ([demo_serd], demo_serial_mac) = (ps', s') \<and> mac_queue s' 0xd92 [0x2000]"
proof -
  have "mac_queue demo_serial_mac 0xd92 []"
    by (simp add: mac_queue_def demo_serial_mac_def mac_get_defs mac_access join32_def)
  moreover have "concat (map due_dts [demo_serd]) = [0x2000]" by (simp add: due_dts_def demo_serd_def)
  ultimately show ?thesis
    using SerialInterrupt_signals_once [of demo_serial_mac "[]" "[demo_serd]"] by (auto simp: sep_def)
qed

end
