(* ===== verification/Startup.thy ===== *)
theory Startup
  imports Volumes Timer ADB Prefs Video
begin

text \<open>
  "main.cpp" and "xpram.cpp" with "Unix/xpram_unix.cpp": InitAll() brings up the components in order.
  CheckROM() of "rom_patches.cpp" is that of the direct addressing configuration. The record
  \<open>startup_env\<close> holds what is not modelled: the defaults the platform adds to the preferences, the
  initialisation of the platform's devices, of the video output and of the CPU, and the ROM
  patches. The monitors, once VideoInit() has succeeded, are at least one.
\<close>

section \<open>Extended parameter RAM\<close>

abbreviation (input) XPRAM_SIZE :: nat where "XPRAM_SIZE \<equiv> 256"

text \<open>The path of the settings file; the buffer holds 1024 characters.\<close>

definition xpram_path :: "string option \<Rightarrow> string option \<Rightarrow> string" where
  "xpram_path vmdir home =
     (case vmdir of
        Some d \<Rightarrow> take 1023 (d @ ''/xpram'')
      | None \<Rightarrow>
          (case home of Some h \<Rightarrow> if length h < 1000 then h @ ''/'' else [] | None \<Rightarrow> [])
            @ ''.basilisk_ii_xpram'')"

text \<open>The files of the host as a map; reading stops at the end of the file.\<close>

type_synonym files = "string \<Rightarrow> u8 list option"

definition LoadXPRAM :: "string \<Rightarrow> files \<Rightarrow> u8 list \<Rightarrow> u8 list" where
  "LoadXPRAM path fs x =
     (case fs path of None \<Rightarrow> x | Some bs \<Rightarrow> take XPRAM_SIZE bs @ drop (length (take XPRAM_SIZE bs)) x)"

text \<open>Writing without truncation keeps the rest of a longer file. A file that cannot be opened
  for writing is left alone.\<close>

definition SaveXPRAM :: "(string \<Rightarrow> bool) \<Rightarrow> string \<Rightarrow> u8 list \<Rightarrow> files \<Rightarrow> files" where
  "SaveXPRAM writable path x fs =
     (if writable path
      then fs(path := Some (x @ drop (length x) (case fs path of None \<Rightarrow> [] | Some bs \<Rightarrow> bs)))
      else fs)"

definition XPRAMInit :: "string \<Rightarrow> files \<Rightarrow> u8 list" where
  "XPRAMInit path fs = LoadXPRAM path fs (replicate XPRAM_SIZE 0)"

definition XPRAMExit :: "(string \<Rightarrow> bool) \<Rightarrow> string \<Rightarrow> u8 list \<Rightarrow> files \<Rightarrow> files" where
  "XPRAMExit writable path x fs = SaveXPRAM writable path x fs"

definition xpram_signed :: "u8 list \<Rightarrow> bool" where
  "xpram_signed x \<longleftrightarrow> x ! 0x0c = 0x4e \<and> x ! 0x0d = 0x75 \<and> x ! 0x0e = 0x4d \<and> x ! 0x0f = 0x63"

definition put_all :: "(nat \<times> u8) list \<Rightarrow> u8 list \<Rightarrow> u8 list" where
  "put_all = fold (\<lambda>(i, b) x. x[i := b])"

definition xpram_defaults :: "(nat \<times> u8) list" where
  "xpram_defaults =
     [(0x0c, 0x4e), (0x0d, 0x75), (0x0e, 0x4d), (0x0f, 0x63), (0x01, 0x80),
      (0x10, 0xa8), (0x11, 0x00), (0x12, 0x00), (0x13, 0x22), (0x14, 0xcc), (0x15, 0x0a), (0x16, 0xcc), (0x17, 0x0a),
      (0x1c, 0x00), (0x1d, 0x02), (0x1e, 0x63), (0x1f, 0x00), (0x08, 0x13), (0x09, 0x88), (0x0a, 0x00), (0x0b, 0xcc),
      (0x76, 0x00), (0x77, 0x01)]"

definition check_xpram :: "u8 list \<Rightarrow> u8 list" where
  "check_xpram x = (if xpram_signed x then x else put_all xpram_defaults (replicate 0x100 0))"

definition set_boot_volume :: "prefs \<Rightarrow> u8 list \<Rightarrow> u8 list" where
  "set_boot_volume p x =
     (let drive = ucast (PrefsFindInt32 ''bootdrive'' p) :: u16; driver = ucast (PrefsFindInt32 ''bootdriver'' p) :: u16
      in put_all [(0x78, hi8 drive), (0x79, lo8 drive), (0x7a, hi8 driver), (0x7b, lo8 driver)] x)"

definition set_video_mode :: "monitor_desc \<Rightarrow> video_mode \<Rightarrow> u8 list \<Rightarrow> u8 list" where
  "set_video_mode m mode x =
     put_all [(0x56, 0x42), (0x57, 0x32), (0x58, ucast (depth_to_apple_mode m (depth mode))), (0x59, 0)] x"

section \<open>The processor\<close>

abbreviation (input) ROM_VERSION_64K :: u16 where "ROM_VERSION_64K \<equiv> 0x0000"
abbreviation (input) ROM_VERSION_PLUS :: u16 where "ROM_VERSION_PLUS \<equiv> 0x0075"
abbreviation (input) ROM_VERSION_CLASSIC :: u16 where "ROM_VERSION_CLASSIC \<equiv> 0x0276"
abbreviation (input) ROM_VERSION_II :: u16 where "ROM_VERSION_II \<equiv> 0x0178"
abbreviation (input) ROM_VERSION_32 :: u16 where "ROM_VERSION_32 \<equiv> 0x067c"

record cpu_config =
  CPUType :: int
  CPUIs68060 :: bool
  FPUType :: int
  TwentyFourBitAddressing :: bool

text \<open>The Mac ROM, as an argument, starts at \<open>ROMBaseHost\<close>.\<close>

definition rom_version :: "u8 list \<Rightarrow> u16" where
  "rom_version rom = join16 (rom ! 8) (rom ! 9)"

definition CheckROM :: "u8 list \<Rightarrow> bool" where
  "CheckROM rom \<longleftrightarrow> rom_version rom = ROM_VERSION_32"

definition clamp_cpu :: "int \<Rightarrow> int" where
  "clamp_cpu n = (let a = (if n < 2 then 2 else n) in if a > 4 then 4 else a)"

definition pref_cpu :: "prefs \<Rightarrow> bool \<Rightarrow> cpu_config \<Rightarrow> cpu_config" where
  "pref_cpu p addr24 c =
     (let n = clamp_cpu (sint (PrefsFindInt32 ''cpu'' p)); fpu = (if PrefsFindBool ''fpu'' p then 1 else 0)
      in c\<lparr>CPUType := n, FPUType := (if n = 4 then 1 else fpu), TwentyFourBitAddressing := addr24\<rparr>)"

definition set_cpu :: "u16 \<Rightarrow> prefs \<Rightarrow> cpu_config \<Rightarrow> cpu_config" where
  "set_cpu version p c =
     (let c1 = (if version = ROM_VERSION_64K \<or> version = ROM_VERSION_PLUS \<or> version = ROM_VERSION_CLASSIC
                then c\<lparr>CPUType := 0, FPUType := 0, TwentyFourBitAddressing := True\<rparr>
                else if version = ROM_VERSION_II then pref_cpu p True c
                else if version = ROM_VERSION_32 then pref_cpu p False c else c)
      in c1\<lparr>CPUIs68060 := False\<rparr>)"

section \<open>Bringing up the components\<close>

text \<open>The strings a driver's loop over PrefsFindString() sees.\<close>

definition pref_strings :: "string \<Rightarrow> prefs \<Rightarrow> string list" where
  "pref_strings n p = map data_string (values_of p (n, TYPE_STRING))"

lemma pref_strings_loop:
  "PrefsFindString n i p = (if i < length (pref_strings n p) then Some (pref_strings n p ! i) else None)"
  by (simp add: PrefsFindString_values pref_strings_def)

record 'h machine =
  m_rom :: "u8 list"
  m_files :: files
  m_prefs :: prefs
  m_cpu :: cpu_config
  m_xpram :: "u8 list"
  m_sony :: sony_state
  m_disk :: disk_state
  m_cdrom :: cdrom_state
  m_tasks :: "TMDesc list"
  m_adb :: adb_state
  m_monitors :: "monitor_desc list"
  m_alerts :: "int list"
  m_host :: 'h

record 'h startup_env =
  SysAddFloppyPrefs :: "prefs \<Rightarrow> prefs"
  SysAddDiskPrefs :: "prefs \<Rightarrow> prefs"
  SysAddCDROMPrefs :: "prefs \<Rightarrow> prefs"
  device_init :: "prefs \<Rightarrow> 'h \<Rightarrow> 'h"
  late_device_init :: "prefs \<Rightarrow> 'h \<Rightarrow> 'h"
  AudioInit :: "prefs \<Rightarrow> 'h \<Rightarrow> 'h"
  VideoInit :: "bool \<Rightarrow> prefs \<Rightarrow> 'h \<Rightarrow> (bool \<times> monitor_desc list) \<times> 'h"
  Init680x0 :: "cpu_config \<Rightarrow> 'h \<Rightarrow> bool \<times> 'h"
  PatchROM :: "cpu_config \<Rightarrow> u8 list \<Rightarrow> bool \<times> u8 list"
  device_exit :: "'h \<Rightarrow> 'h"

abbreviation (input) STR_UNSUPPORTED_ROM_TYPE_ERR :: int where "STR_UNSUPPORTED_ROM_TYPE_ERR \<equiv> 1007"

definition ErrorAlert :: "int \<Rightarrow> 'h machine \<Rightarrow> 'h machine" where
  "ErrorAlert n M = M\<lparr>m_alerts := m_alerts M @ [n]\<rparr>"

definition with_default :: "string \<Rightarrow> (prefs \<Rightarrow> prefs) \<Rightarrow> prefs \<Rightarrow> prefs" where
  "with_default n add p = (if PrefsFindString n 0 p = None then add p else p)"

text \<open>SonyInit(), DiskInit() and CDROMInit(), with the defaults they add to the preferences.\<close>

definition init_drives ::
  "'h sys \<Rightarrow> 'h startup_env \<Rightarrow> sony_drive_info \<times> disk_drive_info \<times> cdrom_drive_info \<Rightarrow> 'h machine \<Rightarrow> 'h machine" where
  "init_drives S E junk M =
     (let (js, jd, jc) = junk;
          p1 = with_default ''floppy'' (SysAddFloppyPrefs E) (m_prefs M);
          (so, h1) = SonyInit S js (pref_strings ''floppy'' p1) (m_sony M) (m_host M);
          p2 = with_default ''disk'' (SysAddDiskPrefs E) p1;
          (di, h2) = DiskInit S jd (pref_strings ''disk'' p2) (m_disk M) h1;
          p3 = with_default ''cdrom'' (SysAddCDROMPrefs E) p2;
          (cd, h3) = CDROMInit S jc (pref_strings ''cdrom'' p3) (m_cdrom M) h2
      in M\<lparr>m_prefs := p3, m_sony := so, m_disk := di, m_cdrom := cd, m_host := h3\<rparr>)"

text \<open>SCSIInit(), ExtFSInit(), SerialInit() and EtherInit() are \<open>device_init\<close>, ClipInit() is
  \<open>late_device_init\<close>.\<close>

definition init_managers :: "'h startup_env \<Rightarrow> 'h machine \<Rightarrow> 'h machine" where
  "init_managers E M =
     (let p = m_prefs M;
          M1 = M\<lparr>m_host := device_init E p (m_host M), m_tasks := TimerInit (m_tasks M)\<rparr>;
          M2 = M1\<lparr>m_host := late_device_init E p (m_host M1),
                  m_adb := ADBInit (PrefsFindInt32 ''keyboardtype'' p) (m_adb M1)\<rparr>
      in M2\<lparr>m_host := AudioInit E p (m_host M2)\<rparr>)"

text \<open>Video output, CPU and ROM patches. The default mode of the first monitor goes to the XPRAM.\<close>

definition init_video :: "'h startup_env \<Rightarrow> 'h machine \<Rightarrow> bool \<times> 'h machine" where
  "init_video E M =
     (let version = rom_version (m_rom M);
          classic = (version = ROM_VERSION_64K \<or> version = ROM_VERSION_PLUS \<or> version = ROM_VERSION_CLASSIC);
          ((ok, mons), h1) = VideoInit E classic (m_prefs M) (m_host M)
      in (ok, M\<lparr>m_monitors := mons, m_host := h1\<rparr>))"

definition finish_init :: "'h startup_env \<Rightarrow> 'h machine \<Rightarrow> (bool \<times> 'h machine) option" where
  "finish_init E M =
     (case m_monitors M of
        [] \<Rightarrow> None
      | main_monitor # _ \<Rightarrow>
          (case get_current_mode main_monitor of
             None \<Rightarrow> None
           | Some mode \<Rightarrow>
               Some (let M1 = M\<lparr>m_xpram := set_video_mode main_monitor mode (m_xpram M)\<rparr>;
                         (ok, h1) = Init680x0 E (m_cpu M1) (m_host M1); M2 = M1\<lparr>m_host := h1\<rparr>
                     in if \<not> ok then (False, M2)
                        else (let (patched, rom) = PatchROM E (m_cpu M2) (m_rom M2); M3 = M2\<lparr>m_rom := rom\<rparr>
                              in if \<not> patched then (False, ErrorAlert STR_UNSUPPORTED_ROM_TYPE_ERR M3)
                                 else (True, M3)))))"

definition InitAll ::
  "'h sys \<Rightarrow> 'h startup_env \<Rightarrow> sony_drive_info \<times> disk_drive_info \<times> cdrom_drive_info \<Rightarrow> string
    \<Rightarrow> 'h machine \<Rightarrow> (bool \<times> 'h machine) option" where
  "InitAll S E junk path M =
     (if \<not> CheckROM (m_rom M) then Some (False, ErrorAlert STR_UNSUPPORTED_ROM_TYPE_ERR M)
      else
        (let M1 = M\<lparr>m_cpu := set_cpu (rom_version (m_rom M)) (m_prefs M) (m_cpu M)\<rparr>;
             M2 = M1\<lparr>m_xpram := set_boot_volume (m_prefs M1) (check_xpram (XPRAMInit path (m_files M1)))\<rparr>;
             (ok, M3) = init_video E (init_managers E (init_drives S E junk M2))
         in if \<not> ok then Some (False, M3) else finish_init E M3))"

text \<open>The XPRAM is saved first; \<open>device_exit\<close> is everything from VideoExit() to SCSIExit(), and the
  descriptors of the Time Manager and the mutex of ADB need no more.\<close>

definition ExitAll ::
  "'h sys \<Rightarrow> 'h cdsys \<Rightarrow> 'h startup_env \<Rightarrow> (string \<Rightarrow> bool) \<Rightarrow> string \<Rightarrow> 'h machine \<Rightarrow> 'h machine" where
  "ExitAll S C E writable path M =
     (let fs = XPRAMExit writable path (m_xpram M) (m_files M);
          (cd, h1) = CDROMExit S C (m_cdrom M) (device_exit E (m_host M));
          (di, h2) = DiskExit S (m_disk M) h1;
          (so, h3) = SonyExit S (m_sony M) h2
      in M\<lparr>m_files := fs, m_cdrom := cd, m_disk := di, m_sony := so, m_host := h3\<rparr>)"

section \<open>The state after startup\<close>

lemma length_put_all [simp]: "length (put_all ibs x) = length x"
  by (induction ibs arbitrary: x) (auto simp: put_all_def)

lemma put_all_simps [simp]: "put_all [] x = x" "put_all ((i, b) # ibs) x = put_all ibs (x[i := b])"
  by (simp_all add: put_all_def)

lemma put_all_other: "i \<notin> fst ` set ibs \<Longrightarrow> put_all ibs x ! i = x ! i"
  by (induction ibs arbitrary: x) auto

lemma length_LoadXPRAM [simp]: "length x = XPRAM_SIZE \<Longrightarrow> length (LoadXPRAM path fs x) = XPRAM_SIZE"
  by (auto simp: LoadXPRAM_def split: option.splits)

lemma length_XPRAMInit [simp]: "length (XPRAMInit path fs) = XPRAM_SIZE"
  by (simp add: XPRAMInit_def)

lemma check_xpram_ok:
  assumes "length x = XPRAM_SIZE"
  shows "length (check_xpram x) = XPRAM_SIZE" and "xpram_signed (check_xpram x)"
proof -
  show "length (check_xpram x) = XPRAM_SIZE" using assms by (simp add: check_xpram_def)
  have "xpram_signed (put_all xpram_defaults (replicate 0x100 0))"
    by (simp add: xpram_signed_def xpram_defaults_def)
  then show "xpram_signed (check_xpram x)" by (simp add: check_xpram_def)
qed

text \<open>XPRAM saved at exit is what the next start loads.\<close>

lemma XPRAM_saved_loaded:
  assumes "length x = XPRAM_SIZE" and "writable path"
  shows "XPRAMInit path (XPRAMExit writable path x fs) = x"
  using assms by (simp add: XPRAMInit_def XPRAMExit_def LoadXPRAM_def SaveXPRAM_def)

text \<open>The bytes InitAll() sets in any case: the default video mode and the boot volume.\<close>

definition startup_bytes :: "nat set" where
  "startup_bytes = {0x56..0x59} \<union> {0x78..0x7b}"

lemma startup_other:
  assumes "k \<notin> startup_bytes"
  shows "set_video_mode m mode (set_boot_volume p y) ! k = y ! k"
proof -
  have "k \<notin> {0x56, 0x57, 0x58, 0x59, 0x78, 0x79, 0x7a, 0x7b}" using assms by (auto simp: startup_bytes_def)
  then show ?thesis by (simp add: set_video_mode_def set_boot_volume_def Let_def)
qed

lemma InitAll_parts:
  assumes "InitAll S E junk path M = Some (True, M')"
  obtains mons main mode rest where "CheckROM (m_rom M)" "m_monitors M' = mons" "mons = main # rest"
    "get_current_mode main = Some mode"
    "m_cpu M' = set_cpu (rom_version (m_rom M)) (m_prefs M) (m_cpu M)"
    "m_xpram M' = set_video_mode main mode (set_boot_volume (m_prefs M) (check_xpram (XPRAMInit path (m_files M))))"
    "m_files M' = m_files M"
proof -
  let ?M2 = "M\<lparr>m_cpu := set_cpu (rom_version (m_rom M)) (m_prefs M) (m_cpu M),
     m_xpram := set_boot_volume (m_prefs M) (check_xpram (XPRAMInit path (m_files M)))\<rparr>"
  have keep: "m_cpu (init_managers E (init_drives S E junk N)) = m_cpu N"
      "m_xpram (init_managers E (init_drives S E junk N)) = m_xpram N"
      "m_files (init_managers E (init_drives S E junk N)) = m_files N" for N
    by (simp_all add: init_managers_def init_drives_def Let_def split: prod.splits)
  obtain ok M3 where v: "init_video E (init_managers E (init_drives S E junk ?M2)) = (ok, M3)" by force
  have M3: "m_cpu M3 = m_cpu ?M2" "m_xpram M3 = m_xpram ?M2" "m_files M3 = m_files ?M2"
    using v keep [of ?M2] by (auto simp: init_video_def Let_def split: prod.splits)
  have rom: "CheckROM (m_rom M)" and fin: "finish_init E M3 = Some (True, M')"
    using assms v by (auto simp: InitAll_def Let_def split: if_splits)
  then obtain main rest mode where "m_monitors M3 = main # rest" "get_current_mode main = Some mode"
    by (auto simp: finish_init_def split: list.splits option.splits)
  then show thesis
    using that rom fin M3 by (auto simp: finish_init_def Let_def split: prod.splits if_splits)
qed

text \<open>What a successful start leaves. If InitAll() returns true, the ROM is a 32-bit clean one, the
  processor is a 68020, 68030 or 68040 without 24-bit addressing and the 68040 has its FPU; the
  XPRAM has its 256 bytes and carries the "NuMc" signature, whatever the settings file was; it
  names the boot drive and driver of the preferences and, as the default video mode, the Apple
  mode that the first monitor shows; and all other bytes are those of the settings file if that
  one was signed.\<close>

theorem InitAll_result:
  assumes i: "InitAll S E junk path M = Some (True, M')"
  shows "let c = m_cpu M'; x = m_xpram M'; file = XPRAMInit path (m_files M) in
     rom_version (m_rom M) = ROM_VERSION_32
     \<and> CPUType c \<in> {2, 3, 4} \<and> FPUType c \<in> {0, 1} \<and> (CPUType c = 4 \<longrightarrow> FPUType c = 1)
     \<and> \<not> CPUIs68060 c \<and> \<not> TwentyFourBitAddressing c
     \<and> length x = 256 \<and> xpram_signed x
     \<and> join16 (x ! 0x78) (x ! 0x79) = ucast (PrefsFindInt32 ''bootdrive'' (m_prefs M))
     \<and> join16 (x ! 0x7a) (x ! 0x7b) = ucast (PrefsFindInt32 ''bootdriver'' (m_prefs M))
     \<and> (\<exists>main rest mode. m_monitors M' = main # rest \<and> get_current_mode main = Some mode
          \<and> map (\<lambda>k. x ! k) [0x56, 0x57, 0x58, 0x59] = [0x42, 0x32, ucast (depth_to_apple_mode main (depth mode)), 0])
     \<and> (xpram_signed file \<longrightarrow> (\<forall>k < 256. k \<notin> startup_bytes \<longrightarrow> x ! k = file ! k))"
proof -
  obtain mons main mode rest where p: "CheckROM (m_rom M)" "m_monitors M' = mons" "mons = main # rest"
    "get_current_mode main = Some mode"
    "m_cpu M' = set_cpu (rom_version (m_rom M)) (m_prefs M) (m_cpu M)"
    "m_xpram M' = set_video_mode main mode (set_boot_volume (m_prefs M) (check_xpram (XPRAMInit path (m_files M))))"
    by (rule InitAll_parts [OF i]) auto
  define y where "y = check_xpram (XPRAMInit path (m_files M))"
  have y: "length y = 256" "xpram_signed y" unfolding y_def by (simp_all add: check_xpram_ok)
  have version: "rom_version (m_rom M) = ROM_VERSION_32" using p(1) by (simp add: CheckROM_def)
  have cpu: "CPUType (m_cpu M') \<in> {2, 3, 4}" "FPUType (m_cpu M') \<in> {0, 1}" "CPUType (m_cpu M') = 4 \<longrightarrow> FPUType (m_cpu M') = 1"
      "\<not> CPUIs68060 (m_cpu M')" "\<not> TwentyFourBitAddressing (m_cpu M')"
    unfolding p(5) version by (auto simp: set_cpu_def pref_cpu_def clamp_cpu_def Let_def)
  have x: "m_xpram M' = set_video_mode main mode (set_boot_volume (m_prefs M) y)" by (simp add: p(6) y_def)
  have len: "length (m_xpram M') = 256" by (simp add: x y set_video_mode_def set_boot_volume_def Let_def)
  have other: "m_xpram M' ! k = y ! k" if "k \<notin> startup_bytes" for k
    unfolding x using that by (rule startup_other)
  have sig: "xpram_signed (m_xpram M')"
    using y(2) by (simp add: xpram_signed_def other startup_bytes_def)
  have boot: "join16 (m_xpram M' ! 0x78) (m_xpram M' ! 0x79) = ucast (PrefsFindInt32 ''bootdrive'' (m_prefs M))"
      "join16 (m_xpram M' ! 0x7a) (m_xpram M' ! 0x7b) = ucast (PrefsFindInt32 ''bootdriver'' (m_prefs M))"
    by (simp_all add: x y set_video_mode_def set_boot_volume_def Let_def)
  have vid: "map (\<lambda>k. m_xpram M' ! k) [0x56, 0x57, 0x58, 0x59] = [0x42, 0x32, ucast (depth_to_apple_mode main (depth mode)), 0]"
    by (simp add: x y set_video_mode_def set_boot_volume_def Let_def)
  have loaded: "xpram_signed (XPRAMInit path (m_files M)) \<longrightarrow> (\<forall>k < 256. k \<notin> startup_bytes \<longrightarrow>
      m_xpram M' ! k = XPRAMInit path (m_files M) ! k)"
    using other by (simp add: y_def check_xpram_def)
  have mon: "\<exists>main rest mode. m_monitors M' = main # rest \<and> get_current_mode main = Some mode
      \<and> map (\<lambda>k. m_xpram M' ! k) [0x56, 0x57, 0x58, 0x59] = [0x42, 0x32, ucast (depth_to_apple_mode main (depth mode)), 0]"
    using vid p(2,4) unfolding p(3)
    by (intro exI [of _ main] exI [of _ rest] exI [of _ mode] conjI)
  show ?thesis
    unfolding Let_def using version cpu len sig boot mon loaded by (intro conjI)
qed

text \<open>C37. The XPRAM survives. Whatever signed contents a session leaves in the XPRAM, if the settings
  file can be written at exit, then the next successful start with the same settings file has
  these contents again, but for the bytes of the default video mode and of the boot volume.\<close>

theorem XPRAM_survives_restart:
  assumes x: "length (m_xpram M) = 256" "xpram_signed (m_xpram M)" and w: "writable path"
    and fs: "m_files N = m_files (ExitAll S C E writable path M)"
    and i: "InitAll S E junk path N = Some (True, N')"
    and k: "k < 256" "k \<notin> startup_bytes"
  shows "m_xpram N' ! k = m_xpram M ! k"
proof -
  have "m_files N = XPRAMExit writable path (m_xpram M) (m_files M)"
    by (simp add: fs ExitAll_def Let_def split: prod.splits)
  then have "XPRAMInit path (m_files N) = m_xpram M" using XPRAM_saved_loaded [of "m_xpram M" writable path] x(1) w by simp
  then have y: "check_xpram (XPRAMInit path (m_files N)) = m_xpram M" using x(2) by (simp add: check_xpram_def)
  obtain mons main mode rest where
    "m_xpram N' = set_video_mode main mode (set_boot_volume (m_prefs N) (m_xpram M))"
    by (rule InitAll_parts [OF i, unfolded y]) auto
  then show ?thesis using startup_other [OF k(2)] by simp
qed

definition demo_startup :: "'h startup_env" where
  "demo_startup = \<lparr>SysAddFloppyPrefs = (\<lambda>p. p), SysAddDiskPrefs = (\<lambda>p. p), SysAddCDROMPrefs = (\<lambda>p. p),
     device_init = (\<lambda>p h. h), late_device_init = (\<lambda>p h. h), AudioInit = (\<lambda>p h. h),
     VideoInit = (\<lambda>c p h. ((True, [demo_monitor]), h)), Init680x0 = (\<lambda>c h. (True, h)),
     PatchROM = (\<lambda>c rom. (True, rom)), device_exit = (\<lambda>h. h)\<rparr>"

definition demo_machine :: "'h \<Rightarrow> files \<Rightarrow> 'h machine" where
  "demo_machine h fs = \<lparr>m_rom = [0, 0, 0, 0, 0, 0, 0, 0, 0x06, 0x7c], m_files = fs, m_prefs = [],
     m_cpu = \<lparr>CPUType = 0, CPUIs68060 = True, FPUType = 0, TwentyFourBitAddressing = True\<rparr>,
     m_xpram = put_all xpram_defaults (replicate 0x100 0),
     m_sony = \<lparr>sony_drives = [], SonyDiskIconAddr = 0, SonyDriveIconAddr = 0, sony_acc_run_called = False\<rparr>,
     m_disk = \<lparr>drives = [], DiskIconAddr = 0, acc_run_called = False\<rparr>,
     m_cdrom = \<lparr>cdrom_drives = [], CDROMIconAddr = 0, cdrom_acc_run_called = False\<rparr>,
     m_tasks = replicate 64 \<lparr>task = 0, wakeup = \<lparr>tv_sec = 0, tv_nsec = 0\<rparr>, in_use = False\<rparr>, m_adb = adb_start, m_monitors = [],
     m_alerts = [], m_host = h\<rparr>"

definition demo_junk :: "sony_drive_info \<times> disk_drive_info \<times> cdrom_drive_info" where
  "demo_junk = (hd (sony_drives demo_floppy), demo_drive, demo_cd_drive)"

lemma demo_InitAll:
  "\<exists>M'. InitAll S demo_startup junk path (demo_machine h fs) = Some (True, M')"
proof -
  have rom: "rom_version (m_rom (init_managers demo_startup (init_drives S demo_startup junk N))) = rom_version (m_rom N)"
    for N by (simp add: init_managers_def init_drives_def Let_def split: prod.splits)
  have "CheckROM (m_rom (demo_machine h fs))"
    by (simp add: CheckROM_def rom_version_def demo_machine_def join16_def)
  then show ?thesis
    by (auto simp: InitAll_def Let_def init_video_def finish_init_def demo_startup_def demo_monitor_mode)
qed

theorem InitAll_result_witness:
  "\<exists>M'. InitAll ram_disk demo_startup demo_junk ''x'' (demo_machine (\<lambda>_. 0) (\<lambda>_. None)) = Some (True, M')
     \<and> CPUType (m_cpu M') \<in> {2, 3, 4} \<and> xpram_signed (m_xpram M')"
proof -
  obtain M' where "InitAll ram_disk demo_startup demo_junk ''x'' (demo_machine (\<lambda>_. 0) (\<lambda>_. None)) = Some (True, M')"
    using demo_InitAll [of ram_disk demo_junk "''x''" "\<lambda>_. 0" "\<lambda>_. None"] by (elim exE)
  with InitAll_result [OF this] show ?thesis unfolding Let_def by blast
qed

theorem XPRAM_survives_restart_witness:
  "\<exists>N'. InitAll ram_disk demo_startup demo_junk ''x''
       (demo_machine (\<lambda>_. 0) (m_files (ExitAll ram_disk demo_cdsys demo_startup (\<lambda>_. True) ''x'' (demo_machine (\<lambda>_. 0) (\<lambda>_. None)))))
         = Some (True, N')
     \<and> m_xpram N' ! 0x13 = 0x22"
proof -
  let ?M = "demo_machine ((\<lambda>_. 0) :: u64 \<Rightarrow> u8) (\<lambda>_. None)"
  let ?fs = "m_files (ExitAll ram_disk demo_cdsys demo_startup (\<lambda>_. True) ''x'' ?M)"
  have x: "m_xpram ?M = put_all xpram_defaults (replicate 0x100 0)" by (simp add: demo_machine_def)
  have ok: "length (m_xpram ?M) = 256" "xpram_signed (m_xpram ?M)"
    unfolding x by (simp_all add: xpram_signed_def xpram_defaults_def)
  obtain N' where N': "InitAll ram_disk demo_startup demo_junk ''x'' (demo_machine (\<lambda>_. 0) ?fs) = Some (True, N')"
    using demo_InitAll [of ram_disk demo_junk "''x''" "\<lambda>_. 0" ?fs] by (elim exE)
  have fs: "m_files (demo_machine (\<lambda>_. 0) ?fs) = ?fs" by (simp add: demo_machine_def)
  have "m_xpram N' ! 0x13 = m_xpram ?M ! 0x13"
    using XPRAM_survives_restart [where writable = "\<lambda>_. True" and path = "''x''", OF ok _ fs N', where k = "0x13"]
    by (simp add: startup_bytes_def)
  also have "\<dots> = 0x22" unfolding x by (simp add: xpram_defaults_def)
  finally show ?thesis using N' by blast
qed

end
