(* ===== verification/Ether.thy ===== *)
theory Ether
  imports MacosUtil Prefs
begin

text \<open>
  "ether.cpp": the Ethernet driver .ENET, its ReadPacket routine and the copy of a write data
  structure to a buffer ("ether.h"). UDP tunnelling is switched off at the head of the file, so
  \<open>udp_tunnel\<close> is never set, but Control() still tests it. What the platform provides is the record
  \<open>ether_sys\<close>; its state \<open>plat\<close> is kept beside the variables of the driver. \<open>None\<close> stands for a host
  buffer that is overrun.
\<close>

abbreviation (input) ed_DeferredTask :: u32 where "ed_DeferredTask \<equiv> 0"
abbreviation (input) ed_Code :: u32 where "ed_Code \<equiv> 20"
abbreviation (input) ed_Result :: u32 where "ed_Result \<equiv> 30"
abbreviation (input) ed_DCE :: u32 where "ed_DCE \<equiv> 34"
abbreviation (input) ed_RHA :: u32 where "ed_RHA \<equiv> 38"
abbreviation (input) ed_ReadPacket :: u32 where "ed_ReadPacket \<equiv> 52"
abbreviation (input) SIZEOF_etherdata :: u32 where "SIZEOF_etherdata \<equiv> 76"
abbreviation (input) M68K_EMUL_OP_ETHER_READ_PACKET :: u16 where "M68K_EMUL_OP_ETHER_READ_PACKET \<equiv> 0x7122"

abbreviation (input) eMultiErr :: u16 where "eMultiErr \<equiv> -91"
abbreviation (input) eLenErr :: u16 where "eLenErr \<equiv> -92"
abbreviation (input) lapProtErr :: u16 where "lapProtErr \<equiv> -94"
abbreviation (input) excessCollsns :: u16 where "excessCollsns \<equiv> -95"

abbreviation (input) kENetSetGeneral :: u16 where "kENetSetGeneral \<equiv> 253"
abbreviation (input) kENetGetInfo :: u16 where "kENetGetInfo \<equiv> 252"
abbreviation (input) kENetWrite :: u16 where "kENetWrite \<equiv> 249"
abbreviation (input) kENetDetachPH :: u16 where "kENetDetachPH \<equiv> 248"
abbreviation (input) kENetAttachPH :: u16 where "kENetAttachPH \<equiv> 247"
abbreviation (input) kENetAddMulti :: u16 where "kENetAddMulti \<equiv> 246"
abbreviation (input) kENetDelMulti :: u16 where "kENetDelMulti \<equiv> 245"

abbreviation (input) eProtType :: u32 where "eProtType \<equiv> 28"
abbreviation (input) ePointer :: u32 where "ePointer \<equiv> 30"
abbreviation (input) eBuffSize :: u32 where "eBuffSize \<equiv> 34"
abbreviation (input) eDataSize :: u32 where "eDataSize \<equiv> 36"

record 'p ether_vars =
  net_open :: bool
  udp_tunnel :: bool
  udp_protocols :: "u16 \<rightharpoonup> u32"
  ether_data :: u32
  ethernet_monitor :: bool
  ether_addr :: "u8 list"
  plat :: 'p

type_synonym ('p, 'h) eth = "'p ether_vars \<times> 'h mac"

text \<open>The platform: the functions may change its state, Mac memory and the host; ether_init() also
  sets the Ethernet address. A \<open>None\<close> is a buffer overrun in the host.\<close>

record ('p, 'h) ether_sys =
  ether_init :: "prefs \<Rightarrow> u8 list \<times> 'p \<times> 'h mac \<Rightarrow> (bool \<times> u8 list \<times> 'p \<times> 'h mac) option"
  ether_exit :: "'p \<times> 'h mac \<Rightarrow> 'p \<times> 'h mac"
  ether_reset :: "'p \<times> 'h mac \<Rightarrow> 'p \<times> 'h mac"
  ether_add_multicast :: "u32 \<Rightarrow> 'p \<times> 'h mac \<Rightarrow> u16 \<times> 'p \<times> 'h mac"
  ether_del_multicast :: "u32 \<Rightarrow> 'p \<times> 'h mac \<Rightarrow> u16 \<times> 'p \<times> 'h mac"
  ether_attach_ph :: "u16 \<Rightarrow> u32 \<Rightarrow> 'p \<times> 'h mac \<Rightarrow> u16 \<times> 'p \<times> 'h mac"
  ether_detach_ph :: "u16 \<Rightarrow> 'p \<times> 'h mac \<Rightarrow> u16 \<times> 'p \<times> 'h mac"
  ether_write :: "u32 \<Rightarrow> 'p \<times> 'h mac \<Rightarrow> (u16 \<times> 'p \<times> 'h mac) option"

section \<open>Initialization\<close>

definition EtherInit :: "('p, 'h) ether_sys \<Rightarrow> prefs \<Rightarrow> ('p, 'h) eth \<Rightarrow> ('p, 'h) eth option" where
  "EtherInit P prefs es =
     (let (v, s) = es; v1 = v\<lparr>net_open := False, udp_tunnel := False\<rparr> in
      case ether_init P prefs (ether_addr v1, plat v1, s) of
        None \<Rightarrow> None
      | Some (ok, addr, p, s1) \<Rightarrow>
          Some (v1\<lparr>net_open := ok, ether_addr := addr, plat := p\<rparr>, s1))"

definition EtherExit :: "('p, 'h) ether_sys \<Rightarrow> ('p, 'h) eth \<Rightarrow> ('p, 'h) eth" where
  "EtherExit P es =
     (let (v, s) = es in
      if net_open v then let (p, s1) = ether_exit P (plat v, s) in (v\<lparr>net_open := False, plat := p\<rparr>, s1)
      else es)"

definition EtherReset :: "('p, 'h) ether_sys \<Rightarrow> ('p, 'h) eth \<Rightarrow> ('p, 'h) eth" where
  "EtherReset P es =
     (let (v, s) = es; (p, s1) = ether_reset P (plat v, s)
      in (v\<lparr>udp_protocols := Map.empty, plat := p\<rparr>, s1))"

section \<open>Write data structures\<close>

text \<open>A write data structure is a list of blocks: a 16-bit length and a pointer each, ended by the
  length 0. The copy stops when 1514 bytes have been reached; the last block is copied whole.\<close>

function wds_copy :: "'h mac \<Rightarrow> u32 \<Rightarrow> u8 list \<Rightarrow> u8 list" where
  "wds_copy s wds acc =
     (if length acc < 1514 then
        let w = unat (get16 s wds) in
        if w = 0 then acc
        else wds_copy s (wds + 6) (acc @ get_bytes s (get32 s (wds + 2)) w)
      else acc)"
  by pat_completeness auto
termination
  by (relation "measure (\<lambda>(s, wds, acc). 1514 - length acc)") (auto simp: get_bytes_def)

declare wds_copy.simps [simp del]

text \<open>The buffer of the caller holds \<open>cap\<close> bytes.\<close>

definition ether_wds_to_buffer :: "nat \<Rightarrow> u32 \<Rightarrow> 'h mac \<Rightarrow> u8 list option" where
  "ether_wds_to_buffer cap wds s =
     (let packet = wds_copy s wds [] in if length packet \<le> cap then Some packet else None)"

section \<open>Driver routines\<close>

text \<open>The deferred task and the ReadPacket/ReadRest routines in the driver's data.\<close>

definition put_ether_task :: "u32 \<Rightarrow> 'h mac \<Rightarrow> 'h mac" where
  "put_ether_task d s =
     put16 (d + ed_Code + 8) 0x4ed0 (put32 (d + ed_Code + 4) 0x207808fc
       (put16 (d + ed_Code + 2) 0x2251 (put16 (d + ed_Code) 0x2019
         (put32 (d + ed_DeferredTask + dtParam) (d + ed_Result)
           (put32 (d + ed_DeferredTask + dtAddr) (d + ed_Code)
             (put16 (d + ed_DeferredTask + qType) dtQType s))))))"

definition put_read_packet :: "u32 \<Rightarrow> 'h mac \<Rightarrow> 'h mac" where
  "put_read_packet d s =
     put16 (d + ed_ReadPacket + 22) 0x4e75 (put16 (d + ed_ReadPacket + 20) 0x4a43
       (put16 (d + ed_ReadPacket + 18) M68K_EMUL_OP_ETHER_READ_PACKET
         (put16 (d + ed_ReadPacket + 16) 0x4e75 (put16 (d + ed_ReadPacket + 14) 0x7000
           (put16 (d + ed_ReadPacket + 12) 0x3600
             (put16 (d + ed_ReadPacket + 10) M68K_EMUL_OP_ETHER_READ_PACKET
               (put16 (d + ed_ReadPacket + 8) 0x6702 (put16 (d + ed_ReadPacket + 6) 0x4a43
                 (put16 (d + ed_ReadPacket + 4) 0x9041 (put16 (d + ed_ReadPacket + 2) 0x3003
                   (put16 (d + ed_ReadPacket) 0x6010 s)))))))))))"

definition EtherOpen ::
  "'h env68k \<Rightarrow> prefs \<Rightarrow> u32 \<Rightarrow> u32 \<Rightarrow> ('p, 'h) eth \<Rightarrow> u16 \<times> ('p, 'h) eth" where
  "EtherOpen E prefs pb dce es =
     (let (v, s) = es;
          v1 = v\<lparr>ethernet_monitor := PrefsFindBool ''ethernet_monitor'' prefs\<rparr>;
          (r, s1) = Execute68kTrap E 0xa71e (set_d 0 SIZEOF_etherdata (stack_junk E)) s;
          d = areg r 0
      in if d = 0 then (openErr, v1, s1)
         else (noErr, v1\<lparr>ether_data := d\<rparr>, put_read_packet d (put32 (d + ed_DCE) dce (put_ether_task d s1))))"

text \<open>The cases of Control() that do more than pass the call on.\<close>

definition attach_handler :: "('p, 'h) ether_sys \<Rightarrow> u16 \<Rightarrow> u32 \<Rightarrow> ('p, 'h) eth \<Rightarrow> u16 \<times> ('p, 'h) eth" where
  "attach_handler P ty handler es =
     (let (v, s) = es in
      if net_open v then
        if udp_tunnel v then
          if udp_protocols v ty \<noteq> None then (lapProtErr, es)
          else (noErr, v\<lparr>udp_protocols := (udp_protocols v)(ty \<mapsto> handler)\<rparr>, s)
        else let (r, p, s1) = ether_attach_ph P ty handler (plat v, s) in (r, v\<lparr>plat := p\<rparr>, s1)
      else (noErr, es))"

definition detach_handler :: "('p, 'h) ether_sys \<Rightarrow> u16 \<Rightarrow> ('p, 'h) eth \<Rightarrow> u16 \<times> ('p, 'h) eth" where
  "detach_handler P ty es =
     (let (v, s) = es in
      if net_open v then
        if udp_tunnel v then
          if udp_protocols v ty = None then (lapProtErr, es)
          else (noErr, v\<lparr>udp_protocols := (udp_protocols v)(ty := None)\<rparr>, s)
        else let (r, p, s1) = ether_detach_ph P ty (plat v, s) in (r, v\<lparr>plat := p\<rparr>, s1)
      else (noErr, es))"

definition write_packet :: "('p, 'h) ether_sys \<Rightarrow> u32 \<Rightarrow> ('p, 'h) eth \<Rightarrow> (u16 \<times> ('p, 'h) eth) option" where
  "write_packet P wds es =
     (let (v, s) = es in
      if get16 s wds < 14 then Some (eLenErr, es)
      else
        let s1 = put_bytes (get32 s (wds + 2) + 6) (ether_addr v) s in
        if net_open v then
          if ethernet_monitor v \<and> ether_wds_to_buffer 1514 wds s1 = None then None
          else case ether_write P wds (plat v, s1) of
                 None \<Rightarrow> None
               | Some (r, p, s2) \<Rightarrow> Some (r, v\<lparr>plat := p\<rparr>, s2)
        else Some (noErr, v, s1))"

text \<open>A negative buffer size becomes a huge count for memcpy().\<close>

definition get_ether_info :: "u32 \<Rightarrow> ('p, 'h) eth \<Rightarrow> (u16 \<times> ('p, 'h) eth) option" where
  "get_ether_info pb es =
     (let (v, s) = es;
          buf = ether_addr v @ replicate 12 0;
          sz = sint (get16 s (pb + eBuffSize));
          sz1 = (if sz > 18 then 18 else sz);
          s1 = put16 (pb + eDataSize) (word_of_int sz1) s
      in if sz1 < 0 then None
         else Some (noErr, v, put_bytes (get32 s1 (pb + ePointer)) (take (nat sz1) buf) s1))"

definition EtherControl ::
  "('p, 'h) ether_sys \<Rightarrow> u32 \<Rightarrow> u32 \<Rightarrow> ('p, 'h) eth \<Rightarrow> (u16 \<times> ('p, 'h) eth) option" where
  "EtherControl P pb dce es =
     (let (v, s) = es; code = get16 s (pb + csCode); direct = (net_open v \<and> \<not> udp_tunnel v) in
      if code = 1 then Some (-1, es)
      else if code = kENetAddMulti then
        (if direct then let (r, p, s1) = ether_add_multicast P pb (plat v, s) in Some (r, v\<lparr>plat := p\<rparr>, s1)
         else Some (noErr, es))
      else if code = kENetDelMulti then
        (if direct then let (r, p, s1) = ether_del_multicast P pb (plat v, s) in Some (r, v\<lparr>plat := p\<rparr>, s1)
         else Some (noErr, es))
      else if code = kENetAttachPH then
        Some (attach_handler P (get16 s (pb + eProtType)) (get32 s (pb + ePointer)) es)
      else if code = kENetDetachPH then Some (detach_handler P (get16 s (pb + eProtType)) es)
      else if code = kENetWrite then write_packet P (get32 s (pb + ePointer)) es
      else if code = kENetGetInfo then get_ether_info pb es
      else if code = kENetSetGeneral then Some (noErr, es)
      else Some (controlErr, es))"

text \<open>ReadPacket copies the next bytes of the packet: source, destination, length wanted and length
  remaining are registers of the caller.\<close>

definition EtherReadPacket ::
  "u32 \<times> u32 \<times> u32 \<times> u32 \<Rightarrow> 'h mac \<Rightarrow> (u32 \<times> u32 \<times> u32 \<times> u32) \<times> 'h mac" where
  "EtherReadPacket regs s =
     (let (src, dest, len, remaining) = regs;
          todo = (if len > remaining then remaining else len)
      in ((src + todo, dest + todo, len - todo, remaining - todo),
          put_bytes dest (get_bytes s src (unat todo)) s))"

section \<open>Packets\<close>

text \<open>A write data structure at an address, as its list of blocks.\<close>

fun wds_blocks :: "'h mac \<Rightarrow> u32 \<Rightarrow> (u32 \<times> nat) list \<Rightarrow> bool" where
  "wds_blocks s wds [] \<longleftrightarrow> get16 s wds = 0"
| "wds_blocks s wds ((a, n) # bs) \<longleftrightarrow>
     n \<noteq> 0 \<and> unat (get16 s wds) = n \<and> get32 s (wds + 2) = a \<and> wds_blocks s (wds + 6) bs"

definition wds_bytes :: "'h mac \<Rightarrow> (u32 \<times> nat) list \<Rightarrow> u8 list" where
  "wds_bytes s bs = concat (map (\<lambda>(a, n). get_bytes s a n) bs)"

lemma wds_bytes_simps [simp]:
  "wds_bytes s [] = []" "wds_bytes s ((a, n) # bs) = get_bytes s a n @ wds_bytes s bs"
  by (simp_all add: wds_bytes_def)

lemma length_wds_bytes: "length (wds_bytes s bs) = sum_list (map snd bs)"
  by (induction bs) auto

lemma wds_copy_blocks:
  "wds_blocks s wds bs \<Longrightarrow> bs \<noteq> [] \<Longrightarrow> length acc + sum_list (map snd (butlast bs)) < 1514 \<Longrightarrow>
     wds_copy s wds acc = acc @ wds_bytes s bs"
proof (induction bs arbitrary: wds acc)
  case Nil
  then show ?case by simp
next
  case (Cons b bs)
  obtain a n where b: "b = (a, n)" by force
  have step: "wds_copy s wds acc = wds_copy s (wds + 6) (acc @ get_bytes s a n)"
    using Cons.prems b by (subst wds_copy.simps) (auto simp: Let_def)
  show ?case
  proof (cases "bs = []")
    case True
    have "wds_copy s (wds + 6) (acc @ get_bytes s a n) = acc @ get_bytes s a n"
      using Cons.prems b True by (subst wds_copy.simps) auto
    then show ?thesis using step b True by simp
  next
    case False
    then have "wds_copy s (wds + 6) (acc @ get_bytes s a n) = (acc @ get_bytes s a n) @ wds_bytes s bs"
      using Cons.prems b by (intro Cons.IH) auto
    then show ?thesis using step b by simp
  qed
qed

lemma wds_copy_empty: "get16 s wds = 0 \<Longrightarrow> wds_copy s wds acc = acc"
  by (subst wds_copy.simps) simp

lemma sum_butlast_less: "\<forall>b \<in> set bs. snd b \<noteq> (0 :: nat) \<Longrightarrow> bs \<noteq> [] \<Longrightarrow>
    sum_list (map snd (butlast bs)) < sum_list (map snd bs)"
  by (induction bs) auto

lemma wds_blocks_nz: "wds_blocks s wds bs \<Longrightarrow> \<forall>b \<in> set bs. snd b \<noteq> 0"
  by (induction bs arbitrary: wds) fastforce+

lemma wds_copy_short:
  assumes "wds_blocks s wds bs" and "sum_list (map snd bs) \<le> 1514"
  shows "wds_copy s wds [] = wds_bytes s bs"
proof (cases "bs = []")
  case True
  then show ?thesis using assms by (simp add: wds_copy_empty)
next
  case False
  then show ?thesis
    using wds_copy_blocks [of s wds bs "[]"] sum_butlast_less [OF wds_blocks_nz [OF assms(1)]] assms by simp
qed

text \<open>Gathering a packet is exact and safe up to the size of an Ethernet frame. For a write data
  structure with the blocks \<open>bs\<close>, a buffer of 1514 bytes or more receives exactly the blocks one
  after the other when they add up to at most 1514 bytes; and when the blocks before the last are
  below 1514 bytes, the copy overruns a buffer exactly when the blocks together exceed it, because
  the length of the last block is not checked.\<close>

theorem ether_wds_to_buffer_blocks:
  assumes b: "wds_blocks s wds bs" and cap: "1514 \<le> cap"
  shows "(sum_list (map snd bs) \<le> 1514 \<longrightarrow> ether_wds_to_buffer cap wds s = Some (wds_bytes s bs))
     \<and> (sum_list (map snd (butlast bs)) < 1514 \<longrightarrow>
           (ether_wds_to_buffer cap wds s = None \<longleftrightarrow> cap < sum_list (map snd bs)))"
proof (intro conjI impI)
  show "ether_wds_to_buffer cap wds s = Some (wds_bytes s bs)" if "sum_list (map snd bs) \<le> 1514"
    using wds_copy_short [OF b that] that cap by (simp add: ether_wds_to_buffer_def length_wds_bytes)
  assume l: "sum_list (map snd (butlast bs)) < 1514"
  have "wds_copy s wds [] = wds_bytes s bs"
  proof (cases "bs = []")
    case False
    then show ?thesis using wds_copy_blocks [OF b, of "[]"] l by simp
  qed (use b in \<open>simp add: wds_copy_empty\<close>)
  then show "ether_wds_to_buffer cap wds s = None \<longleftrightarrow> cap < sum_list (map snd bs)"
    by (auto simp: ether_wds_to_buffer_def length_wds_bytes)
qed

text \<open>The table and the blocks of a packet after a write elsewhere.\<close>

lemma wds_blocks_put_bytes:
  "wds_blocks s wds bs \<Longrightarrow> sep wds (6 * length bs + 2) x (length cs) \<Longrightarrow> length cs \<le> 2 ^ 32 \<Longrightarrow> cs \<noteq> [] \<Longrightarrow>
     wds_blocks (put_bytes x cs s) wds bs"
proof (induction bs arbitrary: wds)
  case Nil
  then show ?case using get_put_bytes_word(1) [of cs wds x s] by (simp add: numeral_2_eq_2)
next
  case (Cons b bs)
  obtain a n where b: "b = (a, n)" by force
  have u: "unat (2 :: u32) = 2" "unat (6 :: u32) = 6" by simp_all
  have l: "0 < length cs" using Cons.prems by simp
  note sp = Cons.prems(2)
  have s1: "sep wds 2 x (length cs)" using sep_sub_left [OF sp, of 0 2] l by simp
  have s2: "sep (wds + 2) 4 x (length cs)" using sep_sub_left [OF sp, of 2 4] l u by simp
  have s3: "sep (wds + 6) (6 * length bs + 2) x (length cs)"
    using sep_sub_left [OF sp, of 6 "6 * length bs + 2"] l u by simp
  show ?case
    using Cons.prems b s1 s2 Cons.IH [OF _ s3] by (simp add: get_put_bytes_word)
qed

lemma wds_bytes_put_bytes:
  assumes "\<forall>(a, n) \<in> set bs. sep a n x (length cs) \<and> n \<le> 2 ^ 32" and "length cs \<le> 2 ^ 32"
  shows "wds_bytes (put_bytes x cs s) bs = wds_bytes s bs"
  using assms by (induction bs) (auto simp: get_put_bytes_apart)

text \<open>Stamping the source address into the header of a packet.\<close>

lemma stamp_header:
  assumes "length addr = 6" and "14 \<le> n" and "n < 2 ^ 16"
  shows "get_bytes (put_bytes (hdr + 6) addr s) hdr n =
     get_bytes s hdr 6 @ addr @ get_bytes s (hdr + 12) (n - 12)"
proof -
  let ?t = "put_bytes (hdr + 6) addr s"
  have n: "n = 6 + (6 + (n - 12))" using assms by simp
  have "get_bytes ?t hdr n = get_bytes ?t hdr 6 @ get_bytes ?t (hdr + 6) 6 @ get_bytes ?t (hdr + 12) (n - 12)"
    by (subst n) (simp only: get_bytes_split, simp add: add.assoc)
  moreover have "get_bytes ?t hdr 6 = get_bytes s hdr 6"
    using assms by (intro get_put_bytes_apart) (simp_all add: sep_def)
  moreover have "get_bytes ?t (hdr + 12) (n - 12) = get_bytes s (hdr + 12) (n - 12)"
    using assms by (intro get_put_bytes_apart) (simp_all add: sep_def)
  moreover have "get_bytes ?t (hdr + 6) 6 = addr"
    using get_put_bytes [of addr "hdr + 6" s] assms by simp
  ultimately show ?thesis by simp
qed

section \<open>Reading a packet in parts\<close>

text \<open>A protocol handler calls ReadPacket several times, each time with a length of its own.\<close>

fun read_packets :: "u32 list \<Rightarrow> u32 \<times> u32 \<times> u32 \<Rightarrow> 'h mac \<Rightarrow> (u32 \<times> u32 \<times> u32) \<times> 'h mac" where
  "read_packets [] regs s = (regs, s)"
| "read_packets (len # lens) (src, dest, remaining) s =
     (case EtherReadPacket (src, dest, len, remaining) s of
        ((src1, dest1, len1, remaining1), s1) \<Rightarrow> read_packets lens (src1, dest1, remaining1) s1)"

lemma sep_zero [simp]: "sep a 0 b 0"
  by (simp add: sep_def)

lemma sep_rest:
  assumes "sep a n b n" and "unat k \<le> n"
  shows "sep (a + k) (n - unat k) (b + k) (n - unat k)"
proof (cases "unat k = n")
  case False
  then show ?thesis using assms by (intro sep_sub [OF assms(1)]) auto
qed simp

lemma get_bytes_put_rest:
  assumes "sep a n b n" and "unat k + m \<le> n" and "n \<le> 2 ^ 32"
  shows "get_bytes (put_bytes b (get_bytes s a (unat k)) s) (a + k) m = get_bytes s (a + k) m"
proof (cases "m = 0 \<or> unat k = 0")
  case False
  then have "sep (a + k) m (b + 0) (unat k)" using assms by (intro sep_sub [OF assms(1)]) auto
  then show ?thesis using assms by (intro get_put_bytes_apart) auto
next
  case True
  then show ?thesis by (auto simp: unsigned_eq_0_iff)
qed

lemma read_packets_step:
  fixes src dest remaining len :: u32
  assumes "sep src (unat remaining) dest (unat remaining)"
  defines "k \<equiv> (if len > remaining then remaining else len)"
  shows "unat k = min (unat len) (unat remaining)" and "unat (remaining - k) = unat remaining - unat k"
    and "sep (src + k) (unat (remaining - k)) (dest + k) (unat (remaining - k))"
proof -
  show k: "unat k = min (unat len) (unat remaining)"
    by (auto simp: k_def word_less_nat_alt min_def)
  show u: "unat (remaining - k) = unat remaining - unat k"
    using k by (intro unat_sub) (simp add: word_le_nat_alt)
  show "sep (src + k) (unat (remaining - k)) (dest + k) (unat (remaining - k))"
    unfolding u using k by (intro sep_rest [OF assms(1)]) simp
qed

lemma read_packets_exact:
  "sep src (unat remaining) dest (unat remaining) \<Longrightarrow>
   n = min (sum_list (map unat lens)) (unat remaining) \<Longrightarrow>
     read_packets lens (src, dest, remaining) s =
       ((src + word_of_nat n, dest + word_of_nat n, remaining - word_of_nat n),
        put_bytes dest (get_bytes s src n) s)"
proof (induction lens arbitrary: src dest remaining s n)
  case Nil
  then show ?case by simp
next
  case (Cons len lens)
  define k where "k = (if len > remaining then remaining else len)"
  define m where "m = min (sum_list (map unat lens)) (unat (remaining - k))"
  note st = read_packets_step [OF Cons.prems(1), of len, folded k_def]
  have n: "n = unat k + m" using Cons.prems(2) st(1,2) by (auto simp: m_def min_def)
  have lt: "unat remaining < 2 ^ 32" using unsigned_less [of remaining] by simp
  have kr: "unat k + m \<le> unat remaining" using st by (auto simp: m_def)
  define s1 where "s1 = put_bytes dest (get_bytes s src (unat k)) s"
  have "read_packets (len # lens) (src, dest, remaining) s = read_packets lens (src + k, dest + k, remaining - k) s1"
    by (simp add: EtherReadPacket_def k_def [symmetric] s1_def Let_def)
  also have "\<dots> = ((src + k + word_of_nat m, dest + k + word_of_nat m, remaining - k - word_of_nat m),
      put_bytes (dest + k) (get_bytes s1 (src + k) m) s1)"
    using st(3) m_def by (rule Cons.IH)
  also have "get_bytes s1 (src + k) m = get_bytes s (src + k) m"
    unfolding s1_def using lt by (intro get_bytes_put_rest [OF Cons.prems(1) kr]) simp
  also have "put_bytes (dest + k) (get_bytes s (src + k) m) s1 = put_bytes dest (get_bytes s src n) s"
    by (simp add: n get_bytes_split put_bytes_append s1_def)
  finally show ?case by (simp add: n add.assoc diff_diff_eq)
qed

text \<open>A handler gets the packet whole however it reads it. When the rest of the packet and the
  handler's buffer do not overlap, a series of ReadPacket calls with any lengths copies to the
  buffer, without gaps, the first bytes of the packet up to the sum of the lengths but never more
  than the packet has left; the source and the destination advance and the rest shrinks by that
  number, and no other byte of memory changes.\<close>

theorem ReadPacket_parts:
  assumes "sep src (unat remaining) dest (unat remaining)"
  shows "\<exists>s'. read_packets lens (src, dest, remaining) s =
       (let n = word_of_nat (min (sum_list (map unat lens)) (unat remaining))
        in ((src + n, dest + n, remaining - n), s'))
     \<and> (\<forall>x. get8 s' x =
          (if unat (x - dest) < min (sum_list (map unat lens)) (unat remaining)
           then get8 s (src + (x - dest)) else get8 s x))
     \<and> host s' = host s \<and> calls s' = calls s"
proof -
  define n where "n = min (sum_list (map unat lens)) (unat remaining)"
  have "unat remaining < 2 ^ LENGTH(32)" by (rule unsigned_less)
  then have lt: "n \<le> 2 ^ 32" by (simp add: n_def)
  have "get8 (put_bytes dest (get_bytes s src n) s) x =
      (if unat (x - dest) < n then get8 s (src + (x - dest)) else get8 s x)" for x
    using lt by (simp add: get8_put_bytes nth_get_bytes)
  then show ?thesis
    using read_packets_exact [OF assms n_def, of s] by (simp add: n_def [symmetric] Let_def)
qed

section \<open>Protocol handlers\<close>

text \<open>What attaching and detaching handlers mean: a table from protocol types to handlers in which
  no type is attached twice or detached when it is not attached.\<close>

datatype handler_req = Attach u16 u32 | Detach u16

fun handler_step :: "handler_req \<Rightarrow> (u16 \<rightharpoonup> u32) \<Rightarrow> u16 \<times> (u16 \<rightharpoonup> u32)" where
  "handler_step (Attach ty h) t = (if t ty = None then (noErr, t(ty \<mapsto> h)) else (lapProtErr, t))"
| "handler_step (Detach ty) t = (if t ty = None then (lapProtErr, t) else (noErr, t(ty := None)))"

fun handler_run :: "handler_req list \<Rightarrow> (u16 \<rightharpoonup> u32) \<Rightarrow> u16 list \<times> (u16 \<rightharpoonup> u32)" where
  "handler_run [] t = ([], t)"
| "handler_run (q # qs) t = (let (r, t1) = handler_step q t; (rs, t2) = handler_run qs t1 in (r # rs, t2))"

definition handler_request :: "'h mac \<Rightarrow> u32 \<Rightarrow> handler_req option" where
  "handler_request s pb =
     (if get16 s (pb + csCode) = kENetAttachPH then Some (Attach (get16 s (pb + eProtType)) (get32 s (pb + ePointer)))
      else if get16 s (pb + csCode) = kENetDetachPH then Some (Detach (get16 s (pb + eProtType)))
      else None)"

fun run_controls ::
  "('p, 'h) ether_sys \<Rightarrow> u32 list \<Rightarrow> ('p, 'h) eth \<Rightarrow> (u16 list \<times> ('p, 'h) eth) option" where
  "run_controls P [] es = Some ([], es)"
| "run_controls P (pb # pbs) es =
     (case EtherControl P pb 0 es of
        None \<Rightarrow> None
      | Some (r, es1) \<Rightarrow>
          (case run_controls P pbs es1 of None \<Rightarrow> None | Some (rs, es2) \<Rightarrow> Some (r # rs, es2)))"

locale handler_table =
  fixes P :: "('p, 'h) ether_sys"
    and protos :: "'p \<Rightarrow> u16 \<rightharpoonup> u32"
  assumes attach: "ether_attach_ph P ty h (p, s) = (r, p', s') \<Longrightarrow>
      s' = s \<and> (r, protos p') = handler_step (Attach ty h) (protos p)"
    and detach: "ether_detach_ph P ty (p, s) = (r, p', s') \<Longrightarrow>
      s' = s \<and> (r, protos p') = handler_step (Detach ty) (protos p)"
    and reset: "ether_reset P (p, s) = (p', s') \<Longrightarrow> s' = s \<and> protos p' = Map.empty"
begin

lemma control_handler:
  assumes "net_open v" and "\<not> udp_tunnel v" and "handler_request s pb = Some q"
  shows "\<exists>v'. EtherControl P pb dce (v, s) = Some (fst (handler_step q (protos (plat v))), v', s)
     \<and> protos (plat v') = snd (handler_step q (protos (plat v))) \<and> net_open v' \<and> \<not> udp_tunnel v'
     \<and> ether_data v' = ether_data v"
proof (cases q)
  case (Attach ty h)
  obtain r p' s' where a: "ether_attach_ph P ty h (plat v, s) = (r, p', s')" by (rule prod_cases3)
  have k: "get16 s (pb + csCode) = kENetAttachPH" "get16 s (pb + eProtType) = ty" "get32 s (pb + ePointer) = h"
    using assms(3) Attach by (auto simp: handler_request_def split: if_splits)
  have st: "handler_step (Attach ty h) (protos (plat v)) = (r, protos p')" "s' = s"
    using attach [OF a] by simp_all
  have "EtherControl P pb dce (v, s) = Some (r, v\<lparr>plat := p'\<rparr>, s)"
    using assms(1,2) a k st(2) by (simp add: EtherControl_def attach_handler_def)
  then show ?thesis using assms(1,2) st(1) Attach by (intro exI [of _ "v\<lparr>plat := p'\<rparr>"]) simp
next
  case (Detach ty)
  obtain r p' s' where a: "ether_detach_ph P ty (plat v, s) = (r, p', s')" by (rule prod_cases3)
  have k: "get16 s (pb + csCode) = kENetDetachPH" "get16 s (pb + eProtType) = ty"
    using assms(3) Detach by (auto simp: handler_request_def split: if_splits)
  have st: "handler_step (Detach ty) (protos (plat v)) = (r, protos p')" "s' = s"
    using detach [OF a] by simp_all
  have "EtherControl P pb dce (v, s) = Some (r, v\<lparr>plat := p'\<rparr>, s)"
    using assms(1,2) a k st(2) by (simp add: EtherControl_def detach_handler_def)
  then show ?thesis using assms(1,2) st(1) Detach by (intro exI [of _ "v\<lparr>plat := p'\<rparr>"]) simp
qed

lemma controls_run:
  "list_all2 (\<lambda>pb q. handler_request s pb = Some q) pbs qs \<Longrightarrow> net_open v \<Longrightarrow> \<not> udp_tunnel v \<Longrightarrow>
     \<exists>v'. run_controls P pbs (v, s) = Some (fst (handler_run qs (protos (plat v))), v', s)
       \<and> protos (plat v') = snd (handler_run qs (protos (plat v))) \<and> ether_data v' = ether_data v"
proof (induction pbs qs arbitrary: v rule: list_all2_induct)
  case Nil
  then show ?case by auto
next
  case (Cons pb pbs q qs)
  obtain v1 where v1: "EtherControl P pb 0 (v, s) = Some (fst (handler_step q (protos (plat v))), v1, s)"
    "protos (plat v1) = snd (handler_step q (protos (plat v)))" "net_open v1" "\<not> udp_tunnel v1"
    "ether_data v1 = ether_data v"
    using control_handler [OF Cons.prems Cons.hyps(1)] by blast
  obtain v2 where v2: "run_controls P pbs (v1, s) = Some (fst (handler_run qs (protos (plat v1))), v2, s)"
    "protos (plat v2) = snd (handler_run qs (protos (plat v1)))" "ether_data v2 = ether_data v1"
    using Cons.IH [OF v1(3,4)] by blast
  show ?case using v1 v2 by (intro exI [of _ v2]) (simp add: case_prod_beta)
qed

lemma reset_controls_run:
  assumes "list_all2 (\<lambda>pb q. handler_request s pb = Some q) pbs qs" and "net_open v" and "\<not> udp_tunnel v"
  shows "\<exists>v'. run_controls P pbs (EtherReset P (v, s)) = Some (fst (handler_run qs Map.empty), v', s)
     \<and> protos (plat v') = snd (handler_run qs Map.empty) \<and> ether_data v' = ether_data v"
proof -
  obtain p' s' where r: "ether_reset P (plat v, s) = (p', s')" by force
  have eq: "EtherReset P (v, s) = (v\<lparr>udp_protocols := Map.empty, plat := p'\<rparr>, s)" "protos p' = Map.empty"
    using reset [OF r] r by (simp_all add: EtherReset_def)
  show ?thesis
    using controls_run [OF assms(1), of "v\<lparr>udp_protocols := Map.empty, plat := p'\<rparr>"] assms(2,3) eq by simp
qed

end

text \<open>A machine with a packet of two blocks for concrete runs.\<close>

definition demo_ether_mac :: "'h \<Rightarrow> 'h mac" where
  "demo_ether_mac h =
     put16 0x100 249 (put32 0x104 0x200
       (put16 0x20C 0 (put32 0x208 0x400 (put16 0x206 4 (put32 0x202 0x300 (put16 0x200 14
         \<lparr>mem = (\<lambda>a. ucast a), host = h, calls = []\<rparr>))))))"

lemma demo_wds: "wds_blocks (demo_ether_mac h) 0x200 [(0x300, 14), (0x400, 4)]"
  by (simp add: demo_ether_mac_def get_put_apart sep_def)

theorem ether_wds_to_buffer_blocks_witness:
  "ether_wds_to_buffer 1514 0x200 (demo_ether_mac ()) =
     Some (wds_bytes (demo_ether_mac ()) [(0x300, 14), (0x400, 4)])"
  using ether_wds_to_buffer_blocks [where s = "demo_ether_mac ()", OF demo_wds, of 1514] by simp

theorem ReadPacket_parts_witness:
  "\<exists>s'. read_packets [2, 3] (0x300, 0x400, 4) (demo_ether_mac ()) = ((0x304, 0x404, 0), s')
     \<and> (\<forall>x. get8 s' x = (if unat (x - 0x400) < 4 then get8 (demo_ether_mac ()) (0x300 + (x - 0x400))
                            else get8 (demo_ether_mac ()) x))
     \<and> host s' = host (demo_ether_mac ()) \<and> calls s' = calls (demo_ether_mac ())"
  using ReadPacket_parts [of "0x300" 4 "0x400" "[2, 3]" "demo_ether_mac ()"] by (simp add: sep_def)

end
