(* ===== verification/EtherUnix.thy ===== *)
theory EtherUnix
  imports Ether
begin

text \<open>
  "Unix/ether_unix.cpp" as built on Linux without slirp and TUN/TAP: the sheep_net and ethertap
  devices, the table of protocol handlers, transmission, and the Ethernet interrupt that hands the
  packets waiting on the device to their handlers; and the packet allocator of "ether.cpp". The
  system calls on the device are the record \<open>net_dev\<close>. Alerts and the reception thread, which only
  raises the interrupt, are left out, and so is the branch for a UDP tunnel, which nothing starts.
\<close>

datatype net_if = NET_IF_SHEEPNET | NET_IF_ETHERTAP

record unix_net =
  net_protocols :: "u16 \<rightharpoonup> u32"
  net_if_type :: "net_if option"
  ether_packet :: u32
  n_ether_packets :: u32

record 'h net_dev =
  dev_open_rw :: "string \<Rightarrow> 'h \<Rightarrow> bool \<times> 'h"
  dev_link :: "string \<Rightarrow> 'h \<Rightarrow> bool \<times> 'h"
  dev_nonblock :: "'h \<Rightarrow> bool \<times> 'h"
  dev_getaddr :: "'h \<Rightarrow> u8 list option \<times> 'h"
  start_thread :: "'h \<Rightarrow> bool \<times> 'h"
  stop_thread :: "'h \<Rightarrow> 'h"
  dev_shut :: "'h \<Rightarrow> 'h"
  getpid :: "'h \<Rightarrow> u32"
  dev_multi :: "bool \<Rightarrow> u8 list \<Rightarrow> 'h \<Rightarrow> bool \<times> 'h"
  dev_send :: "u8 list \<Rightarrow> 'h \<Rightarrow> bool \<times> 'h"
  dev_recv :: "nat \<Rightarrow> 'h \<Rightarrow> u8 list option \<times> 'h"

type_synonym 'h unet = "unix_net \<times> 'h mac"

text \<open>A call on the device changes the host only.\<close>

definition on_dev :: "('h \<Rightarrow> 'r \<times> 'h) \<Rightarrow> 'h mac \<Rightarrow> 'r \<times> 'h mac" where
  "on_dev f s = (case f (host s) of (r, h) \<Rightarrow> (r, s\<lparr>host := h\<rparr>))"

lemma on_dev_frame [simp]: "mem (snd (on_dev f s)) = mem s" "calls (snd (on_dev f s)) = calls s"
  by (simp_all add: on_dev_def split: prod.splits)

section \<open>Initialization\<close>

text \<open>The buffer for the name of the device has 16 bytes.\<close>

definition if_type_of :: "string \<Rightarrow> net_if" where
  "if_type_of name = (if take 3 name = ''tap'' then NET_IF_ETHERTAP else NET_IF_SHEEPNET)"

definition device_name :: "net_if \<Rightarrow> string \<Rightarrow> string option" where
  "device_name t name =
     (case t of
        NET_IF_ETHERTAP \<Rightarrow> (if length (''/dev/'' @ name) < 16 then Some (''/dev/'' @ name) else None)
      | NET_IF_SHEEPNET \<Rightarrow> Some ''/dev/sheep_net'')"

definition init_fails :: "'h net_dev \<Rightarrow> u8 list \<Rightarrow> 'h unet \<Rightarrow> bool \<times> u8 list \<times> 'h unet" where
  "init_fails D addr ps =
     (let (p, s) = ps in (False, addr, p, s\<lparr>host := dev_shut D (stop_thread D (host s))\<rparr>))"

definition init_address :: "'h net_dev \<Rightarrow> net_if \<Rightarrow> u8 list \<Rightarrow> 'h mac \<Rightarrow> u8 list \<times> 'h mac" where
  "init_address D t addr s =
     (case t of
        NET_IF_ETHERTAP \<Rightarrow>
          (let p = getpid D (host s) in ([0xfe, 0xfd, byte3 p, byte2 p, byte1 p, byte0 p], s))
      | NET_IF_SHEEPNET \<Rightarrow>
          (case on_dev (dev_getaddr D) s of (Some a, s1) \<Rightarrow> (a, s1) | (None, s1) \<Rightarrow> (addr, s1)))"

definition unix_ether_init ::
  "'h net_dev \<Rightarrow> prefs \<Rightarrow> u8 list \<times> 'h unet \<Rightarrow> (bool \<times> u8 list \<times> 'h unet) option" where
  "unix_ether_init D prefs aps =
     (let (addr, p, s) = aps in
      case PrefsFindString ''ether'' 0 prefs of
        None \<Rightarrow> Some (False, aps)
      | Some name \<Rightarrow>
          (let t = if_type_of name; p1 = p\<lparr>net_if_type := Some t\<rparr> in
           case device_name t name of
             None \<Rightarrow> None
           | Some dev \<Rightarrow>
               (let (opened, s1) = on_dev (dev_open_rw D dev) s in
                if \<not> opened then Some (False, addr, p1, s1\<lparr>host := stop_thread D (host s1)\<rparr>)
                else
                  let (linked, s2) = (if t = NET_IF_SHEEPNET then on_dev (dev_link D name) s1 else (True, s1)) in
                  if \<not> linked then Some (init_fails D addr (p1, s2))
                  else
                    let (nonblock, s3) = on_dev (dev_nonblock D) s2 in
                    if \<not> nonblock then Some (init_fails D addr (p1, s3))
                    else
                      let (addr1, s4) = init_address D t addr s3; (started, s5) = on_dev (start_thread D) s4 in
                      if started then Some (True, addr1, p1, s5) else Some (init_fails D addr1 (p1, s5)))))"

definition unix_ether_exit :: "'h net_dev \<Rightarrow> 'h unet \<Rightarrow> 'h unet" where
  "unix_ether_exit D ps = (let (p, s) = ps in (p, s\<lparr>host := dev_shut D (stop_thread D (host s))\<rparr>))"

definition unix_ether_reset :: "'h unet \<Rightarrow> 'h unet" where
  "unix_ether_reset ps = (let (p, s) = ps in (p\<lparr>net_protocols := Map.empty\<rparr>, s))"

section \<open>Multicast addresses and protocol handlers\<close>

definition ether_do_add_multicast :: "'h net_dev \<Rightarrow> u32 \<Rightarrow> 'h unet \<Rightarrow> u16 \<times> 'h unet" where
  "ether_do_add_multicast D a ps =
     (let (p, s) = ps in
      case net_if_type p of
        None \<Rightarrow> (noErr, ps)
      | Some t \<Rightarrow>
          (let (ok, s1) = on_dev (dev_multi D True (get_bytes s a 6)) s
           in (if ok then noErr else if t = NET_IF_ETHERTAP then noErr else eMultiErr, p, s1)))"

definition ether_do_del_multicast :: "'h net_dev \<Rightarrow> u32 \<Rightarrow> 'h unet \<Rightarrow> u16 \<times> 'h unet" where
  "ether_do_del_multicast D a ps =
     (let (p, s) = ps in
      case net_if_type p of
        None \<Rightarrow> (noErr, ps)
      | Some t \<Rightarrow>
          (let (ok, s1) = on_dev (dev_multi D False (get_bytes s a 6)) s
           in (if ok then noErr else eMultiErr, p, s1)))"

definition unix_attach_ph :: "u16 \<Rightarrow> u32 \<Rightarrow> 'h unet \<Rightarrow> u16 \<times> 'h unet" where
  "unix_attach_ph ty handler ps =
     (let (p, s) = ps in
      if net_protocols p ty \<noteq> None then (lapProtErr, ps)
      else (noErr, p\<lparr>net_protocols := (net_protocols p)(ty \<mapsto> handler)\<rparr>, s))"

definition unix_detach_ph :: "u16 \<Rightarrow> 'h unet \<Rightarrow> u16 \<times> 'h unet" where
  "unix_detach_ph ty ps =
     (let (p, s) = ps in
      if net_protocols p ty = None then (lapProtErr, ps)
      else (noErr, p\<lparr>net_protocols := (net_protocols p)(ty := None)\<rparr>, s))"

section \<open>Transmission\<close>

text \<open>The buffer has 1516 bytes, of which the ethertap device takes two in front of the packet.\<close>

definition ether_do_write :: "'h net_dev \<Rightarrow> u32 \<Rightarrow> 'h unet \<Rightarrow> (u16 \<times> 'h unet) option" where
  "ether_do_write D wds ps =
     (let (p, s) = ps; pre = (if net_if_type p = Some NET_IF_ETHERTAP then [0, 0] else []) in
      case ether_wds_to_buffer (1516 - length pre) wds s of
        None \<Rightarrow> None
      | Some packet \<Rightarrow>
          (let (ok, s1) = on_dev (dev_send D (pre @ packet)) s
           in Some (if ok then noErr else excessCollsns, p, s1)))"

definition unix_ether :: "'h net_dev \<Rightarrow> (unix_net, 'h) ether_sys" where
  "unix_ether D =
     \<lparr>ether_init = unix_ether_init D, ether_exit = unix_ether_exit D, ether_reset = unix_ether_reset,
      ether_add_multicast = (\<lambda>pb. ether_do_add_multicast D (pb + 28)),
      ether_del_multicast = (\<lambda>pb. ether_do_del_multicast D (pb + 28)),
      ether_attach_ph = unix_attach_ph, ether_detach_ph = unix_detach_ph,
      ether_write = ether_do_write D\<rparr>"

section \<open>Packet buffers\<close>

text \<open>The first buffer is kept for good; one that is needed while it is in use is allocated and given
  back. \<open>None\<close> is the failed assertion.\<close>

definition new_EthernetPacket :: "'h env68k \<Rightarrow> 'h unet \<Rightarrow> (u32 \<times> 'h unet) option" where
  "new_EthernetPacket E ps =
     (let (p, s) = ps; p1 = p\<lparr>n_ether_packets := n_ether_packets p + 1\<rparr> in
      if ether_packet p \<noteq> 0 \<and> n_ether_packets p1 = 1 then Some (ether_packet p, p1, s)
      else
        let (r, s1) = Execute68kTrap E 0xa71e (set_d 0 1516 (stack_junk E)) s in
        if areg r 0 = 0 then None
        else Some (areg r 0, (if ether_packet p = 0 then p1\<lparr>ether_packet := areg r 0\<rparr> else p1), s1))"

definition delete_EthernetPacket :: "'h env68k \<Rightarrow> u32 \<Rightarrow> 'h unet \<Rightarrow> 'h unet" where
  "delete_EthernetPacket E packet ps =
     (let (p, s) = ps; p1 = p\<lparr>n_ether_packets := n_ether_packets p - 1\<rparr> in
      if packet \<noteq> ether_packet p
      then (p1, snd (Execute68kTrap E 0xa01f (set_a 0 packet (stack_junk E)) s))
      else (p1, s))"

section \<open>Reception\<close>

definition search_type :: "u16 \<Rightarrow> u16" where
  "search_type ty = (if ty \<le> 1500 then 0 else ty)"

definition ether_dispatch_packet ::
  "'h env68k \<Rightarrow> u32 \<Rightarrow> u32 \<Rightarrow> u32 \<Rightarrow> 'h unet \<Rightarrow> 'h unet" where
  "ether_dispatch_packet E data pkt len ps =
     (let (p, s) = ps; ty = get16 s (pkt + 12) in
      case net_protocols p (search_type ty) of
        None \<Rightarrow> ps
      | Some handler \<Rightarrow>
          (if handler = 0 then ps
           else
             let s1 = put_bytes (data + ed_RHA) (get_bytes s pkt 14) s;
                 r = set_a 4 (data + ed_ReadPacket) (set_a 3 (data + ed_RHA + 14)
                       (set_a 0 (pkt + 14) (set_d 1 (len - 14) (set_d 0 (ucast ty) (stack_junk E)))))
             in (p, snd (Execute68k E handler r s1))))"

text \<open>The loop of the interrupt: it ends when the device has no packet left; \<open>None\<close> if it never
  does.\<close>

partial_function (option) receive_loop ::
  "'h env68k \<Rightarrow> 'h net_dev \<Rightarrow> u32 \<Rightarrow> u32 \<Rightarrow> 'h unet \<Rightarrow> 'h unet option" where
  "receive_loop E D data packet ps =
     (let (p, s) = ps;
          tap = (net_if_type p = Some NET_IF_ETHERTAP);
          (got, s1) = on_dev (dev_recv D (if tap then 1516 else 1514)) s
      in case got of
           None \<Rightarrow> Some (p, s1)
         | Some bs \<Rightarrow>
             (let s2 = put_bytes packet bs s1 in
              if length bs < 14 then Some (p, s2)
              else
                receive_loop E D data packet
                  (if tap then ether_dispatch_packet E data (packet + 2) (word_of_nat (length bs - 2)) (p, s2)
                   else ether_dispatch_packet E data packet (word_of_nat (length bs)) (p, s2))))"

definition EtherInterrupt ::
  "'h env68k \<Rightarrow> 'h net_dev \<Rightarrow> u32 \<Rightarrow> 'h unet \<Rightarrow> 'h unet option" where
  "EtherInterrupt E D data ps =
     (case new_EthernetPacket E ps of
        None \<Rightarrow> None
      | Some (packet, ps1) \<Rightarrow>
          (case receive_loop E D data packet ps1 of
             None \<Rightarrow> None
           | Some ps2 \<Rightarrow> Some (delete_EthernetPacket E packet ps2)))"

section \<open>The table of handlers\<close>

interpretation uh: handler_table "unix_ether D" net_protocols for D :: "'h net_dev"
  by unfold_locales
    (auto simp: unix_ether_def unix_attach_ph_def unix_detach_ph_def unix_ether_reset_def split: if_splits)

text \<open>C19. The driver keeps the table of protocol handlers as specified. After EtherReset(), a series
  of Control calls that attach and detach handlers answers each call and leaves the handlers
  attached exactly as a table of types would that refuses to attach a type twice or to detach one
  that is not there; no such call touches Mac memory.\<close>

theorem Ether_handlers_refine:
  assumes "list_all2 (\<lambda>pb q. handler_request s pb = Some q) pbs qs" and "net_open v" and "\<not> udp_tunnel v"
  shows "\<exists>v'. run_controls (unix_ether D) pbs (EtherReset (unix_ether D) (v, s)) =
       Some (fst (handler_run qs Map.empty), v', s)
     \<and> net_protocols (plat v') = snd (handler_run qs Map.empty) \<and> ether_data v' = ether_data v"
  by (rule uh.reset_controls_run [OF assms])

section \<open>Transmission\<close>

lemma stamped_packet:
  assumes wb: "wds_blocks s wds ((hdr, n) # bs)" and tot: "n + sum_list (map snd bs) \<le> 1514" and n: "14 \<le> n"
    and addr: "length addr = 6"
    and sp: "sep wds (6 * length bs + 8) (hdr + 6) 6" "\<forall>(a, m) \<in> set bs. sep a m (hdr + 6) 6"
  shows "wds_copy (put_bytes (hdr + 6) addr s) wds [] =
     get_bytes s hdr 6 @ addr @ get_bytes s (hdr + 12) (n - 12) @ wds_bytes s bs"
proof -
  let ?t = "put_bytes (hdr + 6) addr s"
  have ne: "addr \<noteq> []" using addr by auto
  have "wds_blocks ?t wds ((hdr, n) # bs)"
    using sp(1) addr ne by (intro wds_blocks_put_bytes [OF wb]) (simp_all add: add.commute)
  then have "wds_copy ?t wds [] = wds_bytes ?t ((hdr, n) # bs)"
    using tot by (intro wds_copy_short) auto
  moreover have "wds_bytes ?t bs = wds_bytes s bs"
  proof (rule wds_bytes_put_bytes)
    have "m \<le> 1514" if "(a, m) \<in> set bs" for a m
      using that tot member_le_sum_list [of m "map snd bs"] by force
    then show "\<forall>(a, m) \<in> set bs. sep a m (hdr + 6) (length addr) \<and> m \<le> 2 ^ 32"
      using sp(2) addr by fastforce
  qed (use addr in simp)
  moreover have "get_bytes ?t hdr n = get_bytes s hdr 6 @ addr @ get_bytes s (hdr + 12) (n - 12)"
    using tot n by (intro stamp_header [OF addr]) simp_all
  ultimately show ?thesis by simp
qed

text \<open>Write sends the packet with the station's address as its source. When the open driver is
  given a write data structure whose first block holds a whole header and whose blocks make up at
  most 1514 bytes, the device is handed exactly one frame: the destination from the header, the
  Ethernet address, the rest of the header's block and the other blocks, with two zero bytes in
  front on an ethertap device; the result is noErr, or excessCollsns when the device refuses it. A
  first block below 14 bytes is eLenErr and nothing is sent.\<close>

theorem EtherWrite_sends_frame:
  fixes s :: "'h mac"
  assumes op: "net_open v" and code: "get16 s (pb + 26) = 249" and wds: "get32 s (pb + 30) = wds"
    and wb: "wds_blocks s wds ((hdr, n) # bs)" and tot: "n + sum_list (map snd bs) \<le> 1514"
    and addr: "length (ether_addr v) = 6"
    and sp: "sep wds (6 * length bs + 8) (hdr + 6) 6" "\<forall>(a, m) \<in> set bs. sep a m (hdr + 6) 6"
  shows "EtherControl (unix_ether D) pb dce (v, s) =
     (if n < 14 then Some (eLenErr, v, s)
      else
        let frame = (if net_if_type (plat v) = Some NET_IF_ETHERTAP then [0, 0] else [])
              @ get_bytes s hdr 6 @ ether_addr v @ get_bytes s (hdr + 12) (n - 12) @ wds_bytes s bs;
            (ok, h) = dev_send D frame (host s)
        in Some (if ok then noErr else excessCollsns, v, put_bytes (hdr + 6) (ether_addr v) s\<lparr>host := h\<rparr>))"
proof -
  have hn: "get32 s (wds + 2) = hdr" "unat (get16 s wds) = n" using wb by simp_all
  then have short: "get16 s wds < 14 \<longleftrightarrow> n < 14" by (simp add: word_less_nat_alt)
  have ctl: "EtherControl (unix_ether D) pb dce (v, s) = write_packet (unix_ether D) wds (v, s)"
    using code wds by (simp add: EtherControl_def)
  show ?thesis
  proof (cases "n < 14")
    case True
    then show ?thesis using ctl short by (simp add: write_packet_def)
  next
    case False
    let ?pre = "if net_if_type (plat v) = Some NET_IF_ETHERTAP then [0, 0 :: u8] else []"
    let ?t = "put_bytes (hdr + 6) (ether_addr v) s"
    define packet where
      "packet = get_bytes s hdr 6 @ ether_addr v @ get_bytes s (hdr + 12) (n - 12) @ wds_bytes s bs"
    have "length packet = n + sum_list (map snd bs)"
      using False addr by (simp add: packet_def length_wds_bytes)
    then have buf: "ether_wds_to_buffer cap wds ?t = Some packet" if "1514 \<le> cap" for cap
      using stamped_packet [OF wb tot _ addr sp] False that tot by (simp add: ether_wds_to_buffer_def packet_def)
    obtain ok h where send: "dev_send D (?pre @ packet) (host s) = (ok, h)" by force
    have eh: "put_bytes a xs t\<lparr>host := h'\<rparr> = put_bytes a xs (t\<lparr>host := h'\<rparr>)" for a xs h' and t :: "'h mac"
      by (simp add: put_bytes_def)
    have "ether_write (unix_ether D) wds (plat v, ?t) =
        Some (if ok then noErr else excessCollsns, plat v, ?t\<lparr>host := h\<rparr>)"
      using buf [of 1516] buf [of 1514] send
      by (cases "net_if_type (plat v) = Some NET_IF_ETHERTAP") (simp_all add: unix_ether_def ether_do_write_def on_dev_def)
    then have "write_packet (unix_ether D) wds (v, s) =
        Some (if ok then noErr else excessCollsns, v, ?t\<lparr>host := h\<rparr>)"
      using op short False buf [of 1514] hn(1) by (simp add: write_packet_def Let_def)
    then show ?thesis using ctl False send by (simp add: packet_def Let_def)
  qed
qed

section \<open>Reception\<close>

text \<open>The packets a device has waiting: reading takes the first, running 68k code takes none.\<close>

definition waiting_packets :: "'h env68k \<Rightarrow> 'h net_dev \<Rightarrow> ('h \<Rightarrow> u8 list list) \<Rightarrow> bool" where
  "waiting_packets E D pending \<longleftrightarrow>
     (\<forall>k h. case pending h of
          [] \<Rightarrow> fst (dev_recv D k h) = None \<and> pending (snd (dev_recv D k h)) = []
        | pk # pks \<Rightarrow> fst (dev_recv D k h) = Some (take k pk) \<and> pending (snd (dev_recv D k h)) = pks)
     \<and> (\<forall>a r m h. pending (snd (snd (run_code E a r (m, h)))) = pending h)"

lemma recv_pending:
  fixes s :: "'h mac"
  assumes "waiting_packets E D pending"
  shows "pending (host s) = [] \<Longrightarrow>
      \<exists>s'. on_dev (dev_recv D k) s = (None, s') \<and> pending (host s') = [] \<and> mem s' = mem s \<and> calls s' = calls s"
    and "pending (host s) = pk # pks \<Longrightarrow>
      \<exists>s'. on_dev (dev_recv D k) s = (Some (take k pk), s') \<and> pending (host s') = pks \<and> mem s' = mem s \<and> calls s' = calls s"
proof -
  have a: "case pending (host s) of [] \<Rightarrow> fst (dev_recv D k (host s)) = None \<and> pending (snd (dev_recv D k (host s))) = []
      | pk # pks \<Rightarrow> fst (dev_recv D k (host s)) = Some (take k pk) \<and> pending (snd (dev_recv D k (host s))) = pks"
    using assms by (auto simp: waiting_packets_def)
  show "pending (host s) = [] \<Longrightarrow>
      \<exists>s'. on_dev (dev_recv D k) s = (None, s') \<and> pending (host s') = [] \<and> mem s' = mem s \<and> calls s' = calls s"
    "pending (host s) = pk # pks \<Longrightarrow>
      \<exists>s'. on_dev (dev_recv D k) s = (Some (take k pk), s') \<and> pending (host s') = pks \<and> mem s' = mem s \<and> calls s' = calls s"
    using a by (cases "dev_recv D k (host s)"; simp add: on_dev_def)+
qed

text \<open>The packets that have a handler, with their handlers, in order.\<close>

definition packet_type :: "u8 list \<Rightarrow> u16" where
  "packet_type pk = join16 (pk ! 12) (pk ! 13)"

fun deliveries :: "(u16 \<rightharpoonup> u32) \<Rightarrow> u8 list list \<Rightarrow> (u32 \<times> u8 list) list" where
  "deliveries t [] = []"
| "deliveries t (pk # pks) =
     (case t (search_type (packet_type pk)) of
        Some h \<Rightarrow> if h = 0 then deliveries t pks else (h, pk) # deliveries t pks
      | None \<Rightarrow> deliveries t pks)"

text \<open>How a handler is called for a packet in the buffer at \<open>packet\<close>.\<close>

definition delivered :: "u32 \<Rightarrow> u32 \<Rightarrow> u32 \<times> u8 list \<Rightarrow> call68k \<Rightarrow> bool" where
  "delivered data packet d c \<longleftrightarrow>
     (case c of
        Routine a r m \<Rightarrow> a = fst d
          \<and> dreg r 0 = ucast (packet_type (snd d)) \<and> dreg r 1 = word_of_nat (length (snd d) - 14)
          \<and> areg r 0 = packet + 14 \<and> areg r 3 = data + 52 \<and> areg r 4 = data + 52
          \<and> mem_read m packet (length (snd d)) = snd d \<and> mem_read m (data + 38) 14 = take 14 (snd d)
      | Trap68k t r m \<Rightarrow> False)"

lemma dispatch_delivers:
  fixes s :: "'h mac"
  assumes pk: "14 \<le> length pk" "length pk \<le> 1514" and sp: "sep packet 1514 (data + 38) 14"
    and w: "waiting_packets E D pending"
  shows "\<exists>s' cs. ether_dispatch_packet E data packet (word_of_nat (length pk)) (p, put_bytes packet pk s) = (p, s')
     \<and> pending (host s') = pending (host s) \<and> calls s' = calls s @ cs
     \<and> list_all2 (delivered data packet) (deliveries (net_protocols p) [pk]) cs"
proof -
  define t where "t = put_bytes packet pk s"
  have len: "length pk \<le> 2 ^ 32" using pk by simp
  have b12: "get8 t (packet + 12) = pk ! 12" "get8 t (packet + 12 + 1) = pk ! 13"
    using pk len by (simp_all add: t_def get8_put_bytes add.assoc)
  have ty: "get16 t (packet + 12) = packet_type pk"
    using b12 by (simp add: get16_as_bytes packet_type_def)
  have all: "get_bytes t packet (length pk) = pk"
    using get_put_bytes [OF len] by (simp add: t_def)
  have hd: "get_bytes t packet 14 = take 14 pk"
    using get_bytes_split [of t packet 14 "length pk - 14"] all pk by simp (metis append_eq_conv_conj length_get_bytes)
  define u where "u = put_bytes (data + 38) (take 14 pk) t"
  have lt: "length (take 14 pk) = 14" using pk by simp
  have sp1: "sep packet (length pk) (data + 38) 14"
    using sep_sub_left [OF sp, of 0 "length pk" 14] pk by force
  have m: "mem_read (mem u) packet (length pk) = pk" "mem_read (mem u) (data + 38) 14 = take 14 pk"
    using get_put_bytes_apart [of packet "length pk" "data + 38" "take 14 pk" t] sp1 lt len all
      get_put_bytes [of "take 14 pk" "data + 38" t]
    by (simp_all add: u_def get_bytes_def)
  show ?thesis
  proof (cases "\<exists>h. net_protocols p (search_type (packet_type pk)) = Some h \<and> h \<noteq> 0")
    case False
    then have "ether_dispatch_packet E data packet (word_of_nat (length pk)) (p, t) = (p, t)"
        "deliveries (net_protocols p) [pk] = []"
      by (auto simp: ether_dispatch_packet_def ty Let_def split: option.splits)
    then show ?thesis by (intro exI [of _ t] exI [of _ "[]"]) (simp add: t_def)
  next
    case True
    then obtain h where h: "net_protocols p (search_type (packet_type pk)) = Some h" "h \<noteq> 0" by blast
    define r where "r = set_a 4 (data + 52) (set_a 3 (data + 38 + 14) (set_a 0 (packet + 14)
      (set_d 1 (word_of_nat (length pk) - 14) (set_d 0 (ucast (packet_type pk)) (stack_junk E)))))"
    obtain r' m' h' where rc: "run_code E h r (mem u, host u) = (r', m', h')" by (rule prod_cases3)
    define s' where "s' = u\<lparr>mem := m', host := h', calls := calls u @ [Routine h r (mem u)]\<rparr>"
    have "ether_dispatch_packet E data packet (word_of_nat (length pk)) (p, t) = (p, s')"
      using h rc by (simp add: ether_dispatch_packet_def ty hd u_def [symmetric] r_def Execute68k_def s'_def Let_def)
    moreover have "pending (snd (snd (run_code E h r (mem u, host u)))) = pending (host u)"
      using w by (simp only: waiting_packets_def)
    then have "pending h' = pending (host u)" using rc by simp
    moreover note this
    moreover have "delivered data packet (h, pk) (Routine h r (mem u))"
      using m pk by (simp add: delivered_def r_def of_nat_diff)
    ultimately show ?thesis
      using h by (intro exI [of _ s'] exI [of _ "[Routine h r (mem u)]"]) (simp add: s'_def u_def t_def)
  qed
qed

lemma deliveries_Cons: "deliveries t (pk # pks) = deliveries t [pk] @ deliveries t pks"
  by (simp split: option.splits)

lemma receive_loop_delivers:
  fixes s :: "'h mac"
  assumes w: "waiting_packets E D pending" and sp: "sep packet 1514 (data + 38) 14"
    and tap: "net_if_type p \<noteq> Some NET_IF_ETHERTAP"
  shows "pending (host s) = pks \<Longrightarrow> \<forall>pk \<in> set pks. 14 \<le> length pk \<and> length pk \<le> 1514 \<Longrightarrow>
     \<exists>s' cs. receive_loop E D data packet (p, s) = Some (p, s') \<and> pending (host s') = []
       \<and> calls s' = calls s @ cs \<and> list_all2 (delivered data packet) (deliveries (net_protocols p) pks) cs"
proof (induction pks arbitrary: s)
  case Nil
  obtain s' where s': "on_dev (dev_recv D 1514) s = (None, s')" "pending (host s') = []" "calls s' = calls s"
    using recv_pending(1) [OF w Nil(1), of 1514] by blast
  then show ?case
    using tap by (intro exI [of _ s'] exI [of _ "[]"]) (simp add: receive_loop.simps [of _ _ _ _ "(p, s)"])
next
  case (Cons pk pks)
  have len: "14 \<le> length pk" "length pk \<le> 1514" using Cons.prems(2) by simp_all
  obtain s1 where s1: "on_dev (dev_recv D 1514) s = (Some (take 1514 pk), s1)" "pending (host s1) = pks"
      "calls s1 = calls s"
    using recv_pending(2) [OF w Cons.prems(1), of 1514] by blast
  obtain s2 cs where s2: "ether_dispatch_packet E data packet (word_of_nat (length pk)) (p, put_bytes packet pk s1) = (p, s2)"
      "pending (host s2) = pending (host s1)" "calls s2 = calls s1 @ cs"
      "list_all2 (delivered data packet) (deliveries (net_protocols p) [pk]) cs"
    using dispatch_delivers [OF len sp w, of p s1] by blast
  have "\<forall>pk \<in> set pks. 14 \<le> length pk \<and> length pk \<le> 1514" using Cons.prems(2) by simp
  then obtain s3 ds where s3: "receive_loop E D data packet (p, s2) = Some (p, s3)" "pending (host s3) = []"
      "calls s3 = calls s2 @ ds" "list_all2 (delivered data packet) (deliveries (net_protocols p) pks) ds"
    using Cons.IH [of s2] s1(2) s2(2) by auto
  have step: "receive_loop E D data packet (p, s) = receive_loop E D data packet (p, s2)"
    using tap s1(1) s2(1) len by (simp add: receive_loop.simps [of _ _ _ _ "(p, s)"])
  show ?case
    using s1 s2 s3 step deliveries_Cons [of "net_protocols p" pk pks] list_all2_appendI [OF s2(4) s3(4)]
    by (intro exI [of _ s3] exI [of _ "cs @ ds"]) simp
qed


section \<open>Concrete runs\<close>

definition demo_dev :: "u8 list list net_dev" where
  "demo_dev =
     \<lparr>dev_open_rw = (\<lambda>n h. (True, h)), dev_link = (\<lambda>n h. (True, h)), dev_nonblock = (\<lambda>h. (True, h)),
      dev_getaddr = (\<lambda>h. (Some [2, 0, 0, 0, 0, 1], h)), start_thread = (\<lambda>h. (True, h)),
      stop_thread = (\<lambda>h. h), dev_shut = (\<lambda>h. h), getpid = (\<lambda>h. 1), dev_multi = (\<lambda>a x h. (True, h)),
      dev_send = (\<lambda>f h. (True, h @ [f])),
      dev_recv = (\<lambda>k h. case h of [] \<Rightarrow> (None, []) | pk # pks \<Rightarrow> (Some (take k pk), pks))\<rparr>"

definition demo_net :: unix_net where
  "demo_net = \<lparr>net_protocols = [0x809B \<mapsto> 0x5000], net_if_type = Some NET_IF_SHEEPNET,
               ether_packet = 0x6000, n_ether_packets = 0\<rparr>"

definition demo_vars :: "unix_net ether_vars" where
  "demo_vars = \<lparr>net_open = True, udp_tunnel = False, udp_protocols = Map.empty, ether_data = 0x7000,
                ethernet_monitor = False, ether_addr = [2, 0, 0, 0, 0, 1], plat = demo_net\<rparr>"

theorem Ether_handlers_refine_witness:
  "\<exists>v'. run_controls (unix_ether demo_dev) [0x100, 0x200, 0x100]
       (EtherReset (unix_ether demo_dev)
          (demo_vars, put16 0x11A 247 (put16 0x11C 0x809B (put32 0x11E 0x5000 (put16 0x21A 248 (put16 0x21C 7 (demo_ether_mac []))))))) =
     Some ([noErr, lapProtErr, lapProtErr], v',
           put16 0x11A 247 (put16 0x11C 0x809B (put32 0x11E 0x5000 (put16 0x21A 248 (put16 0x21C 7 (demo_ether_mac []))))))
   \<and> net_protocols (plat v') = [0x809B \<mapsto> 0x5000] \<and> ether_data v' = 0x7000"
  using Ether_handlers_refine
    [where s = "put16 0x11A 247 (put16 0x11C 0x809B (put32 0x11E 0x5000 (put16 0x21A 248 (put16 0x21C 7 (demo_ether_mac [])))))"
      and pbs = "[0x100, 0x200, 0x100]" and qs = "[Attach 0x809B 0x5000, Detach 7, Attach 0x809B 0x5000]"
      and v = demo_vars and D = demo_dev]
  by (simp add: handler_request_def demo_vars_def get_put_apart sep_def Let_def)

theorem EtherWrite_sends_frame_witness:
  "EtherControl (unix_ether demo_dev) 0xE6 0 (demo_vars, demo_ether_mac []) =
     Some (noErr, demo_vars,
       put_bytes 0x306 [2, 0, 0, 0, 0, 1] (demo_ether_mac [])
         \<lparr>host := [[0, 1, 2, 3, 4, 5, 2, 0, 0, 0, 0, 1, 12, 13, 0, 1, 2, 3]]\<rparr>)"
proof -
  have b: "wds_blocks (demo_ether_mac ([] :: u8 list list)) 0x200 [(0x300, 14), (0x400, 4)]" by (rule demo_wds)
  have g: "get_bytes (demo_ether_mac ([] :: u8 list list)) 0x300 6 = [0, 1, 2, 3, 4, 5]"
      "get_bytes (demo_ether_mac ([] :: u8 list list)) 0x30C 2 = [12, 13]"
      "get_bytes (demo_ether_mac ([] :: u8 list list)) 0x400 4 = [0, 1, 2, 3]"
    by (simp_all add: get_bytes_def mem_read_def demo_ether_mac_def mac_access upt_conv_Cons)
  have c: "get16 (demo_ether_mac ([] :: u8 list list)) 0x100 = 249" "get32 (demo_ether_mac ([] :: u8 list list)) 0x104 = 0x200"
    by (simp_all add: demo_ether_mac_def get_put_apart sep_def)
  show ?thesis
    using EtherWrite_sends_frame [where v = demo_vars and s = "demo_ether_mac []" and pb = "0xE6" and wds = "0x200"
        and hdr = "0x300" and n = 14 and bs = "[(0x400, 4)]" and D = demo_dev and dce = 0] b c g
    by (simp add: demo_vars_def demo_net_def sep_def demo_dev_def demo_ether_mac_def)
qed


end
