(* ===== verification/CodeStubs.thy ===== *)
theory CodeStubs
  imports MacMemory
begin

text \<open>
  The blocks of 68k routines that the emulator writes into Mac memory when a component is opened or
  the external file system is installed: the routines one after the other, each checked to end where
  the layout of the block says that the next one begins.
\<close>

section \<open>Writing the routines\<close>

datatype code_item = I16 u16 | I32 u32

fun put_code :: "u32 \<Rightarrow> code_item list \<Rightarrow> 'h mac \<Rightarrow> u32 \<times> 'h mac" where
  "put_code p [] s = (p, s)"
| "put_code p (I16 w # its) s = put_code (p + 2) its (put16 p w s)"
| "put_code p (I32 l # its) s = put_code (p + 4) its (put32 p l s)"

text \<open>\<open>False\<close> is the fatal error of a routine that does not end where the next begins.\<close>

fun put_routines :: "u32 \<Rightarrow> u32 \<Rightarrow> (code_item list \<times> u32) list \<Rightarrow> 'h mac \<Rightarrow> bool \<times> 'h mac" where
  "put_routines base p [] s = (True, s)"
| "put_routines base p ((items, end_offset) # rs) s =
     (let (p1, s1) = put_code p items s in
      if p1 - base \<noteq> end_offset then (False, s1) else put_routines base p1 rs s1)"

section \<open>The bytes of the routines\<close>

fun item_bytes :: "code_item \<Rightarrow> u8 list" where
  "item_bytes (I16 w) = [hi8 w, lo8 w]"
| "item_bytes (I32 l) = [byte3 l, byte2 l, byte1 l, byte0 l]"

definition code_bytes :: "code_item list \<Rightarrow> u8 list" where
  "code_bytes its = concat (map item_bytes its)"

lemma code_bytes_simps [simp]: "code_bytes [] = []" "code_bytes (i # its) = item_bytes i @ code_bytes its"
  by (simp_all add: code_bytes_def)

fun laid_out :: "u32 \<Rightarrow> (code_item list \<times> u32) list \<Rightarrow> bool" where
  "laid_out start [] = True"
| "laid_out start ((its, end_offset) # rs) \<longleftrightarrow>
     start + word_of_nat (length (code_bytes its)) = end_offset \<and> laid_out end_offset rs"

lemma put_code_eq:
  "put_code p its s = (p + word_of_nat (length (code_bytes its)), put_bytes p (code_bytes its) s)"
proof (induction p its s rule: put_code.induct)
  case (1 p s)
  then show ?case by (simp add: put_bytes_def Host2Mac_memcpy_def)
next
  case (2 p w its s)
  have "put_bytes p ([hi8 w, lo8 w] @ code_bytes its) s = put_bytes (p + 2) (code_bytes its) (put16 p w s)"
    unfolding put_bytes_append by (simp add: put16_bytes)
  with 2 show ?case by (simp add: add.commute add.left_commute)
next
  case (3 p l its s)
  have "put_bytes p ([byte3 l, byte2 l, byte1 l, byte0 l] @ code_bytes its) s =
          put_bytes (p + 4) (code_bytes its) (put32 p l s)"
    unfolding put_bytes_append by (simp add: put32_bytes)
  with 3 show ?case by (simp add: add.commute add.left_commute)
qed

lemma put_routines_eq:
  "laid_out start rs \<Longrightarrow>
     put_routines base (base + start) rs s = (True, put_bytes (base + start) (concat (map (code_bytes \<circ> fst) rs)) s)"
proof (induction rs arbitrary: start s)
  case Nil
  then show ?case by (simp add: put_bytes_def Host2Mac_memcpy_def)
next
  case (Cons r rs)
  obtain its e where r: "r = (its, e)" by force
  with Cons.prems have e: "start + word_of_nat (length (code_bytes its)) = e" and rest: "laid_out e rs" by auto
  have p: "base + start + word_of_nat (length (code_bytes its)) = base + e" by (simp add: e [symmetric] add.assoc)
  show ?case
    by (simp add: r put_code_eq p Cons.IH [OF rest] put_bytes_append)
qed

end
