(* ===== verification/Audio.thy ===== *)
theory Audio
  imports MacosUtil CodeStubs
begin

text \<open>
  "audio.cpp": the sound output component that Mac OS calls through AudioDispatch(), and the sound
  input driver. The component keeps a block of 68k routines in Mac memory through which it calls the
  Apple Mixer. The platform's sound output is the record \<open>audio_sys\<close> over the variables of
  "audio.h", its own state \<open>aplat\<close> and the machine. \<open>None\<close> stands for the emulator quitting.
\<close>

abbreviation (input) siNumberChannels :: u32 where "siNumberChannels \<equiv> 0x6368616E"
abbreviation (input) siChannelAvailable :: u32 where "siChannelAvailable \<equiv> 0x63686176"
abbreviation (input) siSampleRate :: u32 where "siSampleRate \<equiv> 0x73726174"
abbreviation (input) siSampleRateAvailable :: u32 where "siSampleRateAvailable \<equiv> 0x73726176"
abbreviation (input) siSampleSize :: u32 where "siSampleSize \<equiv> 0x7373697A"
abbreviation (input) siSampleSizeAvailable :: u32 where "siSampleSizeAvailable \<equiv> 0x73736176"
abbreviation (input) siHardwareMute :: u32 where "siHardwareMute \<equiv> 0x686D7574"
abbreviation (input) siHardwareVolume :: u32 where "siHardwareVolume \<equiv> 0x68766F6C"
abbreviation (input) siHardwareVolumeSteps :: u32 where "siHardwareVolumeSteps \<equiv> 0x68737470"
abbreviation (input) siHardwareBusy :: u32 where "siHardwareBusy \<equiv> 0x68776273"
abbreviation (input) siSpeakerMute :: u32 where "siSpeakerMute \<equiv> 0x736D7574"
abbreviation (input) siSpeakerVolume :: u32 where "siSpeakerVolume \<equiv> 0x73766F6C"
abbreviation (input) siHardwareFormat :: u32 where "siHardwareFormat \<equiv> 0x6877666D"
abbreviation (input) fmt_twos :: u32 where "fmt_twos \<equiv> 0x74776F73"
abbreviation (input) fmt_raw :: u32 where "fmt_raw \<equiv> 0x72617720"

abbreviation (input) kComponentOpenSelect :: u16 where "kComponentOpenSelect \<equiv> -1"
abbreviation (input) kComponentCloseSelect :: u16 where "kComponentCloseSelect \<equiv> -2"
abbreviation (input) kComponentCanDoSelect :: u16 where "kComponentCanDoSelect \<equiv> -3"
abbreviation (input) kComponentVersionSelect :: u16 where "kComponentVersionSelect \<equiv> -4"
abbreviation (input) kComponentRegisterSelect :: u16 where "kComponentRegisterSelect \<equiv> -5"
abbreviation (input) kSoundComponentInitOutputDeviceSelect :: u16 where "kSoundComponentInitOutputDeviceSelect \<equiv> 1"
abbreviation (input) kSoundComponentGetSourceSelect :: u16 where "kSoundComponentGetSourceSelect \<equiv> 3"
abbreviation (input) kSoundComponentAddSourceSelect :: u16 where "kSoundComponentAddSourceSelect \<equiv> 0x101"
abbreviation (input) kSoundComponentRemoveSourceSelect :: u16 where "kSoundComponentRemoveSourceSelect \<equiv> 0x102"
abbreviation (input) kSoundComponentGetInfoSelect :: u16 where "kSoundComponentGetInfoSelect \<equiv> 0x103"
abbreviation (input) kSoundComponentSetInfoSelect :: u16 where "kSoundComponentSetInfoSelect \<equiv> 0x104"
abbreviation (input) kSoundComponentStartSourceSelect :: u16 where "kSoundComponentStartSourceSelect \<equiv> 0x105"
abbreviation (input) kSoundComponentStopSourceSelect :: u16 where "kSoundComponentStopSourceSelect \<equiv> 0x106"
abbreviation (input) kSoundComponentPauseSourceSelect :: u16 where "kSoundComponentPauseSourceSelect \<equiv> 0x107"
abbreviation (input) kSoundComponentPlaySourceBufferSelect :: u16 where "kSoundComponentPlaySourceBufferSelect \<equiv> 0x108"

abbreviation (input) badComponentSelector :: u32 where "badComponentSelector \<equiv> 0x80008002"
abbreviation (input) noHardwareErr :: u32 where "noHardwareErr \<equiv> -200"
abbreviation (input) badChannel :: u32 where "badChannel \<equiv> -205"
abbreviation (input) siInvalidSampleRate :: u32 where "siInvalidSampleRate \<equiv> -225"
abbreviation (input) siInvalidSampleSize :: u32 where "siInvalidSampleSize \<equiv> -226"
abbreviation (input) siDeviceBusyErr :: u32 where "siDeviceBusyErr \<equiv> -227"

abbreviation (input) adatDelegateCall :: u32 where "adatDelegateCall \<equiv> 0"
abbreviation (input) adatOpenMixer :: u32 where "adatOpenMixer \<equiv> 14"
abbreviation (input) adatCloseMixer :: u32 where "adatCloseMixer \<equiv> 36"
abbreviation (input) adatGetInfo :: u32 where "adatGetInfo \<equiv> 54"
abbreviation (input) adatSetInfo :: u32 where "adatSetInfo \<equiv> 78"
abbreviation (input) adatPlaySourceBuffer :: u32 where "adatPlaySourceBuffer \<equiv> 102"
abbreviation (input) adatGetSourceData :: u32 where "adatGetSourceData \<equiv> 126"
abbreviation (input) adatStartSource :: u32 where "adatStartSource \<equiv> 146"
abbreviation (input) adatData :: u32 where "adatData \<equiv> 168"
abbreviation (input) adatMixer :: u32 where "adatMixer \<equiv> 196"
abbreviation (input) adatStreamInfo :: u32 where "adatStreamInfo \<equiv> 200"
abbreviation (input) SIZEOF_adat :: u32 where "SIZEOF_adat \<equiv> 204"
abbreviation (input) cp_what :: u32 where "cp_what \<equiv> 2"
abbreviation (input) cp_params :: u32 where "cp_params \<equiv> 4"
abbreviation (input) sil_count :: u32 where "sil_count \<equiv> 0"
abbreviation (input) sil_infoHandle :: u32 where "sil_infoHandle \<equiv> 2"
abbreviation (input) scd_sampleCount :: u32 where "scd_sampleCount \<equiv> 16"
abbreviation (input) scd_buffer :: u32 where "scd_buffer \<equiv> 20"

record 'p audio_vars =
  sample_rate :: u32
  sample_size :: u32
  channels :: u32
  mixer :: u32
  num_sources :: u32
  sample_rates :: "u32 list"
  sample_sizes :: "u16 list"
  channel_counts :: "u16 list"
  audio_open :: bool
  frames_per_block :: u32
  audio_data :: u32
  open_count :: u32
  AudioAvailable :: bool
  aplat :: 'p

type_synonym ('p, 'h) aud = "'p audio_vars \<times> 'h mac"

record ('p, 'h) audio_sys =
  enter_stream :: "('p, 'h) aud \<Rightarrow> ('p, 'h) aud"
  exit_stream :: "('p, 'h) aud \<Rightarrow> ('p, 'h) aud"
  set_sample_rate :: "nat \<Rightarrow> ('p, 'h) aud \<Rightarrow> bool \<times> ('p, 'h) aud"
  set_sample_size :: "nat \<Rightarrow> ('p, 'h) aud \<Rightarrow> bool \<times> ('p, 'h) aud"
  set_channels :: "nat \<Rightarrow> ('p, 'h) aud \<Rightarrow> bool \<times> ('p, 'h) aud"
  get_main_mute :: "('p, 'h) aud \<Rightarrow> bool"
  get_main_volume :: "('p, 'h) aud \<Rightarrow> u32"
  get_speaker_mute :: "('p, 'h) aud \<Rightarrow> bool"
  get_speaker_volume :: "('p, 'h) aud \<Rightarrow> u32"
  set_main_mute :: "bool \<Rightarrow> ('p, 'h) aud \<Rightarrow> ('p, 'h) aud"
  set_main_volume :: "u32 \<Rightarrow> ('p, 'h) aud \<Rightarrow> ('p, 'h) aud"
  set_speaker_mute :: "bool \<Rightarrow> ('p, 'h) aud \<Rightarrow> ('p, 'h) aud"
  set_speaker_volume :: "u32 \<Rightarrow> ('p, 'h) aud \<Rightarrow> ('p, 'h) aud"

definition AudioReset :: "'p audio_vars \<Rightarrow> 'p audio_vars" where
  "AudioReset v = v\<lparr>audio_data := 0\<rparr>"

section \<open>Information about the output\<close>

text \<open>A list of values in a new handle.\<close>

fun put16s :: "u32 \<Rightarrow> u16 list \<Rightarrow> 'h mac \<Rightarrow> 'h mac" where
  "put16s a [] s = s"
| "put16s a (w # ws) s = put16s (a + 2) ws (put16 a w s)"

fun put32s :: "u32 \<Rightarrow> u32 list \<Rightarrow> 'h mac \<Rightarrow> 'h mac" where
  "put32s a [] s = s"
| "put32s a (w # ws) s = put32s (a + 4) ws (put32 a w s)"

definition info_handle ::
  "'h env68k \<Rightarrow> u32 \<Rightarrow> nat \<Rightarrow> nat \<Rightarrow> (u32 \<Rightarrow> 'h mac \<Rightarrow> 'h mac) \<Rightarrow> 'h mac \<Rightarrow> u32 \<times> 'h mac" where
  "info_handle E infoPtr count width fill s =
     (let (r, s1) = Execute68kTrap E 0xa122 (set_d 0 (word_of_nat (count * width)) (stack_junk E)) s;
          h = areg r 0
      in if h = 0 then (-108, s1)
         else
           let s2 = put32 (infoPtr + sil_infoHandle) h (put16 (infoPtr + sil_count) (word_of_nat count) s1)
           in (0, fill (get32 s2 h) s2))"

text \<open>The description of the current format, as a SoundComponentData record.\<close>

definition put_scd :: "u32 \<Rightarrow> 'p audio_vars \<Rightarrow> 'h mac \<Rightarrow> 'h mac" where
  "put_scd a v s =
     put32 (a + 24) 0 (put32 (a + 20) 0 (put32 (a + 16) (frames_per_block v)
       (put32 (a + 12) (sample_rate v) (put16 (a + 10) (ucast (sample_size v))
         (put16 (a + 8) (ucast (channels v))
           (put32 (a + 4) (if sample_size v = 16 then fmt_twos else fmt_raw) (put32 a 0 s)))))))"

text \<open>A call of the Apple Mixer through one of the 68k routines.\<close>

definition call_mixer_info ::
  "'h env68k \<Rightarrow> u32 \<Rightarrow> u32 \<Rightarrow> u32 \<Rightarrow> u32 \<Rightarrow> 'p audio_vars \<Rightarrow> 'h mac \<Rightarrow> u32 \<times> 'h mac" where
  "call_mixer_info E routine infoPtr selector sourceID v s =
     (if mixer v = 0 then (badComponentSelector, s)
      else
        let (r, s1) = Execute68k E (audio_data v + routine)
              (set_a 2 (mixer v) (set_a 1 sourceID (set_d 0 selector (set_a 0 infoPtr (stack_junk E))))) s
        in (dreg r 0, s1))"

definition AudioGetInfo ::
  "'h env68k \<Rightarrow> ('p, 'h) audio_sys \<Rightarrow> u32 \<Rightarrow> u32 \<Rightarrow> u32 \<Rightarrow> ('p, 'h) aud \<Rightarrow> u32 \<times> 'h mac" where
  "AudioGetInfo E A infoPtr selector sourceID st =
     (let (v, s) = st in
      if selector = siSampleSize then (0, put16 infoPtr (ucast (sample_size v)) s)
      else if selector = siSampleSizeAvailable then
        info_handle E infoPtr (length (sample_sizes v)) 2 (\<lambda>a. put16s a (sample_sizes v)) s
      else if selector = siNumberChannels then (0, put16 infoPtr (ucast (channels v)) s)
      else if selector = siChannelAvailable then
        info_handle E infoPtr (length (channel_counts v)) 2 (\<lambda>a. put16s a (channel_counts v)) s
      else if selector = siSampleRate then (0, put32 infoPtr (sample_rate v) s)
      else if selector = siSampleRateAvailable then
        info_handle E infoPtr (length (sample_rates v)) 4 (\<lambda>a. put32s a (sample_rates v)) s
      else if selector = siSpeakerMute then (0, put16 infoPtr (if get_speaker_mute A st then 1 else 0) s)
      else if selector = siSpeakerVolume then (0, put32 infoPtr (get_speaker_volume A st) s)
      else if selector = siHardwareMute then (0, put16 infoPtr (if get_main_mute A st then 1 else 0) s)
      else if selector = siHardwareVolume then (0, put32 infoPtr (get_main_volume A st) s)
      else if selector = siHardwareVolumeSteps then (0, put16 infoPtr 7 s)
      else if selector = siHardwareBusy then (0, put16 infoPtr (if num_sources v \<noteq> 0 then 1 else 0) s)
      else if selector = siHardwareFormat then (0, put_scd infoPtr v s)
      else call_mixer_info E adatGetInfo infoPtr selector sourceID v s)"

text \<open>Choosing one of the supported values: the three cases of SetInfo have the same shape.\<close>

definition choose_value ::
  "u32 \<Rightarrow> u32 \<Rightarrow> u32 list \<Rightarrow> (nat \<Rightarrow> ('p, 'h) aud \<Rightarrow> bool \<times> ('p, 'h) aud) \<Rightarrow> u32 \<Rightarrow> ('p, 'h) aud \<Rightarrow> u32 \<times> ('p, 'h) aud" where
  "choose_value want current supported pick invalid st =
     (if num_sources (fst st) \<noteq> 0 then (siDeviceBusyErr, st)
      else if want = current then (0, st)
      else
        case find_index (\<lambda>x. x = want) supported of
          None \<Rightarrow> (invalid, st)
        | Some i \<Rightarrow> (case pick i st of (ok, st1) \<Rightarrow> (if ok then 0 else invalid, st1)))"

definition AudioSetInfo ::
  "'h env68k \<Rightarrow> ('p, 'h) audio_sys \<Rightarrow> u32 \<Rightarrow> u32 \<Rightarrow> u32 \<Rightarrow> ('p, 'h) aud \<Rightarrow> u32 \<times> ('p, 'h) aud" where
  "AudioSetInfo E A infoPtr selector sourceID st =
     (let (v, s) = st in
      if selector = siSampleSize then
        choose_value infoPtr (sample_size v) (map ucast (sample_sizes v)) (set_sample_size A) siInvalidSampleSize st
      else if selector = siSampleRate then
        choose_value infoPtr (sample_rate v) (sample_rates v) (set_sample_rate A) siInvalidSampleRate st
      else if selector = siNumberChannels then
        choose_value infoPtr (channels v) (map ucast (channel_counts v)) (set_channels A) badChannel st
      else if selector = siSpeakerMute then (0, set_speaker_mute A ((ucast infoPtr :: u16) \<noteq> 0) st)
      else if selector = siSpeakerVolume then (0, set_speaker_volume A infoPtr st)
      else if selector = siHardwareMute then (0, set_main_mute A ((ucast infoPtr :: u16) \<noteq> 0) st)
      else if selector = siHardwareVolume then (0, set_main_volume A infoPtr st)
      else let (r, s1) = call_mixer_info E adatSetInfo infoPtr selector sourceID v s in (r, v, s1))"

section \<open>The 68k routines\<close>

text \<open>The routines and the offset at which each has to end.\<close>

definition adat_routines :: "(code_item list \<times> u32) list" where
  "adat_routines =
     [([I16 0x598f, I16 0x2f09, I16 0x2f08, I16 0x7024, I16 0xa82a, I16 0x201f, I16 0x4e75], adatOpenMixer),
      ([I16 0x558f, I16 0x2f09, I16 0x2f00, I16 0x2f08, I16 0x203c, I32 0x06140018, I16 0xa800,
       I16 0x301f, I16 0x48c0, I16 0x4e75], adatCloseMixer),
      ([I16 0x558f, I16 0x2f08, I16 0x203c, I32 0x02180018, I16 0xa800, I16 0x301f, I16 0x48c0,
       I16 0x4e75], adatGetInfo),
      ([I16 0x598f, I16 0x2f0a, I16 0x2f09, I16 0x2f00, I16 0x2f08, I16 0x2f3c, I32 0x000c0103,
       I16 0x7000, I16 0xa82a, I16 0x201f, I16 0x4e75], adatSetInfo),
      ([I16 0x598f, I16 0x2f0a, I16 0x2f09, I16 0x2f00, I16 0x2f08, I16 0x2f3c, I32 0x000c0104,
       I16 0x7000, I16 0xa82a, I16 0x201f, I16 0x4e75], adatPlaySourceBuffer),
      ([I16 0x598f, I16 0x2f0a, I16 0x2f09, I16 0x2f08, I16 0x2f00, I16 0x2f3c, I32 0x000c0108,
       I16 0x7000, I16 0xa82a, I16 0x201f, I16 0x4e75], adatGetSourceData),
      ([I16 0x598f, I16 0x2f09, I16 0x2f08, I16 0x2f3c, I32 0x00040004, I16 0x7000, I16 0xa82a,
       I16 0x201f, I16 0x4e75], adatStartSource),
      ([I16 0x598f, I16 0x2f09, I16 0x3f00, I16 0x2f08, I16 0x2f3c, I32 0x00060105, I16 0x7000,
       I16 0xa82a, I16 0x201f, I16 0x4e75], adatData)]"

section \<open>The component\<close>

definition open_component ::
  "'h env68k \<Rightarrow> ('p, 'h) audio_sys \<Rightarrow> ('p, 'h) aud \<Rightarrow> (u32 \<times> ('p, 'h) aud) option" where
  "open_component E A st =
     (let (v, s) = st;
          opened = (\<lambda>(v, s).
            let st1 = (v\<lparr>AudioAvailable := True\<rparr>, s);
                st2 = (if open_count v = 0 then enter_stream A st1 else st1)
            in Some (0, (fst st2)\<lparr>open_count := open_count (fst st2) + 1\<rparr>, snd st2))
      in if audio_data v \<noteq> 0 then opened (v, s)
         else
           let (r, s1) = Execute68kTrap E 0xa040 (set_d 0 SIZEOF_adat (stack_junk E)) s;
               (r, s2) = Execute68kTrap E 0xa31e (set_d 0 SIZEOF_adat r) s1
           in if areg r 0 = 0 then Some (-108, v, s2)
              else
                let d = areg r 0; (ok, s3) = put_routines d (d + adatDelegateCall) adat_routines s2
                in if ok then opened (v\<lparr>audio_data := d\<rparr>, s3) else None)"

definition close_component ::
  "'h env68k \<Rightarrow> ('p, 'h) audio_sys \<Rightarrow> ('p, 'h) aud \<Rightarrow> u32 \<times> ('p, 'h) aud" where
  "close_component E A st =
     (let (v, s) = st; v1 = v\<lparr>open_count := open_count v - 1\<rparr> in
      if open_count v1 = 0 then
        if audio_data v1 \<noteq> 0 \<and> mixer v1 \<noteq> 0 then
          let (r, s1) = Execute68k E (audio_data v1 + adatCloseMixer) (set_a 0 (mixer v1) (stack_junk E)) s
          in (dreg r 0, v1\<lparr>mixer := 0\<rparr>, s1)
        else
          let (v2, s2) = (if audio_data v1 \<noteq> 0
                then (v1\<lparr>audio_data := 0\<rparr>, snd (Execute68kTrap E 0xa01f (set_a 0 (audio_data v1) (stack_junk E)) s))
                else (v1, s))
          in (0, exit_stream A (v2\<lparr>num_sources := 0\<rparr>, s2))
      else (0, v1, s))"

definition can_do :: "u16 \<Rightarrow> bool" where
  "can_do sel \<longleftrightarrow> sel \<in> {kComponentOpenSelect, kComponentCloseSelect, kComponentCanDoSelect,
     kComponentVersionSelect, kComponentRegisterSelect, kSoundComponentInitOutputDeviceSelect,
     kSoundComponentGetSourceSelect, kSoundComponentGetInfoSelect, kSoundComponentSetInfoSelect,
     kSoundComponentStartSourceSelect}"

definition init_output_device :: "'h env68k \<Rightarrow> ('p, 'h) aud \<Rightarrow> u32 \<times> ('p, 'h) aud" where
  "init_output_device E st =
     (let (v, s) = st in
      if \<not> audio_open v then (noHardwareErr, st)
      else if mixer v \<noteq> 0 then (0, st)
      else
        let s1 = put32 (audio_data v + adatStreamInfo) 0 (put_scd (audio_data v + adatData) v s);
            (r, s2) = Execute68k E (audio_data v + adatOpenMixer)
              (set_a 1 (audio_data v + adatData) (set_d 0 0 (set_a 0 (audio_data v + adatMixer) (stack_junk E)))) s1
        in (dreg r 0, v\<lparr>mixer := get32 s2 (audio_data v + adatMixer)\<rparr>, s2))"

definition delegate :: "'h env68k \<Rightarrow> u32 \<Rightarrow> ('p, 'h) aud \<Rightarrow> u32 \<times> ('p, 'h) aud" where
  "delegate E params st =
     (let (v, s) = st;
          (r, s1) = Execute68k E (audio_data v + adatDelegateCall)
            (set_a 1 params (set_a 0 (mixer v) (stack_junk E))) s
      in (dreg r 0, v, s1))"

definition start_source :: "'h env68k \<Rightarrow> u32 \<Rightarrow> ('p, 'h) aud \<Rightarrow> u32 \<times> ('p, 'h) aud" where
  "start_source E p st =
     (let (v, s) = st
      in (0, v, snd (Execute68k E (audio_data v + adatStartSource)
           (set_a 1 (mixer v) (set_a 0 (get32 s p) (set_d 0 (ucast (get16 s (p + 4))) (stack_junk E)))) s)))"

definition play_source_buffer :: "'h env68k \<Rightarrow> u32 \<Rightarrow> ('p, 'h) aud \<Rightarrow> u32 \<times> ('p, 'h) aud" where
  "play_source_buffer E p st =
     (let (v, s) = st;
          (r, s1) = Execute68k E (audio_data v + adatPlaySourceBuffer)
            (set_a 2 (mixer v) (set_a 1 (get32 s (p + 8)) (set_a 0 (get32 s (p + 4))
              (set_d 0 (get32 s p) (stack_junk E))))) s
      in (dreg r 0, v, s1))"

definition AudioDispatch ::
  "'h env68k \<Rightarrow> ('p, 'h) audio_sys \<Rightarrow> u32 \<Rightarrow> u32 \<Rightarrow> ('p, 'h) aud \<Rightarrow> (u32 \<times> ('p, 'h) aud) option" where
  "AudioDispatch E A params globals st =
     (let (v, s) = st; p = params + cp_params; selector = get16 s (params + cp_what) in
      if selector = kComponentOpenSelect then open_component E A st
      else if selector = kComponentCloseSelect then Some (close_component E A st)
      else if selector = kComponentCanDoSelect then Some (if can_do (get16 s p) then 1 else 0, st)
      else if selector = kComponentVersionSelect then Some (0x00010003, st)
      else if selector = kComponentRegisterSelect then Some (0, st)
      else if selector = kSoundComponentInitOutputDeviceSelect then Some (init_output_device E st)
      else if selector = kSoundComponentGetSourceSelect then Some (0, v, put32 (get32 s p) (mixer v) s)
      else if selector = kSoundComponentAddSourceSelect then
        Some (delegate E params (v\<lparr>num_sources := num_sources v + 1\<rparr>, s))
      else if selector = kSoundComponentRemoveSourceSelect then
        Some (delegate E params (v\<lparr>num_sources := num_sources v - 1\<rparr>, s))
      else if selector = kSoundComponentGetInfoSelect then
        (let (r, s1) = AudioGetInfo E A (get32 s p) (get32 s (p + 4)) (get32 s (p + 8)) st in Some (r, v, s1))
      else if selector = kSoundComponentSetInfoSelect then
        Some (AudioSetInfo E A (get32 s p) (get32 s (p + 4)) (get32 s (p + 8)) st)
      else if selector = kSoundComponentStartSourceSelect then Some (start_source E p st)
      else if selector = kSoundComponentStopSourceSelect then Some (delegate E params st)
      else if selector = kSoundComponentPauseSourceSelect then Some (delegate E params st)
      else if selector = kSoundComponentPlaySourceBufferSelect then Some (play_source_buffer E p st)
      else if sint selector \<ge> 0x100 then Some (delegate E params st)
      else Some (badComponentSelector, st))"

section \<open>The sound input driver\<close>

definition SoundInOpen :: "u32 \<Rightarrow> u32 \<Rightarrow> 'h mac \<Rightarrow> u16 \<times> 'h mac" where
  "SoundInOpen pb dce s = (noErr, s)"

definition SoundInPrime :: "u32 \<Rightarrow> u32 \<Rightarrow> 'h mac \<Rightarrow> u16 \<times> 'h mac" where
  "SoundInPrime pb dce s = (paramErr, s)"

definition SoundInControl :: "u32 \<Rightarrow> u32 \<Rightarrow> 'h mac \<Rightarrow> u16 \<times> 'h mac" where
  "SoundInControl pb dce s = (if get16 s (pb + csCode) = 1 then noErr else -231, s)"

definition SoundInStatus :: "u32 \<Rightarrow> u32 \<Rightarrow> 'h mac \<Rightarrow> u16 \<times> 'h mac" where
  "SoundInStatus pb dce s = (-231, s)"

definition SoundInClose :: "u32 \<Rightarrow> u32 \<Rightarrow> 'h mac \<Rightarrow> u16 \<times> 'h mac" where
  "SoundInClose pb dce s = (noErr, s)"

section \<open>The routines fit\<close>

lemma put_routines_ok [simp]: "fst (put_routines d d adat_routines s) = True"
  by (simp add: adat_routines_def)

lemma put_routines_True: "\<exists>s'. put_routines d d adat_routines s = (True, s')"
  using put_routines_ok [of d s] by (cases "put_routines d d adat_routines s") simp

lemma open_component_total: "open_component E A st \<noteq> None"
proof -
  obtain v s where st: "st = (v, s)" by force
  obtain r1 s1 where e1: "Execute68kTrap E 0xa040 (set_d 0 204 (stack_junk E)) s = (r1, s1)" by force
  obtain r2 s2 where e2: "Execute68kTrap E 0xa31e (set_d 0 204 r1) s1 = (r2, s2)" by force
  obtain s3 where e3: "put_routines (areg r2 0) (areg r2 0) adat_routines s2 = (True, s3)"
    using put_routines_True by blast
  show ?thesis
    unfolding st open_component_def by (simp add: e1 e2 e3 Let_def)
qed

lemma AudioDispatch_total: "AudioDispatch E A params globals st \<noteq> None"
  using open_component_total [of E A st]
  by (simp add: AudioDispatch_def Let_def case_prod_beta del: not_None_eq)

section \<open>Choosing a format\<close>

text \<open>The three parameters of the output format.\<close>

datatype param = Rate | Size | Chans

fun param_selector :: "param \<Rightarrow> u32" where
  "param_selector Rate = siSampleRate"
| "param_selector Size = siSampleSize"
| "param_selector Chans = siNumberChannels"

fun param_value :: "param \<Rightarrow> 'p audio_vars \<Rightarrow> u32" where
  "param_value Rate v = sample_rate v"
| "param_value Size v = sample_size v"
| "param_value Chans v = channels v"

fun param_choices :: "param \<Rightarrow> 'p audio_vars \<Rightarrow> u32 list" where
  "param_choices Rate v = sample_rates v"
| "param_choices Size v = map ucast (sample_sizes v)"
| "param_choices Chans v = map ucast (channel_counts v)"

fun param_error :: "param \<Rightarrow> u32" where
  "param_error Rate = siInvalidSampleRate"
| "param_error Size = siInvalidSampleSize"
| "param_error Chans = badChannel"

fun param_set :: "('p, 'h) audio_sys \<Rightarrow> param \<Rightarrow> nat \<Rightarrow> ('p, 'h) aud \<Rightarrow> bool \<times> ('p, 'h) aud" where
  "param_set A Rate = set_sample_rate A"
| "param_set A Size = set_sample_size A"
| "param_set A Chans = set_channels A"

lemma AudioSetInfo_param:
  "AudioSetInfo E A want (param_selector q) src (v, s) =
     choose_value want (param_value q v) (param_choices q v) (param_set A q) (param_error q) (v, s)"
  by (cases q) (simp_all add: AudioSetInfo_def)

text \<open>What the setters of the platform leave alone.\<close>

definition same_core :: "'p audio_vars \<Rightarrow> 'p audio_vars \<Rightarrow> bool" where
  "same_core v v' \<longleftrightarrow> mixer v' = mixer v \<and> num_sources v' = num_sources v \<and> audio_data v' = audio_data v
     \<and> open_count v' = open_count v \<and> AudioAvailable v' = AudioAvailable v"

definition same_audio :: "'p audio_vars \<Rightarrow> 'p audio_vars \<Rightarrow> bool" where
  "same_audio v v' \<longleftrightarrow> same_core v v'
     \<and> sample_rates v' = sample_rates v \<and> sample_sizes v' = sample_sizes v \<and> channel_counts v' = channel_counts v"

lemma same_audio_refl [simp]: "same_audio v v"
  by (simp add: same_audio_def same_core_def)

text \<open>The life of the component: Mac software opens it before it makes any other call, and runs in
  between.\<close>

inductive audio_reach :: "'h env68k \<Rightarrow> ('p, 'h) audio_sys \<Rightarrow> ('p, 'h) aud \<Rightarrow> bool"
  for E :: "'h env68k" and A :: "('p, 'h) audio_sys" where
  reach_start: "audio_data v = 0 \<Longrightarrow> open_count v = 0 \<Longrightarrow> mixer v = 0 \<Longrightarrow> audio_reach E A (v, s)"
| reach_call: "audio_reach E A (v, s) \<Longrightarrow> get16 s (params + cp_what) = kComponentOpenSelect \<or> open_count v \<noteq> 0 \<Longrightarrow>
    open_count v + 1 \<noteq> 0 \<Longrightarrow> AudioDispatch E A params globals (v, s) = Some (r, v', s') \<Longrightarrow>
    audio_reach E A (v', s')"
| reach_mac: "audio_reach E A (v, s) \<Longrightarrow> audio_reach E A (v, s')"

definition audio_inv :: "'p audio_vars \<Rightarrow> bool" where
  "audio_inv v \<longleftrightarrow> (open_count v \<noteq> 0 \<longrightarrow> audio_data v \<noteq> 0) \<and> (mixer v \<noteq> 0 \<longrightarrow> open_count v \<noteq> 0)"

text \<open>The contract of a sound output: a setter that succeeds sets its parameter to the chosen value and
  no other, one that fails changes no parameter, and the other functions change no format.
  \<open>valid\<close> is the state in which the setters may be called.\<close>

locale audio_device =
  fixes A :: "('p, 'h) audio_sys"
    and valid :: "'p audio_vars \<Rightarrow> bool"
  assumes set_param: "valid v \<Longrightarrow> i < length (param_choices q v) \<Longrightarrow> param_set A q i (v, s) = (ok, v', s') \<Longrightarrow>
      same_audio v v' \<and> mem s' = mem s \<and> calls s' = calls s
      \<and> (ok \<longrightarrow> valid v' \<and> (\<forall>q'. param_value q' v' = (if q' = q then param_choices q v ! i else param_value q' v)))
      \<and> (\<not> ok \<longrightarrow> (\<forall>q'. param_value q' v' = param_value q' v))"
    and set_core: "same_core v (fst (snd (param_set A q i (v, s))))"
    and streams_core: "same_core v (fst (enter_stream A (v, s)))" "same_core v (fst (exit_stream A (v, s)))"
    and volume_core: "same_core v (fst (set_main_mute A m (v, s)))" "same_core v (fst (set_main_volume A x (v, s)))"
      "same_core v (fst (set_speaker_mute A m (v, s)))" "same_core v (fst (set_speaker_volume A x (v, s)))"
begin

lemma set_info_outcomes:
  assumes v: "valid v"
  shows "num_sources v \<noteq> 0 \<Longrightarrow> AudioSetInfo E A want (param_selector q) src (v, s) = (siDeviceBusyErr, v, s)"
    and "num_sources v = 0 \<Longrightarrow> want \<noteq> param_value q v \<Longrightarrow> want \<notin> set (param_choices q v) \<Longrightarrow>
      AudioSetInfo E A want (param_selector q) src (v, s) = (param_error q, v, s)"
    and "num_sources v = 0 \<Longrightarrow> want \<in> set (param_choices q v) \<Longrightarrow>
      \<exists>r v' s'. AudioSetInfo E A want (param_selector q) src (v, s) = (r, v', s') \<and> same_audio v v'
        \<and> mem s' = mem s \<and> calls s' = calls s
        \<and> (r = 0 \<and> valid v' \<and> (\<forall>q'. param_value q' v' = (if q' = q then want else param_value q' v))
           \<or> r = param_error q \<and> (\<forall>q'. param_value q' v' = param_value q' v))"
proof -
  let ?r = "AudioSetInfo E A want (param_selector q) src (v, s)"
  show "?r = (siDeviceBusyErr, v, s)" if "num_sources v \<noteq> 0"
    using that by (simp add: AudioSetInfo_param choose_value_def)
  show "?r = (param_error q, v, s)"
    if "num_sources v = 0" "want \<noteq> param_value q v" "want \<notin> set (param_choices q v)"
  proof -
    have "find_index (\<lambda>x. x = want) (param_choices q v) = None" using that(3) by (auto simp: find_index_None)
    then show ?thesis using that(1,2) by (simp add: AudioSetInfo_param choose_value_def)
  qed
  show "\<exists>r v' s'. ?r = (r, v', s') \<and> same_audio v v' \<and> mem s' = mem s \<and> calls s' = calls s
        \<and> (r = 0 \<and> valid v' \<and> (\<forall>q'. param_value q' v' = (if q' = q then want else param_value q' v))
           \<or> r = param_error q \<and> (\<forall>q'. param_value q' v' = param_value q' v))"
    if n: "num_sources v = 0" and m: "want \<in> set (param_choices q v)"
  proof (cases "want = param_value q v")
    case True
    then have "?r = (0, v, s)" using n by (simp add: AudioSetInfo_param choose_value_def)
    then show ?thesis using True v by auto
  next
    case False
    have "find_index (\<lambda>x. x = want) (param_choices q v) \<noteq> None"
      using m find_index_None [of "\<lambda>x. x = want" "param_choices q v"] by blast
    then obtain i where i: "find_index (\<lambda>x. x = want) (param_choices q v) = Some i" by blast
    have ix: "i < length (param_choices q v)" "param_choices q v ! i = want" using find_index_SomeD [OF i] by simp_all
    obtain ok v' s' where st: "param_set A q i (v, s) = (ok, v', s')" by (rule prod_cases3)
    have "?r = (if ok then 0 else param_error q, v', s')"
      using n False i st by (simp add: AudioSetInfo_param choose_value_def)
    then show ?thesis using set_param [OF v ix(1) st] ix(2) by (cases ok) simp_all
  qed
qed

lemma AudioSetInfo_core: "same_core v (fst (snd (AudioSetInfo E A infoPtr selector src (v, s))))"
proof -
  have c: "same_core v v" by (simp add: same_core_def)
  have pick: "same_core v (fst (snd (choose_value w cur sup (param_set A q) e (v, s))))" for w cur sup q e
    using set_core [of v q _ s] c
    by (simp add: choose_value_def case_prod_beta split: option.splits)
  note p = pick [of _ _ _ Rate, simplified] pick [of _ _ _ Size, simplified] pick [of _ _ _ Chans, simplified]
  show ?thesis
    using c p volume_core [of v _ s] by (simp add: AudioSetInfo_def case_prod_beta Let_def)
qed

lemma open_component_inv:
  assumes "audio_inv v" and "open_count v + 1 \<noteq> 0" and "open_component E A (v, s) = Some (r, v', s')"
  shows "audio_inv v'"
proof -
  obtain r1 s1 where e1: "Execute68kTrap E 0xa040 (set_d 0 204 (stack_junk E)) s = (r1, s1)" by force
  obtain r2 s2 where e2: "Execute68kTrap E 0xa31e (set_d 0 204 r1) s1 = (r2, s2)" by force
  obtain s3 where e3: "put_routines (areg r2 0) (areg r2 0) adat_routines s2 = (True, s3)"
    using put_routines_True by blast
  have opened: "audio_inv ((fst (if open_count w = 0 then enter_stream A (w\<lparr>AudioAvailable := True\<rparr>, t)
        else (w\<lparr>AudioAvailable := True\<rparr>, t)))
      \<lparr>open_count := open_count (fst (if open_count w = 0 then enter_stream A (w\<lparr>AudioAvailable := True\<rparr>, t)
        else (w\<lparr>AudioAvailable := True\<rparr>, t))) + 1\<rparr>)"
    if "audio_data w \<noteq> 0" "open_count w = open_count v" "mixer w = mixer v" for w t
    using streams_core(1) [of "w\<lparr>AudioAvailable := True\<rparr>" t] that assms(1,2)
    by (auto simp: audio_inv_def same_core_def)
  show ?thesis
  proof (cases "audio_data v \<noteq> 0")
    case True
    then show ?thesis using assms(3) opened [of v s] by (auto simp: open_component_def Let_def)
  next
    case False
    show ?thesis
    proof (cases "areg r2 0 = 0")
      case True
      then show ?thesis using False assms(1,3) by (auto simp: open_component_def e1 e2 Let_def)
    next
      case nz: False
      then show ?thesis
        using False assms(3) opened [of "v\<lparr>audio_data := areg r2 0\<rparr>" s3]
        by (auto simp: open_component_def e1 e2 e3 Let_def)
    qed
  qed
qed

lemma close_component_inv:
  assumes "audio_inv v" and "open_count v \<noteq> 0" and "close_component E A (v, s) = (r, v', s')"
  shows "audio_inv v'"
proof (cases "open_count v - 1 = 0")
  case False
  then show ?thesis using assms by (auto simp: close_component_def audio_inv_def)
next
  case True
  show ?thesis
  proof (cases "mixer v = 0")
    case m: True
    define w where "w = v\<lparr>open_count := open_count v - 1, audio_data := 0, num_sources := 0\<rparr>"
    have "audio_data v \<noteq> 0" using assms(1,2) by (simp add: audio_inv_def)
    then have "v' = fst (exit_stream A (w, snd (Execute68kTrap E 0xa01f (set_a 0 (audio_data v) (stack_junk E)) s)))"
      using assms(3) m True by (auto simp: close_component_def Let_def w_def)
    then show ?thesis
      using streams_core(2) [of w] m True by (simp add: audio_inv_def same_core_def w_def)
  next
    case False
    then show ?thesis
      using assms True by (auto simp: close_component_def Let_def audio_inv_def case_prod_beta)
  qed
qed

lemma AudioDispatch_inv:
  assumes inv: "audio_inv v" and op: "get16 s (params + 2) = kComponentOpenSelect \<or> open_count v \<noteq> 0"
    and nw: "open_count v + 1 \<noteq> 0" and d: "AudioDispatch E A params globals (v, s) = Some (r, v', s')"
  shows "audio_inv v'"
proof (cases "get16 s (params + 2) = kComponentOpenSelect")
  case True
  then show ?thesis
    using d open_component_inv [OF inv nw, of E s r v' s'] by (simp add: AudioDispatch_def)
next
  case no: False
  then have oc: "open_count v \<noteq> 0" using op by simp
  show ?thesis
  proof (cases "get16 s (params + 2) = kComponentCloseSelect")
    case True
    then show ?thesis
      using d close_component_inv [OF inv oc, of E s r v' s'] by (simp add: AudioDispatch_def)
  next
    case False
    have del: "audio_inv (fst (snd (delegate E params (w, s))))" if "audio_inv w" for w
      using that by (simp add: delegate_def case_prod_beta)
    have ns: "audio_inv (v\<lparr>num_sources := n\<rparr>)" for n using inv by (simp add: audio_inv_def)
    have init: "audio_inv (fst (snd (init_output_device E (v, s))))"
      using inv oc by (simp add: init_output_device_def case_prod_beta Let_def audio_inv_def)
    have seti: "audio_inv (fst (snd (AudioSetInfo E A a b c (v, s))))" for a b c
      using AudioSetInfo_core [of v E a b c s] inv by (simp add: audio_inv_def same_core_def)
    have others: "audio_inv (fst (snd (start_source E p (v, s))))" "audio_inv (fst (snd (play_source_buffer E p (v, s))))" for p
      using inv by (simp_all add: start_source_def play_source_buffer_def case_prod_beta)
    have "v' = fst (snd (the (AudioDispatch E A params globals (v, s))))" using d by simp
    also have "audio_inv \<dots>"
      using no False del [OF inv] del [OF ns] init seti others inv
      by (simp add: AudioDispatch_def Let_def case_prod_beta)
    finally show ?thesis .
  qed
qed

lemma reach_inv: "audio_reach E A st \<Longrightarrow> audio_inv (fst st)"
proof (induction rule: audio_reach.induct)
  case (reach_start v s)
  then show ?case by (simp add: audio_inv_def)
next
  case (reach_call v s params r v' s' globals)
  then show ?case using AudioDispatch_inv by simp
next
  case (reach_mac v s s')
  then show ?case by simp
qed

end

end
