(* ===== verification/AudioSDL.thy ===== *)
theory AudioSDL
  imports Audio Prefs
begin

text \<open>
  "SDL/audio_sdl.cpp" without the CUE sheet player: the sound output of the component on the SDL
  library. The library's device is the record \<open>sdl_dev\<close>. The stream function runs on a thread of the
  library and waits for the audio interrupt, so the two are run one after the other. \<open>None\<close> stands for a copy
  with a negative length.
\<close>

record sdl_audio =
  rate_index :: nat
  size_index :: nat
  count_index :: nat
  silence_byte :: u8

record 'h sdl_dev =
  sdl_OpenAudio :: "u32 \<Rightarrow> bool \<Rightarrow> u16 \<Rightarrow> 'h \<Rightarrow> u8 option \<times> 'h"
  sdl_CloseAudio :: "'h \<Rightarrow> 'h"

type_synonym 'h saud = "(sdl_audio, 'h) aud"

section \<open>Opening the device\<close>

definition set_audio_status_format :: "sdl_audio audio_vars \<Rightarrow> sdl_audio audio_vars" where
  "set_audio_status_format v =
     v\<lparr>sample_rate := sample_rates v ! rate_index (aplat v),
       sample_size := ucast (sample_sizes v ! size_index (aplat v)),
       channels := ucast (channel_counts v ! count_index (aplat v))\<rparr>"

definition default_formats :: "sdl_audio audio_vars \<Rightarrow> sdl_audio audio_vars" where
  "default_formats v =
     (if sample_sizes v = [] then
        let rs = sample_rates v @ [push_bit 16 11025, push_bit 16 22050, push_bit 16 44100];
            cs = channel_counts v @ [1, 2]
        in v\<lparr>sample_rates := rs, sample_sizes := [8, 16], channel_counts := cs,
             aplat := (aplat v)\<lparr>rate_index := length rs - 1, size_index := 1, count_index := length cs - 1\<rparr>\<rparr>
      else v)"

definition open_sdl_audio :: "'h sdl_dev \<Rightarrow> 'h saud \<Rightarrow> bool \<times> 'h saud" where
  "open_sdl_audio H st =
     (let (v, s) = st; v1 = default_formats v in
      case sdl_OpenAudio H (drop_bit 16 (sample_rates v1 ! rate_index (aplat v1)))
             (sample_sizes v1 ! size_index (aplat v1) = 8) (channel_counts v1 ! count_index (aplat v1)) (host s) of
        (None, h) \<Rightarrow> (False, v1, s\<lparr>host := h\<rparr>)
      | (Some sb, h) \<Rightarrow>
          (True, v1\<lparr>frames_per_block := 4096, aplat := (aplat v1)\<lparr>silence_byte := sb\<rparr>\<rparr>, s\<lparr>host := h\<rparr>))"

definition open_audio :: "'h sdl_dev \<Rightarrow> 'h saud \<Rightarrow> bool \<times> 'h saud" where
  "open_audio H st =
     (let (ok, v, s) = open_sdl_audio H st in
      if ok then (True, (set_audio_status_format v)\<lparr>audio_open := True\<rparr>, s) else (False, v, s))"

definition close_audio :: "'h sdl_dev \<Rightarrow> 'h saud \<Rightarrow> 'h saud" where
  "close_audio H st = (let (v, s) = st in (v\<lparr>audio_open := False\<rparr>, s\<lparr>host := sdl_CloseAudio H (host s)\<rparr>))"

definition AudioInit :: "'h sdl_dev \<Rightarrow> prefs \<Rightarrow> 'h saud \<Rightarrow> 'h saud" where
  "AudioInit H prefs st =
     (let (v, s) = st;
          v1 = v\<lparr>sample_rate := push_bit 16 44100, sample_size := 16, channels := 2, mixer := 0, num_sources := 0\<rparr>
      in if PrefsFindBool ''nosound'' prefs then (v1, s) else snd (open_audio H (v1, s)))"

definition AudioExit :: "'h sdl_dev \<Rightarrow> 'h saud \<Rightarrow> 'h saud" where
  "AudioExit H st = close_audio H st"

section \<open>Choosing the format\<close>

definition sdl_set_sample_rate :: "'h sdl_dev \<Rightarrow> nat \<Rightarrow> 'h saud \<Rightarrow> bool \<times> 'h saud" where
  "sdl_set_sample_rate H index st =
     (let (v, s) = close_audio H st in open_audio H (v\<lparr>aplat := (aplat v)\<lparr>rate_index := index\<rparr>\<rparr>, s))"

definition sdl_set_sample_size :: "'h sdl_dev \<Rightarrow> nat \<Rightarrow> 'h saud \<Rightarrow> bool \<times> 'h saud" where
  "sdl_set_sample_size H index st =
     (let (v, s) = close_audio H st in open_audio H (v\<lparr>aplat := (aplat v)\<lparr>size_index := index\<rparr>\<rparr>, s))"

definition sdl_set_channels :: "'h sdl_dev \<Rightarrow> nat \<Rightarrow> 'h saud \<Rightarrow> bool \<times> 'h saud" where
  "sdl_set_channels H index st =
     (let (v, s) = close_audio H st in open_audio H (v\<lparr>aplat := (aplat v)\<lparr>count_index := index\<rparr>\<rparr>, s))"

text \<open>SDL has no volume controls.\<close>

definition sdl_audio :: "'h sdl_dev \<Rightarrow> (sdl_audio, 'h) audio_sys" where
  "sdl_audio H =
     \<lparr>enter_stream = (\<lambda>st. st), exit_stream = (\<lambda>st. st),
      set_sample_rate = sdl_set_sample_rate H, set_sample_size = sdl_set_sample_size H,
      set_channels = sdl_set_channels H,
      get_main_mute = (\<lambda>st. False), get_main_volume = (\<lambda>st. 0x01000100),
      get_speaker_mute = (\<lambda>st. False), get_speaker_volume = (\<lambda>st. 0x01000100),
      set_main_mute = (\<lambda>m st. st), set_main_volume = (\<lambda>x st. st),
      set_speaker_mute = (\<lambda>m st. st), set_speaker_volume = (\<lambda>x st. st)\<rparr>"

section \<open>Playing\<close>

definition AudioInterrupt :: "'h env68k \<Rightarrow> 'p audio_vars \<Rightarrow> 'h mac \<Rightarrow> 'h mac" where
  "AudioInterrupt E v s =
     (if mixer v \<noteq> 0
      then snd (Execute68k E (audio_data v + adatGetSourceData)
             (set_a 1 (mixer v) (set_a 0 (audio_data v + adatStreamInfo) (stack_junk E))) s)
      else put32 (audio_data v + adatStreamInfo) 0 s)"

definition work_size :: "'p audio_vars \<Rightarrow> u32 \<Rightarrow> 'h mac \<Rightarrow> int" where
  "work_size v info s = sint (get32 s (info + scd_sampleCount) * drop_bit 3 (sample_size v) * channels v)"

definition stream_func ::
  "'h env68k \<Rightarrow> nat \<Rightarrow> sdl_audio audio_vars \<Rightarrow> 'h mac \<Rightarrow> (u8 list \<times> 'h mac) option" where
  "stream_func E stream_len v s =
     (let silence = replicate stream_len (silence_byte (aplat v)) in
      if num_sources v = 0 then Some (silence, s)
      else
        let s1 = AudioInterrupt E v s; info = get32 s1 (audio_data v + adatStreamInfo) in
        if info = 0 then Some (silence, s1)
        else
          let w = min (work_size v info s1) (int stream_len) in
          if w = 0 then Some (silence, s1)
          else if w < 0 then None
          else Some (get_bytes s1 (get32 s1 (info + scd_buffer)) (nat w)
                 @ replicate (stream_len - nat w) (silence_byte (aplat v)), s1))"

section \<open>The format in use\<close>

text \<open>The indices point at the format that the component reports.\<close>

definition format_ok :: "sdl_audio audio_vars \<Rightarrow> bool" where
  "format_ok v \<longleftrightarrow> rate_index (aplat v) < length (sample_rates v) \<and> size_index (aplat v) < length (sample_sizes v)
     \<and> count_index (aplat v) < length (channel_counts v)
     \<and> sample_rate v = sample_rates v ! rate_index (aplat v)
     \<and> sample_size v = ucast (sample_sizes v ! size_index (aplat v))
     \<and> channels v = ucast (channel_counts v ! count_index (aplat v))"

lemma format_sizes: "format_ok v \<Longrightarrow> sample_sizes v \<noteq> []"
  by (auto simp: format_ok_def)

text \<open>Reopening with other indices: the format follows the indices when the device opens, and nothing but
  the open flag changes when it does not.\<close>

lemma reopen_cases:
  fixes s :: "'h mac"
  assumes "sample_sizes v \<noteq> []" and "open_audio H (v, s) = (ok, v', s')"
  shows "ok \<Longrightarrow> \<exists>sb. v' = (set_audio_status_format (v\<lparr>frames_per_block := 4096,
             aplat := (aplat v)\<lparr>silence_byte := sb\<rparr>\<rparr>))\<lparr>audio_open := True\<rparr>"
    and "\<not> ok \<Longrightarrow> v' = v" and "mem s' = mem s" and "calls s' = calls s"
proof -
  obtain r h where o: "sdl_OpenAudio H (drop_bit 16 (sample_rates v ! rate_index (aplat v)))
      (sample_sizes v ! size_index (aplat v) = 8) (channel_counts v ! count_index (aplat v)) (host s) = (r, h)"
    by force
  have d: "default_formats v = v" using assms(1) by (simp add: default_formats_def)
  have eq: "open_audio H (v, s) = (case r of
      None \<Rightarrow> (False, v, s\<lparr>host := h\<rparr>)
    | Some sb \<Rightarrow> (True, (set_audio_status_format (v\<lparr>frames_per_block := 4096,
             aplat := (aplat v)\<lparr>silence_byte := sb\<rparr>\<rparr>))\<lparr>audio_open := True\<rparr>, s\<lparr>host := h\<rparr>))"
    by (simp add: open_audio_def open_sdl_audio_def d o split: option.splits)
  show "ok \<Longrightarrow> \<exists>sb. v' = (set_audio_status_format (v\<lparr>frames_per_block := 4096,
             aplat := (aplat v)\<lparr>silence_byte := sb\<rparr>\<rparr>))\<lparr>audio_open := True\<rparr>"
    "\<not> ok \<Longrightarrow> v' = v" "mem s' = mem s" "calls s' = calls s"
    using assms(2) eq by (auto split: option.splits)
qed

lemma default_formats_core: "same_core v (default_formats v)"
  by (simp add: default_formats_def same_core_def Let_def)

lemma open_audio_core: "same_core v (fst (snd (open_audio H (v, s))))"
  using default_formats_core [of v]
  by (auto simp: open_audio_def open_sdl_audio_def set_audio_status_format_def same_core_def Let_def
      split: prod.splits option.splits)

lemma sdl_set_unfold:
  "param_set (sdl_audio H) q i (v, s) = open_audio H
     (v\<lparr>audio_open := False,
        aplat := (case q of Rate \<Rightarrow> (aplat v)\<lparr>rate_index := i\<rparr> | Size \<Rightarrow> (aplat v)\<lparr>size_index := i\<rparr>
                          | Chans \<Rightarrow> (aplat v)\<lparr>count_index := i\<rparr>)\<rparr>,
      s\<lparr>host := sdl_CloseAudio H (host s)\<rparr>)"
  by (cases q) (simp_all add: sdl_audio_def sdl_set_sample_rate_def sdl_set_sample_size_def sdl_set_channels_def close_audio_def)

lemma all_params: "(\<forall>q. P q) \<longleftrightarrow> P Rate \<and> P Size \<and> P Chans"
  by (metis param.exhaust)

lemma sdl_set_param:
  fixes s :: "'h mac"
  assumes v: "format_ok v" and i: "i < length (param_choices q v)"
    and set: "param_set (sdl_audio H) q i (v, s) = (ok, v', s')"
  shows "same_audio v v' \<and> mem s' = mem s \<and> calls s' = calls s
      \<and> (ok \<longrightarrow> format_ok v' \<and> (\<forall>q'. param_value q' v' = (if q' = q then param_choices q v ! i else param_value q' v)))
      \<and> (\<not> ok \<longrightarrow> (\<forall>q'. param_value q' v' = param_value q' v))"
proof -
  define w where "w = v\<lparr>audio_open := False,
        aplat := (case q of Rate \<Rightarrow> (aplat v)\<lparr>rate_index := i\<rparr> | Size \<Rightarrow> (aplat v)\<lparr>size_index := i\<rparr>
                          | Chans \<Rightarrow> (aplat v)\<lparr>count_index := i\<rparr>)\<rparr>"
  have o: "open_audio H (w, s\<lparr>host := sdl_CloseAudio H (host s)\<rparr>) = (ok, v', s')"
    using set by (simp add: sdl_set_unfold w_def)
  have ne: "sample_sizes w \<noteq> []" using format_sizes [OF v] by (simp add: w_def)
  note r = reopen_cases [OF ne o]
  show ?thesis
  proof (cases ok)
    case True
    obtain sb where v': "v' = (set_audio_status_format (w\<lparr>frames_per_block := 4096,
        aplat := (aplat w)\<lparr>silence_byte := sb\<rparr>\<rparr>))\<lparr>audio_open := True\<rparr>"
      using r(1) [OF True] by blast
    show ?thesis
      using True v i r(3,4)
      by (cases q) (simp_all add: v' w_def set_audio_status_format_def same_audio_def same_core_def format_ok_def all_params)
  next
    case False
    then show ?thesis
      using r(2) [OF False] r(3,4) by (cases q) (simp_all add: w_def same_audio_def same_core_def all_params)
  qed
qed

interpretation sdl: audio_device "sdl_audio H" format_ok for H :: "'h sdl_dev"
proof unfold_locales
  fix v q i s ok v' and s' :: "'h mac"
  assume "format_ok v" "i < length (param_choices q v)" "param_set (sdl_audio H) q i (v, s) = (ok, v', s')"
  then show "same_audio v v' \<and> mem s' = mem s \<and> calls s' = calls s
      \<and> (ok \<longrightarrow> format_ok v' \<and> (\<forall>q'. param_value q' v' = (if q' = q then param_choices q v ! i else param_value q' v)))
      \<and> (\<not> ok \<longrightarrow> (\<forall>q'. param_value q' v' = param_value q' v))"
    by (rule sdl_set_param)
next
  fix v q i and s :: "'h mac"
  show "same_core v (fst (snd (param_set (sdl_audio H) q i (v, s))))"
    using open_audio_core [of "v\<lparr>audio_open := False,
        aplat := (case q of Rate \<Rightarrow> (aplat v)\<lparr>rate_index := i\<rparr> | Size \<Rightarrow> (aplat v)\<lparr>size_index := i\<rparr>
                          | Chans \<Rightarrow> (aplat v)\<lparr>count_index := i\<rparr>)\<rparr>" H "s\<lparr>host := sdl_CloseAudio H (host s)\<rparr>"]
    by (simp add: sdl_set_unfold same_core_def)
qed (simp_all add: sdl_audio_def same_core_def)

text \<open>Setting the output format takes effect exactly as asked or not at all. From a consistent state,
  SetInfo for the sample rate, sample size or number of channels is refused with siDeviceBusyErr
  while a source is active, and with the error of the parameter, changing nothing, when the value is
  not among the supported ones; a supported value is set, the other two parameters stay and the
  state is consistent again, unless the device cannot be opened, which is reported with the same
  error and leaves all three reported values as they were. The mixer, the sources, the component's
  data and Mac memory are not touched.\<close>

theorem AudioSetInfo_format:
  fixes s :: "'h mac"
  assumes "format_ok v" and "want \<noteq> param_value q v"
  shows "\<exists>r v' s'. AudioSetInfo E (sdl_audio H) want (param_selector q) src (v, s) = (r, v', s')
     \<and> same_audio v v' \<and> mem s' = mem s \<and> calls s' = calls s
     \<and> (if num_sources v \<noteq> 0 then r = siDeviceBusyErr \<and> (v', s') = (v, s)
        else if want \<notin> set (param_choices q v) then r = param_error q \<and> (v', s') = (v, s)
        else r = 0 \<and> format_ok v' \<and> (\<forall>q'. param_value q' v' = (if q' = q then want else param_value q' v))
             \<or> r = param_error q \<and> (\<forall>q'. param_value q' v' = param_value q' v))"
  using sdl.set_info_outcomes(1) [OF assms(1), of E H want q src s]
    sdl.set_info_outcomes(2) [OF assms(1) _ assms(2), of E H src s]
    sdl.set_info_outcomes(3) [OF assms(1), of want q E H src s]
  by (cases "num_sources v = 0"; cases "want \<in> set (param_choices q v)") auto


text \<open>The stream function fills the library's buffer completely and never beyond its end. Without
  active sources, or when the mixer has no data, it is silence; otherwise it starts with the sound data
  the mixer reports after the interrupt, cut to the buffer, and ends with silence. The copy runs wild
  exactly when the size computed from the mixer's frame count is negative as a 32-bit number.\<close>

theorem stream_func_fills:
  fixes s :: "'h mac" and E :: "'h env68k" and v :: "sdl_audio audio_vars"
  defines "s1 \<equiv> AudioInterrupt E v s"
  defines "info \<equiv> get32 s1 (audio_data v + 200)"
  shows "case stream_func E n v s of
       None \<Rightarrow> num_sources v \<noteq> 0 \<and> info \<noteq> 0 \<and> work_size v info s1 < 0
     | Some (out, s') \<Rightarrow> length out = n
         \<and> (if num_sources v = 0 \<or> info = 0 then out = replicate n (silence_byte (aplat v))
            else 0 \<le> work_size v info s1
              \<and> (let k = min (nat (work_size v info s1)) n
                 in take k out = get_bytes s1 (get32 s1 (info + 20)) k
                  \<and> drop k out = replicate (n - k) (silence_byte (aplat v))))"
proof (cases "num_sources v = 0 \<or> info = 0")
  case True
  then show ?thesis by (auto simp: stream_func_def Let_def s1_def info_def)
next
  case False
  define w where "w = work_size v info s1"
  define m where "m = min w (int n)"
  have eq: "stream_func E n v s = (
      if m = 0 then Some (replicate n (silence_byte (aplat v)), s1) else if m < 0 then None
      else Some (get_bytes s1 (get32 s1 (info + 20)) (nat m) @ replicate (n - nat m) (silence_byte (aplat v)), s1))"
    using False by (auto simp: stream_func_def s1_def info_def w_def m_def Let_def)
  have sign: "m < 0 \<longleftrightarrow> w < 0" by (auto simp: m_def)
  have len: "nat m = min (nat w) n" unfolding m_def by linarith
  consider "w < 0" "m < 0" | "0 \<le> w" "m = 0" "min (nat w) n = 0" | "0 \<le> w" "0 < m" "nat m = min (nat w) n"
  proof (cases "m = 0")
    case True
    then show thesis using sign len that(2) by simp
  next
    case False
    then show thesis using sign len that(1,3) by (cases "w < 0") auto
  qed
  then show ?thesis
  proof cases
    case 1
    then show ?thesis using False by (simp add: eq w_def [symmetric] Let_def)
  next
    case 2
    then show ?thesis using False by (simp add: eq w_def [symmetric] Let_def)
  next
    case 3
    then show ?thesis using False by (simp add: eq w_def [symmetric] Let_def)
  qed
qed

text \<open>A refused sample rate comes back later. When the device cannot be opened at the rate asked for,
  SetInfo reports an error and the reported format stays, but the index of the new rate is kept: the next
  successful change of the sample size changes the sample rate to the refused one as well.\<close>

theorem refused_rate_returns:
  fixes s :: "'h mac"
  assumes v: "format_ok v" and i: "i < length (sample_rates v)" and j: "j < length (sample_sizes v)"
    and fail: "sdl_set_sample_rate H i (v, s) = (False, v1, s1)"
    and ok: "sdl_set_sample_size H j (v1, s1) = (True, v2, s2)"
  shows "sample_rate v1 = sample_rate v \<and> sample_rate v2 = sample_rates v ! i
     \<and> sample_size v2 = ucast (sample_sizes v ! j)"
proof -
  let ?v0 = "v\<lparr>audio_open := False, aplat := (aplat v)\<lparr>rate_index := i\<rparr>\<rparr>"
  have o1: "open_audio H (?v0, s\<lparr>host := sdl_CloseAudio H (host s)\<rparr>) = (False, v1, s1)"
    using fail by (simp add: sdl_set_sample_rate_def close_audio_def)
  have ne: "sample_sizes ?v0 \<noteq> []" using format_sizes [OF v] by simp
  have v1: "v1 = ?v0" using reopen_cases(2) [OF ne o1] by simp
  let ?w = "v1\<lparr>audio_open := False, aplat := (aplat v1)\<lparr>size_index := j\<rparr>\<rparr>"
  have o2: "open_audio H (?w, s1\<lparr>host := sdl_CloseAudio H (host s1)\<rparr>) = (True, v2, s2)"
    using ok by (simp add: sdl_set_sample_size_def close_audio_def)
  have "sample_sizes ?w \<noteq> []" using ne v1 by simp
  then show ?thesis
    using reopen_cases(1) [OF _ o2] v1 by (auto simp: set_audio_status_format_def)
qed

section \<open>Concrete runs\<close>

text \<open>An SDL library that cannot play 16-bit samples at the lowest rate.\<close>

definition demo_sdl :: "unit sdl_dev" where
  "demo_sdl = \<lparr>sdl_OpenAudio = (\<lambda>f u8 c h. (if f = 11025 \<and> \<not> u8 then None else Some 128, h)), sdl_CloseAudio = (\<lambda>h. h)\<rparr>"

definition demo_audio :: "sdl_audio audio_vars" where
  "demo_audio =
     \<lparr>sample_rate = push_bit 16 44100, sample_size = 16, channels = 2, mixer = 0, num_sources = 0,
      sample_rates = [push_bit 16 11025, push_bit 16 44100], sample_sizes = [8, 16], channel_counts = [1, 2],
      audio_open = True, frames_per_block = 4096, audio_data = 0, open_count = 0, AudioAvailable = False,
      aplat = \<lparr>rate_index = 1, size_index = 1, count_index = 1, silence_byte = 0\<rparr>\<rparr>"

definition demo_sound_mac :: "unit mac" where
  "demo_sound_mac = put16 0x102 (-2) \<lparr>mem = (\<lambda>a. 0), host = (), calls = []\<rparr>"

lemma demo_format: "format_ok demo_audio"
  by (simp add: format_ok_def demo_audio_def)

theorem AudioSetInfo_format_witness:
  "\<exists>r v' s'. AudioSetInfo demo_env (sdl_audio demo_sdl) 7 (param_selector Size) 0 (demo_audio, demo_sound_mac) =
     (r, v', s') \<and> r = siInvalidSampleSize \<and> v' = demo_audio"
  using AudioSetInfo_format [OF demo_format, of 7 Size demo_env demo_sdl 0 demo_sound_mac]
  by (auto simp: demo_audio_def)


theorem stream_func_fills_witness:
  "\<exists>s'. stream_func demo_env 4 demo_audio demo_sound_mac = Some ([0, 0, 0, 0], s')"
  using stream_func_fills [where E = demo_env and n = 4 and v = demo_audio and s = demo_sound_mac]
  by (auto simp: demo_audio_def numeral_eq_Suc split: option.splits)

theorem refused_rate_returns_witness:
  "sample_rate (fst (snd (sdl_set_sample_size demo_sdl 0
     (snd (sdl_set_sample_rate demo_sdl 0 (demo_audio, demo_sound_mac)))))) = push_bit 16 11025"
proof -
  let ?v1 = "demo_audio\<lparr>audio_open := False, aplat := (aplat demo_audio)\<lparr>rate_index := 0\<rparr>\<rparr>"
  have f: "sdl_set_sample_rate demo_sdl 0 (demo_audio, demo_sound_mac) = (False, ?v1, demo_sound_mac)"
    by (simp add: sdl_set_sample_rate_def close_audio_def open_audio_def open_sdl_audio_def default_formats_def
        demo_sdl_def demo_audio_def demo_sound_mac_def)
  obtain v2 s2 where o: "sdl_set_sample_size demo_sdl 0 (?v1, demo_sound_mac) = (True, v2, s2)"
    by (simp add: sdl_set_sample_size_def close_audio_def open_audio_def open_sdl_audio_def default_formats_def
        demo_sdl_def demo_audio_def demo_sound_mac_def)
  show ?thesis
    using refused_rate_returns [OF demo_format _ _ f o] f o by (simp add: demo_audio_def)
qed

end
