(* ===== verification/ExtFSHost.thy ===== *)
theory ExtFSHost
  imports MacosUtil
begin

text \<open>
  "Unix/extfs_unix.cpp": the host side of the external file system. Paths are built and helper files
  kept beside each directory's files: Finder information in .finf and resource forks in .rsrc. The
  system calls are the record \<open>posix\<close>; a negative number is a failed call, which leaves its reason in
  \<open>errno_of\<close>. \<open>None\<close> stands for a path that does not fit its buffer.
\<close>

datatype errno = E_OK | ENOENT | EISDIR | EACCES | EPERM | EEXIST | EBUSY | ENOTEMPTY | ENOSPC | EROFS
  | EMFILE | ENOMEM | EIO | E_OTHER nat

datatype open_flag = O_RDONLY | O_WRONLY | O_RDWR

datatype whence = SEEK_SET | SEEK_CUR | SEEK_END

record fstat =
  st_is_dir :: bool
  st_size :: int
  st_mtime :: int

record 'h posix =
  errno_of :: "'h \<Rightarrow> errno"
  p_open :: "string \<Rightarrow> open_flag \<Rightarrow> bool \<Rightarrow> 'h \<Rightarrow> int \<times> 'h"
  p_creat :: "string \<Rightarrow> 'h \<Rightarrow> int \<times> 'h"
  p_close :: "int \<Rightarrow> 'h \<Rightarrow> 'h"
  p_read :: "int \<Rightarrow> nat \<Rightarrow> 'h \<Rightarrow> u8 list option \<times> 'h"
  p_write :: "int \<Rightarrow> u8 list \<Rightarrow> 'h \<Rightarrow> int \<times> 'h"
  p_lseek :: "int \<Rightarrow> int \<Rightarrow> whence \<Rightarrow> 'h \<Rightarrow> int \<times> 'h"
  p_ftruncate :: "int \<Rightarrow> int \<Rightarrow> 'h \<Rightarrow> int \<times> 'h"
  p_stat :: "string \<Rightarrow> 'h \<Rightarrow> fstat option \<times> 'h"
  p_fstat :: "int \<Rightarrow> 'h \<Rightarrow> fstat option \<times> 'h"
  p_writable :: "string \<Rightarrow> 'h \<Rightarrow> bool \<times> 'h"
  p_exists :: "string \<Rightarrow> 'h \<Rightarrow> bool \<times> 'h"
  p_mkdir :: "string \<Rightarrow> 'h \<Rightarrow> int \<times> 'h"
  p_rmdir :: "string \<Rightarrow> 'h \<Rightarrow> int \<times> 'h"
  p_remove :: "string \<Rightarrow> 'h \<Rightarrow> int \<times> 'h"
  p_rename :: "string \<Rightarrow> string \<Rightarrow> 'h \<Rightarrow> int \<times> 'h"
  p_listdir :: "string \<Rightarrow> 'h \<Rightarrow> string list option \<times> 'h"

abbreviation (input) MAX_PATH_LENGTH :: nat where "MAX_PATH_LENGTH \<equiv> 1024"
abbreviation (input) DEFAULT_FINDER_FLAGS :: u16 where "DEFAULT_FINDER_FLAGS \<equiv> 0x0100"
abbreviation (input) fdType :: u32 where "fdType \<equiv> 0"
abbreviation (input) fdCreator :: u32 where "fdCreator \<equiv> 4"
abbreviation (input) fdFlags :: u32 where "fdFlags \<equiv> 8"
abbreviation (input) fdLocation :: u32 where "fdLocation \<equiv> 10"

section \<open>Paths\<close>

text \<open>A buffer for a path takes at most 1023 characters and the terminating zero.\<close>

definition fits :: "string \<Rightarrow> string option" where
  "fits p = (if length p < MAX_PATH_LENGTH then Some p else None)"

text \<open>The character before the end of the path is read even when the path is empty.\<close>

definition add_path_component :: "string \<Rightarrow> string \<Rightarrow> string option" where
  "add_path_component path component =
     (if path = [] then None
      else
        let p1 = (if length path < MAX_PATH_LENGTH - 1 \<and> last path \<noteq> CHR ''/'' then path @ ''/'' else path)
        in fits (p1 @ take (MAX_PATH_LENGTH - 1) component))"

text \<open>A path as the part up to the last slash and the part behind it.\<close>

definition last_part :: "string \<Rightarrow> string" where
  "last_part src = rev (takeWhile (\<lambda>c. c \<noteq> CHR ''/'') (rev src))"

definition dir_part :: "string \<Rightarrow> string" where
  "dir_part src = rev (dropWhile (\<lambda>c. c \<noteq> CHR ''/'') (rev src))"

definition make_helper_path :: "string \<Rightarrow> string \<Rightarrow> bool \<Rightarrow> string option" where
  "make_helper_path src add only_dir =
     fits (dir_part src @ take (MAX_PATH_LENGTH - 1) add
       @ (if only_dir then [] else take (MAX_PATH_LENGTH - 1) (last_part src)))"

section \<open>Helper files\<close>

definition strip_slash :: "string \<Rightarrow> string" where
  "strip_slash p = (if p \<noteq> [] \<and> last p = CHR ''/'' then butlast p else p)"

definition create_helper_dir :: "'h posix \<Rightarrow> string \<Rightarrow> string \<Rightarrow> 'h \<Rightarrow> (int \<times> 'h) option" where
  "create_helper_dir P path add h =
     (case make_helper_path path add True of
        None \<Rightarrow> None
      | Some d \<Rightarrow> Some (p_mkdir P (strip_slash d) h))"

text \<open>Opening for writing creates the file.\<close>

definition open_helper :: "'h posix \<Rightarrow> string \<Rightarrow> string \<Rightarrow> open_flag \<Rightarrow> 'h \<Rightarrow> (int \<times> 'h) option" where
  "open_helper P path add flag h =
     (case make_helper_path path add False of
        None \<Rightarrow> None
      | Some helper \<Rightarrow>
          (let create = (flag = O_RDWR \<or> flag = O_WRONLY); (fd, h1) = p_open P helper flag create h in
           if fd < 0 \<and> errno_of P h1 = ENOENT \<and> create then
             (case create_helper_dir P path add h1 of
                None \<Rightarrow> None
              | Some (r, h2) \<Rightarrow> (if r < 0 then Some (r, h2) else Some (p_open P helper flag create h2)))
           else Some (fd, h1)))"

definition open_finf :: "'h posix \<Rightarrow> string \<Rightarrow> open_flag \<Rightarrow> 'h \<Rightarrow> (int \<times> 'h) option" where
  "open_finf P path flag h = open_helper P path ''.finf/'' flag h"

definition open_rsrc :: "'h posix \<Rightarrow> string \<Rightarrow> open_flag \<Rightarrow> 'h \<Rightarrow> (int \<times> 'h) option" where
  "open_rsrc P path flag h = open_helper P path ''.rsrc/'' flag h"

section \<open>Finder information\<close>

definition e2t_translation :: "(string \<times> u32 \<times> u32) list" where
  "e2t_translation =
     [(''.Z'', 0x5A49564D, 0x4C5A4956),
      (''.gz'', 0x477A6970, 0x477A6970),
      (''.hqx'', 0x54455854, 0x53495478),
      (''.bin'', 0x54455854, 0x53495478),
      (''.pdf'', 0x50444620, 0x4341524F),
      (''.ps'', 0x54455854, 0x74747874),
      (''.sit'', 0x53495421, 0x53495478),
      (''.tar'', 0x54415246, 0x54415220),
      (''.uu'', 0x54455854, 0x53495478),
      (''.uue'', 0x54455854, 0x53495478),
      (''.zip'', 0x5A495020, 0x5A495020),
      (''.8svx'', 0x38535658, 0x534E444D),
      (''.aifc'', 0x41494643, 0x54564F44),
      (''.aiff'', 0x41494646, 0x54564F44),
      (''.au'', 0x554C4157, 0x54564F44),
      (''.mid'', 0x4D494449, 0x54564F44),
      (''.midi'', 0x4D494449, 0x54564F44),
      (''.mp2'', 0x4D504720, 0x54564F44),
      (''.mp3'', 0x4D504720, 0x54564F44),
      (''.wav'', 0x57415645, 0x54564F44),
      (''.bmp'', 0x424D5066, 0x6F676C65),
      (''.gif'', 0x47494666, 0x6F676C65),
      (''.lbm'', 0x494C424D, 0x474B4F4E),
      (''.ilbm'', 0x494C424D, 0x474B4F4E),
      (''.jpg'', 0x4A504547, 0x6F676C65),
      (''.jpeg'', 0x4A504547, 0x6F676C65),
      (''.pict'', 0x50494354, 0x6F676C65),
      (''.png'', 0x504E4766, 0x6F676C65),
      (''.sgi'', 0x2E534749, 0x6F676C65),
      (''.tga'', 0x54504943, 0x6F676C65),
      (''.tif'', 0x54494646, 0x6F676C65),
      (''.tiff'', 0x54494646, 0x6F676C65),
      (''.htm'', 0x54455854, 0x4D4F5353),
      (''.html'', 0x54455854, 0x4D4F5353),
      (''.txt'', 0x54455854, 0x74747874),
      (''.rtf'', 0x54455854, 0x4D535744),
      (''.c'', 0x54455854, 0x522A6368),
      (''.C'', 0x54455854, 0x522A6368),
      (''.cc'', 0x54455854, 0x522A6368),
      (''.cpp'', 0x54455854, 0x522A6368),
      (''.cxx'', 0x54455854, 0x522A6368),
      (''.h'', 0x54455854, 0x522A6368),
      (''.hh'', 0x54455854, 0x522A6368),
      (''.hpp'', 0x54455854, 0x522A6368),
      (''.hxx'', 0x54455854, 0x522A6368),
      (''.s'', 0x54455854, 0x522A6368),
      (''.S'', 0x54455854, 0x522A6368),
      (''.i'', 0x54455854, 0x522A6368),
      (''.mpg'', 0x4D504547, 0x54564F44),
      (''.mpeg'', 0x4D504547, 0x54564F44),
      (''.mov'', 0x4D6F6F56, 0x54564F44),
      (''.fli'', 0x464C4920, 0x54564F44),
      (''.avi'', 0x56665720, 0x54564F44),
      (''.qxd'', 0x58444F43, 0x58505233),
      (''.hfv'', 0x4444696D, 0x6464736B),
      (''.dsk'', 0x4444696D, 0x6464736B),
      (''.img'', 0x726F6864, 0x6464736B)]"

definition has_extension :: "string \<Rightarrow> string \<Rightarrow> bool" where
  "has_extension path ext \<longleftrightarrow> length ext \<le> length path \<and> drop (length path - length ext) path = ext"

definition put_type :: "string \<Rightarrow> u32 \<Rightarrow> 'h mac \<Rightarrow> 'h mac" where
  "put_type path finfo s =
     (case find (\<lambda>(ext, ty, creator). has_extension path ext) e2t_translation of
        None \<Rightarrow> s
      | Some (ext, ty, creator) \<Rightarrow> put32 (finfo + fdCreator) creator (put32 (finfo + fdType) ty s))"

definition default_finfo :: "u32 \<Rightarrow> u32 \<Rightarrow> 'h mac \<Rightarrow> 'h mac" where
  "default_finfo finfo fxinfo s =
     (let s1 = put_bytes finfo (replicate 16 0) s;
          s2 = (if fxinfo \<noteq> 0 then put_bytes fxinfo (replicate 16 0) s1 else s1)
      in put32 (finfo + fdLocation) 0xffffffff (put16 (finfo + fdFlags) DEFAULT_FINDER_FLAGS s2))"

text \<open>read() straight to Mac memory; the number of bytes read, or -1.\<close>

definition read_to :: "'h posix \<Rightarrow> int \<Rightarrow> u32 \<Rightarrow> nat \<Rightarrow> 'h mac \<Rightarrow> int \<times> 'h mac" where
  "read_to P fd a n s =
     (case p_read P fd n (host s) of
        (None, h) \<Rightarrow> (-1, s\<lparr>host := h\<rparr>)
      | (Some bs, h) \<Rightarrow> (int (length bs), put_bytes a bs (s\<lparr>host := h\<rparr>)))"

definition get_finfo :: "'h posix \<Rightarrow> string \<Rightarrow> u32 \<Rightarrow> u32 \<Rightarrow> bool \<Rightarrow> 'h mac \<Rightarrow> 'h mac option" where
  "get_finfo P path finfo fxinfo is_dir s =
     (let s1 = default_finfo finfo fxinfo s in
      case open_finf P path O_RDONLY (host s1) of
        None \<Rightarrow> None
      | Some (fd, h) \<Rightarrow>
          (let s2 = s1\<lparr>host := h\<rparr>;
               translate = (\<lambda>s. if is_dir then s else put_type path finfo s)
           in if fd < 0 then Some (translate s2)
              else
                let (n, s3) = read_to P fd finfo 16 s2;
                    (k, s4) = (if fxinfo \<noteq> 0 then read_to P fd fxinfo 16 s3 else (0, s3));
                    s5 = s4\<lparr>host := p_close P fd (host s4)\<rparr>
                in if n + k \<ge> 16 then Some s5 else Some (translate s5)))"

definition set_finfo :: "'h posix \<Rightarrow> string \<Rightarrow> u32 \<Rightarrow> u32 \<Rightarrow> bool \<Rightarrow> 'h mac \<Rightarrow> 'h mac option" where
  "set_finfo P path finfo fxinfo is_dir s =
     (case open_finf P path O_RDWR (host s) of
        None \<Rightarrow> None
      | Some (fd, h) \<Rightarrow>
          (if fd < 0 then Some (s\<lparr>host := h\<rparr>)
           else
             let h1 = snd (p_write P fd (get_bytes s finfo 16) h);
                 h2 = (if fxinfo \<noteq> 0 then snd (p_write P fd (get_bytes s fxinfo 16) h1) else h1)
             in Some (s\<lparr>host := p_close P fd h2\<rparr>)))"

section \<open>Resource forks\<close>

definition get_rfork_size :: "'h posix \<Rightarrow> string \<Rightarrow> 'h \<Rightarrow> (u32 \<times> 'h) option" where
  "get_rfork_size P path h =
     (case open_rsrc P path O_RDONLY h of
        None \<Rightarrow> None
      | Some (fd, h1) \<Rightarrow>
          (if fd < 0 then Some (0, h1)
           else let (n, h2) = p_lseek P fd 0 SEEK_END h1
                in Some (if n < 0 then 0 else word_of_int n, p_close P fd h2)))"

definition open_rfork :: "'h posix \<Rightarrow> string \<Rightarrow> open_flag \<Rightarrow> 'h \<Rightarrow> (int \<times> 'h) option" where
  "open_rfork P path flag h = open_rsrc P path flag h"

definition close_rfork :: "'h posix \<Rightarrow> string \<Rightarrow> int \<Rightarrow> 'h \<Rightarrow> 'h" where
  "close_rfork P path fd h = p_close P fd h"

section \<open>Files and directories\<close>

definition extfs_read :: "'h posix \<Rightarrow> int \<Rightarrow> u32 \<Rightarrow> nat \<Rightarrow> 'h mac \<Rightarrow> int \<times> 'h mac" where
  "extfs_read P fd a n s = read_to P fd a n s"

definition extfs_write :: "'h posix \<Rightarrow> int \<Rightarrow> u8 list \<Rightarrow> 'h \<Rightarrow> int \<times> 'h" where
  "extfs_write P fd bs h = p_write P fd bs h"

text \<open>The directory's own helper directories are removed when it is not empty because of them.\<close>

definition extfs_remove :: "'h posix \<Rightarrow> string \<Rightarrow> 'h \<Rightarrow> (bool \<times> 'h) option" where
  "extfs_remove P path h =
     (case (make_helper_path path ''.finf/'' False, make_helper_path path ''.rsrc/'' False) of
        (Some f, Some r) \<Rightarrow>
          (let h1 = snd (p_remove P f h); h2 = snd (p_remove P r h1); (n, h3) = p_remove P path h2 in
           if n < 0 then
             if errno_of P h3 = EISDIR \<or> errno_of P h3 = ENOTEMPTY then
               (case (add_path_component path ''.finf'', add_path_component path ''.rsrc'') of
                  (Some df, Some dr) \<Rightarrow>
                    (let h4 = snd (p_rmdir P df h3); h5 = snd (p_rmdir P dr h4); (m, h6) = p_rmdir P path h5
                     in Some (m = 0, h6))
                | _ \<Rightarrow> None)
             else Some (False, h3)
           else Some (True, h3))
      | _ \<Rightarrow> None)"

definition rename_helper :: "'h posix \<Rightarrow> string \<Rightarrow> string \<Rightarrow> string \<Rightarrow> 'h \<Rightarrow> 'h option" where
  "rename_helper P old_path new_path add h =
     (case (make_helper_path old_path add False, make_helper_path new_path add False, create_helper_dir P new_path add h) of
        (Some p, Some n, Some (r, h1)) \<Rightarrow> Some (snd (p_rename P p n h1))
      | _ \<Rightarrow> None)"

definition extfs_rename :: "'h posix \<Rightarrow> string \<Rightarrow> string \<Rightarrow> 'h \<Rightarrow> (bool \<times> 'h) option" where
  "extfs_rename P old_path new_path h =
     (case rename_helper P old_path new_path ''.finf/'' h of
        None \<Rightarrow> None
      | Some h1 \<Rightarrow>
          (case rename_helper P old_path new_path ''.rsrc/'' h1 of
             None \<Rightarrow> None
           | Some h2 \<Rightarrow> (let (n, h3) = p_rename P old_path new_path h2 in Some (n = 0, h3))))"

end
