(* ===== verification/ExtFSItems.thy ===== *)
theory ExtFSItems
  imports ExtFSHost Prefs
begin

text \<open>
  "extfs.cpp", its data: the table of file system items that maps the catalog node IDs (CNIDs) of the
  Mac to host paths, the conversion of names and of error codes, and the frame in which the calls
  of the file system are written: an operation may end early with a Mac error code. Items are
  only ever appended, so a pointer to an item is its position in the table. \<open>None\<close> is a buffer
  overrun or a null pointer in the host. stccpy() is that of "AmigaOS-4/stccpy.cpp".
\<close>

abbreviation (input) ROOT_ID :: u32 where "ROOT_ID \<equiv> 2"
abbreviation (input) ROOT_PARENT_ID :: u32 where "ROOT_PARENT_ID \<equiv> 1"
abbreviation (input) fsUsrCNID :: u32 where "fsUsrCNID \<equiv> 16"

abbreviation (input) extFSErr :: u16 where "extFSErr \<equiv> -58"
abbreviation (input) dskFulErr :: u16 where "dskFulErr \<equiv> -34"
abbreviation (input) bdNamErr :: u16 where "bdNamErr \<equiv> -37"
abbreviation (input) fnOpnErr :: u16 where "fnOpnErr \<equiv> -38"
abbreviation (input) eofErr :: u16 where "eofErr \<equiv> -39"
abbreviation (input) posErr :: u16 where "posErr \<equiv> -40"
abbreviation (input) tmfoErr :: u16 where "tmfoErr \<equiv> -42"
abbreviation (input) fnfErr :: u16 where "fnfErr \<equiv> -43"
abbreviation (input) fBsyErr :: u16 where "fBsyErr \<equiv> -47"
abbreviation (input) dupFNErr :: u16 where "dupFNErr \<equiv> -48"
abbreviation (input) rfNumErr :: u16 where "rfNumErr \<equiv> -51"
abbreviation (input) permErr :: u16 where "permErr \<equiv> -54"
abbreviation (input) dirNFErr :: u16 where "dirNFErr \<equiv> -120"

record FSItem =
  fs_id :: u32
  fs_parent_id :: u32
  fs_parent :: "nat option"
  fs_name :: string
  fs_mtime :: int
  cache_dircount :: int

record extfs =
  fs_items :: "FSItem list"
  next_cnid :: u32
  fs_data :: u32
  RootPath :: "string option"
  root_mtime :: int
  ready :: bool
  drive_number :: int
  FS_NAME :: "u8 list"
  VOLUME_NAME :: "u8 list"

section \<open>Operations that may fail\<close>

type_synonym 'h xs = "extfs \<times> 'h mac"
type_synonym ('h, 'a) fsop = "'h xs \<Rightarrow> ((u16 + 'a) \<times> 'h xs) option"

definition ret :: "'a \<Rightarrow> ('h, 'a) fsop" where
  "ret x st = Some (Inr x, st)"

definition os_err :: "u16 \<Rightarrow> ('h, 'a) fsop" where
  "os_err e st = Some (Inl e, st)"

definition crash :: "('h, 'a) fsop" where
  "crash st = None"

definition call :: "('h, 'a) fsop \<Rightarrow> ('a \<Rightarrow> ('h, 'b) fsop) \<Rightarrow> ('h, 'b) fsop" where
  "call m f st =
     (case m st of None \<Rightarrow> None | Some (Inl e, st1) \<Rightarrow> Some (Inl e, st1) | Some (Inr x, st1) \<Rightarrow> f x st1)"

definition look :: "(extfs \<Rightarrow> 'h mac \<Rightarrow> 'a) \<Rightarrow> ('h, 'a) fsop" where
  "look f st = Some (Inr (f (fst st) (snd st)), st)"

definition upd_mac :: "('h mac \<Rightarrow> 'h mac) \<Rightarrow> ('h, unit) fsop" where
  "upd_mac f st = Some (Inr (), fst st, f (snd st))"

definition upd_fs :: "(extfs \<Rightarrow> extfs) \<Rightarrow> ('h, unit) fsop" where
  "upd_fs f st = Some (Inr (), f (fst st), snd st)"

definition on_host :: "('h \<Rightarrow> 'a \<times> 'h) \<Rightarrow> ('h, 'a) fsop" where
  "on_host f st = (case f (host (snd st)) of (x, h) \<Rightarrow> Some (Inr x, fst st, (snd st)\<lparr>host := h\<rparr>))"

definition on_host_opt :: "('h \<Rightarrow> ('a \<times> 'h) option) \<Rightarrow> ('h, 'a) fsop" where
  "on_host_opt f st =
     (case f (host (snd st)) of None \<Rightarrow> None | Some (x, h) \<Rightarrow> Some (Inr x, fst st, (snd st)\<lparr>host := h\<rparr>))"

definition on_mac_opt :: "('h mac \<Rightarrow> 'h mac option) \<Rightarrow> ('h, unit) fsop" where
  "on_mac_opt f st = (case f (snd st) of None \<Rightarrow> None | Some s \<Rightarrow> Some (Inr (), fst st, s))"

definition on_mac :: "('h mac \<Rightarrow> 'a \<times> 'h mac) \<Rightarrow> ('h, 'a) fsop" where
  "on_mac f st = (case f (snd st) of (x, s) \<Rightarrow> Some (Inr x, fst st, s))"

definition the_or_crash :: "'a option \<Rightarrow> ('h, 'a) fsop" where
  "the_or_crash x = (case x of None \<Rightarrow> crash | Some y \<Rightarrow> ret y)"

text \<open>Running one of the 68k routines in the file system's data; the registers go in and come out.\<close>

definition routine :: "'h env68k \<Rightarrow> u32 \<Rightarrow> m68k_regs \<Rightarrow> ('h, m68k_regs) fsop" where
  "routine E offset regs st =
     (let (v, s) = st; (r, s1) = Execute68k E (fs_data v + offset) regs s in Some (Inr r, v, s1))"

text \<open>The result of the call as a whole: a code that is returned early or at the end.\<close>

definition result_of :: "('h, u16) fsop \<Rightarrow> 'h xs \<Rightarrow> (u16 \<times> 'h xs) option" where
  "result_of m st =
     (case m st of None \<Rightarrow> None | Some (Inl e, st1) \<Rightarrow> Some (e, st1) | Some (Inr c, st1) \<Rightarrow> Some (c, st1))"

definition low16 :: "m68k_regs \<Rightarrow> u16" where
  "low16 r = ucast (dreg r 0)"

lemmas fsop_defs = ret_def os_err_def crash_def call_def look_def upd_mac_def upd_fs_def on_host_def
  on_host_opt_def on_mac_opt_def on_mac_def the_or_crash_def

lemma call_simps [simp]:
  "call (ret x) f = f x" "call (os_err e) f = os_err e" "call crash f = crash"
  "call (look g) f st = f (g (fst st) (snd st)) st"
  "call (upd_mac h) k (v, s) = k () (v, h s)" "call (upd_fs h') k (v, s) = k () (h' v, s)"
  by (simp_all add: fsop_defs fun_eq_iff)

lemma call_assoc: "call (call m f) g = call m (\<lambda>x. call (f x) g)"
  by (simp add: call_def fun_eq_iff split: option.splits sum.splits prod.splits)

lemma ret_apply [simp]: "ret x st = Some (Inr x, st)" "os_err e st = Some (Inl e, st)" "crash st = None"
  by (simp_all add: ret_def os_err_def crash_def)

text \<open>What the file system runs on: the 68k environment, the system calls, and what is on the heap.\<close>

record 'h fsenv =
  fs_env :: "'h env68k"
  fs_posix :: "'h posix"
  heap_junk :: int

section \<open>Strings and error codes\<close>

text \<open>Copying at most \<open>n\<close> characters; a source of \<open>n\<close> characters or more is left without its terminating
  zero, so the copy is not a string.\<close>

definition stccpy :: "nat \<Rightarrow> string \<Rightarrow> string option" where
  "stccpy n src = (if length src < n then Some src else None)"

definition to_mac_char :: "char \<Rightarrow> char" where
  "to_mac_char c = (if c = CHR '':'' then CHR ''/'' else c)"

definition to_host_char :: "char \<Rightarrow> char" where
  "to_host_char c = (if c = CHR ''/'' then CHR '':'' else c)"

definition cstr2pstr :: "string \<Rightarrow> u8 list" where
  "cstr2pstr src = word_of_nat (length src) # map (\<lambda>c. of_char (to_mac_char c)) src"

text \<open>The bytes of a Mac name as a C string, which ends at the first zero.\<close>

definition strn2cstr :: "u8 list \<Rightarrow> string" where
  "strn2cstr bs = takeWhile (\<lambda>c. c \<noteq> char_of (0 :: nat)) (map (\<lambda>b. to_host_char (char_of (unat b))) bs)"

text \<open>A Pascal string in Mac memory; a length above 127 is negative as a char and copies without end.\<close>

definition pstrcpy :: "u32 \<Rightarrow> u8 list \<Rightarrow> 'h mac \<Rightarrow> 'h mac option" where
  "pstrcpy dst src s =
     (let size = unat (src ! 0) in if size < 128 then Some (put_bytes dst (take (Suc size) src) s) else None)"

fun errno2oserr :: "errno \<Rightarrow> u16" where
  "errno2oserr E_OK = noErr"
| "errno2oserr ENOENT = fnfErr"
| "errno2oserr EISDIR = fnfErr"
| "errno2oserr EACCES = permErr"
| "errno2oserr EPERM = permErr"
| "errno2oserr EEXIST = dupFNErr"
| "errno2oserr EBUSY = fBsyErr"
| "errno2oserr ENOTEMPTY = fBsyErr"
| "errno2oserr ENOSPC = dskFulErr"
| "errno2oserr EROFS = wPrErr"
| "errno2oserr EMFILE = tmfoErr"
| "errno2oserr ENOMEM = -108"
| "errno2oserr EIO = ioErr"
| "errno2oserr (E_OTHER n) = ioErr"

definition errno_err :: "'h posix \<Rightarrow> ('h, 'a) fsop" where
  "errno_err P = call (look (\<lambda>v s. errno2oserr (errno_of P (host s)))) os_err"

section \<open>The table of items\<close>

definition find_fsitem_by_id :: "u32 \<Rightarrow> FSItem list \<Rightarrow> nat option" where
  "find_fsitem_by_id cnid items = find_index (\<lambda>p. fs_id p = cnid) items"

definition find_named :: "string \<Rightarrow> nat \<Rightarrow> FSItem list \<Rightarrow> nat option" where
  "find_named name parent items = find_index (\<lambda>p. fs_parent p = Some parent \<and> fs_name p = name) items"

text \<open>The count of a new item is not set.\<close>

definition find_fsitem :: "int \<Rightarrow> string \<Rightarrow> nat \<Rightarrow> extfs \<Rightarrow> (nat \<times> extfs) option" where
  "find_fsitem junk name parent v =
     (case find_named name parent (fs_items v) of
        Some i \<Rightarrow> Some (i, v)
      | None \<Rightarrow>
          (case stccpy 32 name of
             None \<Rightarrow> None
           | Some n \<Rightarrow>
               Some (length (fs_items v),
                 v\<lparr>fs_items := fs_items v @ [\<lparr>fs_id = next_cnid v, fs_parent_id = fs_id (fs_items v ! parent),
                                             fs_parent = Some parent, fs_name = n, fs_mtime = 0, cache_dircount = junk\<rparr>],
                   next_cnid := next_cnid v + 1\<rparr>)))"

partial_function (option) path_for_fsitem :: "extfs \<Rightarrow> nat \<Rightarrow> string option" where
  "path_for_fsitem v i =
     (let p = fs_items v ! i in
      if fs_id p = ROOT_PARENT_ID then Some ''''
      else if fs_id p = ROOT_ID then map_option (take (MAX_PATH_LENGTH - 1)) (RootPath v)
      else
        case fs_parent p of
          None \<Rightarrow> None
        | Some j \<Rightarrow>
            Option.bind (path_for_fsitem v j) (\<lambda>path. add_path_component path (fs_name p)))"

definition swap_parent :: "u32 \<Rightarrow> u32 \<Rightarrow> FSItem \<Rightarrow> FSItem" where
  "swap_parent parent1 parent2 p =
     (if fs_parent_id p = parent1 then p\<lparr>fs_parent_id := parent2\<rparr>
      else if fs_parent_id p = parent2 then p\<lparr>fs_parent_id := parent1\<rparr>
      else p)"

definition swap_parent_ids :: "u32 \<Rightarrow> u32 \<Rightarrow> FSItem list \<Rightarrow> FSItem list" where
  "swap_parent_ids parent1 parent2 items = map (swap_parent parent1 parent2) items"

text \<open>What rename and move do with two items so that the old ID stays with the file.\<close>

definition swap_ids :: "nat \<Rightarrow> nat \<Rightarrow> extfs \<Rightarrow> extfs" where
  "swap_ids i j v =
     (let a = fs_id (fs_items v ! i); b = fs_id (fs_items v ! j); items = swap_parent_ids a b (fs_items v);
          items1 = items[i := (items ! i)\<lparr>fs_id := b\<rparr>]
      in v\<lparr>fs_items := items1[j := (items1 ! j)\<lparr>fs_id := a\<rparr>]\<rparr>)"

section \<open>Initialization\<close>

text \<open>The modification time and the count of the first two items are not set.\<close>

definition ExtFSInit ::
  "'h posix \<Rightarrow> prefs \<Rightarrow> string \<Rightarrow> string \<Rightarrow> int \<times> int \<Rightarrow> extfs \<Rightarrow> 'h \<Rightarrow> (extfs \<times> 'h) option" where
  "ExtFSInit P prefs system_name volume_name junk v h =
     (if length system_name < 32 \<and> length volume_name < 32 then
        let root_parent = \<lparr>fs_id = ROOT_PARENT_ID, fs_parent_id = 0, fs_parent = None, fs_name = '''',
                           fs_mtime = fst junk, cache_dircount = snd junk\<rparr>;
            root = \<lparr>fs_id = ROOT_ID, fs_parent_id = ROOT_PARENT_ID, fs_parent = Some 0, fs_name = volume_name,
                    fs_mtime = fst junk, cache_dircount = snd junk\<rparr>;
            v1 = v\<lparr>FS_NAME := cstr2pstr system_name, VOLUME_NAME := cstr2pstr volume_name, fs_items := [root_parent, root],
                   RootPath := PrefsFindString ''extfs'' 0 prefs\<rparr>
        in case RootPath v1 of
             None \<Rightarrow> Some (v1, h)
           | Some path \<Rightarrow>
               (case p_stat P path h of
                  (None, h1) \<Rightarrow> Some (v1, h1)
                | (Some st, h1) \<Rightarrow>
                    (let v2 = v1\<lparr>root_mtime := st_mtime st\<rparr>
                     in Some (if st_is_dir st then v2\<lparr>ready := True\<rparr> else v2, h1)))
      else None)"

definition ExtFSExit :: "extfs \<Rightarrow> extfs" where
  "ExtFSExit v = v\<lparr>fs_items := []\<rparr>"

end
