(* ===== verification/ExtFSPath.thy ===== *)
theory ExtFSPath
  imports ExtFSItems
begin

text \<open>
  "extfs.cpp", from a parameter block to an item: the directory a call starts from, the parsing of
  the pathname with the File System Manager's 68k routines, and the control block of an open file.
\<close>

abbreviation (input) fsDetermineVol :: u32 where "fsDetermineVol \<equiv> 594"
abbreviation (input) fsResolveWDCB :: u32 where "fsResolveWDCB \<equiv> 614"
abbreviation (input) fsGetDefaultVol :: u32 where "fsGetDefaultVol \<equiv> 632"
abbreviation (input) fsGetPathComponentName :: u32 where "fsGetPathComponentName \<equiv> 644"
abbreviation (input) fsParsePathname :: u32 where "fsParsePathname \<equiv> 656"
abbreviation (input) fsResolveFCB :: u32 where "fsResolveFCB \<equiv> 752"
abbreviation (input) fsParseRec :: u32 where "fsParseRec \<equiv> 296"
abbreviation (input) fsReturn :: u32 where "fsReturn \<equiv> 306"
abbreviation (input) fsPB :: u32 where "fsPB \<equiv> 238"
abbreviation (input) ioNamePtr :: u32 where "ioNamePtr \<equiv> 18"
abbreviation (input) ioRefNum :: u32 where "ioRefNum \<equiv> 24"
abbreviation (input) ioWDDirID :: u32 where "ioWDDirID \<equiv> 48"
abbreviation (input) wdDirID :: u32 where "wdDirID \<equiv> 4"
abbreviation (input) ppNamePtr :: u32 where "ppNamePtr \<equiv> 0"
abbreviation (input) ppStartOffset :: u32 where "ppStartOffset \<equiv> 4"
abbreviation (input) ppComponentLength :: u32 where "ppComponentLength \<equiv> 6"
abbreviation (input) ppMoreName :: u32 where "ppMoreName \<equiv> 8"
abbreviation (input) ppFoundDelimiter :: u32 where "ppFoundDelimiter \<equiv> 9"
abbreviation (input) dtmvFullPathname :: u16 where "dtmvFullPathname \<equiv> 1"
abbreviation (input) dtmvVRefNum :: u16 where "dtmvVRefNum \<equiv> 2"
abbreviation (input) dtmvWDRefNum :: u16 where "dtmvWDRefNum \<equiv> 3"
abbreviation (input) dtmvDriveNum :: u16 where "dtmvDriveNum \<equiv> 4"
abbreviation (input) dtmvDefault :: u16 where "dtmvDefault \<equiv> 5"

section \<open>The current directory\<close>

definition start_regs :: "'h fsenv \<Rightarrow> m68k_regs" where
  "start_regs F = stack_junk (fs_env F)"

definition resolve_wdcb :: "'h fsenv \<Rightarrow> u32 \<Rightarrow> u32 \<Rightarrow> m68k_regs \<Rightarrow> ('h, u32) fsop" where
  "resolve_wdcb F pb d r =
     call (look (\<lambda>v s. get16 s (pb + ioVRefNum))) (\<lambda>vref.
     call (routine (fs_env F) fsResolveWDCB
            (set_a 0 (d + fsReturn) (set_d 2 (ucast vref) (set_d 1 0 (set_d 0 0 r))))) (\<lambda>r1.
     call (look (\<lambda>v s. get32 s (get32 s (d + fsReturn) + wdDirID))) (\<lambda>dir.
     if low16 r1 \<noteq> noErr then os_err (low16 r1) else ret dir)))"

definition default_dir :: "'h fsenv \<Rightarrow> u32 \<Rightarrow> m68k_regs \<Rightarrow> ('h, u32) fsop" where
  "default_dir F d r =
     call (upd_mac (put32 (d + fsReturn + ioNamePtr) 0)) (\<lambda>_.
     call (routine (fs_env F) fsGetDefaultVol (set_a 0 (d + fsReturn) r)) (\<lambda>r1.
     call (look (\<lambda>v s. get32 s (d + fsReturn + ioWDDirID))) (\<lambda>dir.
     if low16 r1 \<noteq> noErr then os_err (low16 r1) else ret dir)))"

definition get_current_dir :: "'h fsenv \<Rightarrow> u32 \<Rightarrow> u32 \<Rightarrow> bool \<Rightarrow> ('h, u32) fsop" where
  "get_current_dir F pb dirID no_vol_name =
     call (look (\<lambda>v s. (fs_data v, get32 s (pb + ioNamePtr)))) (\<lambda>(d, name_ptr).
     call (if no_vol_name then upd_mac (put32 (pb + ioNamePtr) 0) else ret ()) (\<lambda>_.
     call (routine (fs_env F) fsDetermineVol
            (set_a 4 (d + fsReturn + 6) (set_a 3 (d + fsReturn + 4) (set_a 2 (d + fsReturn + 2)
              (set_a 1 (d + fsReturn) (set_a 0 pb (start_regs F))))))) (\<lambda>r.
     call (if no_vol_name then upd_mac (put32 (pb + ioNamePtr) name_ptr) else ret ()) (\<lambda>_.
     call (look (\<lambda>v s. get16 s (d + fsReturn))) (\<lambda>status.
     if low16 r \<noteq> noErr then os_err (low16 r)
     else if status = dtmvFullPathname then ret ROOT_ID
     else if status = dtmvVRefNum \<or> status = dtmvDriveNum then ret (if dirID \<noteq> 0 then dirID else ROOT_ID)
     else if status = dtmvWDRefNum then (if dirID \<noteq> 0 then ret dirID else resolve_wdcb F pb d r)
     else if status = dtmvDefault then (if dirID \<noteq> 0 then ret dirID else default_dir F d r)
     else os_err paramErr)))))"

section \<open>Pathnames\<close>

definition get_path_component_name :: "'h fsenv \<Rightarrow> u32 \<Rightarrow> ('h, u16) fsop" where
  "get_path_component_name F rec =
     call (routine (fs_env F) fsGetPathComponentName (set_a 0 rec (start_regs F))) (\<lambda>r. ret (low16 r))"

text \<open>The component at the start offset; the buffer for it has 32 bytes.\<close>

definition component :: "u32 \<Rightarrow> ('h, string) fsop" where
  "component rec =
     call (look (\<lambda>v s.
       let n = unat (get16 s (rec + ppComponentLength)) in
       if n < 32 then
         Some (strn2cstr (get_bytes s (get32 s (rec + ppNamePtr) + ucast (get16 s (rec + ppStartOffset)) + 1) n))
       else None)) the_or_crash"

definition enter_item :: "'h fsenv \<Rightarrow> string \<Rightarrow> nat \<Rightarrow> ('h, nat) fsop" where
  "enter_item F name p =
     call (look (\<lambda>v s. find_fsitem (heap_junk F) name p v)) (\<lambda>res.
     call (the_or_crash res) (\<lambda>(i, v).
     call (upd_fs (\<lambda>_. v)) (\<lambda>_. ret i)))"

definition skip_component :: "u32 \<Rightarrow> u16 \<Rightarrow> ('h, unit) fsop" where
  "skip_component rec n = upd_mac (\<lambda>s. put16 (rec + ppStartOffset) (get16 s (rec + ppStartOffset) + n + 1) s)"

text \<open>One turn of the loop: two delimiters in a row go to the parent, a name before a delimiter goes into
  that directory.\<close>

definition parse_step :: "'h fsenv \<Rightarrow> u32 \<Rightarrow> nat \<times> u32 \<Rightarrow> ('h, nat \<times> u32) fsop" where
  "parse_step F rec pc =
     (let (p, current_dir) = pc in
      call (get_path_component_name F rec) (\<lambda>result.
      if result \<noteq> noErr then os_err result
      else
        call (look (\<lambda>v s. (get16 s (rec + ppComponentLength), get8 s (rec + ppMoreName), fs_items v))) (\<lambda>(len, more, items).
        if len = 0 then
          (if current_dir = ROOT_ID then call (skip_component rec 0) (\<lambda>_. os_err bdNamErr)
           else
             call (the_or_crash (fs_parent (items ! p))) (\<lambda>q.
             call (skip_component rec 0) (\<lambda>_. ret (q, fs_id (items ! q)))))
        else if more \<noteq> 0 then
          call (component rec) (\<lambda>name.
          call (enter_item F name p) (\<lambda>q.
          call (skip_component rec len) (\<lambda>_.
          call (look (\<lambda>v s. fs_id (fs_items v ! q))) (\<lambda>cur. ret (q, cur)))))
        else ret (p, current_dir))))"

partial_function (option) parse_loop ::
  "'h fsenv \<Rightarrow> u32 \<Rightarrow> nat \<times> u32 \<Rightarrow> 'h xs \<Rightarrow> ((u16 + nat \<times> u32) \<times> 'h xs) option" where
  "parse_loop F rec pc st =
     (if get8 (snd st) (rec + ppMoreName) = 0 then Some (Inr pc, st)
      else
        case parse_step F rec pc st of
          None \<Rightarrow> None
        | Some (Inl e, st1) \<Rightarrow> Some (Inl e, st1)
        | Some (Inr pc1, st1) \<Rightarrow> parse_loop F rec pc1 st1)"

definition start_parsing :: "u32 \<Rightarrow> u32 \<Rightarrow> ('h, unit) fsop" where
  "start_parsing rec pb =
     upd_mac (\<lambda>s. put8 (rec + ppFoundDelimiter) 0 (put8 (rec + ppMoreName) 0
       (put16 (rec + ppComponentLength) 0 (put16 (rec + ppStartOffset) 0
         (put32 (rec + ppNamePtr) (get32 s (pb + ioNamePtr)) s)))))"

definition parse_path :: "'h fsenv \<Rightarrow> u32 \<Rightarrow> nat \<Rightarrow> u32 \<Rightarrow> ('h, nat) fsop" where
  "parse_path F rec p current_dir =
     call (get_path_component_name F rec) (\<lambda>result.
     if result \<noteq> noErr then os_err result
     else
       call (look (\<lambda>v s. get16 s (rec + ppComponentLength) = 0 \<and> get8 s (rec + ppFoundDelimiter) \<noteq> 0)) (\<lambda>leading.
       call (if leading then skip_component rec 0 else ret ()) (\<lambda>_.
       call (parse_loop F rec (p, current_dir)) (\<lambda>(q, cur).
       call (look (\<lambda>v s. get16 s (rec + ppComponentLength) = 0)) (\<lambda>is_dir.
       if is_dir then ret q else call (component rec) (\<lambda>name. enter_item F name q))))))"

definition item_path :: "nat \<Rightarrow> ('h, string) fsop" where
  "item_path i = call (look (\<lambda>v s. path_for_fsitem v i)) the_or_crash"

definition get_item_and_path :: "'h fsenv \<Rightarrow> u32 \<Rightarrow> u32 \<Rightarrow> ('h, nat \<times> string) fsop" where
  "get_item_and_path F pb dirID =
     call (get_current_dir F pb dirID False) (\<lambda>current_dir.
     call (look (\<lambda>v s. (find_fsitem_by_id current_dir (fs_items v), fs_data v + fsParseRec))) (\<lambda>(found, rec).
     case found of
       None \<Rightarrow> os_err dirNFErr
     | Some p \<Rightarrow>
         call (start_parsing rec pb) (\<lambda>_.
         call (look (\<lambda>v s. get32 s (rec + ppNamePtr))) (\<lambda>name_ptr.
         call (routine (fs_env F) fsParsePathname (set_a 1 name_ptr (set_a 0 (rec + ppStartOffset) (start_regs F)))) (\<lambda>r.
         call (if low16 r = noErr then parse_path F rec p current_dir
               else
                 call (look (\<lambda>v s. get32 s (pb + ioNamePtr) = 0 \<or> get8 s (get32 s (pb + ioNamePtr)) = 0)) (\<lambda>empty.
                 if empty then ret p else os_err bdNamErr)) (\<lambda>item.
         call (item_path item) (\<lambda>path. ret (item, path))))))))"

section \<open>Open files\<close>

definition find_fcb :: "'h fsenv \<Rightarrow> u16 \<Rightarrow> ('h, u32) fsop" where
  "find_fcb F refNum =
     call (look (\<lambda>v s. fs_data v)) (\<lambda>d.
     call (routine (fs_env F) fsResolveFCB (set_a 0 (d + fsReturn) (set_d 0 (scast refNum) (start_regs F)))) (\<lambda>r.
     call (look (\<lambda>v s. get32 s (d + fsReturn))) (\<lambda>fcb. ret (if low16 r \<noteq> 0 then 0 else fcb))))"

end
