(* ===== verification/ExtFSCatalog.thy ===== *)
theory ExtFSCatalog
  imports ExtFSPath
begin

text \<open>
  "extfs.cpp", the calls of the file system about volumes and about the catalog: mounting, volume
  information, the default directory, file and catalog information. The creation dates are 0, as on hosts without them; the offset
  of the Mac's epoch is that of "AmigaOS-4/sysdeps.h".
\<close>

abbreviation (input) fsDrvStatus :: u32 where "fsDrvStatus \<equiv> 12"
abbreviation (input) fsAllocateVCB :: u32 where "fsAllocateVCB \<equiv> 562"
abbreviation (input) fsAddNewVCB :: u32 where "fsAddNewVCB \<equiv> 578"
abbreviation (input) fsDisposeVCB :: u32 where "fsDisposeVCB \<equiv> 670"
abbreviation (input) fsCheckWDRefNum :: u32 where "fsCheckWDRefNum \<equiv> 682"
abbreviation (input) fsSetDefaultVol :: u32 where "fsSetDefaultVol \<equiv> 694"
abbreviation (input) ioFRefNum :: u32 where "ioFRefNum \<equiv> 24"
abbreviation (input) ioFDirIndex :: u32 where "ioFDirIndex \<equiv> 28"
abbreviation (input) ioFlAttrib :: u32 where "ioFlAttrib \<equiv> 30"
abbreviation (input) ioACUser :: u32 where "ioACUser \<equiv> 31"
abbreviation (input) ioFlFndrInfo :: u32 where "ioFlFndrInfo \<equiv> 32"
abbreviation (input) ioDirID :: u32 where "ioDirID \<equiv> 48"
abbreviation (input) ioFlStBlk :: u32 where "ioFlStBlk \<equiv> 52"
abbreviation (input) ioFlLgLen :: u32 where "ioFlLgLen \<equiv> 54"
abbreviation (input) ioFlPyLen :: u32 where "ioFlPyLen \<equiv> 58"
abbreviation (input) ioFlRStBlk :: u32 where "ioFlRStBlk \<equiv> 62"
abbreviation (input) ioFlRLgLen :: u32 where "ioFlRLgLen \<equiv> 64"
abbreviation (input) ioFlRPyLen :: u32 where "ioFlRPyLen \<equiv> 68"
abbreviation (input) ioFlCrDat :: u32 where "ioFlCrDat \<equiv> 72"
abbreviation (input) ioFlMdDat :: u32 where "ioFlMdDat \<equiv> 76"
abbreviation (input) ioFlBkDat :: u32 where "ioFlBkDat \<equiv> 80"
abbreviation (input) ioFlXFndrInfo :: u32 where "ioFlXFndrInfo \<equiv> 84"
abbreviation (input) ioFlParID :: u32 where "ioFlParID \<equiv> 100"
abbreviation (input) ioFlClpSiz :: u32 where "ioFlClpSiz \<equiv> 104"
abbreviation (input) ioDrDirID :: u32 where "ioDrDirID \<equiv> 48"
abbreviation (input) ioDrNmFls :: u32 where "ioDrNmFls \<equiv> 52"
abbreviation (input) vcbSigWord :: u32 where "vcbSigWord \<equiv> 8"
abbreviation (input) vcbCrDate :: u32 where "vcbCrDate \<equiv> 10"
abbreviation (input) vcbLsMod :: u32 where "vcbLsMod \<equiv> 14"
abbreviation (input) vcbNmFls :: u32 where "vcbNmFls \<equiv> 20"
abbreviation (input) vcbNmAlBlks :: u32 where "vcbNmAlBlks \<equiv> 26"
abbreviation (input) vcbAlBlkSiz :: u32 where "vcbAlBlkSiz \<equiv> 28"
abbreviation (input) vcbClpSiz :: u32 where "vcbClpSiz \<equiv> 32"
abbreviation (input) vcbNxtCNID :: u32 where "vcbNxtCNID \<equiv> 38"
abbreviation (input) vcbFreeBks :: u32 where "vcbFreeBks \<equiv> 42"
abbreviation (input) vcbVN :: u32 where "vcbVN \<equiv> 44"
abbreviation (input) vcbFSID :: u32 where "vcbFSID \<equiv> 76"
abbreviation (input) vcbVRefNum :: u32 where "vcbVRefNum \<equiv> 78"
abbreviation (input) vcbVolBkUp :: u32 where "vcbVolBkUp \<equiv> 94"
abbreviation (input) vcbNmRtDirs :: u32 where "vcbNmRtDirs \<equiv> 112"
abbreviation (input) vcbFilCnt :: u32 where "vcbFilCnt \<equiv> 114"
abbreviation (input) vcbDirCnt :: u32 where "vcbDirCnt \<equiv> 118"
abbreviation (input) dsQRefNum :: u32 where "dsQRefNum \<equiv> 14"
abbreviation (input) AL_BLK_SIZE :: int where "AL_BLK_SIZE \<equiv> 0x4000"
abbreviation (input) CLUMP_SIZE :: u32 where "CLUMP_SIZE \<equiv> 0x4000"
abbreviation (input) TIME_OFFSET :: int where "TIME_OFFSET \<equiv> 0x8b31ef80"
abbreviation (input) MY_FSID :: u16 where "MY_FSID \<equiv> 0x6261"

section \<open>Volumes\<close>

text \<open>A Pascal string buffer of the host as it is copied, padded with zeros.\<close>

definition padded :: "nat \<Rightarrow> u8 list \<Rightarrow> u8 list" where
  "padded n bs = take n (bs @ replicate n 0)"

definition fs_mount_vol :: "u32 \<Rightarrow> ('h, u16) fsop" where
  "fs_mount_vol pb = look (\<lambda>v s. if sint (get16 s (pb + ioVRefNum)) = drive_number v then noErr else extFSErr)"

definition put_vcb :: "extfs \<Rightarrow> u32 \<Rightarrow> 'h mac \<Rightarrow> 'h mac" where
  "put_vcb v vcb s =
     put32 (vcb + vcbDirCnt) 1 (put32 (vcb + vcbFilCnt) 1 (put16 (vcb + vcbFSID) MY_FSID
       (put_bytes (vcb + vcbVN) (padded 28 (VOLUME_NAME v)) (put16 (vcb + vcbFreeBks) 0xffff
         (put32 (vcb + vcbNxtCNID) (next_cnid v) (put32 (vcb + vcbClpSiz) CLUMP_SIZE
           (put32 (vcb + vcbAlBlkSiz) (word_of_int AL_BLK_SIZE) (put16 (vcb + vcbNmAlBlks) 0xffff
             (put16 (vcb + vcbNmRtDirs) 1 (put16 (vcb + vcbNmFls) 1 (put32 (vcb + vcbVolBkUp) 0
               (put32 (vcb + vcbLsMod) (word_of_int (root_mtime v + TIME_OFFSET))
                 (put32 (vcb + vcbCrDate) 0 (put16 (vcb + vcbSigWord) 0x4244 s))))))))))))))"

text \<open>The reference number is taken from the lower half of a 32-bit read.\<close>

definition fs_volume_mount :: "'h fsenv \<Rightarrow> u32 \<Rightarrow> ('h, u16) fsop" where
  "fs_volume_mount F pb =
     call (look (\<lambda>v s. fs_data v)) (\<lambda>d.
     call (routine (fs_env F) fsAllocateVCB (set_a 1 (d + fsReturn + 2) (set_a 0 (d + fsReturn) (start_regs F)))) (\<lambda>r.
     call (look (\<lambda>v s. get32 s (d + fsReturn + 2))) (\<lambda>vcb.
     if low16 r \<noteq> 0 then os_err (low16 r)
     else
       call (look (\<lambda>v s. v)) (\<lambda>v.
       call (upd_mac (put_vcb v vcb)) (\<lambda>_.
       call (routine (fs_env F) fsAddNewVCB (set_a 1 vcb (set_a 0 (d + fsReturn) (set_d 0 (word_of_int (drive_number v)) r)))) (\<lambda>r1.
       call (look (\<lambda>v s. ucast (get32 s (d + fsReturn)) :: u16)) (\<lambda>vRefNum.
       if low16 r1 \<noteq> 0 then os_err (low16 r1)
       else
         call (on_mac (Execute68kTrap (fs_env F) 0xa02f (set_a 0 7 (set_d 0 (word_of_int (drive_number v)) r1)))) (\<lambda>_.
         call (upd_mac (put16 (pb + ioVRefNum) vRefNum)) (\<lambda>_. ret noErr)))))))))"

definition fs_unmount_vol :: "'h fsenv \<Rightarrow> u32 \<Rightarrow> ('h, u16) fsop" where
  "fs_unmount_vol F vcb = call (routine (fs_env F) fsDisposeVCB (set_a 0 vcb (start_regs F))) (\<lambda>r. ret (low16 r))"

definition put_vol_info :: "extfs \<Rightarrow> u32 \<Rightarrow> 'h mac \<Rightarrow> 'h mac" where
  "put_vol_info v pb s =
     put16 (pb + 62) 0xffff (put32 (pb + 58) (next_cnid v) (put16 (pb + 56) 0 (put32 (pb + 52) CLUMP_SIZE
       (put32 (pb + 48) (word_of_int AL_BLK_SIZE) (put16 (pb + 46) 0xffff (put16 (pb + 44) 0 (put16 (pb + 42) 0
         (put16 (pb + 40) 1 (put16 (pb + 38) 0
           (put32 (pb + 34) (word_of_int (root_mtime v + TIME_OFFSET)) (put32 (pb + 30) 0 s)))))))))))"

definition put_hfs_vol_info :: "extfs \<Rightarrow> u32 \<Rightarrow> 'h mac \<Rightarrow> 'h mac" where
  "put_hfs_vol_info v pb s =
     put_bytes (pb + 90) (replicate 32 0) (put32 (pb + 86) 1 (put32 (pb + 82) 1 (put32 (pb + 78) 0 (put16 (pb + 76) 0
       (put32 (pb + 72) 0 (put16 (pb + 70) MY_FSID (put16 (pb + 68) (get16 s (fs_data v + fsDrvStatus + dsQRefNum))
         (put16 (pb + 66) (word_of_int (drive_number v)) s))))))))"

definition fs_get_vol_info :: "u32 \<Rightarrow> bool \<Rightarrow> ('h, u16) fsop" where
  "fs_get_vol_info pb hfs =
     call (look (\<lambda>v s. (v, get32 s (pb + ioNamePtr)))) (\<lambda>(v, name_ptr).
     call (if name_ptr \<noteq> 0 then on_mac_opt (pstrcpy name_ptr (VOLUME_NAME v)) else ret ()) (\<lambda>_.
     call (upd_mac (put_vol_info v pb)) (\<lambda>_.
     call (if hfs then upd_mac (\<lambda>s. put_hfs_vol_info v pb s) else ret ()) (\<lambda>_. ret noErr))))"

definition fs_set_vol_info :: "u32 \<Rightarrow> ('h, u16) fsop" where
  "fs_set_vol_info pb = ret noErr"

definition fs_get_vol_parms :: "u32 \<Rightarrow> ('h, u16) fsop" where
  "fs_get_vol_parms pb =
     call (look (\<lambda>v s. min (get32 s (pb + ioReqCount)) 20)) (\<lambda>actual.
     call (upd_mac (put32 (pb + ioActCount) actual)) (\<lambda>_.
     call (look (\<lambda>v s. get32 s (pb + ioBuffer))) (\<lambda>p.
     call (upd_mac (\<lambda>s.
       let s1 = (if actual > 0 then put16 p 2 s else s);
           s2 = (if actual > 2 then put32 (p + 2) 0x3e0b0000 s1 else s1);
           s3 = (if actual > 6 then put32 (p + 6) 0 s2 else s2);
           s4 = (if actual > 10 then put32 (p + 10) 0 s3 else s3);
           s5 = (if actual > 14 then put32 (p + 14) 0 s4 else s4)
       in if actual > 18 then put16 (p + 18) 0 s5 else s5)) (\<lambda>_. ret noErr))))"

definition fs_get_vol :: "'h fsenv \<Rightarrow> u32 \<Rightarrow> ('h, u16) fsop" where
  "fs_get_vol F pb = call (routine (fs_env F) fsGetDefaultVol (set_a 0 pb (start_regs F))) (\<lambda>r. ret (low16 r))"

definition stat_path :: "'h fsenv \<Rightarrow> string \<Rightarrow> ('h, fstat option) fsop" where
  "stat_path F path = on_host (p_stat (fs_posix F) path)"

definition set_default_vol :: "'h fsenv \<Rightarrow> u32 \<Rightarrow> u16 \<Rightarrow> m68k_regs \<Rightarrow> ('h, u16) fsop" where
  "set_default_vol F dirID refNum r =
     call (routine (fs_env F) fsSetDefaultVol (set_d 2 (scast refNum) (set_d 1 dirID (set_d 0 0 r)))) (\<lambda>r1. ret (low16 r1))"

definition fs_set_vol :: "'h fsenv \<Rightarrow> u32 \<Rightarrow> bool \<Rightarrow> u32 \<Rightarrow> ('h, u16) fsop" where
  "fs_set_vol F pb hfs vcb =
     (if hfs then
        call (look (\<lambda>v s. get32 s (pb + ioWDDirID))) (\<lambda>wd.
        call (get_item_and_path F pb wd) (\<lambda>(item, path).
        call (stat_path F path) (\<lambda>st.
        case st of
          None \<Rightarrow> os_err dirNFErr
        | Some st \<Rightarrow>
            (if \<not> st_is_dir st then os_err dirNFErr
             else
               call (look (\<lambda>v s. (fs_id (fs_items v ! item), get16 s (vcb + vcbVRefNum)))) (\<lambda>(dirID, refNum).
               set_default_vol F dirID refNum (start_regs F))))))
      else
        call (look (\<lambda>v s. get16 s (pb + ioVRefNum))) (\<lambda>vref.
        call (routine (fs_env F) fsCheckWDRefNum (set_d 0 (ucast vref) (start_regs F))) (\<lambda>r.
        call (look (\<lambda>v s. if low16 r \<noteq> 0 then (ROOT_ID, get16 s (vcb + vcbVRefNum)) else (0, get16 s (pb + ioVRefNum))))
          (\<lambda>(dirID, refNum). set_default_vol F dirID refNum r))))"

section \<open>Catalog information\<close>

text \<open>The size of a fork rounded up to the next allocation block.\<close>

definition physical :: "int \<Rightarrow> u32" where
  "physical n = word_of_int ((n OR (AL_BLK_SIZE - 1)) + 1)"

definition visible :: "string \<Rightarrow> bool" where
  "visible name \<longleftrightarrow> name = [] \<or> hd name \<noteq> CHR ''.''"

text \<open>The item with a positive index in a directory.\<close>

definition indexed_item :: "'h fsenv \<Rightarrow> u32 \<Rightarrow> u32 \<Rightarrow> nat \<Rightarrow> ('h, nat \<times> string) fsop" where
  "indexed_item F pb dirID index =
     call (get_current_dir F pb dirID True) (\<lambda>current_dir.
     call (look (\<lambda>v s. find_fsitem_by_id current_dir (fs_items v))) (\<lambda>found.
     case found of
       None \<Rightarrow> os_err dirNFErr
     | Some p \<Rightarrow>
         call (item_path p) (\<lambda>path.
         call (on_host (p_listdir (fs_posix F) path)) (\<lambda>entries.
         case entries of
           None \<Rightarrow> os_err dirNFErr
         | Some es \<Rightarrow>
             (let names = filter visible es in
              if index \<le> length names then
                let name = names ! (index - 1) in
                call (the_or_crash (add_path_component path name)) (\<lambda>full.
                call (enter_item F name p) (\<lambda>item. ret (item, full)))
              else os_err fnfErr)))))"

definition put_forks :: "'h fsenv \<Rightarrow> u32 \<Rightarrow> string \<Rightarrow> int \<Rightarrow> ('h, unit) fsop" where
  "put_forks F pb path len =
     call (upd_mac (\<lambda>s. put16 (pb + ioFlRStBlk) 0 (put32 (pb + ioFlPyLen) (physical len)
       (put32 (pb + ioFlLgLen) (word_of_int len) (put16 (pb + ioFlStBlk) 0 s))))) (\<lambda>_.
     call (on_host_opt (get_rfork_size (fs_posix F) path)) (\<lambda>rf.
     upd_mac (\<lambda>s. put32 (pb + ioFlRPyLen) (physical (int (unat rf))) (put32 (pb + ioFlRLgLen) rf s))))"

definition put_name :: "u32 \<Rightarrow> nat \<Rightarrow> ('h, unit) fsop" where
  "put_name pb item =
     call (look (\<lambda>v s. (get32 s (pb + ioNamePtr), fs_name (fs_items v ! item)))) (\<lambda>(name_ptr, name).
     if name_ptr \<noteq> 0 then upd_mac (put_bytes name_ptr (cstr2pstr name)) else ret ())"

definition lock_bit :: "'h fsenv \<Rightarrow> string \<Rightarrow> ('h, u8) fsop" where
  "lock_bit F path = call (on_host (p_writable (fs_posix F) path)) (\<lambda>ok. ret (if ok then 0 else 1))"

definition select_file :: "'h fsenv \<Rightarrow> u32 \<Rightarrow> u32 \<Rightarrow> ('h, nat \<times> string) fsop" where
  "select_file F pb dirID =
     call (look (\<lambda>v s. sint (get16 s (pb + ioFDirIndex)))) (\<lambda>index.
     if index \<le> 0 then get_item_and_path F pb dirID else indexed_item F pb dirID (nat index))"

definition fs_get_file_info :: "'h fsenv \<Rightarrow> u32 \<Rightarrow> bool \<Rightarrow> u32 \<Rightarrow> ('h, u16) fsop" where
  "fs_get_file_info F pb hfs dirID =
     call (select_file F pb dirID) (\<lambda>(item, path).
     call (stat_path F path) (\<lambda>st.
     case st of
       None \<Rightarrow> os_err fnfErr
     | Some st \<Rightarrow>
         (if st_is_dir st then os_err fnfErr
          else
            call (put_name pb item) (\<lambda>_.
            call (upd_mac (put16 (pb + ioFRefNum) 0)) (\<lambda>_.
            call (lock_bit F path) (\<lambda>lock.
            call (look (\<lambda>v s. fs_items v ! item)) (\<lambda>it.
            call (upd_mac (\<lambda>s. put32 (pb + ioFlMdDat) (word_of_int (st_mtime st + TIME_OFFSET)) (put32 (pb + ioFlCrDat) 0
              (put32 (pb + ioDirID) (fs_id it) (put8 (pb + ioFlAttrib) lock s))))) (\<lambda>_.
            call (on_mac_opt (get_finfo (fs_posix F) path (pb + ioFlFndrInfo) (if hfs then pb + ioFlXFndrInfo else 0) False)) (\<lambda>_.
            call (put_forks F pb path (st_size st)) (\<lambda>_.
            call (if hfs then upd_mac (\<lambda>s. put32 (pb + ioFlClpSiz) 0 (put32 (pb + ioFlParID) (fs_parent_id it)
                    (put32 (pb + ioFlBkDat) 0 s))) else ret ()) (\<lambda>_. ret noErr)))))))))))"

definition fs_set_file_info :: "'h fsenv \<Rightarrow> u32 \<Rightarrow> bool \<Rightarrow> u32 \<Rightarrow> ('h, u16) fsop" where
  "fs_set_file_info F pb hfs dirID =
     call (get_item_and_path F pb dirID) (\<lambda>(item, path).
     call (stat_path F path) (\<lambda>st.
     case st of
       None \<Rightarrow> errno_err (fs_posix F)
     | Some st \<Rightarrow>
         (if st_is_dir st then os_err fnfErr
          else
            call (on_mac_opt (set_finfo (fs_posix F) path (pb + ioFlFndrInfo) (if hfs then pb + ioFlXFndrInfo else 0) False))
              (\<lambda>_. ret noErr))))"

definition select_cat :: "'h fsenv \<Rightarrow> u32 \<Rightarrow> int \<Rightarrow> ('h, nat \<times> string) fsop" where
  "select_cat F pb index =
     (if index < 0 then
        call (look (\<lambda>v s. find_fsitem_by_id (get32 s (pb + ioDrDirID)) (fs_items v))) (\<lambda>found.
        case found of
          None \<Rightarrow> os_err dirNFErr
        | Some item \<Rightarrow> call (item_path item) (\<lambda>path. ret (item, path)))
      else
        call (look (\<lambda>v s. get32 s (pb + ioDirID))) (\<lambda>dirID.
        if index = 0 then get_item_and_path F pb dirID else indexed_item F pb dirID (nat index)))"

text \<open>The number of visible files in a directory is kept until the directory is modified.\<close>

definition set_item :: "nat \<Rightarrow> (FSItem \<Rightarrow> FSItem) \<Rightarrow> extfs \<Rightarrow> extfs" where
  "set_item i f v = v\<lparr>fs_items := (fs_items v)[i := f (fs_items v ! i)]\<rparr>"

definition dir_count :: "'h fsenv \<Rightarrow> nat \<Rightarrow> string \<Rightarrow> bool \<Rightarrow> ('h, int) fsop" where
  "dir_count F item path cached =
     (if cached then look (\<lambda>v s. cache_dircount (fs_items v ! item))
      else
        call (on_host (p_listdir (fs_posix F) path)) (\<lambda>entries.
        let count = (case entries of None \<Rightarrow> 0 | Some es \<Rightarrow> int (length (filter visible es))) in
        call (upd_fs (set_item item (\<lambda>p. p\<lparr>cache_dircount := count\<rparr>))) (\<lambda>_. ret count)))"

definition fs_get_cat_info :: "'h fsenv \<Rightarrow> u32 \<Rightarrow> ('h, u16) fsop" where
  "fs_get_cat_info F pb =
     call (look (\<lambda>v s. sint (get16 s (pb + ioFDirIndex)))) (\<lambda>index.
     call (select_cat F pb index) (\<lambda>(item, path).
     call (stat_path F path) (\<lambda>st.
     case st of
       None \<Rightarrow> errno_err (fs_posix F)
     | Some st \<Rightarrow>
         (if index = -1 \<and> \<not> st_is_dir st then os_err dirNFErr
          else
            call (put_name pb item) (\<lambda>_.
            call (upd_mac (put16 (pb + ioFRefNum) 0)) (\<lambda>_.
            call (lock_bit F path) (\<lambda>lock.
            call (look (\<lambda>v s. fs_items v ! item)) (\<lambda>it.
            call (upd_mac (\<lambda>s. put32 (pb + ioFlCrDat) 0 (put32 (pb + ioFlParID) (fs_parent_id it) (put32 (pb + ioDirID) (fs_id it)
              (put8 (pb + ioACUser) 0 (put8 (pb + ioFlAttrib) ((if st_is_dir st then 0x10 else 0) OR lock) s)))))) (\<lambda>_.
            let cached = (st_mtime st \<le> fs_mtime it) in
            call (if cached then ret () else upd_fs (set_item item (\<lambda>p. p\<lparr>fs_mtime := st_mtime st\<rparr>))) (\<lambda>_.
            call (upd_mac (\<lambda>s. put32 (pb + ioFlBkDat) 0 (put32 (pb + ioFlMdDat) (word_of_int (st_mtime st + TIME_OFFSET)) s))) (\<lambda>_.
            call (on_mac_opt (get_finfo (fs_posix F) path (pb + ioFlFndrInfo) (pb + ioFlXFndrInfo) (st_is_dir st))) (\<lambda>_.
            if st_is_dir st then
              call (dir_count F item path cached) (\<lambda>count.
              call (upd_mac (put16 (pb + ioDrNmFls) (word_of_int count))) (\<lambda>_. ret noErr))
            else
              call (put_forks F pb path (st_size st)) (\<lambda>_.
              call (upd_mac (put32 (pb + ioFlClpSiz) 0)) (\<lambda>_. ret noErr))))))))))))))"

definition fs_set_cat_info :: "'h fsenv \<Rightarrow> u32 \<Rightarrow> ('h, u16) fsop" where
  "fs_set_cat_info F pb =
     call (look (\<lambda>v s. get32 s (pb + ioDirID))) (\<lambda>dirID.
     call (get_item_and_path F pb dirID) (\<lambda>(item, path).
     call (stat_path F path) (\<lambda>st.
     case st of
       None \<Rightarrow> errno_err (fs_posix F)
     | Some st \<Rightarrow>
         call (on_mac_opt (set_finfo (fs_posix F) path (pb + ioFlFndrInfo) (pb + ioFlXFndrInfo) (st_is_dir st)))
           (\<lambda>_. ret noErr))))"

end
