(* ===== verification/ExtFSFiles.thy ===== *)
theory ExtFSFiles
  imports ExtFSCatalog
begin

text \<open>
  "extfs.cpp", the calls of the file system about open files and those that change the catalog:
  open, close, read, write, positions and sizes, create, delete, rename, move, and working
  directories. The file descriptor of an open file is kept in its file control block; offsets of the
  host have more than 32 bits, so that a 32-bit offset from the start is never negative.
\<close>

abbreviation (input) fsAllocateFCB :: u32 where "fsAllocateFCB \<equiv> 710"
abbreviation (input) fsReleaseFCB :: u32 where "fsReleaseFCB \<equiv> 724"
abbreviation (input) fsIndexFCB :: u32 where "fsIndexFCB \<equiv> 736"
abbreviation (input) fsAdjustEOF :: u32 where "fsAdjustEOF \<equiv> 766"
abbreviation (input) fsAllocateWDCB :: u32 where "fsAllocateWDCB \<equiv> 778"
abbreviation (input) fsReleaseWDCB :: u32 where "fsReleaseWDCB \<equiv> 790"
abbreviation (input) ioPermssn :: u32 where "ioPermssn \<equiv> 27"
abbreviation (input) ioMisc :: u32 where "ioMisc \<equiv> 28"
abbreviation (input) ioPosOffset :: u32 where "ioPosOffset \<equiv> 46"
abbreviation (input) ioWDIndex :: u32 where "ioWDIndex \<equiv> 26"
abbreviation (input) ioWDProcID :: u32 where "ioWDProcID \<equiv> 28"
abbreviation (input) ioWDVRefNum :: u32 where "ioWDVRefNum \<equiv> 32"
abbreviation (input) ioNewName :: u32 where "ioNewName \<equiv> 28"
abbreviation (input) ioNewDirID :: u32 where "ioNewDirID \<equiv> 36"
abbreviation (input) ioFCBIndx :: u32 where "ioFCBIndx \<equiv> 28"
abbreviation (input) ioFCBFlNm :: u32 where "ioFCBFlNm \<equiv> 32"
abbreviation (input) ioFCBFlags :: u32 where "ioFCBFlags \<equiv> 36"
abbreviation (input) ioFCBStBlk :: u32 where "ioFCBStBlk \<equiv> 38"
abbreviation (input) ioFCBEOF :: u32 where "ioFCBEOF \<equiv> 40"
abbreviation (input) ioFCBPLen :: u32 where "ioFCBPLen \<equiv> 44"
abbreviation (input) ioFCBCrPs :: u32 where "ioFCBCrPs \<equiv> 48"
abbreviation (input) ioFCBVRefNum :: u32 where "ioFCBVRefNum \<equiv> 52"
abbreviation (input) ioFCBClpSiz :: u32 where "ioFCBClpSiz \<equiv> 54"
abbreviation (input) ioFCBParID :: u32 where "ioFCBParID \<equiv> 58"
abbreviation (input) vmiMedia :: u32 where "vmiMedia \<equiv> 2"
abbreviation (input) fcbFlNm :: u32 where "fcbFlNm \<equiv> 0"
abbreviation (input) fcbFlags :: u32 where "fcbFlags \<equiv> 4"
abbreviation (input) fcbSBlk :: u32 where "fcbSBlk \<equiv> 6"
abbreviation (input) fcbEOF :: u32 where "fcbEOF \<equiv> 8"
abbreviation (input) fcbPLen :: u32 where "fcbPLen \<equiv> 12"
abbreviation (input) fcbCrPs :: u32 where "fcbCrPs \<equiv> 16"
abbreviation (input) fcbVPtr :: u32 where "fcbVPtr \<equiv> 20"
abbreviation (input) fcbClmpSize :: u32 where "fcbClmpSize \<equiv> 30"
abbreviation (input) fcbFType :: u32 where "fcbFType \<equiv> 50"
abbreviation (input) fcbCatPos :: u32 where "fcbCatPos \<equiv> 54"
abbreviation (input) fcbDirID :: u32 where "fcbDirID \<equiv> 58"
abbreviation (input) fcbCName :: u32 where "fcbCName \<equiv> 62"
abbreviation (input) wdVCBPtr :: u32 where "wdVCBPtr \<equiv> 0"
abbreviation (input) wdProcID :: u32 where "wdProcID \<equiv> 12"
abbreviation (input) MY_MEDIA_TYPE :: u32 where "MY_MEDIA_TYPE \<equiv> 0x62617369"
abbreviation (input) fcbWriteMask :: u8 where "fcbWriteMask \<equiv> 1"
abbreviation (input) fcbResourceMask :: u8 where "fcbResourceMask \<equiv> 2"
abbreviation (input) fcbFileLockedMask :: u8 where "fcbFileLockedMask \<equiv> 0x20"
abbreviation (input) fsFromStart :: u16 where "fsFromStart \<equiv> 1"
abbreviation (input) fsFromLEOF :: u16 where "fsFromLEOF \<equiv> 2"
abbreviation (input) fsFromMark :: u16 where "fsFromMark \<equiv> 3"

section \<open>Opening and closing\<close>

definition open_flag_for :: "u8 \<Rightarrow> bool \<Rightarrow> open_flag" where
  "open_flag_for perm write_ok =
     (if perm = 0 then (if write_ok then O_RDWR else O_RDONLY)
      else if perm = 1 then O_RDONLY
      else if perm = 2 then O_WRONLY
      else O_RDWR)"

definition close_fd :: "'h fsenv \<Rightarrow> int \<Rightarrow> ('h, unit) fsop" where
  "close_fd F fd = on_host (\<lambda>h. ((), p_close (fs_posix F) fd h))"

definition fstat_fd :: "'h fsenv \<Rightarrow> int \<Rightarrow> ('h, int \<times> int) fsop" where
  "fstat_fd F fd =
     call (on_host (p_fstat (fs_posix F) fd)) (\<lambda>st.
     case st of
       None \<Rightarrow> call (close_fd F fd) (\<lambda>_. errno_err (fs_posix F))
     | Some st \<Rightarrow> ret (fd, st_size st))"

text \<open>The descriptor and the size of the fork that is opened. A resource fork that cannot be opened has
  the descriptor -1, an empty "pseudo" fork.\<close>

definition open_fork :: "'h fsenv \<Rightarrow> string \<Rightarrow> open_flag \<Rightarrow> bool \<Rightarrow> ('h, int \<times> int) fsop" where
  "open_fork F path flag resource_fork =
     (if resource_fork then
        call (on_host (p_exists (fs_posix F) path)) (\<lambda>there.
        if \<not> there then os_err fnfErr
        else
          call (on_host_opt (open_rfork (fs_posix F) path flag)) (\<lambda>fd.
          if fd \<ge> 0 then fstat_fd F fd else ret (fd, 0)))
      else
        call (on_host (p_open (fs_posix F) path flag False)) (\<lambda>fd.
        if fd < 0 then errno_err (fs_posix F) else fstat_fd F fd))"

definition fcb_flags :: "open_flag \<Rightarrow> bool \<Rightarrow> bool \<Rightarrow> u8" where
  "fcb_flags flag resource_fork write_ok =
     (if flag = O_WRONLY \<or> flag = O_RDWR then fcbWriteMask else 0)
       OR (if resource_fork then fcbResourceMask else 0) OR (if write_ok then 0 else fcbFileLockedMask)"

definition put_fcb :: "u32 \<Rightarrow> u32 \<Rightarrow> FSItem \<Rightarrow> u8 \<Rightarrow> int \<Rightarrow> 'h mac \<Rightarrow> 'h mac" where
  "put_fcb fcb vcb it flags len s =
     put32 (fcb + fcbClmpSize) CLUMP_SIZE (put32 (fcb + fcbVPtr) vcb (put32 (fcb + fcbCrPs) 0
       (put32 (fcb + fcbPLen) (physical len) (put32 (fcb + fcbEOF) (word_of_int len)
         (put8 (fcb + fcbFlags) flags (put32 (fcb + fcbFlNm) (fs_id it) s))))))"

definition put_fcb_file :: "u32 \<Rightarrow> u32 \<Rightarrow> FSItem \<Rightarrow> int \<Rightarrow> 'h mac \<Rightarrow> 'h mac" where
  "put_fcb_file fcb d it fd s =
     (let s1 = put32 (fcb + fcbFType) (get32 s (d + fsPB + fdType)) s;
          s2 = put32 (fcb + fcbDirID) (fs_parent_id it) (put32 (fcb + fcbCatPos) (word_of_int fd) s1)
      in put_bytes (fcb + fcbCName) (cstr2pstr (fs_name it)) s2)"

definition allocate_fcb :: "'h fsenv \<Rightarrow> u32 \<Rightarrow> ('h, u16 \<times> u32) fsop" where
  "allocate_fcb F pb =
     call (look (\<lambda>v s. fs_data v)) (\<lambda>d.
     call (routine (fs_env F) fsAllocateFCB (set_a 1 (d + fsReturn) (set_a 0 (pb + ioRefNum) (start_regs F)))) (\<lambda>r.
     look (\<lambda>v s. (low16 r, get32 s (d + fsReturn)))))"

definition fs_open :: "'h fsenv \<Rightarrow> u32 \<Rightarrow> u32 \<Rightarrow> u32 \<Rightarrow> bool \<Rightarrow> ('h, u16) fsop" where
  "fs_open F pb dirID vcb resource_fork =
     call (get_item_and_path F pb dirID) (\<lambda>(item, path).
     call (on_host (p_writable (fs_posix F) path)) (\<lambda>write_ok.
     call (look (\<lambda>v s. open_flag_for (get8 s (pb + ioPermssn)) write_ok)) (\<lambda>flag.
     call (open_fork F path flag resource_fork) (\<lambda>(fd, len).
     call (allocate_fcb F pb) (\<lambda>(err, fcb).
     if err \<noteq> 0 then call (close_fd F fd) (\<lambda>_. os_err err)
     else
       call (look (\<lambda>v s. (fs_items v ! item, fs_data v))) (\<lambda>(it, d).
       call (upd_mac (put_fcb fcb vcb it (fcb_flags flag resource_fork write_ok) len)) (\<lambda>_.
       call (on_mac_opt (get_finfo (fs_posix F) path (d + fsPB) 0 False)) (\<lambda>_.
       call (upd_mac (put_fcb_file fcb d it fd)) (\<lambda>_. ret noErr)))))))))"

text \<open>What the calls about an open file begin with: the file control block and the descriptor in it. A
  negative descriptor is that of a "pseudo" resource fork.\<close>

definition fcb_of :: "'h fsenv \<Rightarrow> u32 \<Rightarrow> ('h, u32) fsop" where
  "fcb_of F pb =
     call (look (\<lambda>v s. get16 s (pb + ioRefNum))) (\<lambda>refNum.
     call (find_fcb F refNum) (\<lambda>fcb.
     if fcb = 0 then os_err rfNumErr
     else
       call (look (\<lambda>v s. get32 s (fcb + fcbFlNm))) (\<lambda>nm.
       if nm = 0 then os_err fnOpnErr else ret fcb)))"

definition fcb_fd :: "'h mac \<Rightarrow> u32 \<Rightarrow> int" where
  "fcb_fd s fcb = sint (get32 s (fcb + fcbCatPos))"

definition with_file :: "'h fsenv \<Rightarrow> u32 \<Rightarrow> ('h, u16) fsop \<Rightarrow> (u32 \<Rightarrow> int \<Rightarrow> ('h, u16) fsop) \<Rightarrow> ('h, u16) fsop" where
  "with_file F pb pseudo body =
     call (fcb_of F pb) (\<lambda>fcb.
     call (look (\<lambda>v s. (fcb_fd s fcb, get8 s (fcb + fcbFlags) AND fcbResourceMask \<noteq> 0))) (\<lambda>(fd, rsrc).
     if fd < 0 then (if rsrc then pseudo else os_err fnOpnErr) else body fcb fd))"

definition fs_close :: "'h fsenv \<Rightarrow> u32 \<Rightarrow> ('h, u16) fsop" where
  "fs_close F pb =
     call (fcb_of F pb) (\<lambda>fcb.
     call (look (\<lambda>v s. (fcb_fd s fcb, get8 s (fcb + fcbFlags) AND fcbResourceMask \<noteq> 0,
                        find_fsitem_by_id (get32 s (fcb + fcbFlNm)) (fs_items v)))) (\<lambda>(fd, rsrc, found).
     call (if rsrc then
             (case found of
                None \<Rightarrow> ret ()
              | Some i \<Rightarrow> call (item_path i) (\<lambda>path. on_host (\<lambda>h. ((), close_rfork (fs_posix F) path fd h))))
           else close_fd F fd) (\<lambda>_.
     call (upd_mac (put32 (fcb + fcbCatPos) (-1))) (\<lambda>_.
     call (look (\<lambda>v s. ucast (get16 s (pb + ioRefNum)) :: u32)) (\<lambda>ref.
     call (routine (fs_env F) fsReleaseFCB (set_d 0 ref (start_regs F))) (\<lambda>r. ret (low16 r)))))))"

text \<open>Each turn of the loop over the open files reads its bound again.\<close>

definition index_fcb :: "'h fsenv \<Rightarrow> u32 \<Rightarrow> u32 \<Rightarrow> ('h, u32) fsop" where
  "index_fcb F vcb pb =
     call (look (\<lambda>v s. fs_data v)) (\<lambda>d.
     call (routine (fs_env F) fsIndexFCB (set_a 2 (d + fsReturn) (set_a 1 (pb + ioRefNum) (set_a 0 vcb (start_regs F))))) (\<lambda>r.
     call (look (\<lambda>v s. get32 s (d + fsReturn))) (\<lambda>fcb.
     if low16 r \<noteq> 0 then os_err (low16 r) else ret fcb)))"

function index_fcbs :: "'h fsenv \<Rightarrow> u32 \<Rightarrow> u32 \<Rightarrow> nat \<Rightarrow> u32 \<Rightarrow> 'h xs \<Rightarrow> ((u16 + u32) \<times> 'h xs) option" where
  "index_fcbs F vcb pb i fcb st =
     (if i < unat (get16 (snd st) (pb + ioFCBIndx)) then
        case index_fcb F vcb pb st of
          None \<Rightarrow> None
        | Some (Inl e, st1) \<Rightarrow> Some (Inl e, st1)
        | Some (Inr fcb1, st1) \<Rightarrow> index_fcbs F vcb pb (Suc i) fcb1 st1
      else Some (Inr fcb, st))"
  by pat_completeness auto

lemma unat16_bound: "unat (x :: u16) < 65536"
proof -
  have "unat x < 2 ^ LENGTH(16)" by (rule unsigned_less)
  then show ?thesis by simp
qed

termination index_fcbs
proof (relation "measure (\<lambda>(F, vcb, pb, i, fcb, st). 65536 - i)", goal_cases)
  case 1 show ?case by simp
next
  case (2 F vcb pb i fcb st x a b y)
  have "unat (get16 (snd st) (pb + ioFCBIndx)) < 65536" by (rule unat16_bound)
  with 2 show ?case by auto
qed

declare index_fcbs.simps [simp del]

definition put_fcb_info :: "u32 \<Rightarrow> u32 \<Rightarrow> 'h mac \<Rightarrow> 'h mac" where
  "put_fcb_info pb fcb s0 =
     (let s1 = put32 (pb + ioFCBFlNm) (get32 s0 (fcb + fcbFlNm)) s0;
          s2 = put8 (pb + ioFCBFlags) (get8 s1 (fcb + fcbFlags)) s1;
          s3 = put16 (pb + ioFCBStBlk) (get16 s2 (fcb + fcbSBlk)) s2;
          s4 = put32 (pb + ioFCBEOF) (get32 s3 (fcb + fcbEOF)) s3;
          s5 = put32 (pb + ioFCBPLen) (get32 s4 (fcb + fcbPLen)) s4;
          s6 = put32 (pb + ioFCBCrPs) (get32 s5 (fcb + fcbCrPs)) s5;
          s7 = put16 (pb + ioFCBVRefNum) (get16 s6 (get32 s6 (fcb + fcbVPtr) + vcbVRefNum)) s6;
          s8 = put32 (pb + ioFCBClpSiz) (get32 s7 (fcb + fcbClmpSize)) s7
      in put32 (pb + ioFCBParID) (get32 s8 (fcb + fcbDirID)) s8)"

definition fs_get_fcb_info :: "'h fsenv \<Rightarrow> u32 \<Rightarrow> u32 \<Rightarrow> ('h, u16) fsop" where
  "fs_get_fcb_info F pb vcb =
     call (look (\<lambda>v s. (get16 s (pb + ioFCBIndx), get16 s (pb + ioRefNum)))) (\<lambda>(index, refNum).
     call (if index = 0 then find_fcb F refNum
           else call (upd_mac (put16 (pb + ioRefNum) 0)) (\<lambda>_. index_fcbs F vcb pb 0 0)) (\<lambda>fcb.
     if fcb = 0 then os_err rfNumErr
     else
       call (look (\<lambda>v s. (get32 s (pb + ioNamePtr), get_bytes s (fcb + fcbCName) 128))) (\<lambda>(name_ptr, name).
       call (if name_ptr \<noteq> 0 then on_mac_opt (pstrcpy name_ptr name) else ret ()) (\<lambda>_.
       call (upd_mac (put_fcb_info pb fcb)) (\<lambda>_. ret noErr)))))"

section \<open>Sizes and positions\<close>

definition adjust_eof :: "'h fsenv \<Rightarrow> u32 \<Rightarrow> ('h, u16) fsop" where
  "adjust_eof F pb =
     call (look (\<lambda>v s. ucast (get16 s (pb + ioRefNum)) :: u32)) (\<lambda>ref.
     call (routine (fs_env F) fsAdjustEOF (set_d 0 ref (start_regs F))) (\<lambda>_. ret noErr))"

definition put_eof :: "u32 \<Rightarrow> int \<Rightarrow> 'h mac \<Rightarrow> 'h mac" where
  "put_eof fcb len s = put32 (fcb + fcbPLen) (physical len) (put32 (fcb + fcbEOF) (word_of_int len) s)"

definition fs_get_eof :: "'h fsenv \<Rightarrow> u32 \<Rightarrow> ('h, u16) fsop" where
  "fs_get_eof F pb =
     with_file F pb (call (upd_mac (put32 (pb + ioMisc) 0)) (\<lambda>_. ret noErr)) (\<lambda>fcb fd.
       call (on_host (p_fstat (fs_posix F) fd)) (\<lambda>st.
       case st of
         None \<Rightarrow> errno_err (fs_posix F)
       | Some st \<Rightarrow>
           call (upd_mac (\<lambda>s. put32 (pb + ioMisc) (word_of_int (st_size st)) (put_eof fcb (st_size st) s))) (\<lambda>_.
           adjust_eof F pb)))"

definition fs_set_eof :: "'h fsenv \<Rightarrow> u32 \<Rightarrow> ('h, u16) fsop" where
  "fs_set_eof F pb =
     with_file F pb (ret noErr) (\<lambda>fcb fd.
       call (look (\<lambda>v s. int (unat (get32 s (pb + ioMisc))))) (\<lambda>len.
       call (on_host (p_ftruncate (fs_posix F) fd len)) (\<lambda>n.
       if n < 0 then errno_err (fs_posix F)
       else call (upd_mac (put_eof fcb len)) (\<lambda>_. adjust_eof F pb))))"

text \<open>The position of the host's file is written to the control block and to the parameter block.\<close>

definition report_pos :: "'h fsenv \<Rightarrow> u32 \<Rightarrow> u32 \<Rightarrow> int \<Rightarrow> ('h, unit) fsop" where
  "report_pos F pb fcb fd =
     call (on_host (p_lseek (fs_posix F) fd 0 SEEK_CUR)) (\<lambda>pos.
     upd_mac (\<lambda>s. put32 (pb + ioPosOffset) (word_of_int pos) (put32 (fcb + fcbCrPs) (word_of_int pos) s)))"

definition fs_get_fpos :: "'h fsenv \<Rightarrow> u32 \<Rightarrow> ('h, u16) fsop" where
  "fs_get_fpos F pb =
     call (upd_mac (\<lambda>s. put16 (pb + ioPosMode) 0 (put32 (pb + ioActCount) 0 (put32 (pb + ioReqCount) 0 s)))) (\<lambda>_.
     with_file F pb (call (upd_mac (put32 (pb + ioPosOffset) 0)) (\<lambda>_. ret noErr)) (\<lambda>fcb fd.
       call (report_pos F pb fcb fd) (\<lambda>_. ret noErr)))"

definition seek_to :: "'h fsenv \<Rightarrow> u32 \<Rightarrow> int \<Rightarrow> u16 \<Rightarrow> ('h, unit) fsop" where
  "seek_to F pb fd mode =
     call (look (\<lambda>v s. get32 s (pb + ioPosOffset))) (\<lambda>offset.
     call (if mode = fsFromStart then on_host (p_lseek (fs_posix F) fd (uint offset) SEEK_SET)
           else if mode = fsFromLEOF then on_host (p_lseek (fs_posix F) fd (sint offset) SEEK_END)
           else if mode = fsFromMark then on_host (p_lseek (fs_posix F) fd (sint offset) SEEK_CUR)
           else ret 0) (\<lambda>n.
     if n < 0 then os_err posErr else ret ()))"

definition fs_set_fpos :: "'h fsenv \<Rightarrow> u32 \<Rightarrow> ('h, u16) fsop" where
  "fs_set_fpos F pb =
     with_file F pb (call (upd_mac (put32 (pb + ioPosOffset) 0)) (\<lambda>_. ret noErr)) (\<lambda>fcb fd.
       call (look (\<lambda>v s. get16 s (pb + ioPosMode))) (\<lambda>mode.
       call (seek_to F pb fd mode) (\<lambda>_.
       call (report_pos F pb fcb fd) (\<lambda>_. ret noErr))))"

section \<open>Reading and writing\<close>

definition count_ok :: "u32 \<Rightarrow> ('h, unit) fsop" where
  "count_ok pb = call (look (\<lambda>v s. sint (get32 s (pb + ioReqCount)))) (\<lambda>n. if n < 0 then os_err paramErr else ret ())"

definition seek_for_io :: "'h fsenv \<Rightarrow> u32 \<Rightarrow> int \<Rightarrow> ('h, unit) fsop" where
  "seek_for_io F pb fd = call (look (\<lambda>v s. get16 s (pb + ioPosMode) AND 3)) (seek_to F pb fd)"

text \<open>The reason of a failure is taken before the position is asked for; the requested count is read again
  at the end.\<close>

definition finish_transfer :: "'h fsenv \<Rightarrow> u32 \<Rightarrow> u32 \<Rightarrow> int \<Rightarrow> int \<Rightarrow> ('h, bool) fsop" where
  "finish_transfer F pb fcb fd actual =
     call (upd_mac (put32 (pb + ioActCount) (if actual \<ge> 0 then word_of_int actual else 0))) (\<lambda>_.
     call (report_pos F pb fcb fd) (\<lambda>_.
     look (\<lambda>v s. actual = uint (get32 s (pb + ioReqCount)))))"

definition last_err :: "'h fsenv \<Rightarrow> ('h, u16) fsop" where
  "last_err F = look (\<lambda>v s. errno2oserr (errno_of (fs_posix F) (host s)))"

definition fs_read :: "'h fsenv \<Rightarrow> u32 \<Rightarrow> ('h, u16) fsop" where
  "fs_read F pb =
     call (count_ok pb) (\<lambda>_.
     with_file F pb (call (upd_mac (put32 (pb + ioActCount) 0)) (\<lambda>_. os_err eofErr)) (\<lambda>fcb fd.
       call (seek_for_io F pb fd) (\<lambda>_.
       call (look (\<lambda>v s. (get32 s (pb + ioBuffer), unat (get32 s (pb + ioReqCount))))) (\<lambda>(buffer, count).
       call (on_mac (extfs_read (fs_posix F) fd buffer count)) (\<lambda>actual.
       call (last_err F) (\<lambda>read_err.
       call (finish_transfer F pb fcb fd actual) (\<lambda>whole.
       ret (if whole then noErr else if actual < 0 then read_err else eofErr))))))))"

definition fs_write :: "'h fsenv \<Rightarrow> u32 \<Rightarrow> ('h, u16) fsop" where
  "fs_write F pb =
     call (count_ok pb) (\<lambda>_.
     with_file F pb (call (upd_mac (\<lambda>s. put32 (pb + ioActCount) (get32 s (pb + ioReqCount)) s)) (\<lambda>_. ret noErr)) (\<lambda>fcb fd.
       call (seek_for_io F pb fd) (\<lambda>_.
       call (look (\<lambda>v s. get_bytes s (get32 s (pb + ioBuffer)) (unat (get32 s (pb + ioReqCount))))) (\<lambda>bytes.
       call (on_host (extfs_write (fs_posix F) fd bytes)) (\<lambda>actual.
       call (last_err F) (\<lambda>write_err.
       call (finish_transfer F pb fcb fd actual) (\<lambda>whole.
       ret (if whole then noErr else write_err))))))))"

section \<open>The catalog\<close>

definition path_exists :: "'h fsenv \<Rightarrow> string \<Rightarrow> ('h, bool) fsop" where
  "path_exists F path = on_host (p_exists (fs_posix F) path)"

definition fs_create :: "'h fsenv \<Rightarrow> u32 \<Rightarrow> u32 \<Rightarrow> ('h, u16) fsop" where
  "fs_create F pb dirID =
     call (get_item_and_path F pb dirID) (\<lambda>(item, path).
     call (path_exists F path) (\<lambda>there.
     if there then os_err dupFNErr
     else
       call (on_host (p_creat (fs_posix F) path)) (\<lambda>fd.
       if fd < 0 then errno_err (fs_posix F)
       else call (close_fd F fd) (\<lambda>_. ret noErr))))"

definition fs_dir_create :: "'h fsenv \<Rightarrow> u32 \<Rightarrow> ('h, u16) fsop" where
  "fs_dir_create F pb =
     call (look (\<lambda>v s. get32 s (pb + ioDirID))) (\<lambda>dirID.
     call (get_item_and_path F pb dirID) (\<lambda>(item, path).
     call (path_exists F path) (\<lambda>there.
     if there then os_err dupFNErr
     else
       call (on_host (p_mkdir (fs_posix F) path)) (\<lambda>n.
       if n < 0 then errno_err (fs_posix F)
       else
         call (look (\<lambda>v s. fs_id (fs_items v ! item))) (\<lambda>cnid.
         call (upd_mac (put32 (pb + ioDirID) cnid)) (\<lambda>_. ret noErr))))))"

definition fs_delete :: "'h fsenv \<Rightarrow> u32 \<Rightarrow> u32 \<Rightarrow> ('h, u16) fsop" where
  "fs_delete F pb dirID =
     call (get_item_and_path F pb dirID) (\<lambda>(item, path).
     call (on_host_opt (extfs_remove (fs_posix F) path)) (\<lambda>ok.
     if ok then ret noErr else errno_err (fs_posix F)))"

text \<open>A second parameter block, for the new name or directory, is a copy of the first.\<close>

definition second_pb :: "u32 \<Rightarrow> u32 \<Rightarrow> ('h, u32) fsop" where
  "second_pb pb name_field =
     call (look (\<lambda>v s. fs_data v + fsPB)) (\<lambda>pb2.
     call (upd_mac (\<lambda>s. put_bytes pb2 (get_bytes s pb 50) s)) (\<lambda>_.
     call (upd_mac (\<lambda>s. put32 (pb2 + ioNamePtr) (get32 s (pb + name_field)) s)) (\<lambda>_. ret pb2)))"

definition rename_path :: "'h fsenv \<Rightarrow> string \<Rightarrow> string \<Rightarrow> ('h, unit) fsop" where
  "rename_path F old_path new_path =
     call (path_exists F new_path) (\<lambda>there.
     if there then os_err dupFNErr
     else
       call (on_host_opt (extfs_rename (fs_posix F) old_path new_path)) (\<lambda>ok.
       if ok then ret () else errno_err (fs_posix F)))"

definition fs_rename :: "'h fsenv \<Rightarrow> u32 \<Rightarrow> u32 \<Rightarrow> ('h, u16) fsop" where
  "fs_rename F pb dirID =
     call (get_item_and_path F pb dirID) (\<lambda>(item, old_path).
     call (second_pb pb ioMisc) (\<lambda>pb2.
     call (get_item_and_path F pb2 dirID) (\<lambda>(new_item, new_path).
     call (rename_path F old_path new_path) (\<lambda>_.
     call (upd_fs (swap_ids item new_item)) (\<lambda>_. ret noErr)))))"

definition fs_cat_move :: "'h fsenv \<Rightarrow> u32 \<Rightarrow> ('h, u16) fsop" where
  "fs_cat_move F pb =
     call (look (\<lambda>v s. get32 s (pb + ioDirID))) (\<lambda>dirID.
     call (get_item_and_path F pb dirID) (\<lambda>(item, old_path).
     call (second_pb pb ioNewName) (\<lambda>pb2.
     call (look (\<lambda>v s. get32 s (pb + ioNewDirID))) (\<lambda>new_dirID.
     call (get_item_and_path F pb2 new_dirID) (\<lambda>(new_dir, dir_path).
     call (look (\<lambda>v s. fs_name (fs_items v ! item))) (\<lambda>name.
     call (the_or_crash (add_path_component dir_path name)) (\<lambda>new_path.
     call (rename_path F old_path new_path) (\<lambda>_.
     call (enter_item F name new_dir) (\<lambda>new_item.
     call (upd_fs (swap_ids item new_item)) (\<lambda>_. ret noErr))))))))))"

section \<open>Working directories\<close>

definition fs_open_wd :: "'h fsenv \<Rightarrow> u32 \<Rightarrow> ('h, u16) fsop" where
  "fs_open_wd F pb = call (routine (fs_env F) fsAllocateWDCB (set_a 0 pb (start_regs F))) (\<lambda>r. ret (low16 r))"

definition fs_close_wd :: "'h fsenv \<Rightarrow> u32 \<Rightarrow> ('h, u16) fsop" where
  "fs_close_wd F pb =
     call (look (\<lambda>v s. ucast (get16 s (pb + ioVRefNum)) :: u32)) (\<lambda>ref.
     call (routine (fs_env F) fsReleaseWDCB (set_d 0 ref (start_regs F))) (\<lambda>r. ret (low16 r)))"

text \<open>The directory ID, the volume and its name are those of a volume or of a working directory.\<close>

definition put_wd_info :: "u32 \<Rightarrow> ('h mac \<Rightarrow> u32) \<Rightarrow> ('h mac \<Rightarrow> u32) \<Rightarrow> ('h mac \<Rightarrow> u32) \<Rightarrow> 'h mac \<Rightarrow> 'h mac" where
  "put_wd_info pb proc_id vcb_ptr dir_id s =
     (let s1 = put32 (pb + ioWDProcID) (proc_id s) s;
          s2 = put16 (pb + ioWDVRefNum) (get16 s1 (vcb_ptr s1 + vcbVRefNum)) s1;
          name_ptr = get32 s2 (pb + ioNamePtr);
          s3 = (if name_ptr \<noteq> 0 then put_bytes name_ptr (get_bytes s2 (vcb_ptr s2 + vcbVN) 28) s2 else s2)
      in put32 (pb + ioWDDirID) (dir_id s3) s3)"

definition fs_get_wd_info :: "'h fsenv \<Rightarrow> u32 \<Rightarrow> u32 \<Rightarrow> ('h, u16) fsop" where
  "fs_get_wd_info F pb vcb =
     call (look (\<lambda>v s. (get16 s (pb + ioWDIndex), get16 s (pb + ioVRefNum), get16 s (vcb + vcbVRefNum),
                        get32 s (pb + ioWDProcID)))) (\<lambda>(index, refNum, vcb_ref, proc_id).
     if index = 0 \<and> refNum = vcb_ref then
       call (upd_mac (put_wd_info pb (\<lambda>_. 0) (\<lambda>_. vcb) (\<lambda>_. ROOT_ID))) (\<lambda>_. ret noErr)
     else
       call (look (\<lambda>v s. fs_data v)) (\<lambda>d.
       call (routine (fs_env F) fsResolveWDCB (set_a 0 (d + fsReturn)
              (set_d 2 (ucast refNum) (set_d 1 (ucast index) (set_d 0 proc_id (start_regs F)))))) (\<lambda>r.
       call (look (\<lambda>v s. get32 s (d + fsReturn))) (\<lambda>wdcb.
       if low16 r \<noteq> 0 then os_err (low16 r)
       else
         call (upd_mac (put_wd_info pb (\<lambda>s. get32 s (wdcb + wdProcID)) (\<lambda>s. get32 s (wdcb + wdVCBPtr))
                (\<lambda>s. get32 s (wdcb + wdDirID)))) (\<lambda>_. ret noErr)))))"

end
