(* ===== verification/ExtFS.thy ===== *)
theory ExtFS
  imports ExtFSFiles
begin

text \<open>
  "extfs.cpp", the two entry points of the file system: ExtFSComm(), the messages of the File System
  Manager, and ExtFSHFS(), which dispatches the calls of the File Manager.
\<close>

section \<open>Messages\<close>

definition ExtFSIcon :: "u8 list" where
  "ExtFSIcon =
     [0x00, 0x00, 0x00, 0x00, 0x00, 0x00, 0x00, 0x00, 0x00, 0x00, 0x00, 0x00, 0x00, 0x00, 0x00, 0x00,
     0x00, 0x00, 0x00, 0x00, 0x00, 0x00, 0x00, 0x00, 0x00, 0x00, 0x00, 0x00, 0x00, 0x00, 0x00, 0x00,
     0x00, 0x00, 0x00, 0x00, 0x00, 0x00, 0x00, 0x00, 0x00, 0x00, 0x00, 0x00, 0x00, 0x00, 0x00, 0x00,
     0x00, 0x00, 0x00, 0x00, 0x00, 0x00, 0x00, 0x00, 0x00, 0x00, 0x00, 0x00, 0x00, 0x00, 0x00, 0x00,
     0x00, 0x00, 0x00, 0x00, 0x00, 0x00, 0x00, 0x00, 0x00, 0x00, 0x00, 0x00, 0x7f, 0xff, 0xff, 0xfe,
     0x80, 0x00, 0x00, 0x91, 0x80, 0x00, 0x00, 0x91, 0x80, 0x00, 0x01, 0x21, 0x80, 0x00, 0x01, 0x21,
     0x80, 0x00, 0x02, 0x41, 0x8c, 0x00, 0x02, 0x41, 0x80, 0x00, 0x04, 0x81, 0x80, 0x00, 0x04, 0x81,
     0x7f, 0xff, 0xff, 0xfe, 0x00, 0x00, 0x00, 0x00, 0x00, 0x00, 0x00, 0x00, 0x00, 0x00, 0x00, 0x00,
     0x00, 0x00, 0x00, 0x00, 0x00, 0x00, 0x00, 0x00, 0x00, 0x00, 0x00, 0x00, 0x00, 0x00, 0x00, 0x00,
     0x00, 0x00, 0x00, 0x00, 0x00, 0x00, 0x00, 0x00, 0x00, 0x00, 0x00, 0x00, 0x00, 0x00, 0x00, 0x00,
     0x00, 0x00, 0x00, 0x00, 0x00, 0x00, 0x00, 0x00, 0x00, 0x00, 0x00, 0x00, 0x00, 0x00, 0x00, 0x00,
     0x00, 0x00, 0x00, 0x00, 0x00, 0x00, 0x00, 0x00, 0x00, 0x00, 0x00, 0x00, 0x00, 0x00, 0x00, 0x00,
     0x00, 0x00, 0x00, 0x00, 0x00, 0x00, 0x00, 0x00, 0x00, 0x00, 0x00, 0x00, 0x7f, 0xff, 0xff, 0xfe,
     0xff, 0xff, 0xff, 0xff, 0xff, 0xff, 0xff, 0xff, 0xff, 0xff, 0xff, 0xff, 0xff, 0xff, 0xff, 0xff,
     0xff, 0xff, 0xff, 0xff, 0xff, 0xff, 0xff, 0xff, 0xff, 0xff, 0xff, 0xff, 0xff, 0xff, 0xff, 0xff,
     0x7f, 0xff, 0xff, 0xfe, 0x00, 0x00, 0x00, 0x00, 0x00, 0x00, 0x00, 0x00, 0x00, 0x00, 0x00, 0x00]"

definition ExtFSComm :: "u16 \<Rightarrow> u32 \<Rightarrow> ('h, u16) fsop" where
  "ExtFSComm message pb =
     (if message = 0 \<or> message = 3 \<or> message = 4 then ret noErr
      else if message = 1 then
        call (look (\<lambda>v s. get8 s (pb + 14) = 1 \<and> get32 s (pb + 6) \<ge> 256)) (\<lambda>ok.
        if ok then
          call (upd_mac (\<lambda>s. put_bytes (get32 s (pb + 2)) ExtFSIcon s)) (\<lambda>_.
          call (upd_mac (put32 (pb + 10) 256)) (\<lambda>_. ret noErr))
        else os_err (-5012))
      else if message = 2 then
        look (\<lambda>v s. if sint (get16 s (pb + ioVRefNum)) = drive_number v then noErr else extFSErr)
      else if message = 5 then
        look (\<lambda>v s. if get32 s (get32 s (pb + ioBuffer) + vmiMedia) = MY_MEDIA_TYPE then noErr else extFSErr)
      else os_err (-438))"

section \<open>Calls\<close>

definition hfs_dir :: "u32 \<Rightarrow> bool \<Rightarrow> ('h, u32) fsop" where
  "hfs_dir pb hfs = look (\<lambda>v s. if hfs then get32 s (pb + ioDirID) else 0)"

definition ExtFSHFS :: "'h fsenv \<Rightarrow> u32 \<Rightarrow> u16 \<Rightarrow> u32 \<Rightarrow> ('h, u16) fsop" where
  "ExtFSHFS F vcb selectCode pb =
     (let trapWord = selectCode AND 0xf0ff; hfs = (selectCode AND 0x0200 \<noteq> 0) in
      if trapWord = 0xA000 then call (hfs_dir pb hfs) (\<lambda>dirID. fs_open F pb dirID vcb False)
      else if trapWord = 0xA001 then fs_close F pb
      else if trapWord = 0xA002 then fs_read F pb
      else if trapWord = 0xA003 then fs_write F pb
      else if trapWord = 0xA007 then fs_get_vol_info pb hfs
      else if trapWord = 0xA008 then call (hfs_dir pb hfs) (fs_create F pb)
      else if trapWord = 0xA009 then call (hfs_dir pb hfs) (fs_delete F pb)
      else if trapWord = 0xA00A then call (hfs_dir pb hfs) (\<lambda>dirID. fs_open F pb dirID vcb True)
      else if trapWord = 0xA00B then call (hfs_dir pb hfs) (fs_rename F pb)
      else if trapWord = 0xA00C then call (hfs_dir pb hfs) (fs_get_file_info F pb hfs)
      else if trapWord = 0xA00D then call (hfs_dir pb hfs) (fs_set_file_info F pb hfs)
      else if trapWord = 0xA00E then fs_unmount_vol F vcb
      else if trapWord = 0xA00F then fs_mount_vol pb
      else if trapWord = 0xA010 then
        call (upd_mac (\<lambda>s. put32 (pb + ioActCount) (get32 s (pb + ioReqCount)) s)) (\<lambda>_. ret noErr)
      else if trapWord = 0xA011 then fs_get_eof F pb
      else if trapWord = 0xA012 then fs_set_eof F pb
      else if trapWord = 0xA014 then fs_get_vol F pb
      else if trapWord = 0xA015 then fs_set_vol F pb hfs vcb
      else if trapWord = 0xA017 then ret noErr
      else if trapWord = 0xA018 then fs_get_fpos F pb
      else if trapWord = 0xA035 then ret noErr
      else if trapWord = 0xA041 then ret noErr
      else if trapWord = 0xA042 then ret noErr
      else if trapWord = 0xA044 then fs_set_fpos F pb
      else if trapWord = 0x0001 then fs_open_wd F pb
      else if trapWord = 0x0002 then fs_close_wd F pb
      else if trapWord = 0x0005 then fs_cat_move F pb
      else if trapWord = 0x0006 then fs_dir_create F pb
      else if trapWord = 0x0007 then fs_get_wd_info F pb vcb
      else if trapWord = 0x0008 then fs_get_fcb_info F pb vcb
      else if trapWord = 0x0009 then fs_get_cat_info F pb
      else if trapWord = 0x000A then fs_set_cat_info F pb
      else if trapWord = 0x000B then fs_set_vol_info pb
      else if trapWord = 0x0030 then fs_get_vol_parms pb
      else if trapWord = 0x0041 then fs_volume_mount F pb
      else if trapWord = 0xA013 \<or> trapWord = 0xA045 then ret noErr
      else ret paramErr)"

end
