(* ===== verification/ExtFSTable.thy ===== *)
theory ExtFSTable
  imports ExtFS "HOL-Library.Multiset"
begin

text \<open>
  What every call of the external file system keeps of its table of items. Most of the parts of a call do
  not touch the table at all (\<open>neutral\<close>); the rest is followed with triples (\<open>good\<close>) whose values may be
  positions in the table. The locale is the contract between the table's three updates and the calls.
\<close>

section \<open>Operations that leave the table alone\<close>

named_theorems neutral

definition neutral :: "('h, 'a) fsop \<Rightarrow> bool" where
  "neutral m \<longleftrightarrow> (\<forall>st res st1. m st = Some (res, st1) \<longrightarrow> fst st1 = fst st)"

lemma neutralI: "(\<And>st res st1. m st = Some (res, st1) \<Longrightarrow> fst st1 = fst st) \<Longrightarrow> neutral m"
  by (auto simp: neutral_def)

lemma neutralD: "neutral m \<Longrightarrow> m st = Some (res, st1) \<Longrightarrow> fst st1 = fst st"
  unfolding neutral_def by blast

lemma neutral_prim [neutral]:
  "neutral (ret x)" "neutral (os_err e)" "neutral crash" "neutral (look f)" "neutral (upd_mac g)"
  "neutral (on_host h)" "neutral (on_host_opt ho)" "neutral (on_mac k)" "neutral (on_mac_opt ko)"
  "neutral (routine E off r)"
  by (auto simp: neutral_def look_def upd_mac_def on_host_def on_host_opt_def on_mac_def on_mac_opt_def routine_def
      split: prod.splits option.splits)

lemma neutral_call [neutral]: "neutral m \<Longrightarrow> (\<And>x. neutral (f x)) \<Longrightarrow> neutral (call m f)"
  unfolding neutral_def call_def by (fastforce split: option.splits sum.splits prod.splits)

lemma neutral_if [neutral]: "(b \<Longrightarrow> neutral m) \<Longrightarrow> (\<not> b \<Longrightarrow> neutral m') \<Longrightarrow> neutral (if b then m else m')"
  by simp

lemma neutral_cases [neutral]:
  "neutral m \<Longrightarrow> (\<And>x. neutral (f x)) \<Longrightarrow> neutral (case oo of None \<Rightarrow> m | Some x \<Rightarrow> f x)"
  "(\<And>a b. neutral (g a b)) \<Longrightarrow> neutral (case p of (a, b) \<Rightarrow> g a b)"
  by (auto split: option.splits prod.splits)

lemma neutral_let [neutral]: "(\<And>x. neutral (f x)) \<Longrightarrow> neutral (let x = e in f x)"
  by simp

lemma neutral_or_crash [neutral]: "neutral (the_or_crash x)"
  unfolding the_or_crash_def by (intro neutral)

lemma neutral_errno [neutral]: "neutral (errno_err P)"
  unfolding errno_err_def by (intro neutral)

lemma neutral_dirs [neutral]:
  "neutral (resolve_wdcb F pb d r)" "neutral (default_dir F d r)" "neutral (get_current_dir F pb dirID b)"
  unfolding resolve_wdcb_def default_dir_def get_current_dir_def by (intro neutral)+

lemma neutral_parts [neutral]:
  "neutral (get_path_component_name F rec)" "neutral (component rec)" "neutral (skip_component rec n)"
  "neutral (start_parsing rec pb)" "neutral (item_path i)" "neutral (find_fcb F refNum)"
  unfolding get_path_component_name_def component_def skip_component_def start_parsing_def item_path_def find_fcb_def
  by (intro neutral)+

lemma neutral_volumes [neutral]:
  "neutral (fs_mount_vol pb)" "neutral (fs_volume_mount F pb)" "neutral (fs_unmount_vol F vcb)"
  "neutral (fs_get_vol_info pb hfs)" "neutral (fs_set_vol_info pb)" "neutral (fs_get_vol_parms pb)" "neutral (fs_get_vol F pb)"
  "neutral (stat_path F path)" "neutral (set_default_vol F d ref r)" "neutral (put_name pb item)" "neutral (lock_bit F path)"
  "neutral (put_forks F pb path len)"
  unfolding fs_mount_vol_def fs_volume_mount_def fs_unmount_vol_def fs_get_vol_info_def fs_set_vol_info_def
    fs_get_vol_parms_def fs_get_vol_def stat_path_def set_default_vol_def put_name_def lock_bit_def put_forks_def
  by (intro neutral)+

lemma neutral_index_fcb [neutral]: "neutral (index_fcb F vcb pb)"
  unfolding index_fcb_def by (intro neutral)

lemma neutral_index_fcbs [neutral]: "neutral (index_fcbs F vcb pb i fcb)"
proof (rule neutralI)
  fix st res st1
  show "index_fcbs F vcb pb i fcb st = Some (res, st1) \<Longrightarrow> fst st1 = fst st"
  proof (induction F vcb pb i fcb st arbitrary: rule: index_fcbs.induct)
    case (1 F vcb pb i fcb st)
    show ?case
    proof (cases "i < unat (get16 (snd st) (pb + ioFCBIndx)) \<and> index_fcb F vcb pb st \<noteq> None")
      case False
      then show ?thesis using 1(2) by (subst (asm) index_fcbs.simps) (auto split: if_splits option.splits)
    next
      case True
      then obtain r st2 where step: "index_fcb F vcb pb st = Some (r, st2)" by fastforce
      have same: "fst st2 = fst st" using neutral_index_fcb step by (rule neutralD)
      show ?thesis
      proof (cases r)
        case (Inl e)
        then show ?thesis using 1(2) True step same by (subst (asm) index_fcbs.simps) simp
      next
        case (Inr fcb1)
        then have "index_fcbs F vcb pb (Suc i) fcb1 st2 = Some (res, st1)"
          using 1(2) True step by (subst (asm) index_fcbs.simps) simp
        then show ?thesis using 1(1) [OF _ step refl Inr] True same by simp
      qed
    qed
  qed
qed

lemma neutral_files [neutral]:
  "neutral (fcb_of F pb)" "neutral (close_fd F fd)" "neutral (fstat_fd F fd)" "neutral (open_fork F path flag rsrc)"
  "neutral (allocate_fcb F pb)" "neutral (fs_get_fcb_info F pb vcb)" "neutral (adjust_eof F pb)" "neutral (report_pos F pb fcb fd)"
  "neutral (seek_to F pb fd mode)" "neutral (count_ok pb)" "neutral (last_err F)" "neutral (path_exists F path)"
  "neutral (second_pb pb fld)" "neutral (hfs_dir pb hfs)"
  unfolding fcb_of_def close_fd_def fstat_fd_def open_fork_def allocate_fcb_def fs_get_fcb_info_def adjust_eof_def
    report_pos_def seek_to_def count_ok_def last_err_def path_exists_def second_pb_def hfs_dir_def
  by (intro neutral)+

lemma neutral_with_file [neutral]:
  "neutral pseudo \<Longrightarrow> (\<And>fcb fd. neutral (body fcb fd)) \<Longrightarrow> neutral (with_file F pb pseudo body)"
  unfolding with_file_def by (intro neutral)

lemma neutral_io [neutral]:
  "neutral (seek_for_io F pb fd)" "neutral (finish_transfer F pb fcb fd actual)"
  "neutral (fs_close F pb)" "neutral (fs_get_eof F pb)" "neutral (fs_set_eof F pb)"
  "neutral (rename_path F old new)" "neutral (fs_open_wd F pb)" "neutral (fs_close_wd F pb)" "neutral (fs_get_wd_info F pb vcb)"
  unfolding seek_for_io_def finish_transfer_def fs_close_def fs_get_eof_def fs_set_eof_def rename_path_def
    fs_open_wd_def fs_close_wd_def fs_get_wd_info_def
  by (intro neutral)+

lemma neutral_transfer [neutral]:
  "neutral (fs_read F pb)" "neutral (fs_write F pb)" "neutral (fs_get_fpos F pb)" "neutral (fs_set_fpos F pb)"
  unfolding fs_read_def fs_write_def fs_get_fpos_def fs_set_fpos_def by (intro neutral)+

section \<open>Operations on the table\<close>

definition good :: "(extfs \<Rightarrow> bool) \<Rightarrow> nat \<Rightarrow> ('h, 'a) fsop \<Rightarrow> ('a \<Rightarrow> nat \<Rightarrow> bool) \<Rightarrow> bool" where
  "good T n m Q \<longleftrightarrow>
     (\<forall>st res st1. T (fst st) \<longrightarrow> n \<le> length (fs_items (fst st)) \<longrightarrow> m st = Some (res, st1) \<longrightarrow>
        T (fst st1) \<and> n \<le> length (fs_items (fst st1)) \<and> (\<forall>x. res = Inr x \<longrightarrow> Q x (length (fs_items (fst st1)))))"

lemma goodD:
  assumes "good T n m Q" and "T (fst st)" and "n \<le> length (fs_items (fst st))" and "m st = Some (res, st1)"
  shows "T (fst st1)" and "n \<le> length (fs_items (fst st1))" and "res = Inr x \<Longrightarrow> Q x (length (fs_items (fst st1)))"
  using assms unfolding good_def by blast+

lemma goodI:
  "(\<And>st res st1. T (fst st) \<Longrightarrow> n \<le> length (fs_items (fst st)) \<Longrightarrow> m st = Some (res, st1) \<Longrightarrow>
     T (fst st1) \<and> n \<le> length (fs_items (fst st1)) \<and> (\<forall>x. res = Inr x \<longrightarrow> Q x (length (fs_items (fst st1))))) \<Longrightarrow>
   good T n m Q"
  unfolding good_def by blast

lemma good_weaken: "good T n m Q \<Longrightarrow> (\<And>x k. n \<le> k \<Longrightarrow> Q x k \<Longrightarrow> R x k) \<Longrightarrow> good T n m R"
  unfolding good_def by blast

lemma good_neutral: "neutral m \<Longrightarrow> (\<And>x k. n \<le> k \<Longrightarrow> Q x k) \<Longrightarrow> good T n m Q"
  by (intro goodI) (auto dest: neutralD)

lemma good_call:
  assumes m: "good T n m Q" and f: "\<And>x k. n \<le> k \<Longrightarrow> Q x k \<Longrightarrow> good T k (f x) R"
  shows "good T n (call m f) R"
proof (rule goodI)
  fix st res st2
  assume st: "T (fst st)" "n \<le> length (fs_items (fst st))" and run: "call m f st = Some (res, st2)"
  then obtain r st1 where 1: "m st = Some (r, st1)" by (auto simp: call_def split: option.splits)
  note t = goodD [OF m st 1]
  show "T (fst st2) \<and> n \<le> length (fs_items (fst st2)) \<and> (\<forall>x. res = Inr x \<longrightarrow> R x (length (fs_items (fst st2))))"
  proof (cases r)
    case (Inl e)
    then show ?thesis using run 1 t by (auto simp: call_def)
  next
    case (Inr x)
    let ?k = "length (fs_items (fst st1))"
    have g: "good T ?k (f x) R" using f t Inr by simp
    have 2: "f x st1 = Some (res, st2)" using run 1 Inr by (simp add: call_def)
    show ?thesis using goodD [OF g t(1) order.refl 2] t(2) by fastforce
  qed
qed

lemma good_simple:
  "(\<And>k. n \<le> k \<Longrightarrow> Q x k) \<Longrightarrow> good T n (ret x) Q" "good T n (os_err e) Q" "good T n crash Q"
  by (auto simp: good_def)

lemma good_look:
  fixes g :: "'a \<Rightarrow> ('h, 'b) fsop"
  assumes g: "\<And>v s. T v \<Longrightarrow> n \<le> length (fs_items v) \<Longrightarrow> good T (length (fs_items v)) (g (f v s)) Q"
  shows "good T n (call (look f) g) Q"
proof (rule goodI)
  fix st :: "'h xs" and res :: "u16 + 'b" and st1
  assume st: "T (fst st)" "n \<le> length (fs_items (fst st))" and run: "call (look f) g st = Some (res, st1)"
  from run have "g (f (fst st) (snd st)) st = Some (res, st1)" by simp
  note d = goodD [OF g [OF st] st(1) order.refl this]
  show "T (fst st1) \<and> n \<le> length (fs_items (fst st1)) \<and> (\<forall>x. res = Inr x \<longrightarrow> Q x (length (fs_items (fst st1))))"
    using d st(2) by simp
qed

lemma good_skip:
  fixes g :: "'a \<Rightarrow> ('h, 'b) fsop"
  assumes m: "neutral m" and g: "\<And>x. good T n (g x) Q"
  shows "good T n (call m g) Q"
proof (rule goodI)
  fix st :: "'h xs" and res :: "u16 + 'b" and st2
  assume st: "T (fst st)" "n \<le> length (fs_items (fst st))" and run: "call m g st = Some (res, st2)"
  then obtain r st1 where 1: "m st = Some (r, st1)" by (auto simp: call_def split: option.splits)
  have same: "fst st1 = fst st" using m 1 by (rule neutralD)
  show "T (fst st2) \<and> n \<le> length (fs_items (fst st2)) \<and> (\<forall>x. res = Inr x \<longrightarrow> Q x (length (fs_items (fst st2))))"
  proof (cases r)
    case (Inl e)
    then show ?thesis using run 1 same st by (auto simp: call_def)
  next
    case (Inr x)
    then have "g x st1 = Some (res, st2)" using run 1 by (simp add: call_def)
    from goodD [OF g _ _ this] same st show ?thesis by simp
  qed
qed

lemma good_if: "(b \<Longrightarrow> good T n m Q) \<Longrightarrow> (\<not> b \<Longrightarrow> good T n m' Q) \<Longrightarrow> good T n (if b then m else m') Q"
  by simp

lemma good_cases:
  "(oo = None \<Longrightarrow> good T n m Q) \<Longrightarrow> (\<And>x. oo = Some x \<Longrightarrow> good T n (f x) Q) \<Longrightarrow>
     good T n (case oo of None \<Rightarrow> m | Some x \<Rightarrow> f x) Q"
  "(\<And>a b. p = (a, b) \<Longrightarrow> good T n (g a b) Q) \<Longrightarrow> good T n (case p of (a, b) \<Rightarrow> g a b) Q"
  by (auto split: option.splits prod.splits)

text \<open>The parents of an item come before it.\<close>

definition parents_ok :: "FSItem list \<Rightarrow> bool" where
  "parents_ok items \<longleftrightarrow> (\<forall>i < length items. \<forall>j. fs_parent (items ! i) = Some j \<longrightarrow> j < i)"

text \<open>Looking up an item needs the first two laws of the table, the calls that change items the others too.\<close>

locale fs_lookup =
  fixes T :: "extfs \<Rightarrow> bool"
  assumes parents: "T v \<Longrightarrow> parents_ok (fs_items v)"
    and enter: "T v \<Longrightarrow> p < length (fs_items v) \<Longrightarrow> find_fsitem junk name p v = Some (i, v1) \<Longrightarrow> T v1"
begin

lemma good_enter:
  fixes F :: "'h fsenv"
  assumes "p < n"
  shows "good T n (enter_item F name p) (\<lambda>i k. i < k)"
proof (rule goodI)
  fix st :: "'h xs" and res st1
  assume st: "T (fst st)" "n \<le> length (fs_items (fst st))" and run: "enter_item F name p st = Some (res, st1)"
  then obtain i v where v: "find_fsitem (heap_junk F) name p (fst st) = Some (i, v)" "res = Inr i" "fst st1 = v"
    by (cases st) (auto simp: enter_item_def the_or_crash_def split: option.splits)
  moreover have "i < length (fs_items v)" "length (fs_items (fst st)) \<le> length (fs_items v)"
    using v(1) by (auto simp: find_fsitem_def find_named_def dest: find_index_bound split: option.splits)
  ultimately show "T (fst st1) \<and> n \<le> length (fs_items (fst st1)) \<and> (\<forall>x. res = Inr x \<longrightarrow> x < length (fs_items (fst st1)))"
    using enter [OF st(1) _ v(1)] st assms by auto
qed

lemma good_parse_step:
  assumes "fst pc < n"
  shows "good T n (parse_step F rec pc) (\<lambda>pc1 k. fst pc1 < k)"
proof -
  obtain p cur where pc: "pc = (p, cur)" by force
  have up: "q < length (fs_items v)" if "T v" "fs_parent (fs_items v ! p) = Some q" "n \<le> length (fs_items v)" for v q
  proof -
    have "p < length (fs_items v)" using that assms pc by simp
    then have "q < p" using parents [OF that(1)] that(2) unfolding parents_ok_def by blast
    then show ?thesis using \<open>p < length (fs_items v)\<close> by simp
  qed
  have into: "good T k (call (component rec) (\<lambda>name. call (enter_item F name p) (\<lambda>q.
      call (skip_component rec len) (\<lambda>_. call (look (\<lambda>v s. fs_id (fs_items v ! q))) (\<lambda>cur. ret (q, cur))))))
    (\<lambda>pc1 k. fst pc1 < k)" if "n \<le> k" for k len
    using that assms pc
    by (intro good_skip [OF neutral_parts(2)] good_call [OF good_enter] good_skip [OF neutral_parts(3)] good_look good_simple)
      auto
  show ?thesis
    unfolding parse_step_def pc Let_def case_prod_conv
  proof (intro good_skip [OF neutral_parts(1)] good_if good_simple good_look, unfold case_prod_conv, intro good_if, goal_cases)
    case (1 r v s)
    then show ?case by (intro good_skip neutral good_simple)
  next
    case (2 r v s)
    then show ?case
      using up [of v] less_le_trans
      by (cases "fs_parent (fs_items v ! p)") (auto simp: the_or_crash_def intro!: good_skip neutral good_simple)
  next
    case (3 r v s)
    then show ?case by (intro into)
  next
    case (4 r v s)
    then show ?case using assms pc by (intro good_simple) simp
  qed
qed

lemma good_parse_loop:
  fixes F :: "'h fsenv"
  assumes "fst pc < n"
  shows "good T n (parse_loop F rec pc) (\<lambda>pc1 k. fst pc1 < k)"
proof (rule goodI)
  fix st :: "'h xs" and res st2
  assume "T (fst st)" "n \<le> length (fs_items (fst st))" "parse_loop F rec pc st = Some (res, st2)"
  moreover have "parse_loop F rec pc st = Some y \<Longrightarrow> (\<And>m. T (fst st) \<Longrightarrow> fst pc < m \<Longrightarrow> m \<le> length (fs_items (fst st)) \<Longrightarrow>
      T (fst (snd y)) \<and> m \<le> length (fs_items (fst (snd y))) \<and>
      (\<forall>x. fst y = Inr x \<longrightarrow> fst x < length (fs_items (fst (snd y)))))" for y
  proof (induction rule: parse_loop.raw_induct [rotated 1, consumes 1, case_names step])
    case (step loop F rec pc st y)
    show ?case
    proof (cases "get8 (snd st) (rec + ppMoreName) = 0")
      case True
      then show ?thesis using step by auto
    next
      case False
      with step(2) obtain r st1 where 1: "parse_step F rec pc st = Some (r, st1)"
        by (auto split: option.splits)
      note d = goodD [OF good_parse_step [OF step(4)] step(3,5) 1]
      show ?thesis
      proof (cases r)
        case (Inl e)
        then show ?thesis using step(2) False 1 d by auto
      next
        case (Inr pc1)
        have run: "loop F rec pc1 st1 = Some y" using step(2) False 1 Inr by simp
        from step(1) [OF run d(1) d(3) [OF Inr] order.refl] d(2) show ?thesis by auto
      qed
    qed
  qed
  ultimately show "T (fst st2) \<and> n \<le> length (fs_items (fst st2)) \<and>
      (\<forall>x. res = Inr x \<longrightarrow> fst x < length (fs_items (fst st2)))"
    using assms by fastforce
qed

lemma good_parse_path:
  assumes "p < n"
  shows "good T n (parse_path F rec p cur) (\<lambda>i k. i < k)"
  unfolding parse_path_def
proof (intro good_skip [OF neutral_parts(1)] good_if good_simple good_skip [OF neutral_prim(4)], goal_cases)
  case (1 r leading)
  have skip: "neutral (if leading then skip_component rec 0 else ret ())" by (intro neutral)
  show ?case
  proof (intro good_skip [OF skip] good_call [OF good_parse_loop], goal_cases)
    case 1 then show ?case using assms by simp
  next
    case (2 u pc k)
    then show ?case
      by (cases pc) (auto intro!: good_skip [OF neutral_prim(4)] good_simple good_skip [OF neutral_parts(2)] good_enter)
  qed
qed

lemma good_get_item:
  "good T n (get_item_and_path F pb dirID) (\<lambda>r k. fst r < k)"
  unfolding get_item_and_path_def
proof (intro good_skip [OF neutral_dirs(3)] good_look, unfold case_prod_conv, intro good_cases good_simple, goal_cases)
  case (1 cur v s p)
  have p: "p < length (fs_items v)" using 1(3) by (auto simp: find_fsitem_by_id_def dest: find_index_bound)
  have alt: "good T (length (fs_items v)) (call (look h) (\<lambda>e. if e then ret p else os_err bdNamErr)) (\<lambda>i k. i < k)" for h
    using p by (intro good_skip [OF neutral_prim(4)] good_if good_simple) simp
  have path: "good T (length (fs_items v)) (call (if b then parse_path F rec p cur else
      call (look h) (\<lambda>e. if e then ret p else os_err bdNamErr))
      (\<lambda>item. call (item_path item) (\<lambda>path. ret (item, path)))) (\<lambda>r k. fst r < k)" for b rec h
    by (intro good_call [where Q = "\<lambda>i k. i < k"] good_if good_parse_path alt p
          good_skip [OF neutral_parts(5)] good_simple) auto
  show ?case
    by (intro good_skip [OF neutral_parts(4)] good_skip [OF neutral_prim(4)] good_skip [OF neutral_prim(10)] path)
qed

lemma good_indexed_item: "good T n (indexed_item F pb dirID index) (\<lambda>r k. fst r < k)"
  unfolding indexed_item_def
proof (intro good_skip [OF neutral_dirs(3)] good_look good_cases good_simple, goal_cases)
  case (1 cur v s p)
  have p: "p < length (fs_items v)" using 1(3) by (auto simp: find_fsitem_by_id_def dest: find_index_bound)
  show ?case
    unfolding Let_def
    by (intro good_skip [OF neutral_parts(5)] good_skip [OF neutral_prim(6)] good_cases good_if good_simple
          good_skip [OF neutral_or_crash] good_call [OF good_enter] p) auto
qed

lemma good_select_file: "good T n (select_file F pb dirID) (\<lambda>r k. fst r < k)"
  unfolding select_file_def by (intro good_skip [OF neutral_prim(4)] good_if good_get_item good_indexed_item)

lemma good_select_cat: "good T n (select_cat F pb index) (\<lambda>r k. fst r < k)"
  unfolding select_cat_def
proof (intro good_if, goal_cases)
  case 1
  show ?case
    by (intro good_look good_cases good_simple good_skip [OF neutral_parts(5)])
       (auto simp: find_fsitem_by_id_def dest: find_index_bound)
next
  case 2
  show ?case by (intro good_skip [OF neutral_prim(4)] good_if good_get_item good_indexed_item)
qed

end

locale fs_table = fs_lookup +
  assumes swap: "T v \<Longrightarrow> i < length (fs_items v) \<Longrightarrow> j < length (fs_items v) \<Longrightarrow> T (swap_ids i j v)"
    and times: "T v \<Longrightarrow> T (set_item i (\<lambda>p. p\<lparr>fs_mtime := t\<rparr>) v)"
    and counts: "T v \<Longrightarrow> T (set_item i (\<lambda>p. p\<lparr>cache_dircount := c\<rparr>) v)"
begin

text \<open>A call that does nothing to the table but find its item.\<close>

lemma good_then: "good T n m Q \<Longrightarrow> (\<And>x. neutral (f x)) \<Longrightarrow> good T n (call m f) (\<lambda>_ _. True)"
  by (erule good_call) (rule good_neutral, simp_all)

lemma good_trivial: "neutral m \<Longrightarrow> good T n m (\<lambda>_ _. True)"
  by (rule good_neutral) simp_all

lemma good_simple_calls:
  "good T n (fs_set_vol F pb hfs vcb) (\<lambda>_ _. True)" "good T n (fs_get_file_info F pb hfs dirID) (\<lambda>_ _. True)"
  "good T n (fs_set_file_info F pb hfs dirID) (\<lambda>_ _. True)" "good T n (fs_set_cat_info F pb) (\<lambda>_ _. True)"
  "good T n (fs_open F pb dirID vcb rsrc) (\<lambda>_ _. True)" "good T n (fs_create F pb dirID) (\<lambda>_ _. True)"
  "good T n (fs_dir_create F pb) (\<lambda>_ _. True)" "good T n (fs_delete F pb dirID) (\<lambda>_ _. True)"
  unfolding fs_set_vol_def fs_get_file_info_def fs_set_file_info_def fs_set_cat_info_def fs_open_def fs_create_def
    fs_dir_create_def fs_delete_def
  by (intro good_if good_skip [OF neutral_prim(4)] good_then [OF good_get_item] good_then [OF good_select_file]
        good_trivial neutral)+

text \<open>Catalog information keeps the time and the count in the item.\<close>

lemma good_update: "(\<And>v. T v \<Longrightarrow> T (f v) \<and> length (fs_items (f v)) = length (fs_items v)) \<Longrightarrow> good T n (upd_fs f) (\<lambda>_ _. True)"
  by (auto simp: good_def upd_fs_def)

lemma good_times: "good T n (upd_fs (set_item i (\<lambda>p. p\<lparr>fs_mtime := t\<rparr>))) (\<lambda>_ _. True)"
  and good_counts: "good T n (upd_fs (set_item i (\<lambda>p. p\<lparr>cache_dircount := c\<rparr>))) (\<lambda>_ _. True)"
  using times counts by (auto intro!: good_update) (auto simp: set_item_def)

lemma good_dir_count: "good T n (dir_count F item path cached) (\<lambda>_ _. True)"
  unfolding dir_count_def Let_def
  by (intro good_if good_trivial neutral good_skip [OF neutral_prim(6)] good_then [OF good_counts])

lemma good_get_cat_info:
  fixes F :: "'h fsenv"
  shows "good T n (fs_get_cat_info F pb) (\<lambda>_ _. True)"
  unfolding fs_get_cat_info_def
proof (intro good_skip [OF neutral_prim(4)] good_call [OF good_select_cat], goal_cases)
  case (1 index r k)
  have tail: "good T k (call (if cached then ret () else upd_fs (set_item item (\<lambda>p. p\<lparr>fs_mtime := t\<rparr>)))
      (\<lambda>_. call m1 (\<lambda>_. call m2 (\<lambda>_. if d then call (dir_count F item path cached) f else m3)))) (\<lambda>_ _. True)"
    if "neutral m1" "neutral m2" "neutral m3" "\<And>x. neutral (f x)"
    for k cached item t path f and m1 m2 m3 :: "('h, _) fsop" and d
    by (rule good_call [where Q = "\<lambda>_ _. True"])
       (intro good_if good_trivial good_times neutral, intro good_skip that good_if good_then [OF good_dir_count] good_trivial)+
  show ?case
    unfolding Let_def
    apply (intro good_cases good_skip [OF neutral_volumes(8)])
     apply (intro good_trivial neutral)
    apply (intro good_if)
     apply (intro good_trivial neutral)
    apply (intro good_skip [OF neutral_volumes(10)] good_skip [OF neutral_prim(5)] good_skip [OF neutral_volumes(11)]
        good_skip [OF neutral_prim(4)] tail neutral)
    done
qed

text \<open>Renaming and moving exchange the IDs of two items.\<close>

lemma good_swap: "i < n \<Longrightarrow> j < n \<Longrightarrow> good T n (upd_fs (swap_ids i j)) (\<lambda>_ _. True)"
  using swap by (auto simp: good_def upd_fs_def) (simp add: swap_ids_def swap_parent_ids_def Let_def)

lemma good_rename: "good T n (fs_rename F pb dirID) (\<lambda>_ _. True)"
  unfolding fs_rename_def
proof (rule good_call [OF good_get_item], goal_cases)
  case (1 r k)
  obtain item old where r: "r = (item, old)" by force
  have item: "item < k" using 1 r by simp
  show ?case
    unfolding r case_prod_conv
  proof (rule good_skip [OF neutral_files(13)], rule good_call [OF good_get_item], goal_cases)
    case (1 pb2 r2 k2)
    then obtain new path where r2: "r2 = (new, path)" "new < k2" "k \<le> k2" by (cases r2) auto
    show ?case
      unfolding r2(1) case_prod_conv
      by (intro good_skip [OF neutral_io(6)] good_then [OF good_swap] neutral) (use item r2 in simp_all)
  qed
qed

lemma good_cat_move: "good T n (fs_cat_move F pb) (\<lambda>_ _. True)"
  unfolding fs_cat_move_def
proof (rule good_skip [OF neutral_prim(4)], rule good_call [OF good_get_item], goal_cases)
  case (1 dirID r k)
  obtain item old where r: "r = (item, old)" by force
  have item: "item < k" using 1 r by simp
  show ?case
    unfolding r case_prod_conv
  proof (rule good_skip [OF neutral_files(13)], rule good_skip [OF neutral_prim(4)], rule good_call [OF good_get_item], goal_cases)
    case (1 pb2 new_dir r2 k2)
    then obtain dir path where r2: "r2 = (dir, path)" "dir < k2" "k \<le> k2" by (cases r2) auto
    show ?case
      unfolding r2(1) case_prod_conv
      by (intro good_skip [OF neutral_prim(4)] good_skip [OF neutral_or_crash] good_skip [OF neutral_io(6)]
            good_call [OF good_enter] good_then [OF good_swap] neutral)
         (use item r2 in simp_all)
  qed
qed

lemma good_ExtFSHFS: "good T n (ExtFSHFS F vcb sel pb) (\<lambda>_ _. True)"
  unfolding ExtFSHFS_def Let_def
  by (intro good_if good_skip [OF neutral_files(14)] good_simple_calls good_rename good_cat_move good_get_cat_info
        good_trivial neutral)

end

section \<open>The table\<close>

definition item_key :: "FSItem \<Rightarrow> nat option \<times> string" where
  "item_key p = (fs_parent p, fs_name p)"

text \<open>The IDs that are in use: two for the root and its parent, the others from 16 on.\<close>

definition used_ids :: "nat \<Rightarrow> u32 list" where
  "used_ids n = 1 # 2 # map word_of_nat [16..<n + 14]"

text \<open>Names are unique in their directory and parents come first. Until all the 32-bit IDs are used up, the
  IDs are unique and each item holds the ID of its parent.\<close>

definition ids_ok :: "extfs \<Rightarrow> bool" where
  "ids_ok v \<longleftrightarrow>
     (let items = fs_items v in
      mset (map fs_id items) = mset (used_ids (length items)) \<and> next_cnid v = word_of_nat (length items + 14) \<and>
      (\<forall>i < length items. \<forall>j. fs_parent (items ! i) = Some j \<longrightarrow> fs_parent_id (items ! i) = fs_id (items ! j)))"

definition table_ok :: "extfs \<Rightarrow> bool" where
  "table_ok v \<longleftrightarrow> parents_ok (fs_items v) \<and> distinct (map item_key (fs_items v)) \<and> 2 \<le> length (fs_items v) \<and>
     (length (fs_items v) + 14 \<le> 2 ^ 32 \<longrightarrow> ids_ok v)"

text \<open>The table is only ever extended: the items keep their positions, names and parents.\<close>

definition extends :: "extfs \<Rightarrow> extfs \<Rightarrow> bool" where
  "extends v0 v \<longleftrightarrow> (\<exists>xs. map item_key (fs_items v) = map item_key (fs_items v0) @ xs)
     \<and> RootPath v = RootPath v0 \<and> fs_data v = fs_data v0 \<and> ready v = ready v0"

lemma used_ids_distinct: "n + 14 \<le> 2 ^ 32 \<Longrightarrow> distinct (used_ids n)"
proof -
  assume n: "n + 14 \<le> 2 ^ 32"
  have "unat (word_of_nat i :: u32) = i" if "i < n + 14" for i
    using that n by (simp add: unat_word_of_nat)
  then have "inj_on (word_of_nat :: nat \<Rightarrow> u32) (set [16..<n + 14])"
    by (intro inj_onI) (metis atLeastLessThan_iff set_upt)
  moreover have "(1 :: u32) \<notin> word_of_nat ` set [16..<n + 14]" "(2 :: u32) \<notin> word_of_nat ` set [16..<n + 14]"
    using n by (auto simp: word_unat_eq_iff unat_word_of_nat)
  ultimately show ?thesis
    by (simp add: used_ids_def distinct_map)
qed

text \<open>A new item.\<close>

definition new_item :: "int \<Rightarrow> string \<Rightarrow> nat \<Rightarrow> extfs \<Rightarrow> FSItem" where
  "new_item junk name p v =
     \<lparr>fs_id = next_cnid v, fs_parent_id = fs_id (fs_items v ! p), fs_parent = Some p, fs_name = name, fs_mtime = 0,
      cache_dircount = junk\<rparr>"

lemma find_fsitem_cases:
  assumes "find_fsitem junk name p v = Some (i, v1)"
  obtains (old) "v1 = v" "find_named name p (fs_items v) = Some i"
    | (new) "find_named name p (fs_items v) = None" "i = length (fs_items v)"
        "v1 = v\<lparr>fs_items := fs_items v @ [new_item junk name p v], next_cnid := next_cnid v + 1\<rparr>"
  using assms
  by (auto simp: find_fsitem_def stccpy_def new_item_def split: option.splits if_splits)

lemma item_key_new [simp]: "item_key (new_item junk name p v) = (Some p, name)"
  by (simp add: item_key_def new_item_def)

lemma find_named_None: "find_named name p items = None \<longleftrightarrow> (Some p, name) \<notin> set (map item_key items)"
  by (auto simp: find_named_def find_index_None item_key_def image_iff)

lemma used_ids_Suc: "2 \<le> n \<Longrightarrow> used_ids (Suc n) = used_ids n @ [word_of_nat (n + 14)]"
proof -
  assume "2 \<le> n"
  then have "[16..<Suc (n + 14)] = [16..<n + 14] @ [n + 14]" by (intro upt_Suc_append) simp
  then have "map word_of_nat [16..<Suc n + 14] = map word_of_nat [16..<n + 14] @ [word_of_nat (n + 14) :: u32]"
    unfolding add_Suc by (simp only: map_append list.map)
  then show ?thesis unfolding used_ids_def by (simp only: append_Cons)
qed

lemma ids_ok_new:
  assumes ids: "ids_ok v" and len: "2 \<le> length (fs_items v)" and par: "parents_ok (fs_items v)" and p: "p < length (fs_items v)"
  shows "ids_ok (v\<lparr>fs_items := fs_items v @ [new_item junk name p v], next_cnid := next_cnid v + 1\<rparr>)"
proof -
  have "fs_parent_id ((fs_items v @ [new_item junk name p v]) ! i) = fs_id ((fs_items v @ [new_item junk name p v]) ! j)"
    if i: "i < Suc (length (fs_items v))" and j: "fs_parent ((fs_items v @ [new_item junk name p v]) ! i) = Some j" for i j
  proof (cases "i < length (fs_items v)")
    case True
    then have "fs_parent (fs_items v ! i) = Some j" using j by (simp add: nth_append)
    moreover have "j < i" using par True calculation unfolding parents_ok_def by blast
    ultimately show ?thesis using ids True by (simp add: ids_ok_def Let_def nth_append)
  next
    case False
    then have "i = length (fs_items v)" using i by simp
    then show ?thesis using j p by (auto simp: nth_append new_item_def)
  qed
  then show ?thesis
    using ids len by (simp add: ids_ok_def Let_def used_ids_Suc new_item_def)
qed

lemma parents_ok_new:
  "parents_ok items \<Longrightarrow> p < length items \<Longrightarrow> fs_parent it = Some p \<Longrightarrow> parents_ok (items @ [it])"
  by (auto simp: parents_ok_def nth_append less_Suc_eq)

lemma table_ok_enter:
  assumes v: "table_ok v" and p: "p < length (fs_items v)" and f: "find_fsitem junk name p v = Some (i, v1)"
  shows "table_ok v1"
  using f
proof (cases rule: find_fsitem_cases)
  case old
  then show ?thesis using v by simp
next
  case new
  have "parents_ok (fs_items v @ [new_item junk name p v])"
    using v p by (intro parents_ok_new [of _ p]) (auto simp: table_ok_def new_item_def)
  moreover have "distinct (map item_key (fs_items v @ [new_item junk name p v]))"
    using v new(1) by (auto simp: table_ok_def find_named_None)
  moreover have "ids_ok v1" if "length (fs_items v1) + 14 \<le> 2 ^ 32"
    using that v new(3) p ids_ok_new by (auto simp: table_ok_def)
  ultimately show ?thesis using v new(3) by (auto simp: table_ok_def)
qed

text \<open>Exchanging the IDs of two items.\<close>

lemma length_swap_ids [simp]: "length (fs_items (swap_ids i j v)) = length (fs_items v)"
  by (simp add: swap_ids_def swap_parent_ids_def Let_def)

definition swapped_id :: "nat \<Rightarrow> nat \<Rightarrow> extfs \<Rightarrow> nat \<Rightarrow> u32" where
  "swapped_id i j v k =
     (if k = j then fs_id (fs_items v ! i) else if k = i then fs_id (fs_items v ! j) else fs_id (fs_items v ! k))"

lemma nth_swap_ids:
  assumes "k < length (fs_items v)"
  shows "fs_items (swap_ids i j v) ! k =
    (swap_parent (fs_id (fs_items v ! i)) (fs_id (fs_items v ! j)) (fs_items v ! k))\<lparr>fs_id := swapped_id i j v k\<rparr>"
  using assms
  by (auto simp: swap_ids_def swap_parent_ids_def Let_def nth_list_update swapped_id_def swap_parent_def)

lemma swap_parent_same [simp]:
  "fs_parent (swap_parent a b p) = fs_parent p" "fs_name (swap_parent a b p) = fs_name p" "fs_id (swap_parent a b p) = fs_id p"
  by (simp_all add: swap_parent_def)

lemma item_keys_swap [simp]: "map item_key (fs_items (swap_ids i j v)) = map item_key (fs_items v)"
  by (rule nth_equalityI) (auto simp: nth_swap_ids item_key_def)

lemma parents_ok_keys: "map item_key items = map item_key items' \<Longrightarrow> parents_ok items = parents_ok items'"
  unfolding parents_ok_def item_key_def
  by (metis (no_types, lifting) fst_conv length_map nth_map)

lemma ids_swap: 
  assumes "i < length (fs_items v)" and "j < length (fs_items v)"
  shows "mset (map fs_id (fs_items (swap_ids i j v))) = mset (map fs_id (fs_items v))"
proof -
  let ?xs = "map fs_id (fs_items v)"
  have "map fs_id (fs_items (swap_ids i j v)) = ?xs[i := ?xs ! j, j := ?xs ! i]"
    using assms by (intro nth_equalityI) (auto simp: nth_swap_ids swapped_id_def nth_list_update)
  then show ?thesis using mset_swap [of j ?xs i] assms by simp
qed

lemma ids_inj:
  assumes "ids_ok v" and "length (fs_items v) + 14 \<le> 2 ^ 32"
    and "i < length (fs_items v)" and "j < length (fs_items v)"
  shows "fs_id (fs_items v ! i) = fs_id (fs_items v ! j) \<longleftrightarrow> i = j"
proof -
  have "mset (map fs_id (fs_items v)) = mset (used_ids (length (fs_items v)))"
    using assms(1) unfolding ids_ok_def Let_def by blast
  then have "distinct (map fs_id (fs_items v))"
    using used_ids_distinct [OF assms(2)] mset_eq_imp_distinct_iff by blast
  from nth_eq_iff_index_eq [OF this, of i j] show ?thesis using assms(3,4) by simp
qed

lemma ids_ok_swap:
  assumes ids: "ids_ok v" and par: "parents_ok (fs_items v)" and len: "length (fs_items v) + 14 \<le> 2 ^ 32"
    and i: "i < length (fs_items v)" and j: "j < length (fs_items v)"
  shows "ids_ok (swap_ids i j v)"
proof -
  have "fs_parent_id (fs_items (swap_ids i j v) ! k) = fs_id (fs_items (swap_ids i j v) ! q)"
    if k: "k < length (fs_items v)" and q: "fs_parent (fs_items (swap_ids i j v) ! k) = Some q" for k q
  proof -
    have q1: "fs_parent (fs_items v ! k) = Some q" using q k by (simp add: nth_swap_ids)
    then have "q < length (fs_items v)" using par k unfolding parents_ok_def by fastforce
    moreover have "fs_parent_id (fs_items v ! k) = fs_id (fs_items v ! q)"
      using ids q1 k by (auto simp: ids_ok_def Let_def)
    ultimately show ?thesis
      using k i j by (simp add: nth_swap_ids swapped_id_def swap_parent_def ids_inj [OF ids len])
  qed
  then show ?thesis
    using ids ids_swap [OF i j] by (simp add: ids_ok_def Let_def) (simp add: swap_ids_def Let_def)
qed

lemma table_ok_swap:
  "table_ok v \<Longrightarrow> i < length (fs_items v) \<Longrightarrow> j < length (fs_items v) \<Longrightarrow> table_ok (swap_ids i j v)"
  using ids_ok_swap [of v i j] parents_ok_keys [OF item_keys_swap [of i j v]] by (simp add: table_ok_def)

lemma set_item_same:
  assumes "\<And>p. item_key (f p) = item_key p \<and> fs_id (f p) = fs_id p \<and> fs_parent_id (f p) = fs_parent_id p"
  shows "length (fs_items (set_item i f v)) = length (fs_items v)"
    and "fs_id (fs_items (set_item i f v) ! k) = fs_id (fs_items v ! k)"
    and "item_key (fs_items (set_item i f v) ! k) = item_key (fs_items v ! k)"
    and "fs_parent_id (fs_items (set_item i f v) ! k) = fs_parent_id (fs_items v ! k)"
  using assms
  by (simp_all add: set_item_def) (cases "i = k"; cases "i < length (fs_items v)"; simp add: list_update_beyond; fail)+

lemma table_ok_set_item:
  assumes "\<And>p. item_key (f p) = item_key p \<and> fs_id (f p) = fs_id p \<and> fs_parent_id (f p) = fs_parent_id p" and v: "table_ok v"
  shows "table_ok (set_item i f v)"
proof -
  note same = set_item_same [of f, OF assms(1)]
  have keys: "map item_key (fs_items (set_item i f v)) = map item_key (fs_items v)"
    by (rule nth_equalityI) (simp_all add: same)
  have ids: "map fs_id (fs_items (set_item i f v)) = map fs_id (fs_items v)"
    by (rule nth_equalityI) (simp_all add: same)
  have par: "fs_parent (fs_items (set_item i f v) ! k) = fs_parent (fs_items v ! k)" for k
    using same(3) [of i v k] by (simp add: item_key_def)
  have nxt: "next_cnid (set_item i f v) = next_cnid v" by (simp add: set_item_def)
  show ?thesis
    using v unfolding table_ok_def ids_ok_def Let_def parents_ok_keys [OF keys] keys ids same(1) nxt
    by (simp add: same par)
qed

interpretation tbl: fs_table table_ok
proof (unfold_locales, goal_cases)
  case (1 v) then show ?case by (simp add: table_ok_def)
next
  case (2 v p junk name i v1) then show ?case by (rule table_ok_enter)
next
  case (3 v i j) then show ?case by (rule table_ok_swap)
next
  case (4 v i t) then show ?case by (intro table_ok_set_item) (auto simp: item_key_def)
next
  case (5 v i c) then show ?case by (intro table_ok_set_item) (auto simp: item_key_def)
qed

lemma extends_refl [simp]: "extends v v"
  by (simp add: extends_def)

lemma extends_find:
  assumes "extends v0 v" and f: "find_fsitem junk name p v = Some (i, v1)"
  shows "extends v0 v1"
  using f by (cases rule: find_fsitem_cases) (use assms(1) in \<open>auto simp: extends_def\<close>)

lemma extends_swap: "extends v0 v \<Longrightarrow> extends v0 (swap_ids i j v)"
  unfolding extends_def item_keys_swap by (simp add: swap_ids_def Let_def)

lemma item_keys_set_item:
  "(\<And>p. item_key (f p) = item_key p) \<Longrightarrow> map item_key (fs_items (set_item i f v)) = map item_key (fs_items v)"
  by (cases "i < length (fs_items v)")
     (auto intro!: nth_equalityI simp: set_item_def nth_list_update list_update_beyond)

lemma extends_set_item: "(\<And>p. item_key (f p) = item_key p) \<Longrightarrow> extends v0 v \<Longrightarrow> extends v0 (set_item i f v)"
  using item_keys_set_item [of f i v]
  by (auto simp: extends_def set_item_def)
interpretation grow: fs_table "\<lambda>v. parents_ok (fs_items v) \<and> extends v0 v" for v0
proof (unfold_locales, goal_cases)
  case (1 v) then show ?case by simp
next
  case (2 v p junk name i v1)
  then show ?case
    using extends_find [of v0 v junk name p i v1] parents_ok_new [of "fs_items v" p "new_item junk name p v"]
    by (auto elim!: find_fsitem_cases simp: new_item_def)
next
  case (3 v i j) then show ?case using extends_swap parents_ok_keys [OF item_keys_swap] by blast
next
  case (4 v i t)
  then show ?case
    using extends_set_item [of "\<lambda>p. p\<lparr>fs_mtime := t\<rparr>"] item_keys_set_item [of "\<lambda>p. p\<lparr>fs_mtime := t\<rparr>" i v]
    by (auto simp: item_key_def dest: parents_ok_keys)
next
  case (5 v i c)
  then show ?case
    using extends_set_item [of "\<lambda>p. p\<lparr>cache_dircount := c\<rparr>"] item_keys_set_item [of "\<lambda>p. p\<lparr>cache_dircount := c\<rparr>" i v]
    by (auto simp: item_key_def dest: parents_ok_keys)
qed

section \<open>Every state of the file system\<close>

lemma neutral_comm [neutral]: "neutral (ExtFSComm message pb)"
  unfolding ExtFSComm_def by (intro neutral)

definition fresh_extfs :: extfs where
  "fresh_extfs =
     \<lparr>fs_items = [], next_cnid = fsUsrCNID, fs_data = 0, RootPath = None, root_mtime = 0, ready = False, drive_number = 0,
      FS_NAME = replicate 32 0, VOLUME_NAME = replicate 32 0\<rparr>"

text \<open>The table as it is after initialization and any number of calls, whatever Mac OS does in between.\<close>

inductive ext_reach :: "'h fsenv \<Rightarrow> extfs \<Rightarrow> bool" for F :: "'h fsenv" where
  start: "ExtFSInit (fs_posix F) prefs sysn voln junk fresh_extfs h = Some (v, h1) \<Longrightarrow> ext_reach F v"
| hfs: "ext_reach F v \<Longrightarrow> ExtFSHFS F vcb sel pb (v, s) = Some (res, v1, s1) \<Longrightarrow> ext_reach F v1"
| comm: "ext_reach F v \<Longrightarrow> ExtFSComm message pb (v, s :: 'h mac) = Some (res, v1, s1) \<Longrightarrow> ext_reach F v1"

lemma table_ok_init:
  assumes "ExtFSInit P prefs sysn voln junk fresh_extfs h = Some (v, h1)"
  shows "table_ok v"
proof -
  have "\<exists>a b. fs_items v = [a, b] \<and> fs_id a = 1 \<and> fs_parent a = None \<and> fs_id b = 2 \<and> fs_parent_id b = 1 \<and>
      fs_parent b = Some 0 \<and> next_cnid v = 16"
    using assms by (auto simp: ExtFSInit_def Let_def fresh_extfs_def split: if_splits option.splits prod.splits)
  then show ?thesis
    by (auto simp: table_ok_def ids_ok_def parents_ok_def item_key_def used_ids_def less_Suc_eq Let_def nth_Cons')
qed


text \<open>C17. A CNID that Mac OS has been given never becomes invalid: after any call, successful or not, an item with
  that CNID is still found, and no item has changed its name, its parent or its position.\<close>

theorem ExtFS_ids_stay:
  assumes v: "table_ok v" and run: "ExtFSHFS F vcb sel pb (v, s) = Some (res, v1, s1)"
    and id: "find_fsitem_by_id cnid (fs_items v) \<noteq> None" and room: "length (fs_items v1) + 14 \<le> 2 ^ 32"
  shows "find_fsitem_by_id cnid (fs_items v1) \<noteq> None \<and> extends v v1"
proof -
  have ok: "table_ok v1" using goodD(1) [OF tbl.good_ExtFSHFS [of 0 F vcb sel pb], of "(v, s)" res "(v1, s1)"] v run by simp
  have ext: "extends v v1"
    using goodD(1) [OF grow.good_ExtFSHFS [of v 0 F vcb sel pb], of "(v, s)" res "(v1, s1)"] v run by (simp add: table_ok_def)
  have len: "length (fs_items v) \<le> length (fs_items v1)"
    using ext unfolding extends_def by (metis length_append length_map le_add1)
  have ids: "set (map fs_id (fs_items w)) = set (used_ids (length (fs_items w)))"
    if "table_ok w" "length (fs_items w) + 14 \<le> 2 ^ 32" for w
    using that unfolding table_ok_def ids_ok_def Let_def by (metis mset_eq_setD)
  have "cnid \<in> set (map fs_id (fs_items v))"
    using id by (auto simp: find_fsitem_by_id_def find_index_None)
  then have "cnid \<in> set (used_ids (length (fs_items v)))" using ids [OF v] room len by simp
  then have "cnid \<in> set (used_ids (length (fs_items v1)))" using len by (auto simp: used_ids_def)
  then have "cnid \<in> set (map fs_id (fs_items v1))" using ids [OF ok room] by simp
  then show ?thesis using ext by (auto simp: find_fsitem_by_id_def find_index_None simp del: not_None_eq)
qed
section \<open>A small host\<close>

text \<open>A host with the directory "/m" that lists a hidden file and two files which cannot be examined, and a File
  System Manager whose routines all succeed; the only one that changes memory is the parser, which finds one
  component of one character.\<close>

definition demo_posix :: "unit posix" where
  "demo_posix =
     \<lparr>errno_of = \<lambda>h. ENOENT, p_open = \<lambda>p f c h. (-1, h), p_creat = \<lambda>p h. (-1, h), p_close = \<lambda>fd h. h,
      p_read = \<lambda>fd n h. (None, h), p_write = \<lambda>fd bs h. (-1, h), p_lseek = \<lambda>fd n w h. (-1, h), p_ftruncate = \<lambda>fd n h. (-1, h),
      p_stat = \<lambda>p h. (if p = ''/m'' then Some \<lparr>st_is_dir = True, st_size = 0, st_mtime = 5\<rparr> else None, h),
      p_fstat = \<lambda>fd h. (None, h), p_writable = \<lambda>p h. (False, h), p_exists = \<lambda>p h. (False, h), p_mkdir = \<lambda>p h. (-1, h),
      p_rmdir = \<lambda>p h. (-1, h), p_remove = \<lambda>p h. (-1, h), p_rename = \<lambda>p q h. (0, h),
      p_listdir = \<lambda>p h. (Some [''.finf'', ''a'', ''b''], h)\<rparr>"

definition demo_fsenv :: "unit fsenv" where
  "demo_fsenv =
     \<lparr>fs_env = \<lparr>run_trap = \<lambda>w r (m, h). (r, m, h), run_code = \<lambda>a r (m, h). (set_d 0 0 r, if a = fsParsePathname then m(303 := 1) else m, h),
                stack_junk = \<lparr>dreg = \<lambda>_. 0, areg = \<lambda>_. 0\<rparr>\<rparr>,
      fs_posix = demo_posix, heap_junk = 0\<rparr>"

definition demo_root :: extfs where
  "demo_root =
     \<lparr>fs_items = [\<lparr>fs_id = 1, fs_parent_id = 0, fs_parent = None, fs_name = '''', fs_mtime = 0, cache_dircount = 0\<rparr>,
                  \<lparr>fs_id = 2, fs_parent_id = 1, fs_parent = Some 0, fs_name = ''Unix'', fs_mtime = 0, cache_dircount = 0\<rparr>],
      next_cnid = 16, fs_data = 0, RootPath = Some ''/m'', root_mtime = 5, ready = True, drive_number = 0,
      FS_NAME = cstr2pstr ''fs'', VOLUME_NAME = cstr2pstr ''Unix''\<rparr>"

definition demo_full :: extfs where
  "demo_full = demo_root\<lparr>fs_items := fs_items demo_root @
     [\<lparr>fs_id = 16, fs_parent_id = 2, fs_parent = Some 1, fs_name = ''a'', fs_mtime = 0, cache_dircount = 0\<rparr>], next_cnid := 17\<rparr>"

text \<open>A parameter block at 0x1000 that asks for the first file of the root directory.\<close>

definition demo_query :: "unit mac" where
  "demo_query = \<lparr>mem = (\<lambda>_. 0)(307 := 2, 0x101d := 1), host = (), calls = []\<rparr>"

lemma demo_init:
  "ExtFSInit demo_posix [\<lparr>pname = ''extfs'', pdata = StringData ''/m''\<rparr>] ''fs'' ''Unix'' (0, 0) fresh_extfs () =
     Some (demo_root, ())"
  by (simp add: ExtFSInit_def demo_root_def fresh_extfs_def demo_posix_def PrefsFindString_def find_node_def
      node_matches_def)

lemma demo_fields [simp]: "fs_posix demo_fsenv = demo_posix" "heap_junk demo_fsenv = 0"
  by (simp_all add: demo_fsenv_def)

lemmas fsop_run = call_def look_def upd_mac_def upd_fs_def on_host_def on_host_opt_def on_mac_def on_mac_opt_def
  the_or_crash_def routine_def Execute68k_def

lemma demo_path: "path_for_fsitem demo_root 1 = Some ''/m''"
  by (subst path_for_fsitem.simps) (simp add: demo_root_def)

lemma demo_join: "join16 0 2 = 2" "join16 0 1 = 1" "join32 0 0 0 0 = 0"
  by (simp_all add: join16_def join32_def)

lemma demo_dir: "\<exists>s1. get_current_dir demo_fsenv 0x1000 0 True (demo_root, demo_query) = Some (Inr 2, demo_root, s1)"
  by (simp add: get_current_dir_def fsop_run demo_fsenv_def demo_query_def demo_root_def mac_get_defs mac_put_defs
      mac_access low16_def start_regs_def demo_join)

lemma demo_call:
  "\<exists>s1. ExtFSHFS demo_fsenv 0 0xA20C 0x1000 (demo_root, demo_query) = Some (Inl fnfErr, demo_full, s1)"
proof -
  obtain s1 where 1: "get_current_dir demo_fsenv 0x1000 0 True (demo_root, demo_query) = Some (Inr 2, demo_root, s1)"
    using demo_dir by blast
  have 2: "find_fsitem_by_id 2 (fs_items demo_root) = Some 1" by (simp add: demo_root_def find_fsitem_by_id_def)
  have 3: "find_fsitem 0 ''a'' 1 demo_root = Some (2, demo_full)"
    by (simp add: find_fsitem_def find_named_def stccpy_def demo_root_def demo_full_def)
  have "indexed_item demo_fsenv 0x1000 0 1 (demo_root, demo_query) = Some (Inr (2, ''/m/a''), demo_full, s1)"
    by (simp add: indexed_item_def call_def 1 look_def 2 item_path_def demo_path [unfolded One_nat_def] the_or_crash_def on_host_def
        demo_posix_def visible_def add_path_component_def fits_def enter_item_def 3 [unfolded One_nat_def] upd_fs_def Let_def)
  moreover have "get32 demo_query (0x1000 + ioDirID) = 0" "get16 demo_query (0x1000 + ioFDirIndex) = 1"
    by (simp_all add: demo_query_def mac_get_defs mac_access demo_join)
  ultimately show ?thesis
    by (simp add: ExtFSHFS_def hfs_dir_def fs_get_file_info_def select_file_def call_def look_def
        stat_path_def on_host_def demo_posix_def)
qed


theorem ExtFS_ids_stay_witness: "find_fsitem_by_id 2 (fs_items demo_full) \<noteq> None \<and> extends demo_root demo_full"
proof -
  obtain s1 where c: "ExtFSHFS demo_fsenv 0 0xA20C 0x1000 (demo_root, demo_query) = Some (Inl fnfErr, demo_full, s1)"
    using demo_call by blast
  have "table_ok demo_root" using demo_init by (rule table_ok_init)
  moreover have "find_fsitem_by_id 2 (fs_items demo_root) \<noteq> None" by (simp add: demo_root_def find_fsitem_by_id_def)
  moreover have "length (fs_items demo_full) + 14 \<le> 2 ^ 32" by (simp add: demo_full_def demo_root_def)
  ultimately show ?thesis using c by (intro ExtFS_ids_stay)
qed

end
