(* ===== verification/ExtFSInstall.thy ===== *)
theory ExtFSInstall
  imports ExtFSFiles CodeStubs
begin

text \<open>
  "extfs.cpp", InstallExtFS(): the block of global data with the 68k routines through which the file
  system calls the File System Manager, the drive, and the registration of the file system. \<open>None\<close>
  stands for the emulator quitting, or for a drive queue that has no end.
\<close>

abbreviation (input) STACK_SIZE :: u32 where "STACK_SIZE \<equiv> 0x10000"
abbreviation (input) SIZEOF_fsdat :: u32 where "SIZEOF_fsdat \<equiv> 802"
abbreviation (input) fsHFSProcStub :: u32 where "fsHFSProcStub \<equiv> 6"
abbreviation (input) fsFSD :: u32 where "fsFSD \<equiv> 42"
abbreviation (input) fsVMI :: u32 where "fsVMI \<equiv> 288"
abbreviation (input) fsdHFSCI :: u32 where "fsdHFSCI \<equiv> 132"

section \<open>The routines\<close>

text \<open>Each routine pushes its registers as parameters, selects a utility of the File System Manager and takes
  the result; it is written with the offset at which it has to end.\<close>

definition fs_routines :: "(code_item list \<times> u32) list" where
  "fs_routines =
     [([I16 0x4267, I16 0x2f08, I16 0x2f09, I16 0x4267, I16 0x7006, I16 0xa824, I16 0x301f, I16 0x4e75], fsAddNewVCB),
      ([I16 0x4267, I16 0x3f00, I16 0x2f08, I16 0x2f09, I16 0x7007, I16 0xa824, I16 0x301f, I16 0x4e75], fsDetermineVol),
      ([I16 0x4267, I16 0x2f08, I16 0x2f09, I16 0x2f0a, I16 0x2f0b, I16 0x2f0c, I16 0x701d, I16 0xa824, I16 0x301f, I16 0x4e75], fsResolveWDCB),
      ([I16 0x4267, I16 0x2f00, I16 0x3f01, I16 0x3f02, I16 0x2f08, I16 0x700e, I16 0xa824, I16 0x301f, I16 0x4e75], fsGetDefaultVol),
      ([I16 0x4267, I16 0x2f08, I16 0x7012, I16 0xa824, I16 0x301f, I16 0x4e75], fsGetPathComponentName),
      ([I16 0x4267, I16 0x2f08, I16 0x701c, I16 0xa824, I16 0x301f, I16 0x4e75], fsParsePathname),
      ([I16 0x4267, I16 0x2f08, I16 0x2f09, I16 0x701b, I16 0xa824, I16 0x301f, I16 0x4e75], fsDisposeVCB),
      ([I16 0x4267, I16 0x2f08, I16 0x7008, I16 0xa824, I16 0x301f, I16 0x4e75], fsCheckWDRefNum),
      ([I16 0x4267, I16 0x3f00, I16 0x7013, I16 0xa824, I16 0x301f, I16 0x4e75], fsSetDefaultVol),
      ([I16 0x4267, I16 0x2f00, I16 0x2f01, I16 0x3f02, I16 0x7011, I16 0xa824, I16 0x301f, I16 0x4e75], fsAllocateFCB),
      ([I16 0x4267, I16 0x2f08, I16 0x2f09, I16 0x7000, I16 0xa824, I16 0x301f, I16 0x4e75], fsReleaseFCB),
      ([I16 0x4267, I16 0x3f00, I16 0x7001, I16 0xa824, I16 0x301f, I16 0x4e75], fsIndexFCB),
      ([I16 0x4267, I16 0x2f08, I16 0x2f09, I16 0x2f0a, I16 0x7004, I16 0xa824, I16 0x301f, I16 0x4e75], fsResolveFCB),
      ([I16 0x4267, I16 0x3f00, I16 0x2f08, I16 0x7005, I16 0xa824, I16 0x301f, I16 0x4e75], fsAdjustEOF),
      ([I16 0x4267, I16 0x3f00, I16 0x7010, I16 0xa824, I16 0x301f, I16 0x4e75], fsAllocateWDCB),
      ([I16 0x4267, I16 0x2f08, I16 0x700c, I16 0xa824, I16 0x301f, I16 0x4e75], fsReleaseWDCB),
      ([I16 0x4267, I16 0x3f00, I16 0x700d, I16 0xa824, I16 0x301f, I16 0x4e75], 802)]"

definition comm_stub :: "code_item list" where
  "comm_stub = [I16 0x712e, I16 0x4e74, I16 10]"

definition hfs_stub :: "code_item list" where
  "hfs_stub = [I16 0x712f, I16 0x4e74, I16 16]"

definition put_fs_code :: "u32 \<Rightarrow> 'h mac \<Rightarrow> bool \<times> 'h mac" where
  "put_fs_code d s =
     (let (p, s1) = put_code d comm_stub s in
      if p - d \<noteq> fsHFSProcStub then (False, s1)
      else
        let (p, s2) = put_code p hfs_stub s1
        in put_routines d (d + fsAllocateVCB) fs_routines s2)"

section \<open>The drive and the file system descriptor\<close>

definition put_drive_status :: "u32 \<Rightarrow> 'h mac \<Rightarrow> 'h mac" where
  "put_drive_status ds s =
     put16 (ds + 16) MY_FSID (put16 (ds + 20) 0 (put16 (ds + 18) 0xffff (put16 (ds + 10) 1
       (put8 (ds + 4) 1 (put8 (ds + 3) 8 s)))))"

definition put_fsd :: "extfs \<Rightarrow> u32 \<Rightarrow> 'h mac \<Rightarrow> 'h mac" where
  "put_fsd v fs_stack s =
     (let d = fs_data v; fsd = d + fsFSD;
          s1 = put_bytes (fsd + 10) (padded 32 (FS_NAME v))
                 (put16 (fsd + 8) MY_FSID (put16 (fsd + 6) 1 (put16 (fsd + 4) 196 s)))
      in put32 (fsd + fsdHFSCI + 28) (-1) (put32 (fsd + fsdHFSCI + 16) STACK_SIZE
           (put32 (fsd + fsdHFSCI + 12) (fs_stack + STACK_SIZE)
             (put32 (fsd + fsdHFSCI + 4) (d + fsHFSProcStub) (put32 (fsd + 116) d s1)))))"

section \<open>Installation\<close>

text \<open>A return from the middle of the function.\<close>

definition leave :: "('h, 'a) fsop" where
  "leave = os_err 0"

definition trap :: "'h fsenv \<Rightarrow> u16 \<Rightarrow> m68k_regs \<Rightarrow> ('h, m68k_regs) fsop" where
  "trap F w r = on_mac (Execute68kTrap (fs_env F) w r)"

definition check_fsm :: "'h fsenv \<Rightarrow> ('h, m68k_regs) fsop" where
  "check_fsm F =
     call (trap F 0xa1ad (set_d 0 0x66732020 (start_regs F))) (\<lambda>r.
     if low16 r \<noteq> 0 \<or> areg r 0 AND 4 = 0 then leave
     else
       call (trap F 0xa1ad (set_d 0 0x66736D20 r)) (\<lambda>r.
       if low16 r \<noteq> 0 \<or> areg r 0 < 0x0120 then leave else ret r))"

definition new_ptr :: "'h fsenv \<Rightarrow> u32 \<Rightarrow> m68k_regs \<Rightarrow> ('h, m68k_regs) fsop" where
  "new_ptr F n r = call (trap F 0xa71e (set_d 0 n r)) (\<lambda>r. if areg r 0 = 0 then leave else ret r)"

definition add_drive :: "'h fsenv \<Rightarrow> m68k_regs \<Rightarrow> ('h, m68k_regs) fsop" where
  "add_drive F r =
     call (look (\<lambda>v s. (fs_data v + fsDrvStatus, FindFreeDriveNumber (put_drive_status (fs_data v + fsDrvStatus) s) 1)))
       (\<lambda>(ds, free).
     call (upd_mac (put_drive_status ds)) (\<lambda>_.
     call (the_or_crash free) (\<lambda>n.
     call (upd_fs (\<lambda>v. v\<lparr>drive_number := n\<rparr>)) (\<lambda>_.
     trap F 0xa04e (set_a 0 (ds + 6) (set_d 0 (push_bit 16 (word_of_int n) OR 0xffc1) r))))))"

definition install_fs :: "'h fsenv \<Rightarrow> u32 \<Rightarrow> m68k_regs \<Rightarrow> ('h, m68k_regs) fsop" where
  "install_fs F fs_stack r =
     call (look (\<lambda>v s. v)) (\<lambda>v.
     let fsd = fs_data v + fsFSD in
     call (upd_mac (put_fsd v fs_stack)) (\<lambda>_.
     call (trap F 0xa0ac (set_d 0 0 (set_a 0 fsd r))) (\<lambda>r.
     call (upd_mac (\<lambda>s. put32 (fsd + fsdHFSCI) (get32 s (fsd + fsdHFSCI) OR 0x80880000) s)) (\<lambda>_.
     trap F 0xa0ac (set_d 0 5 (set_d 4 (ucast MY_FSID) (set_d 3 196 (set_a 0 fsd r))))))))"

definition mount_volume :: "'h fsenv \<Rightarrow> m68k_regs \<Rightarrow> ('h, m68k_regs) fsop" where
  "mount_volume F r =
     call (look (\<lambda>v s. fs_data v)) (\<lambda>d.
     call (upd_mac (\<lambda>s. put32 (d + fsVMI + vmiMedia) MY_MEDIA_TYPE (put16 (d + fsVMI) 8
       (put32 (d + fsPB + ioBuffer) (d + fsVMI) s)))) (\<lambda>_.
     trap F 0xa260 (set_d 0 0x41 (set_a 0 (d + fsPB) r))))"

definition InstallExtFS :: "'h fsenv \<Rightarrow> ('h, unit) fsop" where
  "InstallExtFS F =
     call (look (\<lambda>v s. ready v)) (\<lambda>ok.
     if \<not> ok then leave
     else
       call (check_fsm F) (\<lambda>r.
       call (new_ptr F STACK_SIZE r) (\<lambda>r1.
       call (new_ptr F SIZEOF_fsdat r1) (\<lambda>r2.
       let d = areg r2 0 in
       call (upd_fs (\<lambda>v. v\<lparr>fs_data := d\<rparr>)) (\<lambda>_.
       call (on_mac (put_fs_code d)) (\<lambda>ok.
       if \<not> ok then crash
       else
         call (add_drive F r2) (\<lambda>r3.
         call (install_fs F (areg r1 0) r3) (\<lambda>r4.
         call (mount_volume F r4) (\<lambda>_. ret ())))))))))"

end
