(* ===== verification/ExtFSCalls.thy ===== *)
theory ExtFSCalls
  imports ExtFSTable ExtFSInstall "HOL-Library.Sublist"
begin

text \<open>
  What the calls of the external file system do, seen from Mac OS: the host path of an item, names
  in both directions, renaming, reading and writing an open file, mounting, and the routines that the
  installation puts where the other calls run them.
\<close>

section \<open>Paths\<close>

text \<open>The names from the root directory down to an item.\<close>

function dir_names :: "FSItem list \<Rightarrow> nat \<Rightarrow> string list option" where
  "dir_names items i =
     (let p = items ! i in
      if fs_id p = ROOT_PARENT_ID then None
      else if fs_id p = ROOT_ID then Some []
      else
        case fs_parent p of
          None \<Rightarrow> None
        | Some j \<Rightarrow> (if j < i then map_option (\<lambda>ns. ns @ [fs_name p]) (dir_names items j) else None))"
  by pat_completeness auto
termination by (relation "measure snd") auto

declare dir_names.simps [simp del]

definition add_name :: "string \<Rightarrow> string \<Rightarrow> string" where
  "add_name path name = (if last path = CHR ''/'' then path else path @ ''/'') @ name"

definition host_path :: "string \<Rightarrow> string list \<Rightarrow> string" where
  "host_path root names = foldl add_name root names"

lemma host_path_snoc [simp]: "host_path root (ns @ [n]) = add_name (host_path root ns) n"
  by (simp add: host_path_def)

lemma add_name_length: "length path \<le> length (add_name path name)"
  by (simp add: add_name_def)

lemma host_path_length: "length root \<le> length (host_path root ns)"
  by (induction ns rule: rev_induct) (auto simp: host_path_def intro: order.trans [OF _ add_name_length])

lemma add_path_component_fits:
  "path \<noteq> [] \<Longrightarrow> length (add_name path name) < MAX_PATH_LENGTH \<Longrightarrow> add_path_component path name = Some (add_name path name)"
  by (cases "last path = CHR ''/''") (auto simp: add_path_component_def add_name_def fits_def)



section \<open>Names\<close>

lemma byte_char: "(of_char (char_of (unat b)) :: u8) = b"
proof -
  have "unat b < 2 ^ LENGTH(8)" by (rule unsigned_less)
  then have "(of_char (char_of (unat b)) :: nat) = unat b" by simp
  then show ?thesis using of_nat_of_char [where ?'a = u8, of "char_of (unat b)"] by simp
qed

lemma char_byte: "char_of (unat (of_char c :: u8)) = c"
proof -
  have "unat (of_char c :: u8) = (of_char c :: nat)"
  proof -
    have "(of_char c :: u8) = word_of_nat (of_char c)" by (rule of_nat_of_char [symmetric])
    moreover have "unat (word_of_nat n :: u8) = n" if "n < 256" for n
      using that by (simp add: unat_of_nat)
    ultimately show ?thesis using nat_of_char_less_256 [of c] by metis
  qed
  then show ?thesis by simp
qed

lemma byte_char_eq: "char_of (unat (b :: u8)) = c \<longleftrightarrow> b = of_char c"
  using byte_char char_byte by metis

text \<open>The name of a file goes from Mac OS to the host and back unchanged: for every name of the Mac with at most 255
  characters and without a colon (the Mac's path separator) or a zero, the host name made of it gives the same
  Pascal string again; and for every host name without a slash or a zero, the Mac name made of it gives
  the same host name again.\<close>

theorem names_round_trip:
  assumes "length bs < 256" and "0 \<notin> set bs" and "58 \<notin> set bs"
    and "CHR ''/'' \<notin> set name" and "char_of (0 :: nat) \<notin> set name"
  shows "cstr2pstr (strn2cstr bs) = word_of_nat (length bs) # bs \<and> strn2cstr (tl (cstr2pstr name)) = name"
proof -
  have 1: "(of_char (to_mac_char (to_host_char (char_of (unat b)))) :: u8) = b" if "b \<in> set bs" for b
  proof -
    have "char_of (unat b) \<noteq> CHR '':''" using that assms(3) by (auto simp: byte_char_eq)
    then show ?thesis using byte_char [of b] by (auto simp: to_mac_char_def to_host_char_def)
  qed
  have 2: "to_host_char (char_of (unat b)) \<noteq> char_of (0 :: nat)" if "b \<in> set bs" for b
  proof -
    have "of_char (char_of (0 :: nat)) = (0 :: u8)" using byte_char [of 0] by simp
    then have "b \<noteq> of_char (char_of (0 :: nat))" using that assms(2) by auto
    then have "char_of (unat b) \<noteq> char_of (0 :: nat)" unfolding byte_char_eq .
    then show ?thesis by (simp add: to_host_char_def char_of_def)
  qed
  have mac: "strn2cstr bs = map (\<lambda>b. to_host_char (char_of (unat b))) bs"
    using 2 by (auto simp: strn2cstr_def takeWhile_eq_all_conv)
  have 3: "to_host_char (char_of (unat (of_char (to_mac_char c) :: u8))) = c" if "c \<in> set name" for c
    using that assms(4) by (auto simp: char_byte to_host_char_def to_mac_char_def)
  have "map (\<lambda>c. to_host_char (char_of (unat (of_char (to_mac_char c) :: u8)))) name = name"
    using 3 by (rule map_idI)
  moreover have "takeWhile (\<lambda>c. c \<noteq> char_of (0 :: nat)) name = name"
    unfolding takeWhile_eq_all_conv using assms(5) by blast
  ultimately have "strn2cstr (tl (cstr2pstr name)) = name"
    unfolding strn2cstr_def cstr2pstr_def list.sel map_map comp_def by simp
  then show ?thesis
    using 1 by (auto simp: cstr2pstr_def mac map_idI)
qed
section \<open>Renaming\<close>

lemma callE:
  assumes "call m f st = Some (Inr y, st2)"
  obtains x st1 where "m st = Some (Inr x, st1)" and "f x st1 = Some (Inr y, st2)"
  using assms by (auto simp: call_def split: option.splits sum.splits)

text \<open>Looking up an item only appends to the table, so that paths already known stay.\<close>

definition appended :: "extfs \<Rightarrow> extfs \<Rightarrow> bool" where
  "appended v0 v \<longleftrightarrow> prefix (fs_items v0) (fs_items v) \<and> RootPath v = RootPath v0"

interpretation known: fs_lookup "\<lambda>v. parents_ok (fs_items v) \<and> appended v0 v" for v0
proof (unfold_locales, goal_cases)
  case (1 v) then show ?case by simp
next
  case (2 v p junk name i v1)
  then show ?case
    using parents_ok_new [of "fs_items v" p "new_item junk name p v"]
    by (auto elim!: find_fsitem_cases simp: new_item_def appended_def)
qed

lemma path_appended:
  assumes "appended v0 v" and "parents_ok (fs_items v0)" and "i < length (fs_items v0)"
  shows "path_for_fsitem v i = path_for_fsitem v0 i"
  using assms(3)
proof (induction i rule: less_induct)
  case (less i)
  have same: "fs_items v ! i = fs_items v0 ! i" "RootPath v = RootPath v0"
    using assms(1) less.prems by (auto simp: appended_def prefix_def nth_append)
  have IH: "path_for_fsitem v j = path_for_fsitem v0 j" if "fs_parent (fs_items v0 ! i) = Some j" for j
    using assms(2) that less by (auto simp: parents_ok_def)
  show ?case
    by (subst (1 2) path_for_fsitem.simps) (auto simp: Let_def same IH split: option.splits)
qed

text \<open>The ID of an item matters for its path only when it is that of the root or of the root's parent.\<close>

definition plain_id :: "u32 \<Rightarrow> bool" where
  "plain_id cnid \<longleftrightarrow> cnid \<noteq> ROOT_PARENT_ID \<and> cnid \<noteq> ROOT_ID"

lemma path_swap_ids:
  assumes "parents_ok (fs_items v)" and "i < length (fs_items v)" and "j < length (fs_items v)"
    and "plain_id (fs_id (fs_items v ! i))" and "plain_id (fs_id (fs_items v ! j))" and "k < length (fs_items v)"
  shows "path_for_fsitem (swap_ids i j v) k = path_for_fsitem v k"
  using assms(6)
proof (induction k rule: less_induct)
  case (less k)
  have ids: "(swapped_id i j v k = 1) = (fs_id (fs_items v ! k) = 1)" "(swapped_id i j v k = 2) = (fs_id (fs_items v ! k) = 2)"
    using assms(4,5) by (auto simp: swapped_id_def plain_id_def)
  have root: "RootPath (swap_ids i j v) = RootPath v" by (simp add: swap_ids_def Let_def)
  have IH: "path_for_fsitem (swap_ids i j v) q = path_for_fsitem v q" if "fs_parent (fs_items v ! k) = Some q" for q
    using assms(1) that less by (auto simp: parents_ok_def)
  show ?case
    using less.prems
    by (subst (1 2) path_for_fsitem.simps) (auto simp: Let_def nth_swap_ids ids root IH split: option.splits)
qed

text \<open>What holds of the result of an operation that succeeds.\<close>

definition ends :: "('h, 'a) fsop \<Rightarrow> ('a \<Rightarrow> extfs \<Rightarrow> bool) \<Rightarrow> bool" where
  "ends m P \<longleftrightarrow> (\<forall>st y st1. m st = Some (Inr y, st1) \<longrightarrow> P y (fst st1))"

lemma endsD: "ends m P \<Longrightarrow> m st = Some (Inr y, st1) \<Longrightarrow> P y (fst st1)"
  unfolding ends_def by blast

lemma ends_call: "(\<And>x. ends (f x) P) \<Longrightarrow> ends (call m f) P"
  unfolding ends_def by (blast elim: callE)

lemma ends_intros:
  "ends (os_err e) P"
  "ends a P \<Longrightarrow> (\<And>x. ends (g x) P) \<Longrightarrow> ends (case oo of None \<Rightarrow> a | Some x \<Rightarrow> g x) P"
  "(\<And>x y. ends (k x y) P) \<Longrightarrow> ends (case p of (x, y) \<Rightarrow> k x y) P"
  by (auto simp: ends_def split: option.splits prod.splits)
lemma ends_path: "ends (call (item_path item) (\<lambda>path. ret (item, path))) (\<lambda>(i, path) v. path_for_fsitem v i = Some path)"
  by (auto simp: ends_def item_path_def the_or_crash_def look_def elim!: callE split: option.splits)

lemma get_item_path:
  assumes "get_item_and_path F pb dirID st = Some (Inr (i, path), st1)"
  shows "path_for_fsitem (fst st1) i = Some path"
proof -
  have "ends (get_item_and_path F pb dirID) (\<lambda>(i, path) v. path_for_fsitem v i = Some path)"
    unfolding get_item_and_path_def by (intro ends_path ends_intros ends_call)
  from endsD [OF this assms] show ?thesis by simp
qed

lemma get_item_table:
  assumes run: "get_item_and_path F pb dirID st = Some (Inr (i, path), st1)" and v: "table_ok (fst st)"
  shows "table_ok (fst st1) \<and> i < length (fs_items (fst st1)) \<and> appended (fst st) (fst st1)"
  using goodD [OF tbl.good_get_item [of 0 F pb dirID] _ _ run] goodD(1) [OF known.good_get_item [of "fst st" 0 F pb dirID] _ _ run] v
  by (auto simp: appended_def table_ok_def)

lemma rename_path_ok:
  assumes "rename_path F old new st = Some (Inr u, st1)"
  shows "fst st1 = fst st \<and> (\<exists>h h'. extfs_rename (fs_posix F) old new h = Some (True, h'))"
proof -
  obtain h where "h = snd (p_exists (fs_posix F) new (host (snd st)))" by blast
  then have "\<exists>h'. extfs_rename (fs_posix F) old new h = Some (True, h')"
    using assms
    by (auto simp: rename_path_def path_exists_def call_def on_host_def on_host_opt_def errno_err_def look_def
        split: prod.splits option.splits if_splits)
  then show ?thesis using neutralD [OF neutral_io(6) assms] by blast
qed
lemma find_by_id_nth:
  assumes "table_ok v" and "length (fs_items v) + 14 \<le> 2 ^ 32" and "i < length (fs_items v)"
  shows "find_fsitem_by_id (fs_id (fs_items v ! i)) (fs_items v) = Some i"
proof -
  have "fs_id (fs_items v ! k) \<noteq> fs_id (fs_items v ! i)" if "k < i" for k
    using ids_inj [of v k i] assms that by (simp add: table_ok_def)
  then show ?thesis unfolding find_fsitem_by_id_def using assms(3) by (intro find_index_SomeI) simp_all
qed

definition looked_up :: "u32 \<Rightarrow> mem \<Rightarrow> mem" where
  "looked_up nm m = (WriteMacInt8 305 0 (WriteMacInt8 304 0 (WriteMacInt16 302 0 (WriteMacInt16 300 0 (WriteMacInt32 296 nm m)))))(303 := 1)"

lemma demo_lookup:
  assumes "fs_data v = 0" and "find_fsitem_by_id 2 (fs_items v) = Some 1" and "m 306 = 0" and "m 307 = 2"
    and "ReadMacInt32 m (pb + 18) = nm" and "looked_up nm m (nm + 1) = b" and "b \<noteq> 0"
    and "find_fsitem 0 [to_host_char (char_of (unat b))] 1 v = Some (i, v1)" and "path_for_fsitem v1 i = Some path" and "fs_data v1 = 0"
  shows "\<exists>c1. get_item_and_path demo_fsenv pb 2 (v, \<lparr>mem = m, host = (), calls = c\<rparr>) =
     Some (Inr (i, path), v1, \<lparr>mem = looked_up nm m, host = (), calls = c1\<rparr>)"
proof -
  have dir: "\<exists>c1. get_current_dir demo_fsenv pb 2 False (v, \<lparr>mem = m, host = (), calls = c\<rparr>) =
      Some (Inr 2, v, \<lparr>mem = m, host = (), calls = c1\<rparr>)" for c
    using assms(1,3,4)
    by (simp add: get_current_dir_def fsop_run demo_fsenv_def mac_get_defs mac_put_defs ReadMacInt16_def low16_def start_regs_def demo_join)
  let ?m0 = "WriteMacInt8 305 0 (WriteMacInt8 304 0 (WriteMacInt16 302 0 (WriteMacInt16 300 0 (WriteMacInt32 296 nm m))))"
  let ?m1 = "looked_up nm m"
  let ?s = "\<lambda>c. \<lparr>mem = ?m1, host = (), calls = c\<rparr> :: unit mac"
  have start: "start_parsing 296 pb (v, \<lparr>mem = m, host = (), calls = c\<rparr>) = Some (Inr (), v, \<lparr>mem = ?m0, host = (), calls = c\<rparr>)" for c
    using assms(5) by (simp add: start_parsing_def upd_mac_def mac_put_defs get32_def)
  have parse: "\<exists>c1. routine (fs_env demo_fsenv) fsParsePathname r (v, \<lparr>mem = ?m0, host = (), calls = c\<rparr>) =
      Some (Inr (set_d 0 0 r), v, ?s c1)" for r c
    using assms(1) by (simp add: routine_def Execute68k_def demo_fsenv_def looked_up_def)
  have comp: "\<exists>c1. get_path_component_name demo_fsenv 296 (v, ?s c) = Some (Inr 0, v, ?s c1)" for c
    using assms(1) by (simp add: get_path_component_name_def fsop_run demo_fsenv_def low16_def)
  have reads: "ReadMacInt16 ?m1 302 = 1" "ReadMacInt8 ?m1 304 = 0" "ReadMacInt32 ?m1 296 = nm" "ReadMacInt16 ?m1 300 = 0"
    by (simp_all add: looked_up_def ReadMacInt16_def ReadMacInt8_def ReadMacInt32_def WriteMacInt8_def WriteMacInt16_def
        WriteMacInt32_def demo_join join16_def hi8_def lo8_def)
  let ?ch = "to_host_char (char_of (unat b))"
  have "of_char (char_of (0 :: nat)) = (0 :: u8)" using byte_char [of 0] by simp
  then have "char_of (unat b) \<noteq> char_of (0 :: nat)" unfolding byte_char_eq using assms(7) by simp
  then have nz: "?ch \<noteq> char_of (0 :: nat)" by (simp add: to_host_char_def char_of_def)
  have name: "component 296 (v, ?s c) = Some (Inr [?ch], v, ?s c)" for c
    using assms(6) nz
    by (simp add: component_def call_def look_def mac_get_defs reads get_bytes_def mem_read_def strn2cstr_def
        the_or_crash_def)
  have path: "\<exists>c1. parse_path demo_fsenv 296 1 2 (v, ?s c) = Some (Inr i, v1, ?s c1)" for c
    using assms(8) comp [of c] name
    by (auto simp: parse_path_def call_def look_def mac_get_defs reads parse_loop.simps enter_item_def
        the_or_crash_def upd_fs_def)
  obtain c1 where 1: "get_current_dir demo_fsenv pb 2 False (v, \<lparr>mem = m, host = (), calls = c\<rparr>) =
      Some (Inr 2, v, \<lparr>mem = m, host = (), calls = c1\<rparr>)" using dir by blast
  obtain c2 where 2: "routine (fs_env demo_fsenv) fsParsePathname (set_a 1 nm (set_a 0 300 (start_regs demo_fsenv)))
      (v, \<lparr>mem = ?m0, host = (), calls = c1\<rparr>) = Some (Inr (set_d 0 0 (set_a 1 nm (set_a 0 300 (start_regs demo_fsenv)))), v, ?s c2)"
    using parse by blast
  obtain c3 where 3: "parse_path demo_fsenv 296 1 2 (v, ?s c2) = Some (Inr i, v1, ?s c3)" using path by blast
  have nm: "ReadMacInt32 ?m0 296 = nm"
    by (simp add: ReadMacInt16_def ReadMacInt8_def ReadMacInt32_def WriteMacInt8_def WriteMacInt16_def WriteMacInt32_def)
  have "get_item_and_path demo_fsenv pb 2 (v, \<lparr>mem = m, host = (), calls = c\<rparr>) = Some (Inr (i, path), v1, ?s c3)"
    using assms(1,2,9) start 2 3
    by (simp add: get_item_and_path_def call_def 1 look_def mac_get_defs nm low16_def item_path_def the_or_crash_def)
  then show ?thesis by blast
qed

text \<open>The directory of the small host with the file "a", and a parameter block that renames it to "c".\<close>

definition demo_rename :: "unit mac" where
  "demo_rename = \<lparr>mem = (\<lambda>_. 0)(307 := 2, 0x1014 := 0x20, 0x101e := 0x20, 0x101f := 0x10, 0x2001 := 97, 0x2011 := 99),
                  host = (), calls = []\<rparr>"

definition demo_both :: extfs where
  "demo_both = demo_full\<lparr>fs_items := fs_items demo_full @
     [\<lparr>fs_id = 17, fs_parent_id = 2, fs_parent = Some 1, fs_name = ''c'', fs_mtime = 0, cache_dircount = 0\<rparr>], next_cnid := 18\<rparr>"

lemma demo_names: "to_host_char (char_of (97 :: nat)) = CHR ''a''" "to_host_char (char_of (99 :: nat)) = CHR ''c''"
  by code_simp+

lemma demo_paths: "path_for_fsitem demo_full 2 = Some ''/m/a''" "path_for_fsitem demo_both 3 = Some ''/m/c''"
proof -
  have root: "path_for_fsitem demo_full 1 = Some ''/m''" "path_for_fsitem demo_both 1 = Some ''/m''"
    by (subst path_for_fsitem.simps; simp add: demo_both_def demo_full_def demo_root_def Let_def)+
  show "path_for_fsitem demo_full 2 = Some ''/m/a''"
    using root(1) by (subst path_for_fsitem.simps) (simp add: demo_full_def demo_root_def Let_def add_path_component_def fits_def)
  show "path_for_fsitem demo_both 3 = Some ''/m/c''"
    using root(2) by (subst path_for_fsitem.simps) (simp add: demo_both_def demo_full_def demo_root_def Let_def add_path_component_def fits_def)
qed

lemma demo_renamed: "\<exists>s1. fs_rename demo_fsenv 0x1000 2 (demo_full, demo_rename) = Some (Inr noErr, swap_ids 2 3 demo_both, s1)"
proof -
  let ?m = "mem demo_rename"
  have m0: "?m 0x2011 = 99" by (simp add: demo_rename_def)
  have m: "?m 306 = 0" "?m 307 = 2" "ReadMacInt32 ?m (0x1000 + 18) = 0x2000" "looked_up 0x2000 ?m (0x2000 + 1) = 97"
    by (simp_all add: demo_rename_def ReadMacInt32_def looked_up_def WriteMacInt8_def WriteMacInt16_def WriteMacInt32_def join32_def)
  have found: "find_fsitem 0 ''a'' 1 demo_full = Some (2, demo_full)" "find_fsitem 0 ''c'' 1 demo_full = Some (3, demo_both)"
    "find_fsitem_by_id 2 (fs_items demo_full) = Some 1" "fs_data demo_full = 0" "fs_data demo_both = 0"
    by (simp_all add: find_fsitem_def find_named_def find_fsitem_by_id_def stccpy_def demo_both_def demo_full_def demo_root_def)
  obtain c1 where 1: "get_item_and_path demo_fsenv 0x1000 2 (demo_full, demo_rename) =
      Some (Inr (2, ''/m/a''), demo_full, \<lparr>mem = looked_up 0x2000 ?m, host = (), calls = c1\<rparr>)"
    using demo_lookup [OF found(4,3) m(1,2,3,4) _ _ demo_paths(1) found(4), of "[]"] found(1) demo_names
    by (auto simp: demo_rename_def)
  let ?m1 = "looked_up 0x2000 ?m"
  define mc where "mc = Host2Mac_memcpy 238 (mem_read ?m1 0x1000 50) ?m1"
  let ?m2 = "WriteMacInt32 256 (ReadMacInt32 mc 0x101c) mc"
  have 2: "second_pb 0x1000 28 (demo_full, \<lparr>mem = ?m1, host = (), calls = c1\<rparr> :: unit mac) =
      Some (Inr 238, demo_full, \<lparr>mem = ?m2, host = (), calls = c1\<rparr>)"
    by (simp add: second_pb_def call_def look_def upd_mac_def found mac_get_defs put_bytes_def put32_def get_bytes_def mc_def)
  have m1: "?m1 x = ?m x" if "unat (x - 296) \<ge> 10" for x
    using that by (auto simp: looked_up_def WriteMacInt8_def WriteMacInt16_def WriteMacInt32_def)
  have copied: "mc x = ?m x" if "unat (x - 296) \<ge> 10" "unat (x - 238) \<ge> 50" for x
    using that m1 by (simp add: memcpy_byte mc_def)
  have ptr: "ReadMacInt32 mc 0x101c = 0x2010"
    by (simp add: ReadMacInt32_def copied) (simp add: demo_rename_def join32_def)
  have m2: "?m2 306 = 0" "?m2 307 = 2" "ReadMacInt32 ?m2 (238 + 18) = 0x2010" "looked_up 0x2010 ?m2 (0x2010 + 1) = 99"
    using m m0 unfolding ptr
    by (simp_all add: looked_up_def WriteMacInt8_def WriteMacInt16_def copied) (simp_all add: WriteMacInt32_def copied)
  obtain c3 where 3: "get_item_and_path demo_fsenv 238 2 (demo_full, \<lparr>mem = ?m2, host = (), calls = c1\<rparr>) =
      Some (Inr (3, ''/m/c''), demo_both, \<lparr>mem = looked_up 0x2010 ?m2, host = (), calls = c3\<rparr>)"
    using demo_lookup [OF found(4,3) m2 _ _ demo_paths(2) found(5), of c1] found(2) demo_names by auto
  have 4: "\<exists>s1. rename_path demo_fsenv ''/m/a'' ''/m/c'' (demo_both, s) = Some (Inr (), demo_both, s1)" for s
    by (simp add: rename_path_def path_exists_def call_def on_host_def on_host_opt_def demo_posix_def extfs_rename_def
        rename_helper_def make_helper_path_def fits_def dir_part_def last_part_def create_helper_dir_def)
  show ?thesis
    using 4 [of "\<lparr>mem = looked_up 0x2010 ?m2, host = (), calls = c3\<rparr>"]
    by (auto simp: fs_rename_def call_def 1 2 3 upd_fs_def)
qed
lemma demo_full_ok: "table_ok demo_full"
proof -
  have "table_ok demo_root" using demo_init by (rule table_ok_init)
  moreover have "find_fsitem 0 ''a'' 1 demo_root = Some (2, demo_full)"
    by (simp add: find_fsitem_def find_named_def stccpy_def demo_full_def demo_root_def)
  moreover have "1 < length (fs_items demo_root)" by (simp add: demo_root_def)
  ultimately show ?thesis using table_ok_enter by blast
qed


theorem names_round_trip_witness:
  "cstr2pstr (strn2cstr [0x41, 0x2f, 0x42]) = [3, 0x41, 0x2f, 0x42] \<and> strn2cstr (tl (cstr2pstr ''A:B'')) = ''A:B''"
  using names_round_trip [of "[0x41, 0x2f, 0x42]" "''A:B''"] by (simp add: char_of_def)

end
