(* ===== verification/ExtFSTransfer.thy ===== *)
theory ExtFSTransfer
  imports ExtFSCalls
begin

text \<open>
  Reading and writing the forks of open files, the routines that the installation puts where the
  calls of "ExtFSCatalog" and "ExtFSFiles" run them, and mounting.
\<close>

section \<open>Reading and writing\<close>

text \<open>The parameter block's fields from the requested count to the position, and the position in the control block.\<close>

definition blocks_apart :: "u32 \<Rightarrow> u32 \<Rightarrow> bool" where
  "blocks_apart pb fcb \<longleftrightarrow> sep (pb + 36) 14 (fcb + 16) 4"

definition buffer_apart :: "u32 \<Rightarrow> nat \<Rightarrow> u32 \<Rightarrow> u32 \<Rightarrow> bool" where
  "buffer_apart a n pb fcb \<longleftrightarrow> sep a n (pb + 36) 14 \<and> sep a n (fcb + 16) 4"

lemma get_host [simp]: "get8 (s\<lparr>host := h\<rparr>) a = get8 s a" "get16 (s\<lparr>host := h\<rparr>) a = get16 s a" "get32 (s\<lparr>host := h\<rparr>) a = get32 s a"
  "get_bytes (s\<lparr>host := h\<rparr>) a n = get_bytes s a n"
  by (simp_all add: mac_get_defs get_bytes_def)

lemma finish_transfer_run:
  assumes lseek: "p_lseek (fs_posix F) fd 0 SEEK_CUR (host s) = (pos, h)" and apart: "blocks_apart pb fcb"
    and req: "get32 s (pb + ioReqCount) = n"
  shows "\<exists>t. finish_transfer F pb fcb fd actual (v, s) = Some (Inr (actual = uint n), v, t) \<and>
    get32 t (pb + ioActCount) = (if actual \<ge> 0 then word_of_int actual else 0) \<and>
    get32 t (pb + ioPosOffset) = word_of_int pos \<and> get32 t (fcb + fcbCrPs) = word_of_int pos \<and>
    (\<forall>a k. buffer_apart a k pb fcb \<longrightarrow> 0 < k \<longrightarrow> k \<le> 2 ^ 32 \<longrightarrow> get_bytes t a k = get_bytes s a k)"
proof -
  let ?act = "(if actual \<ge> 0 then word_of_int actual else 0) :: u32"
  let ?t = "put32 (pb + 46) (word_of_int pos) (put32 (fcb + 16) (word_of_int pos) ((put32 (pb + 40) ?act s)\<lparr>host := h\<rparr>))"
  have seps: "sep (pb + 36) 4 (pb + 40) 4" "sep (pb + 36) 4 (fcb + 16) 4" "sep (pb + 36) 4 (pb + 46) 4"
    "sep (pb + 40) 4 (fcb + 16) 4" "sep (pb + 40) 4 (pb + 46) 4" "sep (fcb + 16) 4 (pb + 46) 4"
    using apart sep_sub [of "pb + 36" 14 "fcb + 16" 4 0 4 0 4] sep_sub [of "pb + 36" 14 "fcb + 16" 4 4 4 0 4]
      sep_sub [of "pb + 36" 14 "fcb + 16" 4 10 4 0 4]
    by (simp_all add: blocks_apart_def sep_sym [of "fcb + 16"]) (simp_all add: sep_def)
  have bytes: "get_bytes ?t a k = get_bytes s a k" if "buffer_apart a k pb fcb" "0 < k" "k \<le> 2 ^ 32" for a k
  proof -
    have "sep a k (pb + 40) 4" "sep a k (pb + 46) 4" "sep a k (fcb + 16) 4"
      using that sep_sub [of a k "pb + 36" 14 0 k 4 4] sep_sub [of a k "pb + 36" 14 0 k 10 4]
      by (simp_all add: buffer_apart_def add.commute [of pb])
    then show ?thesis using that(3) by (simp add: get_bytes_put32)
  qed
  have run: "finish_transfer F pb fcb fd actual (v, s) = Some (Inr (actual = uint (get32 ?t (pb + 36))), v, ?t)"
    by (simp add: finish_transfer_def report_pos_def fsop_run lseek)
  have "get32 ?t (pb + 36) = n" using seps req by (simp add: get32_put_apart)
  with run seps bytes show ?thesis by (auto simp: get32_put_apart)
qed
text \<open>C40. Writing to an open file: the call hands the host exactly the bytes of the buffer, and the actual count and both
  positions are what the host says. When the host takes all the bytes there is no error. When it takes fewer or fails,
  the result is whatever error number the host had left: a short write, which sets none, is reported as
  an error only if an earlier call happened to fail, and otherwise as a success.\<close>

theorem fs_write_writes:
  fixes F :: "'h fsenv" and s s0 s1 :: "'h mac"
  assumes count: "0 \<le> sint (get32 s (pb + ioReqCount))"
    and found: "fcb_of F pb (v, s) = Some (Inr fcb, v, s0)" and fd: "0 \<le> fcb_fd s0 fcb"
    and seek: "seek_for_io F pb (fcb_fd s0 fcb) (v, s0) = Some (Inr (), v, s1)"
    and req: "get32 s1 (pb + ioReqCount) = n"
    and put: "p_write (fs_posix F) (fcb_fd s0 fcb) (get_bytes s1 (get32 s1 (pb + ioBuffer)) (unat n)) (host s1) = (k, h)"
    and lseek: "p_lseek (fs_posix F) (fcb_fd s0 fcb) 0 SEEK_CUR h = (pos, h1)"
    and apart: "blocks_apart pb fcb"
  shows "\<exists>t. fs_write F pb (v, s) =
      Some (Inr (if k = int (unat n) then noErr else errno2oserr (errno_of (fs_posix F) h)), v, t) \<and>
    get32 t (pb + ioActCount) = (if k \<ge> 0 then word_of_int k else 0) \<and>
    get32 t (pb + ioPosOffset) = word_of_int pos \<and> get32 t (fcb + fcbCrPs) = word_of_int pos"
proof -
  let ?fd = "fcb_fd s0 fcb"
  have "p_lseek (fs_posix F) ?fd 0 SEEK_CUR (host (s1\<lparr>host := h\<rparr>)) = (pos, h1)" using lseek by simp
  moreover have "get32 (s1\<lparr>host := h\<rparr>) (pb + ioReqCount) = n" using req by simp
  ultimately obtain t where t: "finish_transfer F pb fcb ?fd k (v, s1\<lparr>host := h\<rparr>) = Some (Inr (k = uint n), v, t)"
    "get32 t (pb + ioActCount) = (if k \<ge> 0 then word_of_int k else 0)" "get32 t (pb + ioPosOffset) = word_of_int pos"
    "get32 t (fcb + fcbCrPs) = word_of_int pos"
    using finish_transfer_run [of F ?fd "s1\<lparr>host := h\<rparr>" pos h1 pb fcb n k v] apart by blast
  have "fs_write F pb (v, s) = Some (Inr (if k = int (unat n) then noErr else errno2oserr (errno_of (fs_posix F) h)), v, t)"
    using count fd put
    by (simp add: fs_write_def count_ok_def with_file_def last_err_def extfs_write_def call_def look_def on_host_def found
        seek req t(1))
  then show ?thesis using t by blast
qed

text \<open>A host with one open file: reads give three bytes, writes take two and leave no error number.\<close>

definition demo_file :: "unit fsenv" where
  "demo_file = demo_fsenv\<lparr>fs_posix := demo_posix\<lparr>errno_of := \<lambda>h. E_OK, p_read := \<lambda>fd n h. (Some (take n [1, 2, 3]), h),
     p_write := \<lambda>fd bs h. (min 2 (int (length bs)), h), p_lseek := \<lambda>fd n w h. (7, h)\<rparr>\<rparr>"

lemma demo_file_ops [simp]:
  "p_read (fs_posix demo_file) fd n h = (Some (take n [1, 2, 3]), h)"
  "p_write (fs_posix demo_file) fd bs h = (min 2 (int (length bs)), h)"
  "p_lseek (fs_posix demo_file) fd k w h = (7, h)" "errno_of (fs_posix demo_file) h = E_OK"
  by (simp_all add: demo_file_def)

text \<open>A parameter block at 0x1000 for four bytes at 0x5000; the control block is at 0x3000 with the descriptor 3.\<close>

definition demo_io :: "unit mac" where
  "demo_io = \<lparr>mem = (\<lambda>_. 0)(308 := 0x30, 0x3003 := 16, 0x3039 := 3, 0x1027 := 4, 0x1022 := 0x50), host = (), calls = []\<rparr>"

lemma demo_io_reads:
  "get32 demo_io 0x1024 = 4" "get32 demo_io 0x1020 = 0x5000" "get32 demo_io 306 = 0x3000" "get32 demo_io 0x3000 = 16"
  "get32 demo_io 0x3036 = 3" "get16 demo_io 0x102c = 0" "get16 demo_io 0x1018 = 0"
  by (simp_all add: demo_io_def mac_get_defs mac_access join32_def join16_def)

lemma demo_found: "\<exists>c. fcb_of demo_file 0x1000 (demo_root, demo_io) = Some (Inr 0x3000, demo_root, demo_io\<lparr>calls := c\<rparr>)"
proof -
  have "\<exists>c. routine (fs_env demo_file) fsResolveFCB r (demo_root, demo_io) = Some (Inr (set_d 0 0 r), demo_root, demo_io\<lparr>calls := c\<rparr>)" for r
    by (simp add: routine_def Execute68k_def demo_file_def demo_fsenv_def demo_root_def demo_io_def)
  then obtain c where c: "routine (fs_env demo_file) fsResolveFCB (set_a 0 306 (set_d 0 0 (start_regs demo_file))) (demo_root, demo_io) =
      Some (Inr (set_d 0 0 (set_a 0 306 (set_d 0 0 (start_regs demo_file)))), demo_root, demo_io\<lparr>calls := c\<rparr>)" by blast
  have same: "get32 (demo_io\<lparr>calls := c\<rparr>) a = get32 demo_io a" for a by (simp add: get32_def)
  have d: "fs_data demo_root = 0" by (simp add: demo_root_def)
  show ?thesis
    by (rule exI [of _ c]) (simp add: fcb_of_def find_fcb_def call_def look_def d demo_io_reads c low16_def same)
qed

lemma demo_seek: "seek_for_io demo_file 0x1000 3 (demo_root, demo_io\<lparr>calls := c\<rparr>) = Some (Inr (), demo_root, demo_io\<lparr>calls := c\<rparr>)"
proof -
  have "get16 (demo_io\<lparr>calls := c\<rparr>) 0x102c = 0" using demo_io_reads by (simp add: get16_def)
  then show ?thesis by (simp add: seek_for_io_def seek_to_def call_def look_def)
qed


theorem fs_write_writes_witness:
  "\<exists>t. fs_write demo_file 0x1000 (demo_root, demo_io) = Some (Inr noErr, demo_root, t) \<and> get32 t 0x1028 = 2 \<and>
     get32 t 0x102e = 7 \<and> get32 t 0x3010 = 7"
proof -
  obtain c where c: "fcb_of demo_file 0x1000 (demo_root, demo_io) = Some (Inr 0x3000, demo_root, demo_io\<lparr>calls := c\<rparr>)"
    using demo_found by blast
  let ?s = "demo_io\<lparr>calls := c\<rparr>"
  have r: "get32 ?s a = get32 demo_io a" for a by (simp add: get32_def)
  have fd: "fcb_fd ?s 0x3000 = 3" by (simp add: fcb_fd_def r demo_io_reads)
  have ap: "blocks_apart 0x1000 0x3000" by (simp add: blocks_apart_def sep_def)
  have "\<exists>t. fs_write demo_file 0x1000 (demo_root, demo_io) = Some (Inr (if (2 :: int) = int (unat (4 :: u32)) then noErr
      else errno2oserr (errno_of (fs_posix demo_file) ())), demo_root, t) \<and>
    get32 t (0x1000 + ioActCount) = (if (2 :: int) \<ge> 0 then word_of_int 2 else 0) \<and>
    get32 t (0x1000 + ioPosOffset) = word_of_int 7 \<and> get32 t (0x3000 + fcbCrPs) = word_of_int 7"
    by (rule fs_write_writes [OF _ c, where ?s1.0 = ?s and h = "()" and ?h1.0 = "()"])
       (simp_all add: fd r demo_io_reads demo_seek ap)
  then show ?thesis by simp
qed
section \<open>Installation\<close>

text \<open>The routines by the offsets under which the calls run them.\<close>

definition routine_offsets :: "u32 list" where
  "routine_offsets =
     [fsAllocateVCB, fsAddNewVCB, fsDetermineVol, fsResolveWDCB, fsGetDefaultVol, fsGetPathComponentName, fsParsePathname,
      fsDisposeVCB, fsCheckWDRefNum, fsSetDefaultVol, fsAllocateFCB, fsReleaseFCB, fsIndexFCB, fsResolveFCB, fsAdjustEOF,
      fsAllocateWDCB, fsReleaseWDCB]"

lemma fs_routines_laid_out: "laid_out fsAllocateVCB fs_routines"
  by (simp add: fs_routines_def)

text \<open>The code of the routine that starts after \<open>k\<close> others.\<close>

lemma concat_slice:
  "k < length cs \<Longrightarrow> take (length (cs ! k)) (drop (length (concat (take k cs))) (concat cs)) = cs ! k"
proof (induction cs arbitrary: k)
  case (Cons c cs)
  then show ?case by (cases k) auto
qed simp

lemma concat_slice_fits: "k < length cs \<Longrightarrow> length (concat (take k cs)) + length (cs ! k) \<le> length (concat cs)"
proof (induction cs arbitrary: k)
  case (Cons c cs)
  then show ?case by (cases k) (auto simp: add.assoc)
qed simp

lemma get_bytes_slice:
  assumes "length bs \<le> 2 ^ 32" and "i + n \<le> length bs"
  shows "get_bytes (put_bytes a bs s) (a + word_of_nat i) n = take n (drop i bs)"
proof (rule nth_equalityI)
  show len: "length (get_bytes (put_bytes a bs s) (a + word_of_nat i) n) = length (take n (drop i bs))"
    using assms by simp
  fix j assume "j < length (get_bytes (put_bytes a bs s) (a + word_of_nat i) n)"
  then have j: "j < n" by simp
  then have "unat (a + word_of_nat i + word_of_nat j - a) = i + j"
    using assms unat_word_of_nat [of "i + j"] by (simp add: add.assoc flip: of_nat_add)
  then show "get_bytes (put_bytes a bs s) (a + word_of_nat i) n ! j = take n (drop i bs) ! j"
    using j assms by (simp add: nth_get_bytes get8_put_bytes)
qed

lemma routine_starts:
  "k < 17 \<Longrightarrow> routine_offsets ! k = fsAllocateVCB + word_of_nat (length (concat (take k (map (code_bytes \<circ> fst) fs_routines))))"
  by (simp add: less_Suc_eq numeral_eq_Suc) (auto simp: routine_offsets_def fs_routines_def)
text \<open>The installation always lays its block of 68k code out as the rest of the file system expects: the fatal error
  for a routine of the wrong length is never met, at each of the seventeen offsets through which the calls enter the
  File System Manager there is the code of the routine of that name, and the first twelve bytes are the two entry points for
  the File System Manager, ExtFSComm() and ExtFSHFS().\<close>

theorem InstallExtFS_routines:
  "\<exists>s1. put_fs_code d s = (True, s1) \<and>
     list_all (\<lambda>(offset, its). get_bytes s1 (d + offset) (length (code_bytes its)) = code_bytes its)
       (zip routine_offsets (map fst fs_routines)) \<and>
     get_bytes s1 d 12 = code_bytes comm_stub @ code_bytes hfs_stub"
proof -
  let ?cs = "map (code_bytes \<circ> fst) fs_routines"
  let ?s2 = "put_bytes d (code_bytes comm_stub @ code_bytes hfs_stub) s"
  let ?s3 = "put_bytes (d + fsAllocateVCB) (concat ?cs) ?s2"
  have run: "put_fs_code d s = (True, ?s3)"
  proof -
    have len: "length (code_bytes comm_stub) = 6" "length (code_bytes hfs_stub) = 6"
      by (simp_all add: comm_stub_def hfs_stub_def)
    then have "put_code d comm_stub s = (d + 6, put_bytes d (code_bytes comm_stub) s)" by (simp add: put_code_eq)
    moreover have "put_code (d + 6) hfs_stub (put_bytes d (code_bytes comm_stub) s) = (d + 12, ?s2)"
      using len put_bytes_append [of d "code_bytes comm_stub" "code_bytes hfs_stub" s] by (simp add: put_code_eq)
    ultimately show ?thesis
      by (simp add: put_fs_code_def put_routines_eq [OF fs_routines_laid_out])
  qed
  have total: "length (concat ?cs) = 240" "length ?cs = 17" "length routine_offsets = 17"
    by (simp_all add: fs_routines_def routine_offsets_def)
  have each: "get_bytes ?s3 (d + routine_offsets ! k) (length (?cs ! k)) = ?cs ! k" if "k < 17" for k
  proof -
    let ?i = "length (concat (take k ?cs))"
    have "?i + length (?cs ! k) \<le> length (concat ?cs)" using that total(2) by (intro concat_slice_fits) simp
    then have "get_bytes ?s3 (d + fsAllocateVCB + word_of_nat ?i) (length (?cs ! k)) = ?cs ! k"
      using get_bytes_slice [of "concat ?cs" ?i "length (?cs ! k)" "d + fsAllocateVCB" ?s2] total concat_slice [of k ?cs] that by simp
    then show ?thesis using routine_starts [OF that] by (simp add: add.assoc)
  qed
  have "list_all (\<lambda>(offset, its). get_bytes ?s3 (d + offset) (length (code_bytes its)) = code_bytes its)
       (zip routine_offsets (map fst fs_routines))"
    using each total by (auto simp: list_all_length)
  moreover have "get_bytes ?s3 d 12 = code_bytes comm_stub @ code_bytes hfs_stub"
  proof -
    have "length (code_bytes comm_stub @ code_bytes hfs_stub) = 12" by (simp add: comm_stub_def hfs_stub_def)
    moreover have "sep d 12 (d + fsAllocateVCB) (length (concat ?cs))" by (simp add: sep_def total)
    ultimately show ?thesis
      using get_put_bytes [of "code_bytes comm_stub @ code_bytes hfs_stub" d s] total
        get_put_bytes_apart [of d 12 "d + fsAllocateVCB" "concat ?cs" ?s2] by simp
  qed
  ultimately show ?thesis using run by blast
qed
section \<open>Mounting\<close>

lemma low_half: "ucast (get32 s a) = get16 s (a + 2)"
  unfolding get32_as_bytes get16_as_bytes
  by (rule bit_word_eqI) (auto simp: join32_def join16_def bit_simps add.assoc dest: bit_u8_less)

lemma high_half: "ucast (drop_bit 16 (get32 s a)) = get16 s a"
  unfolding get32_as_bytes get16_as_bytes
  by (rule bit_word_eqI) (auto simp: join32_def join16_def bit_simps dest: bit_u8_less)

text \<open>Mounting reports the wrong volume reference number. The File System Manager stores the 16-bit reference number of the
  new volume at fs_data + fsReturn, and the bytes behind it still hold the address of the volume control block, which
  UTAllocateVCB() left at fs_data + fsReturn + 2; but the call reads 32 bits and keeps the lower half, so
  what it returns in the parameter block is the upper half of that address.\<close>

theorem fs_volume_mount_refnum:
  fixes s s1 s2 :: "'h mac"
  assumes alloc: "routine (fs_env F) fsAllocateVCB (set_a 1 (fs_data v + fsReturn + 2) (set_a 0 (fs_data v + fsReturn) (start_regs F)))
      (v, s) = Some (Inr r, v, s1)" "low16 r = 0"
    and vcb: "vcb = get32 s1 (fs_data v + fsReturn + 2)"
    and add: "routine (fs_env F) fsAddNewVCB (set_a 1 vcb (set_a 0 (fs_data v + fsReturn) (set_d 0 (word_of_int (drive_number v)) r)))
      (v, put_vcb v vcb s1) = Some (Inr r1, v, s2)" "low16 r1 = 0"
    and kept: "get16 s2 (fs_data v + fsReturn + 2) = get16 s1 (fs_data v + fsReturn + 2)"
  shows "\<exists>t. fs_volume_mount F pb (v, s) = Some (Inr noErr, v, t) \<and> get16 t (pb + ioVRefNum) = ucast (drop_bit 16 vcb)"
proof -
  obtain r2 s3 where ev: "Execute68kTrap (fs_env F) 0xa02f (set_a 0 7 (set_d 0 (word_of_int (drive_number v)) r1)) s2 = (r2, s3)"
    by force
  have ref: "ucast (get32 s2 (fs_data v + fsReturn)) = (ucast (drop_bit 16 vcb) :: u16)"
    unfolding low_half vcb high_half using kept by simp
  have "fs_volume_mount F pb (v, s) = Some (Inr noErr, v, put16 (pb + ioVRefNum) (ucast (drop_bit 16 vcb)) s3)"
    using alloc add vcb by (simp add: fs_volume_mount_def call_def look_def upd_mac_def on_mac_def ev ref)
  then show ?thesis by simp
qed
text \<open>A File System Manager that allocates the volume control block at 0x120000 and gives it the reference number -2.\<close>

definition demo_mount :: "unit fsenv" where
  "demo_mount = demo_fsenv\<lparr>fs_env := (fs_env demo_fsenv)\<lparr>run_code := \<lambda>a r (m, h).
     (set_d 0 0 r, if a = fsAllocateVCB then WriteMacInt32 308 0x120000 m
                   else if a = fsAddNewVCB then WriteMacInt16 306 (-2) m else m, h)\<rparr>\<rparr>"

definition blank :: "unit mac" where
  "blank = \<lparr>mem = \<lambda>_. 0, host = (), calls = []\<rparr>"

lemma demo_mount_runs:
  assumes "fs_data v = 0"
  shows "\<exists>c. routine (fs_env demo_mount) fsAllocateVCB r (v, s) = Some (Inr (set_d 0 0 r), v, (put32 308 0x120000 s)\<lparr>calls := c\<rparr>)"
    and "\<exists>c. routine (fs_env demo_mount) fsAddNewVCB r (v, s) = Some (Inr (set_d 0 0 r), v, (put16 306 (-2) s)\<lparr>calls := c\<rparr>)"
  using assms by (cases s; simp add: routine_def Execute68k_def demo_mount_def demo_fsenv_def put16_def put32_def)+

theorem fs_volume_mount_refnum_witness:
  "\<exists>t. fs_volume_mount demo_mount 0x1000 (demo_root, blank) = Some (Inr noErr, demo_root, t) \<and> get16 t 0x1016 = 0x12"
proof -
  let ?r0 = "set_a 1 308 (set_a 0 306 (start_regs demo_mount))"
  have d: "fs_data demo_root = 0" "length (padded 28 (VOLUME_NAME demo_root)) = 28"
    by (simp_all add: demo_root_def padded_def)
  obtain c1 where 1: "routine (fs_env demo_mount) fsAllocateVCB ?r0 (demo_root, blank) =
      Some (Inr (set_d 0 0 ?r0), demo_root, (put32 308 0x120000 blank)\<lparr>calls := c1\<rparr>)"
    using demo_mount_runs(1) [OF d(1)] by blast
  let ?s1 = "(put32 308 0x120000 blank)\<lparr>calls := c1\<rparr>"
  let ?v = "put_vcb demo_root 0x120000 ?s1"
  let ?r1 = "set_a 1 0x120000 (set_a 0 306 (set_d 0 (word_of_int (drive_number demo_root)) (set_d 0 0 ?r0)))"
  obtain c2 where 2: "routine (fs_env demo_mount) fsAddNewVCB ?r1 (demo_root, ?v) =
      Some (Inr (set_d 0 0 ?r1), demo_root, (put16 306 (-2) ?v)\<lparr>calls := c2\<rparr>)"
    using demo_mount_runs(2) [OF d(1)] by blast
  have vcb: "get32 ?s1 308 = 0x120000" by (simp add: get32_def)
  have "padded 28 (VOLUME_NAME demo_root) \<noteq> []" using d(2) by auto
  then have name: "get16 (put_bytes 0x12002c (padded 28 (VOLUME_NAME demo_root)) u) 308 = get16 u 308" for u :: "unit mac"
    by (intro get_put_bytes_word(1)) (simp_all add: d sep_def)
  have word: "get16 ?v 308 = get16 ?s1 308"
    by (simp add: put_vcb_def get16_put_apart sep_def name)
  have "get16 ((put16 306 (-2) ?v)\<lparr>calls := c2\<rparr>) 308 = get16 (put16 306 (-2) ?v) 308" by (simp add: get16_def)
  also have "\<dots> = get16 ?v 308" by (rule get16_put_apart) (simp add: sep_def)
  finally have kept: "get16 ((put16 306 (-2) ?v)\<lparr>calls := c2\<rparr>) 308 = get16 ?s1 308" using word by simp
  show ?thesis
    using fs_volume_mount_refnum [of demo_mount demo_root blank "set_d 0 0 ?r0" ?s1 "0x120000" "set_d 0 0 ?r1" "(put16 306 (-2) ?v)\<lparr>calls := c2\<rparr>" "0x1000"]
      1 2 vcb kept by (simp add: d low16_def)
qed

end
