(* ===== verification/SparseBundle.thy ===== *)
theory SparseBundle
  imports ExtFSHost "HOL-Library.Signed_Division"
begin

text \<open>
  "Unix/disk_sparsebundle.cpp": a disk whose data lies in a directory of band files, each holding the
  same number of bytes of the disk; bytes that no file has are zero. One band is open at a time. The
  system calls are the record \<open>posix\<close> of the external file system; the parser of the property list is a
  parameter that yields the elements of its dictionary. Sizes are those of a 64-bit host: an \<open>loff_t\<close> or
  \<open>ssize_t\<close> is an integer, a \<open>size_t\<close> a natural number, and \<open>size_t\<close> is the conversion that C inserts where
  the two are compared or subtracted.
\<close>

section \<open>The disk and its bands\<close>

definition size_t :: "int \<Rightarrow> nat" where
  "size_t x = nat (x mod 2 ^ 64)"

record disk_sparsebundle =
  token_fd :: int
  bundle_read_only :: bool
  band_size :: int
  total_size :: int
  band_dir :: string
  band_cur :: int
  band_fd :: int
  band_alloc :: int

definition new_sparsebundle :: "string \<Rightarrow> int \<Rightarrow> bool \<Rightarrow> int \<Rightarrow> int \<Rightarrow> disk_sparsebundle" where
  "new_sparsebundle bands fd ro bsize tsize =
     \<lparr>token_fd = fd, bundle_read_only = ro, band_size = bsize, total_size = tsize, band_dir = bands,
      band_cur = -1, band_fd = -1, band_alloc = -1\<rparr>"

definition delete_sparsebundle :: "'h posix \<Rightarrow> disk_sparsebundle \<Rightarrow> 'h \<Rightarrow> 'h" where
  "delete_sparsebundle P D h = p_close P (token_fd D) (if band_fd D \<noteq> -1 then p_close P (band_fd D) h else h)"

text \<open>The host, the disk and the caller's buffer.\<close>

type_synonym 'h bundle_st = "'h \<times> disk_sparsebundle \<times> u8 list"

definition put_buf :: "nat \<Rightarrow> u8 list \<Rightarrow> u8 list \<Rightarrow> u8 list" where
  "put_buf i bs buf = take i buf @ bs @ drop (i + length bs) buf"

text \<open>\<open>band_do\<close> cuts a transfer at the borders of the bands. \<open>f\<close> gets the place in the buffer, the band, the
  place in the band and the length. A band size of 0 is a division by zero.\<close>

type_synonym 'h band_func = "nat \<Rightarrow> int \<Rightarrow> nat \<Rightarrow> nat \<Rightarrow> 'h bundle_st \<Rightarrow> int \<times> 'h bundle_st"

partial_function (option) band_loop ::
  "'h band_func \<Rightarrow> nat \<Rightarrow> int \<Rightarrow> int \<Rightarrow> nat \<Rightarrow> nat \<Rightarrow> 'h bundle_st \<Rightarrow> (nat \<times> 'h bundle_st) option" where
  "band_loop f b band offset len fin st =
     (case st of (h, D, buf) \<Rightarrow>
      if len = 0 \<or> offset \<ge> total_size D then Some (fin, st)
      else
        (let start = size_t (offset smod band_size D);
             segment = min (size_t (band_size D - int start)) len;
             (err, st1) = f b band start segment st;
             fin1 = (if err > 0 then fin + nat err else fin)
         in if size_t err < segment then Some (fin1, st1)
            else band_loop f (b + segment) (band + 1) (offset + int segment) (len - segment) fin1 st1))"

definition band_do :: "'h band_func \<Rightarrow> int \<Rightarrow> nat \<Rightarrow> 'h bundle_st \<Rightarrow> (nat \<times> 'h bundle_st) option" where
  "band_do f offset len st =
     (case st of (h, D, buf) \<Rightarrow>
      if band_size D = 0 then None
      else band_loop f 0 (offset sdiv band_size D) offset len 0 st)"

section \<open>Opening a band\<close>

datatype open_ret = OPEN_FAILED | OPEN_NOENT | OPEN_OK

definition hex_digit :: "nat \<Rightarrow> char" where
  "hex_digit n = (if n < 10 then char_of (48 + n) else char_of (87 + n))"

fun show_hex :: "nat \<Rightarrow> string" where
  "show_hex n = (if n < 16 then [hex_digit n] else show_hex (n div 16) @ [hex_digit (n mod 16)])"

declare show_hex.simps [simp del]

abbreviation (input) PATH_MAX :: nat where "PATH_MAX \<equiv> 4096"

definition band_path :: "string \<Rightarrow> int \<Rightarrow> string" where
  "band_path dir band = dir @ ''/'' @ show_hex (size_t band)"

definition open_band :: "'h posix \<Rightarrow> int \<Rightarrow> bool \<Rightarrow> 'h \<times> disk_sparsebundle \<Rightarrow> open_ret \<times> 'h \<times> disk_sparsebundle" where
  "open_band P band create st =
     (let (h, D) = st; path = band_path (band_dir D) band in
      if band_cur D = band then (OPEN_OK, h, D)
      else if length path \<ge> PATH_MAX then (OPEN_FAILED, h, D)
      else
        (let h1 = (if band_fd D \<noteq> -1 then p_close P (band_fd D) h else h);
             (fd, h2) = p_open P path (if bundle_read_only D then O_RDONLY else O_RDWR) create h1;
             D1 = D\<lparr>band_alloc := -1, band_cur := -1, band_fd := fd\<rparr>
         in if fd = -1 then
              (if \<not> create \<and> errno_of P h2 = ENOENT then OPEN_NOENT else OPEN_FAILED, h2, D1)
            else if bundle_read_only D then (OPEN_OK, h2, D1\<lparr>band_cur := band\<rparr>)
            else (let (n, h3) = p_lseek P fd 0 SEEK_END h2
                  in (OPEN_OK, h3, D1\<lparr>band_alloc := (if n = -1 then band_size D else n), band_cur := band\<rparr>))))"

section \<open>Transfers within a band\<close>

definition band_read :: "'h posix \<Rightarrow> 'h band_func" where
  "band_read P b band off len st =
     (let (h, D, buf) = st; (ret, h1, D1) = open_band P band False (h, D) in
      if ret = OPEN_FAILED then (-1, h1, D1, buf)
      else
        (let alloc = size_t (band_alloc D1);
             want = (if ret = OPEN_NOENT \<or> off \<ge> alloc then 0 else min len (alloc - off));
             clear = (\<lambda>buf. put_buf (b + want) (replicate (len - want) 0) buf)
         in if want \<noteq> 0 then
              (let (pos, h2) = p_lseek P (band_fd D1) (int off) SEEK_SET h1 in
               if pos = -1 then (-1, h2, D1, buf)
               else
                 (let (got, h3) = p_read P (band_fd D1) want h2;
                      err = (case got of None \<Rightarrow> -1 | Some bs \<Rightarrow> int (length bs));
                      buf1 = (case got of None \<Rightarrow> buf | Some bs \<Rightarrow> put_buf b bs buf)
                  in if size_t err < want then (err, h3, D1, buf1) else (int len, h3, D1, clear buf1)))
            else (int len, h1, D1, clear buf)))"

definition nonzero_part :: "u8 list \<Rightarrow> nat" where
  "nonzero_part bs = length (dropWhile ((=) 0) (rev bs))"

definition band_write :: "'h posix \<Rightarrow> 'h band_func" where
  "band_write P b band off len st =
     (let (h, D, buf) = st; dat = take len (drop b buf); nz = nonzero_part dat;
          (ret, h1, D1) = open_band P band (nz \<noteq> 0) (h, D)
      in if ret \<noteq> OPEN_OK then (if ret = OPEN_NOENT then int len else -1, h1, D1, buf)
         else
           (let (pos, h2) = p_lseek P (band_fd D1) (int off) SEEK_SET h1 in
            if pos = -1 then (-1, h2, D1, buf)
            else
              (let alloc = size_t (band_alloc D1);
                   space = (if off \<ge> alloc then 0 else alloc - off);
                   want = max nz (min space len);
                   (err, h3) = p_write P (band_fd D1) (take want dat) h2;
                   D2 = (if err \<ge> 0 then D1\<lparr>band_alloc := max (band_alloc D1) (int off + err)\<rparr> else D1)
               in (if size_t err < want then err else int len, h3, D2, buf))))"

definition bundle_read :: "'h posix \<Rightarrow> int \<Rightarrow> nat \<Rightarrow> 'h bundle_st \<Rightarrow> (nat \<times> 'h bundle_st) option" where
  "bundle_read P = band_do (band_read P)"

definition bundle_write :: "'h posix \<Rightarrow> int \<Rightarrow> nat \<Rightarrow> 'h bundle_st \<Rightarrow> (nat \<times> 'h bundle_st) option" where
  "bundle_write P = band_do (band_write P)"

section \<open>The property list\<close>

text \<open>The elements of the dictionary with their names and texts.\<close>

type_synonym plist = "(string \<times> string option) list"

fun plist_value :: "bool \<Rightarrow> string \<Rightarrow> string \<Rightarrow> plist \<Rightarrow> string option" where
  "plist_value found key ty [] = None"
| "plist_value found key ty ((name, content) # es) =
     (if found then (if name = ty then content else None)
      else plist_value (name = ''key'' \<and> content = Some key) key ty es)"

text \<open>strtoll() in base 10: the value, and whether it has consumed everything.\<close>

definition llong_clamp :: "int \<Rightarrow> int" where
  "llong_clamp x = max (- (2 ^ 63)) (min (2 ^ 63 - 1) x)"

definition is_digit :: "char \<Rightarrow> bool" where
  "is_digit c \<longleftrightarrow> 48 \<le> (of_char c :: nat) \<and> of_char c \<le> (57 :: nat)"

definition is_space :: "char \<Rightarrow> bool" where
  "is_space c \<longleftrightarrow> (of_char c :: nat) = 32 \<or> 9 \<le> (of_char c :: nat) \<and> of_char c \<le> (13 :: nat)"

definition digits_int :: "string \<Rightarrow> int" where
  "digits_int ds = foldl (\<lambda>n c. 10 * n + (int (of_char c) - 48)) 0 ds"

definition strtoll :: "string \<Rightarrow> int \<times> string" where
  "strtoll s =
     (let t = dropWhile is_space s;
          (neg, u) = (case t of [] \<Rightarrow> (False, []) | c # cs \<Rightarrow>
             if c = CHR ''-'' then (True, cs) else if c = CHR ''+'' then (False, cs) else (False, t));
          ds = takeWhile is_digit u
      in if ds = [] then (0, s)
         else (llong_clamp (if neg then - digits_int ds else digits_int ds), dropWhile is_digit u))"

definition plist_int :: "string \<Rightarrow> plist \<Rightarrow> int option" where
  "plist_int key pl =
     (case plist_value False key ''integer'' pl of
        None \<Rightarrow> None
      | Some v \<Rightarrow> if v = [] then None else case strtoll v of (ll, rest) \<Rightarrow> if rest \<noteq> [] then None else Some ll)"

section \<open>Opening the disk\<close>

datatype 'd disk_status = DISK_UNKNOWN | DISK_INVALID | DISK_VALID 'd

definition try_open :: "'h posix \<Rightarrow> string \<Rightarrow> bool \<Rightarrow> 'h \<Rightarrow> int \<times> 'h" where
  "try_open P path ro = p_open P path (if ro then O_RDONLY else O_RDWR) False"

text \<open>\<open>load\<close> is the parser: \<open>None\<close> for a file that cannot be loaded or has no dictionary.\<close>

definition open_token :: "'h posix \<Rightarrow> string \<Rightarrow> bool \<Rightarrow> 'h \<Rightarrow> (int \<times> bool) \<times> 'h" where
  "open_token P path ro h =
     (let (fd, h1) = try_open P path ro h in
      if fd = -1 \<and> \<not> ro then (let (fd2, h2) = try_open P path True h1 in ((fd2, True), h2))
      else ((fd, ro), h1))"

definition sparsebundle_factory ::
  "'h posix \<Rightarrow> (string \<Rightarrow> 'h \<Rightarrow> plist option) \<Rightarrow> string \<Rightarrow> bool \<Rightarrow> 'h \<Rightarrow> disk_sparsebundle disk_status \<times> 'h" where
  "sparsebundle_factory P load path ro h =
     (if length (path @ ''/Info.plist'') \<ge> PATH_MAX then (DISK_UNKNOWN, h)
      else case load (path @ ''/Info.plist'') h of
        None \<Rightarrow> (DISK_UNKNOWN, h)
      | Some pl \<Rightarrow>
          if plist_value False ''diskimage-bundle-type'' ''string'' pl \<noteq> Some ''com.apple.diskimage.sparsebundle''
            \<or> plist_int ''bundle-backingstore-version'' pl \<noteq> Some 1 then (DISK_UNKNOWN, h)
          else case (plist_int ''band-size'' pl, plist_int ''size'' pl) of
            (Some bsize, Some tsize) \<Rightarrow>
              if length (path @ ''/token'') \<ge> PATH_MAX then (DISK_INVALID, h)
              else
                (let ((token, ro1), h1) = open_token P (path @ ''/token'') ro h in
                 if token = -1 \<or> length (path @ ''/bands'') \<ge> PATH_MAX then (DISK_INVALID, h1)
                 else (DISK_VALID (new_sparsebundle (path @ ''/bands'') token ro1 bsize tsize), h1))
          | _ \<Rightarrow> (DISK_INVALID, h))"

section \<open>What a host without failures does\<close>

text \<open>A view of the host: the contents of the files, and for each open descriptor its file and position. The
  documented behaviour of the calls on a host that does not run out of anything.\<close>

record 'h fs_view =
  files_of :: "'h \<Rightarrow> string \<Rightarrow> u8 list option"
  fds_of :: "'h \<Rightarrow> int \<Rightarrow> (string \<times> nat) option"

definition same_view :: "'h fs_view \<Rightarrow> 'h \<Rightarrow> 'h \<Rightarrow> bool" where
  "same_view V h h' \<longleftrightarrow> files_of V h' = files_of V h \<and> fds_of V h' = fds_of V h"

definition overwrite :: "nat \<Rightarrow> u8 list \<Rightarrow> u8 list \<Rightarrow> u8 list" where
  "overwrite k bs c = take k (c @ replicate (k - length c) 0) @ bs @ drop (k + length bs) c"

definition opens :: "'h posix \<Rightarrow> 'h fs_view \<Rightarrow> bool" where
  "opens P V \<longleftrightarrow> (\<forall>h path fl cr. case p_open P path fl cr h of (fd, h') \<Rightarrow>
     if files_of V h path = None \<and> \<not> cr then fd = -1 \<and> errno_of P h' = ENOENT \<and> same_view V h h'
     else fd \<ge> 0 \<and> fds_of V h fd = None \<and> fds_of V h' = (fds_of V h)(fd \<mapsto> (path, 0))
       \<and> files_of V h' = (files_of V h)(path \<mapsto> case files_of V h path of None \<Rightarrow> [] | Some c \<Rightarrow> c))"

definition closes :: "'h posix \<Rightarrow> 'h fs_view \<Rightarrow> bool" where
  "closes P V \<longleftrightarrow> (\<forall>h fd. files_of V (p_close P fd h) = files_of V h \<and> fds_of V (p_close P fd h) = (fds_of V h)(fd := None))"

definition seeks :: "'h posix \<Rightarrow> 'h fs_view \<Rightarrow> bool" where
  "seeks P V \<longleftrightarrow> (\<forall>h fd path pos c k. fds_of V h fd = Some (path, pos) \<longrightarrow> files_of V h path = Some c \<longrightarrow>
     (case p_lseek P fd (int k) SEEK_SET h of (r, h') \<Rightarrow>
        r = int k \<and> files_of V h' = files_of V h \<and> fds_of V h' = (fds_of V h)(fd \<mapsto> (path, k)))
     \<and> (case p_lseek P fd 0 SEEK_END h of (r, h') \<Rightarrow>
        r = int (length c) \<and> files_of V h' = files_of V h \<and> fds_of V h' = (fds_of V h)(fd \<mapsto> (path, length c))))"

definition transfers :: "'h posix \<Rightarrow> 'h fs_view \<Rightarrow> bool" where
  "transfers P V \<longleftrightarrow> (\<forall>h fd path pos c. fds_of V h fd = Some (path, pos) \<longrightarrow> files_of V h path = Some c \<longrightarrow>
     (\<forall>n. case p_read P fd n h of (got, h') \<Rightarrow>
        got = Some (take n (drop pos c)) \<and> files_of V h' = files_of V h
        \<and> fds_of V h' = (fds_of V h)(fd \<mapsto> (path, pos + length (take n (drop pos c)))))
     \<and> (\<forall>bs. case p_write P fd bs h of (r, h') \<Rightarrow>
        r = int (length bs) \<and> files_of V h' = (files_of V h)(path \<mapsto> if bs = [] then c else overwrite pos bs c)
        \<and> fds_of V h' = (fds_of V h)(fd \<mapsto> (path, pos + length bs))))"

definition posix_files :: "'h posix \<Rightarrow> 'h fs_view \<Rightarrow> bool" where
  "posix_files P V \<longleftrightarrow> opens P V \<and> closes P V \<and> seeks P V \<and> transfers P V"

lemma posix_open_missing:
  assumes "posix_files P V" and "files_of V h path = None"
  shows "\<exists>h'. p_open P path fl False h = (-1, h') \<and> errno_of P h' = ENOENT \<and> same_view V h h'"
proof -
  have "opens P V" using assms(1) by (simp add: posix_files_def)
  then show ?thesis
    using assms(2) unfolding opens_def by (elim allE [of _ h] allE [of _ path] allE [of _ fl] allE [of _ False]) (auto split: prod.splits)
qed

lemma posix_open:
  assumes "posix_files P V" and "files_of V h path \<noteq> None \<or> cr"
  shows "\<exists>fd h'. p_open P path fl cr h = (fd, h') \<and> fd \<ge> 0 \<and> fds_of V h fd = None
     \<and> fds_of V h' = (fds_of V h)(fd \<mapsto> (path, 0))
     \<and> files_of V h' = (files_of V h)(path \<mapsto> case files_of V h path of None \<Rightarrow> [] | Some c \<Rightarrow> c)"
proof -
  have "opens P V" using assms(1) by (simp add: posix_files_def)
  then show ?thesis
    using assms(2) unfolding opens_def by (elim allE [of _ h] allE [of _ path] allE [of _ fl] allE [of _ cr]) (auto split: prod.splits if_splits)
qed

lemma posix_close:
  "posix_files P V \<Longrightarrow> files_of V (p_close P fd h) = files_of V h"
  "posix_files P V \<Longrightarrow> fds_of V (p_close P fd h) = (fds_of V h)(fd := None)"
  by (simp_all add: posix_files_def closes_def)

lemma posix_seek:
  assumes "posix_files P V" and "fds_of V h fd = Some (path, pos)" and "files_of V h path = Some c"
  shows "\<exists>h'. p_lseek P fd (int k) SEEK_SET h = (int k, h') \<and> files_of V h' = files_of V h
      \<and> fds_of V h' = (fds_of V h)(fd \<mapsto> (path, k))"
    and "\<exists>h'. p_lseek P fd 0 SEEK_END h = (int (length c), h') \<and> files_of V h' = files_of V h
      \<and> fds_of V h' = (fds_of V h)(fd \<mapsto> (path, length c))"
proof -
  have "seeks P V" using assms(1) by (simp add: posix_files_def)
  note s = this [unfolded seeks_def, rule_format, OF assms(2,3), where k = k]
  show "\<exists>h'. p_lseek P fd (int k) SEEK_SET h = (int k, h') \<and> files_of V h' = files_of V h
      \<and> fds_of V h' = (fds_of V h)(fd \<mapsto> (path, k))"
    using conjunct1 [OF s] by (auto split: prod.splits)
  show "\<exists>h'. p_lseek P fd 0 SEEK_END h = (int (length c), h') \<and> files_of V h' = files_of V h
      \<and> fds_of V h' = (fds_of V h)(fd \<mapsto> (path, length c))"
    using conjunct2 [OF s] by (auto split: prod.splits)
qed

lemma posix_transfer:
  assumes "posix_files P V" and "fds_of V h fd = Some (path, pos)" and "files_of V h path = Some c"
  shows "\<exists>h'. p_read P fd n h = (Some (take n (drop pos c)), h') \<and> files_of V h' = files_of V h
      \<and> fds_of V h' = (fds_of V h)(fd \<mapsto> (path, pos + length (take n (drop pos c))))"
    and "\<exists>h'. p_write P fd bs h = (int (length bs), h') \<and> files_of V h' = (files_of V h)(path \<mapsto> if bs = [] then c else overwrite pos bs c)
      \<and> fds_of V h' = (fds_of V h)(fd \<mapsto> (path, pos + length bs))"
proof -
  have "transfers P V" using assms(1) by (simp add: posix_files_def)
  note t = this [unfolded transfers_def, rule_format, OF assms(2,3)]
  show "\<exists>h'. p_read P fd n h = (Some (take n (drop pos c)), h') \<and> files_of V h' = files_of V h
      \<and> fds_of V h' = (fds_of V h)(fd \<mapsto> (path, pos + length (take n (drop pos c))))"
    using conjunct1 [OF t, rule_format, of n] by (auto split: prod.splits)
  show "\<exists>h'. p_write P fd bs h = (int (length bs), h') \<and> files_of V h' = (files_of V h)(path \<mapsto> if bs = [] then c else overwrite pos bs c)
      \<and> fds_of V h' = (fds_of V h)(fd \<mapsto> (path, pos + length bs))"
    using conjunct2 [OF t, rule_format, of bs] by (auto split: prod.splits)
qed

section \<open>Names of bands\<close>

lemma hex_digit_inj: "a < 16 \<Longrightarrow> b < 16 \<Longrightarrow> hex_digit a = hex_digit b \<longleftrightarrow> a = b"
  by (auto simp: hex_digit_def split: if_splits)

lemma show_hex_inj: "show_hex a = show_hex b \<longleftrightarrow> a = b"
proof (induction a arbitrary: b rule: show_hex.induct)
  case (1 a)
  have ne: "show_hex n \<noteq> []" for n by (simp add: show_hex.simps [of n])
  have c: "show_hex n = (if n < 16 then [hex_digit n] else show_hex (n div 16) @ [hex_digit (n mod 16)])" for n
    by (rule show_hex.simps)
  show ?case
  proof (cases "a < 16 \<or> b < 16")
    case True
    then show ?thesis using ne [of "a div 16"] ne [of "b div 16"] hex_digit_inj [of a b]
      by (auto simp: c [of a] c [of b] Cons_eq_append_conv append_eq_Cons_conv split: if_splits)
  next
    case False
    then have "show_hex (a div 16) = show_hex (b div 16) \<longleftrightarrow> a div 16 = b div 16" using "1.IH" by simp
    then have "show_hex a = show_hex b \<longleftrightarrow> a div 16 = b div 16 \<and> a mod 16 = b mod 16"
      using False hex_digit_inj [of "a mod 16" "b mod 16"] by (simp add: c [of a] c [of b])
    also have "\<dots> \<longleftrightarrow> a = b" by (metis div_mult_mod_eq)
    finally show ?thesis .
  qed
qed

lemma show_hex_length: "n < 16 ^ k \<Longrightarrow> 0 < k \<Longrightarrow> length (show_hex n) \<le> k"
proof (induction n arbitrary: k rule: show_hex.induct)
  case (1 n)
  show ?case
  proof (cases "n < 16")
    case True
    then show ?thesis using 1 by (simp add: show_hex.simps [of n])
  next
    case False
    obtain j where k: "k = Suc j" using 1(3) by (cases k) auto
    then have j: "0 < j" using False 1(2) by (cases j) simp_all
    have "n div 16 < 16 ^ j" using 1(2) k by (simp add: less_mult_imp_div_less mult.commute)
    then show ?thesis using 1(1) [OF False _ j] False k by (simp add: show_hex.simps [of n])
  qed
qed

lemma size_t_id: "0 \<le> x \<Longrightarrow> x < 2 ^ 64 \<Longrightarrow> size_t x = nat x"
  by (simp add: size_t_def)

lemma size_t_int: "n < 2 ^ 64 \<Longrightarrow> size_t (int n) = n"
  by (simp add: size_t_def)

lemma band_path_inj:
  "0 \<le> a \<Longrightarrow> a < 2 ^ 64 \<Longrightarrow> 0 \<le> b \<Longrightarrow> b < 2 ^ 64 \<Longrightarrow> band_path dir a = band_path dir b \<longleftrightarrow> a = b"
  by (simp add: band_path_def show_hex_inj size_t_id eq_nat_nat_iff)

lemma band_path_length: "length (band_path dir band) \<le> length dir + 17"
proof -
  have "size_t band < 16 ^ 16" by (simp add: size_t_def nat_less_iff)
  then show ?thesis using show_hex_length [of "size_t band" 16] by (simp add: band_path_def)
qed

section \<open>The disk as a row of bytes\<close>

definition file_byte :: "(string \<Rightarrow> u8 list option) \<Rightarrow> string \<Rightarrow> nat \<Rightarrow> u8" where
  "file_byte fs p i = (case fs p of None \<Rightarrow> 0 | Some c \<Rightarrow> if i < length c then c ! i else 0)"

definition bundle_byte :: "'h fs_view \<Rightarrow> disk_sparsebundle \<Rightarrow> 'h \<Rightarrow> int \<Rightarrow> u8" where
  "bundle_byte V D h i =
     file_byte (files_of V h) (band_path (band_dir D) (i div band_size D)) (nat (i mod band_size D))"

text \<open>A writable disk whose open band, if there is one, is a file of the host that has at most the size that
  the disk takes it to have; and the disks that know the size of their open band.\<close>

definition band_is_open :: "'h fs_view \<Rightarrow> disk_sparsebundle \<Rightarrow> 'h \<Rightarrow> int \<Rightarrow> bool" where
  "band_is_open V D h band \<longleftrightarrow> band_cur D = band \<and> band_fd D \<ge> 0
     \<and> (\<exists>c pos. files_of V h (band_path (band_dir D) band) = Some c
          \<and> fds_of V h (band_fd D) = Some (band_path (band_dir D) band, pos) \<and> int (length c) \<le> band_alloc D \<and> band_alloc D \<le> band_size D)"

definition alloc_exact :: "'h fs_view \<Rightarrow> disk_sparsebundle \<Rightarrow> 'h \<Rightarrow> bool" where
  "alloc_exact V D h \<longleftrightarrow> band_cur D = -1
     \<or> (\<exists>c. files_of V h (band_path (band_dir D) (band_cur D)) = Some c \<and> band_alloc D = int (length c))"

definition bands_fit :: "'h fs_view \<Rightarrow> disk_sparsebundle \<Rightarrow> 'h \<Rightarrow> bool" where
  "bands_fit V D h \<longleftrightarrow> (\<forall>band c. files_of V h (band_path (band_dir D) band) = Some c \<longrightarrow> int (length c) \<le> band_size D)"

definition bundle_ok :: "'h posix \<Rightarrow> 'h fs_view \<Rightarrow> disk_sparsebundle \<Rightarrow> 'h \<Rightarrow> bool" where
  "bundle_ok P V D h \<longleftrightarrow> posix_files P V \<and> \<not> bundle_read_only D \<and> 0 < band_size D \<and> band_size D < 2 ^ 62
     \<and> total_size D < 2 ^ 62 \<and> length (band_dir D) + 17 < PATH_MAX \<and> bands_fit V D h
     \<and> (if band_cur D = -1 then band_fd D = -1 else 0 \<le> band_cur D \<and> band_is_open V D h (band_cur D))"

definition same_disk :: "disk_sparsebundle \<Rightarrow> disk_sparsebundle \<Rightarrow> bool" where
  "same_disk D D' \<longleftrightarrow> band_size D' = band_size D \<and> total_size D' = total_size D \<and> band_dir D' = band_dir D
     \<and> bundle_read_only D' = bundle_read_only D \<and> token_fd D' = token_fd D"

lemma same_disk_refl: "same_disk D D"
  by (simp add: same_disk_def)

lemma same_disk_trans: "same_disk D D' \<Longrightarrow> same_disk D' D'' \<Longrightarrow> same_disk D D''"
  by (simp add: same_disk_def)

text \<open>Opening a band: a missing file is created when asked for, and nothing else of the files changes.\<close>

lemma open_band_opens:
  assumes ok: "bundle_ok P V D h" and band: "0 \<le> band"
  obtains ret h1 D1 where "open_band P band cr (h, D) = (ret, h1, D1)" and "same_disk D D1" and "bundle_ok P V D1 h1"
    and "files_of V h1 = (if cr \<and> files_of V h (band_path (band_dir D) band) = None
           then (files_of V h)(band_path (band_dir D) band \<mapsto> []) else files_of V h)"
    and "ret = (if files_of V h (band_path (band_dir D) band) = None \<and> \<not> cr then OPEN_NOENT else OPEN_OK)"
    and "ret = OPEN_OK \<Longrightarrow> band_is_open V D1 h1 band"
    and "alloc_exact V D h \<Longrightarrow> alloc_exact V D1 h1"
proof -
  let ?p = "band_path (band_dir D) band"
  have P: "posix_files P V" and ro: "\<not> bundle_read_only D" and fits: "\<not> PATH_MAX \<le> length ?p"
    using ok band_path_length [of "band_dir D" band] by (simp_all add: bundle_ok_def)
  show thesis
  proof (cases "band_cur D = band")
    case True
    then have o: "band_is_open V D h band" using ok band by (simp add: bundle_ok_def split: if_splits)
    then have "files_of V h ?p \<noteq> None" by (auto simp: band_is_open_def)
    then show thesis using that [of OPEN_OK h D] True ok o same_disk_refl by (auto simp: open_band_def)
  next
    case other: False
    define h0 where "h0 = (if band_fd D \<noteq> -1 then p_close P (band_fd D) h else h)"
    have f0: "files_of V h0 = files_of V h" by (simp add: h0_def posix_close [OF P])
    show thesis
    proof (cases "files_of V h ?p = None \<and> \<not> cr")
      case True
      obtain h1 where h1: "p_open P ?p O_RDWR False h0 = (-1, h1)" "errno_of P h1 = ENOENT" "same_view V h0 h1"
        using posix_open_missing [OF P, of h0 ?p O_RDWR] True f0 by auto
      let ?D1 = "D\<lparr>band_alloc := -1, band_cur := -1, band_fd := -1\<rparr>"
      have "open_band P band cr (h, D) = (OPEN_NOENT, h1, ?D1)"
        using other fits True ro h1 by (simp add: open_band_def Let_def h0_def [symmetric])
      moreover have "same_disk D ?D1" by (auto simp: same_disk_def)
      moreover have "files_of V h1 = files_of V h" using h1(3) f0 by (simp add: same_view_def)
      then have "bundle_ok P V ?D1 h1" using ok by (simp add: bundle_ok_def bands_fit_def)
      moreover have "alloc_exact V ?D1 h1" by (simp add: alloc_exact_def)
      ultimately show thesis using that [of OPEN_NOENT h1 ?D1] True \<open>files_of V h1 = files_of V h\<close> by auto
    next
      case False
      obtain fd h1 where h1: "p_open P ?p O_RDWR cr h0 = (fd, h1)" "fd \<ge> 0"
          "fds_of V h1 = (fds_of V h0)(fd \<mapsto> (?p, 0))"
          "files_of V h1 = (files_of V h0)(?p \<mapsto> case files_of V h0 ?p of None \<Rightarrow> [] | Some c \<Rightarrow> c)"
        using posix_open [OF P, of h0 ?p cr O_RDWR] False f0 by auto
      define c where "c = (case files_of V h ?p of None \<Rightarrow> [] | Some c \<Rightarrow> c)"
      obtain h2 where h2: "p_lseek P fd 0 SEEK_END h1 = (int (length c), h2)" "files_of V h2 = files_of V h1"
          "fds_of V h2 = (fds_of V h1)(fd \<mapsto> (?p, length c))"
        using posix_seek(2) [OF P, of h1 fd ?p 0 c] h1(3,4) f0 by (auto simp: c_def)
      let ?D1 = "D\<lparr>band_alloc := int (length c), band_cur := band, band_fd := fd\<rparr>"
      have "open_band P band cr (h, D) = (OPEN_OK, h2, ?D1)"
        using other fits ro h1(1,2) h2(1) by (simp add: open_band_def Let_def h0_def [symmetric])
      moreover have "same_disk D ?D1" by (auto simp: same_disk_def)
      moreover have f2: "files_of V h2 = (if cr \<and> files_of V h ?p = None then (files_of V h)(?p \<mapsto> []) else files_of V h)"
        using False by (auto simp: h2(2) h1(4) f0 split: option.splits)
      moreover have c2: "files_of V h2 ?p = Some c" by (simp add: h2(2) h1(4) f0 c_def)
      moreover have "int (length c) \<le> band_size D"
        using ok False by (auto simp: c_def bundle_ok_def bands_fit_def split: option.splits)
      moreover have o: "band_is_open V ?D1 h2 band"
        using h1(2) c2 calculation(5) by (auto simp: band_is_open_def h2(3))
      moreover have "alloc_exact V ?D1 h2" using c2 by (simp add: alloc_exact_def)
      moreover have "bundle_ok P V ?D1 h2"
      proof -
        have "bands_fit V ?D1 h2" using ok by (auto simp: bands_fit_def bundle_ok_def f2)
        then show ?thesis using ok o band by (simp add: bundle_ok_def)
      qed
      ultimately show thesis using that [of OPEN_OK h2 ?D1] False by auto
    qed
  qed
qed

section \<open>One transfer\<close>

lemma length_put_buf: "i + length bs \<le> length buf \<Longrightarrow> length (put_buf i bs buf) = length buf"
  by (simp add: put_buf_def)

lemma nth_put_buf:
  assumes "i + length bs \<le> length buf" and "j < length buf"
  shows "put_buf i bs buf ! j = (if i \<le> j \<and> j < i + length bs then bs ! (j - i) else buf ! j)"
  using assms by (auto simp: put_buf_def nth_append min_def)

lemma length_overwrite: "length (overwrite k bs c) = max (length c) (k + length bs)"
  by (auto simp: overwrite_def max_def min_def)

lemma nth_overwrite:
  "i < length (overwrite k bs c) \<Longrightarrow> overwrite k bs c ! i =
     (if k \<le> i \<and> i < k + length bs then bs ! (i - k) else if i < length c then c ! i else 0)"
  by (auto simp: overwrite_def nth_append min_def length_overwrite not_less)

text \<open>Reading fills the buffer with the bytes of the band, whether the file has them or not.\<close>

definition reads_bytes :: "'h fs_view \<Rightarrow> nat \<Rightarrow> int \<Rightarrow> nat \<Rightarrow> 'h bundle_st \<Rightarrow> 'h bundle_st \<Rightarrow> bool" where
  "reads_bytes V b off l st st' \<longleftrightarrow> (case (st, st') of ((h, D, buf), (h', D', buf')) \<Rightarrow>
     same_disk D D' \<and> files_of V h' = files_of V h \<and> length buf' = length buf
     \<and> (\<forall>j < length buf. buf' ! j = (if b \<le> j \<and> j < b + l then bundle_byte V D h (off + int (j - b)) else buf ! j)))"

lemma band_read_reads:
  assumes ok: "bundle_ok P V D h" and exact: "alloc_exact V D h" and band: "0 \<le> band"
    and seg: "int start + int seg \<le> band_size D" "b + seg \<le> length buf" "0 < seg"
  shows "\<exists>h1 D1 buf1. band_read P b band start seg (h, D, buf) = (int seg, h1, D1, buf1) \<and> bundle_ok P V D1 h1
     \<and> alloc_exact V D1 h1
     \<and> reads_bytes V b (band * band_size D + int start) seg (h, D, buf) (h1, D1, buf1)"
proof -
  let ?p = "band_path (band_dir D) band"
  obtain ret h1 D1 where o: "open_band P band False (h, D) = (ret, h1, D1)" "same_disk D D1" "bundle_ok P V D1 h1"
      "files_of V h1 = files_of V h" "ret = (if files_of V h ?p = None then OPEN_NOENT else OPEN_OK)"
      "ret = OPEN_OK \<Longrightarrow> band_is_open V D1 h1 band" "alloc_exact V D1 h1"
    using open_band_opens [OF ok band, of False] exact by auto
  have P: "posix_files P V" using ok by (simp add: bundle_ok_def)
  have byte: "bundle_byte V D h (band * band_size D + int start + int (j - b)) = file_byte (files_of V h) ?p (start + (j - b))"
    if "b \<le> j" "j < b + seg" for j
  proof -
    have "0 \<le> int (start + (j - b))" "int (start + (j - b)) < band_size D" using seg that by linarith+
    then have "(band * band_size D + int start + int (j - b)) div band_size D = band"
      "(band * band_size D + int start + int (j - b)) mod band_size D = int (start + (j - b))"
      by (simp_all add: add.assoc div_pos_pos_trivial)
    then show ?thesis by (simp add: bundle_byte_def nat_int_add)
  qed
  have zero: "reads_bytes V b (band * band_size D + int start) seg (h, D, buf) (h2, D1, put_buf (b + want) (replicate (seg - want) 0) buf1)"
    if files: "files_of V h2 = files_of V h" and want: "want \<le> seg" and len1: "length buf1 = length buf"
      and got: "\<And>j. j < length buf \<Longrightarrow> j < b + want \<or> b + seg \<le> j \<Longrightarrow>
         buf1 ! j = (if b \<le> j \<and> j < b + want then file_byte (files_of V h) ?p (start + (j - b)) else buf ! j)"
      and rest: "\<And>i. want \<le> i \<Longrightarrow> i < seg \<Longrightarrow> file_byte (files_of V h) ?p (start + i) = 0"
    for h2 want buf1
  proof -
    have fits: "b + want + length (replicate (seg - want) (0 :: u8)) \<le> length buf1" using want len1 seg by simp
    have "put_buf (b + want) (replicate (seg - want) 0) buf1 ! j =
        (if b \<le> j \<and> j < b + seg then bundle_byte V D h (band * band_size D + int start + int (j - b)) else buf ! j)"
      if j: "j < length buf" for j
    proof (cases "b + want \<le> j \<and> j < b + seg")
      case True
      then have "put_buf (b + want) (replicate (seg - want) 0) buf1 ! j = replicate (seg - want) 0 ! (j - (b + want))"
        using nth_put_buf [OF fits, of j] j len1 want by simp
      also have "\<dots> = 0" using True by (intro nth_replicate) linarith
      finally show ?thesis
        using True byte [of j] rest [of "j - b"] le_diff_conv2 [of b j want] less_diff_conv2 [of b j seg] by (simp add: add.commute)
    next
      case False
      then have "put_buf (b + want) (replicate (seg - want) 0) buf1 ! j = buf1 ! j"
        using nth_put_buf [OF fits, of j] j len1 want by auto
      then show ?thesis using False byte [of j] want got [OF j] by auto
    qed
    then show ?thesis using o(2) files len1 length_put_buf [OF fits] by (simp add: reads_bytes_def)
  qed
  show ?thesis
  proof (cases "ret = OPEN_OK")
    case True
    then obtain c pos where c: "files_of V h1 ?p = Some c" "fds_of V h1 (band_fd D1) = Some (?p, pos)"
        "band_alloc D1 = int (length c)"
      using o(6,2,7) band by (auto simp: band_is_open_def same_disk_def alloc_exact_def)
    have "int (length c) \<le> band_size D" using ok c(1) o(4) by (simp add: bundle_ok_def bands_fit_def)
    then have alloc: "size_t (band_alloc D1) = length c" using ok by (simp add: c(3) size_t_int bundle_ok_def)
    define want where "want = (if start \<ge> length c then 0 else min seg (length c - start))"
    have want: "want \<le> seg" "start + want \<le> length c \<or> want = 0" "start + want \<ge> length c \<or> want = seg"
      by (auto simp: want_def)
    show ?thesis
    proof (cases "want = 0")
      case True
      then have le: "length c \<le> start" using seg by (auto simp: want_def split: if_splits)
      have "band_read P b band start seg (h, D, buf) =
          (int seg, h1, D1, put_buf (b + want) (replicate (seg - want) 0) buf)"
        using o(1) \<open>ret = OPEN_OK\<close> alloc le True by (simp add: band_read_def Let_def)
      moreover have "reads_bytes V b (band * band_size D + int start) seg (h, D, buf)
          (h1, D1, put_buf (b + want) (replicate (seg - want) 0) buf)"
        using c(1) o(4) True le by (intro zero) (auto simp: file_byte_def)
      ultimately show ?thesis using o(3,7) by blast
    next
      case False
      obtain h2 where h2: "p_lseek P (band_fd D1) (int start) SEEK_SET h1 = (int start, h2)" "files_of V h2 = files_of V h1"
          "fds_of V h2 = (fds_of V h1)(band_fd D1 \<mapsto> (?p, start))"
        using posix_seek(1) [OF P c(2,1)] by blast
      have "fds_of V h2 (band_fd D1) = Some (?p, start)" "files_of V h2 ?p = Some c" using h2 c by simp_all
      from posix_transfer(1) [OF P this, of want] obtain h3 where
        h3: "p_read P (band_fd D1) want h2 = (Some (take want (drop start c)), h3)" "files_of V h3 = files_of V h2"
          "fds_of V h3 = (fds_of V h2)(band_fd D1 \<mapsto> (?p, start + length (take want (drop start c))))"
        by blast
      let ?got = "take want (drop start c)"
      have len: "length ?got = want" using want False by auto
      have small: "want < 2 ^ 64" using \<open>int (length c) \<le> band_size D\<close> want(2) False ok by (auto simp: bundle_ok_def)
      have fits: "b + length ?got \<le> length buf" using len want(1) seg by simp
      have "band_read P b band start seg (h, D, buf) =
          (int seg, h3, D1, put_buf (b + want) (replicate (seg - want) 0) (put_buf b ?got buf))"
      proof -
        have w: "\<not> length c \<le> start" "min seg (length c - start) = want" using False by (auto simp: want_def split: if_splits)
        show ?thesis
          using o(1) \<open>ret = OPEN_OK\<close> False h2(1) h3(1) size_t_int [OF small] len
          by (simp add: band_read_def alloc w del: length_take min_less_iff_conj)
      qed
      moreover have "reads_bytes V b (band * band_size D + int start) seg (h, D, buf)
          (h3, D1, put_buf (b + want) (replicate (seg - want) 0) (put_buf b ?got buf))"
      proof (rule zero)
        show "files_of V h3 = files_of V h" using h3 h2 o(4) by simp
        show "put_buf b ?got buf ! j = (if b \<le> j \<and> j < b + want then file_byte (files_of V h) ?p (start + (j - b)) else buf ! j)"
          if "j < length buf" for j
          using nth_put_buf [OF fits that] len want c(1) o(4) False by (auto simp: file_byte_def)
        show "file_byte (files_of V h) ?p (start + i) = 0" if "want \<le> i" "i < seg" for i
          using want that c(1) o(4) by (auto simp: file_byte_def)
      qed (use want length_put_buf [OF fits] in simp_all)
      moreover have "alloc_exact V D1 h3" using o(7) h2 h3 by (simp add: alloc_exact_def)
      moreover have "bundle_ok P V D1 h3"
        using o(3,6) \<open>ret = OPEN_OK\<close> band o(2) h2 h3 c
        by (auto simp: bundle_ok_def bands_fit_def band_is_open_def same_disk_def)
      ultimately show ?thesis by blast
    qed
  next
    case False
    then have none: "ret = OPEN_NOENT" "files_of V h ?p = None" using o(5) by (auto split: if_splits)
    have "band_read P b band start seg (h, D, buf) = (int seg, h1, D1, put_buf (b + 0) (replicate (seg - 0) 0) buf)"
      using o(1) none by (simp add: band_read_def Let_def)
    moreover have "reads_bytes V b (band * band_size D + int start) seg (h, D, buf)
        (h1, D1, put_buf (b + 0) (replicate (seg - 0) 0) buf)"
      using o(4) none by (intro zero) (auto simp: file_byte_def)
    ultimately show ?thesis using o(3,7) by blast
  qed
qed

text \<open>Writing changes the bytes of the segment to those of the buffer and no others. A file appears only for
  a band that gets a byte other than zero.\<close>

lemma nonzero_part_Nil: "nonzero_part [] = 0"
  by (simp add: nonzero_part_def)

lemma nonzero_part_snoc: "nonzero_part (bs @ [x]) = (if x = 0 then nonzero_part bs else Suc (length bs))"
  by (simp add: nonzero_part_def)

lemma nonzero_part_le: "nonzero_part bs \<le> length bs"
  by (metis length_dropWhile_le length_rev nonzero_part_def)

lemma nonzero_part_zero: "nonzero_part bs \<le> i \<Longrightarrow> i < length bs \<Longrightarrow> bs ! i = 0"
proof (induction bs rule: rev_induct)
  case (snoc x bs)
  then show ?case by (cases "i = length bs") (auto simp: nonzero_part_snoc nth_append split: if_splits)
qed simp

definition writes_bytes :: "'h fs_view \<Rightarrow> nat \<Rightarrow> int \<Rightarrow> nat \<Rightarrow> 'h bundle_st \<Rightarrow> 'h bundle_st \<Rightarrow> bool" where
  "writes_bytes V b off l st st' \<longleftrightarrow> (case (st, st') of ((h, D, buf), (h', D', buf')) \<Rightarrow>
     same_disk D D' \<and> buf' = buf
     \<and> (\<forall>i. 0 \<le> i \<longrightarrow> i < 2 ^ 62 \<longrightarrow> bundle_byte V D' h' i =
           (if off \<le> i \<and> i < off + int l then buf ! (b + nat (i - off)) else bundle_byte V D h i)))"

text \<open>From the bytes of one file to the bytes of the disk.\<close>

lemma writes_bytes_file:
  assumes size: "0 < band_size D" and same: "same_disk D D1" and band: "0 \<le> band" "band < 2 ^ 62"
    and seg: "int start + int seg \<le> band_size D"
    and others: "\<And>p. p \<noteq> band_path (band_dir D) band \<Longrightarrow> files_of V h1 p = files_of V h p"
    and here: "\<And>k. int k < band_size D \<Longrightarrow> file_byte (files_of V h1) (band_path (band_dir D) band) k =
      (if start \<le> k \<and> k < start + seg then buf ! (b + (k - start))
       else file_byte (files_of V h) (band_path (band_dir D) band) k)"
  shows "writes_bytes V b (band * band_size D + int start) seg (h, D, buf) (h1, D1, buf)"
proof -
  let ?B = "band_size D" and ?off = "band * band_size D + int start"
  have "bundle_byte V D1 h1 i =
      (if ?off \<le> i \<and> i < ?off + int seg then buf ! (b + nat (i - ?off)) else bundle_byte V D h i)"
    if i: "0 \<le> i" "i < 2 ^ 62" for i
  proof (cases "i div ?B = band")
    case True
    define k where "k = nat (i mod ?B)"
    have k: "int k = i mod ?B" "int k < ?B" using size by (simp_all add: k_def)
    have ik: "i = band * ?B + int k" using True k(1) by (metis div_mult_mod_eq)
    have km: "nat (int k mod ?B) = k" using k(2) by simp
    have "nat (i - ?off) = k - start" unfolding ik by simp
    then show ?thesis using here [OF k(2)] True same
      by (auto simp: bundle_byte_def same_disk_def ik km)
  next
    case False
    have "0 \<le> i div ?B" "i div ?B \<le> i" using i size zdiv_mono2 [of i 1 ?B] by (simp_all add: pos_imp_zdiv_nonneg_iff)
    then have "band_path (band_dir D) (i div ?B) \<noteq> band_path (band_dir D) band"
      using False i band band_path_inj [of "i div ?B" band "band_dir D"] by simp
    then have same_byte: "bundle_byte V D1 h1 i = bundle_byte V D h i"
      using others same by (simp add: bundle_byte_def same_disk_def file_byte_def)
    have "\<not> (?off \<le> i \<and> i < ?off + int seg)"
    proof
      assume "?off \<le> i \<and> i < ?off + int seg"
      then have "0 \<le> i - band * ?B" "i - band * ?B < ?B" using seg by linarith+
      then have "i div ?B = band" by (intro int_div_pos_eq [where r = "i - band * ?B"]) (simp_all add: mult.commute)
      then show False using False by simp
    qed
    then show ?thesis using same_byte by auto
  qed
  then show ?thesis using same by (simp add: writes_bytes_def)
qed

lemma band_write_writes:
  assumes ok: "bundle_ok P V D h" and band: "0 \<le> band" "band < 2 ^ 62"
    and seg: "int start + int seg \<le> band_size D" "b + seg \<le> length buf" "0 < seg"
  shows "\<exists>h1 D1. band_write P b band start seg (h, D, buf) = (int seg, h1, D1, buf) \<and> bundle_ok P V D1 h1
     \<and> writes_bytes V b (band * band_size D + int start) seg (h, D, buf) (h1, D1, buf)"
proof -
  let ?p = "band_path (band_dir D) band"
  define dat where "dat = take seg (drop b buf)"
  define nz where "nz = nonzero_part dat"
  have dat: "length dat = seg" "\<And>i. i < seg \<Longrightarrow> dat ! i = buf ! (b + i)" using seg by (simp_all add: dat_def)
  have nz: "nz \<le> seg" "\<And>i. nz \<le> i \<Longrightarrow> i < seg \<Longrightarrow> dat ! i = 0"
    using nonzero_part_le [of dat] nonzero_part_zero [of dat] dat(1) by (simp_all add: nz_def)
  have P: "posix_files P V" and size: "0 < band_size D" "band_size D < 2 ^ 62" using ok by (simp_all add: bundle_ok_def)
  obtain ret h1 D1 where o: "open_band P band (nz \<noteq> 0) (h, D) = (ret, h1, D1)" "same_disk D D1" "bundle_ok P V D1 h1"
      "files_of V h1 = (if nz \<noteq> 0 \<and> files_of V h ?p = None then (files_of V h)(?p \<mapsto> []) else files_of V h)"
      "ret = (if files_of V h ?p = None \<and> \<not> nz \<noteq> 0 then OPEN_NOENT else OPEN_OK)"
      "ret = OPEN_OK \<Longrightarrow> band_is_open V D1 h1 band"
    by (rule open_band_opens [OF ok band(1), of "nz \<noteq> 0"]) (rule that; assumption)
  have D1: "band_dir D1 = band_dir D" "band_size D1 = band_size D" using o(2) by (simp_all add: same_disk_def)
  show ?thesis
  proof (cases "ret = OPEN_OK")
    case False
    then have none: "ret = OPEN_NOENT" "files_of V h ?p = None" "nz = 0" using o(5) by (auto split: if_splits)
    have "band_write P b band start seg (h, D, buf) = (int seg, h1, D1, buf)"
      using o(1) none by (simp add: band_write_def Let_def dat_def [symmetric] nz_def [symmetric])
    moreover have "writes_bytes V b (band * band_size D + int start) seg (h, D, buf) (h1, D1, buf)"
    proof (rule writes_bytes_file [OF size(1) o(2) band seg(1)])
      fix k
      have "buf ! (b + (k - start)) = 0" if "start \<le> k" "k < start + seg"
        using nz(2) [of "k - start"] dat(2) [of "k - start"] none(3) that by auto
      then show "file_byte (files_of V h1) ?p k =
          (if start \<le> k \<and> k < start + seg then buf ! (b + (k - start)) else file_byte (files_of V h) ?p k)"
        using o(4) none by (simp add: file_byte_def)
    qed (use o(4) none in simp)
    ultimately show ?thesis using o(3) by blast
  next
    case True
    then obtain c pos where c: "files_of V h1 ?p = Some c" "fds_of V h1 (band_fd D1) = Some (?p, pos)"
        "int (length c) \<le> band_alloc D1" "band_alloc D1 \<le> band_size D" "band_cur D1 = band" "0 \<le> band_fd D1"
      using o(6) D1 by (auto simp: band_is_open_def)
    define alloc where "alloc = size_t (band_alloc D1)"
    have alloc: "int alloc = band_alloc D1" "length c \<le> alloc" using c(3,4) size by (simp_all add: alloc_def size_t_id)
    define want where "want = max nz (min (if start \<ge> alloc then 0 else alloc - start) seg)"
    have want: "want \<le> seg" "nz \<le> want" "start + want \<ge> alloc \<or> want = seg \<or> start \<ge> alloc" using nz(1) by (auto simp: want_def)
    have "int want \<le> int seg" "int seg \<le> band_size D" using want(1) seg(1) by simp_all
    then have small: "want < 2 ^ 64" using size(2) by simp
    obtain h2 where h2: "p_lseek P (band_fd D1) (int start) SEEK_SET h1 = (int start, h2)" "files_of V h2 = files_of V h1"
        "fds_of V h2 = (fds_of V h1)(band_fd D1 \<mapsto> (?p, start))"
      using posix_seek(1) [OF P c(2,1)] by blast
    have "fds_of V h2 (band_fd D1) = Some (?p, start)" "files_of V h2 ?p = Some c" using h2 c by simp_all
    from posix_transfer(2) [OF P this, of "take want dat"] obtain h3 where
      h3: "p_write P (band_fd D1) (take want dat) h2 = (int want, h3)"
        "files_of V h3 = (files_of V h2)(?p \<mapsto> if take want dat = [] then c else overwrite start (take want dat) c)"
        "fds_of V h3 = (fds_of V h2)(band_fd D1 \<mapsto> (?p, start + want))"
      using want(1) dat(1) by auto
    define c3 where "c3 = (if take want dat = [] then c else overwrite start (take want dat) c)"
    define D2 where "D2 = D1\<lparr>band_alloc := max (band_alloc D1) (int start + int want)\<rparr>"
    have run: "band_write P b band start seg (h, D, buf) = (int seg, h3, D2, buf)"
      using o(1) True h2(1) h3(1) size_t_int [OF small]
      by (simp add: band_write_def Let_def dat_def [symmetric] nz_def [symmetric] alloc_def [symmetric] want_def [symmetric] D2_def
        del: max_less_iff_conj min_less_iff_conj)
    have f3: "files_of V h3 = (files_of V h1)(?p \<mapsto> c3)" by (simp add: h3(2) h2(2) c3_def)
    have len3: "int (length c3) \<le> max (band_alloc D1) (int start + int want)"
      using alloc want(1) dat(1) by (auto simp: c3_def length_overwrite)
    have fit: "max (band_alloc D1) (int start + int want) \<le> band_size D" using c(4) want(1) seg(1) by linarith
    have "bundle_ok P V D2 h3"
    proof -
      have "band_is_open V D2 h3 band"
        using c(5,6) len3 fit by (auto simp: band_is_open_def D2_def D1 f3 h3(3))
      moreover have "bands_fit V D2 h3"
        using o(3) len3 fit by (auto simp: bands_fit_def bundle_ok_def D2_def D1 f3)
      ultimately show ?thesis using o(3) c(5) band by (simp add: bundle_ok_def D2_def)
    qed
    moreover have "writes_bytes V b (band * band_size D + int start) seg (h, D, buf) (h3, D2, buf)"
    proof (rule writes_bytes_file [OF size(1) _ band seg(1)])
      show "same_disk D D2" using o(2) by (simp add: D2_def same_disk_def)
      show "files_of V h3 p = files_of V h p" if "p \<noteq> ?p" for p using that by (simp add: f3 o(4))
      fix k
      have old: "file_byte (files_of V h) ?p k = (if k < length c then c ! k else 0)"
        using c(1) o(4) by (auto simp: file_byte_def split: if_splits)
      have "file_byte (files_of V h3) ?p k =
          (if start \<le> k \<and> k < start + want then dat ! (k - start) else if k < length c then c ! k else 0)"
        using want(1) dat(1) nth_overwrite [of k start "take want dat" c]
        by (auto simp: f3 file_byte_def c3_def length_overwrite)
      also have "\<dots> = (if start \<le> k \<and> k < start + seg then buf ! (b + (k - start)) else file_byte (files_of V h) ?p k)"
        unfolding old
      proof (cases "start \<le> k \<and> k < start + seg \<and> \<not> k < start + want")
        case True
        then have "dat ! (k - start) = 0" "\<not> k < length c" using want(2,3) nz(2) [of "k - start"] alloc(2) by auto
        then show "(if start \<le> k \<and> k < start + want then dat ! (k - start) else if k < length c then c ! k else 0) =
            (if start \<le> k \<and> k < start + seg then buf ! (b + (k - start)) else if k < length c then c ! k else 0)"
          using True dat(2) [of "k - start"] by auto
      qed (use want(1) dat(2) [of "k - start"] in auto)
      finally show "file_byte (files_of V h3) ?p k =
          (if start \<le> k \<and> k < start + seg then buf ! (b + (k - start)) else file_byte (files_of V h) ?p k)" .
    qed
    ultimately show ?thesis using run by blast
  qed
qed

section \<open>A transfer over several bands\<close>

lemma sdiv_nonneg: "0 \<le> x \<Longrightarrow> 0 < y \<Longrightarrow> x sdiv y = x div y" for x y :: int
  by (cases "x = 0") (simp_all add: signed_divide_int_def)

lemma smod_nonneg: "0 \<le> x \<Longrightarrow> 0 < y \<Longrightarrow> x smod y = x mod y" for x y :: int
  by (cases "x = 0") (simp_all add: signed_modulo_int_def)

text \<open>What a function for one band promises is what the loop over the bands does: a transfer that goes through
  piece by piece, where \<open>ok\<close> is kept and \<open>moved\<close> says what the pieces so far have done.\<close>

locale band_transfer =
  fixes f :: "'h band_func" and ok :: "'h bundle_st \<Rightarrow> bool"
    and moved :: "nat \<Rightarrow> int \<Rightarrow> nat \<Rightarrow> 'h bundle_st \<Rightarrow> 'h bundle_st \<Rightarrow> bool"
    and bsize :: int and tsize :: int and blen :: nat
  assumes disk: "ok (h, D, buf) \<Longrightarrow>
      band_size D = bsize \<and> total_size D = tsize \<and> 0 < bsize \<and> bsize < 2 ^ 62 \<and> tsize < 2 ^ 62"
    and step: "ok st \<Longrightarrow> 0 \<le> band \<Longrightarrow> band < 2 ^ 62 \<Longrightarrow> 0 < seg \<Longrightarrow> int start + int seg \<le> bsize \<Longrightarrow> b + seg \<le> blen \<Longrightarrow>
      \<exists>st1. f b band start seg st = (int seg, st1) \<and> ok st1 \<and> moved b (band * bsize + int start) seg st st1"
    and none: "moved b off 0 st st"
    and more: "moved b off l st st1 \<Longrightarrow> moved (b + l) (off + int l) m st1 st2 \<Longrightarrow> moved b off (l + m) st st2"
begin

lemma loop:
  assumes "ok st" and "0 \<le> offset" and "offset + int len \<le> tsize" and "b + len \<le> blen" and "band = offset div bsize"
  shows "\<exists>st'. band_loop f b band offset len fin st = Some (fin + len, st') \<and> ok st' \<and> moved b offset len st st'"
  using assms
proof (induction len arbitrary: b band offset fin st rule: less_induct)
  case (less len)
  obtain h D buf where st: "st = (h, D, buf)" by (cases st) auto
  have D: "band_size D = bsize" "total_size D = tsize" and sizes: "0 < bsize" "bsize < 2 ^ 62" "tsize < 2 ^ 62"
    using disk less.prems(1) st by simp_all
  show ?case
  proof (cases "len = 0")
    case True
    then show ?thesis using none [of b offset st] less.prems(1) by (simp add: band_loop.simps st)
  next
    case False
    define start where "start = nat (offset mod bsize)"
    define seg where "seg = min (nat (bsize - int start)) len"
    have s: "int start = offset mod bsize" "int start < bsize" using sizes by (simp_all add: start_def)
    have seg: "0 < seg" "seg \<le> len" "int start + int seg \<le> bsize" using s(2) False by (auto simp: seg_def)
    have sm: "size_t (offset smod band_size D) = start" "size_t (band_size D - int start) = nat (bsize - int start)"
      using smod_nonneg [OF less.prems(2) sizes(1)] sizes(2) s D size_t_int [of start] size_t_id [of "bsize - int start"]
      by simp_all
    have place: "band * bsize + int start = offset" using less.prems(5) s(1) by simp
    have "offset < tsize" using less.prems(3) False by simp
    have "band \<le> offset" using less.prems(2,5) sizes(1) zdiv_mono2 [of offset 1 bsize] by simp
    then have band: "0 \<le> band" "band < 2 ^ 62"
      using less.prems(2,5) sizes \<open>offset < tsize\<close> by (simp_all add: pos_imp_zdiv_nonneg_iff)
    obtain st1 where st1: "f b band start seg st = (int seg, st1)" "ok st1" "moved b offset seg st st1"
      using step [OF less.prems(1) band seg(1,3), of b] place less.prems(4) seg(2) by auto
    have "int seg \<le> bsize" using seg(3) by simp
    then have small: "size_t (int seg) = seg" using sizes(2) by (intro size_t_int) simp
    have "band_loop f b band offset len fin st =
        band_loop f (b + seg) (band + 1) (offset + int seg) (len - seg) (fin + seg) st1"
      using False \<open>offset < tsize\<close> D sm st1(1) small seg(1) st
      by (subst band_loop.simps) (simp add: seg_def [symmetric] Let_def del: min_less_iff_conj)
    moreover have "\<exists>st'. band_loop f (b + seg) (band + 1) (offset + int seg) (len - seg) (fin + seg) st1 =
        Some (fin + seg + (len - seg), st') \<and> ok st' \<and> moved (b + seg) (offset + int seg) (len - seg) st1 st'"
    proof (cases "seg = len")
      case True
      then show ?thesis using none st1(2) by (cases st1) (simp add: band_loop.simps)
    next
      case False
      then have "int seg = bsize - int start" using s(2) by (simp add: seg_def min_def split: if_splits)
      then have "offset + int seg = (band + 1) * bsize" using place by (simp add: algebra_simps)
      then have "band + 1 = (offset + int seg) div bsize" using sizes(1) by simp
      then show ?thesis using less.IH [of "len - seg" st1 "offset + int seg" "b + seg" "band + 1" "fin + seg"]
          st1(2) seg less.prems(2-4) by simp
    qed
    ultimately obtain st' where st': "band_loop f b band offset len fin st = Some (fin + len, st')" "ok st'"
        "moved (b + seg) (offset + int seg) (len - seg) st1 st'" using seg(2) by auto
    have "moved b offset (seg + (len - seg)) st st'"
      using st1(3) st'(3) by (rule more)
    then show ?thesis using st' seg(2) by auto
  qed
qed

lemma transfer:
  assumes "ok st" and "0 \<le> offset" and "offset + int len \<le> tsize" and "len \<le> blen"
  shows "\<exists>st'. band_do f offset len st = Some (len, st') \<and> ok st' \<and> moved 0 offset len st st'"
proof -
  obtain h D buf where st: "st = (h, D, buf)" by (cases st) auto
  have D: "band_size D = bsize" and sizes: "0 < bsize" using disk assms(1) st by simp_all
  have "offset sdiv bsize = offset div bsize" using assms(2) sizes by (rule sdiv_nonneg)
  then show ?thesis
    using loop [OF assms(1-3), of 0 "offset div bsize" 0] assms(4) D sizes st by (simp add: band_do_def)
qed

end

lemma bundle_byte_cong:
  "same_disk D D' \<Longrightarrow> files_of V h' = files_of V h \<Longrightarrow> bundle_byte V D' h' i = bundle_byte V D h i"
  by (simp add: bundle_byte_def same_disk_def)

lemma reads_bytes_none: "reads_bytes V b off 0 st st"
  by (cases st) (auto simp: reads_bytes_def same_disk_refl)

lemma reads_bytes_more:
  assumes "reads_bytes V b off l st st1" and "reads_bytes V (b + l) (off + int l) m st1 st2"
  shows "reads_bytes V b off (l + m) st st2"
proof -
  obtain h D buf h1 D1 buf1 h2 D2 buf2 where st: "st = (h, D, buf)" "st1 = (h1, D1, buf1)" "st2 = (h2, D2, buf2)"
    by (cases st, cases st1, cases st2) auto
  have "same_disk D D1" "same_disk D1 D2" "files_of V h1 = files_of V h" "files_of V h2 = files_of V h1"
      "length buf1 = length buf" "length buf2 = length buf1"
    using assms by (simp_all add: reads_bytes_def st)
  moreover have "buf2 ! j = (if b \<le> j \<and> j < b + (l + m) then bundle_byte V D h (off + int (j - b)) else buf ! j)"
    if j: "j < length buf" for j
  proof -
    have "buf1 ! j = (if b \<le> j \<and> j < b + l then bundle_byte V D h (off + int (j - b)) else buf ! j)"
      using assms(1) j by (simp add: reads_bytes_def st)
    moreover have "buf2 ! j = (if b + l \<le> j \<and> j < b + l + m
        then bundle_byte V D h (off + int l + int (j - (b + l))) else buf1 ! j)"
      using assms j bundle_byte_cong [of D D1 V h1 h] by (auto simp: reads_bytes_def st)
    ultimately show ?thesis by (auto simp: of_nat_diff algebra_simps)
  qed
  ultimately show ?thesis using same_disk_trans by (auto simp: reads_bytes_def st)
qed

lemma writes_bytes_none: "writes_bytes V b off 0 st st"
  by (cases st) (auto simp: writes_bytes_def same_disk_refl)

lemma writes_bytes_more:
  assumes "writes_bytes V b off l st st1" and "writes_bytes V (b + l) (off + int l) m st1 st2"
  shows "writes_bytes V b off (l + m) st st2"
proof -
  obtain h D buf h1 D1 buf1 h2 D2 buf2 where st: "st = (h, D, buf)" "st1 = (h1, D1, buf1)" "st2 = (h2, D2, buf2)"
    by (cases st, cases st1, cases st2) auto
  have "same_disk D D1" "same_disk D1 D2" "buf1 = buf" "buf2 = buf"
    using assms by (simp_all add: writes_bytes_def st)
  moreover have "bundle_byte V D2 h2 i =
      (if off \<le> i \<and> i < off + int (l + m) then buf ! (b + nat (i - off)) else bundle_byte V D h i)"
    if i: "0 \<le> i" "i < 2 ^ 62" for i
  proof -
    have "bundle_byte V D1 h1 i = (if off \<le> i \<and> i < off + int l then buf ! (b + nat (i - off)) else bundle_byte V D h i)"
      using assms(1) i by (simp add: writes_bytes_def st)
    moreover have "bundle_byte V D2 h2 i = (if off + int l \<le> i \<and> i < off + int l + int m
        then buf ! (b + l + nat (i - (off + int l))) else bundle_byte V D1 h1 i)"
      using assms(2) i \<open>buf1 = buf\<close> by (simp add: writes_bytes_def st)
    moreover have "nat (i - off) = l + nat (i - (off + int l))" if "off + int l \<le> i" using that by simp
    ultimately show ?thesis by (auto simp: add.assoc)
  qed
  ultimately show ?thesis using same_disk_trans by (auto simp: writes_bytes_def st)
qed

text \<open>The states in which a read goes through, and those in which a write does.\<close>

definition read_ok :: "'h posix \<Rightarrow> 'h fs_view \<Rightarrow> disk_sparsebundle \<Rightarrow> nat \<Rightarrow> 'h bundle_st \<Rightarrow> bool" where
  "read_ok P V D0 n st \<longleftrightarrow> (case st of (h, D, buf) \<Rightarrow>
     bundle_ok P V D h \<and> alloc_exact V D h \<and> same_disk D0 D \<and> length buf = n)"

definition write_ok :: "'h posix \<Rightarrow> 'h fs_view \<Rightarrow> disk_sparsebundle \<Rightarrow> nat \<Rightarrow> 'h bundle_st \<Rightarrow> bool" where
  "write_ok P V D0 n st \<longleftrightarrow> (case st of (h, D, buf) \<Rightarrow> bundle_ok P V D h \<and> same_disk D0 D \<and> length buf = n)"

interpretation reading: band_transfer "band_read P" "read_ok P V D0 n" "reads_bytes V" "band_size D0" "total_size D0" n
  for P :: "'h posix" and V D0 n
proof (unfold_locales, goal_cases)
  case (1 h D buf)
  then show ?case by (simp add: read_ok_def bundle_ok_def same_disk_def)
next
  case (2 st band seg start b)
  then obtain h D buf where st: "st = (h, D, buf)" "bundle_ok P V D h" "alloc_exact V D h" "same_disk D0 D" "length buf = n"
    by (cases st) (simp add: read_ok_def)
  have D: "band_size D0 = band_size D" using st(4) by (simp add: same_disk_def)
  obtain h1 D1 buf1 where r: "band_read P b band start seg st = (int seg, h1, D1, buf1)" "bundle_ok P V D1 h1"
      "alloc_exact V D1 h1" "reads_bytes V b (band * band_size D + int start) seg st (h1, D1, buf1)"
    using band_read_reads [OF st(2,3) 2(2), of start seg b buf] 2 D st(1,5) by auto
  have "read_ok P V D0 n (h1, D1, buf1)"
    using r(2-4) st same_disk_trans by (auto simp: read_ok_def reads_bytes_def)
  then show ?case using r D by auto
next
  case 3
  show ?case by (rule reads_bytes_none)
next
  case 4
  then show ?case by (rule reads_bytes_more)
qed

interpretation writing: band_transfer "band_write P" "write_ok P V D0 n" "writes_bytes V" "band_size D0" "total_size D0" n
  for P :: "'h posix" and V D0 n
proof (unfold_locales, goal_cases)
  case (1 h D buf)
  then show ?case by (simp add: write_ok_def bundle_ok_def same_disk_def)
next
  case (2 st band seg start b)
  then obtain h D buf where st: "st = (h, D, buf)" "bundle_ok P V D h" "same_disk D0 D" "length buf = n"
    by (cases st) (simp add: write_ok_def)
  have D: "band_size D0 = band_size D" using st(3) by (simp add: same_disk_def)
  obtain h1 D1 where r: "band_write P b band start seg st = (int seg, h1, D1, buf)" "bundle_ok P V D1 h1"
      "writes_bytes V b (band * band_size D + int start) seg st (h1, D1, buf)"
    using band_write_writes [OF st(2) 2(2,3), of start seg b buf] 2 D st(1,4) by auto
  have "write_ok P V D0 n (h1, D1, buf)"
    using r(2,3) st same_disk_trans by (auto simp: write_ok_def writes_bytes_def)
  then show ?case using r D by auto
next
  case 3
  show ?case by (rule writes_bytes_none)
next
  case 4
  then show ?case by (rule writes_bytes_more)
qed

section \<open>The disk as a whole\<close>

text \<open>A disk that has just been opened or reopened.\<close>

lemma bundle_ok_new:
  assumes "bundle_ok P V D h" and "files_of V h' = files_of V h"
  shows "bundle_ok P V (new_sparsebundle (band_dir D) fd False (band_size D) (total_size D)) h'"
  using assms by (simp add: bundle_ok_def bands_fit_def new_sparsebundle_def)

lemma alloc_exact_new: "alloc_exact V (new_sparsebundle dir fd ro bsize tsize) h"
  by (simp add: alloc_exact_def new_sparsebundle_def)

lemma delete_sparsebundle_files: "posix_files P V \<Longrightarrow> files_of V (delete_sparsebundle P D h) = files_of V h"
  by (simp add: delete_sparsebundle_def posix_close)

lemma bundle_byte_new:
  "bundle_byte V (new_sparsebundle (band_dir D) fd ro (band_size D) tsize) h i = bundle_byte V D h i"
  by (simp add: bundle_byte_def new_sparsebundle_def)

text \<open>Reading yields the bytes of the disk; writing makes the bytes those of the buffer.\<close>

lemma bundle_read_bytes:
  assumes "bundle_ok P V D h" and "alloc_exact V D h"
    and "0 \<le> offset" and "offset + int len \<le> total_size D" and "len \<le> length buf"
  shows "\<exists>h1 D1 buf1. bundle_read P offset len (h, D, buf) = Some (len, h1, D1, buf1)
     \<and> bundle_ok P V D1 h1 \<and> alloc_exact V D1 h1
     \<and> take len buf1 = map (\<lambda>j. bundle_byte V D h (offset + int j)) [0..<len]"
proof -
  have "read_ok P V D (length buf) (h, D, buf)" using assms(1,2) same_disk_refl by (simp add: read_ok_def)
  from reading.transfer [OF this assms(3-5)] obtain h1 D1 buf1 where
    t: "bundle_read P offset len (h, D, buf) = Some (len, h1, D1, buf1)" "read_ok P V D (length buf) (h1, D1, buf1)"
      "reads_bytes V 0 offset len (h, D, buf) (h1, D1, buf1)"
    unfolding bundle_read_def by (auto simp: split_paired_Ex)
  have "take len buf1 = map (\<lambda>j. bundle_byte V D h (offset + int j)) [0..<len]"
    using t(3) assms(5) by (intro nth_equalityI) (simp_all add: reads_bytes_def)
  then show ?thesis using t(1,2) by (simp add: read_ok_def)
qed

lemma bundle_write_bytes:
  assumes "bundle_ok P V D h" and "0 \<le> offset" and "offset + int len \<le> total_size D" and "len \<le> length buf"
  shows "\<exists>h1 D1. bundle_write P offset len (h, D, buf) = Some (len, h1, D1, buf)
     \<and> bundle_ok P V D1 h1 \<and> same_disk D D1
     \<and> (\<forall>i. 0 \<le> i \<longrightarrow> i < 2 ^ 62 \<longrightarrow> bundle_byte V D1 h1 i =
           (if offset \<le> i \<and> i < offset + int len then buf ! nat (i - offset) else bundle_byte V D h i))"
proof -
  have "write_ok P V D (length buf) (h, D, buf)" using assms(1) same_disk_refl by (simp add: write_ok_def)
  from writing.transfer [OF this assms(2-4)] show ?thesis
    unfolding bundle_write_def by (auto simp: split_paired_Ex writes_bytes_def write_ok_def)
qed

text \<open>C8. A sparse bundle is a disk. Writing goes through for any range within the disk, however many bands it
  covers and whether they have files or not; and once the disk has been closed and opened again, reading any
  range yields the written bytes where the ranges meet and the earlier bytes elsewhere, those that no file has
  being zero.\<close>

theorem bundle_write_then_read:
  assumes ok: "bundle_ok P V D h"
    and write_range: "0 \<le> woff" "woff + int wlen \<le> total_size D" "wlen \<le> length dat"
    and read_range: "0 \<le> roff" "roff + int rlen \<le> total_size D" "rlen \<le> length buf"
  shows "\<exists>h1 D1 h2 D2 buf2. bundle_write P woff wlen (h, D, dat) = Some (wlen, h1, D1, dat)
     \<and> bundle_read P roff rlen (delete_sparsebundle P D1 h1,
         new_sparsebundle (band_dir D) fd False (band_size D) (total_size D), buf) = Some (rlen, h2, D2, buf2)
     \<and> take rlen buf2 = map (\<lambda>j. if woff \<le> roff + int j \<and> roff + int j < woff + int wlen
         then dat ! nat (roff + int j - woff) else bundle_byte V D h (roff + int j)) [0..<rlen]"
proof -
  let ?D = "new_sparsebundle (band_dir D) fd False (band_size D) (total_size D)"
  obtain h1 D1 where w: "bundle_write P woff wlen (h, D, dat) = Some (wlen, h1, D1, dat)" "bundle_ok P V D1 h1"
      "same_disk D D1" "\<And>i. 0 \<le> i \<Longrightarrow> i < 2 ^ 62 \<Longrightarrow> bundle_byte V D1 h1 i =
        (if woff \<le> i \<and> i < woff + int wlen then dat ! nat (i - woff) else bundle_byte V D h i)"
    using bundle_write_bytes [OF ok write_range] by auto
  let ?h = "delete_sparsebundle P D1 h1"
  have D1: "?D = new_sparsebundle (band_dir D1) fd False (band_size D1) (total_size D1)"
    using w(3) by (simp add: same_disk_def)
  have P: "posix_files P V" and total: "total_size D < 2 ^ 62" using ok by (simp_all add: bundle_ok_def)
  have files: "files_of V ?h = files_of V h1" by (rule delete_sparsebundle_files [OF P])
  have "bundle_ok P V ?D ?h" unfolding D1 by (rule bundle_ok_new [OF w(2) files])
  from bundle_read_bytes [OF this alloc_exact_new read_range(1) _ read_range(3)] read_range(2)
  obtain h2 D2 buf2 where r: "bundle_read P roff rlen (?h, ?D, buf) = Some (rlen, h2, D2, buf2)"
      "take rlen buf2 = map (\<lambda>j. bundle_byte V ?D ?h (roff + int j)) [0..<rlen]"
    by (auto simp: new_sparsebundle_def)
  have "bundle_byte V ?D ?h (roff + int j) = (if woff \<le> roff + int j \<and> roff + int j < woff + int wlen
      then dat ! nat (roff + int j - woff) else bundle_byte V D h (roff + int j))" if "j < rlen" for j
  proof -
    have "bundle_byte V ?D ?h (roff + int j) = bundle_byte V D1 h1 (roff + int j)"
      unfolding D1 bundle_byte_new using files by (simp add: bundle_byte_def)
    then show ?thesis using w(4) [of "roff + int j"] that read_range total by simp
  qed
  then have "take rlen buf2 = map (\<lambda>j. if woff \<le> roff + int j \<and> roff + int j < woff + int wlen
         then dat ! nat (roff + int j - woff) else bundle_byte V D h (roff + int j)) [0..<rlen]"
    unfolding r(2) by (intro map_cong) simp_all
  then show ?thesis using w(1) r(1) by blast
qed

text \<open>A host that keeps its files in memory.\<close>

type_synonym memory_fs = "(string \<Rightarrow> u8 list option) \<times> (string \<times> nat) option list"

definition mem_fd :: "memory_fs \<Rightarrow> int \<Rightarrow> (string \<times> nat) option" where
  "mem_fd h fd = (if 0 \<le> fd \<and> nat fd < length (snd h) then snd h ! nat fd else None)"

definition mem_seek :: "int \<Rightarrow> int \<Rightarrow> whence \<Rightarrow> memory_fs \<Rightarrow> int \<times> memory_fs" where
  "mem_seek fd n whence h =
     (case mem_fd h fd of None \<Rightarrow> (-1, h) | Some (p, pos) \<Rightarrow>
        let k = (if whence = SEEK_END then length (case fst h p of None \<Rightarrow> [] | Some c \<Rightarrow> c) + nat n else nat n)
        in (int k, fst h, (snd h)[nat fd := Some (p, k)]))"

definition mem_write :: "int \<Rightarrow> u8 list \<Rightarrow> memory_fs \<Rightarrow> int \<times> memory_fs" where
  "mem_write fd bs h =
     (case mem_fd h fd of None \<Rightarrow> (-1, h) | Some (p, pos) \<Rightarrow>
        (case fst h p of None \<Rightarrow> (-1, h) | Some c \<Rightarrow>
           (int (length bs), (fst h)(p \<mapsto> if bs = [] then c else overwrite pos bs c),
            (snd h)[nat fd := Some (p, pos + length bs)])))"

definition mem_read :: "int \<Rightarrow> nat \<Rightarrow> memory_fs \<Rightarrow> u8 list option \<times> memory_fs" where
  "mem_read fd n h =
     (case mem_fd h fd of None \<Rightarrow> (None, h) | Some (p, pos) \<Rightarrow>
        (case fst h p of None \<Rightarrow> (None, h) | Some c \<Rightarrow>
           (Some (take n (drop pos c)), fst h, (snd h)[nat fd := Some (p, pos + length (take n (drop pos c)))])))"

definition mem_open :: "string \<Rightarrow> open_flag \<Rightarrow> bool \<Rightarrow> memory_fs \<Rightarrow> int \<times> memory_fs" where
  "mem_open p fl cr h =
     (if fst h p = None \<and> \<not> cr then (-1, h)
      else (int (length (snd h)), (fst h)(p \<mapsto> case fst h p of None \<Rightarrow> [] | Some c \<Rightarrow> c), snd h @ [Some (p, 0)]))"

definition mem_close :: "int \<Rightarrow> memory_fs \<Rightarrow> memory_fs" where
  "mem_close fd h = (if 0 \<le> fd then (fst h, (snd h)[nat fd := None]) else h)"

definition memory_posix :: "memory_fs posix" where
  "memory_posix =
     \<lparr>errno_of = \<lambda>h. ENOENT, p_open = mem_open, p_creat = \<lambda>p h. (-1, h), p_close = mem_close,
      p_read = mem_read, p_write = mem_write, p_lseek = mem_seek,
      p_ftruncate = \<lambda>fd n h. (-1, h), p_stat = \<lambda>p h. (None, h), p_fstat = \<lambda>fd h. (None, h),
      p_writable = \<lambda>p h. (True, h), p_exists = \<lambda>p h. (fst h p \<noteq> None, h),
      p_mkdir = \<lambda>p h. (-1, h), p_rmdir = \<lambda>p h. (-1, h), p_remove = \<lambda>p h. (-1, h),
      p_rename = \<lambda>p q h. (-1, h), p_listdir = \<lambda>p h. (None, h)\<rparr>"

definition memory_view :: "memory_fs fs_view" where
  "memory_view = \<lparr>files_of = fst, fds_of = mem_fd\<rparr>"

lemma mem_fd_set: "mem_fd (a, b) fd = Some x \<Longrightarrow> mem_fd (fs, b[nat fd := Some y]) = (mem_fd (a, b))(fd \<mapsto> y)"
  by (rule ext) (auto simp: mem_fd_def nth_list_update eq_nat_nat_iff split: if_splits)

lemma memory_posix_files: "posix_files memory_posix memory_view"
proof -
  have "opens memory_posix memory_view"
    by (auto simp: opens_def memory_posix_def memory_view_def mem_open_def same_view_def mem_fd_def nth_append fun_eq_iff)
  moreover have "closes memory_posix memory_view"
    by (auto simp: closes_def memory_posix_def memory_view_def mem_close_def mem_fd_def nth_list_update eq_nat_nat_iff fun_eq_iff)
  moreover have "seeks memory_posix memory_view"
    by (auto simp: seeks_def memory_posix_def memory_view_def mem_seek_def mem_fd_set Let_def)
  moreover have "transfers memory_posix memory_view"
    by (auto simp: transfers_def memory_posix_def memory_view_def mem_read_def mem_write_def mem_fd_set)
  ultimately show ?thesis by (simp add: posix_files_def)
qed

definition demo_bundle :: disk_sparsebundle where
  "demo_bundle = new_sparsebundle ''/d/bands'' 9 False 4 12"

lemma demo_bundle_ok: "bundle_ok memory_posix memory_view demo_bundle (Map.empty, [])"
  using memory_posix_files
  by (simp add: bundle_ok_def demo_bundle_def new_sparsebundle_def bands_fit_def memory_view_def)

lemma bundle_write_then_read_witness:
  "\<exists>h1 D1 h2 D2 buf2. bundle_write memory_posix 2 5 ((Map.empty, []), demo_bundle, [1, 0, 2, 3, 4]) =
       Some (5, h1, D1, [1, 0, 2, 3, 4])
     \<and> bundle_read memory_posix 0 8 (delete_sparsebundle memory_posix D1 h1,
         new_sparsebundle ''/d/bands'' 9 False 4 12, replicate 8 7) = Some (8, h2, D2, buf2)
     \<and> take 8 buf2 = [0, 0, 1, 0, 2, 3, 4, 0]"
  using bundle_write_then_read [OF demo_bundle_ok, of 2 5 "[1, 0, 2, 3, 4]" 0 8 "replicate 8 7" 9]
  by (simp add: upt_rec demo_bundle_def new_sparsebundle_def bundle_byte_def file_byte_def memory_view_def numeral_nat)


definition demo_open_fs :: memory_fs where
  "demo_open_fs = ([''/d/bands/0'' \<mapsto> [5]], [Some (''/d/bands/0'', 1)])"

definition demo_open_bundle :: disk_sparsebundle where
  "demo_open_bundle = demo_bundle\<lparr>band_cur := 0, band_fd := 0, band_alloc := 1\<rparr>"

lemma demo_band_path: "band_path ''/d/bands'' 0 = ''/d/bands/0''"
  by code_simp

lemma demo_open_bundle_ok:
  "bundle_ok memory_posix memory_view demo_open_bundle demo_open_fs"
  "alloc_exact memory_view demo_open_bundle demo_open_fs"
  using memory_posix_files demo_band_path
  by (simp_all add: bundle_ok_def alloc_exact_def demo_open_bundle_def demo_open_fs_def demo_bundle_def new_sparsebundle_def
    bands_fit_def band_is_open_def memory_view_def mem_fd_def)


section \<open>Opening the disk\<close>

text \<open>A disk that the factory has opened for writing satisfies what the transfers need, if the sizes that its
  property list states are sensible, and its first size is the band size, its second the total size. A disk
  whose token can only be read is read-only.\<close>

lemma sparsebundle_factory_valid:
  assumes run: "sparsebundle_factory P load path ro h = (DISK_VALID D, h')"
  shows "\<exists>pl. load (path @ ''/Info.plist'') h = Some pl \<and> plist_int ''band-size'' pl = Some (band_size D)
     \<and> plist_int ''size'' pl = Some (total_size D) \<and> band_dir D = path @ ''/bands''
     \<and> band_cur D = -1 \<and> band_fd D = -1 \<and> token_fd D \<noteq> -1
     \<and> open_token P (path @ ''/token'') ro h = ((token_fd D, bundle_read_only D), h')"
  using run
  by (auto simp: sparsebundle_factory_def new_sparsebundle_def Let_def split: if_splits option.splits prod.splits)

lemma open_token_read_only:
  "open_token P path ro h = ((fd, ro'), h') \<Longrightarrow> fd \<noteq> -1 \<Longrightarrow>
     ro' = (ro \<or> fst (p_open P path O_RDWR False h) = -1)"
  by (auto simp: open_token_def try_open_def Let_def split: prod.splits if_splits)

lemma sparsebundle_factory_ok:
  assumes "sparsebundle_factory P load path ro h = (DISK_VALID D, h')" and "\<not> bundle_read_only D"
    and "posix_files P V" and "0 < band_size D" "band_size D < 2 ^ 62" "total_size D < 2 ^ 62"
    and "length path + 23 < PATH_MAX" and "bands_fit V D h'"
  shows "bundle_ok P V D h' \<and> alloc_exact V D h'"
  using sparsebundle_factory_valid [OF assms(1)] assms(2-)
  by (auto simp: bundle_ok_def alloc_exact_def)

end
