(* ===== verification/CodePatches.thy ===== *)
theory CodePatches
  imports MacosUtil
begin

text \<open>
  What the patches of the ROM and of resources share: the instructions that are written, the search
  for a byte string, and the relation that a step changes Mac memory only in a given set of addresses.
  With direct addressing a host pointer into the ROM or the RAM stands for a Mac address.
\<close>

section \<open>Instructions\<close>

abbreviation (input) M68K_NOP :: u16 where "M68K_NOP \<equiv> 0x4e71"
abbreviation (input) M68K_RTS :: u16 where "M68K_RTS \<equiv> 0x4e75"
abbreviation (input) M68K_JMP :: u16 where "M68K_JMP \<equiv> 0x4ef9"
abbreviation (input) M68K_JMP_A0 :: u16 where "M68K_JMP_A0 \<equiv> 0x4ed0"
abbreviation (input) M68K_JSR_A0 :: u16 where "M68K_JSR_A0 \<equiv> 0x4e90"

abbreviation (input) M68K_EMUL_BREAK :: u16 where "M68K_EMUL_BREAK \<equiv> 0x7101"
abbreviation (input) M68K_EMUL_OP_SHUTDOWN :: u16 where "M68K_EMUL_OP_SHUTDOWN \<equiv> 0x7102"
abbreviation (input) M68K_EMUL_OP_RESET :: u16 where "M68K_EMUL_OP_RESET \<equiv> 0x7103"
abbreviation (input) M68K_EMUL_OP_CLKNOMEM :: u16 where "M68K_EMUL_OP_CLKNOMEM \<equiv> 0x7104"
abbreviation (input) M68K_EMUL_OP_READ_XPRAM :: u16 where "M68K_EMUL_OP_READ_XPRAM \<equiv> 0x7105"
abbreviation (input) M68K_EMUL_OP_READ_XPRAM2 :: u16 where "M68K_EMUL_OP_READ_XPRAM2 \<equiv> 0x7106"
abbreviation (input) M68K_EMUL_OP_PATCH_BOOT_GLOBS :: u16 where "M68K_EMUL_OP_PATCH_BOOT_GLOBS \<equiv> 0x7107"
abbreviation (input) M68K_EMUL_OP_FIX_BOOTSTACK :: u16 where "M68K_EMUL_OP_FIX_BOOTSTACK \<equiv> 0x7108"
abbreviation (input) M68K_EMUL_OP_FIX_MEMSIZE :: u16 where "M68K_EMUL_OP_FIX_MEMSIZE \<equiv> 0x7109"
abbreviation (input) M68K_EMUL_OP_INSTALL_DRIVERS :: u16 where "M68K_EMUL_OP_INSTALL_DRIVERS \<equiv> 0x710a"
abbreviation (input) M68K_EMUL_OP_SERD :: u16 where "M68K_EMUL_OP_SERD \<equiv> 0x710b"
abbreviation (input) M68K_EMUL_OP_SONY_OPEN :: u16 where "M68K_EMUL_OP_SONY_OPEN \<equiv> 0x710c"
abbreviation (input) M68K_EMUL_OP_SONY_PRIME :: u16 where "M68K_EMUL_OP_SONY_PRIME \<equiv> 0x710d"
abbreviation (input) M68K_EMUL_OP_SONY_CONTROL :: u16 where "M68K_EMUL_OP_SONY_CONTROL \<equiv> 0x710e"
abbreviation (input) M68K_EMUL_OP_SONY_STATUS :: u16 where "M68K_EMUL_OP_SONY_STATUS \<equiv> 0x710f"
abbreviation (input) M68K_EMUL_OP_DISK_OPEN :: u16 where "M68K_EMUL_OP_DISK_OPEN \<equiv> 0x7110"
abbreviation (input) M68K_EMUL_OP_DISK_PRIME :: u16 where "M68K_EMUL_OP_DISK_PRIME \<equiv> 0x7111"
abbreviation (input) M68K_EMUL_OP_DISK_CONTROL :: u16 where "M68K_EMUL_OP_DISK_CONTROL \<equiv> 0x7112"
abbreviation (input) M68K_EMUL_OP_DISK_STATUS :: u16 where "M68K_EMUL_OP_DISK_STATUS \<equiv> 0x7113"
abbreviation (input) M68K_EMUL_OP_CDROM_OPEN :: u16 where "M68K_EMUL_OP_CDROM_OPEN \<equiv> 0x7114"
abbreviation (input) M68K_EMUL_OP_CDROM_PRIME :: u16 where "M68K_EMUL_OP_CDROM_PRIME \<equiv> 0x7115"
abbreviation (input) M68K_EMUL_OP_CDROM_CONTROL :: u16 where "M68K_EMUL_OP_CDROM_CONTROL \<equiv> 0x7116"
abbreviation (input) M68K_EMUL_OP_CDROM_STATUS :: u16 where "M68K_EMUL_OP_CDROM_STATUS \<equiv> 0x7117"
abbreviation (input) M68K_EMUL_OP_SERIAL_OPEN :: u16 where "M68K_EMUL_OP_SERIAL_OPEN \<equiv> 0x711b"
abbreviation (input) M68K_EMUL_OP_SERIAL_PRIME :: u16 where "M68K_EMUL_OP_SERIAL_PRIME \<equiv> 0x711c"
abbreviation (input) M68K_EMUL_OP_SERIAL_CONTROL :: u16 where "M68K_EMUL_OP_SERIAL_CONTROL \<equiv> 0x711d"
abbreviation (input) M68K_EMUL_OP_SERIAL_STATUS :: u16 where "M68K_EMUL_OP_SERIAL_STATUS \<equiv> 0x711e"
abbreviation (input) M68K_EMUL_OP_SERIAL_CLOSE :: u16 where "M68K_EMUL_OP_SERIAL_CLOSE \<equiv> 0x711f"
abbreviation (input) M68K_EMUL_OP_ADBOP :: u16 where "M68K_EMUL_OP_ADBOP \<equiv> 0x7123"
abbreviation (input) M68K_EMUL_OP_INSTIME :: u16 where "M68K_EMUL_OP_INSTIME \<equiv> 0x7124"
abbreviation (input) M68K_EMUL_OP_RMVTIME :: u16 where "M68K_EMUL_OP_RMVTIME \<equiv> 0x7125"
abbreviation (input) M68K_EMUL_OP_PRIMETIME :: u16 where "M68K_EMUL_OP_PRIMETIME \<equiv> 0x7126"
abbreviation (input) M68K_EMUL_OP_MICROSECONDS :: u16 where "M68K_EMUL_OP_MICROSECONDS \<equiv> 0x7127"
abbreviation (input) M68K_EMUL_OP_SCSI_DISPATCH :: u16 where "M68K_EMUL_OP_SCSI_DISPATCH \<equiv> 0x7128"
abbreviation (input) M68K_EMUL_OP_IRQ :: u16 where "M68K_EMUL_OP_IRQ \<equiv> 0x7129"
abbreviation (input) M68K_EMUL_OP_PUT_SCRAP :: u16 where "M68K_EMUL_OP_PUT_SCRAP \<equiv> 0x712a"
abbreviation (input) M68K_EMUL_OP_GET_SCRAP :: u16 where "M68K_EMUL_OP_GET_SCRAP \<equiv> 0x712b"
abbreviation (input) M68K_EMUL_OP_CHECKLOAD :: u16 where "M68K_EMUL_OP_CHECKLOAD \<equiv> 0x712c"
abbreviation (input) M68K_EMUL_OP_AUDIO :: u16 where "M68K_EMUL_OP_AUDIO \<equiv> 0x712d"
abbreviation (input) M68K_EMUL_OP_EXTFS_COMM :: u16 where "M68K_EMUL_OP_EXTFS_COMM \<equiv> 0x712e"
abbreviation (input) M68K_EMUL_OP_EXTFS_HFS :: u16 where "M68K_EMUL_OP_EXTFS_HFS \<equiv> 0x712f"
abbreviation (input) M68K_EMUL_OP_BLOCK_MOVE :: u16 where "M68K_EMUL_OP_BLOCK_MOVE \<equiv> 0x7130"
abbreviation (input) M68K_EMUL_OP_SOUNDIN_OPEN :: u16 where "M68K_EMUL_OP_SOUNDIN_OPEN \<equiv> 0x7131"
abbreviation (input) M68K_EMUL_OP_SOUNDIN_PRIME :: u16 where "M68K_EMUL_OP_SOUNDIN_PRIME \<equiv> 0x7132"
abbreviation (input) M68K_EMUL_OP_SOUNDIN_CONTROL :: u16 where "M68K_EMUL_OP_SOUNDIN_CONTROL \<equiv> 0x7133"
abbreviation (input) M68K_EMUL_OP_SOUNDIN_STATUS :: u16 where "M68K_EMUL_OP_SOUNDIN_STATUS \<equiv> 0x7134"
abbreviation (input) M68K_EMUL_OP_SOUNDIN_CLOSE :: u16 where "M68K_EMUL_OP_SOUNDIN_CLOSE \<equiv> 0x7135"
abbreviation (input) M68K_EMUL_OP_DEBUGUTIL :: u16 where "M68K_EMUL_OP_DEBUGUTIL \<equiv> 0x7136"
abbreviation (input) M68K_EMUL_OP_IDLE_TIME :: u16 where "M68K_EMUL_OP_IDLE_TIME \<equiv> 0x7137"

section \<open>Searching and writing\<close>

text \<open>The loop of both searches: the first offset below a limit with the bytes, or 0.\<close>

function search_bytes :: "u32 \<Rightarrow> u32 \<Rightarrow> u8 list \<Rightarrow> u32 \<Rightarrow> 'h mac \<Rightarrow> u32" where
  "search_bytes base lim dat ofs s =
     (if ofs < lim
      then if get_bytes s (base + ofs) (length dat) = dat then ofs
           else search_bytes base lim dat (ofs + 1) s
      else 0)"
  by pat_completeness auto

lemma unat_Suc_less: "(a :: u32) < b \<Longrightarrow> unat (a + 1) = Suc (unat a)"
  using unsigned_less [of b, where 'a = nat] by (simp add: unat_word_ariths word_less_nat_alt)

termination search_bytes
  by (relation "measure (\<lambda>(base, lim, dat, ofs, s). unat lim - unat ofs)")
    (auto simp: unat_Suc_less word_less_nat_alt)

declare search_bytes.simps [simp del]

text \<open>Words written at offsets from an address, in the order of the list.\<close>

definition put_at :: "u32 \<Rightarrow> (u32 \<times> u16) list \<Rightarrow> 'h mac \<Rightarrow> 'h mac" where
  "put_at a ws s = fold (\<lambda>(off, w). put16 (a + off) w) ws s"

text \<open>Words written one after the other from an address.\<close>

fun put_words :: "u32 \<Rightarrow> u16 list \<Rightarrow> 'h mac \<Rightarrow> 'h mac" where
  "put_words a [] s = s"
| "put_words a (w # ws) s = put_words (a + 2) ws (put16 a w s)"

section \<open>The first occurrence\<close>

definition occurs :: "u8 list \<Rightarrow> u32 \<Rightarrow> 'h mac \<Rightarrow> bool" where
  "occurs dat a s \<longleftrightarrow> get_bytes s a (length dat) = dat"

lemma search_bytes_cases:
  "ofs \<le> search_bytes base lim dat ofs s \<and> search_bytes base lim dat ofs s < lim \<and>
     occurs dat (base + search_bytes base lim dat ofs s) s \<and>
     (\<forall>i. ofs \<le> i \<and> i < search_bytes base lim dat ofs s \<longrightarrow> \<not> occurs dat (base + i) s)
   \<or> search_bytes base lim dat ofs s = 0 \<and> (\<forall>i. ofs \<le> i \<and> i < lim \<longrightarrow> \<not> occurs dat (base + i) s)"
proof (induction base lim dat ofs s rule: search_bytes.induct)
  case (1 base lim dat ofs s)
  let ?r = "search_bytes base lim dat (ofs + 1) s"
  show ?case
  proof (cases "ofs < lim \<and> \<not> occurs dat (base + ofs) s")
    case False
    then show ?thesis
      by (subst (1 2 3 4 5) search_bytes.simps) (auto simp: occurs_def)
  next
    case True
    have eq: "search_bytes base lim dat ofs s = ?r"
      using True by (subst search_bytes.simps) (simp add: occurs_def)
    have step: "ofs \<le> i \<longleftrightarrow> i = ofs \<or> ofs + 1 \<le> i" for i
      using True unat_Suc_less [of ofs lim] by (auto simp: word_le_nat_alt simp flip: word_unat_eq_iff) (simp add: word_unat_eq_iff)
    show ?thesis
      using 1 True unfolding eq step by (auto simp: occurs_def)
  qed
qed

lemma search_bytes_found:
  assumes "search_bytes base lim dat ofs s \<noteq> 0"
  shows "ofs \<le> search_bytes base lim dat ofs s" "search_bytes base lim dat ofs s < lim"
    "occurs dat (base + search_bytes base lim dat ofs s) s"
  using search_bytes_cases [of ofs base lim dat s] assms by auto

section \<open>Where memory changes\<close>

definition block :: "u32 \<Rightarrow> nat \<Rightarrow> u32 set" where
  "block a n = {x. unat (x - a) < n}"

definition alters :: "u32 set \<Rightarrow> 'h mac \<Rightarrow> 'g mac \<Rightarrow> bool" where
  "alters A s t \<longleftrightarrow> (\<forall>x. x \<notin> A \<longrightarrow> get8 t x = get8 s x)"

lemma alters_refl [simp]: "alters A s s"
  by (simp add: alters_def)

lemma alters_trans: "alters A s t \<Longrightarrow> alters A t u \<Longrightarrow> alters A s u"
  by (simp add: alters_def)

lemma alters_mono: "alters A s t \<Longrightarrow> A \<subseteq> B \<Longrightarrow> alters B s t"
  by (auto simp: alters_def)

lemma alters_host [simp]: "alters A s (t\<lparr>host := h\<rparr>) = alters A s t"
  by (simp add: alters_def get8_def)

lemma alters_put_bytes:
  "length bs = n \<Longrightarrow> n \<le> 2 ^ 32 \<Longrightarrow> block a n \<subseteq> A \<Longrightarrow> alters A s (put_bytes a bs s)"
  by (auto simp: alters_def block_def get8_put_bytes)

lemma alters_put16: "block a 2 \<subseteq> A \<Longrightarrow> alters A s (put16 a w s)"
  unfolding put16_bytes by (rule alters_put_bytes [of _ 2]) simp_all

lemma alters_put32: "block a 4 \<subseteq> A \<Longrightarrow> alters A s (put32 a w s)"
  unfolding put32_bytes by (rule alters_put_bytes [of _ 4]) simp_all

text \<open>A block at an offset that lies inside another.\<close>

lemma block_sub: "unat i + m \<le> n \<Longrightarrow> block (a + i) m \<subseteq> block a n"
proof
  fix x assume i: "unat i + m \<le> n" and x: "x \<in> block (a + i) m"
  have "x - a = (x - (a + i)) + i" by simp
  then have "unat (x - a) \<le> unat (x - (a + i)) + unat i" using unat_add_le by metis
  with i x show "x \<in> block a n" by (simp add: block_def)
qed

lemma alters_put_at:
  "list_all (\<lambda>(off, w). unat off + 2 \<le> n) ws \<Longrightarrow> alters (block a n) s (put_at a ws s)"
proof (induction ws arbitrary: s)
  case (Cons ow ws)
  obtain off w where ow: "ow = (off, w)" by force
  have "alters (block a n) s (put16 (a + off) w s)"
    using Cons.prems by (intro alters_put16 block_sub) (simp add: ow)
  moreover have "alters (block a n) (put16 (a + off) w s) (put_at a ws (put16 (a + off) w s))"
    using Cons by simp
  ultimately show ?case by (simp add: ow put_at_def) (rule alters_trans)
qed (simp add: put_at_def)

lemma host_put_at [simp]: "host (put_at a ws s) = host s"
  by (induction ws arbitrary: s) (auto simp: put_at_def split: prod.splits)

section \<open>Images\<close>

text \<open>A list of byte strings at offsets from an address. When no two of them overlap, all of them are there
  after they have been written one after the other.\<close>

definition put_image :: "u32 \<Rightarrow> (u32 \<times> u8 list) list \<Rightarrow> 'h mac \<Rightarrow> 'h mac" where
  "put_image base img s = fold (\<lambda>(ofs, bs). put_bytes (base + ofs) bs) img s"

definition image_at :: "u32 \<Rightarrow> (u32 \<times> u8 list) list \<Rightarrow> 'h mac \<Rightarrow> bool" where
  "image_at base img s \<longleftrightarrow> list_all (\<lambda>(ofs, bs). get_bytes s (base + ofs) (length bs) = bs) img"

definition extents :: "(u32 \<times> u8 list) list \<Rightarrow> (nat \<times> nat) list" where
  "extents img = map (\<lambda>(ofs, bs). (unat ofs, length bs)) img"

fun no_overlap :: "nat \<Rightarrow> (nat \<times> nat) list \<Rightarrow> bool" where
  "no_overlap lim [] \<longleftrightarrow> True"
| "no_overlap lim ((a, n) # xs) \<longleftrightarrow>
     0 < n \<and> a + n \<le> lim \<and> list_all (\<lambda>(b, m). a + n \<le> b \<or> b + m \<le> a) xs \<and> no_overlap lim xs"

fun words_bytes :: "u16 list \<Rightarrow> u8 list" where
  "words_bytes [] = []"
| "words_bytes (w # ws) = hi8 w # lo8 w # words_bytes ws"

lemma length_words_bytes [simp]: "length (words_bytes ws) = 2 * length ws"
  by (induction ws) simp_all

lemma words_bytes_append [simp]: "words_bytes (xs @ ys) = words_bytes xs @ words_bytes ys"
  by (induction xs) simp_all

lemma put_words_bytes: "put_words a ws s = put_bytes a (words_bytes ws) s"
proof (induction ws arbitrary: a s)
  case (Cons w ws)
  have "put_bytes a ([hi8 w, lo8 w] @ words_bytes ws) s = put_bytes (a + 2) (words_bytes ws) (put16 a w s)"
    unfolding put_bytes_append by (simp add: put16_bytes)
  with Cons show ?case by simp
qed simp

lemma put_image_simps [simp]:
  "put_image base [] s = s"
  "put_image base ((ofs, bs) # img) s = put_image base img (put_bytes (base + ofs) bs s)"
  by (simp_all add: put_image_def)

lemma put_image_append: "put_image base (xs @ ys) s = put_image base ys (put_image base xs s)"
  by (simp add: put_image_def)

lemma put_image_host [simp]:
  "host (put_image base img s) = host s" "calls (put_image base img s) = calls s"
  by (induction img arbitrary: s; force)+

lemma mod_sum_0: "(x + y) mod N = 0 \<Longrightarrow> x < N \<Longrightarrow> y < N \<Longrightarrow> x \<noteq> 0 \<Longrightarrow> x + y = (N :: nat)"
  by (cases "x + y < N") (simp_all add: le_mod_geq)

lemma unat_sub_swap:
  fixes a b :: u32
  assumes "a \<noteq> b"
  shows "unat (a - b) + unat (b - a) = 2 ^ 32"
proof -
  have "(a - b) + (b - a) = 0" by simp
  then have "(unat (a - b) + unat (b - a)) mod 2 ^ 32 = 0"
    using unat_word_ariths(1) [of "a - b" "b - a"] by simp
  moreover have "unat (a - b) < 2 ^ 32" "unat (b - a) < 2 ^ 32"
    using unsigned_less [of "a - b", where 'a = nat] unsigned_less [of "b - a", where 'a = nat] by simp_all
  moreover have "unat (a - b) \<noteq> 0" using assms by (simp add: unat_eq_zero)
  ultimately show ?thesis by (rule mod_sum_0)
qed

lemma sep_ordered:
  assumes "unat (o1 :: u32) + n \<le> unat o2" "unat o2 + m \<le> 2 ^ 32" "0 < n"
  shows "sep (base + o1) n (base + o2) m"
proof -
  have "o1 \<noteq> o2" using assms by auto
  then have "unat (o1 - o2) + unat (o2 - o1) = 2 ^ 32" by (rule unat_sub_swap)
  moreover have "unat (o2 - o1) = unat o2 - unat o1" using assms by (simp add: unat_sub word_le_nat_alt)
  ultimately show ?thesis unfolding sep_def add_diff_cancel_left using assms by (intro conjI; linarith)
qed

lemma sep_offsets:
  assumes "unat o1 + n \<le> unat o2 \<or> unat o2 + m \<le> unat o1"
    and "unat o1 + n \<le> 2 ^ 32" "unat o2 + m \<le> 2 ^ 32" "0 < n" "0 < m"
  shows "sep (base + o1) n (base + o2) m"
  using assms sep_ordered [of o1 n o2 m base] sep_ordered [of o2 m o1 n base] by (auto simp: sep_sym)

text \<open>Bytes apart from an image stay, and so the image is there at the end.\<close>

lemma get_bytes_put_image:
  assumes "no_overlap lim ((unat ofs, n) # extents img)" and "lim \<le> 2 ^ 32"
  shows "get_bytes (put_image base img s) (base + ofs) n = get_bytes s (base + ofs) n"
  using assms
proof (induction img arbitrary: s)
  case (Cons ob img)
  obtain o1 bs where ob: "ob = (o1, bs)" by force
  have here: "0 < n" "unat ofs + n \<le> lim" "0 < length bs" "unat o1 + length bs \<le> lim"
    "unat ofs + n \<le> unat o1 \<or> unat o1 + length bs \<le> unat ofs"
    and rest: "no_overlap lim ((unat ofs, n) # extents img)"
    using Cons.prems(1) by (auto simp: ob extents_def)
  have "sep (base + ofs) n (base + o1) (length bs)"
    by (rule sep_offsets) (use here Cons.prems(2) in linarith)+
  then have "get_bytes (put_bytes (base + o1) bs s) (base + ofs) n = get_bytes s (base + ofs) n"
    using here Cons.prems(2) by (intro get_put_bytes_apart) linarith+
  then show ?case using Cons.IH [OF rest] Cons.prems(2) by (simp add: ob)
qed simp

lemma image_stays:
  assumes "no_overlap lim (extents img)" and "lim \<le> 2 ^ 32"
  shows "image_at base img (put_image base img s)"
  using assms
proof (induction img arbitrary: s)
  case (Cons ob img)
  obtain ofs bs where ob: "ob = (ofs, bs)" by force
  have "unat ofs + length bs \<le> lim" using Cons.prems(1) by (simp add: ob extents_def)
  then have "get_bytes (put_bytes (base + ofs) bs s) (base + ofs) (length bs) = bs"
    using Cons.prems(2) by (intro get_put_bytes) linarith
  moreover have "no_overlap lim ((unat ofs, length bs) # extents img)"
    using Cons.prems(1) by (simp add: ob extents_def)
  ultimately show ?case
    using get_bytes_put_image [of lim ofs "length bs" img base "put_bytes (base + ofs) bs s"] Cons
    by (auto simp: image_at_def ob extents_def)
qed (simp add: image_at_def)

lemma alters_put_image:
  assumes "no_overlap lim (extents img)" and "lim \<le> 2 ^ 32"
  shows "alters (block base lim) s (put_image base img s)"
  using assms
proof (induction img arbitrary: s)
  case (Cons ob img)
  obtain ofs bs where ob: "ob = (ofs, bs)" by force
  have l: "unat ofs + length bs \<le> lim" using Cons.prems(1) by (simp add: ob extents_def)
  have "alters (block base lim) s (put_bytes (base + ofs) bs s)"
    by (rule alters_put_bytes [OF refl]) (use l Cons.prems(2) in \<open>auto intro: block_sub [THEN subsetD]\<close>)
  moreover have "no_overlap lim (extents img)" using Cons.prems(1) by (simp add: ob extents_def)
  ultimately show ?case using Cons by (auto simp: ob intro: alters_trans)
qed simp

end
