(* ===== verification/RomSearch.thy ===== *)
theory RomSearch
  imports CodePatches SlotROM
begin

text \<open>
  The searches of "rom_patches.cpp" in the Mac ROM: for a byte string, for a resource by its type and
  number, and for the routine of a trap in the packed table of trap addresses. The list of resources is
  walked until its end, and the search for a trap goes round until it has met the trap, so both may not
  return: they are partial functions.
\<close>

section \<open>The searches\<close>

definition find_rom_data :: "rom_info \<Rightarrow> u32 \<Rightarrow> u32 \<Rightarrow> u8 list \<Rightarrow> 'h mac \<Rightarrow> u32" where
  "find_rom_data R start fin dat s = search_bytes (ROMBaseMac R) fin dat start s"

text \<open>The loop of find_rom_resource(): the data offset of the first fitting resource from \<open>ptr\<close> on, or 0,
  and the value that is left in the static variable.\<close>

partial_function (option) rsrc_walk :: "rom_info \<Rightarrow> u32 \<Rightarrow> u16 \<Rightarrow> u32 \<Rightarrow> 'h mac \<Rightarrow> (u32 \<times> u32) option" where
  "rsrc_walk R s_type s_id ptr s =
     (let lp = ROMBaseMac R + ptr in
      if get32 s (lp + 16) = s_type \<and> get16 s (lp + 20) = s_id then Some (get32 s (lp + 12), ptr)
      else let ptr1 = get32 s (lp + 8) in
           if ptr1 = 0 then Some (0, ptr1) else rsrc_walk R s_type s_id ptr1 s)"

definition find_rom_resource ::
  "rom_info \<Rightarrow> u32 \<Rightarrow> u16 \<Rightarrow> bool \<Rightarrow> u32 \<Rightarrow> 'h mac \<Rightarrow> (u32 \<times> u32) option" where
  "find_rom_resource R s_type s_id cont rsrc_ptr s =
     (let lp = ROMBaseMac R + get32 s (ROMBaseMac R + 0x1a); x = get32 s lp in
      rsrc_walk R s_type s_id (if \<not> cont then x else get32 s (ROMBaseMac R + rsrc_ptr + 8)) s)"

text \<open>One entry of the trap table at \<open>bp\<close>: unimplemented, an absolute offset, or a distance from the
  previous routine in one or two bytes. \<open>None\<close> is the end of the table.\<close>

definition trap_entry :: "'h mac \<Rightarrow> u32 \<Rightarrow> u32 \<Rightarrow> (bool \<times> u32 \<times> u32) option" where
  "trap_entry s bp ofs =
     (let b = get8 s bp in
      if b = 0x80 then Some (True, ofs, bp + 1)
      else if b = 0xff then
        Some (False, join32 (get8 s (bp + 1)) (get8 s (bp + 2)) (get8 s (bp + 3)) (get8 s (bp + 4)), bp + 5)
      else if b AND 0x80 \<noteq> 0 then
        (let add = push_bit 1 (ucast (b AND 0x7f)) :: u16 in
         if add = 0 then None else Some (False, ofs + scast add, bp + 1))
      else
        (let add = push_bit 1 (join16 b (get8 s (bp + 1))) in
         if add = 0 then None else Some (False, ofs + scast add, bp + 2)))"

partial_function (option) trap_walk :: "'h mac \<Rightarrow> u16 \<Rightarrow> nat \<Rightarrow> u16 \<Rightarrow> u32 \<Rightarrow> u32 \<Rightarrow> u32 option" where
  "trap_walk s trap i rom_trap bp ofs =
     (if i = 0x400 then trap_walk s trap 0 0xa000 bp ofs
      else case trap_entry s bp ofs of
        None \<Rightarrow> Some 0
      | Some (unimplemented, ofs1, bp1) \<Rightarrow>
          if rom_trap = trap then Some (if unimplemented then 0 else ofs1)
          else trap_walk s trap (Suc i) (rom_trap + 1) bp1 ofs1)"

definition find_rom_trap :: "rom_info \<Rightarrow> u16 \<Rightarrow> 'h mac \<Rightarrow> u32 option" where
  "find_rom_trap R trap s =
     trap_walk s trap 0 0xa800 (ROMBaseMac R + get32 s (ROMBaseMac R + 0x22)) 0"

section \<open>Resources\<close>

text \<open>\<open>rom_resources R s ptr rs\<close>: the chain from \<open>ptr\<close> has the resources \<open>rs\<close>, each with its place, type,
  number and data offset.\<close>

record rom_resource =
  rr_ptr :: u32
  rr_type :: u32
  rr_id :: u16
  rr_data :: u32

fun rom_resources :: "rom_info \<Rightarrow> 'h mac \<Rightarrow> u32 \<Rightarrow> rom_resource list \<Rightarrow> bool" where
  "rom_resources R s ptr [] \<longleftrightarrow> ptr = 0"
| "rom_resources R s ptr (r # rs) \<longleftrightarrow>
     rr_ptr r = ptr \<and> ptr \<noteq> 0 \<and>
     get32 s (ROMBaseMac R + ptr + 16) = rr_type r \<and> get16 s (ROMBaseMac R + ptr + 20) = rr_id r \<and>
     get32 s (ROMBaseMac R + ptr + 12) = rr_data r \<and>
     rom_resources R s (get32 s (ROMBaseMac R + ptr + 8)) rs"

definition of_kind :: "u32 \<Rightarrow> u16 \<Rightarrow> rom_resource \<Rightarrow> bool" where
  "of_kind ty rid r \<longleftrightarrow> rr_type r = ty \<and> rr_id r = rid"

lemma rsrc_walk_finds:
  assumes "rom_resources R s ptr rs" and "rs \<noteq> []"
  shows "rsrc_walk R ty rid ptr s =
     Some (case filter (of_kind ty rid) rs of [] \<Rightarrow> (0, 0) | r # _ \<Rightarrow> (rr_data r, rr_ptr r))"
  using assms
proof (induction rs arbitrary: ptr)
  case (Cons r rs)
  show ?case
  proof (cases "of_kind ty rid r")
    case True
    then show ?thesis using Cons.prems by (subst rsrc_walk.simps) (auto simp: of_kind_def Let_def)
  next
    case False
    let ?next = "get32 s (ROMBaseMac R + ptr + 8)"
    have walk: "rsrc_walk R ty rid ptr s = (if ?next = 0 then Some (0, ?next) else rsrc_walk R ty rid ?next s)"
      using Cons.prems False by (subst rsrc_walk.simps) (auto simp: of_kind_def Let_def)
    show ?thesis
    proof (cases rs)
      case Nil
      then have "?next = 0" using Cons.prems(1) unfolding Nil rom_resources.simps by blast
      then show ?thesis using False walk Nil by simp
    next
      case rs: (Cons r2 rs2)
      have tail: "rom_resources R s ?next rs" "rs \<noteq> []" using Cons.prems(1) rs by simp_all
      then have "?next \<noteq> 0" unfolding rs rom_resources.simps by blast
      then show ?thesis using Cons.IH [OF tail] False walk by simp
    qed
  qed
qed simp

text \<open>After a resource, the chain goes on with the ones behind it.\<close>

lemma rom_resources_suffix:
  "rom_resources R s ptr (xs @ r # ys) \<Longrightarrow> rom_resources R s (get32 s (ROMBaseMac R + rr_ptr r + 8)) ys"
  by (induction xs arbitrary: ptr) auto

definition first_hit :: "rom_resource list \<Rightarrow> u32 \<times> u32" where
  "first_hit rs = (case rs of [] \<Rightarrow> (0, 0) | r # _ \<Rightarrow> (rr_data r, rr_ptr r))"

text \<open>C24. Resources of the ROM are found in the order of the list. If the resource list of the ROM is the
  list \<open>rs\<close>, find_rom_resource() returns the data of the first resource of the wanted type and number,
  or 0 if there is none; and after a resource that is not the last of the list, a call that continues
  returns the next one, or 0. Both return.\<close>

theorem find_rom_resource_enumerates:
  assumes l: "rom_resources R s (get32 s (ROMBaseMac R + get32 s (ROMBaseMac R + 0x1a))) rs" and "rs \<noteq> []"
  shows "find_rom_resource R ty rid False p s = Some (first_hit (filter (of_kind ty rid) rs))
     \<and> (rs = xs @ r # ys \<and> ys \<noteq> [] \<longrightarrow>
          find_rom_resource R ty rid True (rr_ptr r) s = Some (first_hit (filter (of_kind ty rid) ys)))"
proof (intro conjI impI; (elim conjE)?)
  show "find_rom_resource R ty rid False p s = Some (first_hit (filter (of_kind ty rid) rs))"
    using rsrc_walk_finds [OF l] assms(2) by (simp add: find_rom_resource_def Let_def first_hit_def)
  assume rs: "rs = xs @ r # ys" and ys: "ys \<noteq> []"
  show "find_rom_resource R ty rid True (rr_ptr r) s = Some (first_hit (filter (of_kind ty rid) ys))"
    using rsrc_walk_finds [OF rom_resources_suffix [OF l [unfolded rs]] ys]
    by (simp add: find_rom_resource_def Let_def first_hit_def)
qed

text \<open>A list of three resources, two of them of the same kind.\<close>

definition demo_pack :: u32 where "demo_pack = 0x5041434b"

definition demo_resources :: "rom_resource list" where
  "demo_resources =
     [\<lparr>rr_ptr = 0x200, rr_type = 1, rr_id = 51, rr_data = 0x1000\<rparr>,
      \<lparr>rr_ptr = 0x300, rr_type = demo_pack, rr_id = 4, rr_data = 0x2000\<rparr>,
      \<lparr>rr_ptr = 0x400, rr_type = demo_pack, rr_id = 4, rr_data = 0x3000\<rparr>]"

definition put_resource :: "u32 \<Rightarrow> rom_resource \<Rightarrow> 'h mac \<Rightarrow> 'h mac" where
  "put_resource next r s =
     put32 (rr_ptr r + 8) next (put32 (rr_ptr r + 12) (rr_data r)
       (put32 (rr_ptr r + 16) (rr_type r) (put16 (rr_ptr r + 20) (rr_id r) s)))"

definition demo_rsrc_rom :: "unit mac" where
  "demo_rsrc_rom =
     put32 0x1a 0x100 (put32 0x100 0x200
       (put_resource 0x300 (demo_resources ! 0) (put_resource 0x400 (demo_resources ! 1)
         (put_resource 0 (demo_resources ! 2) \<lparr>mem = (\<lambda>_. 0), host = (), calls = []\<rparr>))))"

definition flat_rom :: rom_info where
  "flat_rom = \<lparr>ROMBaseMac = 0, ROMSize = 0x80000, slot_rom_size = 0\<rparr>"

lemma demo_rsrc_list:
  "rom_resources flat_rom demo_rsrc_rom
     (get32 demo_rsrc_rom (ROMBaseMac flat_rom + get32 demo_rsrc_rom (ROMBaseMac flat_rom + 0x1a))) demo_resources"
  by code_simp

lemma find_rom_resource_enumerates_witness:
  "find_rom_resource flat_rom demo_pack 4 False 0 demo_rsrc_rom = Some (0x2000, 0x300)
   \<and> find_rom_resource flat_rom demo_pack 4 True 0x300 demo_rsrc_rom = Some (0x3000, 0x400)"
proof -
  have hits: "first_hit (filter (of_kind demo_pack 4) demo_resources) = (0x2000, 0x300)"
    "first_hit (filter (of_kind demo_pack 4) [demo_resources ! 2]) = (0x3000, 0x400)"
    by (simp_all add: demo_resources_def demo_pack_def of_kind_def first_hit_def)
  have l: "demo_resources = [demo_resources ! 0] @ demo_resources ! 1 # [demo_resources ! 2]"
    and p: "rr_ptr (demo_resources ! 1) = 0x300" and n: "demo_resources \<noteq> []"
    by (simp_all add: demo_resources_def)
  note enum = find_rom_resource_enumerates [OF demo_rsrc_list n]
  show ?thesis
    using enum [of demo_pack 4 0 "[demo_resources ! 0]" "demo_resources ! 1" "[demo_resources ! 2]"] l
    by (simp only: p hits) simp
qed

section \<open>Trap tables\<close>

text \<open>What the packed table stands for: for every trap a slot, whose routine may be given by its distance
  from the last one.\<close>

datatype trap_slot = Unimplemented | Absolute u32 | Short u8 | Long u16

fun slot_bytes :: "trap_slot \<Rightarrow> u8 list" where
  "slot_bytes Unimplemented = [0x80]"
| "slot_bytes (Absolute t) = [0xff, byte3 t, byte2 t, byte1 t, byte0 t]"
| "slot_bytes (Short k) = [0x80 OR k]"
| "slot_bytes (Long v) = [hi8 v, lo8 v]"

fun slot_ok :: "trap_slot \<Rightarrow> bool" where
  "slot_ok (Short k) \<longleftrightarrow> k \<noteq> 0 \<and> k < 0x7f"
| "slot_ok (Long v) \<longleftrightarrow> hi8 v AND 0x80 = 0 \<and> push_bit 1 v \<noteq> 0"
| "slot_ok _ \<longleftrightarrow> True"

fun slot_target :: "trap_slot \<Rightarrow> u32 \<Rightarrow> u32" where
  "slot_target Unimplemented prev = prev"
| "slot_target (Absolute t) prev = t"
| "slot_target (Short k) prev = prev + scast (push_bit 1 (ucast k :: u16))"
| "slot_target (Long v) prev = prev + scast (push_bit 1 v)"

definition table_bytes :: "trap_slot list \<Rightarrow> u8 list" where
  "table_bytes slots = concat (map slot_bytes slots)"

text \<open>The answer for the \<open>n\<close>-th slot.\<close>

definition slot_addr :: "trap_slot list \<Rightarrow> nat \<Rightarrow> u32" where
  "slot_addr slots n = (if slots ! n = Unimplemented then 0 else fold slot_target (take (Suc n) slots) 0)"

lemma short_byte:
  assumes "k \<noteq> 0" "k < 0x7f"
  shows "0x80 OR k \<noteq> (0x80 :: u8) \<and> 0x80 OR k \<noteq> 0xff \<and> (0x80 OR k) AND 0x80 \<noteq> 0 \<and> (0x80 OR k) AND 0x7f = k
    \<and> push_bit 1 (ucast k :: u16) \<noteq> 0"
proof -
  let ?ok = "\<lambda>k :: u8. 0x80 OR k \<noteq> 0x80 \<and> 0x80 OR k \<noteq> 0xff \<and> (0x80 OR k) AND 0x80 \<noteq> 0
    \<and> (0x80 OR k) AND 0x7f = k \<and> push_bit 1 (ucast k :: u16) \<noteq> 0"
  have "list_all ?ok (map word_of_nat [1..<127])" by code_simp
  moreover have "k \<in> set (map word_of_nat [1..<127])"
    using assms by (auto simp: image_iff word_less_nat_alt Suc_le_eq unat_gt_0 intro!: bexI [of _ "unat k"])
  ultimately show ?thesis unfolding list_all_iff by blast
qed

lemma trap_entry_slot:
  assumes "slot_ok sl" and "get_bytes s bp (length (slot_bytes sl)) = slot_bytes sl"
  shows "trap_entry s bp ofs = Some (sl = Unimplemented, slot_target sl ofs, bp + word_of_nat (length (slot_bytes sl)))"
proof (cases sl)
  case (Absolute t)
  then have "get8 s bp = 0xff \<and> get8 s (bp + 1) = byte3 t \<and> get8 s (bp + 2) = byte2 t
      \<and> get8 s (bp + 3) = byte1 t \<and> get8 s (bp + 4) = byte0 t"
    using assms(2) by (simp add: get_bytes_def mem_read_def get8_def ReadMacInt8_def eval_nat_numeral)
  then show ?thesis using Absolute by (simp add: trap_entry_def)
next
  case (Short k)
  then show ?thesis
    using assms short_byte [of k] by (simp add: trap_entry_def get_bytes_def mem_read_def get8_def ReadMacInt8_def Let_def)
next
  case (Long v)
  then have b: "get8 s bp = hi8 v" "get8 s (bp + 1) = lo8 v"
    using assms(2) by (simp_all add: get_bytes_def mem_read_def get8_def ReadMacInt8_def eval_nat_numeral)
  have "hi8 v \<noteq> 0x80" "hi8 v \<noteq> 0xff" using assms(1) Long by auto
  then show ?thesis using assms(1) Long b by (simp add: trap_entry_def Let_def)
qed (use assms in \<open>simp add: trap_entry_def get_bytes_def mem_read_def get8_def ReadMacInt8_def\<close>)

lemma table_bytes_simps [simp]:
  "table_bytes [] = []" "table_bytes (sl # slots) = slot_bytes sl @ table_bytes slots"
  "table_bytes (xs @ ys) = table_bytes xs @ table_bytes ys"
  by (simp_all add: table_bytes_def)

text \<open>Memory holds the bytes of the slots from \<open>bp\<close> on.\<close>

definition table_at :: "'h mac \<Rightarrow> u32 \<Rightarrow> trap_slot list \<Rightarrow> bool" where
  "table_at s bp slots \<longleftrightarrow> list_all slot_ok slots \<and> get_bytes s bp (length (table_bytes slots)) = table_bytes slots"

lemma table_at_append:
  "table_at s bp (xs @ ys) \<longleftrightarrow> table_at s bp xs \<and> table_at s (bp + word_of_nat (length (table_bytes xs))) ys"
  by (auto simp: table_at_def get_bytes_split)

lemma table_at_Cons:
  "table_at s bp (sl # slots) \<longleftrightarrow> slot_ok sl \<and> get_bytes s bp (length (slot_bytes sl)) = slot_bytes sl
     \<and> table_at s (bp + word_of_nat (length (slot_bytes sl))) slots"
  by (auto simp: table_at_def get_bytes_split)

text \<open>Slots before the trap are passed over.\<close>

lemma trap_walk_skip:
  assumes "table_at s bp slots" and "i + length slots \<le> 0x400"
    and "\<And>j. j < length slots \<Longrightarrow> rt + word_of_nat j \<noteq> trap"
  shows "trap_walk s trap i rt bp ofs =
    trap_walk s trap (i + length slots) (rt + word_of_nat (length slots))
      (bp + word_of_nat (length (table_bytes slots))) (fold slot_target slots ofs)"
  using assms
proof (induction slots arbitrary: i rt bp ofs)
  case (Cons sl slots)
  have sl: "trap_entry s bp ofs =
      Some (sl = Unimplemented, slot_target sl ofs, bp + word_of_nat (length (slot_bytes sl)))"
    using Cons.prems(1) by (intro trap_entry_slot) (simp_all add: table_at_Cons)
  have rt: "rt \<noteq> trap" using Cons.prems(3) [of 0] by simp
  have step: "trap_walk s trap i rt bp ofs =
      trap_walk s trap (Suc i) (rt + 1) (bp + word_of_nat (length (slot_bytes sl))) (slot_target sl ofs)"
    using Cons.prems(2) rt by (subst trap_walk.simps) (simp add: sl)
  have apart: "rt + 1 + word_of_nat j \<noteq> trap" if "j < length slots" for j
    using Cons.prems(3) [of "Suc j"] that by (simp add: add.assoc)
  show ?case
    unfolding step
    using Cons.IH [of "bp + word_of_nat (length (slot_bytes sl))" "Suc i" "rt + 1"] Cons.prems apart
    by (simp add: table_at_Cons ac_simps)
qed simp

lemma trap_walk_hit:
  assumes "table_at s bp (sl # slots)" and "i < 0x400"
  shows "trap_walk s trap i trap bp ofs = Some (if sl = Unimplemented then 0 else slot_target sl ofs)"
proof -
  have "trap_entry s bp ofs = Some (sl = Unimplemented, slot_target sl ofs, bp + word_of_nat (length (slot_bytes sl)))"
    using assms(1) by (intro trap_entry_slot) (simp_all add: table_at_Cons)
  then show ?thesis using assms(2) by (subst trap_walk.simps) simp
qed

text \<open>So the \<open>n\<close>-th slot of a table that starts with the trap \<open>rt\<close> is found.\<close>

lemma trap_walk_nth:
  assumes t: "table_at s bp slots" and len: "length slots \<le> 0x400" and n: "n < length slots"
  shows "trap_walk s (rt + word_of_nat n) 0 rt bp ofs =
    Some (if slots ! n = Unimplemented then 0 else fold slot_target (take (Suc n) slots) ofs)"
proof -
  let ?pre = "take n slots"
  have split: "slots = ?pre @ slots ! n # drop (Suc n) slots" using n by (simp add: id_take_nth_drop)
  have tabs: "table_at s bp ?pre"
    "table_at s (bp + word_of_nat (length (table_bytes ?pre))) (slots ! n # drop (Suc n) slots)"
    using t by (subst (asm) split, simp only: table_at_append)+
  have apart: "rt + word_of_nat j \<noteq> rt + word_of_nat n" if "j < length ?pre" for j
    using that n len by (auto simp: word_of_nat_eq_iff take_bit_nat_eq_self)
  have "trap_walk s (rt + word_of_nat n) 0 rt bp ofs =
      trap_walk s (rt + word_of_nat n) n (rt + word_of_nat n)
        (bp + word_of_nat (length (table_bytes ?pre))) (fold slot_target ?pre ofs)"
    using trap_walk_skip [OF tabs(1), of 0 rt "rt + word_of_nat n" ofs] apart n len by simp
  also have "\<dots> = Some (if slots ! n = Unimplemented then 0 else slot_target (slots ! n) (fold slot_target ?pre ofs))"
    using trap_walk_hit [OF tabs(2)] n len by simp
  finally show ?thesis using n by (simp add: take_Suc_conv_app_nth)
qed

lemma toolbox_os_apart:
  "j < 0x400 \<Longrightarrow> n < 0x400 \<Longrightarrow> (0xa800 :: u16) + word_of_nat j \<noteq> 0xa000 + word_of_nat n"
proof
  assume j: "j < 0x400" and n: "n < 0x400" and eq: "(0xa800 :: u16) + word_of_nat j = 0xa000 + word_of_nat n"
  have "(word_of_nat (0xa800 + j) :: u16) = word_of_nat (0xa000 + n)"
    using eq unfolding of_nat_add of_nat_numeral .
  moreover have "0xa800 + j < 2 ^ 16" "0xa000 + n < 2 ^ 16" using j n by simp_all
  ultimately have "0xa800 + j = 0xa000 + n"
    unfolding word_of_nat_eq_iff by (simp only: take_bit_nat_eq_self len_num0 len_num1 len_bit0 len_bit1)
      (simp add: take_bit_nat_eq_self)
  then show False using n by simp
qed

text \<open>C13. The trap table is read back. If the packed bytes of a table of 1024 toolbox slots and 1024
  operating system slots lie where the ROM header says, find_rom_trap() returns for every toolbox trap
  0xa800 to 0xabff and every OS trap 0xa000 to 0xa3ff the offset of its slot, in whatever of the four
  forms each slot of the table is packed, and 0 if it is unimplemented.\<close>

theorem find_rom_trap_decodes:
  assumes t: "table_at s (ROMBaseMac R + get32 s (ROMBaseMac R + 0x22)) (toolbox @ os)"
    and len: "length toolbox = 0x400" "length os = 0x400" and n: "n < 0x400"
  shows "find_rom_trap R (0xa800 + word_of_nat n) s = Some (slot_addr (toolbox @ os) n)
     \<and> find_rom_trap R (0xa000 + word_of_nat n) s = Some (slot_addr (toolbox @ os) (0x400 + n))"
proof
  let ?bp = "ROMBaseMac R + get32 s (ROMBaseMac R + 0x22)"
  have t1: "table_at s ?bp toolbox" and t2: "table_at s (?bp + word_of_nat (length (table_bytes toolbox))) os"
    using t by (simp_all add: table_at_append)
  show "find_rom_trap R (0xa800 + word_of_nat n) s = Some (slot_addr (toolbox @ os) n)"
    using trap_walk_nth [OF t1, of n] len n
    by (simp add: find_rom_trap_def slot_addr_def nth_append)
  have "find_rom_trap R (0xa000 + word_of_nat n) s =
      trap_walk s (0xa000 + word_of_nat n) 0x400 (0xa800 + word_of_nat 0x400)
        (?bp + word_of_nat (length (table_bytes toolbox))) (fold slot_target toolbox 0)"
    using trap_walk_skip [OF t1, of 0 "0xa800" "0xa000 + word_of_nat n" 0] toolbox_os_apart n len
    by (simp add: find_rom_trap_def)
  also have "\<dots> = trap_walk s (0xa000 + word_of_nat n) 0 0xa000
      (?bp + word_of_nat (length (table_bytes toolbox))) (fold slot_target toolbox 0)"
    by (subst trap_walk.simps) simp
  also have "\<dots> = Some (if os ! n = Unimplemented then 0
      else fold slot_target (take (Suc n) os) (fold slot_target toolbox 0))"
    using trap_walk_nth [OF t2, of n] len n by simp
  finally show "find_rom_trap R (0xa000 + word_of_nat n) s = Some (slot_addr (toolbox @ os) (0x400 + n))"
    using len by (simp add: slot_addr_def nth_append)
qed

text \<open>A table whose first slots have all four forms, at 0x80808080 in a memory full of 0x80.\<close>

definition demo_slots :: "trap_slot list" where
  "demo_slots = [Absolute 0x12340, Short 5, Long 0x7ffe, Unimplemented]"

definition demo_table_mac :: "unit mac" where
  "demo_table_mac =
     put_bytes 0x80808080 (table_bytes demo_slots) \<lparr>mem = (\<lambda>_. 0x80), host = (), calls = []\<rparr>"

lemma table_of_0x80:
  "table_at \<lparr>mem = (\<lambda>_. 0x80), host = (), calls = []\<rparr> bp (replicate n Unimplemented)"
  by (induction n arbitrary: bp)
    (simp_all add: table_at_Cons, simp_all add: table_at_def get_bytes_def mem_read_def)

lemma demo_table:
  "table_at demo_table_mac 0x80808080 ((demo_slots @ replicate 0x3fc Unimplemented) @ replicate 0x400 Unimplemented)"
proof -
  have bytes: "table_bytes demo_slots = [0xff, 0, 1, 0x23, 0x40, 0x85, 0x7f, 0xfe, 0x80]" by code_simp
  then have len: "length (table_bytes demo_slots) = 9" by simp
  have "table_at demo_table_mac 0x80808080 demo_slots"
  proof -
    have "list_all slot_ok demo_slots" by code_simp
    then show ?thesis
      using get_put_bytes [of "table_bytes demo_slots" "0x80808080"] len
      by (simp add: table_at_def demo_table_mac_def)
  qed
  moreover have "table_at demo_table_mac (0x80808080 + 9) (replicate 0x7fc Unimplemented)"
  proof -
    have l: "length (table_bytes (replicate 0x7fc Unimplemented)) = 0x7fc"
      by (simp add: table_bytes_def length_concat sum_list_triv)
    have "sep (0x80808080 + 9) 0x7fc 0x80808080 9" by (simp add: sep_def)
    then show ?thesis
      using table_of_0x80 [of "0x80808080 + 9" "0x7fc"] len l
        get_put_bytes_apart [of "0x80808080 + 9" "0x7fc" "0x80808080" "table_bytes demo_slots"
          "\<lparr>mem = (\<lambda>_. 0x80), host = (), calls = []\<rparr>"]
      by (simp add: table_at_def demo_table_mac_def)
  qed
  moreover have "replicate 0x3fc Unimplemented @ replicate 0x400 Unimplemented = replicate 0x7fc Unimplemented"
    by (simp flip: replicate_add)
  ultimately show ?thesis by (simp add: table_at_append len)
qed

lemma find_rom_trap_decodes_witness:
  "find_rom_trap \<lparr>ROMBaseMac = 0, ROMSize = 0, slot_rom_size = 0\<rparr> 0xa802 demo_table_mac = Some 0x12346
   \<and> find_rom_trap \<lparr>ROMBaseMac = 0, ROMSize = 0, slot_rom_size = 0\<rparr> 0xa058 demo_table_mac = Some 0"
proof -
  let ?R = "\<lparr>ROMBaseMac = 0, ROMSize = 0, slot_rom_size = 0\<rparr>"
    and ?tb = "demo_slots @ replicate 0x3fc Unimplemented" and ?os = "replicate 0x400 Unimplemented"
  have bp: "ROMBaseMac ?R + get32 demo_table_mac (ROMBaseMac ?R + 0x22) = 0x80808080" by code_simp
  have len: "length ?tb = 0x400" "length ?os = 0x400" by (simp_all add: demo_slots_def)
  have "(?tb @ ?os) ! 2 = Long 0x7ffe" "take (Suc 2) (?tb @ ?os) = [Absolute 0x12340, Short 5, Long 0x7ffe]"
    by (simp_all add: demo_slots_def)
  moreover have "fold slot_target [Absolute 0x12340, Short 5, Long 0x7ffe] 0 = 0x12346" by code_simp
  ultimately have "slot_addr (?tb @ ?os) 2 = 0x12346" unfolding slot_addr_def by simp
  moreover have "slot_addr (?tb @ ?os) (0x400 + 0x58) = 0"
    unfolding slot_addr_def nth_append using len by simp
  ultimately show ?thesis
    using conjunct1 [OF find_rom_trap_decodes [OF demo_table [folded bp] len, of 2]]
      conjunct2 [OF find_rom_trap_decodes [OF demo_table [folded bp] len, of "0x58"]] by simp
qed

text \<open>A pass over 1024 entries returns or comes to its end.\<close>

lemma trap_walk_pass:
  "i \<le> 0x400 \<Longrightarrow> (\<exists>r. trap_walk s trap i rt bp ofs = Some r) \<or>
     (\<exists>rt1 bp1 ofs1. trap_walk s trap i rt bp ofs = trap_walk s trap 0x400 rt1 bp1 ofs1)"
proof (induction "0x400 - i" arbitrary: i rt bp ofs)
  case (Suc k)
  show ?case
  proof (cases "trap_entry s bp ofs")
    case None
    then show ?thesis using Suc by (subst (1) trap_walk.simps) auto
  next
    case (Some e)
    obtain un ofs1 bp1 where e: "e = (un, ofs1, bp1)" by (cases e)
    have "trap_walk s trap i rt bp ofs =
        (if rt = trap then Some (if un then 0 else ofs1) else trap_walk s trap (Suc i) (rt + 1) bp1 ofs1)"
      using Suc.hyps(2) by (subst trap_walk.simps) (auto simp: Some e)
    then show ?thesis using Suc.hyps(1) [of "Suc i" "rt + 1" bp1 ofs1] Suc.hyps(2) by auto
  qed
qed auto

text \<open>A pass that starts with the trap \<open>n\<close> before the wanted one returns.\<close>

lemma trap_walk_returns:
  "i + n < 0x400 \<Longrightarrow> \<exists>r. trap_walk s (rt + word_of_nat n) i rt bp ofs = Some r"
proof (induction n arbitrary: i rt bp ofs)
  case 0
  then show ?case by (subst trap_walk.simps) (auto split: option.splits)
next
  case (Suc n)
  show ?case
  proof (cases "trap_entry s bp ofs")
    case None
    then show ?thesis using Suc.prems by (subst trap_walk.simps) auto
  next
    case (Some e)
    obtain un ofs1 bp1 where e: "e = (un, ofs1, bp1)" by (cases e)
    have "trap_walk s (rt + word_of_nat (Suc n)) i rt bp ofs =
        (if rt = rt + word_of_nat (Suc n) then Some (if un then 0 else ofs1)
         else trap_walk s (rt + word_of_nat (Suc n)) (Suc i) (rt + 1) bp1 ofs1)"
      using Suc.prems by (subst trap_walk.simps) (auto simp: Some e)
    moreover have "\<exists>r. trap_walk s (rt + 1 + word_of_nat n) (Suc i) (rt + 1) bp1 ofs1 = Some r"
      using Suc.IH [of "Suc i" "rt + 1" bp1 ofs1] Suc.prems by simp
    ultimately show ?thesis by (simp add: ac_simps)
  qed
qed

text \<open>C33. The search for a trap returns. Whatever the bytes of the trap table are, even if they are not a
  table at all, find_rom_trap() returns for every toolbox trap and for every trap of the operating
  system: at the latest in the second round it meets the trap or the end of the table.\<close>

theorem find_rom_trap_returns:
  assumes "n < 0x400"
  shows "(\<exists>r. find_rom_trap R (0xa800 + word_of_nat n) s = Some r)
     \<and> (\<exists>r. find_rom_trap R (0xa000 + word_of_nat n) s = Some r)"
proof
  let ?bp = "ROMBaseMac R + get32 s (ROMBaseMac R + 0x22)"
  show "\<exists>r. find_rom_trap R (0xa800 + word_of_nat n) s = Some r"
    using trap_walk_returns [of 0 n s "0xa800" ?bp 0] assms by (simp add: find_rom_trap_def)
  have again: "trap_walk s trap 0x400 rt1 bp1 ofs1 = trap_walk s trap 0 0xa000 bp1 ofs1" for trap rt1 bp1 ofs1
    by (subst trap_walk.simps) simp
  show "\<exists>r. find_rom_trap R (0xa000 + word_of_nat n) s = Some r"
    using trap_walk_pass [of 0 s "0xa000 + word_of_nat n" "0xa800" ?bp 0] again trap_walk_returns [of 0 n s "0xa000"] assms
    by (auto simp: find_rom_trap_def)
qed

lemma find_rom_trap_returns_witness: "\<exists>r. find_rom_trap flat_rom (0xa000 + word_of_nat 0x58) demo_rsrc_rom = Some r"
  by (rule conjunct2 [OF find_rom_trap_returns]) simp

end
