(* ===== verification/RomDrivers.thy ===== *)
theory RomDrivers
  imports RomSearch Prefs
begin

text \<open>
  The drivers that "rom_patches.cpp" puts into the ROM, as bytes of 68k code, the icons of the disk drivers
  ("sony.cpp", "disk.cpp", "cdrom.cpp"), and the installation of the drivers when the Mac starts up
  (InstallDrivers() and InstallSERD()). Each entry point of a driver executes an opcode that calls
  the C++ routine, and returns to the Device Manager the way it expects.
\<close>

section \<open>The drivers\<close>

definition sony_driver :: "u8 list" where
  "sony_driver =
     [0x6f, 0, 0, 0, 0, 0, 0, 0, 0, 0x18, 0, 0x1c, 0, 0x20, 0, 0x2c, 0, 0x52, 5, 0x2e, 0x53,
      0x6f, 0x6e, 0x79, 0x71, 0x0c, 0x4e, 0x75, 0x71, 0x0d, 0x60, 0x0e, 0x71, 0x0e, 0x0c, 0x68,
      0, 1, 0, 0x1a, 0x66, 4, 0x4e, 0x75, 0x71, 0x0f, 0x32, 0x28, 0, 6, 8, 1, 0, 9, 0x67, 0x0c,
      0x4a, 0x40, 0x6f, 2, 0x42, 0x40, 0x31, 0x40, 0, 0x10, 0x4e, 0x75, 0x4a, 0x40, 0x6f, 4,
      0x42, 0x40, 0x4e, 0x75, 0x2f, 0x38, 8, 0xfc, 0x4e, 0x75, 0x70, 0xe8, 0x4e, 0x75]"

definition disk_driver :: "u8 list" where
  "disk_driver =
     [0x6f, 4, 0, 0, 0, 0, 0, 0, 0, 0x18, 0, 0x1c, 0, 0x20, 0, 0x2c, 0, 0x52, 5, 0x2e, 0x44,
      0x69, 0x73, 0x6b, 0x71, 0x10, 0x4e, 0x75, 0x71, 0x11, 0x60, 0x0e, 0x71, 0x12, 0x0c, 0x68,
      0, 1, 0, 0x1a, 0x66, 4, 0x4e, 0x75, 0x71, 0x13, 0x32, 0x28, 0, 6, 8, 1, 0, 9, 0x67, 0x0c,
      0x4a, 0x40, 0x6f, 2, 0x42, 0x40, 0x31, 0x40, 0, 0x10, 0x4e, 0x75, 0x4a, 0x40, 0x6f, 4,
      0x42, 0x40, 0x4e, 0x75, 0x2f, 0x38, 8, 0xfc, 0x4e, 0x75, 0x70, 0xe8, 0x4e, 0x75]"

definition cdrom_driver :: "u8 list" where
  "cdrom_driver =
     [0x6d, 4, 0, 0, 0, 0, 0, 0, 0, 0x1c, 0, 0x20, 0, 0x24, 0, 0x30, 0, 0x56, 8, 0x2e, 0x41,
      0x70, 0x70, 0x6c, 0x65, 0x43, 0x44, 0, 0x71, 0x14, 0x4e, 0x75, 0x71, 0x15, 0x60, 0x0e,
      0x71, 0x16, 0x0c, 0x68, 0, 1, 0, 0x1a, 0x66, 4, 0x4e, 0x75, 0x71, 0x17, 0x32, 0x28, 0, 6,
      8, 1, 0, 9, 0x67, 0x0c, 0x4a, 0x40, 0x6f, 2, 0x42, 0x40, 0x31, 0x40, 0, 0x10, 0x4e, 0x75,
      0x4a, 0x40, 0x6f, 4, 0x42, 0x40, 0x4e, 0x75, 0x2f, 0x38, 8, 0xfc, 0x4e, 0x75, 0x70, 0xe8,
      0x4e, 0x75]"

definition ain_driver :: "u8 list" where
  "ain_driver =
     [0x4d, 0, 0, 0, 0, 0, 0, 0, 0, 0x18, 0, 0x1e, 0, 0x24, 0, 0x32, 0, 0x38, 4, 0x2e, 0x41,
      0x49, 0x6e, 9, 0x70, 0, 0x71, 0x1b, 0x4e, 0x75, 0x70, 0, 0x71, 0x1c, 0x60, 0x1a, 0x70, 0,
      0x71, 0x1d, 0x0c, 0x68, 0, 1, 0, 0x1a, 0x66, 0x0e, 0x4e, 0x75, 0x70, 0, 0x71, 0x1e, 0x60,
      6, 0x70, 0, 0x71, 0x1f, 0x4e, 0x75, 0x32, 0x28, 0, 6, 8, 1, 0, 9, 0x67, 0x0c, 0x4a, 0x40,
      0x6f, 2, 0x42, 0x40, 0x31, 0x40, 0, 0x10, 0x4e, 0x75, 0x4a, 0x40, 0x6f, 4, 0x42, 0x40,
      0x4e, 0x75, 0x2f, 0x38, 8, 0xfc, 0x4e, 0x75]"

definition aout_driver :: "u8 list" where
  "aout_driver =
     [0x4e, 0, 0, 0, 0, 0, 0, 0, 0, 0x1a, 0, 0x20, 0, 0x26, 0, 0x34, 0, 0x3a, 5, 0x2e, 0x41,
      0x4f, 0x75, 0x74, 9, 0, 0x70, 1, 0x71, 0x1b, 0x4e, 0x75, 0x70, 1, 0x71, 0x1c, 0x60, 0x1a,
      0x70, 1, 0x71, 0x1d, 0x0c, 0x68, 0, 1, 0, 0x1a, 0x66, 0x0e, 0x4e, 0x75, 0x70, 1, 0x71,
      0x1e, 0x60, 6, 0x70, 1, 0x71, 0x1f, 0x4e, 0x75, 0x32, 0x28, 0, 6, 8, 1, 0, 9, 0x67, 0x0c,
      0x4a, 0x40, 0x6f, 2, 0x42, 0x40, 0x31, 0x40, 0, 0x10, 0x4e, 0x75, 0x4a, 0x40, 0x6f, 4,
      0x42, 0x40, 0x4e, 0x75, 0x2f, 0x38, 8, 0xfc, 0x4e, 0x75]"

definition bin_driver :: "u8 list" where
  "bin_driver =
     [0x4d, 0, 0, 0, 0, 0, 0, 0, 0, 0x18, 0, 0x1e, 0, 0x24, 0, 0x32, 0, 0x38, 4, 0x2e, 0x42,
      0x49, 0x6e, 9, 0x70, 2, 0x71, 0x1b, 0x4e, 0x75, 0x70, 2, 0x71, 0x1c, 0x60, 0x1a, 0x70, 2,
      0x71, 0x1d, 0x0c, 0x68, 0, 1, 0, 0x1a, 0x66, 0x0e, 0x4e, 0x75, 0x70, 2, 0x71, 0x1e, 0x60,
      6, 0x70, 2, 0x71, 0x1f, 0x4e, 0x75, 0x32, 0x28, 0, 6, 8, 1, 0, 9, 0x67, 0x0c, 0x4a, 0x40,
      0x6f, 2, 0x42, 0x40, 0x31, 0x40, 0, 0x10, 0x4e, 0x75, 0x4a, 0x40, 0x6f, 4, 0x42, 0x40,
      0x4e, 0x75, 0x2f, 0x38, 8, 0xfc, 0x4e, 0x75]"

definition bout_driver :: "u8 list" where
  "bout_driver =
     [0x4e, 0, 0, 0, 0, 0, 0, 0, 0, 0x1a, 0, 0x20, 0, 0x26, 0, 0x34, 0, 0x3a, 5, 0x2e, 0x42,
      0x4f, 0x75, 0x74, 9, 0, 0x70, 3, 0x71, 0x1b, 0x4e, 0x75, 0x70, 3, 0x71, 0x1c, 0x60, 0x1a,
      0x70, 3, 0x71, 0x1d, 0x0c, 0x68, 0, 1, 0, 0x1a, 0x66, 0x0e, 0x4e, 0x75, 0x70, 3, 0x71,
      0x1e, 0x60, 6, 0x70, 3, 0x71, 0x1f, 0x4e, 0x75, 0x32, 0x28, 0, 6, 8, 1, 0, 9, 0x67, 0x0c,
      0x4a, 0x40, 0x6f, 2, 0x42, 0x40, 0x31, 0x40, 0, 0x10, 0x4e, 0x75, 0x4a, 0x40, 0x6f, 4,
      0x42, 0x40, 0x4e, 0x75, 0x2f, 0x38, 8, 0xfc, 0x4e, 0x75]"

definition adbop_patch :: "u8 list" where
  "adbop_patch =
     [0x40, 0xe7, 0, 0x7c, 7, 0, 0x71, 0x23, 0x48, 0xe7, 0x70, 0xf0, 0x26, 0x48, 0x4a, 0xab, 0,
      4, 0x67, 0, 0, 0x18, 0x20, 0x53, 0x22, 0x6b, 0, 4, 0x24, 0x6b, 0, 8, 0x26, 0x78, 0x0c,
      0xf8, 0x4e, 0x91, 0x70, 0, 0x60, 0, 0, 4, 0x70, 0xff, 0x4c, 0xdf, 0x0f, 0x0e, 0x46, 0xdf,
      0x4e, 0x75]"

section \<open>Icons\<close>

definition SonyDiskIcon :: "u8 list" where
  "SonyDiskIcon =
     [0x7f, 0xff, 0xff, 0xf8, 0x81, 0, 1, 4, 0x81, 0, 0x71, 2, 0x81, 0, 0x89, 1, 0x81, 0, 0x89,
      1, 0x81, 0, 0x89, 1, 0x81, 0, 0x89, 1, 0x81, 0, 0x89, 1, 0x81, 0, 0x71, 1, 0x81, 0, 1, 1,
      0x80, 0xff, 0xfe, 1, 0x80, 0, 0, 1, 0x80, 0, 0, 1, 0x80, 0, 0, 1, 0x80, 0, 0, 1, 0x80, 0,
      0, 1, 0x80, 0, 0, 1, 0x80, 0, 0, 1, 0x87, 0xff, 0xff, 0xe1, 0x88, 0, 0, 0x11, 0x88, 0, 0,
      0x11, 0x88, 0, 0, 0x11, 0x88, 0, 0, 0x11, 0x88, 0, 0, 0x11, 0x88, 0, 0, 0x11, 0x88, 0, 0,
      0x11, 0x88, 0, 0, 0x11, 0x88, 0, 0, 0x11, 0x88, 0, 0, 0x11, 0x88, 0, 0, 0x11, 0x88, 0, 0,
      0x11, 0x7f, 0xff, 0xff, 0xfe, 0x7f, 0xff, 0xff, 0xf8, 0xff, 0xff, 0xff, 0xfc, 0xff, 0xff,
      0xff, 0xfe, 0xff, 0xff, 0xff, 0xff, 0xff, 0xff, 0xff, 0xff, 0xff, 0xff, 0xff, 0xff, 0xff,
      0xff, 0xff, 0xff, 0xff, 0xff, 0xff, 0xff, 0xff, 0xff, 0xff, 0xff, 0xff, 0xff, 0xff, 0xff,
      0xff, 0xff, 0xff, 0xff, 0xff, 0xff, 0xff, 0xff, 0xff, 0xff, 0xff, 0xff, 0xff, 0xff, 0xff,
      0xff, 0xff, 0xff, 0xff, 0xff, 0xff, 0xff, 0xff, 0xff, 0xff, 0xff, 0xff, 0xff, 0xff, 0xff,
      0xff, 0xff, 0xff, 0xff, 0xff, 0xff, 0xff, 0xff, 0xff, 0xff, 0xff, 0xff, 0xff, 0xff, 0xff,
      0xff, 0xff, 0xff, 0xff, 0xff, 0xff, 0xff, 0xff, 0xff, 0xff, 0xff, 0xff, 0xff, 0xff, 0xff,
      0xff, 0xff, 0xff, 0xff, 0xff, 0xff, 0xff, 0xff, 0xff, 0xff, 0xff, 0xff, 0xff, 0xff, 0xff,
      0xff, 0xff, 0xff, 0xff, 0xff, 0xff, 0xff, 0xff, 0xff, 0x7f, 0xff, 0xff, 0xfe, 0, 0]"

definition SonyDriveIcon :: "u8 list" where
  "SonyDriveIcon =
     [0x7f, 0xff, 0xff, 0xf8, 0x81, 0, 1, 4, 0x81, 0, 0x71, 2, 0x81, 0, 0x89, 1, 0x81, 0, 0x89,
      1, 0x81, 0, 0x89, 1, 0x81, 0, 0x89, 1, 0x81, 0, 0x89, 1, 0x81, 0, 0x71, 1, 0x81, 0, 1, 1,
      0x80, 0xff, 0xfe, 1, 0x80, 0, 0, 1, 0x80, 0, 0, 1, 0x80, 0, 0, 1, 0x80, 0, 0, 1, 0x80, 0,
      0, 1, 0x80, 0, 0, 1, 0x80, 0, 0, 1, 0x87, 0xff, 0xff, 0xe1, 0x88, 0, 0, 0x11, 0x88, 0, 0,
      0x11, 0x88, 0, 0, 0x11, 0x88, 0, 0, 0x11, 0x88, 0, 0, 0x11, 0x88, 0, 0, 0x11, 0x88, 0, 0,
      0x11, 0x88, 0, 0, 0x11, 0x88, 0, 0, 0x11, 0x88, 0, 0, 0x11, 0x88, 0, 0, 0x11, 0x88, 0, 0,
      0x11, 0x7f, 0xff, 0xff, 0xfe, 0x7f, 0xff, 0xff, 0xf8, 0xff, 0xff, 0xff, 0xfc, 0xff, 0xff,
      0xff, 0xfe, 0xff, 0xff, 0xff, 0xff, 0xff, 0xff, 0xff, 0xff, 0xff, 0xff, 0xff, 0xff, 0xff,
      0xff, 0xff, 0xff, 0xff, 0xff, 0xff, 0xff, 0xff, 0xff, 0xff, 0xff, 0xff, 0xff, 0xff, 0xff,
      0xff, 0xff, 0xff, 0xff, 0xff, 0xff, 0xff, 0xff, 0xff, 0xff, 0xff, 0xff, 0xff, 0xff, 0xff,
      0xff, 0xff, 0xff, 0xff, 0xff, 0xff, 0xff, 0xff, 0xff, 0xff, 0xff, 0xff, 0xff, 0xff, 0xff,
      0xff, 0xff, 0xff, 0xff, 0xff, 0xff, 0xff, 0xff, 0xff, 0xff, 0xff, 0xff, 0xff, 0xff, 0xff,
      0xff, 0xff, 0xff, 0xff, 0xff, 0xff, 0xff, 0xff, 0xff, 0xff, 0xff, 0xff, 0xff, 0xff, 0xff,
      0xff, 0xff, 0xff, 0xff, 0xff, 0xff, 0xff, 0xff, 0xff, 0xff, 0xff, 0xff, 0xff, 0xff, 0xff,
      0xff, 0xff, 0xff, 0xff, 0xff, 0xff, 0xff, 0xff, 0xff, 0x7f, 0xff, 0xff, 0xfe, 0, 0]"

definition DiskIcon :: "u8 list" where
  "DiskIcon =
     [0, 0, 0, 0, 0, 0, 0, 0, 0, 0, 0, 0, 0, 0, 0, 0, 0, 0, 0, 0, 0, 0, 0, 0, 0, 0, 0, 0, 0, 0,
      0, 0, 0, 0, 0, 0, 0, 0, 0, 0, 0, 0, 0, 0, 0, 0, 0, 0, 0, 0, 0, 0, 0, 0, 0, 0, 0, 0, 0, 0,
      0, 0, 0, 0, 0, 0, 0, 0, 0, 0, 0, 0, 0, 0, 0, 0, 0x7f, 0xff, 0xff, 0xfe, 0x80, 0, 0, 1,
      0x80, 0, 0, 1, 0x80, 0, 0, 1, 0x80, 0, 0, 1, 0x80, 0, 0, 1, 0x8c, 0, 0, 1, 0x80, 0, 0, 1,
      0x80, 0, 0, 1, 0x7f, 0xff, 0xff, 0xfe, 0, 0, 0, 0, 0, 0, 0, 0, 0, 0, 0, 0, 0, 0, 0, 0, 0,
      0, 0, 0, 0, 0, 0, 0, 0, 0, 0, 0, 0, 0, 0, 0, 0, 0, 0, 0, 0, 0, 0, 0, 0, 0, 0, 0, 0, 0, 0,
      0, 0, 0, 0, 0, 0, 0, 0, 0, 0, 0, 0, 0, 0, 0, 0, 0, 0, 0, 0, 0, 0, 0, 0, 0, 0, 0, 0, 0, 0,
      0, 0, 0, 0, 0, 0, 0, 0, 0, 0, 0, 0x7f, 0xff, 0xff, 0xfe, 0xff, 0xff, 0xff, 0xff, 0xff,
      0xff, 0xff, 0xff, 0xff, 0xff, 0xff, 0xff, 0xff, 0xff, 0xff, 0xff, 0xff, 0xff, 0xff, 0xff,
      0xff, 0xff, 0xff, 0xff, 0xff, 0xff, 0xff, 0xff, 0xff, 0xff, 0xff, 0xff, 0x7f, 0xff, 0xff,
      0xfe, 0, 0, 0, 0, 0, 0, 0, 0, 0, 0, 0, 0, 0, 0]"

definition CDROMIcon :: "u8 list" where
  "CDROMIcon =
     [0x3f, 0xff, 0xff, 0xf0, 0x40, 0, 0, 8, 0x80, 0x1f, 0xc0, 4, 0x80, 0x75, 0x70, 4, 0x81,
      0xaa, 0xac, 4, 0x83, 0x55, 0x56, 4, 0x86, 0xaa, 0xab, 4, 0x8d, 0x55, 0x55, 0x84, 0x8a,
      0xaa, 0xaa, 0xc4, 0x95, 0x5f, 0xd5, 0x44, 0x9a, 0xb0, 0x6a, 0xe4, 0xb5, 0x67, 0x35, 0x64,
      0xaa, 0xcf, 0x9a, 0xb4, 0xb5, 0x5c, 0x55, 0x74, 0xaa, 0xd8, 0x5a, 0xb4, 0xb5, 0x58, 0x55,
      0x74, 0xaa, 0xc8, 0x9a, 0xb4, 0xb5, 0x67, 0x35, 0x74, 0x9a, 0xb0, 0x6a, 0xf4, 0x95, 0x5f,
      0xd5, 0x64, 0x8a, 0xaa, 0xaa, 0xe4, 0x8d, 0x55, 0x55, 0xc4, 0x86, 0xaa, 0xab, 0xc4, 0x83,
      0x55, 0x57, 0x84, 0x81, 0xaa, 0xaf, 4, 0x80, 0xf5, 0x7e, 4, 0x80, 0x3f, 0xf8, 4, 0x80,
      0x0f, 0xe0, 4, 0xff, 0xff, 0xff, 0xfc, 0x80, 0, 0, 4, 0x80, 0x1f, 0xf0, 4, 0x7f, 0xff,
      0xff, 0xf8, 0x3f, 0xff, 0xff, 0xf0, 0x7f, 0xff, 0xff, 0xf8, 0xff, 0xff, 0xff, 0xfc, 0xff,
      0xff, 0xff, 0xfc, 0xff, 0xff, 0xff, 0xfc, 0xff, 0xff, 0xff, 0xfc, 0xff, 0xff, 0xff, 0xfc,
      0xff, 0xff, 0xff, 0xfc, 0xff, 0xff, 0xff, 0xfc, 0xff, 0xff, 0xff, 0xfc, 0xff, 0xff, 0xff,
      0xfc, 0xff, 0xff, 0xff, 0xfc, 0xff, 0xff, 0xff, 0xfc, 0xff, 0xff, 0xff, 0xfc, 0xff, 0xff,
      0xff, 0xfc, 0xff, 0xff, 0xff, 0xfc, 0xff, 0xff, 0xff, 0xfc, 0xff, 0xff, 0xff, 0xfc, 0xff,
      0xff, 0xff, 0xfc, 0xff, 0xff, 0xff, 0xfc, 0xff, 0xff, 0xff, 0xfc, 0xff, 0xff, 0xff, 0xfc,
      0xff, 0xff, 0xff, 0xfc, 0xff, 0xff, 0xff, 0xfc, 0xff, 0xff, 0xff, 0xfc, 0xff, 0xff, 0xff,
      0xfc, 0xff, 0xff, 0xff, 0xfc, 0xff, 0xff, 0xff, 0xfc, 0xff, 0xff, 0xff, 0xfc, 0xff, 0xff,
      0xff, 0xfc, 0xff, 0xff, 0xff, 0xfc, 0x7f, 0xff, 0xff, 0xf8, 0, 0]"

section \<open>Installing the drivers\<close>

text \<open>The variables of "rom_patches.cpp", and the addresses of the icons, which PatchROM() sets in the
  drivers.\<close>

record rom_vars =
  UniversalInfo :: u32
  PutScrapPatch :: u32
  GetScrapPatch :: u32
  ROMBreakpoint :: u32
  PatchHWBases :: bool
  sony_rom_offset :: u32
  serd_offset :: u32
  microseconds_offset :: u32
  debugutil_offset :: u32
  rsrc_ptr :: u32
  SonyDiskIcon_at :: u32
  SonyDriveIcon_at :: u32
  DiskIcon_at :: u32
  CDROMIcon_at :: u32

abbreviation (input) dCtlDriver :: u32 where "dCtlDriver \<equiv> 0"
abbreviation (input) ioNamePtr :: u32 where "ioNamePtr \<equiv> 18"

definition set_os_trap :: "'h env68k \<Rightarrow> u32 \<Rightarrow> u32 \<Rightarrow> m68k_regs \<Rightarrow> 'h mac \<Rightarrow> m68k_regs \<times> 'h mac" where
  "set_os_trap E routine trap r s = Execute68kTrap E 0xa247 (set_d 0 trap (set_a 0 routine r)) s"

text \<open>A block driver with its header at \<open>drvr\<close> and its reference number is installed, locked and opened.\<close>

definition install_block_driver ::
  "'h env68k \<Rightarrow> u32 \<Rightarrow> u32 \<Rightarrow> u16 \<Rightarrow> u32 \<Rightarrow> m68k_regs \<Rightarrow> 'h mac \<Rightarrow> m68k_regs \<times> 'h mac" where
  "install_block_driver E drvr refnum flags pb r s =
     (let (r1, s1) = Execute68kTrap E 0xa43d (set_d 0 refnum (set_a 0 drvr r)) s;
          r2 = set_a 0 (get32 s1 (get32 s1 0x11c + NOT refnum * 4)) r1;
          (r3, s2) = Execute68kTrap E 0xa029 r2 s1;
          dce = get32 s2 (areg r3 0);
          s3 = put16 (dce + dCtlFlags) flags (put32 (dce + dCtlDriver) drvr s2)
      in Execute68kTrap E 0xa000 (set_a 0 pb r3) (put32 (pb + ioNamePtr) (drvr + 0x12) s3))"

definition InstallDrivers :: "'h env68k \<Rightarrow> rom_info \<Rightarrow> prefs \<Rightarrow> rom_vars \<Rightarrow> u32 \<Rightarrow> 'h mac \<Rightarrow> 'h mac" where
  "InstallDrivers E R p v pb s =
     (let (r1, s1) = set_os_trap E (ROMBaseMac R + microseconds_offset v) 0xa093 (stack_junk E) s;
          (r2, s2) = set_os_trap E (ROMBaseMac R + debugutil_offset v) 0xa08d r1 s1;
          (r3, s3) = install_block_driver E (ROMBaseMac R + sony_rom_offset v + 0x100) (- 63) 0x6f04 pb r2 s2
      in if \<not> PrefsFindBool ''nocdrom'' p
         then snd (install_block_driver E (ROMBaseMac R + sony_rom_offset v + 0x200) (- 62) 0x6d04 pb r3 s3)
         else s3)"

definition install_serial_driver ::
  "'h env68k \<Rightarrow> u32 \<Rightarrow> u8 list \<Rightarrow> u32 \<Rightarrow> m68k_regs \<times> 'h mac \<Rightarrow> m68k_regs \<times> 'h mac" where
  "install_serial_driver E refnum driver drvr st =
     (let (r1, s1) = Execute68kTrap E 0xa53d (set_a 0 drvr (set_d 0 refnum (fst st))) (snd st);
          (r2, s2) = Execute68kTrap E 0xa029 r1 s1;
          drvr_ptr = get32 s2 (areg r2 0)
      in (r2, put16 (drvr_ptr + dCtlQHdr + qFlags) 9
                (put16 (drvr_ptr + dCtlFlags) (join16 (driver ! 0) (driver ! 1))
                  (put32 (drvr_ptr + dCtlDriver) drvr s2))))"

definition InstallSERD :: "'h env68k \<Rightarrow> rom_info \<Rightarrow> rom_vars \<Rightarrow> 'h mac \<Rightarrow> 'h mac" where
  "InstallSERD E R v s =
     snd (install_serial_driver E (- 9) bout_driver (ROMBaseMac R + serd_offset v + 0x400)
       (install_serial_driver E (- 8) bin_driver (ROMBaseMac R + serd_offset v + 0x300)
         (install_serial_driver E (- 7) aout_driver (ROMBaseMac R + serd_offset v + 0x200)
           (install_serial_driver E (- 6) ain_driver (ROMBaseMac R + serd_offset v + 0x100) (stack_junk E, s)))))"

section \<open>Entry points\<close>

text \<open>The Device Manager calls a driver at the five offsets from its header's byte 8 on: Open, Prime,
  Control, Status, Close; the name is a Pascal string behind them.\<close>

definition drvr_word :: "u8 list \<Rightarrow> nat \<Rightarrow> u16" where
  "drvr_word d k = join16 (d ! k) (d ! Suc k)"

definition drvr_entry :: "u8 list \<Rightarrow> nat \<Rightarrow> nat" where
  "drvr_entry d i = unat (drvr_word d (8 + 2 * i))"

definition drvr_name :: "u8 list \<Rightarrow> u8 list" where
  "drvr_name d = take (unat (d ! 18)) (drop 19 d)"

text \<open>The target of the short branch at \<open>k\<close>.\<close>

definition branch_target :: "u8 list \<Rightarrow> nat \<Rightarrow> nat" where
  "branch_target d k = k + 2 + unat (d ! Suc k)"

text \<open>The common end: with the bit "no queue" of the trap word, the result goes into the parameter
  block, otherwise to the Device Manager.\<close>

definition io_return :: "u8 list" where
  "io_return =
     [0x32, 0x28, 0, 6, 8, 1, 0, 9, 0x67, 0x0c, 0x4a, 0x40, 0x6f, 2, 0x42, 0x40, 0x31, 0x40, 0, 0x10,
      0x4e, 0x75, 0x4a, 0x40, 0x6f, 4, 0x42, 0x40, 0x4e, 0x75, 0x2f, 0x38, 8, 0xfc, 0x4e, 0x75]"

definition is_io_return :: "u8 list \<Rightarrow> nat \<Rightarrow> bool" where
  "is_io_return d k \<longleftrightarrow> take (length io_return) (drop k d) = io_return"

text \<open>A block driver executes the opcodes \<open>opc\<close>, \<open>opc + 1\<close>, ...; it cannot be closed.\<close>

definition block_driver_ok :: "u8 list \<times> u16 \<times> string \<Rightarrow> bool" where
  "block_driver_ok = (\<lambda>(d, opc, name).
     drvr_name d = map of_char name \<and>
     drvr_word d (drvr_entry d 0) = opc \<and> drvr_word d (drvr_entry d 0 + 2) = M68K_RTS \<and>
     drvr_word d (drvr_entry d 1) = opc + 1 \<and> is_io_return d (branch_target d (drvr_entry d 1 + 2)) \<and>
     drvr_word d (drvr_entry d 2) = opc + 2 \<and> is_io_return d (branch_target d (drvr_entry d 2 + 8)) \<and>
     drvr_word d (drvr_entry d 2 + 10) = M68K_RTS \<and>
     drvr_word d (drvr_entry d 3) = opc + 3 \<and> is_io_return d (drvr_entry d 3 + 2) \<and>
     drvr_word d (drvr_entry d 4) = 0x70e8 \<and> drvr_word d (drvr_entry d 4 + 2) = M68K_RTS)"

text \<open>A serial driver loads its port's number before each of the five opcodes.\<close>

definition serial_driver_ok :: "u8 list \<times> u16 \<times> string \<Rightarrow> bool" where
  "serial_driver_ok = (\<lambda>(d, port, name).
     drvr_name d = map of_char name \<and>
     list_all (\<lambda>i. drvr_word d (drvr_entry d i) = 0x7000 + port \<and>
                   drvr_word d (drvr_entry d i + 2) = M68K_EMUL_OP_SERIAL_OPEN + word_of_nat i) [0..<5] \<and>
     drvr_word d (drvr_entry d 0 + 4) = M68K_RTS \<and> drvr_word d (drvr_entry d 4 + 4) = M68K_RTS \<and>
     is_io_return d (branch_target d (drvr_entry d 1 + 4)) \<and>
     is_io_return d (branch_target d (drvr_entry d 2 + 10)) \<and> drvr_word d (drvr_entry d 2 + 12) = M68K_RTS \<and>
     is_io_return d (branch_target d (drvr_entry d 3 + 4)))"

text \<open>Each entry point of the drivers in the ROM calls its routine. For the three block drivers and the
  four serial drivers: the header's five offsets lead to the opcodes of Open, Prime, Control and
  Status (and of Close for the serial drivers, with the port's number loaded before), every branch leads
  to the code that returns the result, and the names are those that the drivers are opened by. The names at
  offset 0x12, which InstallDrivers() passes to Open(), are Pascal strings.\<close>

theorem driver_entry_points:
  "list_all block_driver_ok
     [(sony_driver, M68K_EMUL_OP_SONY_OPEN, ''.Sony''), (disk_driver, M68K_EMUL_OP_DISK_OPEN, ''.Disk''),
      (cdrom_driver, M68K_EMUL_OP_CDROM_OPEN, ''.AppleCD'')]
   \<and> list_all serial_driver_ok
     [(ain_driver, 0, ''.AIn''), (aout_driver, 1, ''.AOut''), (bin_driver, 2, ''.BIn''), (bout_driver, 3, ''.BOut'')]"
  by code_simp

end
