(* ===== verification/RsrcPatches.thy ===== *)
theory RsrcPatches
  imports CodePatches Prefs
begin

text \<open>
  "rsrc_patches.cpp": the patches of the system's code resources. The resource loader calls CheckLoad()
  with every resource that it has read; for some types and numbers the routine searches the resource for
  a byte string and overwrites instructions at a fixed distance from it. A resource of \<open>sz\<close>
  bytes lies at \<open>p\<close>. FlushCodeCache() tells the processor that code has changed; it is a parameter, as
  are the scratch memory and the flags of the audio component, which belong to the platform.
\<close>

section \<open>Searching and patching\<close>

record 'h patch_env =
  FlushCache :: "u32 \<Rightarrow> u32 \<Rightarrow> 'h \<Rightarrow> 'h"
  ScratchMemBase :: u32
  audio_component_flags :: u32
  patch_rom_base :: u32
  patch_prefs :: prefs

definition FlushCodeCache :: "'h patch_env \<Rightarrow> u32 \<Rightarrow> u32 \<Rightarrow> 'h mac \<Rightarrow> 'h mac" where
  "FlushCodeCache E a n s = s\<lparr>host := FlushCache E a n (host s)\<rparr>"

definition find_rsrc_data :: "u32 \<Rightarrow> u32 \<Rightarrow> u8 list \<Rightarrow> 'h mac \<Rightarrow> u32" where
  "find_rsrc_data rsrc rsrc_max search s = search_bytes rsrc (rsrc_max - word_of_nat (length search)) search 0 s"

text \<open>The block that most patches are: search; if found, write the words \<open>ws\<close> at their distances from the
  place, and flush \<open>len\<close> bytes from the distance \<open>off\<close>.\<close>

definition patch_found ::
  "'h patch_env \<Rightarrow> u8 list \<Rightarrow> (u32 \<times> u16) list \<Rightarrow> u32 \<Rightarrow> u32 \<Rightarrow> u32 \<Rightarrow> u32 \<Rightarrow> 'h mac \<Rightarrow> 'h mac" where
  "patch_found E dat ws off len p sz s =
     (let base = find_rsrc_data p sz dat s in
      if base \<noteq> 0 then FlushCodeCache E (p + base + off) len (put_at (p + base) ws s) else s)"

definition patch_idle_time :: "'h patch_env \<Rightarrow> u32 \<Rightarrow> u32 \<Rightarrow> 'h mac \<Rightarrow> 'h mac" where
  "patch_idle_time E p sz s =
     (if \<not> PrefsFindBool ''idlewait'' (patch_prefs E) then s
      else (let base = find_rsrc_data p sz [0x70, 0x03, 0xa0, 0x9f] s in
        if base \<noteq> 0 then
          (let pbase = p + base - 0x80;
               base = find_rsrc_data pbase 0x80 [0x20, 0x78, 0x02, 0xb6, 0x41, 0xe8, 0x00, 0x80] s in
           if base \<noteq> 0 then
             FlushCodeCache E (pbase + base) 4
               (put_at (pbase + base) [(0, M68K_EMUL_OP_IDLE_TIME), (2, M68K_NOP)] s)
           else s)
        else s))"

section \<open>The patches\<close>

definition fake_handle_dat :: "u8 list" where
  "fake_handle_dat = [0x20, 0x78, 0x02, 0xae, 0xd1, 0xfc, 0x00, 0x01, 0x00, 0x00, 0x21, 0xc8, 0x00, 0x00]"

definition fake_handle_code :: "'h patch_env \<Rightarrow> (u32 \<times> u16) list" where
  "fake_handle_code E =
     [(0, 0x207c), (2, ucast (drop_bit 16 (ScratchMemBase E))), (4, ucast (ScratchMemBase E)),
      (6, M68K_NOP), (8, M68K_NOP)]"

definition patch_boot_3 :: "'h patch_env \<Rightarrow> u32 \<Rightarrow> u32 \<Rightarrow> 'h mac \<Rightarrow> 'h mac" where
  "patch_boot_3 E p sz s =
     patch_found E fake_handle_dat (fake_handle_code E) 0 14 p sz
       (patch_found E [0x22, 0x00, 0xe4, 0x89, 0x90, 0x81, 0x22, 0x40]
          [(6, M68K_EMUL_OP_FIX_BOOTSTACK)] 6 2 p sz s)"

definition patch_boot_2 :: "'h patch_env \<Rightarrow> u32 \<Rightarrow> u32 \<Rightarrow> 'h mac \<Rightarrow> 'h mac" where
  "patch_boot_2 E p sz s = patch_found E fake_handle_dat (fake_handle_code E) 0 14 p sz s"

definition patch_PTCH_630 :: "'h patch_env \<Rightarrow> u32 \<Rightarrow> u32 \<Rightarrow> 'h mac \<Rightarrow> 'h mac" where
  "patch_PTCH_630 E p sz s =
     patch_found E [0x70, 0x58, 0xa2, 0x47] [(2, M68K_NOP), (10, M68K_NOP), (18, M68K_NOP)] 0 20 p sz
       (patch_found E [0x30, 0x3c, 0x00, 0x58, 0xa2, 0x47]
          [(4, M68K_NOP), (14, M68K_NOP), (24, M68K_NOP)] 0 26 p sz s)"

definition patch_ptch_26 :: "'h patch_env \<Rightarrow> u32 \<Rightarrow> u32 \<Rightarrow> 'h mac \<Rightarrow> 'h mac" where
  "patch_ptch_26 E p sz s =
     patch_found E [0x40, 0x83, 0x36, 0x10]
       [(0, ucast (drop_bit 16 (patch_rom_base E + 0x33610))), (2, ucast (patch_rom_base E + 0x33610))]
       0 4 p sz s"

definition patch_ptch_34 :: "'h patch_env \<Rightarrow> u32 \<Rightarrow> u32 \<Rightarrow> 'h mac \<Rightarrow> 'h mac" where
  "patch_ptch_34 E p sz s =
     patch_found E [0x21, 0xc0, 0x05, 0xf0] [(0, M68K_NOP), (2, M68K_NOP)] 0 4 p sz
       (patch_found E [0x22, 0x78, 0x01, 0xd4, 0x10, 0x11, 0x02, 0x00, 0x00, 0x30] [(14, M68K_NOP)] 14 2 p sz s)"

definition patch_gpch_750 :: "'h patch_env \<Rightarrow> u32 \<Rightarrow> u32 \<Rightarrow> 'h mac \<Rightarrow> 'h mac" where
  "patch_gpch_750 E p sz s =
     patch_idle_time E p sz
       (patch_found E [0x20, 0x5f, 0x22, 0x5f, 0x0c, 0x38, 0x00, 0x04, 0x01, 0x2f]
          [(4, M68K_EMUL_OP_BLOCK_MOVE), (6, 0x7000), (8, M68K_RTS)] 4 6 p sz s)"

definition patch_lpch_24 :: "'h patch_env \<Rightarrow> u32 \<Rightarrow> u32 \<Rightarrow> 'h mac \<Rightarrow> 'h mac" where
  "patch_lpch_24 E p sz s =
     patch_found E [0x70, 0x59, 0xa2, 0x47] [(2, M68K_NOP), (10, M68K_NOP), (26, M68K_NOP)] 2 28 p sz s"

definition patch_lpch_31 :: "'h patch_env \<Rightarrow> u32 \<Rightarrow> u32 \<Rightarrow> 'h mac \<Rightarrow> 'h mac" where
  "patch_lpch_31 E p sz s =
     patch_idle_time E p sz
       (patch_found E [0x0c, 0x6f, 0x00, 0x0e, 0x00, 0x04, 0x66, 0x0c]
          [(0, M68K_EMUL_OP_SCSI_DISPATCH), (2, 0x2e49), (4, M68K_JMP_A0)] 0 6 p sz
         (patch_found E [0x20, 0x78, 0x01, 0xd4, 0x08, 0xd0, 0x00, 0x07, 0x4e, 0x75]
            [(0, M68K_RTS)] 0 2 p sz s))"

definition patch_thng :: "'h patch_env \<Rightarrow> u32 \<Rightarrow> 'h mac \<Rightarrow> 'h mac" where
  "patch_thng E p s = put32 (p + 12) (audio_component_flags E) s"

definition sift_code :: "(u32 \<times> u16) list" where
  "sift_code =
     [(0, 0x4e56), (2, 0x0000), (4, 0x48e7), (6, 0x8018), (8, 0x266e), (10, 0x000c), (12, 0x286e),
      (14, 0x0008), (16, M68K_EMUL_OP_AUDIO), (18, 0x2d40), (20, 0x0010), (22, 0x4cdf), (24, 0x1801),
      (26, 0x4e5e), (28, 0x4e74), (30, 0x0008)]"

definition patch_sift :: "'h patch_env \<Rightarrow> u32 \<Rightarrow> 'h mac \<Rightarrow> 'h mac" where
  "patch_sift E p s = FlushCodeCache E p 32 (put_at p sift_code s)"

definition patch_inst :: "'h patch_env \<Rightarrow> u32 \<Rightarrow> u32 \<Rightarrow> 'h mac \<Rightarrow> 'h mac" where
  "patch_inst E p sz s =
     patch_found E [0x30, 0x3c, 0xa1, 0x93, 0xa2, 0x47] [(4, M68K_NOP)] 4 2 p sz s"

definition patch_Infra :: "'h patch_env \<Rightarrow> u32 \<Rightarrow> u32 \<Rightarrow> 'h mac \<Rightarrow> 'h mac" where
  "patch_Infra E p sz s =
     patch_found E [0x28, 0x78, 0x01, 0xd8, 0x48, 0xc7, 0x20, 0x0c, 0xd0, 0x87, 0x20, 0x40, 0x1c, 0x10]
       [(12, 0x7a00)] 12 2 p sz s"

definition patch_ltlk :: "'h patch_env \<Rightarrow> u32 \<Rightarrow> 'h mac \<Rightarrow> 'h mac" where
  "patch_ltlk E p s = FlushCodeCache E p 6 (put_at p [(0, M68K_JMP_A0), (2, 0x7000), (4, M68K_RTS)] s)"

definition patch_DRVR_41 :: "'h patch_env \<Rightarrow> u32 \<Rightarrow> u32 \<Rightarrow> 'h mac \<Rightarrow> 'h mac" where
  "patch_DRVR_41 E p sz s =
     patch_found E [0x3a, 0x2e, 0x00, 0x0a, 0x55, 0x4f, 0x3e, 0xb8, 0x02, 0x8e, 0x30, 0x1f, 0x48, 0xc0,
                    0x24, 0x40, 0x20, 0x40]
       [(4, 0x303c), (6, 0x028e), (8, M68K_NOP), (10, M68K_NOP)] 4 8 p sz s"

definition CheckLoad :: "'h patch_env \<Rightarrow> u32 \<Rightarrow> u16 \<Rightarrow> u32 \<Rightarrow> u32 \<Rightarrow> 'h mac \<Rightarrow> 'h mac" where
  "CheckLoad E type rid p sz s =
     (if type = fourcc_string ''boot'' \<and> rid = 3 then patch_boot_3 E p sz s
      else if type = fourcc_string ''boot'' \<and> rid = 2 then patch_boot_2 E p sz s
      else if type = fourcc_string ''PTCH'' \<and> rid = 630 then patch_PTCH_630 E p sz s
      else if type = fourcc_string ''ptch'' \<and> rid = 26 then patch_ptch_26 E p sz s
      else if type = fourcc_string ''ptch'' \<and> rid = 34 then patch_ptch_34 E p sz s
      else if type = fourcc_string ''gpch'' \<and> rid = 750 then patch_gpch_750 E p sz s
      else if type = fourcc_string ''lpch'' \<and> rid = 24 then patch_lpch_24 E p sz s
      else if type = fourcc_string ''lpch'' \<and> rid = 31 then patch_lpch_31 E p sz s
      else if type = fourcc_string ''thng'' \<and> rid = - 16563 then patch_thng E p s
      else if type = fourcc_string ''sift'' \<and> rid = - 16563 then patch_sift E p s
      else if type = fourcc_string ''inst'' \<and> rid = - 19069 then patch_inst E p sz s
      else if type = fourcc_string ''DRVR'' \<and> rid = - 20066 then patch_Infra E p sz s
      else if type = fourcc_string ''ltlk'' \<and> rid = 0 then patch_ltlk E p s
      else if type = fourcc_string ''DRVR'' \<and> rid = 41 then patch_DRVR_41 E p sz s
      else s)"

section \<open>Where a patch writes\<close>

lemma alters_Flush [simp]: "alters A s (FlushCodeCache E a n t) = alters A s t"
  by (simp add: FlushCodeCache_def)

lemma unat_base_less:
  assumes "base < sz - word_of_nat n" and "n \<le> unat (sz :: u32)"
  shows "unat base + n < unat sz"
proof -
  have n: "unat (word_of_nat n :: u32) = n"
    using assms(2) unsigned_less [of sz, where 'a = nat] by (simp add: unat_word_of_nat)
  then have "unat (sz - word_of_nat n) = unat sz - n"
    using assms(2) by (simp add: unat_sub word_le_nat_alt)
  then show ?thesis using assms(1) by (simp add: word_less_nat_alt)
qed

text \<open>A search in a resource that is not shorter than the pattern stays inside it, and a place that it
  returns is the first one, other than the start.\<close>

lemma find_rsrc_data_found:
  assumes "find_rsrc_data p sz dat s \<noteq> 0" and "length dat \<le> unat sz"
  shows "unat (find_rsrc_data p sz dat s) + length dat < unat sz"
    and "occurs dat (p + find_rsrc_data p sz dat s) s"
  using assms search_bytes_found [of p "sz - word_of_nat (length dat)" dat 0 s]
  by (auto simp: find_rsrc_data_def intro: unat_base_less)

lemma patch_found_inside:
  assumes "list_all (\<lambda>(off, w). unat off + 2 \<le> n) ws" and "length dat \<le> unat sz"
    and "unat sz + n \<le> Suc (N + length dat)"
  shows "alters (block p N) s (patch_found E dat ws off len p sz s)"
proof (cases "find_rsrc_data p sz dat s = 0")
  case False
  let ?b = "find_rsrc_data p sz dat s"
  have "unat ?b + length dat < unat sz" by (rule find_rsrc_data_found) fact+
  then have "unat ?b + n \<le> N" using assms(3) by linarith
  then have "alters (block p N) s (put_at (p + ?b) ws s)"
    using alters_put_at [OF assms(1)] block_sub by (blast intro: alters_mono)
  then show ?thesis by (simp add: patch_found_def Let_def)
qed (simp add: patch_found_def)

lemma patch_idle_time_inside:
  assumes "4 \<le> unat sz" "unat sz < 2 ^ 24"
  shows "alters (block (p - 126) (126 + unat sz)) s (patch_idle_time E p sz s)"
proof -
  let ?dat = "[0x70, 0x03, 0xa0, 0x9f] :: u8 list"
    and ?dat2 = "[0x20, 0x78, 0x02, 0xb6, 0x41, 0xe8, 0x00, 0x80] :: u8 list"
  let ?b = "find_rsrc_data p sz ?dat s"
  let ?c = "find_rsrc_data (p + ?b - 0x80) 0x80 ?dat2 s"
  show ?thesis
  proof (cases "?b \<noteq> 0 \<and> ?c \<noteq> 0 \<and> PrefsFindBool ''idlewait'' (patch_prefs E)")
    case True
    have b: "unat ?b + 4 < unat sz" "unat ?b \<noteq> 0"
      using find_rsrc_data_found [of p sz ?dat s] True assms by (auto simp: unat_eq_zero)
    have c: "unat ?c + 8 < 128" "unat ?c \<noteq> 0"
      using find_rsrc_data_found [of "p + ?b - 0x80" "0x80" ?dat2 s] True by (auto simp: unat_eq_zero)
    let ?i = "?b + ?c - 2"
    have "unat (?b + ?c) = unat ?b + unat ?c"
      using b c assms by (simp add: unat_word_ariths)
    moreover have "2 \<le> unat ?b + unat ?c" using b c by linarith
    ultimately have i: "unat ?i = unat ?b + unat ?c - 2" by (simp add: unat_sub word_le_nat_alt)
    have "alters (block (p - 126 + ?i) 4) s
            (put_at (p - 126 + ?i) [(0, M68K_EMUL_OP_IDLE_TIME), (2, M68K_NOP)] s)"
      by (rule alters_put_at) simp
    moreover have "block (p - 126 + ?i) 4 \<subseteq> block (p - 126) (126 + unat sz)"
      using b c i by (intro block_sub) linarith
    moreover have "p - 126 + ?i = p + ?b - 0x80 + ?c" by simp
    ultimately show ?thesis using True by (auto simp: patch_idle_time_def Let_def intro: alters_mono)
  qed (auto simp: patch_idle_time_def Let_def)
qed

text \<open>Each patch, in a resource of at least 18 bytes; the bounds beyond the end are the distances at
  which instructions are overwritten without a test that the resource is long enough.\<close>

lemma into_wide: "alters (block p (n + 23)) s t \<Longrightarrow> alters (block (p - 126) (126 + n + 23)) s t"
  using block_sub [of 126 "n + 23" "126 + n + 23" "p - 126"] by (auto intro: alters_mono)

lemma wider: "alters (block p n) s t \<Longrightarrow> n \<le> m \<Longrightarrow> alters (block p m) s t"
  by (erule alters_mono) (auto simp: block_def)

lemma alters_if:
  "(c \<Longrightarrow> alters A s t) \<Longrightarrow> (\<not> c \<Longrightarrow> alters A s u) \<Longrightarrow> alters A s (if c then t else u)"
  by simp

definition long_enough :: "u32 \<Rightarrow> bool" where
  "long_enough sz \<longleftrightarrow> 18 \<le> unat sz \<and> unat sz < 2 ^ 24"

lemma inside_patches:
  assumes "long_enough sz"
  shows "alters (block p (unat sz)) s (patch_boot_3 E p sz s)"
    "alters (block p (unat sz)) s (patch_boot_2 E p sz s)"
    "alters (block p (unat sz)) s (patch_ptch_26 E p sz s)"
    "alters (block p (unat sz)) s (patch_thng E p s)"
    "alters (block p (unat sz)) s (patch_inst E p sz s)"
    "alters (block p (unat sz)) s (patch_Infra E p sz s)"
    "alters (block p (unat sz)) s (patch_ltlk E p s)"
    "alters (block p (unat sz)) s (patch_DRVR_41 E p sz s)"
proof -
  have sz: "18 \<le> unat sz" using assms by (simp add: long_enough_def)
  show "alters (block p (unat sz)) s (patch_boot_3 E p sz s)"
    unfolding patch_boot_3_def
    by (rule alters_trans [OF patch_found_inside [where n = 8] patch_found_inside [where n = 10]])
      (use sz in \<open>simp_all add: fake_handle_dat_def fake_handle_code_def\<close>)
  show "alters (block p (unat sz)) s (patch_boot_2 E p sz s)"
    unfolding patch_boot_2_def
    by (rule patch_found_inside [where n = 10]) (use sz in \<open>simp_all add: fake_handle_dat_def fake_handle_code_def\<close>)
  show "alters (block p (unat sz)) s (patch_ptch_26 E p sz s)"
    unfolding patch_ptch_26_def by (rule patch_found_inside [where n = 4]) (use sz in simp_all)
  show "alters (block p (unat sz)) s (patch_thng E p s)"
    unfolding patch_thng_def by (rule alters_put32, rule block_sub) (use sz in simp)
  show "alters (block p (unat sz)) s (patch_inst E p sz s)"
    unfolding patch_inst_def by (rule patch_found_inside [where n = 6]) (use sz in simp_all)
  show "alters (block p (unat sz)) s (patch_Infra E p sz s)"
    unfolding patch_Infra_def by (rule patch_found_inside [where n = 14]) (use sz in simp_all)
  show "alters (block p (unat sz)) s (patch_ltlk E p s)"
    unfolding patch_ltlk_def alters_Flush by (rule wider [OF alters_put_at [where n = 6]]) (use sz in simp_all)
  show "alters (block p (unat sz)) s (patch_DRVR_41 E p sz s)"
    unfolding patch_DRVR_41_def by (rule patch_found_inside [where n = 12]) (use sz in simp_all)
qed

lemma overrun_patches:
  assumes "long_enough sz"
  shows "alters (block p (unat sz + 23)) s (patch_PTCH_630 E p sz s)"
    "alters (block p (unat sz + 23)) s (patch_ptch_34 E p sz s)"
    "alters (block p (unat sz + 23)) s (patch_lpch_24 E p sz s)"
    "alters (block p (unat sz + 23)) s (patch_sift E p s)"
proof -
  have sz: "18 \<le> unat sz" using assms by (simp add: long_enough_def)
  show "alters (block p (unat sz + 23)) s (patch_PTCH_630 E p sz s)"
    unfolding patch_PTCH_630_def
    by (rule alters_trans [OF patch_found_inside [where n = 26] patch_found_inside [where n = 20]]) (use sz in simp_all)
  show "alters (block p (unat sz + 23)) s (patch_ptch_34 E p sz s)"
    unfolding patch_ptch_34_def
    by (rule alters_trans [OF patch_found_inside [where n = 16] patch_found_inside [where n = 4]]) (use sz in simp_all)
  show "alters (block p (unat sz + 23)) s (patch_lpch_24 E p sz s)"
    unfolding patch_lpch_24_def by (rule patch_found_inside [where n = 28]) (use sz in simp_all)
  show "alters (block p (unat sz + 23)) s (patch_sift E p s)"
    unfolding patch_sift_def alters_Flush
    by (rule wider [OF alters_put_at [where n = 32]]) (use sz in \<open>simp_all add: sift_code_def\<close>)
qed

lemma idle_patches:
  assumes "long_enough sz"
  shows "alters (block (p - 126) (126 + unat sz)) s (patch_gpch_750 E p sz s)"
    "alters (block (p - 126) (126 + unat sz)) s (patch_lpch_31 E p sz s)"
proof -
  have sz: "18 \<le> unat sz" "4 \<le> unat sz" "unat sz < 2 ^ 24" using assms by (auto simp: long_enough_def)
  have sub: "block p (unat sz) \<subseteq> block (p - 126) (126 + unat sz)"
    using block_sub [of 126 "unat sz" "126 + unat sz" "p - 126"] by simp
  note idle = alters_trans [OF alters_mono [OF _ sub] patch_idle_time_inside [OF sz(2,3)]]
  show "alters (block (p - 126) (126 + unat sz)) s (patch_gpch_750 E p sz s)"
    unfolding patch_gpch_750_def
    by (rule idle, rule patch_found_inside [where n = 10]) (use sz in simp_all)
  show "alters (block (p - 126) (126 + unat sz)) s (patch_lpch_31 E p sz s)"
    unfolding patch_lpch_31_def
    by (rule idle, rule alters_trans [OF patch_found_inside [where n = 2] patch_found_inside [where n = 6]])
      (use sz in simp_all)
qed

definition overrunning :: "(u32 \<times> u16) list" where
  "overrunning =
     [(fourcc_string ''PTCH'', 630), (fourcc_string ''ptch'', 34), (fourcc_string ''lpch'', 24),
      (fourcc_string ''sift'', - 16563), (fourcc_string ''gpch'', 750), (fourcc_string ''lpch'', 31)]"

text \<open>C6. A resource patch stays near its resource. For a resource of at least 18 bytes (the longest
  pattern), CheckLoad() changes memory only from 126 bytes before it to 23 bytes behind it; for all
  types and numbers except the six of \<open>overrunning\<close> it changes only bytes of the resource. (A search
  does not return a place where the pattern would end behind the resource, but some of the
  instructions that are overwritten lie farther on, and the one of SynchIdleTime() lies before.)\<close>

theorem CheckLoad_confined:
  assumes "long_enough sz"
  shows "alters (block (p - 126) (126 + unat sz + 23)) s (CheckLoad E type rid p sz s)
     \<and> ((type, rid) \<notin> set overrunning \<longrightarrow> alters (block p (unat sz)) s (CheckLoad E type rid p sz s))"
proof (intro conjI impI)
  have wide: "alters (block (p - 126) (126 + unat sz + 23)) s t" if "alters (block p (unat sz)) s t" for t :: "'a mac"
    using wider [OF that] by (intro into_wide) simp
  have before: "alters (block (p - 126) (126 + unat sz + 23)) s t"
    if "alters (block (p - 126) (126 + unat sz)) s t" for t :: "'a mac"
    using wider [OF that] by simp
  note facts = inside_patches [OF assms] overrun_patches [OF assms, THEN into_wide]
    inside_patches [OF assms, THEN wide] idle_patches [OF assms, THEN before]
  show "alters (block (p - 126) (126 + unat sz + 23)) s (CheckLoad E type rid p sz s)"
    unfolding CheckLoad_def by (intro alters_if facts alters_refl)
  assume "(type, rid) \<notin> set overrunning"
  then show "alters (block p (unat sz)) s (CheckLoad E type rid p sz s)"
    unfolding CheckLoad_def by - (intro alters_if facts alters_refl; simp add: overrunning_def)
qed

text \<open>A resource of 18 bytes at 0x1000 whose bytes 13 to 16 are the pattern of the patch of 'lpch' 24.\<close>

definition demo_patch_env :: "(u32 \<times> u32) list patch_env" where
  "demo_patch_env = \<lparr>FlushCache = (\<lambda>a n h. (a, n) # h), ScratchMemBase = 0x20000, audio_component_flags = 1,
     patch_rom_base = 0x40800000, patch_prefs = []\<rparr>"

definition demo_rsrc :: "(u32 \<times> u32) list mac" where
  "demo_rsrc = put_bytes 0x100d [0x70, 0x59, 0xa2, 0x47] \<lparr>mem = (\<lambda>_. 0), host = [], calls = []\<rparr>"

lemma CheckLoad_confined_witness:
  "alters (block (0x1000 - 126) (126 + 18 + 23)) demo_rsrc
     (CheckLoad demo_patch_env (fourcc_string ''lpch'') 24 0x1000 18 demo_rsrc)
   \<and> alters (block 0x1000 18) demo_rsrc (CheckLoad demo_patch_env (fourcc_string ''inst'') (- 19069) 0x1000 18 demo_rsrc)"
proof -
  have l: "long_enough 18" by (simp add: long_enough_def)
  have "(fourcc_string ''inst'', - 19069) \<notin> set overrunning" by code_simp
  then show ?thesis
    using CheckLoad_confined [OF l, where p = "0x1000" and s = demo_rsrc and E = demo_patch_env] by simp
qed

text \<open>In that resource the last of the three words lies at 39, behind the end.\<close>

lemma demo_overrun:
  "get16 (CheckLoad demo_patch_env (fourcc_string ''lpch'') 24 0x1000 18 demo_rsrc) (0x1000 + 39) = M68K_NOP
   \<and> get16 demo_rsrc (0x1000 + 39) = 0"
  by code_simp

section \<open>Flushing the code cache\<close>

definition flushed :: "(u32 \<times> u32) list \<Rightarrow> u32 set" where
  "flushed l = (\<Union>(a, n) \<in> set l. block a (unat n))"

text \<open>Everything that has changed since \<open>s0\<close> has been flushed, when the host logs the calls.\<close>

definition flush_ok :: "(u32 \<times> u32) list mac \<Rightarrow> (u32 \<times> u32) list mac \<Rightarrow> bool" where
  "flush_ok s0 s \<longleftrightarrow> alters (flushed (host s)) s0 s"

definition logs_flushes :: "(u32 \<times> u32) list patch_env \<Rightarrow> bool" where
  "logs_flushes E \<longleftrightarrow> FlushCache E = (\<lambda>a n h. (a, n) # h)"

lemma flush_ok_put_at:
  assumes "logs_flushes E" and "flush_ok s0 s"
    and "list_all (\<lambda>(d, w). unat (d - off) + 2 \<le> unat len) ws"
  shows "flush_ok s0 (FlushCodeCache E (p + off) len (put_at p ws s))"
proof -
  have "put_at p ws s = put_at (p + off) (map (\<lambda>(d, w). (d - off, w)) ws) s"
    by (simp add: put_at_def fold_map comp_def case_prod_unfold)
  moreover have "list_all (\<lambda>(d, w). unat d + 2 \<le> unat len) (map (\<lambda>(d, w). (d - off, w)) ws)"
    using assms(3) by (simp add: list.pred_map comp_def case_prod_unfold)
  ultimately have "alters (block (p + off) (unat len)) s (put_at p ws s)" by (simp add: alters_put_at)
  then have "alters (flushed ((p + off, len) # host s)) s (put_at p ws s)"
    by (rule alters_mono) (auto simp: flushed_def)
  moreover have "alters (flushed ((p + off, len) # host s)) s0 s"
    using assms(2) unfolding flush_ok_def by (rule alters_mono) (auto simp: flushed_def)
  ultimately show ?thesis
    using assms(1) by (auto simp: flush_ok_def FlushCodeCache_def logs_flushes_def intro: alters_trans)
qed

lemma flush_ok_found:
  assumes "logs_flushes E" and "flush_ok s0 s"
    and "list_all (\<lambda>(d, w). unat (d - off) + 2 \<le> unat len) ws"
  shows "flush_ok s0 (patch_found E dat ws off len p sz s)"
  using flush_ok_put_at [OF assms, of "p + find_rsrc_data p sz dat s"] assms(2)
  by (simp add: patch_found_def Let_def)

lemma flush_ok_idle:
  assumes "logs_flushes E" and "flush_ok s0 s"
  shows "flush_ok s0 (patch_idle_time E p sz s)"
  using flush_ok_put_at [OF assms, of 0 4 "[(0, M68K_EMUL_OP_IDLE_TIME), (2, M68K_NOP)]"] assms(2)
  by (simp add: patch_idle_time_def Let_def)

lemma flush_ok_patches:
  assumes "logs_flushes E" and "flush_ok s0 s"
  shows "flush_ok s0 (patch_boot_3 E p sz s)" "flush_ok s0 (patch_boot_2 E p sz s)"
    "flush_ok s0 (patch_PTCH_630 E p sz s)" "flush_ok s0 (patch_ptch_26 E p sz s)"
    "flush_ok s0 (patch_ptch_34 E p sz s)" "flush_ok s0 (patch_gpch_750 E p sz s)"
    "flush_ok s0 (patch_lpch_24 E p sz s)" "flush_ok s0 (patch_lpch_31 E p sz s)"
    "flush_ok s0 (patch_sift E p s)" "flush_ok s0 (patch_inst E p sz s)"
    "flush_ok s0 (patch_Infra E p sz s)" "flush_ok s0 (patch_ltlk E p s)"
    "flush_ok s0 (patch_DRVR_41 E p sz s)"
  unfolding patch_boot_3_def patch_boot_2_def patch_PTCH_630_def patch_ptch_26_def patch_ptch_34_def
    patch_gpch_750_def patch_lpch_24_def patch_lpch_31_def patch_inst_def patch_Infra_def patch_DRVR_41_def
  using flush_ok_put_at [OF assms, of 0 32 sift_code p]
    flush_ok_put_at [OF assms, of 0 6 "[(0, M68K_JMP_A0), (2, 0x7000), (4, M68K_RTS)]" p]
  by ((intro flush_ok_idle flush_ok_found assms; simp add: fake_handle_code_def)
      | simp add: patch_sift_def patch_ltlk_def sift_code_def)+

text \<open>No stale code. The processor is told of every change: whatever CheckLoad() changes, except the
  flags of the audio component's description, which are data, lies in a range for which it called
  FlushCodeCache() before it returned.\<close>

theorem CheckLoad_flushes:
  assumes "logs_flushes E" and "(type, rid) \<noteq> (fourcc_string ''thng'', - 16563)"
  shows "alters (flushed (host (CheckLoad E type rid p sz s))) s (CheckLoad E type rid p sz s)"
proof -
  have "flush_ok s s" by (simp add: flush_ok_def)
  note facts = flush_ok_patches [OF assms(1) this] this
  have "flush_ok s (CheckLoad E type rid p sz s)"
    using assms(2) unfolding CheckLoad_def by (auto simp: facts)
  then show ?thesis by (simp add: flush_ok_def)
qed

lemma CheckLoad_flushes_witness:
  "alters (flushed (host (CheckLoad demo_patch_env (fourcc_string ''lpch'') 24 0x1000 18 demo_rsrc))) demo_rsrc
     (CheckLoad demo_patch_env (fourcc_string ''lpch'') 24 0x1000 18 demo_rsrc)
   \<and> host (CheckLoad demo_patch_env (fourcc_string ''lpch'') 24 0x1000 18 demo_rsrc) = [(0x100f, 28)]"
proof -
  have "logs_flushes demo_patch_env" by (simp add: logs_flushes_def demo_patch_env_def)
  moreover have "fourcc_string ''lpch'' \<noteq> fourcc_string ''thng''" by code_simp
  moreover have "host (CheckLoad demo_patch_env (fourcc_string ''lpch'') 24 0x1000 18 demo_rsrc) = [(0x100f, 28)]"
    by code_simp
  ultimately show ?thesis
    using CheckLoad_flushes [where E = demo_patch_env and type = "fourcc_string ''lpch''" and rid = 24
        and s = demo_rsrc and p = "0x1000" and sz = 18] by simp
qed

end
