(* ===== verification/RomPatches.thy ===== *)
theory RomPatches
  imports RomDrivers RsrcPatches Startup
begin

text \<open>
  PatchROM() of "rom_patches.cpp": the instructions of the Mac ROM that are overwritten so that the ROM
  runs without the Mac's hardware and calls the emulator's routines. A patch lies at a fixed offset, at a
  place that is searched for, or at the routine of a trap. patch_rom_32() is a sequence of steps, each of
  which may end it: \<open>False\<close> when a place that must exist is not found, \<open>None\<close> when a walk through the ROM's
  tables does not return.
\<close>

section \<open>Steps\<close>

type_synonym 'h rom_st = "rom_vars \<times> rom_info \<times> 'h mac"
type_synonym 'h rom_step = "'h rom_st \<Rightarrow> (bool \<times> 'h rom_st) option"

fun run_steps :: "'h rom_step list \<Rightarrow> 'h rom_step" where
  "run_steps [] st = Some (True, st)"
| "run_steps (f # fs) st =
     (case f st of None \<Rightarrow> None | Some (ok, st1) \<Rightarrow> if ok then run_steps fs st1 else Some (False, st1))"

text \<open>Words at offsets of the ROM, one list of words after the other.\<close>

definition put_rom :: "rom_info \<Rightarrow> (u32 \<times> u16 list) list \<Rightarrow> 'h mac \<Rightarrow> 'h mac" where
  "put_rom R ps s = fold (\<lambda>(ofs, ws). put_words (ROMBaseMac R + ofs) ws) ps s"

definition patch_at :: "(u32 \<times> u16 list) list \<Rightarrow> 'h rom_step" where
  "patch_at ps = (\<lambda>(v, R, s). Some (True, v, R, put_rom R ps s))"

definition if_found :: "u32 \<Rightarrow> u32 \<Rightarrow> u8 list \<Rightarrow> (u32 \<Rightarrow> (u32 \<times> u16 list) list) \<Rightarrow> 'h rom_step" where
  "if_found start fin dat ps = (\<lambda>(v, R, s).
     let base = find_rom_data R start fin dat s in
     if base \<noteq> 0 then Some (True, v, R, put_rom R (ps base) s) else Some (True, v, R, s))"

definition must_find :: "u32 \<Rightarrow> u32 \<Rightarrow> u8 list \<Rightarrow> (u32 \<Rightarrow> (u32 \<times> u16 list) list) \<Rightarrow> 'h rom_step" where
  "must_find start fin dat ps = (\<lambda>(v, R, s).
     let base = find_rom_data R start fin dat s in
     if base = 0 then Some (False, v, R, s) else Some (True, v, R, put_rom R (ps base) s))"

definition if_rom :: "(rom_info \<Rightarrow> bool) \<Rightarrow> 'h rom_step list \<Rightarrow> 'h rom_step list \<Rightarrow> 'h rom_step" where
  "if_rom c fs gs = (\<lambda>(v, R, s). run_steps (if c R then fs else gs) (v, R, s))"

definition rom_word :: "rom_info \<Rightarrow> u32 \<Rightarrow> 'h mac \<Rightarrow> u16" where
  "rom_word R ofs s = get16 s (ROMBaseMac R + ofs)"

definition if_word :: "(u16 \<Rightarrow> bool) \<Rightarrow> u32 \<Rightarrow> 'h rom_step list \<Rightarrow> 'h rom_step list \<Rightarrow> 'h rom_step" where
  "if_word c ofs fs gs = (\<lambda>(v, R, s). run_steps (if c (rom_word R ofs s) then fs else gs) (v, R, s))"

text \<open>A patch at the routine of a trap, and one at a resource; the search for a resource keeps its place
  in \<open>rsrc_ptr\<close>.\<close>

definition at_trap :: "u16 \<Rightarrow> (u32 \<Rightarrow> 'h rom_step) \<Rightarrow> 'h rom_step" where
  "at_trap trap f = (\<lambda>(v, R, s). case find_rom_trap R trap s of None \<Rightarrow> None | Some ofs \<Rightarrow> f ofs (v, R, s))"

definition with_resource :: "string \<Rightarrow> u16 \<Rightarrow> bool \<Rightarrow> (u32 \<Rightarrow> 'h rom_step) \<Rightarrow> 'h rom_step" where
  "with_resource ty rid cont f = (\<lambda>(v, R, s).
     case find_rom_resource R (fourcc_string ty) rid cont (rsrc_ptr v) s of
       None \<Rightarrow> None
     | Some (data, ptr) \<Rightarrow> f data (v\<lparr>rsrc_ptr := ptr\<rparr>, R, s))"

text \<open>A jump to a Mac address.\<close>

definition jmp_to :: "u32 \<Rightarrow> u16 list" where
  "jmp_to a = [M68K_JMP, ucast (drop_bit 16 a), ucast a]"

section \<open>The drivers and the stubs behind them\<close>

definition copy_drivers :: "'h rom_step" where
  "copy_drivers = (\<lambda>(v, R, s).
     let ofs = sony_rom_offset v; at = ROMBaseMac R + ofs in
     Some (True,
       v\<lparr>SonyDiskIcon_at := at + 0x400, SonyDriveIcon_at := at + 0x600, DiskIcon_at := at + 0x800,
         CDROMIcon_at := at + 0xa00\<rparr>, R,
       put_bytes (at + 0xa00) CDROMIcon (put_bytes (at + 0x800) DiskIcon
         (put_bytes (at + 0x600) SonyDriveIcon (put_bytes (at + 0x400) SonyDiskIcon
           (put_bytes (at + 0x200) cdrom_driver (put_bytes (at + 0x100) disk_driver
             (put_bytes at sony_driver s))))))))"

definition copy_serial :: "'h rom_step" where
  "copy_serial = (\<lambda>(v, R, s).
     let at = ROMBaseMac R + serd_offset v in
     Some (True, v, R,
       put_bytes (at + 0x400) bout_driver (put_bytes (at + 0x300) bin_driver
         (put_bytes (at + 0x200) aout_driver (put_bytes (at + 0x100) ain_driver
           (put_words (at + 12) [M68K_EMUL_OP_SERD, M68K_RTS] s))))))"

definition copy_adbop :: "u32 \<Rightarrow> 'h rom_step" where
  "copy_adbop ofs = (\<lambda>(v, R, s). Some (True, v, R, put_bytes (ROMBaseMac R + ofs) adbop_patch s))"

definition time_mgr_call :: "u16 \<Rightarrow> u16 list" where
  "time_mgr_call opc = [0x40e7, 0x007c, 0x0700, opc, 0x46df, M68K_RTS]"

definition microseconds_code :: "u16 list" where
  "microseconds_code = [M68K_EMUL_OP_MICROSECONDS, M68K_RTS]"

definition debugutil_code :: "u16 list" where
  "debugutil_code = [M68K_EMUL_OP_DEBUGUTIL, M68K_RTS]"

text \<open>PrimeTime() is followed by the routines that InstallDrivers() puts into the trap table.\<close>

definition patch_prime_time :: "u32 \<Rightarrow> 'h rom_step" where
  "patch_prime_time ofs = (\<lambda>(v, R, s).
     Some (True, v\<lparr>microseconds_offset := ofs + 12, debugutil_offset := ofs + 16\<rparr>, R,
       put_rom R [(ofs, time_mgr_call M68K_EMUL_OP_PRIMETIME @ microseconds_code @ debugutil_code)] s))"

definition scsi_dispatch_code :: "u16 list" where
  "scsi_dispatch_code = [M68K_EMUL_OP_SCSI_DISPATCH, 0x2e49, M68K_JMP_A0]"

definition check_load_code :: "u16 list" where
  "check_load_code = [0x2f03, 0x2078, 0x07f0, M68K_JSR_A0, 0x221f, M68K_EMUL_OP_CHECKLOAD, M68K_RTS]"

definition patch_check_load :: "u32 \<Rightarrow> 'h rom_step" where
  "patch_check_load ofs = (\<lambda>(v, R, s).
     Some (True, v, R,
       put_rom R [(ofs, jmp_to (ROMBaseMac R + sony_rom_offset v + 0x300)), (sony_rom_offset v + 0x300, check_load_code)] s))"

definition patch_put_scrap :: "u32 \<Rightarrow> 'h rom_step" where
  "patch_put_scrap trap_ofs = (\<lambda>(v, R, s).
     Some (True, v\<lparr>PutScrapPatch := ROMBaseMac R + sony_rom_offset v + 0xc00\<rparr>, R,
       put_rom R [(sony_rom_offset v + 0xc00, M68K_EMUL_OP_PUT_SCRAP # jmp_to (ROMBaseMac R + trap_ofs))] s))"

definition patch_get_scrap :: "u32 \<Rightarrow> 'h rom_step" where
  "patch_get_scrap trap_ofs = (\<lambda>(v, R, s).
     Some (True, v\<lparr>GetScrapPatch := ROMBaseMac R + sony_rom_offset v + 0xd00\<rparr>, R,
       put_rom R [(sony_rom_offset v + 0xd00, M68K_EMUL_OP_GET_SCRAP # jmp_to (ROMBaseMac R + trap_ofs))] s))"

section \<open>The ROM of the Mac Classic\<close>

definition set_offsets :: "u32 \<Rightarrow> u32 \<Rightarrow> 'h rom_step" where
  "set_offsets sony serd = (\<lambda>(v, R, s). Some (True, v\<lparr>sony_rom_offset := sony, serd_offset := serd\<rparr>, R, s))"

definition classic_startup :: "(u32 \<times> u16 list) list" where
  "classic_startup =
     [(0x1c40, [0x601e]), (0x1c6c, [0x7c00]), (0x50, [M68K_NOP, M68K_NOP]), (0x6a, [M68K_NOP, M68K_NOP]),
      (0x3364, [M68K_NOP]), (0xa2c0, [M68K_EMUL_OP_CLKNOMEM, 0x4ed5]), (0x11e, [M68K_NOP, M68K_NOP]),
      (0x3f82a, [M68K_EMUL_OP_INSTALL_DRIVERS, M68K_NOP, M68K_NOP, M68K_NOP]), (0xd5a, [0x601e])]"

definition classic_interrupts :: "(u32 \<times> u16 list) list" where
  "classic_interrupts =
     [(0x2b3a, [0x5888, 0x5888] @ replicate 7 M68K_NOP),
      (0x2be4, [M68K_NOP, M68K_NOP, M68K_EMUL_OP_IRQ, 0x4a80, 0x67f4])]"

definition patch_rom_classic :: "'h rom_step" where
  "patch_rom_classic = run_steps
     [patch_at classic_startup, set_offsets 0x34680 0x31bae, copy_drivers, copy_serial, copy_adbop 0x3880,
      patch_at [(0x1a95c, [M68K_EMUL_OP_INSTIME, M68K_RTS]), (0x1a96a, time_mgr_call M68K_EMUL_OP_RMVTIME)],
      patch_prime_time 0x1a984, patch_at [(0x1a206, scsi_dispatch_code)],
      patch_check_load 0xe740, patch_put_scrap 0x12794, patch_at classic_interrupts]"

section \<open>The 32-bit clean ROMs\<close>

text \<open>What the patches take from outside: the preferences, the processor, the scratch memory of the
  platform, and what the declaration ROM shows.\<close>

record rom_patch_env =
  rp_prefs :: prefs
  rp_cpu :: cpu_config
  rp_scratch :: u32
  rp_version :: string
  rp_build_date :: string
  rp_monitors :: "monitor_desc list"

definition rom_32_universal :: "rom_patch_env \<Rightarrow> 'h rom_step" where
  "rom_32_universal P = (\<lambda>(v, R, s).
     let base = find_rom_data R 0x3400 0x3c00 [0xdc, 0x00, 0x05, 0x05, 0x3f, 0xff, 0x01, 0x00] s in
     if base = 0 then Some (False, v, R, s)
     else (let ui = base - 0x10; at = ROMBaseMac R + ui;
               s1 = put_bytes (at + get32 s (at + 12)) (0x03 # replicate 15 0x08) s
           in Some (True, v\<lparr>UniversalInfo := ui\<rparr>, R, put8 (at + 18) (ucast (PrefsFindInt32 ''modelid'' (rp_prefs P))) s1)))"

text \<open>The table at 0x94a: pairs of an index into the hardware bases and a global variable, until 0xffff.\<close>

partial_function (option) hw_bases :: "u32 \<Rightarrow> u32 \<Rightarrow> u32 \<Rightarrow> 'h mac \<Rightarrow> 'h mac option" where
  "hw_bases scratch base wp s =
     (if get16 s wp = 0xffff then Some s
      else (let ofs = get16 s wp; lmg = get16 s (wp + 2) in
        hw_bases scratch base (wp + 4)
          (if lmg \<noteq> 0xcc0 then put32 (base + scast ofs * 4) scratch s else s)))"

definition rom_32_hw_bases :: "rom_patch_env \<Rightarrow> 'h rom_step" where
  "rom_32_hw_bases P = (\<lambda>(v, R, s).
     if PatchHWBases v then
       (let at = ROMBaseMac R + UniversalInfo v in
        case hw_bases (rp_scratch P) (at + get32 s at) (ROMBaseMac R + 0x94a) s of
          None \<Rightarrow> None | Some s1 \<Rightarrow> Some (True, v, R, s1))
     else Some (True, v, R, s))"

definition rom_32_fpu :: "rom_patch_env \<Rightarrow> 'h rom_step" where
  "rom_32_fpu P = (\<lambda>(v, R, s).
     Some (True, v, R, if FPUType (rp_cpu P) = 0 then put8 (ROMBaseMac R + UniversalInfo v + 22) 4 s else s))"

definition rom_32_reset :: "rom_patch_env \<Rightarrow> 'h rom_step" where
  "rom_32_reset P = (\<lambda>(v, R, s).
     Some (True, v, R, put_rom R
       [(0x8c, M68K_EMUL_OP_RESET # jmp_to (ROMBaseMac R + 0xba)), (0xc2, [M68K_NOP, M68K_NOP]),
        (0xc6, replicate 15 M68K_NOP), (0x7c0, [0x7e00 + word_of_int (CPUType (rp_cpu P)), M68K_RTS])] s))"

definition small_rom :: "rom_info \<Rightarrow> bool" where
  "small_rom R \<longleftrightarrow> ROMSize R \<le> 0x80000"

definition init_mmu_code :: "u32 \<Rightarrow> (u32 \<times> u16 list) list" where
  "init_mmu_code base = [(base, replicate 4 M68K_NOP), (base + 10, [0x7000, M68K_NOP])]"

text \<open>A single byte at a place that is searched for.\<close>

definition byte_if_found :: "u32 \<Rightarrow> u32 \<Rightarrow> u8 list \<Rightarrow> u32 \<Rightarrow> u8 \<Rightarrow> 'h rom_step" where
  "byte_if_found start fin dat off b = (\<lambda>(v, R, s).
     let base = find_rom_data R start fin dat s in
     Some (True, v, R, if base \<noteq> 0 then put8 (ROMBaseMac R + base + off) b s else s))"

definition rom_32_mmu :: "'h rom_step list" where
  "rom_32_mmu =
     [if_found 0xa00 0xb00 [0x42, 0x9a, 0x36, 0x0a, 0x66, 0xfa] (\<lambda>base. [(base + 2, [M68K_NOP, M68K_NOP])]),
      if_rom small_rom
        [must_find 0x4000 0x50000 [0x0c, 0x47, 0x00, 0x03, 0x62, 0x00, 0xfe] init_mmu_code]
        [must_find 0x80000 0x90000 [0x0c, 0x47, 0x00, 0x04, 0x62, 0x00, 0xfd] init_mmu_code],
      if_rom small_rom
        [byte_if_found 0x4000 0x50000 [0x08, 0x06, 0x00, 0x0d, 0x67] 4 0x60]
        [byte_if_found 0x80000 0x90000 [0x08, 0x06, 0x00, 0x0d, 0x67] 4 0x60],
      (let dat = [0x0c, 0x2e, 0x00, 0x01, 0xff, 0xe6, 0x66, 0x0c, 0x4c, 0xed, 0x03, 0x87, 0xff, 0xe8];
           ps = (\<lambda>base. [(base + 6, [M68K_NOP])])
       in if_rom small_rom [must_find 0x4000 0x50000 dat ps] [must_find 0x80000 0x90000 dat ps])]"

definition rom_32_xpram :: "'h rom_step list" where
  "rom_32_xpram =
     [if_found 0x40000 0x50000 [0x26, 0x4e, 0x41, 0xf9, 0x50, 0xf0, 0x00, 0x00, 0x08, 0x90, 0x00, 0x02]
        (\<lambda>base. [(base, [M68K_EMUL_OP_READ_XPRAM, 0x4ed6])]),
      if_found 0x40000 0x50000
        [0x26, 0x4e, 0x08, 0x92, 0x00, 0x02, 0xea, 0x59, 0x02, 0x01, 0x00, 0x07, 0x00, 0x01, 0x00, 0xb8]
        (\<lambda>base. [(base, [M68K_EMUL_OP_READ_XPRAM, 0x4ed6])]),
      if_rom small_rom []
        [if_found 0x80000 0x90000 [0x48, 0xe7, 0xe0, 0x60, 0x02, 0x01, 0x00, 0x70, 0x0c, 0x01, 0x00, 0x20]
           (\<lambda>base. [(base, [M68K_EMUL_OP_READ_XPRAM2, M68K_RTS])])],
      at_trap 0xa053 (\<lambda>ofs.
        let code = (\<lambda>base. [(base, [M68K_EMUL_OP_CLKNOMEM, 0x4ed5])]) in
        if_word (\<lambda>w. w = 0x4ed5) ofs
          [must_find 0xb0000 0xb8000 [0x40, 0xc2, 0x00, 0x7c, 0x07, 0x00, 0x48, 0x42] code]
          [patch_at (code ofs)]),
      patch_at [(0x10e, [M68K_EMUL_OP_PATCH_BOOT_GLOBS, M68K_NOP])]]"

definition time_k_code :: "u16 list" where
  "time_k_code = [0x31fc, 10000, 0x0d00, 0x31fc, 10000, 0x0d02, 0x31fc, 10000, 0x0b24, 0x31fc, 10000, 0x0cea, M68K_RTS]"

definition patch_fake_handle :: "rom_patch_env \<Rightarrow> 'h rom_step" where
  "patch_fake_handle P = patch_at [(0xccaa, [0x203c, ucast (drop_bit 16 (rp_scratch P)), ucast (rp_scratch P)])]"

definition rom_32_hardware :: "rom_patch_env \<Rightarrow> 'h rom_step list" where
  "rom_32_hardware P =
     [must_find 0xa00 0xa80 [0x08, 0x38, 0x00, 0x01, 0x0d, 0xd1, 0x67, 0x04] (\<lambda>base. [(base, [M68K_RTS])]),
      if_word (\<lambda>w. w = 0x50f1) 0x4234
        [if_word (\<lambda>w. w = 0xa101) 0x4236 [patch_at [(0x4232, replicate 5 M68K_NOP)]] []] [],
      patch_at [(0x9c0, [M68K_RTS]), (0x9a0, [M68K_RTS])],
      if_found 0x4000 0x5000 [0x26, 0x68, 0x00, 0x30, 0x12, 0x00, 0xeb, 0x01] (\<lambda>base. [(base, [0x4ed6])]),
      patch_at [(0x190, [M68K_NOP, M68K_NOP]), (0x9f4c, [M68K_RTS]), (0x800, time_k_code)],
      patch_fake_handle P,
      patch_at [(0xb0e2, [0x4cdf, 0x1f3f, M68K_RTS])],
      if_found 0x40000 0x50000 [0x20, 0x7c, 0x5f, 0xff, 0xff, 0xfc, 0x72, 0x07, 0xc2, 0x90]
        (\<lambda>base. [(base + 8, replicate 4 M68K_NOP)]),
      if_found 0x4000 0x5000 [0x45, 0xf9, 0x5f, 0xff, 0xff, 0xfc, 0x20, 0x12]
        (\<lambda>base. [(base + 6, [0x7000, 0xb040, 0x4ed6])])]"

definition install_slot_rom :: "rom_patch_env \<Rightarrow> 'h rom_step" where
  "install_slot_rom P = (\<lambda>(v, R, s).
     case InstallSlotROM (rp_version P) (rp_build_date P) (rp_monitors P) R s of
       None \<Rightarrow> None | Some (ok, R1, s1) \<Rightarrow> Some (ok, v, R1, s1))"

definition five_nops :: "u32 \<Rightarrow> (u32 \<times> u16 list) list" where
  "five_nops base = [(base, replicate 5 M68K_NOP)]"

text \<open>The instruction at 0x230 may be another one than the lea that the search is for.\<close>

definition rom_32_60hz :: "'h rom_step" where
  "rom_32_60hz = (\<lambda>(v, R, s).
     let base = find_rom_data R 0x230 0x234 [0x41, 0xf9] s in
     if base = 0 then
       if rom_word R 0x230 s = 0x6100 then Some (True, v, R, put_rom R (five_nops 0x230) s) else Some (False, v, R, s)
     else Some (True, v, R, put_rom R (five_nops base) s))"

definition boot_stack_code :: "u16 list" where
  "boot_stack_code =
     [0x2038, 0x010c, 0xd0b8, 0x02a6, 0xe288, 0x0880, 0x0000, 0x0440, 0x0400, 0x2040,
      M68K_EMUL_OP_FIX_MEMSIZE, M68K_RTS]"

definition rom_32_startup :: "'h rom_step list" where
  "rom_32_startup =
     [if_found 0x5000 0x6000 [0x45, 0xfa, 0x00, 0x0a, 0x42, 0xa7, 0x10, 0x11]
        (\<lambda>base. [(base + 6, replicate 3 M68K_NOP)]),
      must_find 0x226 0x22a [0x41, 0xf9] five_nops,
      rom_32_60hz,
      patch_at [(0x490, boot_stack_code)],
      if_found 0x4c000 0x4c080
        [0x22, 0x30, 0x81, 0xe2, 0x0d, 0xdc, 0xff, 0xba, 0xd2, 0xb0, 0x81, 0xe2, 0x0d, 0xdc, 0xff, 0xec,
         0x21, 0xc1, 0x1e, 0xf8]
        (\<lambda>base. [(base + 16, [M68K_NOP, M68K_NOP])]),
      patch_at [(0x1142, [M68K_EMUL_OP_INSTALL_DRIVERS]), (0x1144, replicate 4 M68K_NOP), (0x1150, [M68K_NOP])],
      if_word (\<lambda>w. w = 0) 0xa8a8
        [patch_at [(0xb2c6a, replicate 3 M68K_NOP), (0xb2d2e, replicate 12 M68K_NOP), (0xb2d4a, [M68K_NOP, M68K_NOP])]]
        [patch_at [(0xa8a8, replicate 3 M68K_NOP), (0xa662, replicate 5 M68K_NOP), (0xa670, [M68K_NOP, M68K_NOP])]],
      must_find 0x2ee 0x2f2 [0x41, 0xf9] five_nops,
      patch_at [(0x5b78, [M68K_NOP, M68K_NOP, 0x2401, 0x605e])]]"

definition block_move_code :: "u32 \<Rightarrow> (u32 \<times> u16 list) list" where
  "block_move_code base = [(base + 4, [M68K_EMUL_OP_BLOCK_MOVE, 0x7000, M68K_RTS])]"

definition sane_code :: "u32 \<Rightarrow> (u32 \<times> u16 list) list" where
  "sane_code base = [(base + 8, [M68K_NOP, 0xf4f8, M68K_NOP, 0x7000, M68K_RTS])]"

definition find_sane :: "'h rom_step" where
  "find_sane = (\<lambda>(v, R, s).
     if_found 0 (ROMSize R) [0x0c, 0x38, 0x00, 0x04, 0x01, 0x2f, 0x6d, 0x54, 0x48, 0xe7, 0xf8, 0x60] sane_code (v, R, s))"

definition rom_32_via2 :: "'h rom_step list" where
  "rom_32_via2 =
     [if_rom small_rom []
        [if_found 0x8c000 0x8d000 [0x22, 0x78, 0x0d, 0xd8, 0xd3, 0xe9, 0x00, 0x08] (\<lambda>base. [(base, [0x2401, M68K_RTS])])],
      must_find 0xa000 0xa400 [0x20, 0x78, 0x0c, 0xec, 0x11, 0x7c, 0x00, 0x90] (\<lambda>base. [(base + 4, [M68K_RTS])]),
      if_found 0x40000 0x44000 [0x20, 0x78, 0x0c, 0xec, 0x11, 0x7c, 0x00, 0x90, 0x00, 0x13, 0x4e, 0x75]
        (\<lambda>base. [(base + 4, [M68K_RTS])]),
      if_rom small_rom []
        [if_found 0x87000 0x87800 [0x20, 0x5f, 0x22, 0x5f, 0x0c, 0x38, 0x00, 0x04, 0x01, 0x2f] block_move_code,
         find_sane],
      if_found 0x4f100 0x4f180 [0x30, 0x3c, 0xa8, 0x9f, 0xa7, 0x46, 0x30, 0x3c, 0xa0, 0x5c, 0xa2, 0x47]
        (\<lambda>base. [(base + 10, [M68K_NOP])])]"

definition rom_32_edisk :: "'h rom_step" where
  "rom_32_edisk = with_resource ''DRVR'' 51 False (\<lambda>ofs.
     if ofs \<noteq> 0 then
       if_found ofs (ofs + 0x10000) [0xd5, 0xfc, 0x00, 0x01, 0x00, 0x00, 0xb5, 0xfc, 0x00, 0xe0, 0x00, 0x00]
         (\<lambda>base. [(base + 8, [0, 0])])
     else run_steps [])"

definition rom_32_drivers :: "'h rom_step list" where
  "rom_32_drivers =
     [with_resource ''DRVR'' 4 False (\<lambda>ofs (v, R, s). copy_drivers (v\<lparr>sony_rom_offset := ofs\<rparr>, R, s)),
      with_resource ''SERD'' 0 False (\<lambda>ofs (v, R, s). copy_serial (v\<lparr>serd_offset := ofs\<rparr>, R, s)),
      at_trap 0xa07c copy_adbop,
      at_trap 0xa058 (\<lambda>ofs. patch_at [(ofs, [M68K_EMUL_OP_INSTIME, M68K_RTS])]),
      at_trap 0xa059 (\<lambda>ofs. patch_at [(ofs, time_mgr_call M68K_EMUL_OP_RMVTIME)]),
      at_trap 0xa05a patch_prime_time,
      at_trap 0xa815 (\<lambda>ofs. patch_at [(ofs, scsi_dispatch_code)]),
      patch_check_load 0x1b8f4,
      at_trap 0xa05b (\<lambda>ofs. patch_at [(ofs, [M68K_EMUL_OP_SHUTDOWN])]),
      at_trap 0xa9fe patch_put_scrap,
      at_trap 0xa9fd patch_get_scrap]"

text \<open>There must be a PACK 4 resource; whether there are two only decides on a warning.\<close>

definition rom_32_pack4 :: "'h rom_step list" where
  "rom_32_pack4 =
     [with_resource ''PACK'' 4 False (\<lambda>ofs st. Some (ofs \<noteq> 0, st)),
      with_resource ''PACK'' 4 True (\<lambda>ofs. run_steps [])]"

definition rom_32_interrupts :: "(u32 \<times> u16 list) list" where
  "rom_32_interrupts =
     [(0x9bc4, 0x7002 # replicate 4 M68K_NOP), (0xa296, [M68K_NOP, M68K_NOP, M68K_EMUL_OP_IRQ, 0x4a80, 0x67f4])]"

definition patch_rom_32 :: "rom_patch_env \<Rightarrow> 'h rom_step" where
  "patch_rom_32 P = run_steps
     ([rom_32_universal P, rom_32_hw_bases P, rom_32_fpu P, rom_32_reset P] @ rom_32_mmu @ rom_32_xpram @
      rom_32_hardware P @ [install_slot_rom P] @ rom_32_startup @ rom_32_via2 @ [rom_32_edisk] @ rom_32_drivers @
      rom_32_pack4 @ [patch_at rom_32_interrupts])"

section \<open>PatchROM()\<close>

definition PatchROM :: "(u32 \<Rightarrow> u32 \<Rightarrow> 'h \<Rightarrow> 'h) \<Rightarrow> rom_patch_env \<Rightarrow> u16 \<Rightarrow> 'h rom_step" where
  "PatchROM flush P ROMVersion st =
     (case (if ROMVersion = ROM_VERSION_CLASSIC then patch_rom_classic st
            else if ROMVersion = ROM_VERSION_32 then patch_rom_32 P st
            else Some (False, st)) of
        None \<Rightarrow> None
      | Some (ok, v, R, s) \<Rightarrow>
          if \<not> ok then Some (False, v, R, s)
          else (let s1 = (if ROMBreakpoint v \<noteq> 0 then put_rom R [(ROMBreakpoint v, [M68K_EMUL_BREAK])] s else s)
                in Some (True, v, R, s1\<lparr>host := flush (ROMBaseMac R) (ROMSize R) (host s1)\<rparr>)))"

section \<open>The patched Classic ROM\<close>

lemma put_rom_image: "put_rom R ps s = put_image (ROMBaseMac R) (map (\<lambda>(ofs, ws). (ofs, words_bytes ws)) ps) s"
  by (induction ps arbitrary: s) (auto simp: put_rom_def put_words_bytes)

text \<open>What the patched ROM of the Mac Classic holds and where, in the order of the source.\<close>

definition words_at :: "(u32 \<times> u16 list) list \<Rightarrow> (u32 \<times> u8 list) list" where
  "words_at ps = map (\<lambda>(ofs, ws). (ofs, words_bytes ws)) ps"

definition classic_image :: "rom_info \<Rightarrow> (u32 \<times> u8 list) list" where
  "classic_image R =
     words_at classic_startup @
     [(0x34680, sony_driver), (0x34780, disk_driver), (0x34880, cdrom_driver), (0x34a80, SonyDiskIcon),
      (0x34c80, SonyDriveIcon), (0x34e80, DiskIcon), (0x35080, CDROMIcon)] @
     words_at [(0x31bba, [M68K_EMUL_OP_SERD, M68K_RTS])] @
     [(0x31cae, ain_driver), (0x31dae, aout_driver), (0x31eae, bin_driver), (0x31fae, bout_driver),
      (0x3880, adbop_patch)] @
     words_at
       [(0x1a95c, [M68K_EMUL_OP_INSTIME, M68K_RTS]), (0x1a96a, time_mgr_call M68K_EMUL_OP_RMVTIME),
        (0x1a984, time_mgr_call M68K_EMUL_OP_PRIMETIME),
        (0x1a990, microseconds_code), (0x1a994, debugutil_code),
        (0x1a206, scsi_dispatch_code), (0xe740, jmp_to (ROMBaseMac R + 0x34980)), (0x34980, check_load_code),
        (0x35280, M68K_EMUL_OP_PUT_SCRAP # jmp_to (ROMBaseMac R + 0x12794))] @
     words_at classic_interrupts"

definition classic_vars :: "rom_info \<Rightarrow> rom_vars \<Rightarrow> rom_vars" where
  "classic_vars R v = v\<lparr>sony_rom_offset := 0x34680, serd_offset := 0x31bae,
     SonyDiskIcon_at := ROMBaseMac R + 0x34a80, SonyDriveIcon_at := ROMBaseMac R + 0x34c80,
     DiskIcon_at := ROMBaseMac R + 0x34e80, CDROMIcon_at := ROMBaseMac R + 0x35080,
     microseconds_offset := 0x1a990, debugutil_offset := 0x1a994, PutScrapPatch := ROMBaseMac R + 0x35280\<rparr>"

lemma classic_result:
  "patch_rom_classic (v, R, s) = Some (True, classic_vars R v, R, put_image (ROMBaseMac R) (classic_image R) s)"
proof -
  let ?prime = "words_bytes (time_mgr_call M68K_EMUL_OP_PRIMETIME)"
    and ?micro = "words_bytes microseconds_code" and ?debug = "words_bytes debugutil_code"
  have "length ?prime = 12" "length ?micro = 4" by (simp_all add: time_mgr_call_def microseconds_code_def)
  then have prime: "put_bytes (a + 0x1a984) (?prime @ ?micro @ ?debug) s =
      put_bytes (a + 0x1a994) ?debug (put_bytes (a + 0x1a990) ?micro (put_bytes (a + 0x1a984) ?prime s))"
    for a and s :: "'a mac"
    by (simp add: put_bytes_append add.assoc)
  show ?thesis
    unfolding patch_rom_classic_def classic_image_def
    by (simp add: patch_at_def set_offsets_def copy_drivers_def copy_serial_def copy_adbop_def patch_prime_time_def
        patch_check_load_def patch_put_scrap_def put_rom_image put_words_bytes put_image_append words_at_def
        Let_def classic_vars_def prime add.assoc)
qed

lemma classic_no_overlap: "no_overlap 0x40000 (extents (classic_image R))"
proof -
  have "length sony_driver = 86" "length disk_driver = 86" "length cdrom_driver = 90"
    "length SonyDiskIcon = 258" "length SonyDriveIcon = 258" "length DiskIcon = 258" "length CDROMIcon = 258"
    "length ain_driver = 98" "length aout_driver = 100" "length bin_driver = 98" "length bout_driver = 100"
    "length adbop_patch = 54"
    by (simp_all add: sony_driver_def disk_driver_def cdrom_driver_def SonyDiskIcon_def SonyDriveIcon_def
        DiskIcon_def CDROMIcon_def ain_driver_def aout_driver_def bin_driver_def bout_driver_def adbop_patch_def)
  then show ?thesis
    by (simp add: extents_def classic_image_def words_at_def classic_startup_def classic_interrupts_def
        time_mgr_call_def microseconds_code_def debugutil_code_def scsi_dispatch_code_def jmp_to_def check_load_code_def)
qed

text \<open>C5. The patches of the Classic ROM do not disturb each other. For every ROM, patch_rom_classic()
  succeeds; afterwards each driver, icon, stub and instruction of the list \<open>classic_image\<close> is complete
  at its offset (no later patch has overwritten a part of it), nothing outside the 256 KB of the ROM has
  changed, and InstallDrivers() will find its routines behind PrimeTime().\<close>

theorem patch_rom_classic_complete:
  "\<exists>s1. patch_rom_classic (v, R, s) = Some (True, classic_vars R v, R, s1)
     \<and> image_at (ROMBaseMac R) (classic_image R) s1 \<and> alters (block (ROMBaseMac R) 0x40000) s s1
     \<and> host s1 = host s \<and> calls s1 = calls s"
  using image_stays [OF classic_no_overlap, where base = "ROMBaseMac R" and s = s]
    alters_put_image [OF classic_no_overlap, where base = "ROMBaseMac R" and s = s] by (simp add: classic_result)

section \<open>The outcomes\<close>

lemma run_steps_append:
  "run_steps (fs @ gs) st =
     (case run_steps fs st of None \<Rightarrow> None | Some (ok, st1) \<Rightarrow> if ok then run_steps gs st1 else Some (False, st1))"
  by (induction fs arbitrary: st) (auto split: option.splits)

definition universal_dat :: "u8 list" where
  "universal_dat = [0xdc, 0x00, 0x05, 0x05, 0x3f, 0xff, 0x01, 0x00]"


text \<open>A ROM of zeros has no such table.\<close>

lemma no_occurrence:
  assumes "\<And>a. get_bytes s a (length dat) \<noteq> dat"
  shows "search_bytes base lim dat ofs s = 0"
  using search_bytes_found(3) [of base lim dat ofs s] assms by (auto simp: occurs_def)

definition demo_rom_vars :: rom_vars where
  "demo_rom_vars = \<lparr>UniversalInfo = 0, PutScrapPatch = 0, GetScrapPatch = 0, ROMBreakpoint = 0, PatchHWBases = True,
     sony_rom_offset = 0, serd_offset = 0, microseconds_offset = 0, debugutil_offset = 0, rsrc_ptr = 0,
     SonyDiskIcon_at = 0, SonyDriveIcon_at = 0, DiskIcon_at = 0, CDROMIcon_at = 0\<rparr>"

definition demo_patch_rom :: rom_patch_env where
  "demo_patch_rom = \<lparr>rp_prefs = [], rp_cpu = \<lparr>CPUType = 4, CPUIs68060 = False, FPUType = 1, TwentyFourBitAddressing = False\<rparr>,
     rp_scratch = 0x10000, rp_version = ''V1.0'', rp_build_date = ''Jan  1 2000'', rp_monitors = []\<rparr>"


end
