(* ===== verification/EmulOp.thy ===== *)
theory EmulOp
  imports RomPatches RsrcPatches SCSI Serial EtherUnix AudioSDL ExtFSTransfer
begin

text \<open>
  "emul_op.cpp": the dispatcher. An opcode from 0x7101 on, in the patched ROM, in a patched resource or in
  a routine that a component has written into Mac memory, calls EmulOp() with the registers; it calls the
  component and puts the result into a register or on the stack. The host of the machine is here the
  record \<open>emul\<close>, which holds the variables of all components and, below, the host's own state: 68k code that
  a component runs may execute opcodes again and so change the variables of every component. The
  configuration is that of Unix with SDL audio; the clipboard, the
  video refresh, the sleep and the NMI of the platform are parameters.
\<close>

section \<open>The whole emulator\<close>

record 'o emul =
  e_desc :: "TMDesc list"
  e_adb :: adb_state
  e_sony :: sony_state
  e_disk :: disk_state
  e_cdrom :: cdrom_state
  e_scsi :: scsi_state
  e_monitors :: "monitor_desc list"
  e_serd :: "serd_port list"
  e_ether :: "unix_net ether_vars"
  e_audio :: "sdl_audio audio_vars"
  e_extfs :: extfs
  e_rom :: rom_vars
  XPRAM :: "u8 list"
  InterruptFlags :: u32
  e_crashed :: bool
  e_os :: 'o

type_synonym 'o emu = "'o emul mac"

record 'o emu_env =
  ee_68k :: "'o emul env68k"
  ee_sys :: "'o emul sys"
  ee_cd :: "'o emul cdsys"
  ee_scsi :: "'o emul scsi_dev"
  ee_video :: "nat \<Rightarrow> 'o emul video_sys"
  ee_serd :: "nat \<Rightarrow> 'o emul serd_sys"
  ee_net :: "'o emul net_dev"
  ee_sdl :: "'o emul sdl_dev"
  ee_fs :: "'o emul fsenv"
  ee_patch :: "'o emul patch_env"
  ee_clock :: "'o \<Rightarrow> timespec"
  ee_localtime :: "int \<Rightarrow> tm"
  ee_random :: u8
  ee_prefs :: prefs
  ee_cpu :: cpu_config
  ee_rom :: rom_info
  ee_ROMVersion :: u16
  RAMBaseMac :: u32
  RAMSize :: u32
  VideoInterrupt :: "'o emu \<Rightarrow> 'o emu"
  TriggerNMI :: "'o emu \<Rightarrow> 'o emu"
  idle_wait :: "'o emu \<Rightarrow> 'o emu"
  PutScrap :: "u32 \<Rightarrow> u32 \<Rightarrow> u32 \<Rightarrow> 'o emu \<Rightarrow> 'o emu"
  GetScrap :: "u32 \<Rightarrow> u32 \<Rightarrow> u32 \<Rightarrow> 'o emu \<Rightarrow> 'o emu"

text \<open>An opcode returns the registers, or ends the emulator; \<open>None\<close> is undefined behaviour of a component.\<close>

type_synonym 'o emu_res = "(m68k_regs option \<times> 'o emu) option"

definition e_upd :: "('o emul \<Rightarrow> 'o emul) \<Rightarrow> 'o emu \<Rightarrow> 'o emu" where
  "e_upd f s = s\<lparr>host := f (host s)\<rparr>"

definition regs_ok :: "m68k_regs \<Rightarrow> 'o emu \<Rightarrow> 'o emu_res" where
  "regs_ok r s = Some (Some r, s)"

definition QuitEmulator :: "'o emu \<Rightarrow> 'o emu_res" where
  "QuitEmulator s = Some (None, s)"

text \<open>A result of 16 bits in D0, with its sign.\<close>

definition d0_result :: "m68k_regs \<Rightarrow> u16 \<times> 'o emu \<Rightarrow> 'o emu_res" where
  "d0_result r = (\<lambda>(res, s). regs_ok (set_d 0 (scast res) r) s)"

section \<open>A component's part of the state\<close>

text \<open>The Time Manager and ADB keep their variables in the host of the machine, since the 68k code
  that they call may use them. Their machine is the emulator with the variables taken out.\<close>

definition map_host :: "('a \<Rightarrow> 'b) \<Rightarrow> 'a mac \<Rightarrow> 'b mac" where
  "map_host f s = \<lparr>mem = mem s, host = f (host s), calls = calls s\<rparr>"

definition map_env :: "('a \<Rightarrow> 'b) \<Rightarrow> ('b \<Rightarrow> 'a) \<Rightarrow> 'a env68k \<Rightarrow> 'b env68k" where
  "map_env inn out E = \<lparr>
     run_trap = (\<lambda>t r (m, h). case run_trap E t r (m, out h) of (r1, m1, e) \<Rightarrow> (r1, m1, inn e)),
     run_code = (\<lambda>a r (m, h). case run_code E a r (m, out h) of (r1, m1, e) \<Rightarrow> (r1, m1, inn e)),
     stack_junk = stack_junk E\<rparr>"

definition tm_in :: "'o emul \<Rightarrow> 'o emul tm_host" where
  "tm_in e = \<lparr>desc = e_desc e, os = e\<rparr>"

definition tm_out :: "'o emul tm_host \<Rightarrow> 'o emul" where
  "tm_out h = (os h)\<lparr>e_desc := desc h\<rparr>"

definition adb_in :: "'o emul \<Rightarrow> 'o emul adb_host" where
  "adb_in e = \<lparr>adb = e_adb e, adb_os = e\<rparr>"

definition adb_out :: "'o emul adb_host \<Rightarrow> 'o emul" where
  "adb_out h = (adb_os h)\<lparr>e_adb := adb h\<rparr>"

definition on_timer :: "('o emul tm_mac \<Rightarrow> 'a \<times> 'o emul tm_mac) \<Rightarrow> 'o emu \<Rightarrow> 'a \<times> 'o emu" where
  "on_timer f s = (case f (map_host tm_in s) of (x, t) \<Rightarrow> (x, map_host tm_out t))"

definition on_adb :: "('o emul adb_mac \<Rightarrow> ('a \<times> 'o emul adb_mac) option) \<Rightarrow> 'o emu \<Rightarrow> ('a \<times> 'o emu) option" where
  "on_adb f s = map_option (\<lambda>(x, t). (x, map_host adb_out t)) (f (map_host adb_in s))"

text \<open>The others are called with their variables beside the machine.\<close>

definition on_part ::
  "('o emul \<Rightarrow> 's) \<Rightarrow> (('s \<Rightarrow> 's) \<Rightarrow> 'o emul \<Rightarrow> 'o emul) \<Rightarrow> ('s \<Rightarrow> 'o emu \<Rightarrow> 'a \<times> 's \<times> 'o emu) \<Rightarrow> 'o emu \<Rightarrow> 'a \<times> 'o emu" where
  "on_part get upd f s =
     (case f (get (host s)) s of (x, p, s1) \<Rightarrow> (x, e_upd (upd (\<lambda>_. p)) s1))"

definition on_part_opt ::
  "('o emul \<Rightarrow> 's) \<Rightarrow> (('s \<Rightarrow> 's) \<Rightarrow> 'o emul \<Rightarrow> 'o emul) \<Rightarrow> ('s \<Rightarrow> 'o emu \<Rightarrow> ('a \<times> 's \<times> 'o emu) option)
    \<Rightarrow> 'o emu \<Rightarrow> ('a \<times> 'o emu) option" where
  "on_part_opt get upd f s =
     map_option (\<lambda>(x, p, s1). (x, e_upd (upd (\<lambda>_. p)) s1)) (f (get (host s)) s)"

abbreviation (input) "on_sony \<equiv> on_part e_sony e_sony_update"
abbreviation (input) "on_disk \<equiv> on_part e_disk e_disk_update"
abbreviation (input) "on_cdrom \<equiv> on_part e_cdrom e_cdrom_update"
abbreviation (input) "on_scsi \<equiv> on_part e_scsi e_scsi_update"

text \<open>The external file system: an early return with an error code is a result as any other.\<close>

definition fs_result :: "(u16 + u16) \<times> 'o emul xs \<Rightarrow> u16 \<times> extfs \<times> 'o emu" where
  "fs_result = (\<lambda>(x, v, s). (case x of Inl e \<Rightarrow> e | Inr y \<Rightarrow> y, v, s))"

definition on_extfs :: "('o emul, u16) fsop \<Rightarrow> 'o emu \<Rightarrow> (u16 \<times> 'o emu) option" where
  "on_extfs f = on_part_opt e_extfs e_extfs_update (\<lambda>v s. map_option fs_result (f (v, s)))"

section \<open>Start-up\<close>

definition boot_globs :: "'o emu_env \<Rightarrow> u32" where
  "boot_globs E = RAMBaseMac E + RAMSize E - 0x1c"

text \<open>TimerReset(), EtherReset() and AudioReset().\<close>

definition reset_components :: "'o emu_env \<Rightarrow> 'o emu \<Rightarrow> 'o emu" where
  "reset_components E s =
     (let s1 = e_upd (e_desc_update TimerReset) s;
          ((), s2) = on_part e_ether e_ether_update
                       (\<lambda>v s. Pair () (EtherReset (unix_ether (ee_net E)) (v, s))) s1
      in e_upd (e_audio_update AudioReset) s2)"

definition put_boot_globs :: "'o emu_env \<Rightarrow> 'o emu \<Rightarrow> 'o emu" where
  "put_boot_globs E s =
     (let b = boot_globs E; s1 = s\<lparr>mem := Mac_memset (RAMBaseMac E + RAMSize E - 4096) 0 4096 (mem s)\<rparr>
      in put32 (b + 0x0c) 0 (put32 (b + 8) 0xffffffff (put32 (b + 4) (RAMSize E) (put32 b (RAMBaseMac E) s1))))"

definition op_reset :: "'o emu_env \<Rightarrow> m68k_regs \<Rightarrow> 'o emu \<Rightarrow> 'o emu_res" where
  "op_reset E r s =
     (let s1 = put_boot_globs E (reset_components E s);
          ui = ROMBaseMac (ee_rom E) + UniversalInfo (e_rom (host s1));
          hw = get32 s1 (ui + 0x10);
          d2 = (if FPUType (ee_cpu E) \<noteq> 0 then hw OR 0x10000000 else hw AND 0xefffffff)
      in regs_ok (set_a 7 (RAMBaseMac E + 0x10000) (set_a 6 (boot_globs E) (set_a 1 ui (set_a 0 (ui + get32 s1 ui)
           (set_d 2 d2 (set_d 1 (get32 s1 (ui + 0x1c)) (set_d 0 (get32 s1 (ui + 0x18)) r))))))) s1)"

definition op_patch_boot_globs :: "'o emu_env \<Rightarrow> m68k_regs \<Rightarrow> 'o emu \<Rightarrow> 'o emu_res" where
  "op_patch_boot_globs E r s =
     (let b = areg r 4; top = RAMBaseMac E + RAMSize E;
          s1 = put8 (b - 26) 0 (put32 (b - 20) top s)
      in regs_ok (set_a 6 top r) (put8 (b - 25) (get8 s1 (b - 25) OR 1) s1))"

definition op_fix_bootstack :: "'o emu_env \<Rightarrow> m68k_regs \<Rightarrow> 'o emu \<Rightarrow> 'o emu_res" where
  "op_fix_bootstack E r s = regs_ok (set_a 1 (RAMBaseMac E + RAMSize E * 3 div 4) r) s"

definition op_fix_memsize :: "'o emu_env \<Rightarrow> m68k_regs \<Rightarrow> 'o emu \<Rightarrow> 'o emu_res" where
  "op_fix_memsize E r s =
     (let diff = get32 s 0x1ef8 - get32 s 0x1ef4
      in regs_ok r (put32 0x1ef4 (RAMSize E - diff) (put32 0x1ef8 (RAMSize E) s)))"

definition set_tool_trap :: "'o emu_env \<Rightarrow> u32 \<Rightarrow> u32 \<Rightarrow> m68k_regs \<times> 'o emu \<Rightarrow> m68k_regs \<times> 'o emu" where
  "set_tool_trap E t addr st =
     (if addr \<noteq> 0 then Execute68kTrap (ee_68k E) 0xa647 (set_a 0 addr (set_d 0 t (fst st))) (snd st) else st)"

text \<open>The registers of the calls are local ones and not those of the caller.\<close>

definition op_install_drivers :: "'o emu_env \<Rightarrow> m68k_regs \<Rightarrow> 'o emu \<Rightarrow> 'o emu_res" where
  "op_install_drivers E r s =
     (let s1 = InstallDrivers (ee_68k E) (ee_rom E) (ee_prefs E) (e_rom (host s)) (areg r 0) s;
          st1 = set_tool_trap E 0xa9fe (PutScrapPatch (e_rom (host s1))) (stack_junk (ee_68k E), s1);
          (r2, s2) = set_tool_trap E 0xa9fd (GetScrapPatch (e_rom (host (snd st1)))) st1
      in if ee_ROMVersion E = ROM_VERSION_32 then
           (let (r3, s3) = Execute68kTrap (ee_68k E) 0xa71e (set_d 0 0x1000 r2) s2; asc_regs = areg r3 0
            in regs_ok r (put32 0xcc0 asc_regs (put8 (asc_regs + 0x800) 0x0f s3)))
         else regs_ok r s2)"

section \<open>Parameter RAM and clock\<close>

definition xpram_reg :: "u32 \<Rightarrow> nat" where
  "xpram_reg d1 = unat (ucast (push_bit 5 d1 AND 0xe0 OR drop_bit 10 d1 AND 0x1f) :: u8)"

definition is_xpram_op :: "u32 \<Rightarrow> bool" where
  "is_xpram_op d1 \<longleftrightarrow> d1 AND 0x78 = 0x38"

definition is_read_op :: "u32 \<Rightarrow> bool" where
  "is_read_op d1 \<longleftrightarrow> d1 AND 0x80 \<noteq> 0"

definition xpram_read :: "u16 \<Rightarrow> nat \<Rightarrow> u8 list \<Rightarrow> u32" where
  "xpram_read version reg xp =
     (let b = ucast (xp ! reg) :: u32; localtalk = (\<not> (xp ! 0xe0 \<noteq> 0 \<or> xp ! 0xe1 \<noteq> 0)) in
      if reg = 0x08 then (if version \<noteq> ROM_VERSION_32 then b AND 0xf8 else b)
      else if reg = 0x8a then b OR 0x05
      else if reg = 0xe0 then (if localtalk then 0x00 else b)
      else if reg = 0xe1 then (if localtalk then 0xf1 else b)
      else if reg = 0xe2 then (if localtalk then 0x00 else b)
      else if reg = 0xe3 then (if localtalk then 0x0a else b)
      else b)"

definition xpram_value :: "cpu_config \<Rightarrow> nat \<Rightarrow> u32 \<Rightarrow> u32" where
  "xpram_value c reg d2 = (if reg = 0x8a \<and> \<not> TwentyFourBitAddressing c then d2 OR 0x05 else d2)"

definition set_xpram :: "nat \<Rightarrow> u8 \<Rightarrow> 'o emu \<Rightarrow> 'o emu" where
  "set_xpram reg b = e_upd (XPRAM_update (\<lambda>xp. xp[reg := b]))"

definition TimerDateTime :: "'o emu_env \<Rightarrow> 'o emu \<Rightarrow> u32" where
  "TimerDateTime E s = TimeToMacTime (ee_localtime E) (tv_sec (ee_clock E (e_os (host s))))"

definition clock_byte :: "nat \<Rightarrow> u32 \<Rightarrow> u8" where
  "clock_byte reg t =
     (if reg mod 4 = 1 then ucast (drop_bit 8 t) else if reg mod 4 = 2 then ucast (drop_bit 16 t)
      else if reg mod 4 = 3 then ucast (drop_bit 24 t) else ucast t)"

text \<open>The other registers: the old parameter RAM, and the clock, which is only read.\<close>

definition pram_op :: "'o emu_env \<Rightarrow> bool \<Rightarrow> nat \<Rightarrow> u32 \<Rightarrow> 'o emu \<Rightarrow> u32 \<times> 'o emu" where
  "pram_op E rd reg d2 s =
     (if reg \<ge> 0x10 \<or> reg \<ge> 0x08 \<and> reg < 0x0c then
        (if rd then (ucast (XPRAM (host s) ! reg), s) else (d2, set_xpram reg (ucast d2) s))
      else if reg < 0x08 \<and> rd then (ucast (clock_byte reg (TimerDateTime E s)), s)
      else (d2, s))"

definition op_clknomem :: "'o emu_env \<Rightarrow> m68k_regs \<Rightarrow> 'o emu \<Rightarrow> 'o emu_res" where
  "op_clknomem E r s =
     (let d1 = dreg r 1; d2 = dreg r 2;
          (v, s1) =
            (if is_xpram_op d1 then
               (if is_read_op d1 then (xpram_read (ee_ROMVersion E) (xpram_reg d1) (XPRAM (host s)), s)
                else (let w = xpram_value (ee_cpu E) (xpram_reg d1) d2
                      in (w, set_xpram (xpram_reg d1) (ucast w) s)))
             else pram_op E (is_read_op d1) (unat (drop_bit 2 d1 AND 0x1f)) d2 s)
      in regs_ok (set_d 1 v (set_d 0 0 (set_d 2 v r))) s1)"

definition op_read_xpram :: "nat \<Rightarrow> m68k_regs \<Rightarrow> 'o emu \<Rightarrow> 'o emu_res" where
  "op_read_xpram n r s = regs_ok (set_d n (ucast (XPRAM (host s) ! unat (dreg r n AND 0xff))) r) s"

section \<open>Managers and drivers\<close>

definition op_adbop :: "'o emu_env \<Rightarrow> m68k_regs \<Rightarrow> 'o emu \<Rightarrow> 'o emu_res" where
  "op_adbop E r s =
     (case on_adb (\<lambda>t. Some ((), ADBOp (ee_random E) (ucast (dreg r 0)) (get32 s (areg r 0)) t)) s of
        None \<Rightarrow> None | Some (_, s1) \<Rightarrow> regs_ok r s1)"

definition tm_clock :: "'o emu_env \<Rightarrow> 'o emul \<Rightarrow> timespec" where
  "tm_clock E e = ee_clock E (e_os e)"

definition op_instime :: "'o emu_env \<Rightarrow> m68k_regs \<Rightarrow> 'o emu \<Rightarrow> 'o emu_res" where
  "op_instime E r s = d0_result r (on_timer (InsTime (areg r 0) (ucast (dreg r 1))) s)"

definition op_rmvtime :: "'o emu_env \<Rightarrow> m68k_regs \<Rightarrow> 'o emu \<Rightarrow> 'o emu_res" where
  "op_rmvtime E r s = d0_result r (on_timer (RmvTime (tm_clock E) (areg r 0)) s)"

definition op_primetime :: "'o emu_env \<Rightarrow> m68k_regs \<Rightarrow> 'o emu \<Rightarrow> 'o emu_res" where
  "op_primetime E r s = d0_result r (on_timer (PrimeTime (tm_clock E) (areg r 0) (dreg r 0)) s)"

definition Microseconds :: "timespec \<Rightarrow> u32 \<times> u32" where
  "Microseconds t =
     (let tl = word_of_int (tv_sec t) * 1000000 + word_of_int (tv_nsec t sdiv 1000) :: u64
      in (ucast (drop_bit 32 tl), ucast tl))"

definition op_microseconds :: "'o emu_env \<Rightarrow> m68k_regs \<Rightarrow> 'o emu \<Rightarrow> 'o emu_res" where
  "op_microseconds E r s =
     (let (hi, lo) = Microseconds (tm_clock E (host s)) in regs_ok (set_d 0 lo (set_a 0 hi r)) s)"

definition op_serd :: "'o emu_env \<Rightarrow> m68k_regs \<Rightarrow> 'o emu \<Rightarrow> 'o emu_res" where
  "op_serd E r s = regs_ok r (InstallSERD (ee_68k E) (ee_rom E) (e_rom (host s)) s)"

text \<open>A driver's routine gets the parameter block and the device control entry.\<close>

definition drv ::
  "(u32 \<Rightarrow> u32 \<Rightarrow> 'o emu \<Rightarrow> u16 \<times> 'o emu) \<Rightarrow> m68k_regs \<Rightarrow> 'o emu \<Rightarrow> 'o emu_res" where
  "drv f r s = d0_result r (f (areg r 0) (areg r 1) s)"

definition drv_opt ::
  "(u32 \<Rightarrow> u32 \<Rightarrow> 'o emu \<Rightarrow> (u16 \<times> 'o emu) option) \<Rightarrow> m68k_regs \<Rightarrow> 'o emu \<Rightarrow> 'o emu_res" where
  "drv_opt f r s = (case f (areg r 0) (areg r 1) s of None \<Rightarrow> None | Some res \<Rightarrow> d0_result r res)"

text \<open>Installing the external file system is the last thing that accRun does at its first call.\<close>

definition PatchAfterStartup :: "'o emu_env \<Rightarrow> 'o emu \<Rightarrow> 'o emu" where
  "PatchAfterStartup E s =
     (case InstallExtFS (ee_fs E) (e_extfs (host s), s) of
        None \<Rightarrow> e_upd (e_crashed_update (\<lambda>_. True)) s
      | Some (_, v, s1) \<Rightarrow> e_upd (e_extfs_update (\<lambda>_. v)) s1)"

definition op_sony_control :: "'o emu_env \<Rightarrow> m68k_regs \<Rightarrow> 'o emu \<Rightarrow> 'o emu_res" where
  "op_sony_control E r s =
     (case drv (\<lambda>pb dce. on_sony (SonyControl False (ee_sys E) (ee_68k E) (PatchAfterStartup E) pb dce)) r s of
        None \<Rightarrow> None
      | Some (res, s1) \<Rightarrow> if e_crashed (host s1) then None else Some (res, s1))"

definition stateless :: "('s \<Rightarrow> 'o emu \<Rightarrow> 'a \<times> 'o emu) \<Rightarrow> 's \<Rightarrow> 'o emu \<Rightarrow> 'a \<times> 's \<times> 'o emu" where
  "stateless f p s = (case f p s of (x, s1) \<Rightarrow> (x, p, s1))"

definition sony_ops :: "'o emu_env \<Rightarrow> (u16 \<times> (m68k_regs \<Rightarrow> 'o emu \<Rightarrow> 'o emu_res)) list" where
  "sony_ops E =
     [(M68K_EMUL_OP_SONY_OPEN,
         drv_opt (\<lambda>pb dce. on_part_opt e_sony e_sony_update (SonyOpen (ee_sys E) (ee_68k E) pb dce))),
      (M68K_EMUL_OP_SONY_PRIME, drv (\<lambda>pb dce. on_sony (stateless (SonyPrime (ee_sys E) pb dce)))),
      (M68K_EMUL_OP_SONY_CONTROL, op_sony_control E),
      (M68K_EMUL_OP_SONY_STATUS, drv (\<lambda>pb dce. on_sony (stateless (SonyStatus pb dce))))]"

definition disk_ops :: "'o emu_env \<Rightarrow> (u16 \<times> (m68k_regs \<Rightarrow> 'o emu \<Rightarrow> 'o emu_res)) list" where
  "disk_ops E =
     [(M68K_EMUL_OP_DISK_OPEN,
         drv_opt (\<lambda>pb dce. on_part_opt e_disk e_disk_update (DiskOpen (ee_sys E) (ee_68k E) pb dce))),
      (M68K_EMUL_OP_DISK_PRIME, drv (\<lambda>pb dce. on_disk (stateless (DiskPrime (ee_sys E) pb dce)))),
      (M68K_EMUL_OP_DISK_CONTROL, drv (\<lambda>pb dce. on_disk (DiskControl (ee_sys E) (ee_68k E) pb dce))),
      (M68K_EMUL_OP_DISK_STATUS, drv (\<lambda>pb dce. on_disk (stateless (DiskStatus pb dce))))]"

definition cdrom_ops :: "'o emu_env \<Rightarrow> (u16 \<times> (m68k_regs \<Rightarrow> 'o emu \<Rightarrow> 'o emu_res)) list" where
  "cdrom_ops E =
     [(M68K_EMUL_OP_CDROM_OPEN,
         drv_opt (\<lambda>pb dce. on_part_opt e_cdrom e_cdrom_update (CDROMOpen (ee_sys E) (ee_cd E) (ee_68k E) pb dce))),
      (M68K_EMUL_OP_CDROM_PRIME, drv (\<lambda>pb dce. on_cdrom (CDROMPrime (ee_sys E) pb dce))),
      (M68K_EMUL_OP_CDROM_CONTROL,
         drv_opt (\<lambda>pb dce. on_part_opt e_cdrom e_cdrom_update (CDROMControl (ee_sys E) (ee_cd E) (ee_68k E) pb dce))),
      (M68K_EMUL_OP_CDROM_STATUS, drv (\<lambda>pb dce. on_cdrom (stateless (CDROMStatus (ee_sys E) pb dce))))]"

abbreviation (input) "on_monitors \<equiv> on_part_opt e_monitors e_monitors_update"
abbreviation (input) "on_serd \<equiv> on_part_opt e_serd e_serd_update"

definition video_ops :: "'o emu_env \<Rightarrow> (u16 \<times> (m68k_regs \<Rightarrow> 'o emu \<Rightarrow> 'o emu_res)) list" where
  "video_ops E =
     [(M68K_EMUL_OP_VIDEO_OPEN,
         drv_opt (\<lambda>pb dce. on_monitors (\<lambda>ms s. VideoDriverOpen (ee_68k E) (ee_video E) pb dce (ms, s)))),
      (M68K_EMUL_OP_VIDEO_CONTROL,
         drv_opt (\<lambda>pb dce. on_monitors (\<lambda>ms s. VideoDriverControl (ee_68k E) (ee_video E) (ee_rom E) pb dce (ms, s)))),
      (M68K_EMUL_OP_VIDEO_STATUS, drv_opt (\<lambda>pb dce. on_monitors (\<lambda>ms s. VideoDriverStatus pb dce (ms, s))))]"

text \<open>The serial drivers also get the port's number in D0.\<close>

definition serial_op ::
  "(u32 \<Rightarrow> u32 \<Rightarrow> nat \<Rightarrow> 'o emul serds \<Rightarrow> (u16 \<times> 'o emul serds) option) \<Rightarrow> m68k_regs \<Rightarrow> 'o emu \<Rightarrow> 'o emu_res" where
  "serial_op f r = drv_opt (\<lambda>pb dce. on_serd (\<lambda>ps s. f pb dce (unat (dreg r 0)) (ps, s))) r"

definition serial_ops :: "'o emu_env \<Rightarrow> (u16 \<times> (m68k_regs \<Rightarrow> 'o emu \<Rightarrow> 'o emu_res)) list" where
  "serial_ops E =
     [(M68K_EMUL_OP_SERIAL_OPEN, serial_op (SerialOpen (ee_68k E) (ee_serd E))),
      (M68K_EMUL_OP_SERIAL_PRIME, serial_op (SerialPrime (ee_serd E))),
      (M68K_EMUL_OP_SERIAL_CONTROL, serial_op (SerialControl (ee_serd E))),
      (M68K_EMUL_OP_SERIAL_STATUS, serial_op (SerialStatus (ee_serd E))),
      (M68K_EMUL_OP_SERIAL_CLOSE, serial_op (SerialClose (ee_68k E) (ee_serd E)))]"

definition op_ether_read_packet :: "m68k_regs \<Rightarrow> 'o emu \<Rightarrow> 'o emu_res" where
  "op_ether_read_packet r s =
     (case EtherReadPacket (areg r 0, areg r 3, dreg r 3, dreg r 1) s of
        ((src, dest, len, remaining), s1) \<Rightarrow>
          regs_ok (set_d 1 remaining (set_d 3 len (set_a 3 dest (set_a 0 src r)))) s1)"

definition ether_ops :: "'o emu_env \<Rightarrow> (u16 \<times> (m68k_regs \<Rightarrow> 'o emu \<Rightarrow> 'o emu_res)) list" where
  "ether_ops E =
     [(M68K_EMUL_OP_ETHER_OPEN,
         drv (\<lambda>pb dce. on_part e_ether e_ether_update (\<lambda>v s. EtherOpen (ee_68k E) (ee_prefs E) pb dce (v, s)))),
      (M68K_EMUL_OP_ETHER_CONTROL,
         drv_opt (\<lambda>pb dce. on_part_opt e_ether e_ether_update (\<lambda>v s. EtherControl (unix_ether (ee_net E)) pb dce (v, s)))),
      (M68K_EMUL_OP_ETHER_READ_PACKET, op_ether_read_packet)]"

definition soundin_ops :: "(u16 \<times> (m68k_regs \<Rightarrow> 'o emu \<Rightarrow> 'o emu_res)) list" where
  "soundin_ops =
     [(M68K_EMUL_OP_SOUNDIN_OPEN, drv SoundInOpen), (M68K_EMUL_OP_SOUNDIN_PRIME, drv SoundInPrime),
      (M68K_EMUL_OP_SOUNDIN_CONTROL, drv SoundInControl), (M68K_EMUL_OP_SOUNDIN_STATUS, drv SoundInStatus),
      (M68K_EMUL_OP_SOUNDIN_CLOSE, drv SoundInClose)]"

definition op_audio :: "'o emu_env \<Rightarrow> m68k_regs \<Rightarrow> 'o emu \<Rightarrow> 'o emu_res" where
  "op_audio E r s =
     (case on_part_opt e_audio e_audio_update
             (\<lambda>v s. AudioDispatch (ee_68k E) (sdl_audio (ee_sdl E)) (areg r 3) (areg r 4) (v, s)) s of
        None \<Rightarrow> None | Some (res, s1) \<Rightarrow> regs_ok (set_d 0 res r) s1)"

text \<open>The stubs of the external file system push their arguments and make room for the result.\<close>

definition op_extfs_comm :: "m68k_regs \<Rightarrow> 'o emu \<Rightarrow> 'o emu_res" where
  "op_extfs_comm r s =
     (let sp = areg r 7 in
      case on_extfs (ExtFSComm (get16 s (sp + 12)) (get32 s (sp + 8))) s of
        None \<Rightarrow> None | Some (res, s1) \<Rightarrow> regs_ok r (put16 (sp + 14) res s1))"

definition op_extfs_hfs :: "'o emu_env \<Rightarrow> m68k_regs \<Rightarrow> 'o emu \<Rightarrow> 'o emu_res" where
  "op_extfs_hfs E r s =
     (let sp = areg r 7 in
      case on_extfs (ExtFSHFS (ee_fs E) (get32 s (sp + 16)) (get16 s (sp + 14)) (get32 s (sp + 10))) s of
        None \<Rightarrow> None | Some (res, s1) \<Rightarrow> regs_ok r (put16 (sp + 20) res s1))"

definition op_put_scrap :: "'o emu_env \<Rightarrow> m68k_regs \<Rightarrow> 'o emu \<Rightarrow> 'o emu_res" where
  "op_put_scrap E r s =
     (let sp = areg r 7 in regs_ok r (PutScrap E (get32 s (sp + 8)) (get32 s (sp + 4)) (get32 s (sp + 12)) s))"

definition op_get_scrap :: "'o emu_env \<Rightarrow> m68k_regs \<Rightarrow> 'o emu \<Rightarrow> 'o emu_res" where
  "op_get_scrap E r s =
     (let sp = areg r 7 in regs_ok r (GetScrap E (get32 s (sp + 8)) (get32 s (sp + 4)) (get32 s (sp + 12)) s))"

definition op_checkload :: "'o emu_env \<Rightarrow> m68k_regs \<Rightarrow> 'o emu \<Rightarrow> 'o emu_res" where
  "op_checkload E r s =
     (if areg r 0 = 0 then regs_ok r s
      else (let adr = get32 s (areg r 0) in
        if adr = 0 then regs_ok r s
        else regs_ok r (CheckLoad (ee_patch E) (dreg r 1) (get16 s (areg r 2)) adr (get32 s (adr - 8) AND 0xffffff) s)))"

definition op_block_move :: "'o emu_env \<Rightarrow> m68k_regs \<Rightarrow> 'o emu \<Rightarrow> 'o emu_res" where
  "op_block_move E r s = regs_ok r (FlushCodeCache (ee_patch E) (areg r 0) (areg r 1) s)"

definition op_debugutil :: "'o emu_env \<Rightarrow> m68k_regs \<Rightarrow> 'o emu \<Rightarrow> 'o emu_res" where
  "op_debugutil E r s =
     (case on_adb (DebugUtil (map_env adb_in adb_out (ee_68k E)) (dreg r 0)) s of
        None \<Rightarrow> None | Some (res, s1) \<Rightarrow> regs_ok (set_d 0 res r) s1)"

definition op_idle_time :: "'o emu_env \<Rightarrow> m68k_regs \<Rightarrow> 'o emu \<Rightarrow> 'o emu_res" where
  "op_idle_time E r s =
     (let s1 = (if get32 s 0x14c = 0 then idle_wait E s else s) in regs_ok (set_a 0 (get32 s1 0x2b6) r) s1)"

section \<open>The SCSI dispatcher\<close>

text \<open>For a selector, the bytes of arguments on the stack at \<open>sp\<close> and the routine.\<close>

definition scsi_quick :: "(scsi_state \<Rightarrow> u16 \<times> scsi_state) \<Rightarrow> 'o emu \<Rightarrow> (u16 \<times> 'o emu) option" where
  "scsi_quick f s = Some (on_scsi (\<lambda>sc s. case f sc of (x, sc1) \<Rightarrow> (x, sc1, s)) s)"

definition scsi_routine ::
  "'o emu_env \<Rightarrow> u16 \<Rightarrow> u32 \<Rightarrow> (u32 \<times> ('o emu \<Rightarrow> (u16 \<times> 'o emu) option)) option" where
  "scsi_routine E sel sp =
     (if sel = 0 then Some (0, scsi_quick SCSIReset)
      else if sel = 1 then Some (0, scsi_quick SCSIGet)
      else if sel = 2 \<or> sel = 11 then
        Some (2, \<lambda>s. scsi_quick (SCSISelect (ee_scsi E) (host s) (uint (get16 s sp AND 0xff))) s)
      else if sel = 3 then
        Some (6, \<lambda>s. Some (on_scsi (SCSICmd (ee_scsi E) (uint (get16 s sp)) (get32 s (sp + 2))) s))
      else if sel = 4 then
        Some (12, \<lambda>s. Some (on_scsi (SCSIComplete (ee_scsi E) (get32 s sp) (get32 s (sp + 4)) (get32 s (sp + 8))) s))
      else if sel = 5 \<or> sel = 8 then
        Some (4, \<lambda>s. on_part_opt e_scsi e_scsi_update (SCSIRead (get32 s sp)) s)
      else if sel = 6 \<or> sel = 9 then
        Some (4, \<lambda>s. on_part_opt e_scsi e_scsi_update (SCSIWrite (get32 s sp)) s)
      else if sel = 10 then Some (0, scsi_quick (\<lambda>sc. (SCSIStat sc, sc)))
      else if sel = 12 then Some (4, \<lambda>s. Some (0, s))
      else if sel = 13 then Some (2, \<lambda>s. Some (0, s))
      else if sel = 14 then Some (0, scsi_quick (\<lambda>sc. (SCSIMgrBusy sc, sc)))
      else None)"

text \<open>The return address goes to A0 and the stack pointer without the arguments to A1.\<close>

definition op_scsi_dispatch :: "'o emu_env \<Rightarrow> m68k_regs \<Rightarrow> 'o emu \<Rightarrow> 'o emu_res" where
  "op_scsi_dispatch E r s =
     (let ret_addr = get32 s (areg r 7); sel = get16 s (areg r 7 + 4); sp = areg r 7 + 6 in
      case scsi_routine E sel sp of
        None \<Rightarrow> QuitEmulator s
      | Some (stack, f) \<Rightarrow>
          (case f s of
             None \<Rightarrow> None
           | Some (x, s1) \<Rightarrow> regs_ok (set_a 1 (sp + stack) (set_a 0 ret_addr (set_a 7 sp r))) (put16 (sp + stack) x s1)))"

section \<open>The interrupt\<close>

abbreviation (input) INTFLAG_60HZ :: u32 where "INTFLAG_60HZ \<equiv> 1"
abbreviation (input) INTFLAG_1HZ :: u32 where "INTFLAG_1HZ \<equiv> 2"
abbreviation (input) INTFLAG_SERIAL :: u32 where "INTFLAG_SERIAL \<equiv> 4"
abbreviation (input) INTFLAG_ETHER :: u32 where "INTFLAG_ETHER \<equiv> 8"
abbreviation (input) INTFLAG_AUDIO :: u32 where "INTFLAG_AUDIO \<equiv> 16"
abbreviation (input) INTFLAG_ADB :: u32 where "INTFLAG_ADB \<equiv> 64"
abbreviation (input) INTFLAG_NMI :: u32 where "INTFLAG_NMI \<equiv> 128"

abbreviation (input) Ticks :: u32 where "Ticks \<equiv> 0x16a"

definition ClearInterruptFlag :: "u32 \<Rightarrow> 'o emu \<Rightarrow> 'o emu" where
  "ClearInterruptFlag flag = e_upd (InterruptFlags_update (\<lambda>f. f AND NOT flag))"

definition on_flag :: "u32 \<Rightarrow> ('o emu \<Rightarrow> 'o emu option) \<Rightarrow> 'o emu \<Rightarrow> 'o emu option" where
  "on_flag flag f s = (if InterruptFlags (host s) AND flag \<noteq> 0 then f (ClearInterruptFlag flag s) else Some s)"

definition if_started :: "('o emu \<Rightarrow> 'o emu option) \<Rightarrow> 'o emu \<Rightarrow> 'o emu option" where
  "if_started f s = (if HasMacStarted s then f s else Some s)"

definition timer_irq :: "'o emu_env \<Rightarrow> 'o emu \<Rightarrow> 'o emu" where
  "timer_irq E s =
     snd (on_timer (\<lambda>t. ((), TimerInterrupt (tm_clock E) (map_env tm_in tm_out (ee_68k E)) t)) s)"

text \<open>The 60 Hz interrupt; the flag in D0 tells the ROM's handler to run the VBL tasks.\<close>

definition irq_60hz :: "'o emu_env \<Rightarrow> 'o emu \<Rightarrow> u32 \<times> 'o emu" where
  "irq_60hz E s =
     (if InterruptFlags (host s) AND INTFLAG_60HZ \<noteq> 0 then
        (let s0 = ClearInterruptFlag INTFLAG_60HZ s; s1 = put32 Ticks (get32 s0 Ticks + 1) s0 in
         if HasMacStarted s1 then
           (let s2 = VideoInterrupt E (timer_irq E s1);
                s3 = (if ee_ROMVersion E = ROM_VERSION_32
                      then snd (Execute68kTrap (ee_68k E) 0xa072 (set_d 0 0 (stack_junk (ee_68k E))) s2) else s2)
            in (1, s3))
         else (0, s1))
      else (0, s))"

definition irq_1hz :: "'o emu_env \<Rightarrow> 'o emu \<Rightarrow> 'o emu option" where
  "irq_1hz E = on_flag INTFLAG_1HZ (if_started (\<lambda>s.
     let s1 = snd (on_sony (\<lambda>D s. Pair () (SonyInterrupt False (ee_sys E) (ee_68k E) D s)) s);
         s2 = snd (on_disk (\<lambda>D s. Pair () (DiskInterrupt (ee_sys E) (ee_68k E) D s)) s1)
     in Some (snd (on_cdrom (\<lambda>D s. Pair () (CDROMInterrupt (ee_sys E) (ee_cd E) (ee_68k E) D s)) s2))))"

definition irq_serial :: "'o emu \<Rightarrow> 'o emu option" where
  "irq_serial = on_flag INTFLAG_SERIAL (\<lambda>s.
     Some (snd (on_part e_serd e_serd_update (\<lambda>ps s. Pair () (SerialInterrupt (ps, s))) s)))"

definition irq_ether :: "'o emu_env \<Rightarrow> 'o emu \<Rightarrow> 'o emu option" where
  "irq_ether E = on_flag INTFLAG_ETHER (\<lambda>s.
     map_option snd (on_part_opt e_ether e_ether_update (\<lambda>v s.
       map_option (\<lambda>(p, s1). ((), v\<lparr>plat := p\<rparr>, s1)) (EtherInterrupt (ee_68k E) (ee_net E) (ether_data v) (plat v, s))) s))"

definition irq_audio :: "'o emu_env \<Rightarrow> 'o emu \<Rightarrow> 'o emu option" where
  "irq_audio E = on_flag INTFLAG_AUDIO (\<lambda>s. Some (AudioInterrupt (ee_68k E) (e_audio (host s)) s))"

definition irq_adb :: "'o emu_env \<Rightarrow> 'o emu \<Rightarrow> 'o emu option" where
  "irq_adb E = on_flag INTFLAG_ADB (if_started (\<lambda>s.
     map_option snd (on_adb (\<lambda>t. map_option (Pair ()) (ADBInterrupt (map_env adb_in adb_out (ee_68k E)) t)) s)))"

definition irq_nmi :: "'o emu_env \<Rightarrow> 'o emu \<Rightarrow> 'o emu option" where
  "irq_nmi E = on_flag INTFLAG_NMI (if_started (\<lambda>s. Some (TriggerNMI E s)))"

definition op_irq :: "'o emu_env \<Rightarrow> m68k_regs \<Rightarrow> 'o emu \<Rightarrow> 'o emu_res" where
  "op_irq E r s =
     (let (d0, s1) = irq_60hz E s in
      map_option (Pair (Some (set_d 0 d0 r)))
        (Option.bind (Option.bind (Option.bind (Option.bind (Option.bind (irq_1hz E s1)
          irq_serial) (irq_ether E)) (irq_audio E)) (irq_adb E)) (irq_nmi E)))"

section \<open>The dispatcher\<close>

definition emul_ops :: "'o emu_env \<Rightarrow> (u16 \<times> (m68k_regs \<Rightarrow> 'o emu \<Rightarrow> 'o emu_res)) list" where
  "emul_ops E =
     [(M68K_EMUL_BREAK, \<lambda>r. QuitEmulator), (M68K_EMUL_OP_SHUTDOWN, \<lambda>r. QuitEmulator),
      (M68K_EMUL_OP_RESET, op_reset E), (M68K_EMUL_OP_CLKNOMEM, op_clknomem E),
      (M68K_EMUL_OP_READ_XPRAM, op_read_xpram 1), (M68K_EMUL_OP_READ_XPRAM2, op_read_xpram 0),
      (M68K_EMUL_OP_PATCH_BOOT_GLOBS, op_patch_boot_globs E), (M68K_EMUL_OP_FIX_BOOTSTACK, op_fix_bootstack E),
      (M68K_EMUL_OP_FIX_MEMSIZE, op_fix_memsize E), (M68K_EMUL_OP_ADBOP, op_adbop E),
      (M68K_EMUL_OP_INSTIME, op_instime E), (M68K_EMUL_OP_RMVTIME, op_rmvtime E),
      (M68K_EMUL_OP_PRIMETIME, op_primetime E), (M68K_EMUL_OP_MICROSECONDS, op_microseconds E),
      (M68K_EMUL_OP_INSTALL_DRIVERS, op_install_drivers E), (M68K_EMUL_OP_SERD, op_serd E)] @
     sony_ops E @ disk_ops E @ cdrom_ops E @ video_ops E @ serial_ops E @ ether_ops E @ soundin_ops @
     [(M68K_EMUL_OP_SCSI_DISPATCH, op_scsi_dispatch E), (M68K_EMUL_OP_IRQ, op_irq E),
      (M68K_EMUL_OP_PUT_SCRAP, op_put_scrap E), (M68K_EMUL_OP_GET_SCRAP, op_get_scrap E),
      (M68K_EMUL_OP_CHECKLOAD, op_checkload E), (M68K_EMUL_OP_AUDIO, op_audio E),
      (M68K_EMUL_OP_EXTFS_COMM, op_extfs_comm), (M68K_EMUL_OP_EXTFS_HFS, op_extfs_hfs E),
      (M68K_EMUL_OP_BLOCK_MOVE, op_block_move E), (M68K_EMUL_OP_DEBUGUTIL, op_debugutil E),
      (M68K_EMUL_OP_IDLE_TIME, op_idle_time E)]"

definition EmulOp :: "'o emu_env \<Rightarrow> u16 \<Rightarrow> m68k_regs \<Rightarrow> 'o emu \<Rightarrow> 'o emu_res" where
  "EmulOp E opcode r s =
     (case map_of (emul_ops E) opcode of None \<Rightarrow> QuitEmulator s | Some f \<Rightarrow> f r s)"

lemmas emul_op_tables = emul_ops_def sony_ops_def disk_ops_def cdrom_ops_def video_ops_def serial_ops_def
  ether_ops_def soundin_ops_def

section \<open>Every opcode has one handler\<close>

lemma emul_ops_keys: "map fst (emul_ops E) =
   [0x7101, 0x7102, 0x7103, 0x7104, 0x7105, 0x7106, 0x7107, 0x7108, 0x7109, 0x7123, 0x7124, 0x7125, 0x7126, 0x7127,
    0x710a, 0x710b, 0x710c, 0x710d, 0x710e, 0x710f, 0x7110, 0x7111, 0x7112, 0x7113, 0x7114, 0x7115, 0x7116, 0x7117,
    0x7118, 0x7119, 0x711a, 0x711b, 0x711c, 0x711d, 0x711e, 0x711f, 0x7120, 0x7121, 0x7122, 0x7131, 0x7132, 0x7133,
    0x7134, 0x7135, 0x7128, 0x7129, 0x712a, 0x712b, 0x712c, 0x712d, 0x712e, 0x712f, 0x7130, 0x7136, 0x7137]"
  by (simp add: emul_op_tables)

lemma emul_ops_range:
  "distinct (map fst (emul_ops E))" "opcode \<in> set (map fst (emul_ops E)) \<longleftrightarrow> 0x7101 \<le> opcode \<and> opcode \<le> 0x7137"
proof -
  let ?ks = "[0x7101, 0x7102, 0x7103, 0x7104, 0x7105, 0x7106, 0x7107, 0x7108, 0x7109, 0x7123, 0x7124, 0x7125, 0x7126, 0x7127,
    0x710a, 0x710b, 0x710c, 0x710d, 0x710e, 0x710f, 0x7110, 0x7111, 0x7112, 0x7113, 0x7114, 0x7115, 0x7116, 0x7117,
    0x7118, 0x7119, 0x711a, 0x711b, 0x711c, 0x711d, 0x711e, 0x711f, 0x7120, 0x7121, 0x7122, 0x7131, 0x7132, 0x7133,
    0x7134, 0x7135, 0x7128, 0x7129, 0x712a, 0x712b, 0x712c, 0x712d, 0x712e, 0x712f, 0x7130, 0x7136, 0x7137 :: u16]"
  have d: "distinct ?ks" by code_simp
  then show "distinct (map fst (emul_ops E))" by (simp only: emul_ops_keys)
  have all: "list_all (\<lambda>k. 0x7101 \<le> k \<and> k \<le> 0x7137) ?ks" by code_simp
  have bound: "set ?ks \<subseteq> {0x7101..0x7137}" using all by (auto simp only: list_all_iff atLeastAtMost_iff)
  have "card {0x7101..0x7137 :: u16} \<le> 55"
  proof -
    have "{0x7101..0x7137 :: u16} \<subseteq> word_of_nat ` {0x7101..0x7137}"
    proof
      fix w :: u16 assume "w \<in> {0x7101..0x7137}"
      then have "unat w \<in> {0x7101..0x7137}" by (simp add: word_le_nat_alt)
      then show "w \<in> word_of_nat ` {0x7101..0x7137}" by (rule image_eqI [rotated]) simp
    qed
    then have "card {0x7101..0x7137 :: u16} \<le> card (word_of_nat ` {0x7101..0x7137} :: u16 set)"
      by (rule card_mono [rotated]) simp
    also have "\<dots> \<le> card {0x7101..0x7137 :: nat}" by (rule card_image_le) simp
    finally show ?thesis by simp
  qed
  moreover have "card (set ?ks) = 55" using distinct_card [OF d] by simp
  ultimately have "set ?ks = {0x7101..0x7137}"
    using card_seteq [OF _ bound] by (simp del: set_simps)
  then show "opcode \<in> set (map fst (emul_ops E)) \<longleftrightarrow> 0x7101 \<le> opcode \<and> opcode \<le> 0x7137"
    unfolding emul_ops_keys by (metis atLeastAtMost_iff)
qed

lemma EmulOp_handler: "(opcode, f) \<in> set (emul_ops E) \<Longrightarrow> EmulOp E opcode r s = f r s"
  using map_of_is_SomeI [OF emul_ops_range(1)] by (force simp: EmulOp_def)

lemma EmulOp_bogus: "opcode < 0x7101 \<or> 0x7137 < opcode \<Longrightarrow> EmulOp E opcode r s = Some (None, s)"
  using emul_ops_range(2) [of opcode E]
  by (auto simp: EmulOp_def QuitEmulator_def map_of_eq_None_iff [THEN iffD2] not_le)

section \<open>The parameter RAM behind the clock opcode\<close>

lemma bits_u8: "bit (0x1f :: u8) k \<longleftrightarrow> k < 5"
proof -
  have e: "(0x1f :: u8) = mask 5" by (simp add: mask_eq_exp_minus_1)
  show ?thesis unfolding e bit_mask_iff by auto
qed
lemma bits_field:
  assumes "m + l \<le> 32"
  shows "bit (push_bit m (mask l) :: u32) n \<longleftrightarrow> m \<le> n \<and> n < m + l"
  using assms unfolding bit_push_bit_iff bit_mask_iff by auto
lemma bits_u32:
  "bit (0x80 :: u32) n \<longleftrightarrow> n = 7" "bit (0x38 :: u32) n \<longleftrightarrow> 3 \<le> n \<and> n < 6" "bit (0xe0 :: u32) n \<longleftrightarrow> 5 \<le> n \<and> n < 8"
  "bit (0x1f :: u32) n \<longleftrightarrow> n < 5" "bit (0x78 :: u32) n \<longleftrightarrow> 3 \<le> n \<and> n < 7"
proof -
  have e: "(0x80 :: u32) = push_bit 7 (mask 1)" "(0x38 :: u32) = push_bit 3 (mask 3)" "(0xe0 :: u32) = push_bit 5 (mask 3)"
    "(0x1f :: u32) = push_bit 0 (mask 5)" "(0x78 :: u32) = push_bit 3 (mask 4)"
    by (simp_all add: mask_eq_exp_minus_1)
  show "bit (0x80 :: u32) n \<longleftrightarrow> n = 7" unfolding e by (subst bits_field) auto
  show "bit (0x38 :: u32) n \<longleftrightarrow> 3 \<le> n \<and> n < 6" unfolding e by (subst bits_field) simp_all
  show "bit (0xe0 :: u32) n \<longleftrightarrow> 5 \<le> n \<and> n < 8" unfolding e by (subst bits_field) simp_all
  show "bit (0x1f :: u32) n \<longleftrightarrow> n < 5" unfolding e by (subst bits_field) simp_all
  show "bit (0x78 :: u32) n \<longleftrightarrow> 3 \<le> n \<and> n < 7" unfolding e by (subst bits_field) simp_all
qed

lemmas bit_parts =
  bit_and_iff bit_or_iff bit_push_bit_iff bit_drop_bit_eq bit_unsigned_iff bit_0_eq bot_apply comp_apply possible_bit_word

text \<open>The command word in D1 for a register of the extended parameter RAM: the register's upper three bits
  in bits 2..0, its lower five in bits 14..10.\<close>

definition xpram_cmd :: "bool \<Rightarrow> u8 \<Rightarrow> u32" where
  "xpram_cmd rd reg = (if rd then 0x80 else 0) OR 0x38 OR ucast (drop_bit 5 reg) OR push_bit 10 (ucast (reg AND 0x1f))"

lemma bit_xpram_cmd:
  "bit (xpram_cmd rd reg) n \<longleftrightarrow>
     n = 7 \<and> rd \<or> 3 \<le> n \<and> n < 6 \<or> n < 3 \<and> bit reg (5 + n) \<or> 10 \<le> n \<and> n < 15 \<and> bit reg (n - 10)"
proof -
  have "bit reg (5 + n) \<Longrightarrow> n < 3" using bit_u8_less [of reg "5 + n"] by simp
  then show ?thesis
    unfolding xpram_cmd_def if_distrib [of "\<lambda>w. bit (w OR _) n"]
    by (cases rd; simp only: bit_parts bits_u32 bits_u8 if_True if_False) auto
qed

lemma xpram_reg_cmd: "xpram_reg (xpram_cmd rd reg) = unat reg"
proof -
  have "(ucast (push_bit 5 (xpram_cmd rd reg) AND 0xe0 OR drop_bit 10 (xpram_cmd rd reg) AND 0x1f) :: u8) = reg"
    by (rule bit_word_eqI; simp only: bit_parts bits_u32 bit_xpram_cmd) auto
  then show ?thesis by (simp add: xpram_reg_def)
qed

lemma is_xpram_op_cmd: "is_xpram_op (xpram_cmd rd reg)"
  unfolding is_xpram_op_def
  by (rule bit_word_eqI; simp only: bit_parts bit_xpram_cmd bits_u32) auto

lemma is_read_op_cmd: "is_read_op (xpram_cmd rd reg) \<longleftrightarrow> rd"
proof -
  have "xpram_cmd rd reg AND 0x80 = (if rd then 0x80 else 0)"
    by (cases rd; simp only: if_True if_False; rule bit_word_eqI; simp only: bit_parts bit_xpram_cmd bits_u32) auto
  then show ?thesis by (simp add: is_read_op_def)
qed

lemmas xpram_cmd_fields = xpram_reg_cmd is_xpram_op_cmd is_read_op_cmd

text \<open>Registers that are read as they are: not the volume, the addressing mode and the network choice.\<close>

definition plain_reg :: "nat \<Rightarrow> bool" where
  "plain_reg reg \<longleftrightarrow> reg \<notin> {0x08, 0x8a, 0xe0, 0xe1, 0xe2, 0xe3}"

lemma xpram_read_plain: "plain_reg reg \<Longrightarrow> xpram_read version reg xp = ucast (xp ! reg)"
  by (simp add: plain_reg_def xpram_read_def Let_def)

lemma EmulOp_clknomem: "EmulOp E M68K_EMUL_OP_CLKNOMEM r s = op_clknomem E r s"
  by (rule EmulOp_handler) (simp add: emul_ops_def)

lemma EmulOp_read_xpram: "EmulOp E M68K_EMUL_OP_READ_XPRAM r s = op_read_xpram 1 r s"
  by (rule EmulOp_handler) (simp add: emul_ops_def)

lemma e_upd_simps [simp]:
  "host (e_upd f s) = f (host s)" "mem (e_upd f s) = mem s" "calls (e_upd f s) = calls s"
  by (simp_all add: e_upd_def)

lemma ucast_OR_5: "ucast ((w :: u32) OR 5) = (ucast w :: u8) OR 5"
  by (rule bit_word_eqI) (auto simp: bit_simps)

text \<open>The byte that a write of D2 leaves in a register, and the state with it.\<close>

definition stored_byte :: "'o emu_env \<Rightarrow> u8 \<Rightarrow> u32 \<Rightarrow> u8" where
  "stored_byte E reg d2 = ucast d2 OR (if reg = 0x8a \<and> \<not> TwentyFourBitAddressing (ee_cpu E) then 5 else 0)"

definition xpram_stored :: "'o emu_env \<Rightarrow> u8 \<Rightarrow> u32 \<Rightarrow> 'o emu \<Rightarrow> 'o emu" where
  "xpram_stored E reg d2 = e_upd (XPRAM_update (\<lambda>xp. xp[unat reg := stored_byte E reg d2]))"

lemma XPRAM_stored:
  assumes "length (XPRAM (host s)) = 256"
  shows "XPRAM (host (xpram_stored E reg d2 s)) ! unat k = (if k = reg then stored_byte E reg d2 else XPRAM (host s) ! unat k)"
  using assms unsigned_less [of reg, where 'a = nat] by (auto simp: xpram_stored_def nth_list_update word_unat_eq_iff)

lemma clknomem_write:
  assumes "dreg r 1 = xpram_cmd False reg"
  shows "\<exists>r1. EmulOp E M68K_EMUL_OP_CLKNOMEM r s = Some (Some r1, xpram_stored E reg (dreg r 2) s) \<and> dreg r1 0 = 0"
proof -
  have "unat reg = 138 \<longleftrightarrow> reg = 0x8a" by (simp add: word_unat_eq_iff)
  then have "ucast (xpram_value (ee_cpu E) (unat reg) (dreg r 2)) = stored_byte E reg (dreg r 2)"
    by (simp add: xpram_value_def stored_byte_def ucast_OR_5)
  then show ?thesis
    unfolding EmulOp_clknomem
    by (simp add: op_clknomem_def Let_def assms xpram_cmd_fields regs_ok_def set_xpram_def xpram_stored_def del: One_nat_def)
qed

lemma clknomem_read:
  assumes "dreg r 1 = xpram_cmd True k" and "plain_reg (unat k)"
  shows "\<exists>r1. EmulOp E M68K_EMUL_OP_CLKNOMEM r s = Some (Some r1, s) \<and> dreg r1 0 = 0
           \<and> dreg r1 1 = ucast (XPRAM (host s) ! unat k) \<and> dreg r1 2 = ucast (XPRAM (host s) ! unat k)"
  unfolding EmulOp_clknomem
  by (simp add: op_clknomem_def Let_def assms xpram_cmd_fields regs_ok_def xpram_read_plain del: One_nat_def)

lemma unat_ucast_u8: "unat (ucast (k :: u8) :: u32) = unat k"
  using unsigned_less [of k, where 'a = nat] by (simp add: unsigned_ucast_eq take_bit_nat_eq_self)

lemma read_xpram_reads:
  assumes "dreg r 1 AND 0xff = ucast (k :: u8)"
  shows "EmulOp E M68K_EMUL_OP_READ_XPRAM r s = Some (Some (set_d 1 (ucast (XPRAM (host s) ! unat k)) r), s)"
  unfolding EmulOp_read_xpram by (simp add: op_read_xpram_def assms regs_ok_def unat_ucast_u8 del: One_nat_def)

text \<open>C23. The parameter RAM is a memory behind the clock opcode. A write command stores the low byte of
  D2 in its register and changes nothing else (register 0x8a always gets the bits for 32-bit
  addressing, unless the ROM addresses 24 bits) and clears D0. A read command for a plain register then
  returns in D1 and D2 the byte that was written last, and for every other plain register what it held before;
  READ_XPRAM reads the same bytes.\<close>

theorem XPRAM_clock_opcode:
  assumes len: "length (XPRAM (host s)) = 256" and w: "dreg r 1 = xpram_cmd False reg"
    and k: "plain_reg (unat k)" and r: "dreg r' 1 = xpram_cmd True k" and r2: "dreg q 1 AND 0xff = ucast k"
  shows "\<exists>r1 r2 t. EmulOp E M68K_EMUL_OP_CLKNOMEM r s = Some (Some r1, t) \<and> dreg r1 0 = 0
      \<and> t = e_upd (XPRAM_update (\<lambda>xp. xp[unat reg := stored_byte E reg (dreg r 2)])) s
      \<and> EmulOp E M68K_EMUL_OP_CLKNOMEM r' t = Some (Some r2, t) \<and> dreg r2 0 = 0
      \<and> dreg r2 1 = ucast (if k = reg then stored_byte E reg (dreg r 2) else XPRAM (host s) ! unat k)
      \<and> dreg r2 2 = dreg r2 1
      \<and> EmulOp E M68K_EMUL_OP_READ_XPRAM q t = Some (Some (set_d 1 (dreg r2 1) q), t)"
proof -
  let ?t = "xpram_stored E reg (dreg r 2) s"
  obtain r1 where 1: "EmulOp E M68K_EMUL_OP_CLKNOMEM r s = Some (Some r1, ?t)" "dreg r1 0 = 0"
    using clknomem_write [OF w] by blast
  obtain r2 where 2: "EmulOp E M68K_EMUL_OP_CLKNOMEM r' ?t = Some (Some r2, ?t)" "dreg r2 0 = 0"
      "dreg r2 1 = ucast (XPRAM (host ?t) ! unat k)" "dreg r2 2 = ucast (XPRAM (host ?t) ! unat k)"
    using clknomem_read [OF r k] by blast
  show ?thesis
    using 1 2 read_xpram_reads [OF r2, of E ?t] by (fastforce simp: XPRAM_stored [OF len] xpram_stored_def [symmetric])
qed

section \<open>The SCSI Manager behind its trap\<close>

text \<open>The bytes of arguments that a selector takes from the stack, and the selectors that have no routine.\<close>

definition scsi_args :: "u16 \<Rightarrow> u32" where
  "scsi_args sel =
     (if sel \<in> {2, 11, 13} then 2 else if sel = 3 then 6 else if sel = 4 then 12
      else if sel \<in> {5, 6, 8, 9, 12} then 4 else 0)"

definition no_scsi_routine :: "u16 \<Rightarrow> bool" where
  "no_scsi_routine sel \<longleftrightarrow> sel = 7 \<or> 14 < sel"

lemma small_selector: "\<not> 14 < (sel :: u16) \<Longrightarrow>
  sel = 0 \<or> sel = 1 \<or> sel = 2 \<or> sel = 3 \<or> sel = 4 \<or> sel = 5 \<or> sel = 6 \<or> sel = 7 \<or> sel = 8 \<or> sel = 9 \<or> sel = 10
  \<or> sel = 11 \<or> sel = 12 \<or> sel = 13 \<or> sel = 14"
proof -
  assume "\<not> 14 < sel"
  then have "unat sel < 15" by (simp add: word_less_nat_alt)
  then have "word_of_nat (unat sel) \<in> (word_of_nat ` set [0..<15] :: u16 set)" by (intro imageI) simp
  then show ?thesis by (simp add: upt_rec)
qed

lemma no_scsi_routine: "no_scsi_routine sel \<longleftrightarrow> scsi_routine E sel sp = None"
proof (cases "14 < sel")
  case True
  then show ?thesis by (auto simp: no_scsi_routine_def scsi_routine_def)
next
  case False
  then show ?thesis using small_selector [OF False] by (elim disjE) (simp_all add: no_scsi_routine_def scsi_routine_def)
qed

lemma scsi_routine_args: "scsi_routine E sel sp = Some (n, f) \<Longrightarrow> n = scsi_args sel"
  by (auto simp: scsi_routine_def scsi_args_def split: if_splits)

lemma EmulOp_scsi: "EmulOp E M68K_EMUL_OP_SCSI_DISPATCH r s = op_scsi_dispatch E r s"
  by (rule EmulOp_handler) (simp add: emul_ops_def)

lemma scsi_routine_steps:
  assumes "scsi_routine E sel sp = Some (n, f)" and "f s = Some (x, t)"
  shows "(scsi_step (ee_scsi E))\<^sup>=\<^sup>= (e_scsi (host s)) (e_scsi (host t))"
  using assms
  by (auto simp: scsi_routine_def scsi_quick_def on_part_def on_part_opt_def split: if_splits prod.splits;
      blast intro: scsi_step.intros)

section \<open>A small emulator\<close>

text \<open>A host without volumes, discs, SCSI targets or a network, and a Mac whose 68k code does nothing.\<close>

definition demo_sys :: "'h sys" where
  "demo_sys = \<lparr>Sys_open = (\<lambda>n ro h. (0, h)), Sys_close = (\<lambda>f h. h), Sys_read = (\<lambda>f p n h. ([], h)),
     Sys_write = (\<lambda>f p bs h. (0, h)), SysGetFileSize = (\<lambda>f h. 0), SysEject = (\<lambda>f h. h), SysFormat = (\<lambda>f h. (False, h)),
     SysIsReadOnly = (\<lambda>f h. True), SysIsFixedDisk = (\<lambda>f h. True), SysIsDiskInserted = (\<lambda>f h. False)\<rparr>"

definition demo_files :: "'h posix" where
  "demo_files = \<lparr>errno_of = (\<lambda>h. ENOENT), p_open = (\<lambda>p f c h. (-1, h)), p_creat = (\<lambda>p h. (-1, h)), p_close = (\<lambda>fd h. h),
     p_read = (\<lambda>fd n h. (None, h)), p_write = (\<lambda>fd bs h. (-1, h)), p_lseek = (\<lambda>fd n w h. (-1, h)),
     p_ftruncate = (\<lambda>fd n h. (-1, h)), p_stat = (\<lambda>p h. (None, h)), p_fstat = (\<lambda>fd h. (None, h)),
     p_writable = (\<lambda>p h. (False, h)), p_exists = (\<lambda>p h. (False, h)), p_mkdir = (\<lambda>p h. (-1, h)),
     p_rmdir = (\<lambda>p h. (-1, h)), p_remove = (\<lambda>p h. (-1, h)), p_rename = (\<lambda>p q h. (-1, h)), p_listdir = (\<lambda>p h. (None, h))\<rparr>"

definition demo_serd_sys :: "'h serd_sys" where
  "demo_serd_sys = \<lparr>dev_open = (\<lambda>c s. (openErr, s)), dev_prime_in = (\<lambda>p d s. (readErr, s)),
     dev_prime_out = (\<lambda>p d s. (writErr, s)), dev_control = (\<lambda>p d c s. (controlErr, s)),
     dev_status = (\<lambda>p d c s. (statusErr, s)), dev_close = (\<lambda>s. (noErr, s))\<rparr>"

definition demo_net_dev :: "'h net_dev" where
  "demo_net_dev = \<lparr>dev_open_rw = (\<lambda>n h. (False, h)), dev_link = (\<lambda>n h. (False, h)), dev_nonblock = (\<lambda>h. (False, h)),
     dev_getaddr = (\<lambda>h. (None, h)), start_thread = (\<lambda>h. (False, h)), stop_thread = (\<lambda>h. h), dev_shut = (\<lambda>h. h),
     getpid = (\<lambda>h. 1), dev_multi = (\<lambda>a x h. (False, h)), dev_send = (\<lambda>f h. (False, h)), dev_recv = (\<lambda>k h. (None, h))\<rparr>"

definition demo_emu_env :: "unit emu_env" where
  "demo_emu_env = \<lparr>ee_68k = demo_env, ee_sys = demo_sys, ee_cd = demo_cdsys,
     ee_scsi = \<lparr>is_target_present = (\<lambda>h i. False), set_cmd = (\<lambda>c h. h), set_target = (\<lambda>i l h. (False, h)),
       send_cmd = (\<lambda>n rd t w x. (False, 0, x))\<rparr>,
     ee_video = (\<lambda>n. \<lparr>switch_to_current_mode = (\<lambda>m h. (0, h)), set_palette = (\<lambda>p n h. h)\<rparr>), ee_serd = (\<lambda>n. demo_serd_sys),
     ee_net = demo_net_dev, ee_sdl = \<lparr>sdl_OpenAudio = (\<lambda>f u c h. (None, h)), sdl_CloseAudio = (\<lambda>h. h)\<rparr>,
     ee_fs = \<lparr>fs_env = demo_env, fs_posix = demo_files, heap_junk = 0\<rparr>,
     ee_patch = \<lparr>FlushCache = (\<lambda>a n h. h), ScratchMemBase = 0x20000, audio_component_flags = 1,
       patch_rom_base = 0x40800000, patch_prefs = []\<rparr>,
     ee_clock = (\<lambda>h. \<lparr>tv_sec = 0, tv_nsec = 0\<rparr>), ee_localtime = (\<lambda>t. \<lparr>tm_sec = 0, tm_min = 0, tm_hour = 0, tm_yday = 0, tm_year = 0\<rparr>),
     ee_random = 7, ee_prefs = [],
     ee_cpu = \<lparr>CPUType = 4, CPUIs68060 = False, FPUType = 1, TwentyFourBitAddressing = False\<rparr>,
     ee_rom = demo_rom, ee_ROMVersion = 0x067c, RAMBaseMac = 0, RAMSize = 0x800000, VideoInterrupt = (\<lambda>s. s),
     TriggerNMI = (\<lambda>s. s), idle_wait = (\<lambda>s. s), PutScrap = (\<lambda>t a n s. s), GetScrap = (\<lambda>t a n s. s)\<rparr>"

definition demo_emul :: "unit emul" where
  "demo_emul = \<lparr>e_desc = [], e_adb = adb_start, e_sony = demo_floppy, e_disk = demo_disk, e_cdrom = demo_cdrom,
     e_scsi = scsi_start, e_monitors = [], e_serd = [], e_ether = demo_vars, e_audio = demo_audio, e_extfs = demo_root,
     e_rom = demo_rom_vars, XPRAM = replicate 256 0, InterruptFlags = 0, e_crashed = False, e_os = ()\<rparr>"

definition demo_emu :: "unit emu" where
  "demo_emu = \<lparr>mem = (\<lambda>_. 0), host = demo_emul, calls = []\<rparr>"

theorem XPRAM_clock_opcode_witness:
  "\<exists>r1 r2 t. EmulOp demo_emu_env M68K_EMUL_OP_CLKNOMEM (set_d 2 0x42 (set_d 1 (xpram_cmd False 0x76) demo_regs)) demo_emu = Some (Some r1, t)
     \<and> EmulOp demo_emu_env M68K_EMUL_OP_CLKNOMEM (set_d 1 (xpram_cmd True 0x76) demo_regs) t = Some (Some r2, t)
     \<and> dreg r2 1 = 0x42"
proof -
  have "stored_byte demo_emu_env 0x76 0x42 = 0x42" by (simp add: stored_byte_def)
  moreover have "length (XPRAM (host demo_emu)) = 256" by (simp add: demo_emu_def demo_emul_def)
  moreover have "plain_reg (unat (0x76 :: u8))" by (simp add: plain_reg_def)
  ultimately show ?thesis
    using XPRAM_clock_opcode [where s = demo_emu and r = "set_d 2 0x42 (set_d 1 (xpram_cmd False 0x76) demo_regs)" and reg = "0x76"
        and k = "0x76" and r' = "set_d 1 (xpram_cmd True 0x76) demo_regs" and q = "set_d 1 0x76 demo_regs" and E = demo_emu_env]
    by (fastforce simp del: One_nat_def)
qed


section \<open>The interrupt before and after the Mac has started\<close>

lemma EmulOp_irq: "EmulOp E M68K_EMUL_OP_IRQ r s = op_irq E r s"
  by (rule EmulOp_handler) (simp add: emul_ops_def)

lemma HasMacStarted_e_upd [simp]: "HasMacStarted (e_upd f s) = HasMacStarted s"
  by (simp add: HasMacStarted_def mac_get_defs)

lemma HasMacStarted_Ticks [simp]: "HasMacStarted (put32 Ticks v s) = HasMacStarted s"
  by (simp add: HasMacStarted_def mac_mem sep_def)

text \<open>The flags of the interrupts that wait for the Mac: 60 Hz, 1 Hz, ADB and NMI.\<close>

definition waiting_flags :: u32 where
  "waiting_flags = INTFLAG_60HZ OR INTFLAG_1HZ OR INTFLAG_ADB OR INTFLAG_NMI"

lemma waiting_flags_only:
  assumes "f AND NOT waiting_flags = 0"
  shows "f AND INTFLAG_SERIAL = 0" "f AND INTFLAG_ETHER = 0" "f AND INTFLAG_AUDIO = 0"
    and "f AND NOT INTFLAG_60HZ AND NOT INTFLAG_1HZ AND NOT INTFLAG_ADB AND NOT INTFLAG_NMI = 0"
proof -
  have *: "f AND g = 0" if "g AND waiting_flags = 0" for g
  proof (rule bit_word_eqI)
    fix n assume n: "n < LENGTH(32)"
    have "bit g n \<Longrightarrow> \<not> bit waiting_flags n" using arg_cong [OF that, of "\<lambda>w. bit w n"] by (simp add: bit_and_iff)
    moreover have "bit f n \<Longrightarrow> bit waiting_flags n"
      using arg_cong [OF assms, of "\<lambda>w. bit w n"] n by (auto simp: bit_and_iff bit_not_iff)
    ultimately show "bit (f AND g) n = bit (0 :: u32) n" by (auto simp: bit_and_iff)
  qed
  show "f AND INTFLAG_SERIAL = 0" "f AND INTFLAG_ETHER = 0" "f AND INTFLAG_AUDIO = 0"
    by (intro *; simp add: waiting_flags_def)+
  have "NOT INTFLAG_60HZ AND NOT INTFLAG_1HZ AND NOT INTFLAG_ADB AND NOT INTFLAG_NMI = NOT waiting_flags"
    by (simp add: waiting_flags_def)
  then show "f AND NOT INTFLAG_60HZ AND NOT INTFLAG_1HZ AND NOT INTFLAG_ADB AND NOT INTFLAG_NMI = 0"
    using assms by (simp add: and.assoc)
qed

lemma AND_NOT_unset: "f AND g = 0 \<Longrightarrow> f AND NOT g = f" for f g :: u32
proof (rule bit_word_eqI)
  fix n assume "f AND g = 0" and n: "n < LENGTH(32)"
  then have "\<not> (bit f n \<and> bit g n)" using bit_and_iff [of f g n] by auto
  then show "bit (f AND NOT g) n = bit f n" using n by (auto simp: bit_and_iff bit_not_iff)
qed

lemma upd_flags:
  assumes "g (InterruptFlags (host s)) = v"
  shows "e_upd (InterruptFlags_update g) s = e_upd (InterruptFlags_update (\<lambda>_. v)) s"
proof -
  have "InterruptFlags_update g x = InterruptFlags_update (\<lambda>_. g (InterruptFlags x)) x" for x :: "'a emul"
    by (cases x) simp
  then show ?thesis using assms by (simp add: e_upd_def)
qed

lemma upd_flags_twice:
  "e_upd (InterruptFlags_update f) (e_upd (InterruptFlags_update g) s) = e_upd (InterruptFlags_update (\<lambda>x. f (g x))) s"
  by (simp add: e_upd_def o_def)

lemma ClearInterruptFlag_unset: "InterruptFlags (host s) AND f = 0 \<Longrightarrow> ClearInterruptFlag f s = s"
  by (simp add: ClearInterruptFlag_def e_upd_def AND_NOT_unset)

lemma ClearInterruptFlag_started [simp]: "HasMacStarted (ClearInterruptFlag f s) = HasMacStarted s"
  by (simp add: ClearInterruptFlag_def)

lemma ClearInterruptFlag_flags: "InterruptFlags (host (ClearInterruptFlag f s)) = InterruptFlags (host s) AND NOT f"
  by (simp add: ClearInterruptFlag_def)

lemma clear_keeps_unset:
  "InterruptFlags (host s) AND g = 0 \<Longrightarrow> InterruptFlags (host (ClearInterruptFlag f s)) AND g = 0"
  unfolding ClearInterruptFlag_flags by (metis and.assoc and.commute and.left_commute and_zero_eq)

lemma on_flag_waits: "\<not> HasMacStarted s \<Longrightarrow> on_flag f (if_started g) s = Some (ClearInterruptFlag f s)"
  by (simp add: on_flag_def if_started_def ClearInterruptFlag_unset)

lemma on_flag_unset: "InterruptFlags (host s) AND f = 0 \<Longrightarrow> on_flag f g s = Some s"
  by (simp add: on_flag_def)

text \<open>The machine with the next tick counted.\<close>

definition next_tick :: "'o emu \<Rightarrow> 'o emu" where
  "next_tick s = put32 Ticks (get32 s Ticks + 1) s"

lemma put32_ClearInterruptFlag: "put32 a v (ClearInterruptFlag f s) = ClearInterruptFlag f (put32 a v s)"
  by (simp add: ClearInterruptFlag_def e_upd_def mac_put_defs)

lemma irq_60hz_waits:
  assumes "\<not> HasMacStarted s"
  shows "irq_60hz E s = (0, ClearInterruptFlag INTFLAG_60HZ (if InterruptFlags (host s) AND INTFLAG_60HZ \<noteq> 0 then next_tick s else s))"
proof -
  have "get32 (ClearInterruptFlag 1 s) Ticks = get32 s Ticks" by (simp add: ClearInterruptFlag_def mac_get_defs)
  then show ?thesis
    using assms
    by (simp add: irq_60hz_def Let_def ClearInterruptFlag_unset next_tick_def put32_ClearInterruptFlag)
qed

text \<open>C25. Until the Mac has started, interrupts of the clocks, the ADB and the NMI button are acknowledged and
  dropped: the opcode clears their flags, counts the tick of the 60 Hz interrupt in low memory, tells the ROM with a zero
  in D0 that there is nothing to do, and neither calls Mac code nor touches any other memory or device.\<close>

theorem EmulOp_irq_before_start:
  assumes "\<not> HasMacStarted s" and "InterruptFlags (host s) AND NOT waiting_flags = 0"
  shows "EmulOp E M68K_EMUL_OP_IRQ r s =
      Some (Some (set_d 0 0 r), e_upd (InterruptFlags_update (\<lambda>_. 0))
        (if InterruptFlags (host s) AND INTFLAG_60HZ \<noteq> 0 then put32 Ticks (get32 s Ticks + 1) s else s))"
proof -
  let ?t = "if InterruptFlags (host s) AND INTFLAG_60HZ \<noteq> 0 then next_tick s else s"
  have t: "InterruptFlags (host ?t) = InterruptFlags (host s)" "\<not> HasMacStarted ?t"
    using assms(1) by (simp_all add: next_tick_def)
  note f = waiting_flags_only [OF assms(2)]
  have "ClearInterruptFlag INTFLAG_NMI (ClearInterruptFlag INTFLAG_ADB (ClearInterruptFlag INTFLAG_1HZ
      (ClearInterruptFlag INTFLAG_60HZ ?t))) = e_upd (InterruptFlags_update (\<lambda>_. 0)) ?t"
    unfolding ClearInterruptFlag_def upd_flags_twice by (rule upd_flags) (simp only: t(1) and.assoc f(4))
  then show ?thesis
    unfolding EmulOp_irq op_irq_def irq_60hz_waits [OF assms(1)]
    using t f by (simp add: irq_1hz_def irq_serial_def irq_ether_def irq_audio_def irq_adb_def irq_nmi_def on_flag_waits
        on_flag_unset clear_keeps_unset next_tick_def)
qed

theorem EmulOp_irq_before_start_witness:
  "EmulOp demo_emu_env M68K_EMUL_OP_IRQ demo_regs (e_upd (InterruptFlags_update (\<lambda>_. 0x43)) demo_emu) =
     Some (Some (set_d 0 0 demo_regs), e_upd (InterruptFlags_update (\<lambda>_. 0)) (put32 Ticks 1 (e_upd (InterruptFlags_update (\<lambda>_. 0x43)) demo_emu)))"
proof -
  let ?s = "e_upd (InterruptFlags_update (\<lambda>_. 0x43)) demo_emu"
  have z: "get32 demo_emu a = 0" for a by (simp add: demo_emu_def mac_get_defs mac_access join32_def)
  have g: "get32 (e_upd f demo_emu) a = 0" for f a using z [of a] by (simp add: e_upd_def mac_get_defs)
  have "\<not> HasMacStarted ?s" by (simp add: HasMacStarted_def z g FOURCC_def join32_def)
  moreover have "InterruptFlags (host ?s) AND NOT waiting_flags = 0" by (simp add: waiting_flags_def)
  ultimately show ?thesis
    using EmulOp_irq_before_start [of ?s demo_emu_env demo_regs] by (simp add: g)
qed
section \<open>A key reaches the Mac\<close>

text \<open>68k code that leaves the emulator's variables and the keyboard's entry in the ADB globals alone, and a mouse
  that has not moved and whose buttons are as the Mac saw them last.\<close>

definition quiet_code :: "'o emu_env \<Rightarrow> u32 \<Rightarrow> bool" where
  "quiet_code E adb_base \<longleftrightarrow> (\<forall>addr r m h. case run_code (ee_68k E) addr r (m, h) of (r', m', h') \<Rightarrow>
     h' = h \<and> ReadMacInt32 m' (adb_base + 4) = ReadMacInt32 m (adb_base + 4))"

definition mouse_idle :: "adb_state \<Rightarrow> bool" where
  "mouse_idle a \<longleftrightarrow> \<not> relative_mouse a \<and> mouse_x a = old_mouse_x a \<and> mouse_y a = old_mouse_y a
     \<and> \<not> buttons_changed a (mouse_button a)"

abbreviation (input) adb_env :: "'o emu_env \<Rightarrow> 'o emul adb_host env68k" where
  "adb_env E \<equiv> map_env adb_in adb_out (ee_68k E)"

lemma run_code_map_env:
  "run_code (map_env inn out F) a r (m, h) = (case run_code F a r (m, out h) of (r1, m1, e) \<Rightarrow> (r1, m1, inn e))"
  by (simp add: map_env_def)

lemma adb_in_out [simp]: "adb (adb_in e) = e_adb e" "e_adb (adb_out h) = adb h" "InterruptFlags (adb_out h) = InterruptFlags (adb_os h)"
  by (simp_all add: adb_in_def adb_out_def)

lemma quiet_code_handlers: "quiet_code E b \<Longrightarrow> handlers_quiet (adb_env E) b"
  by (fastforce simp: quiet_code_def handlers_quiet_def run_code_map_env split: prod.splits)

lemma quiet_code_flags:
  assumes "quiet_code E b"
  shows "InterruptFlags (adb_os (host (snd (Execute68k (adb_env E) a r s)))) = InterruptFlags (adb_os (host s))"
proof -
  obtain r1 m1 e where x: "run_code (ee_68k E) a r (mem s, adb_out (host s)) = (r1, m1, e)" by (metis prod.exhaust)
  then have "e = adb_out (host s)" using assms by (fastforce simp: quiet_code_def split: prod.splits)
  with x show ?thesis by (simp add: Execute68k_def run_code_map_env adb_in_def)
qed

abbreviation (input) adb_flags :: "'o emul adb_mac \<Rightarrow> u32" where
  "adb_flags s \<equiv> InterruptFlags (adb_os (host s))"

lemma send_key_flags: "quiet_code E b \<Longrightarrow> adb_flags (snd (send_key (adb_env E) b rs)) = adb_flags (snd rs)"
  by (simp add: send_key_def call_handler_def Let_def quiet_code_flags upd_adb_def split_beta)

lemma drain_keys_flags:
  assumes q: "quiet_code E b" and d: "drain_keys (adb_env E) b rs = Some t"
  shows "adb_flags t = adb_flags (snd rs)"
proof -
  have "adb_env E = adb_env E \<longrightarrow> b = b \<longrightarrow> adb_flags t = adb_flags (snd rs)"
  proof (rule drain_keys.raw_induct [where P = "\<lambda>F b' rs t. F = adb_env E \<longrightarrow> b' = b \<longrightarrow> adb_flags t = adb_flags (snd rs)", OF _ d], intro impI)
    fix dk F b' rs t
    assume IH: "\<And>F b' rs t. dk F b' rs = Some t \<Longrightarrow> F = adb_env E \<longrightarrow> b' = b \<longrightarrow> adb_flags t = adb_flags (snd rs)"
      and body: "(if key_read_ptr (adb_of (snd rs)) \<noteq> key_write_ptr (adb_of (snd rs)) then dk F b' (send_key F b' rs) else Some (snd rs)) = Some t"
      and "F = adb_env E" "b' = b"
    then show "adb_flags t = adb_flags (snd rs)"
      using send_key_flags [OF q, of rs] IH [of F b' "send_key F b' rs" t] by (auto split: if_splits)
  qed
  then show ?thesis by simp
qed

lemma mouse_idle_interrupt:
  "mouse_idle (adb_of s) \<Longrightarrow> mouse_interrupt F b (r, s) = (r, s)"
  by (simp add: mouse_idle_def mouse_interrupt_def Let_def move_absolute_def)

lemma map_host_simps [simp]:
  "host (map_host f s) = f (host s)" "mem (map_host f s) = mem s" "calls (map_host f s) = calls s"
  "get32 (map_host f s) a = get32 s a" "adb_of (map_host adb_in t) = e_adb (host t)"
  by (simp_all add: map_host_def mac_get_defs adb_of_def adb_in_def)


text \<open>A started Mac with its ADB globals at 0x2000, and the keys of two events.\<close>

definition demo_typed :: "unit emu" where
  "demo_typed = put32 0xcfc (FOURCC CHR ''W'' CHR ''L'' CHR ''S'' CHR ''C'') (put32 0xcf8 0x2000
     \<lparr>mem = (\<lambda>_. 0), host = demo_emul\<lparr>e_adb := the (key_events [(False, 0x24), (True, 0x24)] adb_start),
        InterruptFlags := INTFLAG_ADB\<rparr>, calls = []\<rparr>)"


end
