(* ===== verification/Spec2Isabelle.thy ===== *)
theory Spec2Isabelle
  imports Timer ADB SCSI Prefs Volumes Video Serial Startup EtherUnix AudioSDL ExtFSTransfer SparseBundle EmulOp
begin

text \<open>
  This development models the portable core of the Macintosh emulator Basilisk II, the files
  directly under "src/src" that are shared by all platforms, and proves what makes them correct.

  The program. Basilisk II runs a Mac ROM and Mac OS on an emulated 68k processor. The ROM is
  patched so that the Mac's device drivers and some managers are replaced by special opcodes; each
  of them calls a C++ routine with Mac addresses of parameter blocks, and the routine reads and
  writes Mac memory, calls back into 68k code with Execute68k() and Execute68kTrap(), and uses the
  host's files and devices through platform functions. The parts interact through three things:
  Mac memory, the 68k callbacks, and the host.

  The state. \<open>MacMemory\<close> has the record \<open>mac\<close>: Mac memory as a function from 32-bit addresses to
  bytes, the host as a value of any type, and the history of calls into 68k code, which no operation
  reads. The accessors of "memory.h" are those of the configuration with direct addressing.
  Whatever is outside "src/src", or belongs to a platform, is a record of functions that every
  operation takes as an argument: \<open>env68k\<close> for the processor, \<open>sys\<close> and \<open>cdsys\<close> for "sys.h",
  \<open>scsi_dev\<close> for the SCSI devices, \<open>video_sys\<close> for a monitor, \<open>serd_sys\<close> for a serial port,
  \<open>ether_sys\<close> and \<open>net_dev\<close> for the network, \<open>audio_sys\<close> for sound output, \<open>posix\<close> for host files and
  directories, \<open>startup_env\<close> for the initialisation of the platform. The static variables of a file are a
  record of its theory.

  The theories, each with its source:

  \<^item> \<open>Prelude\<close>: machine integers, big-endian splitting and joining, separated address ranges, search
    by index. \<open>MacMemory\<close>: Mac memory, "basilisk_glue.cpp" and the calls into 68k code.
  \<^item> \<open>MacosUtil\<close> ("macos_util.cpp" and its header): parameter block offsets, error codes, queues,
    drive numbers, the layout of disk images, dates. A queue in Mac memory stands for a list;
    enqueueing appends to it.
  \<^item> \<open>Timer\<close> ("timer.cpp", "Unix/timer_unix.cpp"): the Time Manager. Its table of 64 descriptors is an
    implementation of a set of tasks; an interrupt runs exactly the tasks that have expired.
  \<^item> \<open>ADB\<close> ("adb.cpp"): keyboard and mouse. Key events arrive in order, once each, unless sixteen of
    them fill the buffer.
  \<^item> \<open>SCSI\<close> ("scsi.cpp"): the old SCSI Manager as a state machine over its phases, with the
    scatter-gather table that a transfer instruction block builds.
  \<^item> \<open>Prefs\<close> ("prefs.cpp", "prefs_items.cpp"): the list of preferences as a multimap from name and type
    to values, the settings file, the command line.
  \<^item> \<open>SysHost\<close>: host files, the search for an HFS partition, and the locale \<open>block_driver\<close>, the contract
    of a driver's Prime routine: what is written is read back. \<open>Disk\<close> ("disk.cpp"), \<open>Sony\<close>
    ("sony.cpp") and \<open>CDROM\<close> ("cdrom.cpp") interpret it.
  \<^item> \<open>Volumes\<close> (MountVolume() of "macos_util.cpp"): the locale \<open>volume_driver\<close> with its interpretation
    by the three drivers, and their composition.
  \<^item> \<open>VideoModes\<close> and \<open>Video\<close> ("video.h", "video.cpp"): mode tables, palettes, gamma tables, switching
    modes, and the driver calls. \<open>SlotROM\<close> ("slot_rom.cpp"): the NuBus declaration ROM as bytes, with
    a reader of its directory; \<open>Video\<close> patches that ROM and computes its checksum anew.
  \<^item> \<open>Serial\<close> ("serial.cpp", "dummy/serial_dummy.cpp"): the serial drivers over the locale
    \<open>serial_device\<close>, interpreted by the dummy port.
  \<^item> \<open>Startup\<close> ("main.cpp", "xpram.cpp", "Unix/xpram_unix.cpp"): the choice of the processor, the
    parameter RAM and its file, and the order in which the components come up.

  \<^item> \<open>Ether\<close> ("ether.cpp", "ether.h"): the Ethernet driver, the write data structures, and the locale
    \<open>handler_table\<close>, the contract of a platform that keeps protocol handlers; \<open>EtherUnix\<close>
    ("Unix/ether_unix.cpp") interprets it, and models transmission and the interrupt that hands the
    received packets to the handlers.
  \<^item> \<open>CodeStubs\<close>: the writer of blocks of 68k routines. \<open>Audio\<close> ("audio.cpp"): the sound output component
    over the locale \<open>audio_device\<close>, and the sound input driver; \<open>AudioSDL\<close> ("SDL/audio_sdl.cpp")
    interprets the locale and models the stream function.
  \<^item> The external file system ("extfs.cpp", "Unix/extfs_unix.cpp", "AmigaOS-4/stccpy.cpp"): \<open>ExtFSHost\<close> (host
    paths and helper files), \<open>ExtFSItems\<close> (the table of items, names, error codes, and the frame in
    which an operation may end early with an error), \<open>ExtFSPath\<close> (from a parameter block to an item),
    \<open>ExtFSCatalog\<close> and \<open>ExtFSFiles\<close> (the calls), \<open>ExtFS\<close> (the entry points), \<open>ExtFSInstall\<close>. \<open>ExtFSTable\<close>
    proves what every call keeps of the table: the locales \<open>fs_lookup\<close> and \<open>fs_table\<close> are the laws of the
    table's updates, interpreted for well-formedness and for growth. \<open>ExtFSCalls\<close> and \<open>ExtFSTransfer\<close>
    prove what the calls do.
  \<^item> \<open>SparseBundle\<close> ("Unix/disk_sparsebundle.cpp"): a disk in band files, over the same system calls; the
    locale \<open>band_transfer\<close> lifts what a function does to one band to the loop over the bands and is
    interpreted for reading and for writing; a view of a host's files gives the disk as a row of bytes.
    The loop is a \<open>partial_function\<close>: the lemmas show that it ends and moves every byte of the range.
  \<^item> \<open>CodePatches\<close>: the extended opcodes of "emul_op.h", the search for a pattern of bytes and the frame
    of a patch: which bytes it changes, and that patches which do not overlap leave each other alone.
    \<open>RsrcPatches\<close> ("rsrc_patches.cpp"): the patches of resources as Mac OS loads them. \<open>RomSearch\<close>, \<open>RomDrivers\<close>
    and \<open>RomPatches\<close> ("rom_patches.cpp"): the searches for data, resources and traps in the ROM with
    abstract descriptions of the two tables; the drivers in 68k code that stand in the ROM for the C++
    ones; the patches of the Classic ROM, whose result is a list of blocks that do not overlap, and of the
    32-bit ROMs, a sequence of steps each of which may refuse the ROM. The constant \<open>PatchROM\<close> is the
    routine itself; \<open>Startup\<close> has a parameter of that name in \<open>startup_env\<close>.
  \<^item> \<open>EmulOp\<close> ("emul_op.cpp"): the state of the whole emulator, one component per field, and the
    dispatcher: each extended opcode of the ROM calls a routine of a component with the 68k registers as
    arguments and results. Every opcode from 0x7101 to 0x7137 has exactly one handler and every
    other ends the emulator. Through it the properties of the components become properties of the
    opcodes: a key reaches the Mac through the interrupt opcode, the SCSI trap is the SCSI
    Manager's state machine, the parameter RAM is a memory.

  Each theory states its operations in the order of the source, one definition per routine or per
  branch of a long one, then its invariant and the lemmas about every operation, then the
  properties, marked C1 to C40.

  Loops and partiality. A loop over a C array or vector is a fold or a structural recursion; a loop
  with an exit is a function with a measure. Loops that may run forever are partial functions with
  values in an option type: the walk over a drive queue in Mac memory, the drain of the key buffer,
  the execution of SCSI transfer instructions, the search for the first resolution, the parsing of a
  pathname by the Mac's routines, the walk from an item to the root. The theorems
  about them show that they return in the stated cases. The only fuel is in the search
  for partitions, whose 64 blocks are the bound in the source. An operation whose C++ text has
  undefined behaviour in some state (an index out of an array, a shift by a negative amount, the end
  iterator) gives \<open>None\<close> there. Integers have the width of the source; addresses wrap.

  Not modelled. The 68k processors and the JIT compilers: third-party or generated, a parameter
  here. In "rom_patches.cpp" the listing of the ROM for the user; in "emul_op.cpp" the clipboard, the
  video interrupt and the NMI, which belong to a platform and are parameters. A handler takes its
  component's variables out of the state and puts them back: Mac code that it calls and that enters
  the same component once more sees the variables from before. The rest of the platform directories, the preferences
  editors, the texts, "pict.c" and "slirp": host glue, data, or third-party. In the modelled files: PowerPC and
  real addressing branches, debug output, and the destructors of mutexes. Interrupts are taken
  between operations, as the emulator does; data races of the platform's threads are not modelled.
\<close>

end
